(* ===== verification/Prelude.thy ===== *)
theory Prelude
  imports Main "HOL-Library.Multiset" "HOL-Library.Char_ord" "HOL-Library.List_Lexorder"
begin

text \<open>
  Shared vocabulary of the development.

  \<^item> The outcome of a Go call: a value, an error value (\<open>gerror\<close>, package
    \<open>gerror\<close>), or a run-time panic (failed type assertion, index out of range).
  \<^item> The functions of Go's standard library that the sources use on strings and
    numbers: \<open>strings.Split\<close>, \<open>strings.Join\<close>, \<open>strconv.Atoi\<close>,
    \<open>strconv.ParseInt\<close>, decimal formatting, \<open>sort.Sort\<close> with a comparison.
  \<^item> The named collections of facts that the component proofs pass to the simplifier.

  A Go string is a sequence of bytes and a \<open>char\<close> is a byte, so \<open>string\<close> models it
  exactly; the order of \<open>HOL-Library.List_Lexorder\<close> on it is Go's order on strings.
\<close>

named_theorems outcome_simps \<open>rewriting of outcomes\<close>
named_theorems go_string_simps \<open>split, join and number formatting\<close>

subsection \<open>Errors (package gerror) and outcomes\<close>

text \<open>\<^verbatim>\<open>gerror.gerror\<close>: a message and an HTTP status.\<close>

record gerror =
  msg :: string
  status :: int

definition StatusBadRequest :: int where "StatusBadRequest = 400"
definition StatusUnauthorized :: int where "StatusUnauthorized = 401"
definition StatusForbidden :: int where "StatusForbidden = 403"
definition StatusNotFound :: int where "StatusNotFound = 404"
definition StatusMethodNotAllowed :: int where "StatusMethodNotAllowed = 405"
definition StatusNotAcceptable :: int where "StatusNotAcceptable = 406"
definition StatusConflict :: int where "StatusConflict = 409"
definition StatusPreconditionFailed :: int where "StatusPreconditionFailed = 412"
definition StatusInternalServerError :: int where "StatusInternalServerError = 500"

definition gerror_New :: "string \<Rightarrow> gerror" where
  "gerror_New text = \<lparr>msg = text, status = StatusBadRequest\<rparr>"

definition StatusError :: "string \<Rightarrow> int \<Rightarrow> gerror" where
  "StatusError m s = \<lparr>msg = m, status = s\<rparr>"

definition SetStatus :: "int \<Rightarrow> gerror \<Rightarrow> gerror" where
  "SetStatus s e = e\<lparr>status := s\<rparr>"

definition CastErr :: "gerror \<Rightarrow> gerror" where
  "CastErr e = gerror_New (msg e)"

datatype 'a outcome = Ok 'a | Err gerror | Panic

abbreviation Errorf :: "string \<Rightarrow> 'a outcome" where
  "Errorf m \<equiv> Err (gerror_New m)"

abbreviation ErrorS :: "string \<Rightarrow> int \<Rightarrow> 'a outcome" where
  "ErrorS m s \<equiv> Err (SetStatus s (gerror_New m))"

primrec outcome_bind :: "'a outcome \<Rightarrow> ('a \<Rightarrow> 'b outcome) \<Rightarrow> 'b outcome" where
  "outcome_bind (Ok x) f = f x"
| "outcome_bind (Err e) f = Err e"
| "outcome_bind Panic f = Panic"

primrec is_ok :: "'a outcome \<Rightarrow> bool" where
  "is_ok (Ok x) = True"
| "is_ok (Err e) = False"
| "is_ok Panic = False"

lemma is_ok_iff [outcome_simps]: "is_ok r \<longleftrightarrow> (\<exists>x. r = Ok x)"
  by (cases r) auto

lemma outcome_bind_Ok_iff [outcome_simps]:
  "outcome_bind r f = Ok y \<longleftrightarrow> (\<exists>x. r = Ok x \<and> f x = Ok y)"
  by (cases r) auto

lemma outcome_bind_Panic_iff [outcome_simps]:
  "outcome_bind r f = Panic \<longleftrightarrow> r = Panic \<or> (\<exists>x. r = Ok x \<and> f x = Panic)"
  by (cases r) auto

lemma status_gerror_New [simp]: "status (gerror_New m) = 400" "msg (gerror_New m) = m"
  by (simp_all add: gerror_New_def StatusBadRequest_def)

lemma status_SetStatus [simp]: "status (SetStatus s e) = s" "msg (SetStatus s e) = msg e"
  by (simp_all add: SetStatus_def)

subsection \<open>Character classes of the regular expressions\<close>

definition is_upper :: "char \<Rightarrow> bool" where "is_upper c \<longleftrightarrow> CHR ''A'' \<le> c \<and> c \<le> CHR ''Z''"
definition is_lower :: "char \<Rightarrow> bool" where "is_lower c \<longleftrightarrow> CHR ''a'' \<le> c \<and> c \<le> CHR ''z''"
definition is_digit :: "char \<Rightarrow> bool" where "is_digit c \<longleftrightarrow> CHR ''0'' \<le> c \<and> c \<le> CHR ''9''"

definition is_alnum :: "char \<Rightarrow> bool" where
  "is_alnum c \<longleftrightarrow> is_upper c \<or> is_lower c \<or> is_digit c"

text \<open>The class \<^verbatim>\<open>\w\<close> of Go's regular expressions: ASCII word characters.\<close>

definition is_word :: "char \<Rightarrow> bool" where
  "is_word c \<longleftrightarrow> is_alnum c \<or> c = CHR ''_''"

subsection \<open>strings.Split and strings.Join with a one-byte separator\<close>

fun split_on :: "char \<Rightarrow> string \<Rightarrow> string list" where
  "split_on c [] = [[]]"
| "split_on c (x # xs) =
     (if x = c then [] # split_on c xs
      else (case split_on c xs of [] \<Rightarrow> [[x]] | y # ys \<Rightarrow> (x # y) # ys))"

fun join_with :: "string \<Rightarrow> string list \<Rightarrow> string" where
  "join_with sep [] = []"
| "join_with sep [x] = x"
| "join_with sep (x # y # ys) = x @ sep @ join_with sep (y # ys)"

lemma split_on_ne [simp]: "split_on c s \<noteq> []"
  by (cases s) (auto split: list.splits)

lemma split_on_none [go_string_simps]: "c \<notin> set s \<Longrightarrow> split_on c s = [s]"
  by (induction s) (auto split: list.splits)

lemma split_on_app [go_string_simps]:
  "c \<notin> set s \<Longrightarrow> split_on c (s @ c # t) = s # split_on c t"
  by (induction s) (auto split: list.splits)

lemma split_on_no_sep: "p \<in> set (split_on c s) \<Longrightarrow> c \<notin> set p"
  by (induction s arbitrary: p) (auto split: if_splits list.splits)

lemma join_split [simp]: "join_with [c] (split_on c s) = s"
proof (induction s)
  case Nil
  show ?case by simp
next
  case (Cons x xs)
  obtain y ys where s: "split_on c xs = y # ys"
    by (cases "split_on c xs") auto
  show ?case
    using Cons by (cases ys) (auto simp: s)
qed

lemma set_join_with: "x \<in> set (join_with s ps) \<Longrightarrow> x \<in> set s \<or> (\<exists>p\<in>set ps. x \<in> set p)"
  by (induction s ps rule: join_with.induct) auto

lemma mem_map_filter: "x \<in> set (List.map_filter f ks) \<longleftrightarrow> (\<exists>k\<in>set ks. f k = Some x)"
  by (force simp: List.map_filter_def)

lemma split_on_inj: "split_on c s = split_on c t \<Longrightarrow> s = t"
  by (metis join_split)

lemma split_join:
  "xs \<noteq> [] \<Longrightarrow> \<forall>x\<in>set xs. c \<notin> set x \<Longrightarrow> split_on c (join_with [c] xs) = xs"
  by (induction "[c]" xs rule: join_with.induct) (auto simp: go_string_simps)

text \<open>The format \<^verbatim>\<open>'%s'\<close>.\<close>

definition sq :: "string \<Rightarrow> string" where
  "sq s = [CHR 0x27] @ s @ [CHR 0x27]"

subsection \<open>Decimal numbers\<close>

definition digit_val :: "char \<Rightarrow> nat" where
  "digit_val c = of_char c - 48"

definition digit_char :: "nat \<Rightarrow> char" where
  "digit_char n = char_of (n + 48)"

fun string_of_nat :: "nat \<Rightarrow> string" where
  "string_of_nat n =
     (if n < 10 then [digit_char n] else string_of_nat (n div 10) @ [digit_char (n mod 10)])"

declare string_of_nat.simps [simp del]

definition digits_val :: "nat \<Rightarrow> string \<Rightarrow> nat" where
  "digits_val b s = foldl (\<lambda>a c. a * b + digit_val c) 0 s"

lemma digit_val_char [simp]: "n < 10 \<Longrightarrow> digit_val (digit_char n) = n"
  by (simp add: digit_val_def digit_char_def)

lemma is_digit_of_char: "is_digit c \<longleftrightarrow> 48 \<le> (of_char c :: nat) \<and> (of_char c :: nat) \<le> 57"
  by (simp add: is_digit_def less_eq_char_def)

lemma is_digit_digit_char [simp]: "n < 10 \<Longrightarrow> is_digit (digit_char n)"
  by (simp add: is_digit_of_char digit_char_def)

lemma digit_val_lt: "is_digit c \<Longrightarrow> digit_val c < 10"
  by (auto simp: is_digit_of_char digit_val_def)

lemma string_of_nat_ne [simp]: "string_of_nat n \<noteq> []"
  by (subst string_of_nat.simps) simp

lemma string_of_nat_digits: "\<forall>c\<in>set (string_of_nat n). is_digit c"
proof (induction n rule: string_of_nat.induct)
  case (1 n)
  then show ?case by (subst string_of_nat.simps) auto
qed

lemma digits_val_string_of_nat [simp]: "digits_val 10 (string_of_nat n) = n"
proof (induction n rule: string_of_nat.induct)
  case (1 n)
  then show ?case
    by (subst string_of_nat.simps) (auto simp: digits_val_def)
qed

lemma string_of_nat_inj: "string_of_nat m = string_of_nat n \<Longrightarrow> m = n"
  by (metis digits_val_string_of_nat)

lemma dot_not_digit [simp]: "\<not> is_digit (CHR ''.'')"
  by (simp add: is_digit_def less_eq_char_def)

lemma dot_notin_string_of_nat [simp]: "CHR ''.'' \<notin> set (string_of_nat n)"
  using string_of_nat_digits [of n] by auto

end
