(* ===== verification/GoLib.thy ===== *)
theory GoLib
  imports Prelude
begin

text \<open>
  The parts of Go's \<open>strconv\<close> and \<open>sort\<close> packages that the sources call.

  \<^item> \<open>ParseInt10\<close> is \<open>strconv.ParseInt(s, 10, 64)\<close>; \<open>strconv.Atoi\<close> returns the same
    pair on a 64-bit platform. The value is clamped on a range error and 0 on a syntax
    error, which matters because \<open>versionLess\<close> ignores the error.
  \<^item> \<open>ParseInt0\<close> is \<open>strconv.ParseInt(s, 0, 64)\<close> on strings of decimal digits, the only
    strings \<open>extractVerNums\<close> passes to it: a leading zero selects base 8.
  \<^item> \<open>sort_by\<close> sorts by a comparison function. Go's \<open>sort.Sort\<close> promises a result that is
    sorted and a permutation; \<open>sort_by_unique\<close> shows that for a strict total order on
    the elements there is only one such list, so the choice of algorithm is immaterial.
  \<^item> \<open>sort_Search\<close> is \<open>sort.Search\<close>, the binary search.
\<close>

subsection \<open>strconv\<close>

datatype num_error = ErrSyntax | ErrRange

fun parse_uint_loop :: "nat \<Rightarrow> nat \<Rightarrow> string \<Rightarrow> num_error + nat" where
  "parse_uint_loop b acc [] = Inr acc"
| "parse_uint_loop b acc (c # cs) =
     (if \<not> is_digit c \<or> b \<le> digit_val c then Inl ErrSyntax
      else if 2 ^ 64 \<le> acc * b + digit_val c then Inl ErrRange
      else parse_uint_loop b (acc * b + digit_val c) cs)"

definition clamp_int :: "bool \<Rightarrow> (num_error + nat) \<Rightarrow> int \<times> num_error option" where
  "clamp_int neg r =
     (case r of
        Inl ErrSyntax \<Rightarrow> (0, Some ErrSyntax)
      | Inl ErrRange \<Rightarrow> (if neg then (- (2 ^ 63), Some ErrRange) else (2 ^ 63 - 1, Some ErrRange))
      | Inr n \<Rightarrow>
          (if \<not> neg \<and> 2 ^ 63 \<le> n then (2 ^ 63 - 1, Some ErrRange)
           else if neg \<and> 2 ^ 63 < n then (- (2 ^ 63), Some ErrRange)
           else (if neg then - int n else int n, None)))"

definition ParseInt10 :: "string \<Rightarrow> int \<times> num_error option" where
  "ParseInt10 s =
     (case s of
        [] \<Rightarrow> (0, Some ErrSyntax)
      | c # cs \<Rightarrow>
          (let neg = (c = CHR ''-'');
               ds = (if c = CHR ''+'' \<or> c = CHR ''-'' then cs else s)
           in if ds = [] then (0, Some ErrSyntax)
              else clamp_int neg (parse_uint_loop 10 0 ds)))"

abbreviation Atoi :: "string \<Rightarrow> int \<times> num_error option" where
  "Atoi \<equiv> ParseInt10"

definition ParseInt0 :: "string \<Rightarrow> int \<times> num_error option" where
  "ParseInt0 s =
     (case s of
        [] \<Rightarrow> (0, Some ErrSyntax)
      | c # cs \<Rightarrow>
          (if c = CHR ''0'' then clamp_int False (parse_uint_loop 8 0 cs)
           else clamp_int False (parse_uint_loop 10 0 s)))"

definition num_error_text :: "num_error \<Rightarrow> string" where
  "num_error_text e =
     (case e of ErrSyntax \<Rightarrow> ''invalid syntax'' | ErrRange \<Rightarrow> ''value out of range'')"

text \<open>\<open>x++\<close> on Go's 64-bit \<open>int\<close>.\<close>

definition int64_inc :: "int \<Rightarrow> int" where
  "int64_inc x = (if x = 2 ^ 63 - 1 then - (2 ^ 63) else x + 1)"

definition is_digits :: "string \<Rightarrow> bool" where
  "is_digits s \<longleftrightarrow> list_all is_digit s"

lemma foldl_digits_mono:
  "1 \<le> b \<Longrightarrow> a \<le> foldl (\<lambda>a c. a * b + digit_val c) a s"
proof (induction s arbitrary: a)
  case Nil
  then show ?case by simp
next
  case (Cons c s)
  have "a \<le> a * b + digit_val c"
    using Cons.prems by (simp add: trans_le_add1)
  also have "\<dots> \<le> foldl (\<lambda>a c. a * b + digit_val c) (a * b + digit_val c) s"
    using Cons by blast
  finally show ?case by simp
qed

lemma parse_uint_loop_dec:
  assumes "is_digits s"
  shows "parse_uint_loop 10 a s =
    (if foldl (\<lambda>a c. a * 10 + digit_val c) a s < 2 ^ 64 \<or> s = []
     then Inr (foldl (\<lambda>a c. a * 10 + digit_val c) a s) else Inl ErrRange)"
  using assms
proof (induction s arbitrary: a)
  case Nil
  then show ?case by simp
next
  case (Cons c s)
  then have d: "is_digit c" "digit_val c < 10" and IH: "is_digits s"
    using digit_val_lt by (auto simp: is_digits_def)
  let ?a = "a * 10 + digit_val c"
  have mono: "?a \<le> foldl (\<lambda>a c. a * 10 + digit_val c) ?a s"
    by (rule foldl_digits_mono) simp
  show ?case
  proof (cases "2 ^ 64 \<le> ?a")
    case True
    with mono have "\<not> foldl (\<lambda>a c. a * 10 + digit_val c) ?a s < 2 ^ 64"
      by linarith
    with True d show ?thesis by simp
  next
    case False
    with d Cons.IH [OF IH, of ?a] show ?thesis
      by (cases "s = []") auto
  qed
qed

lemma digit_not_sign: "is_digit c \<Longrightarrow> c \<noteq> CHR ''+'' \<and> c \<noteq> CHR ''-''"
  by (auto simp: is_digit_def less_eq_char_def)

text \<open>On decimal digits \<open>ParseInt10\<close> is the number, or the clamped number with a range error.\<close>

lemma ParseInt10_digits:
  assumes "is_digits s" "s \<noteq> []"
  shows "ParseInt10 s =
    (if digits_val 10 s < 2 ^ 63 then (int (digits_val 10 s), None)
     else (2 ^ 63 - 1, Some ErrRange))"
proof -
  obtain c cs where s: "s = c # cs" using assms(2) by (cases s) auto
  with assms have "is_digit c" by (simp add: is_digits_def)
  from digit_not_sign [OF this] have "ParseInt10 s = clamp_int False (parse_uint_loop 10 0 s)"
    by (simp add: ParseInt10_def s)
  then show ?thesis
    using parse_uint_loop_dec [OF assms(1), of 0] assms(2)
    by (simp add: digits_val_def clamp_int_def)
qed

lemma is_digits_string_of_nat [simp]: "is_digits (string_of_nat n)"
  using string_of_nat_digits [of n] by (simp add: is_digits_def list_all_iff)

lemma ParseInt10_string_of_nat:
  "n < 2 ^ 63 \<Longrightarrow> ParseInt10 (string_of_nat n) = (int n, None)"
  by (simp add: ParseInt10_digits)

lemma ParseInt10_range: "- (2 ^ 63) \<le> fst (ParseInt10 s) \<and> fst (ParseInt10 s) < 2 ^ 63"
  by (auto simp: ParseInt10_def clamp_int_def Let_def split: list.splits sum.splits num_error.splits)

subsection \<open>sort.Sort with a comparison function\<close>

fun insort_by :: "('a \<Rightarrow> 'a \<Rightarrow> bool) \<Rightarrow> 'a \<Rightarrow> 'a list \<Rightarrow> 'a list" where
  "insort_by lt x [] = [x]"
| "insort_by lt x (y # ys) = (if lt y x then y # insort_by lt x ys else x # y # ys)"

definition sort_by :: "('a \<Rightarrow> 'a \<Rightarrow> bool) \<Rightarrow> 'a list \<Rightarrow> 'a list" where
  "sort_by lt xs = foldr (insort_by lt) xs []"

lemma mset_insort_by [simp]: "mset (insort_by lt x ys) = add_mset x (mset ys)"
  by (induction ys) auto

lemma mset_sort_by [simp]: "mset (sort_by lt xs) = mset xs"
  by (induction xs) (auto simp: sort_by_def)

lemma set_insort_by [simp]: "set (insort_by lt x ys) = insert x (set ys)"
  by (metis mset_insort_by set_mset_add_mset_insert set_mset_mset)

lemma set_sort_by [simp]: "set (sort_by lt xs) = set xs"
  by (metis mset_sort_by set_mset_mset)

lemma length_sort_by [simp]: "length (sort_by lt xs) = length xs"
  by (metis mset_sort_by size_mset)

lemma distinct_sort_by [simp]: "distinct (sort_by lt xs) = distinct xs"
  by (metis mset_sort_by mset_eq_imp_distinct_iff)

definition strict_total_on :: "('a \<Rightarrow> 'a \<Rightarrow> bool) \<Rightarrow> 'a set \<Rightarrow> bool" where
  "strict_total_on lt A \<longleftrightarrow>
     (\<forall>x\<in>A. \<not> lt x x) \<and>
     (\<forall>x\<in>A. \<forall>y\<in>A. \<forall>z\<in>A. lt x y \<longrightarrow> lt y z \<longrightarrow> lt x z) \<and>
     (\<forall>x\<in>A. \<forall>y\<in>A. x \<noteq> y \<longrightarrow> lt x y \<or> lt y x)"

lemma strict_total_onD:
  assumes "strict_total_on lt A"
  shows "x \<in> A \<Longrightarrow> \<not> lt x x"
    and "x \<in> A \<Longrightarrow> y \<in> A \<Longrightarrow> z \<in> A \<Longrightarrow> lt x y \<Longrightarrow> lt y z \<Longrightarrow> lt x z"
    and "x \<in> A \<Longrightarrow> y \<in> A \<Longrightarrow> x \<noteq> y \<Longrightarrow> lt x y \<or> lt y x"
  using assms unfolding strict_total_on_def by blast+

lemma strict_total_on_subset:
  "strict_total_on lt A \<Longrightarrow> B \<subseteq> A \<Longrightarrow> strict_total_on lt B"
  unfolding strict_total_on_def by blast

lemma sorted_insort_by:
  assumes "strict_total_on lt (insert x (set ys))" "sorted_wrt lt ys" "x \<notin> set ys"
  shows "sorted_wrt lt (insort_by lt x ys)"
  using assms
proof (induction ys)
  case Nil
  then show ?case by simp
next
  case (Cons y ys)
  have IH: "sorted_wrt lt (insort_by lt x ys)"
    using Cons strict_total_on_subset [OF Cons.prems(1), of "insert x (set ys)"] by auto
  show ?case
  proof (cases "lt y x")
    case True
    with IH Cons.prems show ?thesis by auto
  next
    case False
    with Cons.prems have "lt x y"
      using strict_total_onD(3) [OF Cons.prems(1), of x y] by auto
    moreover have "lt x z" if "z \<in> set ys" for z
      using strict_total_onD(2) [OF Cons.prems(1), of x y z] that \<open>lt x y\<close> Cons.prems(2) by auto
    ultimately show ?thesis
      using False Cons.prems by auto
  qed
qed

lemma sorted_sort_by:
  assumes "strict_total_on lt (set xs)" "distinct xs"
  shows "sorted_wrt lt (sort_by lt xs)"
  using assms
proof (induction xs)
  case Nil
  then show ?case by (simp add: sort_by_def)
next
  case (Cons x xs)
  have "sorted_wrt lt (sort_by lt xs)"
    using Cons strict_total_on_subset [OF Cons.prems(1), of "set xs"] by auto
  moreover have "strict_total_on lt (insert x (set (sort_by lt xs)))"
    using Cons.prems(1) by simp
  moreover have "x \<notin> set (sort_by lt xs)"
    using Cons.prems(2) by simp
  ultimately show ?case
    using sorted_insort_by [of lt x "sort_by lt xs"] by (simp add: sort_by_def)
qed

text \<open>For a strict total order a sorted permutation is unique.\<close>

lemma sorted_wrt_unique:
  assumes "strict_total_on lt (set xs)" "sorted_wrt lt xs" "sorted_wrt lt ys"
    "mset xs = mset ys"
  shows "xs = ys"
  using assms
proof (induction xs arbitrary: ys)
  case Nil
  then show ?case by simp
next
  case (Cons x xs)
  then obtain y ys' where ys: "ys = y # ys'"
    by (cases ys) auto
  have sets: "set (x # xs) = set (y # ys')"
    using Cons.prems(4) ys by (metis set_mset_mset)
  have "x = y"
  proof (rule ccontr)
    assume ne: "x \<noteq> y"
    with sets have "y \<in> set xs" "x \<in> set ys'" by auto
    with Cons.prems(2,3) ys have "lt x y" "lt y x" by auto
    then show False
      using strict_total_onD(1,2) [OF Cons.prems(1)] \<open>y \<in> set xs\<close> by (meson list.set_intros)
  qed
  with Cons ys show ?case
    using strict_total_on_subset [OF Cons.prems(1), of "set xs"] by auto
qed

lemma sort_by_unique:
  assumes "strict_total_on lt (set xs)" "distinct xs" "sorted_wrt lt ys" "mset ys = mset xs"
  shows "ys = sort_by lt xs"
proof -
  have "strict_total_on lt (set ys)"
    using assms(1,4) by (metis set_mset_mset)
  then show ?thesis
    using sorted_wrt_unique assms sorted_sort_by by (metis mset_sort_by)
qed

subsection \<open>sort.Search\<close>

function sort_Search_loop :: "(nat \<Rightarrow> bool) \<Rightarrow> nat \<Rightarrow> nat \<Rightarrow> nat" where
  "sort_Search_loop f i j =
     (if i < j then
        (let h = (i + j) div 2 in
         if \<not> f h then sort_Search_loop f (h + 1) j else sort_Search_loop f i h)
      else i)"
  by pat_completeness auto
termination
  by (relation "measure (\<lambda>(f, i, j). j - i)") auto

declare sort_Search_loop.simps [simp del]

definition sort_Search :: "nat \<Rightarrow> (nat \<Rightarrow> bool) \<Rightarrow> nat" where
  "sort_Search n f = sort_Search_loop f 0 n"

definition least_from :: "nat \<Rightarrow> (nat \<Rightarrow> bool) \<Rightarrow> nat \<Rightarrow> bool" where
  "least_from n f r \<longleftrightarrow> (\<forall>k<r. \<not> f k) \<and> (\<forall>k. r \<le> k \<longrightarrow> k < n \<longrightarrow> f k) \<and> r \<le> n"

lemma sort_Search_loop_correct:
  assumes "\<forall>k m. k \<le> m \<longrightarrow> m < n \<longrightarrow> f k \<longrightarrow> f m"
    and "i \<le> j" "\<forall>k<i. \<not> f k" "\<forall>k. j \<le> k \<longrightarrow> k < n \<longrightarrow> f k" "j \<le> n"
  shows "least_from n f (sort_Search_loop f i j)"
  using assms
proof (induction f i j rule: sort_Search_loop.induct)
  case (1 f i j)
  note mono = "1.prems"(1)
  define h where "h = (i + j) div 2"
  note unf = sort_Search_loop.simps [of f i j, unfolded Let_def, folded h_def]
  consider "\<not> i < j" | "i < j" "f h" | "i < j" "\<not> f h" by blast
  then show ?case
  proof cases
    case 1
    then have "sort_Search_loop f i j = i" by (simp add: unf)
    moreover from 1 "1.prems" have "i = j" by simp
    ultimately show ?thesis using "1.prems" by (simp add: least_from_def)
  next
    case 2
    then have h: "i \<le> h" "h < j" by (simp_all add: h_def)
    have up: "\<forall>k. h \<le> k \<longrightarrow> k < n \<longrightarrow> f k" using mono 2(2) by blast
    have nn: "\<not> \<not> f h" and hn: "h \<le> n" using 2 h "1.prems"(5) by simp_all
    have "least_from n f (sort_Search_loop f i h)"
      by (rule "1.IH"(2) [OF 2(1) h_def nn mono h(1) "1.prems"(3) up hn])
    with 2 show ?thesis by (simp add: unf)
  next
    case 3
    then have h: "h + 1 \<le> j" "h < n" using "1.prems" by (simp_all add: h_def)
    have down: "\<forall>k<h + 1. \<not> f k" using mono 3(2) h(2) by (metis Suc_eq_plus1 less_Suc_eq_le)
    have "least_from n f (sort_Search_loop f (h + 1) j)"
      by (rule "1.IH"(1) [OF 3(1) h_def 3(2) mono h(1) down "1.prems"(4,5)])
    with 3 show ?thesis by (simp add: unf)
  qed
qed

text \<open>For a predicate that stays true once it is true, the least index where it holds.\<close>

lemma sort_Search_correct:
  assumes "\<And>k m. k \<le> m \<Longrightarrow> m < n \<Longrightarrow> f k \<Longrightarrow> f m"
  shows "least_from n f (sort_Search n f)"
  unfolding sort_Search_def by (rule sort_Search_loop_correct) (use assms in auto)

lemma sort_Search_le: "sort_Search n f \<le> n"
proof -
  have "i \<le> j \<Longrightarrow> sort_Search_loop f i j \<le> j" for i j
  proof (induction f i j rule: sort_Search_loop.induct)
    case (1 f i j)
    then show ?case using sort_Search_loop.simps [of f i j] by (fastforce simp: Let_def)
  qed
  then show ?thesis by (simp add: sort_Search_def)
qed

text \<open>Sorting by a key, where equal keys may occur, and cutting the sorted list at a bound by
  binary search.\<close>

lemma sorted_sort_by_key:
  fixes f :: "'a \<Rightarrow> 'b::linorder"
  shows "sorted (map f (sort_by (\<lambda>a b. f a < f b) xs))"
proof (induction xs)
  case Nil
  then show ?case by (simp add: sort_by_def)
next
  case (Cons x xs)
  have "sorted (map f (insort_by (\<lambda>a b. f a < f b) x ys))" if "sorted (map f ys)" for ys
    using that by (induction ys) auto
  with Cons show ?case by (simp add: sort_by_def)
qed

lemma drop_sort_Search:
  fixes f :: "'a \<Rightarrow> 'b::linorder"
  assumes "sorted (map f ys)"
  shows "drop (sort_Search (length ys) (\<lambda>i. c < f (ys ! i))) ys = filter (\<lambda>x. c < f x) ys"
proof -
  let ?f = "\<lambda>i. c < f (ys ! i)"
  define r where "r = sort_Search (length ys) ?f"
  have "?f m" if "k \<le> m" "m < length ys" "?f k" for k m
    using sorted_nth_mono [OF assms, of k m] that by (simp add: less_le_trans)
  then have l: "least_from (length ys) ?f r" unfolding r_def by (rule sort_Search_correct)
  have "filter (\<lambda>x. c < f x) (take r ys) = []"
    using l by (auto simp: least_from_def filter_empty_conv in_set_conv_nth)
  moreover have "filter (\<lambda>x. c < f x) (drop r ys) = drop r ys"
    using l by (auto simp: least_from_def filter_id_conv in_set_conv_nth)
  ultimately show ?thesis
    unfolding r_def [symmetric] by (metis append_Nil append_take_drop_id filter_append)
qed

text \<open>On a list along which a condition once true stays true, the search splits off the elements
  that do not satisfy it.\<close>

lemma take_sort_Search:
  assumes "\<And>i j. i \<le> j \<Longrightarrow> j < length ys \<Longrightarrow> Q (ys ! i) \<Longrightarrow> Q (ys ! j)"
  shows "take (sort_Search (length ys) (\<lambda>i. Q (ys ! i))) ys = filter (\<lambda>x. \<not> Q x) ys"
proof -
  let ?f = "\<lambda>i. Q (ys ! i)"
  define r where "r = sort_Search (length ys) ?f"
  have l: "least_from (length ys) ?f r" unfolding r_def by (rule sort_Search_correct) (rule assms)
  have "filter (\<lambda>x. \<not> Q x) (take r ys) = take r ys"
    using l by (auto simp: least_from_def filter_id_conv in_set_conv_nth)
  moreover have "filter (\<lambda>x. \<not> Q x) (drop r ys) = []"
    using l by (auto simp: least_from_def filter_empty_conv in_set_conv_nth)
  ultimately show ?thesis
    unfolding r_def [symmetric] by (metis append_Nil2 append_take_drop_id filter_append)
qed

text \<open>The usual purge: sort by a time, search for the cutoff, and take what comes before. The
  loop is skipped if the least time is above the cutoff.\<close>

lemma purged_prefix:
  fixes f :: "'a \<Rightarrow> int"
  assumes "\<And>x y. f x \<le> f y \<Longrightarrow> Q x \<Longrightarrow> Q y" "ys = sort_by (\<lambda>x y. f x < f y) xs"
  shows "take (sort_Search (length ys) (\<lambda>i. Q (ys ! i))) ys = filter (\<lambda>x. \<not> Q x) ys"
    "sort_Search (length ys) (\<lambda>i. Q (ys ! i)) = length (filter (\<lambda>x. \<not> Q x) ys)"
    "xs \<noteq> [] \<Longrightarrow> Q (hd ys) \<Longrightarrow> filter (\<lambda>x. \<not> Q x) ys = []"
    "mset (filter (\<lambda>x. \<not> Q x) ys) = mset (filter (\<lambda>x. \<not> Q x) xs)"
proof -
  have srt: "sorted (map f ys)" unfolding assms(2) by (rule sorted_sort_by_key)
  have "Q (ys ! j)" if "i \<le> j" "j < length ys" "Q (ys ! i)" for i j
    using assms(1) [of "ys ! i" "ys ! j"] sorted_nth_mono [OF srt, of i j] that by simp
  then show tk: "take (sort_Search (length ys) (\<lambda>i. Q (ys ! i))) ys = filter (\<lambda>x. \<not> Q x) ys"
    by (rule take_sort_Search)
  show "sort_Search (length ys) (\<lambda>i. Q (ys ! i)) = length (filter (\<lambda>x. \<not> Q x) ys)"
    using sort_Search_le [of "length ys" "\<lambda>i. Q (ys ! i)"] tk by (metis length_take min.absorb2)
  show "mset (filter (\<lambda>x. \<not> Q x) ys) = mset (filter (\<lambda>x. \<not> Q x) xs)" by (simp add: assms(2) mset_filter)
  show "filter (\<lambda>x. \<not> Q x) ys = []" if "xs \<noteq> []" "Q (hd ys)"
  proof (cases ys)
    case (Cons a l)
    then show ?thesis using srt that(2) assms(1) by (auto simp: filter_empty_conv)
  qed simp
qed

end
