(* ===== verification/Values.thy ===== *)
theory Values
  imports GoLib
begin

text \<open>
  The dynamically typed values (\<open>interface{}\<close>) that request bodies are decoded into, with
  one constructor per dynamic type the sources distinguish in a type switch. Requests are
  decoded with \<open>UseNumber\<close> (\<open>common.go\<close>), so a number is a \<open>json.Number\<close>, that is, its
  text. A Go map is an association list whose keys are distinct: Go leaves the order of
  iteration open, the list fixes one, and the theorems hold for every list.
\<close>

datatype gval =
    GNil
  | GBool bool
  | GNum string
  | GStr string
  | GArr "gval list"
  | GStrs "string list"
  | GMap "(string \<times> gval) list"
  | GStrMap "(string \<times> string) list"
  | GStrsMap "(string \<times> string list) list"

type_synonym gobj = "(string \<times> gval) list"

text \<open>\<open>m[k]\<close> on a map of type \<open>map[string]interface{}\<close>: a missing key reads as \<open>nil\<close>.\<close>

definition gget :: "gobj \<Rightarrow> string \<Rightarrow> gval" where
  "gget m k = (case map_of m k of None \<Rightarrow> GNil | Some v \<Rightarrow> v)"

definition ghas :: "gobj \<Rightarrow> string \<Rightarrow> bool" where
  "ghas m k \<longleftrightarrow> map_of m k \<noteq> None"

text \<open>\<open>m[k] = v\<close> and \<open>delete(m, k)\<close> on an association list.\<close>

fun aput :: "'k \<Rightarrow> 'v \<Rightarrow> ('k \<times> 'v) list \<Rightarrow> ('k \<times> 'v) list" where
  "aput k v [] = [(k, v)]"
| "aput k v ((k', v') # m) = (if k = k' then (k, v) # m else (k', v') # aput k v m)"

definition adel :: "'k \<Rightarrow> ('k \<times> 'v) list \<Rightarrow> ('k \<times> 'v) list" where
  "adel k m = filter (\<lambda>p. fst p \<noteq> k) m"

lemma map_of_aput [simp]: "map_of (aput k v m) = (map_of m)(k \<mapsto> v)"
  by (induction m) (auto simp: fun_eq_iff)

lemma map_of_adel [simp]: "map_of (adel k m) = (map_of m)(k := None)"
  by (induction m) (auto simp: adel_def fun_eq_iff)

lemma aput_aput [simp]: "aput k v (aput k v' m) = aput k v m"
  by (induction k v m rule: aput.induct) auto

lemma keys_aput: "fst ` set (aput k v m) = insert k (fst ` set m)"
  by (induction k v m rule: aput.induct) (simp_all add: insert_commute)

lemma distinct_aput [simp]: "distinct (map fst m) \<Longrightarrow> distinct (map fst (aput k v m))"
  by (induction k v m rule: aput.induct) (simp_all add: keys_aput)

lemma distinct_adel [simp]: "distinct (map fst m) \<Longrightarrow> distinct (map fst (adel k m))"
  unfolding adel_def by (induction m) auto

lemma keys_adel: "fst ` set (adel k m) = fst ` set m - {k}"
  unfolding adel_def by (induction m) auto

lemma gget_aput [simp]: "gget (aput k v m) k' = (if k' = k then v else gget m k')"
  by (simp add: gget_def)

text \<open>
  The loop labelled \<open>ValidElem\<close> that every \<open>UpdateFromJSON\<close> starts with: the first key of
  the body, in iteration order, that is not in the list of valid elements.
\<close>

fun first_invalid_key :: "string list \<Rightarrow> gobj \<Rightarrow> string option" where
  "first_invalid_key valid [] = None"
| "first_invalid_key valid ((k, v) # m) =
     (if k \<in> set valid then first_invalid_key valid m else Some k)"

lemma first_invalid_key_None [simp]:
  "first_invalid_key valid m = None \<longleftrightarrow> fst ` set m \<subseteq> set valid"
  by (induction valid m rule: first_invalid_key.induct) auto

lemma first_invalid_key_Some:
  "first_invalid_key valid m = Some k \<Longrightarrow> k \<in> fst ` set m \<and> k \<notin> set valid"
  by (induction valid m rule: first_invalid_key.induct) (auto split: if_splits)

end
