(* ===== verification/DataStore.thy ===== *)
theory DataStore
  imports Values
begin

text \<open>
  \<^verbatim>\<open>datastore/datastore.go\<close>: the in-memory data store. It keeps one cache keyed by
  \<open>type:name\<close> and, beside it, the list of the names of each type. Node statuses and
  logged events have cache entries of their own, kept here as separate fields.

  The store is polymorphic in the values it holds. In its default mode the Go store
  serialises a value with \<open>gob\<close> when it is set and deserialises it when it is fetched;
  the parameter \<open>codec\<close> is that round trip (it drops unexported fields), so that every
  fetch yields a fresh copy and values can be modelled without aliasing. The maps of
  node statuses are not serialised as a whole: the store and the reader share them, which
  \<open>LatestNodeStatus\<close> makes visible.

  The contract of the store is the locale \<open>object_store\<close>: what a fetch returns after a
  set or a delete, and that the list of names agrees with the cache. Components prove
  their lemmas from it and obtain them for their own type of object by interpretation.
\<close>

subsection \<open>State\<close>

record 'v datastore =
  dsc :: "string \<Rightarrow> 'v option"
  objList :: "string \<Rightarrow> string list option"
  nodestatuses :: "(int \<times> 'v) list option"
  nodestatuslists :: "(string \<times> int list) list option"
  loginfos :: "(int \<times> 'v) list option"
  updated :: bool

definition initDataStore :: "'v datastore" where
  "initDataStore = \<lparr>dsc = (\<lambda>_. None), objList = (\<lambda>_. None), nodestatuses = None,
     nodestatuslists = None, loginfos = None, updated = False\<rparr>"

subsection \<open>Objects\<close>

definition makeKey :: "string \<Rightarrow> string \<Rightarrow> string" where
  "makeKey keyType key = join_with '':'' [keyType, key]"

definition addToList :: "string \<Rightarrow> string \<Rightarrow> 'v datastore \<Rightarrow> 'v datastore" where
  "addToList keyType key ds =
     (let l = (case objList ds keyType of None \<Rightarrow> [] | Some l \<Rightarrow> l)
      in ds\<lparr>objList := (objList ds)(keyType \<mapsto> (if key \<in> set l then l else l @ [key]))\<rparr>)"

definition removeFromList :: "string \<Rightarrow> string \<Rightarrow> 'v datastore \<Rightarrow> 'v datastore" where
  "removeFromList keyType key ds =
     (case objList ds keyType of
        None \<Rightarrow> ds
      | Some l \<Rightarrow> ds\<lparr>objList := (objList ds)(keyType \<mapsto> filter (\<lambda>k. k \<noteq> key) l)\<rparr>)"

definition ds_Set :: "('v \<Rightarrow> 'v) \<Rightarrow> string \<Rightarrow> string \<Rightarrow> 'v \<Rightarrow> 'v datastore \<Rightarrow> 'v datastore" where
  "ds_Set codec keyType key val ds =
     addToList keyType key
       (ds\<lparr>updated := True, dsc := (dsc ds)(makeKey keyType key \<mapsto> codec val)\<rparr>)"

definition ds_Get :: "string \<Rightarrow> 'v datastore \<Rightarrow> string \<Rightarrow> 'v option" where
  "ds_Get keyType ds key = dsc ds (makeKey keyType key)"

definition ds_Delete :: "string \<Rightarrow> string \<Rightarrow> 'v datastore \<Rightarrow> 'v datastore" where
  "ds_Delete keyType key ds =
     removeFromList keyType key
       (ds\<lparr>updated := True, dsc := (dsc ds)(makeKey keyType key := None)\<rparr>)"

definition ds_GetList :: "string \<Rightarrow> 'v datastore \<Rightarrow> string list" where
  "ds_GetList keyType ds = sort (case objList ds keyType of None \<Rightarrow> [] | Some l \<Rightarrow> l)"

subsection \<open>Node statuses\<close>

datatype status_error = ErrNoStatuses | ErrNoStatusList | ErrNoNodeStatus string

definition getNextID :: "(int \<times> 'v) list \<Rightarrow> int" where
  "getNextID lis = (if lis = [] then 1 else int64_inc (hd (rev (sort (map fst lis)))))"

definition status_ids :: "(string \<times> int list) list \<Rightarrow> string \<Rightarrow> int list" where
  "status_ids nslist nodeName = (case map_of nslist nodeName of None \<Rightarrow> [] | Some l \<Rightarrow> l)"

definition ns_or_new :: "'a list option \<Rightarrow> 'a list" where
  "ns_or_new a = (case a of None \<Rightarrow> [] | Some m \<Rightarrow> m)"

definition SetNodeStatus ::
  "('v \<Rightarrow> 'v) \<Rightarrow> string \<Rightarrow> 'v \<Rightarrow> int option \<Rightarrow> 'v datastore \<Rightarrow> 'v datastore" where
  "SetNodeStatus codec nodeName obj nsID ds =
     (let ns = ns_or_new (nodestatuses ds);
          nslist = ns_or_new (nodestatuslists ds);
          nextID = (case nsID of Some i \<Rightarrow> i | None \<Rightarrow> getNextID ns)
      in ds\<lparr>updated := True,
            nodestatuses := Some (aput nextID (codec obj) ns),
            nodestatuslists := Some (aput nodeName (status_ids nslist nodeName @ [nextID]) nslist)\<rparr>)"

definition deleteStatuses :: "string \<Rightarrow> 'v datastore \<Rightarrow> status_error option \<times> 'v datastore" where
  "deleteStatuses nodeName ds =
     (case nodestatuses ds of
        None \<Rightarrow> (Some ErrNoStatuses, ds)
      | Some ns \<Rightarrow>
          (case nodestatuslists ds of
             None \<Rightarrow> (Some ErrNoStatusList, ds)
           | Some nslist \<Rightarrow>
               (None, ds\<lparr>nodestatuses := Some (fold adel (status_ids nslist nodeName) ns),
                         nodestatuslists := Some (adel nodeName nslist)\<rparr>)))"

definition DeleteNodeStatus :: "string \<Rightarrow> 'v datastore \<Rightarrow> status_error option \<times> 'v datastore" where
  "DeleteNodeStatus nodeName ds = deleteStatuses nodeName (ds\<lparr>updated := True\<rparr>)"

fun put_statuses :: "('v \<Rightarrow> 'v) \<Rightarrow> string \<Rightarrow> 'v list \<Rightarrow>
    (int \<times> 'v) list \<Rightarrow> (string \<times> int list) list \<Rightarrow> (int \<times> 'v) list \<times> (string \<times> int list) list" where
  "put_statuses codec nodeName [] ns nslist = (ns, nslist)"
| "put_statuses codec nodeName (obj # objs) ns nslist =
     (let nextID = getNextID ns
      in put_statuses codec nodeName objs (aput nextID (codec obj) ns)
           (aput nodeName (status_ids nslist nodeName @ [nextID]) nslist))"

definition ReplaceNodeStatuses ::
  "('v \<Rightarrow> 'v) \<Rightarrow> string \<Rightarrow> 'v list \<Rightarrow> 'v datastore \<Rightarrow> status_error option \<times> 'v datastore" where
  "ReplaceNodeStatuses codec nodeName objs ds =
     (case deleteStatuses nodeName (ds\<lparr>updated := True\<rparr>) of
        (Some e, ds1) \<Rightarrow> (Some e, ds1)
      | (None, ds1) \<Rightarrow>
          (if objs = [] then (None, ds1)
           else (let (ns, nslist) = put_statuses codec nodeName objs
                       (ns_or_new (nodestatuses ds1)) (ns_or_new (nodestatuslists ds1))
                 in (None, ds1\<lparr>nodestatuses := Some ns, nodestatuslists := Some nslist\<rparr>))))"

text \<open>
  \<open>AllNodeStatuses\<close> decodes \<open>ns[v]\<close> for every listed id \<open>v\<close>; a listed id with no entry
  would be a failed type assertion, \<open>Panic\<close> here.
\<close>

fun fetch_statuses :: "(int \<times> 'v) list \<Rightarrow> int list \<Rightarrow> 'v list outcome" where
  "fetch_statuses ns [] = Ok []"
| "fetch_statuses ns (v # vs) =
     (case map_of ns v of
        None \<Rightarrow> Panic
      | Some n \<Rightarrow> outcome_bind (fetch_statuses ns vs) (\<lambda>arr. Ok (n # arr)))"

definition AllNodeStatuses :: "string \<Rightarrow> 'v datastore \<Rightarrow> status_error + 'v list outcome" where
  "AllNodeStatuses nodeName ds =
     (case nodestatuses ds of
        None \<Rightarrow> Inl ErrNoStatuses
      | Some ns \<Rightarrow>
          (case nodestatuslists ds of
             None \<Rightarrow> Inl ErrNoStatusList
           | Some nslist \<Rightarrow> Inr (fetch_statuses ns (status_ids nslist nodeName))))"

text \<open>
  \<open>LatestNodeStatus\<close> sorts the slice of ids in place. The slice belongs to the map in the
  cache, so the sorted order is stored: the store is part of the result.
\<close>

definition LatestNodeStatus ::
  "string \<Rightarrow> 'v datastore \<Rightarrow> (status_error + 'v outcome) \<times> 'v datastore" where
  "LatestNodeStatus nodeName ds =
     (case nodestatuses ds of
        None \<Rightarrow> (Inl ErrNoStatuses, ds)
      | Some ns \<Rightarrow>
          (case nodestatuslists ds of
             None \<Rightarrow> (Inl ErrNoStatusList, ds)
           | Some nslist \<Rightarrow>
               (case map_of nslist nodeName of
                  None \<Rightarrow> (Inl (ErrNoNodeStatus nodeName), ds)
                | Some nsarr \<Rightarrow>
                    (let sorted = rev (sort nsarr);
                         ds' = ds\<lparr>nodestatuslists := Some (aput nodeName sorted nslist)\<rparr>
                     in case sorted of
                          [] \<Rightarrow> (Inr Panic, ds')
                        | i # _ \<Rightarrow>
                            (Inr (case map_of ns i of None \<Rightarrow> Panic | Some n \<Rightarrow> Ok n), ds')))))"

subsection \<open>Logged events\<close>

definition getLogInfoMap :: "'v datastore \<Rightarrow> (int \<times> 'v) list" where
  "getLogInfoMap ds = ns_or_new (loginfos ds)"

definition setLogInfoMap :: "('v \<Rightarrow> 'v) \<Rightarrow> (int \<times> 'v) list \<Rightarrow> 'v datastore \<Rightarrow> 'v datastore" where
  "setLogInfoMap codec liMap ds = ds\<lparr>loginfos := Some (map (\<lambda>(k, v). (k, codec v)) liMap)\<rparr>"

definition SetLogInfo ::
  "('v \<Rightarrow> 'v) \<Rightarrow> 'v \<Rightarrow> int option \<Rightarrow> 'v datastore \<Rightarrow> 'v datastore" where
  "SetLogInfo codec obj logID ds =
     (let arr = getLogInfoMap ds;
          nextID = (case logID of Some i \<Rightarrow> i | None \<Rightarrow> getNextID arr)
      in setLogInfoMap codec (aput nextID obj arr) (ds\<lparr>updated := True\<rparr>))"

definition DeleteLogInfo :: "('v \<Rightarrow> 'v) \<Rightarrow> int \<Rightarrow> 'v datastore \<Rightarrow> 'v datastore" where
  "DeleteLogInfo codec i ds = setLogInfoMap codec (adel i (getLogInfoMap ds)) (ds\<lparr>updated := True\<rparr>)"

definition PurgeLogInfoBefore :: "('v \<Rightarrow> 'v) \<Rightarrow> int \<Rightarrow> 'v datastore \<Rightarrow> nat \<times> 'v datastore" where
  "PurgeLogInfoBefore codec i ds =
     (let arr = getLogInfoMap ds;
          newLogs = filter (\<lambda>(k, v). k > i) arr
      in (length (filter (\<lambda>(k, v). \<not> k > i) arr),
          setLogInfoMap codec newLogs (ds\<lparr>updated := True\<rparr>)))"

definition GetLogInfo :: "int \<Rightarrow> 'v datastore \<Rightarrow> 'v outcome" where
  "GetLogInfo i ds =
     (case map_of (getLogInfoMap ds) i of
        None \<Rightarrow> Errorf (''Log info with id '' @
                  (if i < 0 then ''-'' @ string_of_nat (nat (- i)) else string_of_nat (nat i)) @
                  '' not found'')
      | Some item \<Rightarrow> Ok item)"

definition GetLogInfoList :: "'v datastore \<Rightarrow> (int \<times> 'v) list" where
  "GetLogInfoList ds = getLogInfoMap ds"

subsection \<open>The contract of the store\<close>

locale object_store =
  fixes get :: "'s \<Rightarrow> string \<Rightarrow> 'v option"
    and put :: "string \<Rightarrow> 'v \<Rightarrow> 's \<Rightarrow> 's"
    and del :: "string \<Rightarrow> 's \<Rightarrow> 's"
    and names :: "'s \<Rightarrow> string list"
    and codec :: "'v \<Rightarrow> 'v"
    and ok :: "'s \<Rightarrow> bool"
  assumes get_put: "get (put k v s) = (get s)(k \<mapsto> codec v)"
    and get_del: "get (del k s) = (get s)(k := None)"
    and names_sorted: "sorted (names s)"
    and names_dom: "ok s \<Longrightarrow> distinct (names s) \<and> set (names s) = dom (get s)"
    and ok_put: "ok s \<Longrightarrow> ok (put k v s)"
    and ok_del: "ok s \<Longrightarrow> ok (del k s)"
begin

lemma names_eq: "ok s \<Longrightarrow> names s = sorted_list_of_set (dom (get s))"
  using names_dom [of s] names_sorted [of s]
  by (metis List.finite_set sorted_distinct_set_unique distinct_sorted_list_of_set
      set_sorted_list_of_set sorted_sorted_list_of_set)

lemma finite_dom: "ok s \<Longrightarrow> finite (dom (get s))"
  using names_dom [of s] by (metis List.finite_set)

lemma in_names_iff: "ok s \<Longrightarrow> k \<in> set (names s) \<longleftrightarrow> get s k \<noteq> None"
  using names_dom [of s] by auto

lemma set_names_put: "ok s \<Longrightarrow> set (names (put k v s)) = insert k (set (names s))"
  using names_dom [of s] names_dom [OF ok_put, of s] by (simp add: get_put)

lemma set_names_del: "ok s \<Longrightarrow> set (names (del k s)) = set (names s) - {k}"
  using names_dom [of s] names_dom [OF ok_del, of s] by (simp add: get_del)

text \<open>Counting the stored objects with a property, as the administrator checks do.\<close>

lemma count_names:
  assumes "ok s"
  shows "length (filter (\<lambda>k. \<exists>v. get s k = Some v \<and> P v) (names s)) =
    card {k. \<exists>v. get s k = Some v \<and> P v}"
proof -
  let ?l = "filter (\<lambda>k. \<exists>v. get s k = Some v \<and> P v) (names s)"
  have "set ?l = {k. \<exists>v. get s k = Some v \<and> P v}"
    using names_dom [OF assms] by auto
  moreover have "card (set ?l) = length ?l"
    by (rule distinct_card) (use names_dom [OF assms] in simp)
  ultimately show ?thesis by simp
qed

end

subsection \<open>The data store meets the contract\<close>

lemma makeKey_inj:
  assumes "CHR '':'' \<notin> set t" "CHR '':'' \<notin> set t'"
  shows "makeKey t k = makeKey t' k' \<longleftrightarrow> t = t' \<and> k = k'"
proof
  assume eq: "makeKey t k = makeKey t' k'"
  have "hd (split_on CHR '':'' (makeKey t k)) = t" "hd (split_on CHR '':'' (makeKey t' k')) = t'"
    using assms by (simp_all add: makeKey_def split_on_app)
  with eq have "t = t'" by simp
  with eq show "t = t' \<and> k = k'" by (simp add: makeKey_def)
qed simp

definition names_of :: "'v datastore \<Rightarrow> string \<Rightarrow> string list" where
  "names_of ds t = (case objList ds t of None \<Rightarrow> [] | Some l \<Rightarrow> l)"

definition ds_ok :: "'v datastore \<Rightarrow> bool" where
  "ds_ok ds \<longleftrightarrow>
     (\<forall>t. CHR '':'' \<notin> set t \<longrightarrow>
        distinct (names_of ds t) \<and>
        (\<forall>k. k \<in> set (names_of ds t) \<longleftrightarrow> dsc ds (makeKey t k) \<noteq> None))"

lemma ds_ok_init [simp]: "ds_ok initDataStore"
  by (simp add: ds_ok_def names_of_def initDataStore_def)

lemma names_of_Set:
  "names_of (ds_Set codec t k v ds) t' =
     (if t' = t then (if k \<in> set (names_of ds t) then names_of ds t else names_of ds t @ [k])
      else names_of ds t')"
  by (auto simp: ds_Set_def addToList_def names_of_def Let_def)

lemma names_of_Delete:
  "names_of (ds_Delete t k ds) t' =
     (if t' = t then filter (\<lambda>x. x \<noteq> k) (names_of ds t) else names_of ds t')"
  by (auto simp: ds_Delete_def removeFromList_def names_of_def split: option.splits)

lemma dsc_Set: "dsc (ds_Set codec t k v ds) = (dsc ds)(makeKey t k \<mapsto> codec v)"
  by (simp add: ds_Set_def addToList_def Let_def)

lemma dsc_Delete: "dsc (ds_Delete t k ds) = (dsc ds)(makeKey t k := None)"
  by (simp add: ds_Delete_def removeFromList_def split: option.splits)

lemma ds_ok_Set: "CHR '':'' \<notin> set t \<Longrightarrow> ds_ok ds \<Longrightarrow> ds_ok (ds_Set codec t k v ds)"
  unfolding ds_ok_def by (simp add: names_of_Set dsc_Set makeKey_inj)

lemma ds_ok_Delete: "CHR '':'' \<notin> set t \<Longrightarrow> ds_ok ds \<Longrightarrow> ds_ok (ds_Delete t k ds)"
  unfolding ds_ok_def by (auto simp: names_of_Delete dsc_Delete makeKey_inj)

lemma ds_GetList_names: "ds_GetList t ds = sort (names_of ds t)"
  by (simp add: ds_GetList_def names_of_def)

lemma ds_Get_Set:
  "CHR '':'' \<notin> set t \<Longrightarrow> CHR '':'' \<notin> set t' \<Longrightarrow>
   ds_Get t' (ds_Set codec t k v ds) =
     (if t' = t then (ds_Get t ds)(k \<mapsto> codec v) else ds_Get t' ds)"
  by (auto simp: ds_Get_def dsc_Set makeKey_inj fun_eq_iff)

lemma ds_Get_Delete:
  "CHR '':'' \<notin> set t \<Longrightarrow> CHR '':'' \<notin> set t' \<Longrightarrow>
   ds_Get t' (ds_Delete t k ds) =
     (if t' = t then (ds_Get t ds)(k := None) else ds_Get t' ds)"
  by (auto simp: ds_Get_def dsc_Delete makeKey_inj fun_eq_iff)

lemma ds_object_store:
  assumes "CHR '':'' \<notin> set t"
  shows "object_store (ds_Get t) (ds_Set codec t) (ds_Delete t) (ds_GetList t) codec ds_ok"
proof
  fix ds :: "'a datastore" and k v
  show "ds_Get t (ds_Set codec t k v ds) = (ds_Get t ds)(k \<mapsto> codec v)"
    using assms by (simp add: ds_Get_Set)
  show "ds_Get t (ds_Delete t k ds) = (ds_Get t ds)(k := None)"
    using assms by (simp add: ds_Get_Delete)
  show "sorted (ds_GetList t ds)" by (simp add: ds_GetList_names)
  show "distinct (ds_GetList t ds) \<and> set (ds_GetList t ds) = dom (ds_Get t ds)" if "ds_ok ds"
    using that assms unfolding ds_ok_def by (auto simp: ds_GetList_names ds_Get_def)
  show "ds_ok (ds_Set codec t k v ds)" if "ds_ok ds" using that assms by (rule ds_ok_Set [rotated])
  show "ds_ok (ds_Delete t k ds)" if "ds_ok ds" using that assms by (rule ds_ok_Delete [rotated])
qed

subsection \<open>Refinement to a map\<close>

text \<open>
  The abstract store is a map from pairs of type and name to values. A sequence of sets
  and deletes, whose types contain no colon (all types the sources use are literals
  without one), implements the same sequence on the map.
\<close>

datatype 'v ds_op = OpSet string string 'v | OpDelete string string

fun op_type :: "'v ds_op \<Rightarrow> string" where
  "op_type (OpSet t k v) = t"
| "op_type (OpDelete t k) = t"

fun ds_step :: "('v \<Rightarrow> 'v) \<Rightarrow> 'v ds_op \<Rightarrow> 'v datastore \<Rightarrow> 'v datastore" where
  "ds_step codec (OpSet t k v) ds = ds_Set codec t k v ds"
| "ds_step codec (OpDelete t k) ds = ds_Delete t k ds"

fun abs_step :: "('v \<Rightarrow> 'v) \<Rightarrow> 'v ds_op \<Rightarrow> (string \<times> string \<Rightarrow> 'v option) \<Rightarrow>
    (string \<times> string \<Rightarrow> 'v option)" where
  "abs_step codec (OpSet t k v) m = m((t, k) \<mapsto> codec v)"
| "abs_step codec (OpDelete t k) m = m((t, k) := None)"

definition ds_refines :: "'v datastore \<Rightarrow> (string \<times> string \<Rightarrow> 'v option) \<Rightarrow> bool" where
  "ds_refines ds m \<longleftrightarrow> ds_ok ds \<and> (\<forall>t k. CHR '':'' \<notin> set t \<longrightarrow> ds_Get t ds k = m (t, k))"

lemma ds_refines_step:
  "CHR '':'' \<notin> set (op_type x) \<Longrightarrow> ds_refines ds m \<Longrightarrow>
   ds_refines (ds_step codec x ds) (abs_step codec x m)"
  by (cases x) (auto simp: ds_refines_def ds_ok_Set ds_ok_Delete ds_Get_Set ds_Get_Delete)

lemma ds_refines_fold:
  "\<forall>x\<in>set xs. CHR '':'' \<notin> set (op_type x) \<Longrightarrow> ds_refines ds m \<Longrightarrow>
   ds_refines (fold (ds_step codec) xs ds) (fold (abs_step codec) xs m)"
  by (induction xs arbitrary: ds m) (auto simp: ds_refines_step)

lemma ds_refines_init: "ds_refines initDataStore (\<lambda>_. None)"
  by (simp add: ds_refines_def ds_Get_def) (simp add: initDataStore_def)

lemma ds_GetList_dom:
  "CHR '':'' \<notin> set t \<Longrightarrow> ds_ok ds \<Longrightarrow> ds_GetList t ds = sorted_list_of_set (dom (ds_Get t ds))"
  by (rule object_store.names_eq [OF ds_object_store])

lemma ds_refines_list:
  assumes "ds_refines ds m" "CHR '':'' \<notin> set t"
  shows "ds_GetList t ds = sorted_list_of_set {k. m (t, k) \<noteq> None}"
proof -
  have "dom (ds_Get t ds) = {k. m (t, k) \<noteq> None}"
    using assms by (auto simp: ds_refines_def)
  then show ?thesis
    using ds_GetList_dom [OF assms(2), of ds] assms(1) by (simp add: ds_refines_def)
qed

text \<open>\<^bold>\<open>C5\<close>. The data store implements a map: after any sequence of sets and deletes on the empty
  store, a fetch returns what the map holds, and the list of a type is the sorted list of
  exactly the names the map holds for it.\<close>

theorem datastore_refines_map:
  assumes "\<forall>x\<in>set xs. CHR '':'' \<notin> set (op_type x)" "CHR '':'' \<notin> set t"
  shows "ds_Get t (fold (ds_step codec) xs initDataStore) k =
      fold (abs_step codec) xs (\<lambda>_. None) (t, k) \<and>
    ds_GetList t (fold (ds_step codec) xs initDataStore) =
      sorted_list_of_set {k. fold (abs_step codec) xs (\<lambda>_. None) (t, k) \<noteq> None}"
proof -
  have r: "ds_refines (fold (ds_step codec) xs initDataStore) (fold (abs_step codec) xs (\<lambda>_. None))"
    by (rule ds_refines_fold [OF assms(1) ds_refines_init])
  with ds_refines_list [OF r assms(2)] assms(2) show ?thesis
    by (simp add: ds_refines_def)
qed

theorem datastore_refines_map_witness:
  "ds_Get ''node'' (fold (ds_step id) [OpSet ''node'' ''a:b'' (7::nat), OpDelete ''client'' ''a:b'']
     initDataStore) ''a:b'' = Some 7"
  using datastore_refines_map [of "[OpSet ''node'' ''a:b'' (7::nat), OpDelete ''client'' ''a:b'']"
      "''node''" id "''a:b''"] by simp

subsection \<open>Node statuses\<close>

lemma sorted_le_last: "sorted ys \<Longrightarrow> y \<in> set ys \<Longrightarrow> y \<le> last ys"
  by (induction ys) auto

lemma hd_rev_sort:
  assumes "xs \<noteq> []"
  shows "hd (rev (sort xs)) = Max (set xs)"
proof -
  have ne: "sort xs \<noteq> []" using assms by (metis length_0_conv length_sort)
  then have "last (sort xs) \<in> set (sort xs)" by (rule last_in_set)
  then have "last (sort xs) = Max (set (sort xs))"
    by (intro Max_eqI [symmetric]) (auto intro: sorted_le_last)
  then show ?thesis using ne by (simp add: hd_rev)
qed

definition ids_below :: "int \<Rightarrow> (int \<times> 'v) list \<Rightarrow> bool" where
  "ids_below b ns \<longleftrightarrow> (\<forall>i\<in>fst ` set ns. i < b)"

lemma getNextID_fresh:
  assumes "ids_below (2 ^ 63 - 1) ns"
  shows "\<forall>i\<in>fst ` set ns. i < getNextID ns"
proof (cases "ns = []")
  case True
  then show ?thesis by simp
next
  case False
  let ?M = "Max (fst ` set ns)"
  have in_M: "?M \<in> fst ` set ns" using False by (intro Max_in) auto
  then have "?M < 2 ^ 63 - 1" using assms unfolding ids_below_def by blast
  then have "int64_inc ?M = ?M + 1" unfolding int64_inc_def by (simp only: if_False less_imp_neq)
  then have "getNextID ns = ?M + 1"
    using False by (simp add: getNextID_def hd_rev_sort)
  moreover have "\<forall>i\<in>fst ` set ns. i \<le> ?M" by simp
  ultimately show ?thesis by (metis less_add_one order_le_less_trans)
qed

text \<open>What the two maps keep true between each other.\<close>

definition ns_ok :: "(int \<times> 'v) list \<Rightarrow> (string \<times> int list) list \<Rightarrow> bool" where
  "ns_ok ns nslist \<longleftrightarrow>
     (\<forall>n. set (status_ids nslist n) \<subseteq> fst ` set ns \<and> distinct (status_ids nslist n)) \<and>
     (\<forall>n m. n \<noteq> m \<longrightarrow> set (status_ids nslist n) \<inter> set (status_ids nslist m) = {})"

definition statuses_ok :: "'v datastore \<Rightarrow> bool" where
  "statuses_ok ds \<longleftrightarrow> ns_ok (ns_or_new (nodestatuses ds)) (ns_or_new (nodestatuslists ds)) \<and>
     (nodestatuses ds = None \<longleftrightarrow> nodestatuslists ds = None)"

lemma status_ids_aput [simp]:
  "status_ids (aput n l nslist) m = (if m = n then l else status_ids nslist m)"
  by (simp add: status_ids_def)

lemma status_ids_adel [simp]:
  "status_ids (adel n nslist) m = (if m = n then [] else status_ids nslist m)"
  by (simp add: status_ids_def)

lemma map_of_fold_adel: "map_of (fold adel is ns) i = (if i \<in> set is then None else map_of ns i)"
  by (induction "is" arbitrary: ns) auto

lemma keys_fold_adel: "fst ` set (fold adel is ns) = fst ` set ns - set is"
  by (induction "is" arbitrary: ns) (auto simp: keys_adel)

lemma ns_ok_put:
  assumes "ns_ok ns nslist" "\<forall>j\<in>fst ` set ns. j < i"
  shows "ns_ok (aput i v ns) (aput n (status_ids nslist n @ [i]) nslist)"
proof -
  have "i \<notin> set (status_ids nslist m)" for m
    using assms by (fastforce simp: ns_ok_def)
  then show ?thesis
    using assms(1) by (auto simp: ns_ok_def keys_aput)
qed

lemma ns_ok_delete: "ns_ok ns nslist \<Longrightarrow> ns_ok (fold adel (status_ids nslist n) ns) (adel n nslist)"
  unfolding ns_ok_def by (simp add: keys_fold_adel) blast

lemma fetch_statuses_ok:
  "set is \<subseteq> fst ` set ns \<Longrightarrow> fetch_statuses ns is = Ok (map (\<lambda>i. the (map_of ns i)) is)"
proof (induction "is")
  case (Cons i "is")
  then obtain v where "map_of ns i = Some v"
    by (metis insert_subset list.set(2) map_of_eq_None_iff not_None_eq)
  with Cons show ?case by simp
qed simp

lemma fetch_statuses_cong:
  "(\<And>i. i \<in> set is \<Longrightarrow> map_of ns' i = map_of ns i) \<Longrightarrow> fetch_statuses ns' is = fetch_statuses ns is"
  by (induction "is") (auto split: option.split)

lemma fetch_statuses_append:
  "fetch_statuses ns (xs @ ys) =
     outcome_bind (fetch_statuses ns xs) (\<lambda>a. outcome_bind (fetch_statuses ns ys) (\<lambda>b. Ok (a @ b)))"
proof (induction xs)
  case Nil
  then show ?case by (cases "fetch_statuses ns ys") auto
next
  case (Cons x xs)
  then show ?case
    by (cases "fetch_statuses ns xs"; cases "fetch_statuses ns ys") (auto split: option.split)
qed

definition statuses_of :: "'v datastore \<Rightarrow> string \<Rightarrow> 'v list" where
  "statuses_of ds n =
     map (\<lambda>i. the (map_of (ns_or_new (nodestatuses ds)) i))
       (status_ids (ns_or_new (nodestatuslists ds)) n)"

lemma AllNodeStatuses_ok:
  "statuses_ok ds \<Longrightarrow> nodestatuses ds \<noteq> None \<Longrightarrow> AllNodeStatuses n ds = Inr (Ok (statuses_of ds n))"
  by (auto simp: statuses_ok_def ns_ok_def AllNodeStatuses_def statuses_of_def ns_or_new_def
      fetch_statuses_ok)

lemma statuses_ok_Set:
  assumes "statuses_ok ds" "ids_below (2 ^ 63 - 1) (ns_or_new (nodestatuses ds))"
  shows "statuses_ok (SetNodeStatus codec n v None ds)"
  using ns_ok_put [OF _ getNextID_fresh [OF assms(2)]] assms(1)
  by (auto simp: statuses_ok_def SetNodeStatus_def Let_def ns_or_new_def)

lemma statuses_of_Set:
  assumes "statuses_ok ds" "ids_below (2 ^ 63 - 1) (ns_or_new (nodestatuses ds))"
  shows "statuses_of (SetNodeStatus codec n v None ds) m =
    (if m = n then statuses_of ds n @ [codec v] else statuses_of ds m)"
proof -
  let ?ns = "ns_or_new (nodestatuses ds)"
  have "getNextID ?ns \<notin> set (status_ids (ns_or_new (nodestatuslists ds)) k)" for k
    using getNextID_fresh [OF assms(2)] assms(1) by (fastforce simp: statuses_ok_def ns_ok_def)
  then show ?thesis
    by (auto simp: statuses_of_def SetNodeStatus_def Let_def ns_or_new_def)
qed

lemma getNextID_below:
  assumes "ids_below b ns" "0 < b" "b \<le> 2 ^ 63 - 1"
  shows "getNextID ns < b + 1"
proof (cases "ns = []")
  case True
  then show ?thesis using assms(2) by (simp add: getNextID_def)
next
  case False
  let ?M = "Max (fst ` set ns)"
  have "?M \<in> fst ` set ns" using False by (intro Max_in) auto
  then have M: "?M < b" using assms(1) unfolding ids_below_def by blast
  then have "int64_inc ?M = ?M + 1"
    unfolding int64_inc_def using assms(3) by (simp only: if_False less_imp_neq)
  then have "getNextID ns = ?M + 1" using False by (simp add: getNextID_def hd_rev_sort)
  with M show ?thesis by linarith
qed

definition status_vals :: "(int \<times> 'v) list \<Rightarrow> (string \<times> int list) list \<Rightarrow> string \<Rightarrow> 'v list" where
  "status_vals ns nslist n = map (\<lambda>i. the (map_of ns i)) (status_ids nslist n)"

lemma status_vals_put:
  assumes "ns_ok ns nslist" "\<forall>j\<in>fst ` set ns. j < i"
  shows "status_vals (aput i v ns) (aput n (status_ids nslist n @ [i]) nslist) m =
    (if m = n then status_vals ns nslist n @ [v] else status_vals ns nslist m)"
proof -
  have "i \<notin> set (status_ids nslist k)" for k
    using assms by (fastforce simp: ns_ok_def)
  then show ?thesis by (auto simp: status_vals_def)
qed

lemma put_statuses_vals:
  assumes "ns_ok ns nslist" "ids_below b ns" "0 < b" "b + int (length objs) \<le> 2 ^ 63"
    "put_statuses codec n objs ns nslist = (ns', nslist')"
  shows "ns_ok ns' nslist' \<and> ids_below (b + int (length objs)) ns' \<and>
    status_vals ns' nslist' m =
      (if m = n then status_vals ns nslist n @ map codec objs else status_vals ns nslist m)"
  using assms
proof (induction objs arbitrary: ns nslist b)
  case Nil
  then show ?case by simp
next
  case (Cons v objs)
  define i where "i = getNextID ns"
  have b: "b \<le> 2 ^ 63 - 1" using Cons.prems(4) by simp
  have "ids_below (2 ^ 63 - 1) ns" using Cons.prems(2) b unfolding ids_below_def by fastforce
  then have fresh: "\<forall>j\<in>fst ` set ns. j < i" unfolding i_def by (rule getNextID_fresh)
  have "ids_below (b + 1) (aput i (codec v) ns)"
    using Cons.prems(2) getNextID_below [OF Cons.prems(2,3) b]
    unfolding ids_below_def i_def keys_aput by fastforce
  from Cons.IH [OF ns_ok_put [OF Cons.prems(1) fresh] this]
  show ?case
    using Cons.prems(3,4,5) status_vals_put [OF Cons.prems(1) fresh]
    by (simp add: Let_def i_def [symmetric] algebra_simps)
qed

lemma status_vals_delete:
  assumes "ns_ok ns nslist"
  shows "status_vals (fold adel (status_ids nslist n) ns) (adel n nslist) m =
    (if m = n then [] else status_vals ns nslist m)"
proof -
  have "x \<notin> set (status_ids nslist n)" if "m \<noteq> n" "x \<in> set (status_ids nslist m)" for x
    using assms that unfolding ns_ok_def by blast
  then show ?thesis by (auto simp: status_vals_def map_of_fold_adel)
qed

text \<open>The latest status of a node is the one set last, whatever was stored and however
  often the latest status was read before.\<close>

theorem latest_status_is_last_set:
  assumes "statuses_ok ds" "ids_below (2 ^ 63 - 1) (ns_or_new (nodestatuses ds))"
  shows "fst (LatestNodeStatus n (SetNodeStatus codec n v None ds)) = Inr (Ok (codec v))"
proof -
  let ?ns = "ns_or_new (nodestatuses ds)" and ?nl = "ns_or_new (nodestatuslists ds)"
  let ?i = "getNextID ?ns"
  have "set (status_ids ?nl n) \<subseteq> fst ` set ?ns"
    using assms(1) by (simp add: statuses_ok_def ns_ok_def)
  then have "Max (set (status_ids ?nl n @ [?i])) = ?i"
    using getNextID_fresh [OF assms(2)] by (intro Max_eqI) force+
  then have "hd (rev (sort (status_ids ?nl n @ [?i]))) = ?i"
    by (subst hd_rev_sort) simp_all
  moreover have "rev (sort (status_ids ?nl n @ [?i])) \<noteq> []"
    by (metis length_sort length_rev length_0_conv snoc_eq_iff_butlast)
  ultimately obtain js where "rev (sort (status_ids ?nl n @ [?i])) = ?i # js"
    by (metis list.collapse)
  then show ?thesis
    by (simp add: LatestNodeStatus_def SetNodeStatus_def Let_def)
qed

definition example_statuses :: "nat datastore" where
  "example_statuses = SetNodeStatus id ''web'' 20 None (SetNodeStatus id ''web'' 10 None initDataStore)"

lemma example_statuses_eq:
  "nodestatuses example_statuses = Some [(1, 10), (2, 20)]"
  "nodestatuslists example_statuses = Some [(''web'', [1, 2])]"
  by (simp_all add: example_statuses_def SetNodeStatus_def initDataStore_def Let_def ns_or_new_def
      getNextID_def status_ids_def int64_inc_def)

lemma example_statuses_ok:
  "statuses_ok example_statuses" "ids_below (2 ^ 63 - 1) (ns_or_new (nodestatuses example_statuses))"
  by (auto simp: statuses_ok_def ns_ok_def ns_or_new_def example_statuses_eq ids_below_def
      status_ids_def)

theorem latest_status_is_last_set_witness:
  "fst (LatestNodeStatus ''web'' (SetNodeStatus id ''web'' 30 None example_statuses)) = Inr (Ok 30)"
  using latest_status_is_last_set [OF example_statuses_ok, of "''web''" id 30] by simp

lemma ReplaceNodeStatuses_spec:
  assumes "statuses_ok ds" "nodestatuses ds \<noteq> None" "ids_below b (ns_or_new (nodestatuses ds))"
    "0 < b" "b + int (length objs) \<le> 2 ^ 63"
    "ReplaceNodeStatuses codec n objs ds = (e, ds')"
  shows "e = None" "statuses_ok ds'" "nodestatuses ds' \<noteq> None"
    "ids_below (b + int (length objs)) (ns_or_new (nodestatuses ds'))"
    "statuses_of ds' m = (if m = n then map codec objs else statuses_of ds m)"
    "dsc ds' = dsc ds" "objList ds' = objList ds"
proof -
  obtain ns nl where ds: "nodestatuses ds = Some ns" "nodestatuslists ds = Some nl"
    using assms(1,2) by (auto simp: statuses_ok_def)
  define ns1 where "ns1 = fold adel (status_ids nl n) ns"
  define nl1 where "nl1 = adel n nl"
  have ok: "ns_ok ns nl" using assms(1) ds by (simp add: statuses_ok_def ns_or_new_def)
  have ok1: "ns_ok ns1 nl1" unfolding ns1_def nl1_def by (rule ns_ok_delete [OF ok])
  have v1: "status_vals ns1 nl1 m = (if m = n then [] else status_vals ns nl m)" for m
    unfolding ns1_def nl1_def by (rule status_vals_delete [OF ok])
  have b1: "ids_below b ns1"
    using assms(3) ds by (auto simp: ids_below_def ns1_def keys_fold_adel ns_or_new_def)
  obtain ns2 nl2 where p: "put_statuses codec n objs ns1 nl1 = (ns2, nl2)" by fastforce
  note v2 = put_statuses_vals [OF ok1 b1 assms(4,5) p]
  have res: "e = None" "nodestatuses ds' = Some ns2" "nodestatuslists ds' = Some nl2"
    "dsc ds' = dsc ds" "objList ds' = objList ds"
    using assms(6) p ds
    by (auto simp: ReplaceNodeStatuses_def deleteStatuses_def ns1_def nl1_def ns_or_new_def
        split: if_splits)
  have of_vals: "statuses_of ds' m = status_vals ns2 nl2 m" "statuses_of ds m = status_vals ns nl m"
    using res ds by (simp_all add: statuses_of_def status_vals_def ns_or_new_def)
  show "e = None" "nodestatuses ds' \<noteq> None" "dsc ds' = dsc ds" "objList ds' = objList ds"
    using res by simp_all
  show "statuses_ok ds'" using v2 res by (simp add: statuses_ok_def ns_or_new_def)
  show "ids_below (b + int (length objs)) (ns_or_new (nodestatuses ds'))"
    using v2 res by (simp add: ns_or_new_def)
  show "statuses_of ds' m = (if m = n then map codec objs else statuses_of ds m)"
    using v1 v2 of_vals by simp
qed

text \<open>Replacing the statuses of a node leaves exactly the given ones, in the given order,
  and does not change what is stored for any other node.\<close>

theorem replace_statuses:
  assumes "statuses_ok ds" "nodestatuses ds \<noteq> None" "ids_below b (ns_or_new (nodestatuses ds))"
    "0 < b" "b + int (length objs) \<le> 2 ^ 63"
    "ReplaceNodeStatuses codec n objs ds = (e, ds')"
  shows "e = None \<and> AllNodeStatuses n ds' = Inr (Ok (map codec objs)) \<and>
    (\<forall>m. m \<noteq> n \<longrightarrow> AllNodeStatuses m ds' = AllNodeStatuses m ds)"
  using ReplaceNodeStatuses_spec [OF assms] assms(1,2) by (simp add: AllNodeStatuses_ok)

theorem replace_statuses_witness:
  "AllNodeStatuses ''web'' (snd (ReplaceNodeStatuses id ''web'' [20, 40] example_statuses)) =
     Inr (Ok [20, 40])"
proof -
  obtain e ds' where r: "ReplaceNodeStatuses id ''web'' [20, 40] example_statuses = (e, ds')"
    by fastforce
  have "ids_below 3 (ns_or_new (nodestatuses example_statuses))"
    by (simp add: example_statuses_eq ns_or_new_def ids_below_def)
  from replace_statuses [OF example_statuses_ok(1) _ this _ _ r] r show ?thesis
    by (simp add: example_statuses_eq)
qed

text \<open>Reading the latest status of a node changes the store: the statuses of a node that
  were stored in order of age are listed in the opposite order afterwards.\<close>

theorem latest_status_reorders:
  assumes "statuses_ok ds" "nodestatuslists ds = Some nl" "map_of nl n = Some l" "sorted l"
    "AllNodeStatuses n ds = Inr (Ok vs)"
  shows "AllNodeStatuses n (snd (LatestNodeStatus n ds)) = Inr (Ok (rev vs))"
proof -
  obtain ns where ns: "nodestatuses ds = Some ns" using assms(1,2) by (auto simp: statuses_ok_def)
  have sub: "set l \<subseteq> fst ` set ns"
    using assms(1-3) ns by (auto simp: statuses_ok_def ns_ok_def ns_or_new_def status_ids_def
        dest!: spec [of _ n])
  have "sort l = l" using assms(4) by (simp add: sorted_sort_id)
  then have "nodestatuslists (snd (LatestNodeStatus n ds)) = Some (aput n (rev l) nl)"
    "nodestatuses (snd (LatestNodeStatus n ds)) = Some ns"
    using assms(2,3) ns by (auto simp: LatestNodeStatus_def Let_def split: list.splits)
  moreover have "vs = map (\<lambda>i. the (map_of ns i)) l"
    using assms(2,3,5) ns sub by (simp add: AllNodeStatuses_def status_ids_def fetch_statuses_ok)
  ultimately show ?thesis
    using sub by (simp add: AllNodeStatuses_def fetch_statuses_ok rev_map)
qed

theorem latest_status_reorders_witness:
  "AllNodeStatuses ''web'' example_statuses = Inr (Ok [10, 20]) \<and>
   AllNodeStatuses ''web'' (snd (LatestNodeStatus ''web'' example_statuses)) = Inr (Ok [20, 10])"
proof -
  have "AllNodeStatuses ''web'' example_statuses = Inr (Ok [10, 20])"
    by (simp add: AllNodeStatuses_def example_statuses_eq status_ids_def)
  with latest_status_reorders [OF example_statuses_ok(1) example_statuses_eq(2), of "''web''" "[1, 2]" "[10, 20]"]
  show ?thesis by simp
qed

subsection \<open>Logged events\<close>

lemma map_of_map_codec: "map_of (map (\<lambda>(k, v). (k, codec v)) m) k = map_option codec (map_of m k)"
  by (induction m) auto

lemma map_of_filter_key: "map_of (filter (\<lambda>(k, v). P k) m) k = (if P k then map_of m k else None)"
  by (induction m) auto

text \<open>Purging logged events up to an id removes every event with that id or a smaller one,
  keeps the others, and reports how many were removed. (The comment on the function says
  that only smaller ids are removed.)\<close>

theorem purge_loginfo_boundary:
  "map_of (GetLogInfoList (snd (PurgeLogInfoBefore codec i ds))) k =
     (if k \<le> i then None else map_option codec (map_of (GetLogInfoList ds) k)) \<and>
   fst (PurgeLogInfoBefore codec i ds) + length (GetLogInfoList (snd (PurgeLogInfoBefore codec i ds))) =
     length (GetLogInfoList ds)"
proof -
  let ?arr = "getLogInfoMap ds"
  have "map_of (GetLogInfoList (snd (PurgeLogInfoBefore codec i ds))) k =
      map_option codec (map_of (filter (\<lambda>(k, v). k > i) ?arr) k)"
    by (simp add: PurgeLogInfoBefore_def GetLogInfoList_def setLogInfoMap_def getLogInfoMap_def
        ns_or_new_def Let_def map_of_map_codec)
  moreover have "length (filter (\<lambda>(k, v). \<not> k > i) ?arr) + length (filter (\<lambda>(k, v). k > i) ?arr) =
      length ?arr"
    using sum_length_filter_compl [of "\<lambda>(k, v). \<not> k > i" ?arr]
    by (simp add: case_prod_unfold)
  ultimately show ?thesis
    by (simp add: map_of_filter_key PurgeLogInfoBefore_def GetLogInfoList_def setLogInfoMap_def
        getLogInfoMap_def ns_or_new_def Let_def)
qed

end
