(* ===== verification/Flatten.thy ===== *)
theory Flatten
  imports Values
begin

text \<open>
  \<^verbatim>\<open>util/util.go\<close> and \<^verbatim>\<open>util/strings.go\<close>: turning an object into the sorted list of
  \<open>key:value\<close> lines that the search index stores. \<open>DeepMerge\<close> flattens nested maps and
  arrays into one map, \<open>FlattenObj\<close> does so for the tagged fields of a struct, and
  \<open>Indexify\<close> sorts, removes duplicates, trims and joins. A failed type assertion and the
  explicit \<open>panic\<close> of \<open>Indexify\<close> are \<open>Panic\<close>; the theorems show that an object whose
  fields hold decoded JSON never gets there.
\<close>

subsection \<open>Configuration\<close>

text \<open>The fields of \<open>config.Conf\<close> that the modelled code reads. The database and
  the external secret store are switched off in the modelled configuration.\<close>

record conf =
  UseAuth :: bool
  DotSearch :: bool
  UsePostgreSQL :: bool
  UseSerf :: bool
  LogEvents :: bool
  SkipLogExtended :: bool
  IndexValTrim :: int
  DisableWebUI :: bool
  JSONReqMaxSize :: int
  ObjMaxSize :: int
  TimeSlewDur :: int
  PprofWhitelist :: "string list"
  UseShovey :: bool
  ConvertSearch :: bool
  LogEventKeep :: int
  PurgeReportsDur :: int
  PurgeSandboxesDur :: int
  PurgeNodeStatusDur :: int

subsection \<open>Strings\<close>

text \<open>The rune that a Go string starts with takes up this many bytes; 0 stands for an
  invalid encoding, which a conversion to runes replaces byte by byte with U+FFFD.\<close>

definition in_range :: "nat \<Rightarrow> nat \<Rightarrow> char \<Rightarrow> bool" where
  "in_range a b c \<longleftrightarrow> a \<le> of_char c \<and> of_char c \<le> b"

definition utf8_size :: "char \<Rightarrow> nat" where
  "utf8_size c =
     (if in_range 0 0x7F c then 1 else if in_range 0xC2 0xDF c then 2
      else if in_range 0xE0 0xEF c then 3 else if in_range 0xF0 0xF4 c then 4 else 0)"

definition utf8_second_ok :: "char \<Rightarrow> char \<Rightarrow> bool" where
  "utf8_second_ok c c1 =
     in_range (if c = CHR 0xE0 then 0xA0 else if c = CHR 0xF0 then 0x90 else 0x80)
       (if c = CHR 0xED then 0x9F else if c = CHR 0xF4 then 0x8F else 0xBF) c1"

fun utf8_len :: "string \<Rightarrow> nat" where
  "utf8_len [] = 0"
| "utf8_len (c # s) =
     (let n = utf8_size c
      in if n \<le> 1 then n
         else if length s < n - 1 \<or> \<not> utf8_second_ok c (hd s) \<or>
                 \<not> list_all (in_range 0x80 0xBF) (take (n - 2) (tl s)) then 0
         else n)"

text \<open>\<open>[]rune(s)\<close>, each rune given by its encoding.\<close>

function runes :: "string \<Rightarrow> string list" where
  "runes [] = []"
| "runes (c # s) =
     (let n = utf8_len (c # s)
      in if n = 0 then [CHR 0xEF, CHR 0xBF, CHR 0xBD] # runes s
         else take n (c # s) # runes (drop (n - 1) s))"
  by pat_completeness auto
termination by (relation "measure length") auto

definition TrimStringMax :: "string \<Rightarrow> int \<Rightarrow> string" where
  "TrimStringMax s strLength =
     (if strLength \<le> 0 then s
      else let r = runes s
           in if int (length r) > strLength then concat (take (nat strLength) r) else s)"

text \<open>
  \<open>RemoveDupStrings\<close> ranges over the slice it was given while it deletes from it in
  place: the range is over the original length of the backing array \<open>arr\<close>, the current
  slice is its first \<open>len\<close> elements, and deleting moves the rest of the slice forward and
  leaves the tail of the array as it was.
\<close>

definition delTwoPosElements :: "nat \<Rightarrow> nat \<Rightarrow> string list \<Rightarrow> nat \<Rightarrow> string list \<times> nat" where
  "delTwoPosElements pos skip arr len =
     (take pos arr @ drop (pos + skip) (take len arr) @ drop (len - skip) arr, len - skip)"

fun remove_dups_loop :: "nat \<Rightarrow> nat \<Rightarrow> string list \<Rightarrow> nat \<Rightarrow> string list \<times> nat" where
  "remove_dups_loop 0 i arr len = (arr, len)"
| "remove_dups_loop (Suc n) i arr len =
     (if i > len then (arr, len)
      else let s = length (takeWhile (\<lambda>w. arr ! i = w) (drop (i + 1) (take len arr)))
           in if s = 0 then remove_dups_loop n (i + 1) arr len
              else let (arr', len') = delTwoPosElements (i + 1) s arr len
                   in remove_dups_loop n (i + 1) arr' len')"

definition RemoveDupStrings :: "string list \<Rightarrow> string list" where
  "RemoveDupStrings strs =
     (let (arr, len) = remove_dups_loop (length strs) 0 strs (length strs) in take len arr)"

text \<open>What the call leaves in the slice it was given.\<close>

definition RemoveDupStrings_array :: "string list \<Rightarrow> string list" where
  "RemoveDupStrings_array strs = fst (remove_dups_loop (length strs) 0 strs (length strs))"

subsection \<open>Flattening\<close>

definition getNKey :: "string \<Rightarrow> string \<Rightarrow> string \<Rightarrow> string" where
  "getNKey key subkey sep = (if key = [] then subkey else join_with sep [key, subkey])"

definition mergeInterfaceMapChildren :: "string list \<Rightarrow> gval \<Rightarrow> string list outcome" where
  "mergeInterfaceMapChildren strArr val =
     (case val of GStrs l \<Rightarrow> Ok (strArr @ l) | GStr s \<Rightarrow> Ok (strArr @ [s]) | _ \<Rightarrow> Panic)"

text \<open>\<open>stringify\<close>: booleans by \<open>FormatBool\<close>, everything that is not a number type by the
  format \<^verbatim>\<open>%v\<close>, which for a \<open>json.Number\<close> is its text and for a map lists the keys in
  order.\<close>

fun stringify :: "gval \<Rightarrow> string" where
  "stringify GNil = ''<nil>''"
| "stringify (GBool b) = (if b then ''true'' else ''false'')"
| "stringify (GNum s) = s"
| "stringify (GStr s) = s"
| "stringify (GArr vs) = ''['' @ join_with '' '' (map stringify vs) @ '']''"
| "stringify (GStrs vs) = ''['' @ join_with '' '' vs @ '']''"
| "stringify (GMap m) =
     ''map['' @ join_with '' '' (map (\<lambda>(k, s). k @ '':'' @ s)
        (sort_by (\<lambda>p q. fst p < fst q) (map (\<lambda>(k, v). (k, stringify v)) m))) @ '']''"
| "stringify (GStrMap m) =
     ''map['' @ join_with '' '' (map (\<lambda>(k, s). k @ '':'' @ s)
        (sort_by (\<lambda>p q. fst p < fst q) m)) @ '']''"
| "stringify (GStrsMap m) =
     ''map['' @ join_with '' '' (map (\<lambda>(k, s). k @ '':'' @ s)
        (sort_by (\<lambda>p q. fst p < fst q)
          (map (\<lambda>(k, l). (k, ''['' @ join_with '' '' l @ '']'')) m))) @ '']''"

text \<open>\<open>for k, v := range nm { merger[k] = v }\<close>\<close>

definition merge_all :: "('k \<times> 'v) list \<Rightarrow> ('k \<times> 'v) list \<Rightarrow> ('k \<times> 'v) list" where
  "merge_all nm merger = fold (\<lambda>(j, q) m. aput j q m) nm merger"

fun merge_children ::
  "string \<Rightarrow> string \<Rightarrow> gobj \<Rightarrow> (string \<times> string list) list \<Rightarrow> (string \<times> string list) list outcome"
where
  "merge_children key sep [] mapMerge = Ok mapMerge"
| "merge_children key sep ((imk, imv) # interMap) mapMerge =
     (let nk = getNKey key imk sep;
          old = (case map_of mapMerge nk of None \<Rightarrow> [] | Some l \<Rightarrow> l)
      in outcome_bind (mergeInterfaceMapChildren old imv)
           (\<lambda>l. merge_children key sep interMap (aput nk l mapMerge)))"

fun merge_sub_children ::
  "string \<Rightarrow> string \<Rightarrow> gobj \<Rightarrow> string list \<Rightarrow> (string \<times> string list) list \<Rightarrow>
   (string list \<times> (string \<times> string list) list) outcome"
where
  "merge_sub_children key sep [] km mapMerge = Ok (km, mapMerge)"
| "merge_sub_children key sep ((smk, smv) # smMerge) km mapMerge =
     (if smk = [] then
        outcome_bind (mergeInterfaceMapChildren km smv)
          (\<lambda>l. merge_sub_children key sep smMerge l mapMerge)
      else
        (let nk = getNKey key smk sep;
             old = (case map_of mapMerge nk of None \<Rightarrow> [] | Some l \<Rightarrow> l)
         in outcome_bind (mergeInterfaceMapChildren old smv)
              (\<lambda>l. merge_sub_children key sep smMerge km (aput nk l mapMerge))))"

text \<open>The submatches of \<^verbatim>\<open>^(recipe|role)\[(.*)\]\<close>: the dot does not match a line feed and
  the repetition is greedy, so the second group ends before the last bracket of the first
  line.\<close>

definition before_last_bracket :: "string \<Rightarrow> string option" where
  "before_last_bracket s =
     (let l = takeWhile (\<lambda>c. c \<noteq> CHR 0x0A) s;
          r = dropWhile (\<lambda>c. c \<noteq> CHR '']'') (rev l)
      in case r of [] \<Rightarrow> None | _ # t \<Rightarrow> Some (rev t))"

definition roleMatch :: "string \<Rightarrow> (string \<times> string) option" where
  "roleMatch s =
     (if take 7 s = ''recipe['' then map_option (Pair ''recipe'') (before_last_bracket (drop 7 s))
      else if take 5 s = ''role['' then map_option (Pair ''role'') (before_last_bracket (drop 5 s))
      else None)"

definition run_list_split :: "string list \<Rightarrow> gobj \<Rightarrow> gobj" where
  "run_list_split v merger =
     (let items = List.map_filter roleMatch v;
          roles = map snd (filter (\<lambda>p. fst p = ''role'') items);
          recipes = map snd (filter (\<lambda>p. fst p = ''recipe'') items);
          merger1 = (if length roles > 0 then aput ''role'' (GStrs roles) merger else merger)
      in if length recipes > 0 then aput ''recipe'' (GStrs recipes) merger1 else merger1)"

definition search_sep :: "conf \<Rightarrow> string" where
  "search_sep cfg = (if DotSearch cfg then ''.'' else ''_'')"

definition top_level :: "conf \<Rightarrow> string \<Rightarrow> string list \<Rightarrow> gobj \<Rightarrow> gobj" where
  "top_level cfg key ks merger =
     (if key \<noteq> [] \<and> \<not> UsePostgreSQL cfg then aput key (GStrs ks) merger else merger)"

function (sequential) DeepMerge :: "conf \<Rightarrow> string \<Rightarrow> gval \<Rightarrow> gobj outcome"
  and deep_merge_map :: "conf \<Rightarrow> string \<Rightarrow> gobj \<Rightarrow> gobj \<Rightarrow> gobj outcome"
  and deep_merge_arr :: "conf \<Rightarrow> string \<Rightarrow> gval list \<Rightarrow> string list \<Rightarrow> (string \<times> string list) list \<Rightarrow>
    (string list \<times> (string \<times> string list) list) outcome"
  and deep_merge_sub :: "conf \<Rightarrow> string \<Rightarrow> gval list \<Rightarrow> string list \<Rightarrow> (string \<times> string list) list \<Rightarrow>
    (string list \<times> (string \<times> string list) list) outcome"
where
  "DeepMerge cfg key (GMap v) =
     outcome_bind (deep_merge_map cfg key v []) (\<lambda>merger. Ok (top_level cfg key (map fst v) merger))"
| "DeepMerge cfg key (GStrMap v) =
     Ok (top_level cfg key (map fst v)
          (merge_all (map (\<lambda>(k, u). (getNKey key k (search_sep cfg), GStr u)) v) []))"
| "DeepMerge cfg key (GArr v) =
     outcome_bind (deep_merge_arr cfg key v [] [])
       (\<lambda>(km, mapMerge). Ok (aput key (GStrs km)
          (merge_all (map (\<lambda>(k, l). (k, GStrs l)) mapMerge) [])))"
| "DeepMerge cfg key (GStrs v) =
     Ok (if key = ''run_list'' then run_list_split v [(key, GStrs v)] else [(key, GStrs v)])"
| "DeepMerge cfg key v = Ok [(key, GStr (stringify v))]"
| "deep_merge_map cfg key [] merger = Ok merger"
| "deep_merge_map cfg key ((k, u) # v) merger =
     outcome_bind (DeepMerge cfg (getNKey key k (search_sep cfg)) u)
       (\<lambda>nm. deep_merge_map cfg key v (merge_all nm merger))"
| "deep_merge_arr cfg key [] km mapMerge = Ok (km, mapMerge)"
| "deep_merge_arr cfg key (GMap m # v) km mapMerge =
     outcome_bind (DeepMerge cfg [] (GMap m))
       (\<lambda>interMap. outcome_bind (merge_children key (search_sep cfg) interMap mapMerge)
         (\<lambda>mm. deep_merge_arr cfg key v km mm))"
| "deep_merge_arr cfg key (GStrMap m # v) km mapMerge =
     outcome_bind (DeepMerge cfg [] (GStrMap m))
       (\<lambda>interMap. outcome_bind (merge_children key (search_sep cfg) interMap mapMerge)
         (\<lambda>mm. deep_merge_arr cfg key v km mm))"
| "deep_merge_arr cfg key (GArr w # v) km mapMerge =
     outcome_bind (deep_merge_sub cfg key w km mapMerge)
       (\<lambda>(km', mm). deep_merge_arr cfg key v km' mm)"
| "deep_merge_arr cfg key (GStrs w # v) km mapMerge = Panic"
| "deep_merge_arr cfg key (w # v) km mapMerge = deep_merge_arr cfg key v (km @ [stringify w]) mapMerge"
| "deep_merge_sub cfg key [] km mapMerge = Ok (km, mapMerge)"
| "deep_merge_sub cfg key (sv # w) km mapMerge =
     outcome_bind (DeepMerge cfg [] sv)
       (\<lambda>smMerge. outcome_bind (merge_sub_children key (search_sep cfg) smMerge km mapMerge)
         (\<lambda>(km', mm). deep_merge_sub cfg key w km' mm))"
  by pat_completeness auto
termination
  by (relation "measure (\<lambda>x. case x of
        Inl (Inl (_, _, v)) \<Rightarrow> 2 * size v
      | Inl (Inr (_, _, m, _)) \<Rightarrow> 2 * size_list (size_prod (\<lambda>_. 0) size) m + 1
      | Inr (Inl (_, _, vs, _, _)) \<Rightarrow> 2 * size_list size vs + 1
      | Inr (Inr (_, _, vs, _, _)) \<Rightarrow> 2 * size_list size vs + 1)") auto

text \<open>The fields of the struct are given with their tags, in declaration order.\<close>

definition merge_key :: "string \<Rightarrow> string" where
  "merge_key key =
     (if key \<in> {''automatic'', ''normal'', ''default'', ''override'', ''raw_data''} then [] else key)"

fun flatten_fields :: "conf \<Rightarrow> (string \<Rightarrow> string) \<Rightarrow> gobj \<Rightarrow> gobj \<Rightarrow> gobj outcome" where
  "flatten_fields cfg mkey [] expanded = Ok expanded"
| "flatten_fields cfg mkey ((key, v) # flds) expanded =
     outcome_bind (DeepMerge cfg (mkey key) v)
       (\<lambda>subExpand. flatten_fields cfg mkey flds (merge_all subExpand expanded))"

definition FlattenObj :: "conf \<Rightarrow> gobj \<Rightarrow> gobj outcome" where
  "FlattenObj cfg flds = flatten_fields cfg merge_key flds []"

fun MapifyObject :: "gobj \<Rightarrow> gobj \<Rightarrow> gobj" where
  "MapifyObject [] mapified = mapified"
| "MapifyObject ((key, v) # flds) mapified = MapifyObject flds (aput key v mapified)"

fun indexify_lines :: "conf \<Rightarrow> gobj \<Rightarrow> string list outcome" where
  "indexify_lines cfg [] = Ok []"
| "indexify_lines cfg ((k, v) # flattened) =
     outcome_bind
       (case v of
          GStr s \<Rightarrow> Ok [join_with '':'' [k, TrimStringMax s (IndexValTrim cfg)]]
        | GStrs l \<Rightarrow> Ok (map (\<lambda>w. join_with '':'' [k, TrimStringMax w (IndexValTrim cfg)])
                          (RemoveDupStrings (sort l)))
        | _ \<Rightarrow> Panic)
       (\<lambda>ls. outcome_bind (indexify_lines cfg flattened) (\<lambda>rest. Ok (ls @ rest)))"

definition Indexify :: "conf \<Rightarrow> gobj \<Rightarrow> string list outcome" where
  "Indexify cfg flattened = outcome_bind (indexify_lines cfg flattened) (\<lambda>ls. Ok (sort ls))"

subsection \<open>Removing duplicates\<close>

lemma delTwoPosElements_slice:
  assumes "pos + skip \<le> len" "len \<le> length arr" "delTwoPosElements pos skip arr len = (arr', len')"
  shows "take len' arr' = take pos arr @ drop (pos + skip) (take len arr) \<and>
    length arr' = length arr \<and> len' = len - skip"
  using assms by (auto simp: delTwoPosElements_def)

lemma remove_dups_loop_eq:
  assumes "i + n = length arr" "len \<le> length arr"
  shows "(case remove_dups_loop n i arr len of (a, l) \<Rightarrow> take l a) = take i (take len arr) @ remdups_adj (drop i (take len arr))"
  using assms
proof (induction n arbitrary: i arr len)
  case 0
  then show ?case by simp
next
  case (Suc n)
  show ?case
  proof (cases "i < len")
    case False
    then show ?thesis
      using Suc by (auto simp: Let_def)
  next
    case True
    define R where "R = drop (i + 1) (take len arr)"
    define s where "s = length (takeWhile (\<lambda>w. arr ! i = w) R)"
    have sl: "drop i (take len arr) = arr ! i # R"
      using True Suc.prems(2) by (simp add: R_def Cons_nth_drop_Suc [symmetric])
    have dw: "drop s R = dropWhile (\<lambda>w. w = arr ! i) R"
      unfolding s_def dropWhile_eq_drop [symmetric] by (rule dropWhile_cong) auto
    have adj: "remdups_adj (arr ! i # R) = arr ! i # remdups_adj (drop s R)"
      unfolding dw remdups_adj_Cons' by (simp add: eq_commute)
    show ?thesis
    proof (cases "s = 0")
      case True
      then have "remove_dups_loop (Suc n) i arr len = remove_dups_loop n (i + 1) arr len"
        using \<open>i < len\<close> by (simp add: s_def R_def)
      moreover have "(case remove_dups_loop n (i + 1) arr len of (a, l) \<Rightarrow> take l a) = take (i + 1) (take len arr) @ remdups_adj R"
        using Suc.IH [of "i + 1" arr len] Suc.prems by (simp add: R_def)
      moreover have "take (i + 1) (take len arr) = take i (take len arr) @ [arr ! i]"
        using \<open>i < len\<close> Suc.prems(2) by (simp add: take_Suc_conv_app_nth min_def)
      ultimately show ?thesis using adj True by (simp add: sl)
    next
      case False
      obtain arr' len' where d: "delTwoPosElements (i + 1) s arr len = (arr', len')" by fastforce
      have "s \<le> length R" unfolding s_def by (rule length_takeWhile_le)
      then have "i + 1 + s \<le> len" using True Suc.prems(2) by (simp add: R_def)
      note e = delTwoPosElements_slice [OF this Suc.prems(2) d]
      have t: "take (i + 1) arr = take i (take len arr) @ [arr ! i]"
        using True Suc.prems(2) by (simp add: take_Suc_conv_app_nth min_def)
      have sl': "take len' arr' = take i (take len arr) @ arr ! i # drop s R"
        using conjunct1 [OF e] t by (simp add: R_def add.commute)
      have li: "length (take i (take len arr)) = i" using True Suc.prems(2) by simp
      have "remove_dups_loop (Suc n) i arr len = remove_dups_loop n (i + 1) arr' len'"
        using True False d by (simp add: s_def R_def)
      moreover have "(case remove_dups_loop n (i + 1) arr' len' of (a, l) \<Rightarrow> take l a) = take (i + 1) (take len' arr') @ remdups_adj (drop (i + 1) (take len' arr'))"
        using Suc.IH [of "i + 1" arr' len'] Suc.prems e by simp
      moreover have "take (i + 1) (take len' arr') @ remdups_adj (drop (i + 1) (take len' arr')) =
          take i (take len arr) @ arr ! i # remdups_adj (drop s R)"
        unfolding sl' using li by simp
      ultimately show ?thesis using adj by (simp only: sl)
    qed
  qed
qed

lemma RemoveDupStrings_eq: "RemoveDupStrings strs = remdups_adj strs"
  using remove_dups_loop_eq [of 0 "length strs" strs "length strs"] by (simp add: RemoveDupStrings_def Let_def)

lemma strict_sorted_remdups_adj: "sorted xs \<Longrightarrow> sorted_wrt (<) (remdups_adj xs)"
proof (induction xs rule: remdups_adj.induct)
  case (3 x y xs)
  then show ?case by (cases "x = y") fastforce+
qed simp_all

text \<open>On a sorted slice \<open>RemoveDupStrings\<close>, which deletes from the array it is
  ranging over, returns the strictly sorted list of the elements.\<close>

theorem remove_dup_strings:
  assumes "sorted strs"
  shows "RemoveDupStrings strs = sorted_list_of_set (set strs)"
proof -
  have "sorted (remdups_adj strs) \<and> distinct (remdups_adj strs)"
    using strict_sorted_remdups_adj [OF assms] by (simp add: strict_sorted_iff)
  then show ?thesis
    by (simp add: RemoveDupStrings_eq sorted_distinct_set_unique)
qed

theorem remove_dup_strings_witness:
  "RemoveDupStrings [''a'', ''a'', ''b'', ''c'', ''c'', ''c''] =
     sorted_list_of_set {''a'', ''b'', ''c''}"
proof -
  have "sorted [''a'', ''a'', ''b'', ''c'', ''c'', ''c'']" by (simp add: less_eq_char_def)
  from remove_dup_strings [OF this] show ?thesis
    by simp
qed

subsection \<open>Flattening never fails on decoded JSON\<close>

text \<open>Values as the JSON decoder makes them: arrays and maps hold values, never a slice of
  strings.\<close>

fun json_val :: "gval \<Rightarrow> bool" where
  "json_val (GMap m) \<longleftrightarrow> (\<forall>p\<in>set m. json_val (snd p))"
| "json_val (GArr vs) \<longleftrightarrow> (\<forall>v\<in>set vs. json_val v)"
| "json_val (GStrs l) \<longleftrightarrow> False"
| "json_val _ \<longleftrightarrow> True"

definition field_val :: "gval \<Rightarrow> bool" where
  "field_val v \<longleftrightarrow> json_val v \<or> (\<exists>l. v = GStrs l)"

definition flat_val :: "gval \<Rightarrow> bool" where
  "flat_val v \<longleftrightarrow> (\<exists>s. v = GStr s) \<or> (\<exists>l. v = GStrs l)"

definition flat_obj :: "gobj \<Rightarrow> bool" where
  "flat_obj m \<longleftrightarrow> (\<forall>p\<in>set m. flat_val (snd p))"

lemma flat_val_intros [simp]: "flat_val (GStr s)" "flat_val (GStrs l)"
  by (simp_all add: flat_val_def)

lemma set_aput: "set (aput k v m) \<subseteq> insert (k, v) (set m)"
  by (induction k v m rule: aput.induct) auto

lemma flat_obj_simps [simp]: "flat_obj []" "flat_obj (p # m) \<longleftrightarrow> flat_val (snd p) \<and> flat_obj m"
  by (auto simp: flat_obj_def)

lemma flat_obj_aput [simp]: "flat_val v \<Longrightarrow> flat_obj m \<Longrightarrow> flat_obj (aput k v m)"
  using set_aput [of k v m] by (fastforce simp: flat_obj_def)

lemma flat_obj_merge_all [simp]: "flat_obj nm \<Longrightarrow> flat_obj m \<Longrightarrow> flat_obj (merge_all nm m)"
  unfolding merge_all_def by (induction nm arbitrary: m) (simp_all add: case_prod_beta)

lemma flat_obj_map: "(\<And>p. p \<in> set m \<Longrightarrow> flat_val (f (snd p))) \<Longrightarrow> flat_obj (map (\<lambda>(k, v). (g k, f v)) m)"
  by (auto simp: flat_obj_def)

lemma flat_obj_top_level [simp]: "flat_obj m \<Longrightarrow> flat_obj (top_level cfg key ks m)"
  by (simp add: top_level_def)

lemma flat_obj_run_list_split [simp]: "flat_obj m \<Longrightarrow> flat_obj (run_list_split v m)"
  unfolding run_list_split_def Let_def by (simp only: flat_obj_aput flat_val_intros split: if_split) simp

lemma merge_children_ok: "flat_obj m \<Longrightarrow> \<exists>mm. merge_children key sep m mapMerge = Ok mm"
  by (induction key sep m mapMerge rule: merge_children.induct)
    (auto simp: flat_val_def mergeInterfaceMapChildren_def Let_def)

lemma merge_sub_children_ok:
  "flat_obj m \<Longrightarrow> \<exists>km' mm. merge_sub_children key sep m km mapMerge = Ok (km', mm)"
  by (induction key sep m km mapMerge rule: merge_sub_children.induct)
    (auto simp: flat_val_def mergeInterfaceMapChildren_def Let_def)

lemma deep_merge_ok:
  "json_val v \<Longrightarrow> \<exists>m. DeepMerge cfg key v = Ok m \<and> flat_obj m"
  "\<forall>p\<in>set mv. json_val (snd p) \<Longrightarrow> flat_obj merger \<Longrightarrow>
     \<exists>m. deep_merge_map cfg key mv merger = Ok m \<and> flat_obj m"
  "\<forall>v\<in>set vs. json_val v \<Longrightarrow> \<exists>km' mm. deep_merge_arr cfg key vs km mapMerge = Ok (km', mm)"
  "\<forall>v\<in>set ws. json_val v \<Longrightarrow> \<exists>km' mm. deep_merge_sub cfg key ws km mapMerge = Ok (km', mm)"
proof (induction cfg key v and cfg key mv merger and cfg key vs km mapMerge and cfg key ws km mapMerge
    rule: DeepMerge_deep_merge_map_deep_merge_arr_deep_merge_sub.induct)
  case (1 cfg key v)
  then show ?case by fastforce
next
  case (2 cfg key v)
  then show ?case by (auto intro!: flat_obj_top_level flat_obj_merge_all flat_obj_map)
next
  case (3 cfg key v)
  then obtain km mm where "deep_merge_arr cfg key v [] [] = Ok (km, mm)" by fastforce
  then show ?case by (auto intro!: flat_obj_aput flat_obj_merge_all flat_obj_map)
next
  case (7 cfg key k u v merger)
  then show ?case by fastforce
next
  case (9 cfg key m v km mapMerge)
  then obtain im where im: "DeepMerge cfg [] (GMap m) = Ok im" "flat_obj im" by fastforce
  obtain mm where "merge_children key (search_sep cfg) im mapMerge = Ok mm"
    using merge_children_ok [OF im(2)] by blast
  with im 9 show ?case by fastforce
next
  case (10 cfg key m v km mapMerge)
  then obtain im where im: "DeepMerge cfg [] (GStrMap m) = Ok im" "flat_obj im" by fastforce
  obtain mm where "merge_children key (search_sep cfg) im mapMerge = Ok mm"
    using merge_children_ok [OF im(2)] by blast
  with im 10 show ?case by fastforce
next
  case (11 cfg key w v km mapMerge)
  then show ?case by fastforce
next
  case (15 cfg key sv w km mapMerge)
  then obtain im where im: "DeepMerge cfg [] sv = Ok im" "flat_obj im" by fastforce
  obtain km' mm where "merge_sub_children key (search_sep cfg) im km mapMerge = Ok (km', mm)"
    using merge_sub_children_ok [OF im(2)] by blast
  with im 15 show ?case by fastforce
qed auto

lemma flatten_fields_ok:
  "\<forall>p\<in>set flds. field_val (snd p) \<Longrightarrow> flat_obj e \<Longrightarrow>
     \<exists>m. flatten_fields cfg mkey flds e = Ok m \<and> flat_obj m"
proof (induction cfg mkey flds e rule: flatten_fields.induct)
  case (2 cfg mkey key v flds e)
  have "\<exists>m. DeepMerge cfg (mkey key) v = Ok m \<and> flat_obj m"
  proof (cases "json_val v")
    case True
    then show ?thesis by (rule deep_merge_ok(1))
  next
    case False
    then show ?thesis using 2(2) by (auto simp: field_val_def)
  qed
  with 2 show ?case by fastforce
qed simp

definition value_lines :: "conf \<Rightarrow> string \<Rightarrow> gval \<Rightarrow> string set" where
  "value_lines cfg k v =
     (let line = (\<lambda>w. k @ '':'' @ TrimStringMax w (IndexValTrim cfg))
      in case v of GStr s \<Rightarrow> {line s} | GStrs l \<Rightarrow> line ` set l | _ \<Rightarrow> {})"

lemma indexify_lines_ok:
  "flat_obj m \<Longrightarrow> \<exists>ls. indexify_lines cfg m = Ok ls \<and> set ls = (\<Union>(k, v)\<in>set m. value_lines cfg k v)"
proof (induction cfg m rule: indexify_lines.induct)
  case (2 cfg k v m)
  then obtain ls where "indexify_lines cfg m = Ok ls" "set ls = (\<Union>(k, v)\<in>set m. value_lines cfg k v)"
    by (auto simp: flat_val_def split: gval.splits)
  with 2(2) show ?case
    by (auto simp: flat_val_def value_lines_def Let_def RemoveDupStrings_eq)
qed simp

text \<open>Flattening and indexing an object whose fields hold decoded JSON (or slices of
  strings, like a run list) always succeeds: no type assertion fails and the panic of
  \<open>Indexify\<close> is unreachable. The lines are sorted, as the trie requires, and are exactly
  the trimmed values of the flattened keys.\<close>

theorem flatten_index_total:
  assumes "\<forall>p\<in>set flds. field_val (snd p)"
  shows "\<exists>m ls. FlattenObj cfg flds = Ok m \<and> Indexify cfg m = Ok ls \<and> sorted ls \<and>
    set ls = (\<Union>(k, v)\<in>set m. value_lines cfg k v)"
proof -
  obtain m where m: "FlattenObj cfg flds = Ok m" "flat_obj m"
    using flatten_fields_ok [OF assms, of "[]" cfg merge_key] by (auto simp: FlattenObj_def)
  obtain ls where "indexify_lines cfg m = Ok ls" "set ls = (\<Union>(k, v)\<in>set m. value_lines cfg k v)"
    using indexify_lines_ok [OF m(2)] by blast
  with m(1) show ?thesis by (auto simp: Indexify_def)
qed

definition example_conf :: conf where
  "example_conf = \<lparr>UseAuth = True, DotSearch = False, UsePostgreSQL = False, UseSerf = True,
     LogEvents = True, SkipLogExtended = False, IndexValTrim = 100,
     DisableWebUI = False, JSONReqMaxSize = 1000000, ObjMaxSize = 10485760, TimeSlewDur = 900000000000, PprofWhitelist = [],
     UseShovey = True, ConvertSearch = False, LogEventKeep = 0, PurgeReportsDur = 0, PurgeSandboxesDur = 0,
     PurgeNodeStatusDur = 0\<rparr>"

definition example_fields :: gobj where
  "example_fields = [(''name'', GStr ''web''), (''run_list'', GStrs [''recipe[nginx]'', ''role[base]'']),
     (''normal'', GMap [(''net'', GMap [(''ip'', GStr ''10'')]), (''ports'', GArr [GNum ''80'', GNum ''443''])])]"

theorem flatten_index_total_witness:
  "\<exists>m ls. FlattenObj example_conf example_fields = Ok m \<and> Indexify example_conf m = Ok ls \<and> sorted ls \<and>
    m = [(''name'', GStr ''web''), (''run_list'', GStrs [''recipe[nginx]'', ''role[base]'']),
         (''role'', GStrs [''base'']), (''recipe'', GStrs [''nginx'']),
         (''net_ip'', GStr ''10''), (''net'', GStrs [''ip'']), (''ports'', GStrs [''80'', ''443''])]"
proof -
  have "FlattenObj example_conf example_fields =
    Ok [(''name'', GStr ''web''), (''run_list'', GStrs [''recipe[nginx]'', ''role[base]'']),
         (''role'', GStrs [''base'']), (''recipe'', GStrs [''nginx'']),
         (''net_ip'', GStr ''10''), (''net'', GStrs [''ip'']), (''ports'', GStrs [''80'', ''443''])]"
    by code_simp
  moreover have "\<forall>p\<in>set example_fields. field_val (snd p)"
    by (simp add: example_fields_def field_val_def)
  ultimately show ?thesis
    using flatten_index_total [of example_fields example_conf] by fastforce
qed

text \<open>Keys are joined with the separator without escaping, so different paths can
  flatten to the same key, and then only one of the values is indexed: of \<open>a.b = x\<close> and
  \<open>a_b = y\<close> the map holds whichever is visited last.\<close>

theorem flatten_key_collision:
  "DeepMerge example_conf [] (GMap [(''a'', GMap [(''b'', GStr ''x'')]), (''a_b'', GStr ''y'')]) =
     Ok [(''a_b'', GStr ''y''), (''a'', GStrs [''b''])] \<and>
   DeepMerge example_conf [] (GMap [(''a_b'', GStr ''y''), (''a'', GMap [(''b'', GStr ''x'')])]) =
     Ok [(''a_b'', GStr ''x''), (''a'', GStrs [''b''])]"
  by code_simp

subsection \<open>Trimming\<close>

definition valid_utf8 :: "string \<Rightarrow> bool" where
  "valid_utf8 s \<longleftrightarrow> concat (runes s) = s"

text \<open>Trimming cuts between characters: of a well-formed string at most the given
  number of characters are kept, they are a prefix, and nothing is cut when the string is
  short enough. A limit of zero or less means no limit.\<close>

theorem TrimStringMax_prefix:
  assumes "valid_utf8 s" "0 < n"
  shows "\<exists>k \<le> nat n. TrimStringMax s n = concat (take k (runes s)) \<and>
    (\<exists>t. s = TrimStringMax s n @ t) \<and> (length (runes s) \<le> nat n \<longrightarrow> TrimStringMax s n = s)"
proof -
  let ?k = "min (nat n) (length (runes s))"
  have s: "s = concat (take j (runes s)) @ concat (drop j (runes s))" for j
    using assms(1) unfolding valid_utf8_def by (metis append_take_drop_id concat_append)
  have "TrimStringMax s n = concat (take ?k (runes s))"
    using assms by (auto simp: TrimStringMax_def Let_def valid_utf8_def min_def)
  moreover have "length (runes s) \<le> nat n \<longrightarrow> TrimStringMax s n = s"
    using assms(2) by (auto simp: TrimStringMax_def Let_def)
  ultimately show ?thesis using s by (intro exI [of _ ?k]) auto
qed

theorem TrimStringMax_prefix_witness:
  "valid_utf8 [CHR ''a'', CHR 0xC3, CHR 0xBC, CHR ''b''] \<and>
   length (TrimStringMax [CHR ''a'', CHR 0xC3, CHR 0xBC, CHR ''b''] 2) = 3 \<and>
   (\<exists>t. [CHR ''a'', CHR 0xC3, CHR 0xBC, CHR ''b''] =
      TrimStringMax [CHR ''a'', CHR 0xC3, CHR 0xBC, CHR ''b''] 2 @ t)"
proof -
  have v: "valid_utf8 [CHR ''a'', CHR 0xC3, CHR 0xBC, CHR ''b'']" by code_simp
  have "length (TrimStringMax [CHR ''a'', CHR 0xC3, CHR 0xBC, CHR ''b''] 2) = 3" by code_simp
  with v TrimStringMax_prefix [OF v, of 2] show ?thesis by auto
qed

end
