(* ===== verification/Trie.thy ===== *)
theory Trie
  imports Flatten
begin

text \<open>
  The trie of \<^verbatim>\<open>vendor/github.com/ctdk/go-trie/gtrie/gtrie.go\<close> that holds the lines of an
  indexed document: a minimal acyclic automaton, built word by word from a sorted list.
  The builder shares and updates nodes, so it is modelled on a heap: a node is its number
  (\<open>Id\<close>, counted up by \<open>nodeIdGen\<close>), and the automaton holds the nodes by number beside the
  registry of nodes that are already shared. A label is a rune, given by its encoding, and
  the order of encodings is the order of code points. \<open>getEquivalenceClass\<close> prints the
  transitions as \<^verbatim>\<open>rune:id;rune:id\<close>, one rune before each colon and decimal digits after
  it, so the text and the list of pairs kept here determine each other.

  The index stores the automaton encoded by \<^verbatim>\<open>msgp\<close>, which writes a node with its children
  in place, and reads it back as a tree: the type \<open>trie\<close>. \<open>Accepts\<close>, \<open>HasPrefix\<close> and
  \<open>ChildKeys\<close> work on that tree.

  The theorems show that strictly sorted words give an automaton without cycles that
  accepts exactly these words. For a word that is inserted twice the code marks the node
  before the last letter; the automaton then accepts a word that was not inserted, and
  later words can close a cycle, on which the encoder never ends.
\<close>

datatype trie = Node (Terminal: bool) (Transitions: "(string \<times> trie) list")

definition GetChild :: "(string \<times> 'a) list \<Rightarrow> string \<Rightarrow> 'a option" where
  "GetChild ts letter =
     (let index = sort_Search (length ts) (\<lambda>i. letter \<le> fst (ts ! i))
      in if index < length ts \<and> fst (ts ! index) = letter then Some (snd (ts ! index)) else None)"

subsection \<open>Building the automaton\<close>

record anode =
  n_Terminal :: bool
  n_Transitions :: "(string \<times> nat) list"

type_synonym eqClass = "bool \<times> (string \<times> nat) list"

record automaton =
  a_nodes :: "anode list"
  reg_eqv :: "(eqClass \<times> nat) list"
  reg_nodes :: "nat list"

definition newNode :: "automaton \<Rightarrow> nat \<times> automaton" where
  "newNode a = (length (a_nodes a), a\<lparr>a_nodes := a_nodes a @ [\<lparr>n_Terminal = False, n_Transitions = []\<rparr>]\<rparr>)"

definition newRegistery :: automaton where
  "newRegistery = \<lparr>a_nodes = [], reg_eqv = [], reg_nodes = []\<rparr>"

definition n_HasChildren :: "nat \<Rightarrow> automaton \<Rightarrow> bool" where
  "n_HasChildren n a \<longleftrightarrow> 0 < length (n_Transitions (a_nodes a ! n))"

definition addTransition :: "nat \<Rightarrow> nat \<Rightarrow> string \<Rightarrow> automaton \<Rightarrow> automaton" where
  "addTransition node child letter a =
     a\<lparr>a_nodes := (a_nodes a)[node := (a_nodes a ! node)\<lparr>n_Transitions := n_Transitions (a_nodes a ! node) @ [(letter, child)]\<rparr>]\<rparr>"

definition addChild :: "nat \<Rightarrow> string \<Rightarrow> automaton \<Rightarrow> nat \<times> automaton" where
  "addChild node letter a =
     (case GetChild (n_Transitions (a_nodes a ! node)) letter of
        Some child \<Rightarrow> (child, a)
      | None \<Rightarrow> (let (child, a1) = newNode a in (child, addTransition node child letter a1)))"

definition getLastChild :: "nat \<Rightarrow> automaton \<Rightarrow> nat" where
  "getLastChild node a = snd (last (n_Transitions (a_nodes a ! node)))"

definition setLastChild :: "nat \<Rightarrow> nat \<Rightarrow> automaton \<Rightarrow> automaton" where
  "setLastChild node child a =
     (let t = n_Transitions (a_nodes a ! node)
      in a\<lparr>a_nodes := (a_nodes a)[node := (a_nodes a ! node)\<lparr>n_Transitions := t[length t - 1 := (fst (last t), child)]\<rparr>]\<rparr>)"

definition setTerminal :: "nat \<Rightarrow> automaton \<Rightarrow> automaton" where
  "setTerminal node a = a\<lparr>a_nodes := (a_nodes a)[node := (a_nodes a ! node)\<lparr>n_Terminal := True\<rparr>]\<rparr>"

definition getEquivalenceClass :: "nat \<Rightarrow> automaton \<Rightarrow> eqClass" where
  "getEquivalenceClass node a = (n_Terminal (a_nodes a ! node), n_Transitions (a_nodes a ! node))"

definition reg_find :: "eqClass \<Rightarrow> automaton \<Rightarrow> nat option" where
  "reg_find class a = map_of (reg_eqv a) class"

definition register :: "eqClass \<Rightarrow> nat \<Rightarrow> automaton \<Rightarrow> automaton" where
  "register class node a = a\<lparr>reg_eqv := (class, node) # reg_eqv a, reg_nodes := node # reg_nodes a\<rparr>"

definition registered :: "nat \<Rightarrow> automaton \<Rightarrow> bool" where
  "registered node a \<longleftrightarrow> node \<in> set (reg_nodes a)"

text \<open>The recursion goes down through nodes that are not registered. Such a node has a
  greater number than its parent, so the number of nodes is enough fuel, whatever words
  were inserted (lemma \<open>replaceOrRegister_fuel\<close>).\<close>

fun replaceOrRegister :: "nat \<Rightarrow> nat \<Rightarrow> automaton \<Rightarrow> automaton" where
  "replaceOrRegister 0 node a = a"
| "replaceOrRegister (Suc fuel) node a =
     (let child = getLastChild node a
      in if registered child a then a
         else let a1 = (if n_HasChildren child a then replaceOrRegister fuel child a else a);
                  class = getEquivalenceClass child a1
              in (case reg_find class a1 of
                    Some eq \<Rightarrow> setLastChild node eq a1
                  | None \<Rightarrow> register class child a1))"

text \<open>The loop that finds the last common state: it ends at a missing child, or when the
  letters are used up, with the node before the last letter.\<close>

fun last_common :: "automaton \<Rightarrow> nat \<Rightarrow> string list \<Rightarrow> nat \<times> string list" where
  "last_common a st [] = (st, [])"
| "last_common a st (r # rs) =
     (case GetChild (n_Transitions (a_nodes a ! st)) r of
        None \<Rightarrow> (st, r # rs)
      | Some current \<Rightarrow> if rs = [] then (st, []) else last_common a current rs)"

fun add_suffix :: "nat \<Rightarrow> string list \<Rightarrow> automaton \<Rightarrow> nat \<times> automaton" where
  "add_suffix st [] a = (st, a)"
| "add_suffix st (r # rs) a = (let (child, a1) = addChild st r a in add_suffix child rs a1)"

definition insertLetters :: "nat \<Rightarrow> string list \<Rightarrow> automaton \<Rightarrow> automaton" where
  "insertLetters node letters a =
     (let (st, rest) = last_common a node letters;
          a1 = (if n_HasChildren st a then replaceOrRegister (length (a_nodes a)) st a else a);
          (st', a2) = add_suffix st rest a1
      in setTerminal st' a2)"

definition insertWord :: "string \<Rightarrow> automaton \<Rightarrow> automaton" where
  "insertWord word a = (let letters = runes word in if length letters = 0 then a else insertLetters 0 letters a)"

text \<open>The last call reads the last transition of the root, which panics when there is
  none.\<close>

definition trie_Create :: "string list \<Rightarrow> automaton outcome" where
  "trie_Create words =
     (let (root, a0) = newNode newRegistery
      in if \<not> sorted words then Errorf ''the words are not sorted''
         else let a = fold insertWord words a0
              in if n_Transitions (a_nodes a ! root) = [] then Panic
                 else Ok (replaceOrRegister (length (a_nodes a)) root a))"

subsection \<open>The stored trie\<close>

text \<open>\<open>EncodeMsg\<close> of a node writes the encodings of its children. The result is \<open>None\<close> when
  the recursion has not ended at the given depth; with the number of nodes as depth this
  means that it never ends (lemma \<open>unfold_enough\<close>).\<close>

fun unfold_node :: "nat \<Rightarrow> anode list \<Rightarrow> nat \<Rightarrow> trie option" where
  "unfold_node 0 ns i = None"
| "unfold_node (Suc depth) ns i =
     map_option (Node (n_Terminal (ns ! i)))
       (those (map (\<lambda>(l, c). map_option (Pair l) (unfold_node depth ns c)) (n_Transitions (ns ! i))))"

definition compressTrie :: "automaton \<Rightarrow> trie option" where
  "compressTrie a = unfold_node (length (a_nodes a)) (a_nodes a) 0"

fun trie_walk :: "string list \<Rightarrow> trie \<Rightarrow> trie option" where
  "trie_walk [] t = Some t"
| "trie_walk (r # rs) (Node b ts) =
     (case GetChild ts r of None \<Rightarrow> None | Some c \<Rightarrow> trie_walk rs c)"

definition trie_Accepts :: "trie \<Rightarrow> string \<Rightarrow> bool" where
  "trie_Accepts t suffix =
     (case trie_walk (runes suffix) t of None \<Rightarrow> False | Some n \<Rightarrow> Terminal n)"

definition trie_HasPrefix :: "trie \<Rightarrow> string \<Rightarrow> trie option" where
  "trie_HasPrefix t prefix = trie_walk (runes prefix) t"

fun ChildKeys :: "trie \<Rightarrow> string list option" where
  "ChildKeys (Node b ts) =
     (if ts = [] \<or> b then None
      else Some (concat (map (\<lambda>(l, c). case ChildKeys c of
                                 Some cs \<Rightarrow> map (\<lambda>s. l @ s) cs
                               | None \<Rightarrow> [l]) ts)))"

text \<open>The trie that is stored for a list of lines, if there is one.\<close>

definition lines_trie :: "string list \<Rightarrow> trie option" where
  "lines_trie words = (case trie_Create words of Ok a \<Rightarrow> compressTrie a | _ \<Rightarrow> None)"

subsection \<open>Binary search along the transitions\<close>

lemma GetChild_map_of:
  assumes "sorted_wrt (<) (map fst ts)"
  shows "GetChild ts r = map_of ts r"
proof -
  let ?f = "\<lambda>i. r \<le> fst (ts ! i)"
  have lt: "fst (ts ! i) < fst (ts ! j)" if "i < j" "j < length ts" for i j
    using assms that by (auto simp: sorted_wrt_iff_nth_less)
  then have le: "fst (ts ! i) \<le> fst (ts ! j)" if "i \<le> j" "j < length ts" for i j
    using that less_imp_le [OF lt, of i j] by (cases "i = j") simp_all
  have "least_from (length ts) ?f (sort_Search (length ts) ?f)"
  proof (rule sort_Search_correct)
    fix k m assume "k \<le> m" "m < length ts" "r \<le> fst (ts ! k)"
    then show "r \<le> fst (ts ! m)" using le [of k m] by (blast intro: order_trans)
  qed
  then have s: "sort_Search (length ts) ?f \<le> length ts"
    "\<And>i. i < sort_Search (length ts) ?f \<Longrightarrow> \<not> ?f i"
    "sort_Search (length ts) ?f < length ts \<Longrightarrow> ?f (sort_Search (length ts) ?f)"
    unfolding least_from_def by (blast, blast, blast)
  have d: "distinct (map fst ts)" using assms by (simp add: strict_sorted_iff)
  show ?thesis
  proof (cases "\<exists>i<length ts. fst (ts ! i) = r")
    case True
    then obtain i where i: "i < length ts" "fst (ts ! i) = r" by blast
    have "sort_Search (length ts) ?f = i"
    proof (rule antisym)
      show "sort_Search (length ts) ?f \<le> i" using s(2) [of i] i by (metis not_le order_refl)
      show "i \<le> sort_Search (length ts) ?f"
      proof (rule ccontr)
        assume "\<not> i \<le> sort_Search (length ts) ?f"
        then have l: "sort_Search (length ts) ?f < i" by simp
        then have "r \<le> fst (ts ! sort_Search (length ts) ?f)" using s(3) i(1) by simp
        with lt [OF l i(1)] i(2) show False by simp
      qed
    qed
    moreover have "map_of ts r = Some (snd (ts ! i))"
      using d i by (metis map_of_eq_Some_iff nth_mem prod.collapse)
    ultimately show ?thesis using i by (simp add: GetChild_def)
  next
    case False
    have "r \<notin> fst ` set ts"
    proof
      assume "r \<in> fst ` set ts"
      then obtain p where "p \<in> set ts" "fst p = r" by auto
      then show False using False unfolding in_set_conv_nth by blast
    qed
    then have "map_of ts r = None" by (simp add: map_of_eq_None_iff)
    moreover have "\<not> (sort_Search (length ts) ?f < length ts \<and> fst (ts ! sort_Search (length ts) ?f) = r)"
      using False by blast
    ultimately show ?thesis by (simp only: GetChild_def Let_def if_False)
  qed
qed

lemma GetChild_Nil [simp]: "GetChild [] r = None"
  by (simp add: GetChild_def)

lemma GetChild_set: "GetChild ts r = Some c \<Longrightarrow> (r, c) \<in> set ts"
  by (auto simp: GetChild_def Let_def split: if_splits) (metis nth_mem prod.collapse)

lemma sort_Search_loop_cong:
  "(\<And>k. k < j \<Longrightarrow> f k = g k) \<Longrightarrow> sort_Search_loop f i j = sort_Search_loop g i j"
proof (induction f i j rule: sort_Search_loop.induct)
  case (1 f i j)
  show ?case
  proof (cases "i < j")
    case True
    define h where "h = (i + j) div 2"
    have h: "h < j" using True by (simp add: h_def)
    have "sort_Search_loop f (h + 1) j = sort_Search_loop g (h + 1) j" if "\<not> f h"
      using "1.IH"(1) [OF True h_def that] "1.prems" by blast
    moreover have "sort_Search_loop f i h = sort_Search_loop g i h" if "f h"
      using "1.IH"(2) [OF True h_def] that "1.prems" h by (metis less_trans)
    ultimately show ?thesis
      using "1.prems" [OF h] by (subst (1 2) sort_Search_loop.simps) (simp add: Let_def h_def)
  qed (subst (1 2) sort_Search_loop.simps, simp)
qed

lemma GetChild_map: "GetChild (map (\<lambda>(l, c). (l, f l c)) ts) r = map_option (f r) (GetChild ts r)"
proof -
  let ?us = "map (\<lambda>(l, c). (l, f l c)) ts"
  have "sort_Search (length ts) (\<lambda>i. r \<le> fst (?us ! i)) = sort_Search (length ts) (\<lambda>i. r \<le> fst (ts ! i))"
    unfolding sort_Search_def by (rule sort_Search_loop_cong) (simp add: case_prod_unfold)
  then show ?thesis by (simp add: GetChild_def Let_def case_prod_unfold)
qed

lemma GetChild_snoc:
  assumes "sorted_wrt (<) (map fst ts @ [l])"
  shows "GetChild (ts @ [(l, c)]) r = (if r = l then Some c else GetChild ts r)"
proof -
  have "GetChild (ts @ [(l, c)]) r = map_of (ts @ [(l, c)]) r" using assms by (simp add: GetChild_map_of)
  moreover have "GetChild ts r = map_of ts r" using assms by (simp add: GetChild_map_of sorted_wrt_append)
  moreover have "map_of ts l = None" using assms by (auto simp: sorted_wrt_append map_of_eq_None_iff)
  ultimately show ?thesis by (auto simp: map_add_def split: option.split)
qed

subsection \<open>Encodings keep the order\<close>

lemma runes_Cons:
  assumes "utf8_len (c # s) \<noteq> 0"
  shows "runes (c # s) = take (utf8_len (c # s)) (c # s) # runes (drop (utf8_len (c # s)) (c # s))"
  using assms by (cases "utf8_len (c # s)") (auto simp: Let_def)

lemma utf8_len_le: "utf8_len s \<le> length s"
  by (cases s) (auto simp: Let_def)

lemma utf8_len_first: "utf8_len (c # s) \<noteq> 0 \<Longrightarrow> utf8_len (c # s) = utf8_size c"
  by (auto simp: Let_def split: if_splits)

lemma valid_utf8_Cons:
  assumes "valid_utf8 (c # s)"
  shows "utf8_len (c # s) \<noteq> 0 \<and> valid_utf8 (drop (utf8_len (c # s)) (c # s))"
proof -
  have n: "utf8_len (c # s) \<noteq> 0"
  proof
    assume z: "utf8_len (c # s) = 0"
    then have r: "runes (c # s) = [CHR 0xEF, CHR 0xBF, CHR 0xBD] # runes s"
      by (simp del: utf8_len.simps)
    have "c # s = [CHR 0xEF, CHR 0xBF, CHR 0xBD] @ concat (runes s)"
      using assms unfolding valid_utf8_def r by (simp only: concat.simps)
    moreover have "utf8_len ([CHR 0xEF, CHR 0xBF, CHR 0xBD] @ concat (runes s)) = 3"
      by (simp add: utf8_size_def utf8_second_ok_def in_range_def)
    ultimately show False using z by (simp only:)
  qed
  have "concat (runes (c # s)) =
      take (utf8_len (c # s)) (c # s) @ concat (runes (drop (utf8_len (c # s)) (c # s)))"
    by (simp only: runes_Cons [OF n] concat.simps)
  with assms have "concat (runes (drop (utf8_len (c # s)) (c # s))) = drop (utf8_len (c # s)) (c # s)"
    unfolding valid_utf8_def by (metis append_take_drop_id same_append_eq)
  with n show ?thesis by (simp add: valid_utf8_def)
qed

lemma append_le_append:
  fixes x y :: "'a::linorder list"
  shows "length x = length y \<Longrightarrow> x @ s \<le> y @ t \<longleftrightarrow> x < y \<or> x = y \<and> s \<le> t"
  by (induction x y rule: list_induct2) auto

lemma runes_mono:
  assumes "valid_utf8 s" "valid_utf8 t" "s \<le> t"
  shows "runes s \<le> runes t"
  using assms
proof (induction "length s" arbitrary: s t rule: less_induct)
  case less
  show ?case
  proof (cases s)
    case Nil
    then show ?thesis by simp
  next
    case s: (Cons c s')
    with less.prems(3) obtain d t' where t: "t = d # t'" by (cases t) auto
    define n where "n = utf8_len s"
    define m where "m = utf8_len t"
    have v: "n \<noteq> 0" "valid_utf8 (drop n s)" "m \<noteq> 0" "valid_utf8 (drop m t)"
      using valid_utf8_Cons less.prems(1,2) unfolding s t n_def m_def by blast+
    have rs: "runes s = take n s # runes (drop n s)" "runes t = take m t # runes (drop m t)"
      using runes_Cons v(1,3) unfolding s t n_def m_def by blast+
    show ?thesis
    proof (cases "c = d")
      case False
      then have "c < d" using less.prems(3) s t by simp
      then have "take n s < take m t" using v(1,3) s t by (cases n; cases m) simp_all
      then show ?thesis by (simp add: rs)
    next
      case True
      have "n = m" using utf8_len_first v(1,3) True unfolding n_def m_def s t by metis
      then have l: "length (take n s) = length (take n t)"
        using utf8_len_le [of s] utf8_len_le [of t] by (simp add: n_def m_def)
      have "take n s @ drop n s \<le> take n t @ drop n t" using less.prems(3) by simp
      then consider "take n s < take n t" | "take n s = take n t" "drop n s \<le> drop n t"
        unfolding append_le_append [OF l] by blast
      then show ?thesis
      proof cases
        case 1
        then show ?thesis using rs \<open>n = m\<close> by simp
      next
        case 2
        have "length (drop n s) < length s" using v(1) s by simp
        from less.hyps [OF this v(2)] v(4) 2 \<open>n = m\<close>
        show ?thesis using rs by simp
      qed
    qed
  qed
qed

lemma runes_inj: "valid_utf8 s \<Longrightarrow> valid_utf8 t \<Longrightarrow> runes s = runes t \<longleftrightarrow> s = t"
  unfolding valid_utf8_def by metis

lemma runes_Nil_iff [simp]: "runes s = [] \<longleftrightarrow> s = []"
  by (cases s) (simp_all add: Let_def)


subsection \<open>The language of a node\<close>

fun node_accepts :: "anode list \<Rightarrow> nat \<Rightarrow> string list \<Rightarrow> bool" where
  "node_accepts ns i [] \<longleftrightarrow> n_Terminal (ns ! i)"
| "node_accepts ns i (r # rs) \<longleftrightarrow>
     (case GetChild (n_Transitions (ns ! i)) r of None \<Rightarrow> False | Some c \<Rightarrow> node_accepts ns c rs)"

abbreviation children :: "anode list \<Rightarrow> nat \<Rightarrow> nat set" where
  "children ns i \<equiv> snd ` set (n_Transitions (ns ! i))"

text \<open>The registered nodes, the newest first: the children of a registered node are
  registered before it. The registry finds a node by its current class.\<close>

fun reg_ok :: "anode list \<Rightarrow> nat list \<Rightarrow> bool" where
  "reg_ok ns [] \<longleftrightarrow> True"
| "reg_ok ns (i # R) \<longleftrightarrow> i \<notin> set R \<and> i < length ns \<and> children ns i \<subseteq> set R \<and> reg_ok ns R"

definition reg_inv :: "automaton \<Rightarrow> bool" where
  "reg_inv a \<longleftrightarrow> reg_ok (a_nodes a) (reg_nodes a) \<and>
     (\<forall>(class, i)\<in>set (reg_eqv a). i \<in> set (reg_nodes a) \<and> getEquivalenceClass i a = class)"

text \<open>The path of the word that was inserted last, with no registered node on it; the other
  children along the path are registered.\<close>

fun spine :: "anode list \<Rightarrow> nat set \<Rightarrow> nat \<Rightarrow> string list \<Rightarrow> bool" where
  "spine ns R i [] \<longleftrightarrow> i < length ns \<and> i \<notin> R \<and> n_Transitions (ns ! i) = []"
| "spine ns R i (r # rs) \<longleftrightarrow> i < length ns \<and> i \<notin> R \<and>
     (\<exists>ts c. n_Transitions (ns ! i) = ts @ [(r, c)] \<and> snd ` set ts \<subseteq> R \<and>
        sorted_wrt (<) (map fst ts @ [r]) \<and> i < c \<and> spine ns R c rs)"

lemma spineD: "spine ns R i w \<Longrightarrow> i < length ns \<and> i \<notin> R"
  by (cases w) auto

lemma reg_ok_closed: "reg_ok ns R \<Longrightarrow> j \<in> set R \<Longrightarrow> children ns j \<subseteq> set R"
  by (induction R) auto

lemma reg_ok_bound: "reg_ok ns R \<Longrightarrow> j \<in> set R \<Longrightarrow> j < length ns"
  by (induction R) auto

lemma reg_ok_distinct: "reg_ok ns R \<Longrightarrow> distinct R"
  by (induction R) auto

lemma reg_ok_agree:
  "reg_ok ns R \<Longrightarrow> (\<And>j. j \<in> set R \<Longrightarrow> ns' ! j = ns ! j) \<Longrightarrow> length ns \<le> length ns' \<Longrightarrow> reg_ok ns' R"
  by (induction R) auto

lemma node_accepts_agree:
  assumes "reg_ok ns R" "\<And>j. j \<in> set R \<Longrightarrow> ns' ! j = ns ! j"
  shows "j \<in> set R \<Longrightarrow> node_accepts ns' j w = node_accepts ns j w"
proof (induction w arbitrary: j)
  case (Cons r rs)
  have "c \<in> set R" if "GetChild (n_Transitions (ns ! j)) r = Some c" for c
    using reg_ok_closed [OF assms(1) Cons.prems] GetChild_set [OF that] by force
  with Cons assms(2) [OF Cons.prems] show ?case by (auto split: option.split)
qed (simp add: assms(2))

lemma node_accepts_same: "ns ! i = ns ! j \<Longrightarrow> node_accepts ns i w = node_accepts ns j w"
  by (cases w) simp_all

text \<open>Accepting at a node whose last transition is \<open>r\<close> to \<open>c\<close> and whose other children are
  registered depends only on these.\<close>

lemma node_accepts_snoc:
  assumes "n_Transitions (ns ! i) = ts @ [(r, c)]" "sorted_wrt (<) (map fst ts @ [r])"
  shows "node_accepts ns i w \<longleftrightarrow>
    (case w of [] \<Rightarrow> n_Terminal (ns ! i)
     | x # xs \<Rightarrow> if x = r then node_accepts ns c xs
                else case GetChild ts x of None \<Rightarrow> False | Some d \<Rightarrow> node_accepts ns d xs)"
  using assms by (cases w) (simp_all add: GetChild_snoc)

lemma node_accepts_last:
  assumes "n_Transitions (ns ! i) = ts @ [(r, c)]" "n_Transitions (ns' ! i) = ts @ [(r, c')]"
    "n_Terminal (ns' ! i) = n_Terminal (ns ! i)" "sorted_wrt (<) (map fst ts @ [r])"
    "reg_ok ns R" "\<And>j. j \<in> set R \<Longrightarrow> ns' ! j = ns ! j" "snd ` set ts \<subseteq> set R"
    "\<And>x. node_accepts ns' c' x = node_accepts ns c x"
  shows "node_accepts ns' i w = node_accepts ns i w"
proof -
  have "node_accepts ns' d xs = node_accepts ns d xs" if "GetChild ts x = Some d" for x d xs
    using node_accepts_agree [OF assms(5,6)] GetChild_set [OF that] assms(7) by force
  then show ?thesis
    using assms(3,8) unfolding node_accepts_snoc [OF assms(1,4)] node_accepts_snoc [OF assms(2,4)]
    by (auto split: list.split option.split)
qed

subsection \<open>Sharing keeps the language\<close>

text \<open>What minimizing at a node \<open>i\<close> keeps and gives.\<close>

definition minimized :: "nat \<Rightarrow> automaton \<Rightarrow> automaton \<Rightarrow> bool" where
  "minimized i a a' \<longleftrightarrow> reg_inv a' \<and> length (a_nodes a') = length (a_nodes a) \<and>
     set (reg_nodes a) \<subseteq> set (reg_nodes a') \<and> set (reg_nodes a') \<subseteq> set (reg_nodes a) \<union> {i<..} \<and>
     (\<forall>j. j \<in> set (reg_nodes a) \<or> j < i \<longrightarrow> a_nodes a' ! j = a_nodes a ! j) \<and>
     n_Terminal (a_nodes a' ! i) = n_Terminal (a_nodes a ! i) \<and>
     map fst (n_Transitions (a_nodes a' ! i)) = map fst (n_Transitions (a_nodes a ! i)) \<and>
     children (a_nodes a') i \<subseteq> set (reg_nodes a') \<and>
     (\<forall>w. node_accepts (a_nodes a') i w = node_accepts (a_nodes a) i w)"

lemma reg_inv_register:
  assumes "reg_inv a" "c < length (a_nodes a)" "c \<notin> set (reg_nodes a)" "children (a_nodes a) c \<subseteq> set (reg_nodes a)"
  shows "reg_inv (register (getEquivalenceClass c a) c a)"
  using assms by (auto simp: reg_inv_def register_def getEquivalenceClass_def)

lemma reg_inv_update:
  assumes "reg_inv a" "i \<notin> set (reg_nodes a)"
  shows "reg_inv (a\<lparr>a_nodes := (a_nodes a)[i := nd]\<rparr>)"
proof -
  have eq: "(a_nodes a)[i := nd] ! j = a_nodes a ! j" if "j \<in> set (reg_nodes a)" for j
    using that assms(2) by (metis nth_list_update_neq)
  have "reg_ok ((a_nodes a)[i := nd]) (reg_nodes a)"
    by (rule reg_ok_agree [of "a_nodes a"]) (use assms(1) eq in \<open>simp_all add: reg_inv_def\<close>)
  with assms(1) eq show ?thesis by (fastforce simp: reg_inv_def getEquivalenceClass_def)
qed

lemma share_child:
  assumes "reg_inv a" "i < length (a_nodes a)" "i \<notin> set (reg_nodes a)" "n_Transitions (a_nodes a ! i) = ts @ [(r, c)]"
    "snd ` set ts \<subseteq> set (reg_nodes a)" "sorted_wrt (<) (map fst ts @ [r])" "i < c" "c < length (a_nodes a)"
    "c \<notin> set (reg_nodes a)" "minimized c a a1" "getEquivalenceClass c a1 = class"
  shows "minimized i a (case reg_find class a1 of Some eq \<Rightarrow> setLastChild i eq a1 | None \<Rightarrow> register class c a1)"
proof -
  note m = assms(10) [unfolded minimized_def]
  have mc: "node_accepts (a_nodes a1) c x = node_accepts (a_nodes a) c x" for x using m by blast
  have i1: "a_nodes a1 ! i = a_nodes a ! i" "i \<notin> set (reg_nodes a1)" "c \<notin> set (reg_nodes a1)"
    using m assms(3,7,9) by auto
  have agree1: "a_nodes a1 ! j = a_nodes a ! j" if "j \<in> set (reg_nodes a) \<or> j < i" for j
    using m that assms(7) by (meson less_trans)
  have reg: "reg_ok (a_nodes a) (reg_nodes a)" "reg_ok (a_nodes a1) (reg_nodes a1)"
    using assms(1) m by (simp_all add: reg_inv_def)
  show ?thesis
  proof (cases "reg_find class a1")
    case None
    have acc: "node_accepts (a_nodes a1) i w = node_accepts (a_nodes a) i w" for w
      by (rule node_accepts_last [OF assms(4) _ _ assms(6) reg(1) _ assms(5)])
        (use i1(1) assms(4) agree1 mc in simp_all)
    have "reg_inv (register class c a1)"
      using reg_inv_register [of a1 c] m i1 assms(8,11) by simp
    with None m i1 agree1 acc assms(4,5,7) show ?thesis
      by (auto simp: minimized_def register_def)
  next
    case (Some eq)
    then have eq: "eq \<in> set (reg_nodes a1)" "getEquivalenceClass eq a1 = class"
      using m by (auto simp: reg_find_def reg_inv_def dest!: map_of_SomeD)
    let ?nd = "(a_nodes a ! i)\<lparr>n_Transitions := ts @ [(r, eq)]\<rparr>"
    define a2 where "a2 = a1\<lparr>a_nodes := (a_nodes a1)[i := ?nd]\<rparr>"
    have a2: "setLastChild i eq a1 = a2"
      by (simp add: setLastChild_def i1(1) assms(4) a2_def list_update_append)
    have i2: "a_nodes a2 ! i = ?nd" using assms(2) m by (simp add: a2_def)
    have agree2: "a_nodes a2 ! j = a_nodes a1 ! j" if "j \<noteq> i" for j using that by (simp add: a2_def)
    have "a_nodes a1 ! eq = a_nodes a1 ! c"
      using eq(2) assms(11) by (auto simp: getEquivalenceClass_def intro: anode.equality)
    then have "node_accepts (a_nodes a2) eq x = node_accepts (a_nodes a) c x" for x
      using node_accepts_agree [OF reg(2) _ eq(1), of "a_nodes a2" x] agree2 i1(2) mc
        node_accepts_same [of "a_nodes a1" eq c x] by metis
    then have acc: "node_accepts (a_nodes a2) i w = node_accepts (a_nodes a) i w" for w
      by (intro node_accepts_last [OF assms(4) _ _ assms(6) reg(1) _ assms(5)])
        (use i2 agree2 agree1 assms(3) in \<open>simp_all, metis\<close>)
    have "reg_inv a2" unfolding a2_def using m i1(2) by (intro reg_inv_update) simp_all
    moreover have "a_nodes a2 ! j = a_nodes a ! j" if "j \<in> set (reg_nodes a) \<or> j < i" for j
      using agree2 [of j] agree1 [OF that] that assms(3) by auto
    moreover have "reg_nodes a2 = reg_nodes a1" "length (a_nodes a2) = length (a_nodes a1)" by (simp_all add: a2_def)
    ultimately have "minimized i a a2"
      using m i2 acc eq(1) assms(4,5,7) unfolding minimized_def by auto
    then show ?thesis by (simp add: Some a2)
  qed
qed

lemma replaceOrRegister_minimized:
  "reg_inv a \<Longrightarrow> spine (a_nodes a) (set (reg_nodes a)) i w \<Longrightarrow> w \<noteq> [] \<Longrightarrow> length (a_nodes a) \<le> f + i \<Longrightarrow>
    minimized i a (replaceOrRegister f i a)"
proof (induction w arbitrary: i f)
  case (Cons r rs)
  then obtain ts c where c: "n_Transitions (a_nodes a ! i) = ts @ [(r, c)]" "snd ` set ts \<subseteq> set (reg_nodes a)"
    "sorted_wrt (<) (map fst ts @ [r])" "i < c" "spine (a_nodes a) (set (reg_nodes a)) c rs"
    and i: "i < length (a_nodes a)" "i \<notin> set (reg_nodes a)" by auto
  obtain f' where f: "f = Suc f'" using Cons.prems(4) i(1) by (cases f) auto
  let ?a1 = "if n_HasChildren c a then replaceOrRegister f' c a else a"
  have c': "c < length (a_nodes a)" "c \<notin> set (reg_nodes a)" using spineD [OF c(5)] by simp_all
  have "minimized c a ?a1"
  proof (cases rs)
    case Nil
    with c(5) show ?thesis using Cons.prems(1) by (simp add: n_HasChildren_def minimized_def)
  next
    case (Cons r' rs')
    then have "n_HasChildren c a" using c(5) by (auto simp: n_HasChildren_def)
    with Cons.IH [OF Cons.prems(1) c(5), of f'] Cons Cons.prems(4) f c(4) show ?thesis by simp
  qed
  from share_child [OF Cons.prems(1) i c(1-4) c' this refl]
  show ?case by (simp add: f getLastChild_def c(1) registered_def c'(2) Let_def)
qed simp

subsection \<open>Inserting a greater word\<close>

lemma reg_inv_newNode:
  assumes "reg_inv a"
  shows "reg_inv (a\<lparr>a_nodes := a_nodes a @ [nd]\<rparr>)"
proof -
  have eq: "(a_nodes a @ [nd]) ! j = a_nodes a ! j" if "j \<in> set (reg_nodes a)" for j
    using that reg_ok_bound [of "a_nodes a" "reg_nodes a" j] assms by (auto simp: reg_inv_def nth_append)
  have "reg_ok (a_nodes a @ [nd]) (reg_nodes a)"
    by (rule reg_ok_agree [of "a_nodes a"]) (use assms eq in \<open>simp_all add: reg_inv_def\<close>)
  with assms eq show ?thesis by (fastforce simp: reg_inv_def getEquivalenceClass_def)
qed

lemma add_suffix_spec:
  assumes "reg_inv a" "i < length (a_nodes a)" "i \<notin> set (reg_nodes a)" "children (a_nodes a) i \<subseteq> set (reg_nodes a)"
    "sorted_wrt (<) (map fst (n_Transitions (a_nodes a ! i)) @ take 1 v)" "v = [] \<Longrightarrow> n_Transitions (a_nodes a ! i) = []"
    "add_suffix i v a = (l, a1)" "a' = setTerminal l a1"
  shows "reg_inv a' \<and> reg_nodes a' = reg_nodes a \<and> length (a_nodes a) \<le> length (a_nodes a') \<and>
    (\<forall>j<length (a_nodes a). j \<noteq> i \<longrightarrow> a_nodes a' ! j = a_nodes a ! j) \<and>
    spine (a_nodes a') (set (reg_nodes a)) i v \<and>
    (\<forall>x. node_accepts (a_nodes a') i x \<longleftrightarrow> x = v \<or> node_accepts (a_nodes a) i x)"
  using assms
proof (induction v arbitrary: i a)
  case Nil
  have "node_accepts (a_nodes a') i x \<longleftrightarrow> x = [] \<or> node_accepts (a_nodes a) i x" for x
    using Nil by (cases x) (simp_all add: setTerminal_def)
  moreover have "reg_inv a'" using reg_inv_update [OF Nil(1,3)] Nil(7,8) by (simp add: setTerminal_def)
  ultimately show ?case using Nil by (auto simp: setTerminal_def)
next
  case (Cons r rs)
  define ts where "ts = n_Transitions (a_nodes a ! i)"
  define c where "c = length (a_nodes a)"
  define b where "b = addTransition i c r (snd (newNode a))"
  have s: "sorted_wrt (<) (map fst ts @ [r])" using Cons.prems(5) by (simp add: ts_def)
  then have "r \<notin> fst ` set ts" by (auto simp: sorted_wrt_append)
  then have none: "GetChild ts r = None" using GetChild_set [of ts r] by (cases "GetChild ts r") force+
  then have suf: "add_suffix c rs b = (l, a1)"
    using Cons.prems(7) by (simp add: addChild_def newNode_def ts_def b_def c_def)
  have b: "reg_nodes b = reg_nodes a" "length (a_nodes b) = Suc c" "a_nodes b ! c = \<lparr>n_Terminal = False, n_Transitions = []\<rparr>"
    "a_nodes b ! i = (a_nodes a ! i)\<lparr>n_Transitions := ts @ [(r, c)]\<rparr>" "\<And>j. j < c \<Longrightarrow> j \<noteq> i \<Longrightarrow> a_nodes b ! j = a_nodes a ! j"
    using Cons.prems(2) by (simp_all add: b_def newNode_def addTransition_def c_def ts_def nth_append)
  have cR: "c \<notin> set (reg_nodes a)" "\<And>j. j \<in> set (reg_nodes a) \<Longrightarrow> j < c"
    using reg_ok_bound [of "a_nodes a" "reg_nodes a"] Cons.prems(1) by (auto simp: reg_inv_def c_def)
  have "reg_inv b"
    unfolding b_def addTransition_def
    by (rule reg_inv_update) (use Cons.prems(1,3) in \<open>simp_all add: newNode_def reg_inv_newNode\<close>)
  moreover have "sorted_wrt (<) (take 1 rs)" by (cases rs) simp_all
  ultimately
  have ih: "reg_inv a'" "reg_nodes a' = reg_nodes a" "c \<le> length (a_nodes a')"
    "\<And>j. j < c \<Longrightarrow> a_nodes a' ! j = a_nodes b ! j" "spine (a_nodes a') (set (reg_nodes a)) c rs"
    "\<And>x. node_accepts (a_nodes a') c x \<longleftrightarrow> x = rs \<or> node_accepts (a_nodes b) c x"
    using Cons.IH [OF _ _ _ _ _ _ suf Cons.prems(8)] b cR by (simp_all add: less_Suc_eq)
  have i: "i < c" "a_nodes a' ! i = (a_nodes a ! i)\<lparr>n_Transitions := ts @ [(r, c)]\<rparr>"
    using ih(4) b(4) Cons.prems(2) by (simp_all add: c_def)
  have same: "a_nodes a' ! j = a_nodes a ! j" if "j < c" "j \<noteq> i" for j using ih(4) b(5) that by simp
  then have "node_accepts (a_nodes a') d xs = node_accepts (a_nodes a) d xs" if "GetChild ts x = Some d" for x d xs
    using node_accepts_agree [of "a_nodes a" "reg_nodes a" "a_nodes a'" d xs] cR(2) Cons.prems(1,3,4)
      GetChild_set [OF that] by (force simp: reg_inv_def ts_def)
  moreover have "node_accepts (a_nodes b) c x = False" for x
    by (cases x) (simp_all add: b(3))
  ultimately have "node_accepts (a_nodes a') i x \<longleftrightarrow> x = r # rs \<or> node_accepts (a_nodes a) i x" for x
    using i s none ih(6) node_accepts_snoc [of "a_nodes a'" i ts r c x]
    by (cases x) (auto simp: ts_def [symmetric] split: option.split)
  moreover have "spine (a_nodes a') (set (reg_nodes a)) i (r # rs)"
    using i s ih(3,5) Cons.prems(3,4) by (auto simp: ts_def)
  ultimately show ?case using ih same by (simp add: c_def)
qed

definition inserted :: "nat \<Rightarrow> string list \<Rightarrow> automaton \<Rightarrow> automaton \<Rightarrow> bool" where
  "inserted i v a a' \<longleftrightarrow> reg_inv a' \<and> length (a_nodes a) \<le> length (a_nodes a') \<and>
     set (reg_nodes a) \<subseteq> set (reg_nodes a') \<and> set (reg_nodes a') \<subseteq> set (reg_nodes a) \<union> {i<..} \<and>
     (\<forall>j. j \<in> set (reg_nodes a) \<or> j < i \<longrightarrow> a_nodes a' ! j = a_nodes a ! j) \<and>
     spine (a_nodes a') (set (reg_nodes a')) i v \<and>
     (\<forall>x. node_accepts (a_nodes a') i x \<longleftrightarrow> x = v \<or> node_accepts (a_nodes a) i x)"

text \<open>The word leaves the spine at \<open>i\<close>: what hangs below is minimized, and the rest of the
  word becomes the new spine.\<close>

lemma insert_here:
  assumes "reg_inv a" "spine (a_nodes a) (set (reg_nodes a)) i w" "w < r # rs"
    "GetChild (n_Transitions (a_nodes a ! i)) r = None"
  shows "inserted i (r # rs) a (insertLetters i (r # rs) a)"
proof -
  define a0 where "a0 = (if n_HasChildren i a then replaceOrRegister (length (a_nodes a)) i a else a)"
  obtain l a1 where suf: "add_suffix i (r # rs) a0 = (l, a1)" by fastforce
  have ins: "insertLetters i (r # rs) a = setTerminal l a1"
    using assms(4) suf by (simp add: insertLetters_def a0_def)
  note i = spineD [OF assms(2)]
  have "minimized i a a0"
  proof (cases w)
    case Nil
    with assms(1,2) show ?thesis by (simp add: a0_def n_HasChildren_def minimized_def)
  next
    case (Cons r' rs')
    with assms(2) have "n_HasChildren i a" by (auto simp: n_HasChildren_def)
    with replaceOrRegister_minimized [OF assms(1,2)] Cons show ?thesis by (simp add: a0_def)
  qed
  note m = this [unfolded minimized_def]
  have labels: "sorted_wrt (<) (map fst (n_Transitions (a_nodes a ! i)) @ [r])"
  proof (cases w)
    case Nil
    with assms(2) show ?thesis by simp
  next
    case (Cons r' rs')
    with assms(2) obtain ts c where ts: "n_Transitions (a_nodes a ! i) = ts @ [(r', c)]"
      "sorted_wrt (<) (map fst ts @ [r'])" by auto
    have "r' \<noteq> r" using assms(4) GetChild_snoc [OF ts(2), of c r] ts(1) by auto
    then have "r' < r" using assms(3) Cons by auto
    with ts show ?thesis by (auto simp: sorted_wrt_append intro: less_trans)
  qed
  have "i \<notin> set (reg_nodes a0)" using m i by auto
  with add_suffix_spec [of a0 i "r # rs", OF _ _ _ _ _ _ suf refl] m i labels
  have "reg_inv (setTerminal l a1) \<and> reg_nodes (setTerminal l a1) = reg_nodes a0 \<and> length (a_nodes a0) \<le> length (a_nodes (setTerminal l a1)) \<and>
    (\<forall>j<length (a_nodes a0). j \<noteq> i \<longrightarrow> a_nodes (setTerminal l a1) ! j = a_nodes a0 ! j) \<and>
    spine (a_nodes (setTerminal l a1)) (set (reg_nodes a0)) i (r # rs) \<and>
    (\<forall>x. node_accepts (a_nodes (setTerminal l a1)) i x \<longleftrightarrow> x = r # rs \<or> node_accepts (a_nodes a0) i x)"
    by simp
  note s = this
  have "a_nodes (setTerminal l a1) ! j = a_nodes a ! j" if "j \<in> set (reg_nodes a) \<or> j < i" for j
  proof -
    have "j < length (a_nodes a)" "j \<noteq> i"
      using that i assms(1) reg_ok_bound [of "a_nodes a" "reg_nodes a" j] by (auto simp: reg_inv_def)
    then show ?thesis using s m that by metis
  qed
  with s m i show ?thesis unfolding ins inserted_def by auto
qed

text \<open>A word that is greater than the last one shares a prefix with the spine and leaves it
  before its own last letter.\<close>

lemma insertLetters_spec:
  "reg_inv a \<Longrightarrow> spine (a_nodes a) (set (reg_nodes a)) i w \<Longrightarrow> w < v \<Longrightarrow> inserted i v a (insertLetters i v a)"
proof (induction v arbitrary: i w)
  case (Cons r rs)
  show ?case
  proof (cases "GetChild (n_Transitions (a_nodes a ! i)) r")
    case None
    with Cons.prems show ?thesis by (rule insert_here)
  next
    case (Some d)
    with Cons.prems(2) obtain r' ws where w: "w = r' # ws" by (cases w) auto
    with Cons.prems(2) obtain ts c where c: "n_Transitions (a_nodes a ! i) = ts @ [(r', c)]" "snd ` set ts \<subseteq> set (reg_nodes a)"
      "sorted_wrt (<) (map fst ts @ [r'])" "i < c" "spine (a_nodes a) (set (reg_nodes a)) c ws"
      and i: "i < length (a_nodes a)" "i \<notin> set (reg_nodes a)" by auto
    have "r' = r"
    proof (rule ccontr)
      assume "r' \<noteq> r"
      then have "r' < r" "(r, d) \<in> set ts"
        using Cons.prems(3) w Some GetChild_snoc [OF c(3), of c r] GetChild_set [of ts r d] c(1) by auto
      then show False using c(3) by (auto simp: sorted_wrt_append)
    qed
    then have d: "d = c" "ws < rs" using Some Cons.prems(3) w c(1) GetChild_snoc [OF c(3), of c r] by auto
    have "insertLetters i (r # rs) a = insertLetters c rs a"
      using Some d by (auto simp: insertLetters_def)
    with Cons.IH [OF Cons.prems(1) c(5) d(2)]
    have ins: "inserted c rs a (insertLetters i (r # rs) a)" by simp
    define a' where "a' = insertLetters i (r # rs) a"
    note s = ins [folded a'_def, unfolded inserted_def]
    have i': "a_nodes a' ! i = a_nodes a ! i" "i \<notin> set (reg_nodes a')" using s c(4) i by auto
    have same: "a_nodes a' ! j = a_nodes a ! j" if "j \<in> set (reg_nodes a) \<or> j < i" for j
      using s that c(4) by (meson less_trans)
    have "node_accepts (a_nodes a') e xs = node_accepts (a_nodes a) e xs" if "GetChild ts x = Some e" for x e xs
      using node_accepts_agree [of "a_nodes a" "reg_nodes a" "a_nodes a'" e xs] same Cons.prems(1) c(2)
        GetChild_set [OF that] by (force simp: reg_inv_def)
    then have "node_accepts (a_nodes a') i x \<longleftrightarrow> x = r # rs \<or> node_accepts (a_nodes a) i x" for x
      using s i'(1) c(1,3) \<open>r' = r\<close> node_accepts_snoc [of "a_nodes a'" i ts r c x] node_accepts_snoc [of "a_nodes a" i ts r c x]
      by (cases x) (auto split: option.split)
    moreover have "spine (a_nodes a') (set (reg_nodes a')) i (r # rs)"
      using s i i' c \<open>r' = r\<close> by auto
    ultimately show ?thesis
      using s same c(4) unfolding a'_def [symmetric] inserted_def by auto
  qed
qed simp

definition root_automaton :: automaton where
  "root_automaton = snd (newNode newRegistery)"

text \<open>The state after inserting words in strictly ascending order: the spine from the root
  spells the last of them.\<close>

lemma fold_insertWord:
  assumes "sorted_wrt (<) (map runes ws)" "[] \<notin> set ws"
  shows "reg_inv (fold insertWord ws root_automaton) \<and>
    spine (a_nodes (fold insertWord ws root_automaton)) (set (reg_nodes (fold insertWord ws root_automaton))) 0
      (if ws = [] then [] else runes (last ws)) \<and>
    (\<forall>v. node_accepts (a_nodes (fold insertWord ws root_automaton)) 0 v \<longleftrightarrow> v \<in> runes ` set ws)"
  using assms
proof (induction ws rule: rev_induct)
  case Nil
  have "\<not> node_accepts [\<lparr>n_Terminal = False, n_Transitions = []\<rparr>] 0 v" for v by (cases v) simp_all
  then show ?case by (simp add: root_automaton_def newNode_def newRegistery_def reg_inv_def)
next
  case (snoc w ws)
  define a where "a = fold insertWord ws root_automaton"
  have ih: "reg_inv a" "spine (a_nodes a) (set (reg_nodes a)) 0 (if ws = [] then [] else runes (last ws))"
    "\<And>v. node_accepts (a_nodes a) 0 v \<longleftrightarrow> v \<in> runes ` set ws"
    using snoc by (simp_all add: a_def sorted_wrt_append)
  have "(if ws = [] then [] else runes (last ws)) < runes w"
    using snoc.prems by (cases "runes w") (auto simp: sorted_wrt_append)
  moreover have "fold insertWord (ws @ [w]) root_automaton = insertLetters 0 (runes w) a"
    using snoc.prems(2) by (auto simp: a_def insertWord_def [of w])
  ultimately show ?case using insertLetters_spec [OF ih(1,2)] ih(3) by (auto simp: inserted_def)
qed

subsection \<open>Encoding\<close>

lemma those_map_Some: "those (map f xs) = Some ys \<longleftrightarrow> map f xs = map Some ys"
  by (induction xs arbitrary: ys) (auto split: option.split simp: map_eq_Cons_conv)

lemma those_map_ex: "(\<exists>ys. those (map f xs) = Some ys) \<longleftrightarrow> (\<forall>x\<in>set xs. f x \<noteq> None)"
  by (induction xs) (auto split: option.split)

lemma unfold_defined:
  "unfold_node (Suc d) ns i \<noteq> None \<longleftrightarrow> (\<forall>c\<in>children ns i. unfold_node d ns c \<noteq> None)"
  using those_map_ex [of "\<lambda>(l, c). map_option (Pair l) (unfold_node d ns c)" "n_Transitions (ns ! i)"]
  by (auto simp: case_prod_unfold)

lemma unfold_Some:
  assumes "unfold_node d ns i = Some t"
  shows "\<exists>d'. t = Node (n_Terminal (ns ! i)) (map (\<lambda>(l, c). (l, the (unfold_node d' ns c))) (n_Transitions (ns ! i))) \<and>
    (\<forall>c\<in>children ns i. unfold_node d' ns c \<noteq> None)"
proof -
  obtain d' where d: "d = Suc d'" using assms by (cases d) auto
  then obtain us where us: "t = Node (n_Terminal (ns ! i)) us"
    "map (\<lambda>(l, c). map_option (Pair l) (unfold_node d' ns c)) (n_Transitions (ns ! i)) = map Some us"
    using assms by (auto simp: those_map_Some)
  have "map the (map Some us) = us" by (simp add: comp_def)
  then have "us = map (\<lambda>(l, c). the (map_option (Pair l) (unfold_node d' ns c))) (n_Transitions (ns ! i))"
    unfolding us(2) [symmetric] by (simp add: comp_def case_prod_unfold)
  moreover have def: "\<forall>c\<in>children ns i. unfold_node d' ns c \<noteq> None"
    using assms unfold_defined [of d' ns i] unfolding d by (metis option.distinct(1))
  ultimately have "us = map (\<lambda>(l, c). (l, the (unfold_node d' ns c))) (n_Transitions (ns ! i))"
    by (auto simp: option.map_sel)
  with us(1) def show ?thesis by blast
qed

lemma unfold_accepts:
  "unfold_node d ns i = Some t \<Longrightarrow>
    (case trie_walk w t of None \<Rightarrow> False | Some n \<Rightarrow> Terminal n) \<longleftrightarrow> node_accepts ns i w"
proof (induction w arbitrary: d i t)
  case Nil
  then show ?case using unfold_Some [OF Nil] by auto
next
  case (Cons r rs)
  obtain d' where t: "t = Node (n_Terminal (ns ! i)) (map (\<lambda>(l, c). (l, the (unfold_node d' ns c))) (n_Transitions (ns ! i)))"
    and def: "\<forall>c\<in>children ns i. unfold_node d' ns c \<noteq> None" using unfold_Some [OF Cons.prems] by blast
  show ?case
  proof (cases "GetChild (n_Transitions (ns ! i)) r")
    case None
    then show ?thesis by (simp add: t GetChild_map)
  next
    case (Some c)
    then have "unfold_node d' ns c \<noteq> None" using def GetChild_set by force
    then have "unfold_node d' ns c = Some (the (unfold_node d' ns c))" by simp
    from Cons.IH [OF this] Some show ?thesis by (simp add: t GetChild_map)
  qed
qed

text \<open>Below a registered node the recursion ends, since children are registered before their
  parents.\<close>

lemma unfold_registered: "reg_ok ns R \<Longrightarrow> i \<in> set R \<Longrightarrow> length R \<le> d \<Longrightarrow> unfold_node d ns i \<noteq> None"
proof (induction R arbitrary: i d)
  case (Cons j R)
  show ?case
  proof (cases "i = j")
    case True
    obtain d' where d: "d = Suc d'" using Cons.prems(3) by (cases d) auto
    have "unfold_node d' ns c \<noteq> None" if "c \<in> children ns j" for c
      using Cons.IH [of c d'] Cons.prems that d by auto
    then show ?thesis unfolding True d unfold_defined by blast
  next
    case False
    with Cons show ?thesis by auto
  qed
qed simp

lemma compressTrie_minimized:
  assumes "minimized 0 a a'" "0 < length (a_nodes a)" "0 \<notin> set (reg_nodes a)"
  shows "\<exists>t. compressTrie a' = Some t"
proof -
  note m = assms(1) [unfolded minimized_def]
  then have r: "reg_ok (a_nodes a') (reg_nodes a')" by (simp add: reg_inv_def)
  have "set (reg_nodes a') \<subseteq> {1..<length (a_nodes a')}"
  proof
    fix j assume j: "j \<in> set (reg_nodes a')"
    have "set (reg_nodes a') \<subseteq> set (reg_nodes a) \<union> {0<..}" using m by simp
    from subsetD [OF this j] have "j \<noteq> 0" using assms(3) by (cases "j = 0") auto
    with reg_ok_bound [OF r j] show "j \<in> {1..<length (a_nodes a')}" by simp
  qed
  from card_mono [OF _ this] have "length (reg_nodes a') \<le> length (a_nodes a') - 1"
    using distinct_card [OF reg_ok_distinct [OF r]] by simp
  moreover have "0 < length (a_nodes a')" using m assms(2) by simp
  then obtain n where n: "length (a_nodes a') = Suc n" by (metis gr0_implies_Suc)
  ultimately have le: "length (reg_nodes a') \<le> n" by simp
  have "children (a_nodes a') 0 \<subseteq> set (reg_nodes a')" using m by blast
  then have "unfold_node n (a_nodes a') c \<noteq> None" if "c \<in> children (a_nodes a') 0" for c
    using unfold_registered [OF r _ le] that by blast
  then have "unfold_node (Suc n) (a_nodes a') 0 \<noteq> None" unfolding unfold_defined by blast
  then show ?thesis by (auto simp: compressTrie_def n)
qed

lemma runes_strict_mono: "valid_utf8 s \<Longrightarrow> valid_utf8 t \<Longrightarrow> s < t \<Longrightarrow> runes s < runes t"
  using runes_mono [of s t] runes_inj [of s t] by (simp add: less_le)

lemma trie_Create_member:
  assumes "sorted ws" "distinct ws" "ws \<noteq> []" "\<forall>w\<in>set ws. valid_utf8 w \<and> w \<noteq> []"
  shows "\<exists>a t. trie_Create ws = Ok a \<and> compressTrie a = Some t \<and>
    (\<forall>w. valid_utf8 w \<longrightarrow> trie_Accepts t w = (w \<in> set ws))"
proof -
  define a where "a = fold insertWord ws root_automaton"
  have "sorted_wrt (<) ws" using assms(1,2) by (simp add: strict_sorted_iff)
  then have "sorted_wrt (\<lambda>s t. runes s < runes t) ws"
    by (rule sorted_wrt_mono_rel [rotated]) (use assms(4) runes_strict_mono in auto)
  then have a: "reg_inv a" "spine (a_nodes a) (set (reg_nodes a)) 0 (runes (last ws))"
    "\<And>v. node_accepts (a_nodes a) 0 v \<longleftrightarrow> v \<in> runes ` set ws"
    using fold_insertWord [of ws] assms(3,4) by (auto simp: a_def sorted_wrt_map)
  have ne: "runes (last ws) \<noteq> []" using assms(3,4) by simp
  define a' where "a' = replaceOrRegister (length (a_nodes a)) 0 a"
  have m: "minimized 0 a a'"
    using replaceOrRegister_minimized [OF a(1,2) ne] by (simp add: a'_def)
  obtain t where t: "compressTrie a' = Some t"
    using compressTrie_minimized [OF m] spineD [OF a(2)] by auto
  have "n_Transitions (a_nodes a ! 0) \<noteq> []" using a(2) ne by (cases "runes (last ws)") auto
  moreover have "newNode newRegistery = (0, root_automaton)"
    by (simp add: root_automaton_def newNode_def newRegistery_def)
  ultimately have "trie_Create ws = Ok a'"
    using assms(1) by (simp add: trie_Create_def a'_def a_def Let_def)
  moreover have "trie_Accepts t w = (w \<in> set ws)" if "valid_utf8 w" for w
  proof -
    have "trie_Accepts t w \<longleftrightarrow> runes w \<in> runes ` set ws"
      using unfold_accepts [OF t [unfolded compressTrie_def], of "runes w"] m a(3)
      by (simp add: trie_Accepts_def minimized_def)
    then show ?thesis using that assms(4) runes_inj by blast
  qed
  ultimately show ?thesis using t by blast
qed

subsection \<open>The fuel and the depth are enough\<close>

text \<open>Whatever words are inserted, a child that is not registered is newer than its parent.\<close>

definition links_ok :: "automaton \<Rightarrow> bool" where
  "links_ok a \<longleftrightarrow> (\<forall>i<length (a_nodes a). \<forall>c\<in>children (a_nodes a) i. c < length (a_nodes a) \<and> (c \<in> set (reg_nodes a) \<or> i < c)) \<and>
     (\<forall>j\<in>snd ` set (reg_eqv a). j \<in> set (reg_nodes a)) \<and> (\<forall>j\<in>set (reg_nodes a). j < length (a_nodes a))"

lemma links_ok_register: "links_ok a \<Longrightarrow> c < length (a_nodes a) \<Longrightarrow> links_ok (register class c a)"
  by (auto simp: links_ok_def register_def)

lemma links_ok_setLastChild:
  assumes "links_ok a" "eq \<in> set (reg_nodes a)" "i < length (a_nodes a)" "n_Transitions (a_nodes a ! i) \<noteq> []"
  shows "links_ok (setLastChild i eq a)"
proof -
  let ?t = "n_Transitions (a_nodes a ! i)"
  have "snd ` set (?t[length ?t - 1 := (fst (last ?t), eq)]) \<subseteq> insert eq (children (a_nodes a) i)"
    using set_update_subset_insert [of ?t "length ?t - 1" "(fst (last ?t), eq)"] by auto
  with assms show ?thesis
    by (fastforce simp: links_ok_def setLastChild_def Let_def nth_list_update)
qed

lemma replaceOrRegister_fuel:
  "links_ok a \<Longrightarrow> i < length (a_nodes a) \<Longrightarrow> n_HasChildren i a \<Longrightarrow> length (a_nodes a) \<le> f + i \<Longrightarrow>
    replaceOrRegister (f + k) i a = replaceOrRegister f i a \<and> links_ok (replaceOrRegister f i a) \<and>
    length (a_nodes (replaceOrRegister f i a)) = length (a_nodes a) \<and>
    (\<forall>j\<le>i. j < i \<longrightarrow> a_nodes (replaceOrRegister f i a) ! j = a_nodes a ! j)"
proof (induction f arbitrary: i a)
  case (Suc f)
  define c where "c = getLastChild i a"
  have "last (n_Transitions (a_nodes a ! i)) \<in> set (n_Transitions (a_nodes a ! i))"
    using Suc.prems(3) by (simp add: n_HasChildren_def)
  then have c: "c < length (a_nodes a)" "c \<in> set (reg_nodes a) \<or> i < c"
    using Suc.prems(1,2) unfolding links_ok_def c_def getLastChild_def by blast+
  show ?case
  proof (cases "registered c a")
    case True
    then show ?thesis using Suc.prems(1) by (simp add: c_def [symmetric])
  next
    case False
    then have ic: "i < c" using c(2) by (simp add: registered_def)
    define a1 where "a1 = (if n_HasChildren c a then replaceOrRegister f c a else a)"
    have a1: "(if n_HasChildren c a then replaceOrRegister (f + k) c a else a) = a1" "links_ok a1"
      "length (a_nodes a1) = length (a_nodes a)" "\<forall>j<c. a_nodes a1 ! j = a_nodes a ! j"
      using Suc.IH [OF Suc.prems(1) c(1)] Suc.prems ic by (simp_all add: a1_def)
    have i: "i < length (a_nodes a1)" "n_Transitions (a_nodes a1 ! i) \<noteq> []"
      using a1(3,4) ic Suc.prems(2,3) by (simp_all add: n_HasChildren_def)
    have "eq \<in> set (reg_nodes a1)" if "reg_find cl a1 = Some eq" for cl eq
      using a1(2) that map_of_SomeD unfolding links_ok_def reg_find_def by force
    then have "links_ok (case reg_find (getEquivalenceClass c a1) a1 of Some eq \<Rightarrow> setLastChild i eq a1
        | None \<Rightarrow> register (getEquivalenceClass c a1) c a1)"
      using links_ok_register [OF a1(2)] links_ok_setLastChild [OF a1(2) _ i] a1(3) c(1)
      by (simp split: option.split)
    then show ?thesis
      using a1 False ic by (auto simp: c_def [symmetric] a1_def [symmetric] Let_def register_def setLastChild_def split: option.split)
  qed
qed simp

lemma unfold_mono: "unfold_node d ns i \<noteq> None \<Longrightarrow> unfold_node (Suc d) ns i \<noteq> None"
proof (induction d arbitrary: i)
  case (Suc d)
  then show ?case using unfold_defined [of d ns i] unfold_defined [of "Suc d" ns i] by blast
qed simp

lemma unfold_enough:
  assumes "\<And>i. i < length ns \<Longrightarrow> children ns i \<subseteq> {..<length ns}" "i < length ns"
    "unfold_node (length ns) ns i = None"
  shows "unfold_node d ns i = None"
proof -
  define D where "D n = {i. i < length ns \<and> unfold_node n ns i \<noteq> None}" for n
  have step: "D (Suc n) = {i. i < length ns \<and> children ns i \<subseteq> D n}" for n
    using assms(1) unfolding D_def unfold_defined by blast
  have "D n \<subseteq> D (Suc n)" for n unfolding D_def using unfold_mono by blast
  then have mono: "mono D" by (simp add: mono_iff_le_Suc)
  have sub: "D n \<subseteq> {..<length ns}" for n by (auto simp: D_def)
  have "\<exists>N. (\<forall>n\<le>N. \<forall>m\<le>N. m < n \<longrightarrow> D m \<subset> D n) \<and> (\<forall>n\<ge>N. D N = D n)"
    by (rule finite_mono_remains_stable_implies_strict_prefix)
      (use mono step finite_subset [of "range D" "Pow {..<length ns}"] sub in \<open>auto\<close>)
  from finite_mono_strict_prefix_implies_finite_fixpoint [OF sub _ this]
  have "D (length ns) = (\<Union>n. D n)" by simp
  then have "D d \<subseteq> D (length ns)" by blast
  with assms(2,3) show ?thesis by (auto simp: D_def)
qed

lemma last_common_bound: "links_ok a \<Longrightarrow> i < length (a_nodes a) \<Longrightarrow> fst (last_common a i v) < length (a_nodes a)"
proof (induction v arbitrary: i)
  case (Cons r rs)
  have "c < length (a_nodes a)" if "GetChild (n_Transitions (a_nodes a ! i)) r = Some c" for c
    using Cons.prems GetChild_set [OF that] by (force simp: links_ok_def)
  with Cons show ?case by (auto split: option.split)
qed simp

lemma addChild_links_ok:
  assumes "links_ok a" "i < length (a_nodes a)" "addChild i r a = (c, a')"
  shows "links_ok a' \<and> c < length (a_nodes a') \<and> length (a_nodes a) \<le> length (a_nodes a')"
proof (cases "GetChild (n_Transitions (a_nodes a ! i)) r")
  case (Some d)
  then show ?thesis using assms GetChild_set [OF Some] by (force simp: addChild_def links_ok_def)
next
  case None
  then have a': "c = length (a_nodes a)" "a' = addTransition i c r (snd (newNode a))"
    using assms(3) by (auto simp: addChild_def newNode_def)
  have nth: "a_nodes a' ! j = (if j = i then (a_nodes a ! i)\<lparr>n_Transitions := n_Transitions (a_nodes a ! i) @ [(r, c)]\<rparr>
      else if j = c then \<lparr>n_Terminal = False, n_Transitions = []\<rparr> else a_nodes a ! j)" if "j \<le> c" for j
    using that assms(2) by (auto simp: a' addTransition_def newNode_def nth_append nth_list_update)
  have len: "length (a_nodes a') = Suc c" by (simp add: a' addTransition_def newNode_def)
  have reg: "reg_nodes a' = reg_nodes a" "reg_eqv a' = reg_eqv a" by (simp_all add: a' addTransition_def newNode_def)
  have "c' < Suc c \<and> (c' \<in> set (reg_nodes a) \<or> j < c')" if "j \<le> c" "c' \<in> children (a_nodes a') j" for j c'
  proof -
    have "c' \<in> children (a_nodes a) j \<and> j < c \<or> c' = c \<and> j < c"
      using that nth [OF that(1)] assms(2) a'(1) by (auto split: if_splits)
    then consider "c' \<in> children (a_nodes a) j" "j < c" | "c' = c" "j < c" by blast
    then show ?thesis
      by cases (use assms(1) a'(1) in \<open>auto simp: links_ok_def less_Suc_eq\<close>)
  qed
  moreover have "\<forall>j\<in>set (reg_nodes a). j < Suc c" "\<forall>j\<in>snd ` set (reg_eqv a). j \<in> set (reg_nodes a)"
    using assms(1) a'(1) by (auto simp: links_ok_def less_Suc_eq)
  ultimately show ?thesis using a'(1) len reg unfolding links_ok_def by (simp add: less_Suc_eq_le)
qed

lemma add_suffix_links_ok:
  "links_ok a \<Longrightarrow> i < length (a_nodes a) \<Longrightarrow> links_ok (snd (add_suffix i v a)) \<and> length (a_nodes a) \<le> length (a_nodes (snd (add_suffix i v a)))"
proof (induction v arbitrary: i a)
  case (Cons r rs)
  obtain c a1 where a1: "addChild i r a = (c, a1)" by fastforce
  from addChild_links_ok [OF Cons.prems this] Cons.IH [of a1 c] show ?case by (simp add: a1)
qed simp

lemma insertWord_links_ok:
  assumes "links_ok a" "0 < length (a_nodes a)"
  shows "links_ok (insertWord w a) \<and> 0 < length (a_nodes (insertWord w a))"
proof -
  obtain i rest where i: "last_common a 0 (runes w) = (i, rest)" by fastforce
  have ib: "i < length (a_nodes a)" using last_common_bound [OF assms, of "runes w"] i by simp
  define a1 where "a1 = (if n_HasChildren i a then replaceOrRegister (length (a_nodes a)) i a else a)"
  have a1: "links_ok a1" "length (a_nodes a1) = length (a_nodes a)"
    using replaceOrRegister_fuel [OF assms(1) ib, of "length (a_nodes a)"] assms(1) by (simp_all add: a1_def)
  obtain l a2 where a2: "add_suffix i rest a1 = (l, a2)" by fastforce
  have "links_ok a2 \<and> 0 < length (a_nodes a2)"
    using add_suffix_links_ok [OF a1(1), of i rest] a1(2) ib a2 by auto
  moreover have "n_Transitions (a_nodes (setTerminal l a2) ! j) = n_Transitions (a_nodes a2 ! j)" for j
    by (cases "j = l"; cases "l < length (a_nodes a2)") (simp_all add: setTerminal_def list_update_beyond)
  ultimately have "links_ok (setTerminal l a2) \<and> 0 < length (a_nodes (setTerminal l a2))"
    by (simp add: links_ok_def) (simp add: setTerminal_def)
  then show ?thesis using assms by (simp add: insertWord_def insertLetters_def i a1_def [symmetric] a2 Let_def)
qed

lemma fold_insertWord_links_ok:
  "links_ok (fold insertWord ws root_automaton) \<and> 0 < length (a_nodes (fold insertWord ws root_automaton))"
proof (induction ws rule: rev_induct)
  case Nil
  then show ?case by (simp add: root_automaton_def newNode_def newRegistery_def links_ok_def)
next
  case (snoc w ws)
  then show ?case using insertWord_links_ok by simp
qed

subsection \<open>Building a trie\<close>

text \<open>\<^bold>\<open>C9\<close>. Building the automaton of a non-empty list of well-formed non-empty lines in
  strictly ascending order succeeds, its encoding ends, and the trie read back accepts
  exactly the lines of the list: neither the sharing of nodes while it is built nor the
  binary search along the transitions loses or adds a line.\<close>

theorem trie_accepts_iff_member:
  assumes "sorted ws" "distinct ws" "ws \<noteq> []" "\<forall>w\<in>set ws. valid_utf8 w \<and> w \<noteq> []"
  shows "\<exists>a t. trie_Create ws = Ok a \<and> compressTrie a = Some t \<and>
    (\<forall>w. valid_utf8 w \<longrightarrow> trie_Accepts t w = (w \<in> set ws))"
  by (rule trie_Create_member [OF assms])

theorem trie_accepts_iff_member_witness:
  "\<exists>a t. trie_Create [''a:x'', ''a:xy'', ''b:x'', ''b:xy''] = Ok a \<and> compressTrie a = Some t \<and>
     trie_Accepts t ''b:xy'' \<and> \<not> trie_Accepts t ''a:''"
proof -
  have "valid_utf8 ''a:x'' \<and> valid_utf8 ''a:xy'' \<and> valid_utf8 ''b:x'' \<and> valid_utf8 ''b:xy'' \<and> valid_utf8 ''a:''" by code_simp
  moreover have "sorted [''a:x'', ''a:xy'', ''b:x'', ''b:xy'']" by (simp add: less_char_def)
  ultimately show ?thesis
    using trie_accepts_iff_member [of "[''a:x'', ''a:xy'', ''b:x'', ''b:xy'']"] by auto
qed

text \<open>A line that occurs twice marks the node before its last letter, so a line that was not
  inserted is accepted.\<close>

lemma duplicate_accepts_prefix:
  "map_option (\<lambda>t. (trie_Accepts t ''a:b'', trie_Accepts t ''a:'')) (lines_trie [''a:b'', ''a:b'']) = Some (True, True)"
  by code_simp

text \<open>After a line that occurs twice, two longer lines close a cycle: when the second of them is
  inserted, the leaf of the first is merged with its own parent, and the encoder never ends.\<close>

definition cyclic_lines :: "string list" where
  "cyclic_lines = [''a:b:x'', ''a:b:x'', ''a:b:xc'', ''a:b:xd'']"

definition cyclic_nodes :: "anode list" where
  "cyclic_nodes = [\<lparr>n_Terminal = False, n_Transitions = [(''a'', 1)]\<rparr>, \<lparr>n_Terminal = False, n_Transitions = [('':'', 2)]\<rparr>, \<lparr>n_Terminal = False, n_Transitions = [(''b'', 3)]\<rparr>, \<lparr>n_Terminal = False, n_Transitions = [('':'', 4)]\<rparr>, \<lparr>n_Terminal = True, n_Transitions = [(''x'', 5)]\<rparr>, \<lparr>n_Terminal = True, n_Transitions = [(''c'', 5), (''d'', 7)]\<rparr>, \<lparr>n_Terminal = True, n_Transitions = []\<rparr>, \<lparr>n_Terminal = True, n_Transitions = []\<rparr>]"

lemma cyclic_steps:
  "insertWord ''a:b:x'' root_automaton = \<lparr>a_nodes = [\<lparr>n_Terminal = False, n_Transitions = [(''a'', 1)]\<rparr>, \<lparr>n_Terminal = False, n_Transitions = [('':'', 2)]\<rparr>, \<lparr>n_Terminal = False, n_Transitions = [(''b'', 3)]\<rparr>, \<lparr>n_Terminal = False, n_Transitions = [('':'', 4)]\<rparr>, \<lparr>n_Terminal = False, n_Transitions = [(''x'', 5)]\<rparr>, \<lparr>n_Terminal = True, n_Transitions = []\<rparr>], reg_eqv = [], reg_nodes = []\<rparr>"
  "insertWord ''a:b:x'' \<lparr>a_nodes = [\<lparr>n_Terminal = False, n_Transitions = [(''a'', 1)]\<rparr>, \<lparr>n_Terminal = False, n_Transitions = [('':'', 2)]\<rparr>, \<lparr>n_Terminal = False, n_Transitions = [(''b'', 3)]\<rparr>, \<lparr>n_Terminal = False, n_Transitions = [('':'', 4)]\<rparr>, \<lparr>n_Terminal = False, n_Transitions = [(''x'', 5)]\<rparr>, \<lparr>n_Terminal = True, n_Transitions = []\<rparr>], reg_eqv = [], reg_nodes = []\<rparr> = \<lparr>a_nodes = [\<lparr>n_Terminal = False, n_Transitions = [(''a'', 1)]\<rparr>, \<lparr>n_Terminal = False, n_Transitions = [('':'', 2)]\<rparr>, \<lparr>n_Terminal = False, n_Transitions = [(''b'', 3)]\<rparr>, \<lparr>n_Terminal = False, n_Transitions = [('':'', 4)]\<rparr>, \<lparr>n_Terminal = True, n_Transitions = [(''x'', 5)]\<rparr>, \<lparr>n_Terminal = True, n_Transitions = []\<rparr>], reg_eqv = [((True, []), 5)], reg_nodes = [5]\<rparr>"
  "insertWord ''a:b:xc'' \<lparr>a_nodes = [\<lparr>n_Terminal = False, n_Transitions = [(''a'', 1)]\<rparr>, \<lparr>n_Terminal = False, n_Transitions = [('':'', 2)]\<rparr>, \<lparr>n_Terminal = False, n_Transitions = [(''b'', 3)]\<rparr>, \<lparr>n_Terminal = False, n_Transitions = [('':'', 4)]\<rparr>, \<lparr>n_Terminal = True, n_Transitions = [(''x'', 5)]\<rparr>, \<lparr>n_Terminal = True, n_Transitions = []\<rparr>], reg_eqv = [((True, []), 5)], reg_nodes = [5]\<rparr> = \<lparr>a_nodes = [\<lparr>n_Terminal = False, n_Transitions = [(''a'', 1)]\<rparr>, \<lparr>n_Terminal = False, n_Transitions = [('':'', 2)]\<rparr>, \<lparr>n_Terminal = False, n_Transitions = [(''b'', 3)]\<rparr>, \<lparr>n_Terminal = False, n_Transitions = [('':'', 4)]\<rparr>, \<lparr>n_Terminal = True, n_Transitions = [(''x'', 5)]\<rparr>, \<lparr>n_Terminal = True, n_Transitions = [(''c'', 6)]\<rparr>, \<lparr>n_Terminal = True, n_Transitions = []\<rparr>], reg_eqv = [((True, []), 5)], reg_nodes = [5]\<rparr>"
  "insertWord ''a:b:xd'' \<lparr>a_nodes = [\<lparr>n_Terminal = False, n_Transitions = [(''a'', 1)]\<rparr>, \<lparr>n_Terminal = False, n_Transitions = [('':'', 2)]\<rparr>, \<lparr>n_Terminal = False, n_Transitions = [(''b'', 3)]\<rparr>, \<lparr>n_Terminal = False, n_Transitions = [('':'', 4)]\<rparr>, \<lparr>n_Terminal = True, n_Transitions = [(''x'', 5)]\<rparr>, \<lparr>n_Terminal = True, n_Transitions = [(''c'', 6)]\<rparr>, \<lparr>n_Terminal = True, n_Transitions = []\<rparr>], reg_eqv = [((True, []), 5)], reg_nodes = [5]\<rparr> = \<lparr>a_nodes = cyclic_nodes, reg_eqv = [((True, []), 5)], reg_nodes = [5]\<rparr>"
  "replaceOrRegister (length cyclic_nodes) 0 \<lparr>a_nodes = cyclic_nodes, reg_eqv = [((True, []), 5)], reg_nodes = [5]\<rparr> =
     \<lparr>a_nodes = cyclic_nodes, reg_eqv = [((False, [('':'', 2)]), 1), ((False, [(''b'', 3)]), 2), ((False, [('':'', 4)]), 3), ((True, [(''x'', 5)]), 4), ((True, []), 5)], reg_nodes = [1, 2, 3, 4, 5]\<rparr>"
  by code_simp+

lemma cyclic_unfold: "unfold_node d cyclic_nodes 0 = None"
proof -
  have 5: "unfold_node d cyclic_nodes 5 = None" for d by (induction d) (simp_all add: cyclic_nodes_def)
  have 4: "unfold_node d cyclic_nodes 4 = None" for d by (cases d) (use 5 in \<open>simp_all add: cyclic_nodes_def\<close>)
  have 3: "unfold_node d cyclic_nodes 3 = None" for d by (cases d) (use 4 in \<open>simp_all add: cyclic_nodes_def\<close>)
  have 2: "unfold_node d cyclic_nodes 2 = None" for d by (cases d) (use 3 in \<open>simp_all add: cyclic_nodes_def\<close>)
  have 1: "unfold_node d cyclic_nodes 1 = None" for d by (cases d) (use 2 in \<open>simp_all add: cyclic_nodes_def\<close>)
  show ?thesis by (cases d) (use 1 in \<open>simp_all add: cyclic_nodes_def\<close>)
qed

lemma duplicate_makes_cycle:
  "\<exists>a. trie_Create cyclic_lines = Ok a \<and> compressTrie a = None \<and> (\<forall>d. unfold_node d (a_nodes a) 0 = None)"
proof -
  have "newNode newRegistery = (0, root_automaton)"
    by (simp add: root_automaton_def newNode_def newRegistery_def)
  moreover have "sorted cyclic_lines" by (simp add: cyclic_lines_def less_char_def)
  moreover have "n_Transitions (cyclic_nodes ! 0) \<noteq> []" by (simp add: cyclic_nodes_def)
  ultimately have "trie_Create cyclic_lines =
      Ok \<lparr>a_nodes = cyclic_nodes, reg_eqv = [((False, [('':'', 2)]), 1), ((False, [(''b'', 3)]), 2), ((False, [('':'', 4)]), 3), ((True, [(''x'', 5)]), 4), ((True, []), 5)], reg_nodes = [1, 2, 3, 4, 5]\<rparr>"
    by (simp only: trie_Create_def Let_def cyclic_lines_def fold_simps cyclic_steps prod.case automaton.simps if_False not_True_eq_False)
  then show ?thesis by (simp add: compressTrie_def cyclic_unfold)
qed

text \<open>\<open>ChildKeys\<close> stops at the first terminal node of a branch, so a value that
  extends another value of the same key is not listed: of the values \<open>web\<close> and \<open>web1\<close>
  only the first is seen by wildcard and range searches.\<close>

theorem child_keys_hide_extensions:
  "map_option (\<lambda>t. map_option ChildKeys (trie_HasPrefix t ''tags:'')) (lines_trie [''tags:web'', ''tags:web1'']) =
     Some (Some (Some [''web''])) \<and>
   map_option (\<lambda>t. trie_Accepts t ''tags:web1'') (lines_trie [''tags:web'', ''tags:web1'']) = Some True"
  by code_simp

end
