(* ===== verification/Index.thy ===== *)
theory Index
  imports Trie
begin

text \<open>
  \<^verbatim>\<open>indexer/file_index.go\<close> and \<^verbatim>\<open>indexer/indexer.go\<close>: the in-memory search index. It maps
  the name of a collection to its documents; a document holds the trie and the text of
  its lines. Compressing a text and decompressing it is taken to be the identity; the trie
  is kept as the tree that decoding its encoding gives. A document that was never filled in
  has no trie, and reading it is an error.

  The engine of Go's \<open>regexp\<close> package is the parameter \<open>rx\<close>: compiling a pattern gives
  an error or a match function.

  \<open>IndexObj\<close> starts a goroutine. Goroutines that have not run yet are kept as a list of
  jobs, and \<open>run_job\<close> runs any of them; the step relations of the later theories let that
  happen at any time. The invariant \<open>index_inv\<close> relates the documents and the jobs to the objects that
  should be found.
\<close>

subsection \<open>State\<close>

record idxdoc =
  doc_trie :: "trie option"
  docText :: "string option"

type_synonym collection = "(string \<times> idxdoc) list"

record fileindex =
  idxmap :: "(string \<times> collection) list"
  idx_updated :: bool

text \<open>\<open>Indexable\<close>: the name of the document, its collection, and the fields \<open>Flatten\<close> works
  on. Nodes, roles, environments and clients flatten the tagged fields of a struct with
  \<open>FlattenObj\<close>; a data bag item flattens its raw data under its own keys.\<close>

record indexable =
  DocID :: string
  IndexName :: string
  flat_tagged :: bool
  flat_fields :: gobj

definition obj_Flatten :: "conf \<Rightarrow> indexable \<Rightarrow> gobj outcome" where
  "obj_Flatten cfg obj =
     (if flat_tagged obj then FlattenObj cfg (flat_fields obj)
      else flatten_fields cfg id (flat_fields obj) [])"

type_synonym regexp_engine = "string \<Rightarrow> (string \<Rightarrow> bool) outcome"

subsection \<open>Documents\<close>

definition new_doc :: idxdoc where
  "new_doc = \<lparr>doc_trie = None, docText = None\<rparr>"

text \<open>A panic of \<open>Flatten\<close> or \<open>Indexify\<close> is raised before the deferred \<open>recover\<close> is set
  up; an error or a panic while building the trie leaves the document as it was. An automaton
  with a cycle makes the encoder recurse without end; the runtime aborts the process when
  the stack is used up, which no \<open>recover\<close> stops, so this is a panic of the update too.\<close>

definition doc_update :: "conf \<Rightarrow> indexable \<Rightarrow> idxdoc \<Rightarrow> idxdoc outcome" where
  "doc_update cfg obj idoc =
     outcome_bind (obj_Flatten cfg obj) (\<lambda>m.
     outcome_bind (Indexify cfg m) (\<lambda>flattened.
       (case trie_Create flattened of
          Ok trie \<Rightarrow>
            (case compressTrie trie of
               None \<Rightarrow> Panic
             | Some t \<Rightarrow> Ok (idoc\<lparr>doc_trie := Some t, docText := Some (join_with [CHR 0x0A] flattened)\<rparr>))
        | _ \<Rightarrow> Ok idoc)))"

definition decompressTrie :: "trie option \<Rightarrow> trie outcome" where
  "decompressTrie b = (case b of None \<Rightarrow> Errorf ''unexpected EOF'' | Some t \<Rightarrow> Ok t)"

definition decompressText :: "string option \<Rightarrow> string outcome" where
  "decompressText b = (case b of None \<Rightarrow> Errorf ''unexpected EOF'' | Some t \<Rightarrow> Ok t)"

definition exactSearch :: "idxdoc \<Rightarrow> string \<Rightarrow> bool outcome" where
  "exactSearch idoc term = outcome_bind (decompressTrie (doc_trie idoc)) (\<lambda>t. Ok (trie_Accepts t term))"

text \<open>The loops over \<open>HasPrefix(key)\<close> and \<open>ChildKeys\<close>: some listed value satisfies the test.\<close>

definition child_matches :: "trie \<Rightarrow> string \<Rightarrow> (string \<Rightarrow> bool) \<Rightarrow> bool" where
  "child_matches t key f =
     (case trie_HasPrefix t key of
        None \<Rightarrow> False
      | Some n \<Rightarrow> (case ChildKeys n of None \<Rightarrow> False | Some kids \<Rightarrow> list_ex f kids))"

definition char_replace :: "char \<Rightarrow> string \<Rightarrow> string \<Rightarrow> string" where
  "char_replace c new s = concat (map (\<lambda>x. if x = c then new else [x]) s)"

definition wildcard_pattern :: "string \<Rightarrow> string" where
  "wildcard_pattern re =
     char_replace CHR ''?'' ''.?'' (char_replace CHR ''*'' ''.*'' (char_replace CHR ''.'' [CHR 0x5C, CHR ''.''] re))"

definition regexSearch :: "regexp_engine \<Rightarrow> idxdoc \<Rightarrow> string \<Rightarrow> bool outcome" where
  "regexSearch rx idoc reTerm =
     (if CHR '':'' \<notin> set reTerm then Panic
      else
        (let key = takeWhile (\<lambda>c. c \<noteq> CHR '':'') reTerm @ '':'';
             re = wildcard_pattern (tl (dropWhile (\<lambda>c. c \<noteq> CHR '':'') reTerm))
         in outcome_bind (rx re) (\<lambda>reComp.
            outcome_bind (decompressTrie (doc_trie idoc)) (\<lambda>t. Ok (child_matches t key reComp)))))"

definition Examine :: "regexp_engine \<Rightarrow> idxdoc \<Rightarrow> string \<Rightarrow> bool outcome" where
  "Examine rx idoc term =
     (if CHR ''*'' \<in> set term \<or> CHR ''?'' \<in> set term then regexSearch rx idoc term
      else exactSearch idoc term)"

definition TextSearch :: "regexp_engine \<Rightarrow> idxdoc \<Rightarrow> string \<Rightarrow> bool outcome" where
  "TextSearch rx idoc term =
     (case term of
        [] \<Rightarrow> Panic
      | c # _ \<Rightarrow>
          if c = CHR ''*'' \<or> c = CHR ''?'' then Errorf ''Can't start a term with a wildcard character''
          else
            (let re = ''(?m):'' @ char_replace CHR ''?'' ''.?'' (char_replace CHR ''*'' ''.*'' term) @ ''$''
             in outcome_bind (rx re) (\<lambda>reComp.
                outcome_bind (decompressText (docText idoc)) (\<lambda>txt. Ok (reComp txt)))))"

definition range_test :: "string \<Rightarrow> string \<Rightarrow> bool \<Rightarrow> bool \<Rightarrow> string \<Rightarrow> bool" where
  "range_test start end inclusive negated child =
     (let wildStart = (start = ''*''); wildEnd = (end = ''*'')
      in if \<not> negated then
           if inclusive then
             if wildStart then child \<le> end
             else if wildEnd then child \<ge> start
             else child \<ge> start \<and> child \<le> end
           else
             if wildStart then child < end
             else if wildEnd then child > start
             else child > start \<and> child < end
         else
           if inclusive then
             if wildStart then child \<ge> end
             else if wildEnd then child \<le> start
             else child \<le> start \<or> child \<ge> end
           else
             if wildStart then child > end
             else if wildEnd then child < start
             else child < start \<or> child > end)"

definition RangeSearch :: "idxdoc \<Rightarrow> string \<Rightarrow> string \<Rightarrow> string \<Rightarrow> bool \<Rightarrow> bool \<Rightarrow> bool outcome" where
  "RangeSearch idoc field start end inclusive negated =
     (if start = ''*'' \<and> end = ''*'' then
        Errorf ''you can't have both start and end be wild in a range search, sadly''
      else
        outcome_bind (decompressTrie (doc_trie idoc))
          (\<lambda>t. Ok (child_matches t (field @ '':'') (range_test start end inclusive negated))))"

subsection \<open>Collections\<close>

definition addDoc :: "conf \<Rightarrow> indexable \<Rightarrow> collection \<Rightarrow> collection outcome" where
  "addDoc cfg obj docs =
     (let docs1 = (if map_of docs (DocID obj) = None then aput (DocID obj) new_doc docs else docs)
      in case map_of docs1 (DocID obj) of
           None \<Rightarrow> Panic
         | Some d \<Rightarrow> outcome_bind (doc_update cfg obj d) (\<lambda>d'. Ok (aput (DocID obj) d' docs1)))"

definition delDoc :: "string \<Rightarrow> collection \<Rightarrow> collection" where
  "delDoc doc docs = adel doc docs"

text \<open>The channel loops: every document is examined, one error makes the search fail, and
  the matching documents are collected.\<close>

fun search_docs :: "(idxdoc \<Rightarrow> bool outcome) \<Rightarrow> collection \<Rightarrow> collection outcome" where
  "search_docs f [] = Ok []"
| "search_docs f ((k, d) # docs) =
     outcome_bind (f d) (\<lambda>m. outcome_bind (search_docs f docs) (\<lambda>r. Ok (if m then (k, d) # r else r)))"

definition searchCollection :: "regexp_engine \<Rightarrow> string \<Rightarrow> bool \<Rightarrow> collection \<Rightarrow> collection outcome" where
  "searchCollection rx term notop docs =
     search_docs (\<lambda>d. outcome_bind (Examine rx d term) (\<lambda>m. Ok (m \<and> \<not> notop \<or> \<not> m \<and> notop))) docs"

definition searchTextCollection :: "regexp_engine \<Rightarrow> string \<Rightarrow> bool \<Rightarrow> collection \<Rightarrow> collection outcome" where
  "searchTextCollection rx term notop docs =
     search_docs (\<lambda>d. outcome_bind (TextSearch rx d term) (\<lambda>m. Ok (m \<and> \<not> notop \<or> \<not> m \<and> notop))) docs"

definition searchRange ::
  "string \<Rightarrow> string \<Rightarrow> string \<Rightarrow> bool \<Rightarrow> bool \<Rightarrow> collection \<Rightarrow> collection outcome" where
  "searchRange field start end inclusive negated docs =
     search_docs (\<lambda>d. RangeSearch d field start end inclusive negated) docs"

definition allDocs :: "collection \<Rightarrow> collection" where
  "allDocs docs = docs"

subsection \<open>The index\<close>

definition CreateCollection :: "string \<Rightarrow> fileindex \<Rightarrow> fileindex" where
  "CreateCollection idxName i =
     (if map_of (idxmap i) idxName = None then i\<lparr>idxmap := aput idxName [] (idxmap i)\<rparr> else i)"

definition CreateNewCollection :: "string \<Rightarrow> fileindex \<Rightarrow> fileindex" where
  "CreateNewCollection idxName i = CreateCollection idxName (i\<lparr>idx_updated := True\<rparr>)"

definition DeleteCollection :: "string \<Rightarrow> fileindex \<Rightarrow> unit outcome \<times> fileindex" where
  "DeleteCollection idxName i =
     (if idxName \<in> {''node'', ''client'', ''environment'', ''role''}
      then (Errorf (idxName @ '' is a default search index, cannot be deleted.''), i)
      else (Ok (), i\<lparr>idx_updated := True, idxmap := adel idxName (idxmap i)\<rparr>))"

definition SaveItem :: "conf \<Rightarrow> indexable \<Rightarrow> fileindex \<Rightarrow> fileindex outcome" where
  "SaveItem cfg obj i =
     (let i1 = i\<lparr>idx_updated := True\<rparr>;
          i2 = (if map_of (idxmap i1) (IndexName obj) = None then CreateCollection (IndexName obj) i1 else i1)
      in case map_of (idxmap i2) (IndexName obj) of
           None \<Rightarrow> Panic
         | Some docs \<Rightarrow>
             outcome_bind (addDoc cfg obj docs)
               (\<lambda>docs'. Ok (i2\<lparr>idxmap := aput (IndexName obj) docs' (idxmap i2)\<rparr>)))"

definition DeleteItem :: "string \<Rightarrow> string \<Rightarrow> fileindex \<Rightarrow> unit outcome \<times> fileindex" where
  "DeleteItem idxName doc i =
     (let i1 = i\<lparr>idx_updated := True\<rparr>
      in case map_of (idxmap i1) idxName of
           None \<Rightarrow> (Errorf (''Index collection '' @ idxName @ '' not found''), i1)
         | Some docs \<Rightarrow> (Ok (), i1\<lparr>idxmap := aput idxName (delDoc doc docs) (idxmap i1)\<rparr>))"

fun go_space :: "char \<Rightarrow> bool" where
  "go_space c \<longleftrightarrow> c = CHR 0x09 \<or> c = CHR 0x0A \<or> c = CHR 0x0C \<or> c = CHR 0x0D \<or> c = CHR '' ''"

fun unescape :: "string \<Rightarrow> string" where
  "unescape (c # d # s) =
     (if c = CHR 0x5C \<and> \<not> go_space d then d # unescape s else c # unescape (d # s))"
| "unescape s = s"

definition unknown_index :: "string \<Rightarrow> 'a outcome" where
  "unknown_index idx = Errorf (''I don't know how to search for '' @ idx @ '' data objects.'')"

definition Search :: "regexp_engine \<Rightarrow> string \<Rightarrow> string \<Rightarrow> bool \<Rightarrow> fileindex \<Rightarrow> collection outcome" where
  "Search rx idx term notop i =
     (case map_of (idxmap i) idx of
        None \<Rightarrow> unknown_index idx
      | Some idc \<Rightarrow>
          (if term = ''*:*'' then Ok (allDocs idc) else searchCollection rx (unescape term) notop idc))"

definition SearchText :: "regexp_engine \<Rightarrow> string \<Rightarrow> string \<Rightarrow> bool \<Rightarrow> fileindex \<Rightarrow> collection outcome" where
  "SearchText rx idx term notop i =
     (case map_of (idxmap i) idx of
        None \<Rightarrow> unknown_index idx
      | Some idc \<Rightarrow> searchTextCollection rx (unescape term) notop idc)"

definition SearchRange ::
  "string \<Rightarrow> string \<Rightarrow> string \<Rightarrow> string \<Rightarrow> bool \<Rightarrow> bool \<Rightarrow> fileindex \<Rightarrow> collection outcome" where
  "SearchRange idx field start end inclusive negated i =
     (case map_of (idxmap i) idx of
        None \<Rightarrow> unknown_index idx
      | Some idc \<Rightarrow> searchRange field start end inclusive negated idc)"

definition SearchResults :: "regexp_engine \<Rightarrow> string \<Rightarrow> bool \<Rightarrow> collection \<Rightarrow> collection outcome" where
  "SearchResults rx term notop docs =
     (if term = ''*:*'' then (if notop then Ok [] else Ok docs)
      else searchCollection rx (unescape term) notop docs)"

definition SearchResultsRange ::
  "string \<Rightarrow> string \<Rightarrow> string \<Rightarrow> bool \<Rightarrow> bool \<Rightarrow> collection \<Rightarrow> collection outcome" where
  "SearchResultsRange field start end inclusive negated docs = searchRange field start end inclusive negated docs"

definition SearchResultsText :: "regexp_engine \<Rightarrow> string \<Rightarrow> bool \<Rightarrow> collection \<Rightarrow> collection outcome" where
  "SearchResultsText rx term notop docs = searchTextCollection rx (unescape term) notop docs"

definition Endpoints :: "fileindex \<Rightarrow> string list" where
  "Endpoints i = sort (map fst (idxmap i))"

definition makeDefaultCollections :: "fileindex \<Rightarrow> fileindex" where
  "makeDefaultCollections i =
     fold CreateCollection [''client'', ''environment'', ''node'', ''role'']
       (i\<lparr>idx_updated := True, idxmap := []\<rparr>)"

definition idx_Clear :: "fileindex \<Rightarrow> fileindex" where
  "idx_Clear i = makeDefaultCollections i"

definition idx_Initialize :: fileindex where
  "idx_Initialize = makeDefaultCollections \<lparr>idxmap = [], idx_updated = False\<rparr>"

subsection \<open>The indexer: goroutines that save items\<close>

record indexer =
  objIndex :: fileindex
  idx_jobs :: "indexable list"

definition IndexObj :: "indexable \<Rightarrow> indexer \<Rightarrow> indexer" where
  "IndexObj obj ix = ix\<lparr>idx_jobs := idx_jobs ix @ [obj]\<rparr>"

definition DeleteItemFromCollection :: "string \<Rightarrow> string \<Rightarrow> indexer \<Rightarrow> unit outcome \<times> indexer" where
  "DeleteItemFromCollection idxName doc ix =
     (case DeleteItem idxName doc (objIndex ix) of (r, i) \<Rightarrow> (r, ix\<lparr>objIndex := i\<rparr>))"

definition indexer_CreateNewCollection :: "string \<Rightarrow> indexer \<Rightarrow> indexer" where
  "indexer_CreateNewCollection idxName ix = ix\<lparr>objIndex := CreateNewCollection idxName (objIndex ix)\<rparr>"

definition indexer_DeleteCollection :: "string \<Rightarrow> indexer \<Rightarrow> unit outcome \<times> indexer" where
  "indexer_DeleteCollection idxName ix =
     (if idxName \<in> {''node'', ''client'', ''environment'', ''role''}
      then (Errorf (idxName @ '' is a default search index, cannot be deleted.''), ix)
      else (case DeleteCollection idxName (objIndex ix) of (r, i) \<Rightarrow> (r, ix\<lparr>objIndex := i\<rparr>)))"

text \<open>The goroutine with number \<open>n\<close> runs to its end.\<close>

definition run_job :: "conf \<Rightarrow> nat \<Rightarrow> indexer \<Rightarrow> indexer outcome" where
  "run_job cfg n ix =
     outcome_bind (SaveItem cfg (idx_jobs ix ! n) (objIndex ix))
       (\<lambda>i. Ok (ix\<lparr>objIndex := i, idx_jobs := take n (idx_jobs ix) @ drop (Suc n) (idx_jobs ix)\<rparr>))"

subsection \<open>Range searches\<close>

text \<open>A negated range is the complement of the range with the opposite kind of
  end points: \<open>NOT [a TO b]\<close> also returns the values equal to \<open>a\<close> or \<open>b\<close>, which \<open>[a TO b]\<close>
  returns as well, and \<open>NOT {a TO b}\<close> leaves them out although \<open>{a TO b}\<close> does too.\<close>

theorem range_negation_swapped:
  "range_test start end inclusive True child \<longleftrightarrow> \<not> range_test start end (\<not> inclusive) False child"
  by (auto simp: range_test_def Let_def)

subsection \<open>Searching after saving\<close>

lemma search_docs_Ok:
  assumes "\<And>k d. (k, d) \<in> set docs \<Longrightarrow> f d = Ok (P d)"
  shows "search_docs f docs = Ok (filter (\<lambda>p. P (snd p)) docs)"
  using assms by (induction docs) fastforce+

definition filled :: "collection \<Rightarrow> bool" where
  "filled docs \<longleftrightarrow> (\<forall>d\<in>snd ` set docs. doc_trie d \<noteq> None)"

definition plain_term :: "string \<Rightarrow> bool" where
  "plain_term t \<longleftrightarrow> CHR ''*'' \<notin> set t \<and> CHR ''?'' \<notin> set t \<and> CHR 0x5C \<notin> set t"

lemma unescape_plain: "CHR 0x5C \<notin> set t \<Longrightarrow> unescape t = t"
  by (induction t rule: unescape.induct) auto

lemma searchCollection_plain:
  assumes "filled docs" "plain_term t"
  shows "searchCollection rx t notop docs =
    Ok (filter (\<lambda>p. trie_Accepts (the (doc_trie (snd p))) t \<noteq> notop) docs)"
  unfolding searchCollection_def
proof (rule search_docs_Ok)
  fix k d assume "(k, d) \<in> set docs"
  then obtain tr where "doc_trie d = Some tr" using assms(1) by (force simp: filled_def)
  then show "outcome_bind (Examine rx d t) (\<lambda>m. Ok (m \<and> \<not> notop \<or> \<not> m \<and> notop)) =
      Ok (trie_Accepts (the (doc_trie d)) t \<noteq> notop)"
    using assms(2) by (auto simp: Examine_def plain_term_def exactSearch_def decompressTrie_def)
qed

text \<open>The lines of an object, when the document can be built from them: every line once.\<close>

definition object_lines :: "conf \<Rightarrow> indexable \<Rightarrow> string list \<Rightarrow> bool" where
  "object_lines cfg obj ls \<longleftrightarrow>
     (\<exists>m. obj_Flatten cfg obj = Ok m \<and> Indexify cfg m = Ok ls) \<and>
     ls \<noteq> [] \<and> distinct ls \<and> (\<forall>l\<in>set ls. valid_utf8 l \<and> l \<noteq> [])"

definition lines_doc :: "string list \<Rightarrow> idxdoc \<Rightarrow> bool" where
  "lines_doc ls d \<longleftrightarrow>
     (\<exists>t. d = \<lparr>doc_trie = Some t, docText = Some (join_with [CHR 0x0A] ls)\<rparr> \<and> lines_trie ls = Some t)"

lemma doc_update_lines:
  assumes "object_lines cfg obj ls"
  shows "\<exists>d. doc_update cfg obj d0 = Ok d \<and> lines_doc ls d"
proof -
  obtain m where m: "obj_Flatten cfg obj = Ok m" "Indexify cfg m = Ok ls"
    using assms by (auto simp: object_lines_def)
  have "sorted ls" using m(2) by (auto simp: Indexify_def outcome_simps)
  then obtain a t where "trie_Create ls = Ok a" "compressTrie a = Some t"
    using trie_Create_member [of ls] assms by (auto simp: object_lines_def)
  then show ?thesis by (simp add: doc_update_def m lines_doc_def lines_trie_def)
qed

definition coll :: "fileindex \<Rightarrow> string \<Rightarrow> collection" where
  "coll i c = (case map_of (idxmap i) c of None \<Rightarrow> [] | Some docs \<Rightarrow> docs)"

lemma SaveItem_coll:
  assumes "object_lines cfg obj ls"
  shows "\<exists>i' d. SaveItem cfg obj i = Ok i' \<and> lines_doc ls d \<and> map_of (idxmap i') (IndexName obj) \<noteq> None \<and>
    coll i' (IndexName obj) = aput (DocID obj) d (coll i (IndexName obj)) \<and>
    (\<forall>c. c \<noteq> IndexName obj \<longrightarrow> map_of (idxmap i') c = map_of (idxmap i) c)"
proof -
  let ?c = "IndexName obj" and ?k = "DocID obj"
  define docs where "docs = coll i ?c"
  obtain d0 where d0: "map_of (if map_of docs ?k = None then aput ?k new_doc docs else docs) ?k = Some d0"
    by (cases "map_of docs ?k") auto
  obtain d where d: "doc_update cfg obj d0 = Ok d" "lines_doc ls d"
    using doc_update_lines [OF assms] by blast
  have add: "addDoc cfg obj docs = Ok (aput ?k d docs)"
    using d0 d(1) by (auto simp: addDoc_def Let_def split: if_splits)
  have "\<exists>i'. SaveItem cfg obj i = Ok i' \<and> map_of (idxmap i') = (map_of (idxmap i))(?c \<mapsto> aput ?k d docs)"
    using add by (auto simp: SaveItem_def CreateCollection_def Let_def docs_def coll_def fun_eq_iff
        split: option.split)
  then obtain i' where i': "SaveItem cfg obj i = Ok i'"
    "map_of (idxmap i') = (map_of (idxmap i))(?c \<mapsto> aput ?k d docs)" by blast
  have "coll i' ?c = aput ?k d docs" by (simp add: coll_def i'(2))
  then show ?thesis using i' d(2) by (intro exI [of _ i'] exI [of _ d]) (simp add: docs_def)
qed

lemma lines_doc_accepts:
  assumes "object_lines cfg obj ls" "lines_doc ls d" "valid_utf8 w"
  shows "trie_Accepts (the (doc_trie d)) w \<longleftrightarrow> w \<in> set ls"
proof -
  have "sorted ls" using assms(1) by (auto simp: object_lines_def Indexify_def outcome_simps)
  with trie_Create_member [of ls] assms show ?thesis
    by (auto simp: object_lines_def lines_doc_def lines_trie_def)
qed

text \<open>Once an object is saved in the index, an exact search in its collection
  succeeds and finds its document if and only if the term is one of the lines the object
  was flattened to; a negated search finds it in the other cases.\<close>

theorem search_finds_saved:
  assumes "object_lines cfg obj ls" "filled (coll i (IndexName obj))" "distinct (map fst (coll i (IndexName obj)))"
    "plain_term term" "valid_utf8 term" "SaveItem cfg obj i = Ok i'"
  shows "\<exists>r. Search rx (IndexName obj) term notop i' = Ok r \<and>
    (DocID obj \<in> fst ` set r \<longleftrightarrow> (term \<in> set ls) \<noteq> notop)"
proof -
  let ?c = "IndexName obj"
  obtain d where d: "lines_doc ls d" "map_of (idxmap i') ?c \<noteq> None"
    "coll i' ?c = aput (DocID obj) d (coll i ?c)"
    using SaveItem_coll [OF assms(1), of i] assms(6) by auto
  have f: "filled (coll i' ?c)"
    using assms(2) d(1) set_aput [of "DocID obj" d "coll i ?c"]
    unfolding filled_def lines_doc_def d(3) by fastforce
  let ?P = "\<lambda>p. trie_Accepts (the (doc_trie (snd p))) term \<noteq> notop"
  have "term \<noteq> ''*:*''" using assms(4) by (auto simp: plain_term_def)
  then have S: "Search rx ?c term notop i' = Ok (filter ?P (coll i' ?c))"
    using d(2) assms(4) searchCollection_plain [OF f assms(4)]
    by (auto simp: Search_def coll_def unescape_plain plain_term_def)
  have dist: "distinct (map fst (coll i' ?c))" by (simp add: d(3) assms(3))
  have "map_of (coll i' ?c) (DocID obj) = Some d" by (simp add: d(3))
  then have e: "(DocID obj, e) \<in> set (coll i' ?c) \<longleftrightarrow> e = d" for e
    using map_of_eq_Some_iff [OF dist, of "DocID obj" e] by auto
  have "DocID obj \<in> fst ` set (filter ?P (coll i' ?c)) \<longleftrightarrow> ?P (DocID obj, d)"
    using e by (force simp: image_iff)
  with S lines_doc_accepts [OF assms(1) d(1) assms(5)] show ?thesis by auto
qed


definition example_obj :: indexable where
  "example_obj = \<lparr>DocID = ''web'', IndexName = ''node'', flat_tagged = True, flat_fields = [(''name'', GStr ''web''), (''tags'', GStrs [''a'', ''b''])]\<rparr>"

lemma example_obj_lines: "object_lines example_conf example_obj [''name:web'', ''tags:a'', ''tags:b'']"
proof -
  have "obj_Flatten example_conf example_obj =
      Ok [(''name'', GStr ''web''), (''tags'', GStrs [''a'', ''b''])]" by code_simp
  moreover have "Indexify example_conf [(''name'', GStr ''web''), (''tags'', GStrs [''a'', ''b''])] =
      Ok [''name:web'', ''tags:a'', ''tags:b'']" by code_simp
  moreover have "valid_utf8 ''name:web'' \<and> valid_utf8 ''tags:a'' \<and> valid_utf8 ''tags:b''" by code_simp
  ultimately show ?thesis by (simp add: object_lines_def)
qed

theorem search_finds_saved_witness:
  "\<exists>i' r. SaveItem example_conf example_obj idx_Initialize = Ok i' \<and>
     Search (\<lambda>_. Panic) ''node'' ''tags:b'' False i' = Ok r \<and> ''web'' \<in> fst ` set r"
proof -
  have c: "coll idx_Initialize ''node'' = []" by code_simp
  obtain i' where i': "SaveItem example_conf example_obj idx_Initialize = Ok i'"
    using SaveItem_coll [OF example_obj_lines] by blast
  have "valid_utf8 ''tags:b''" by code_simp
  then show ?thesis
    using search_finds_saved [OF example_obj_lines _ _ _ _ i', of "''tags:b''" "\<lambda>_. Panic" False] c i'
    by (simp add: example_obj_def filled_def plain_term_def)
qed

text \<open>Two fields that give the same line, and two more lines that extend it: the update of the
  document never ends, and takes the server with it.\<close>

definition cyclic_obj :: indexable where
  "cyclic_obj = \<lparr>DocID = ''web'', IndexName = ''node'', flat_tagged = False,
     flat_fields = [(''a'', GArr [GStr ''b:x'', GStr ''b:xc'', GStr ''b:xd'']), (''a:b'', GStr ''x'')]\<rparr>"

lemma duplicate_lines_stop_server: "SaveItem example_conf cyclic_obj idx_Initialize = Panic"
proof -
  have "obj_Flatten example_conf cyclic_obj = Ok [(''a'', GStrs [''b:x'', ''b:xc'', ''b:xd'']), (''a:b'', GStr ''x'')]" by code_simp
  moreover have "Indexify example_conf [(''a'', GStrs [''b:x'', ''b:xc'', ''b:xd'']), (''a:b'', GStr ''x'')] = Ok cyclic_lines" by code_simp
  ultimately have "doc_update example_conf cyclic_obj d = Panic" for d
    using duplicate_makes_cycle by (auto simp: doc_update_def)
  then have "addDoc example_conf cyclic_obj docs = Panic" for docs
    by (auto simp: addDoc_def Let_def split: option.split)
  then show ?thesis by (auto simp: SaveItem_def Let_def split: option.split)
qed

text \<open>The query \<open>*:*\<close> under \<open>NOT\<close>: searching a set of results returns nothing, as
  it should, but searching the index returns every document.\<close>

theorem search_all_negated:
  assumes "map_of (idxmap i) idx = Some docs"
  shows "Search rx idx ''*:*'' True i = Ok docs \<and> SearchResults rx ''*:*'' True docs = Ok []"
  using assms by (simp add: Search_def SearchResults_def allDocs_def)

theorem search_all_negated_witness:
  "Search (\<lambda>_. Panic) ''node'' ''*:*'' True \<lparr>idxmap = [(''node'', [(''web'', new_doc)])], idx_updated = True\<rparr> =
     Ok [(''web'', new_doc)]"
  using search_all_negated [of "\<lparr>idxmap = [(''node'', [(''web'', new_doc)])], idx_updated = True\<rparr>" "''node''"]
  by simp

subsection \<open>Goroutines\<close>

text \<open>
  The indexer beside the stored objects \<open>m\<close>, given by collection and name. The invariant
  below is kept when an object is saved or deleted while no goroutine for this object is
  pending, and by every goroutine that finishes, whatever their order. \<open>Nodes\<close> applies it to
  the nodes of the data store.
\<close>

definition obj_key :: "indexable \<Rightarrow> string \<times> string" where
  "obj_key obj = (IndexName obj, DocID obj)"

definition pending :: "indexer \<Rightarrow> (string \<times> string) set" where
  "pending ix = obj_key ` set (idx_jobs ix)"

definition indexable_ok :: "conf \<Rightarrow> indexable \<Rightarrow> bool" where
  "indexable_ok cfg obj \<longleftrightarrow> (\<exists>ls. object_lines cfg obj ls)"

definition doc_at :: "fileindex \<Rightarrow> string \<times> string \<Rightarrow> idxdoc option" where
  "doc_at i k = map_of (coll i (fst k)) (snd k)"

definition doc_of :: "conf \<Rightarrow> indexable \<Rightarrow> idxdoc \<Rightarrow> bool" where
  "doc_of cfg obj d \<longleftrightarrow> (\<exists>ls. object_lines cfg obj ls \<and> lines_doc ls d)"

text \<open>Every object is either pending once, with its current value, or indexed with its
  current value; what is not stored is neither pending nor indexed.\<close>

definition index_inv :: "conf \<Rightarrow> ((string \<times> string) \<rightharpoonup> indexable) \<times> indexer \<Rightarrow> bool" where
  "index_inv cfg s \<longleftrightarrow> (case s of (m, ix) \<Rightarrow>
     distinct (map obj_key (idx_jobs ix)) \<and>
     (\<forall>obj\<in>set (idx_jobs ix). m (obj_key obj) = Some obj \<and> indexable_ok cfg obj) \<and>
     (\<forall>k. k \<notin> pending ix \<longrightarrow> rel_option (doc_of cfg) (m k) (doc_at (objIndex ix) k)))"

lemma SaveItem_doc_at:
  assumes "indexable_ok cfg obj"
  shows "\<exists>i' d. SaveItem cfg obj i = Ok i' \<and> doc_of cfg obj d \<and> doc_at i' = (doc_at i)(obj_key obj \<mapsto> d)"
proof -
  obtain ls where ls: "object_lines cfg obj ls" using assms by (auto simp: indexable_ok_def)
  obtain i' d where i': "SaveItem cfg obj i = Ok i'" "lines_doc ls d"
    "coll i' (IndexName obj) = aput (DocID obj) d (coll i (IndexName obj))"
    "\<forall>c. c \<noteq> IndexName obj \<longrightarrow> map_of (idxmap i') c = map_of (idxmap i) c"
    using SaveItem_coll [OF ls, of i] by blast
  have "coll i' c = coll i c" if "c \<noteq> IndexName obj" for c using i'(4) that by (simp add: coll_def)
  then have "doc_at i' (c, k) = ((doc_at i)(obj_key obj \<mapsto> d)) (c, k)" for c k
    using i'(3) by (cases "c = IndexName obj") (simp_all add: doc_at_def obj_key_def)
  then have "doc_at i' = (doc_at i)(obj_key obj \<mapsto> d)" by (simp only: fun_eq_iff split_paired_All) simp
  with i'(1,2) ls show ?thesis by (auto simp: doc_of_def)
qed

lemma DeleteItem_doc_at: "doc_at (snd (DeleteItem c d i)) = (doc_at i)((c, d) := None)"
  by (auto simp: DeleteItem_def doc_at_def coll_def delDoc_def Let_def fun_eq_iff split: option.split)

lemma index_inv_save:
  assumes "index_inv cfg (m, ix)" "obj_key obj \<notin> pending ix" "indexable_ok cfg obj"
  shows "index_inv cfg (m(obj_key obj \<mapsto> obj), IndexObj obj ix)"
proof -
  have "obj_key o' \<noteq> obj_key obj" if "o' \<in> set (idx_jobs ix)" for o'
    using assms(2) that unfolding pending_def by (metis image_eqI)
  with assms show ?thesis by (simp add: index_inv_def IndexObj_def pending_def)
qed

lemma index_inv_delete:
  assumes "index_inv cfg (m, ix)" "(c, d) \<notin> pending ix"
  shows "index_inv cfg (m((c, d) := None), snd (DeleteItemFromCollection c d ix))"
proof -
  let ?ix = "snd (DeleteItemFromCollection c d ix)"
  have "objIndex ?ix = snd (DeleteItem c d (objIndex ix))" "idx_jobs ?ix = idx_jobs ix"
    by (simp_all add: DeleteItemFromCollection_def split: prod.split)
  moreover have "obj_key o' \<noteq> (c, d)" if "o' \<in> set (idx_jobs ix)" for o'
    using assms(2) that unfolding pending_def by (metis image_eqI)
  ultimately show ?thesis
    using assms unfolding index_inv_def pending_def by (simp add: DeleteItem_doc_at)
qed

lemma index_inv_run:
  assumes "index_inv cfg (m, ix)" "n < length (idx_jobs ix)"
  shows "\<exists>ix'. run_job cfg n ix = Ok ix' \<and> index_inv cfg (m, ix') \<and>
    length (idx_jobs ix) = Suc (length (idx_jobs ix'))"
proof -
  let ?obj = "idx_jobs ix ! n"
  let ?jobs = "take n (idx_jobs ix) @ drop (Suc n) (idx_jobs ix)"
  have jobs: "idx_jobs ix = take n (idx_jobs ix) @ ?obj # drop (Suc n) (idx_jobs ix)"
    using assms(2) by (rule id_take_nth_drop)
  then have set: "set (idx_jobs ix) = insert ?obj (set ?jobs)"
    by (metis Un_insert_right list.simps(15) set_append)
  have "distinct (map obj_key (idx_jobs ix))" using assms(1) by (simp add: index_inv_def)
  then have "distinct (map obj_key (take n (idx_jobs ix) @ ?obj # drop (Suc n) (idx_jobs ix)))"
    by (simp only: jobs [symmetric])
  then have dist: "distinct (map obj_key ?jobs)" "obj_key ?obj \<notin> obj_key ` set ?jobs" by auto
  have obj: "m (obj_key ?obj) = Some ?obj" "indexable_ok cfg ?obj"
    using assms by (simp_all add: index_inv_def)
  obtain i' d where i': "SaveItem cfg ?obj (objIndex ix) = Ok i'" "doc_of cfg ?obj d"
    "doc_at i' = (doc_at (objIndex ix))(obj_key ?obj \<mapsto> d)"
    using SaveItem_doc_at [OF obj(2)] by blast
  define ix' where "ix' = ix\<lparr>objIndex := i', idx_jobs := ?jobs\<rparr>"
  have "run_job cfg n ix = Ok ix'" by (simp add: run_job_def i'(1) ix'_def)
  moreover have "index_inv cfg (m, ix')"
    using assms(1) dist obj i'(2,3)
    by (auto simp: index_inv_def ix'_def pending_def set)
  moreover have "length (idx_jobs ix) = Suc (length (idx_jobs ix'))"
    using assms(2) by (simp add: ix'_def)
  ultimately show ?thesis by blast
qed

definition new_indexer :: indexer where
  "new_indexer = \<lparr>objIndex = idx_Initialize, idx_jobs = []\<rparr>"

lemma doc_at_new [simp]: "doc_at idx_Initialize k = None"
proof -
  have "idxmap idx_Initialize = [(''client'', []), (''environment'', []), (''node'', []), (''role'', [])]"
    by code_simp
  then show ?thesis by (auto simp: doc_at_def coll_def split: option.split)
qed

lemma index_inv_new: "index_inv cfg (Map.empty, new_indexer)"
  by (simp add: index_inv_def new_indexer_def pending_def)

lemma index_inv_drained:
  "index_inv cfg (m, ix) \<Longrightarrow> idx_jobs ix = [] \<Longrightarrow> rel_option (doc_of cfg) (m k) (doc_at (objIndex ix) k)"
  by (cases k) (simp add: index_inv_def pending_def)

lemma doc_of_accepts:
  assumes "doc_of cfg obj d"
  shows "\<exists>t ls. doc_trie d = Some t \<and> object_lines cfg obj ls \<and> (\<forall>w. valid_utf8 w \<longrightarrow> trie_Accepts t w = (w \<in> set ls))"
proof -
  obtain ls where ls: "object_lines cfg obj ls" "lines_doc ls d" using assms by (auto simp: doc_of_def)
  then obtain t where "doc_trie d = Some t" by (auto simp: lines_doc_def)
  with ls lines_doc_accepts [OF ls] show ?thesis by auto
qed

text \<open>Without that discipline, which the server does not enforce, a goroutine that
  runs after the object was deleted puts its document back: the deleted object stays in
  the index.\<close>

theorem index_race_resurrects:
  assumes "indexable_ok cfg obj"
  shows "\<exists>ix'. run_job cfg 0 (snd (DeleteItemFromCollection (IndexName obj) (DocID obj)
       (IndexObj obj new_indexer))) = Ok ix' \<and>
     idx_jobs ix' = [] \<and> doc_at (objIndex ix') (IndexName obj, DocID obj) \<noteq> None"
proof -
  let ?ix = "snd (DeleteItemFromCollection (IndexName obj) (DocID obj) (IndexObj obj new_indexer))"
  have j: "idx_jobs ?ix = [obj]"
    by (simp add: DeleteItemFromCollection_def IndexObj_def new_indexer_def split: prod.split)
  obtain i' d where "SaveItem cfg obj (objIndex ?ix) = Ok i'"
    "doc_at i' = (doc_at (objIndex ?ix))(obj_key obj \<mapsto> d)"
    using SaveItem_doc_at [OF assms] by blast
  then show ?thesis by (simp add: run_job_def j obj_key_def)
qed

theorem index_race_resurrects_witness:
  "\<exists>ix'. run_job example_conf 0 (snd (DeleteItemFromCollection ''node'' ''web''
       (IndexObj example_obj new_indexer))) = Ok ix' \<and>
     doc_at (objIndex ix') (''node'', ''web'') \<noteq> None"
proof -
  have "indexable_ok example_conf example_obj" using example_obj_lines by (auto simp: indexable_ok_def)
  moreover have "IndexName example_obj = ''node''" "DocID example_obj = ''web''"
    by (simp_all add: example_obj_def)
  ultimately show ?thesis using index_race_resurrects [of example_conf example_obj] by auto
qed

end
