(* ===== verification/Validations.thy ===== *)
theory Validations
  imports Values
begin

text \<open>
  \<^verbatim>\<open>util/validations.go\<close>: the checks applied to names, versions, constraints, run lists,
  attributes, cookbook divisions and cookbook metadata before anything is stored.

  A regular expression is translated to the predicate or the parser it denotes. The
  anchors \<open>^\<close> and \<open>$\<close> match at the ends of the text only (no multi-line flag), a dot does
  not match a newline, and a negated class matches any byte outside it, so the classes
  can be read byte by byte.
\<close>

subsection \<open>Names\<close>

definition ValidateName :: "string \<Rightarrow> bool" where
  "ValidateName name \<longleftrightarrow> list_all (\<lambda>c. is_alnum c \<or> c \<in> set ''_.-'') name"

definition ValidateUserName :: "string \<Rightarrow> bool" where
  "ValidateUserName name \<longleftrightarrow> list_all (\<lambda>c. is_lower c \<or> is_digit c \<or> c \<in> set ''_.-'') name"

definition ValidateDBagName :: "string \<Rightarrow> bool" where
  "ValidateDBagName name \<longleftrightarrow> list_all (\<lambda>c. is_alnum c \<or> c \<in> set ''_.:-'') name"

definition ValidateEnvName :: "string \<Rightarrow> bool" where
  "ValidateEnvName name \<longleftrightarrow> list_all (\<lambda>c. is_alnum c \<or> c \<in> set ''_-'') name"

subsection \<open>Typed fields\<close>

fun ValidateAsString :: "gval \<Rightarrow> string outcome" where
  "ValidateAsString (GStr s) = Ok s"
| "ValidateAsString GNil = Errorf ''Field 'name' missing''"
| "ValidateAsString _ = Errorf ''Field 'name' invalid''"

fun ValidateAsBool :: "gval \<Rightarrow> bool outcome" where
  "ValidateAsBool (GBool b) = Ok b"
| "ValidateAsBool _ = Errorf ''Invalid bool''"

fun ValidateAsFieldString :: "gval \<Rightarrow> string outcome" where
  "ValidateAsFieldString (GStr s) = Ok s"
| "ValidateAsFieldString GNil = Errorf ''Field 'name' nil''"
| "ValidateAsFieldString _ = Errorf ''Field 'name' missing''"

fun ValidateAttributes :: "string \<Rightarrow> gval \<Rightarrow> gobj outcome" where
  "ValidateAttributes key (GMap m) = Ok m"
| "ValidateAttributes key GNil = Ok []"
| "ValidateAttributes key _ = Errorf (''Field '' @ sq key @ '' is not a hash'')"

subsection \<open>Versions and constraints\<close>

text \<open>
  The submatches 1, 2 and 4 of \<^verbatim>\<open>^(\d+)\.(\d+)(\.?)(\d+)?$\<close>. Submatch 2 is greedy, so
  submatch 4 is empty unless there is a second dot.
\<close>

definition version_groups :: "string \<Rightarrow> (string \<times> string \<times> string) option" where
  "version_groups s =
     (case split_on CHR ''.'' s of
        [a, b] \<Rightarrow> (if a \<noteq> [] \<and> b \<noteq> [] \<and> is_digits a \<and> is_digits b then Some (a, b, []) else None)
      | [a, b, c] \<Rightarrow>
          (if a \<noteq> [] \<and> b \<noteq> [] \<and> is_digits a \<and> is_digits b \<and> is_digits c
           then Some (a, b, c) else None)
      | _ \<Rightarrow> None)"

definition parse_int_error :: "string \<Rightarrow> num_error \<Rightarrow> string" where
  "parse_int_error s e =
     ''strconv.ParseInt: parsing '' @ [CHR 0x22] @ s @ [CHR 0x22] @ '': '' @ num_error_text e"

text \<open>The loop over the submatches 1, 2, 4; it stops at an empty fourth one.\<close>

fun check_version_nums :: "string list \<Rightarrow> unit outcome" where
  "check_version_nums [] = Ok ()"
| "check_version_nums (g # gs) =
     (if g = [] \<and> gs = [] then Ok ()
      else (case ParseInt10 g of
              (v, Some e) \<Rightarrow> Errorf (parse_int_error g e)
            | (v, None) \<Rightarrow>
                (if v < 0 then Errorf ''Invalid version number'' else check_version_nums gs)))"

fun ValidateAsVersion :: "gval \<Rightarrow> string outcome" where
  "ValidateAsVersion (GStr ver) =
     (case version_groups ver of
        Some (a, b, c) \<Rightarrow>
          (if ver \<noteq> ''0.0'' then outcome_bind (check_version_nums [a, b, c]) (\<lambda>_. Ok ver)
           else Errorf ''Invalid version number'')
      | None \<Rightarrow> Errorf ''Invalid version number'')"
| "ValidateAsVersion GNil = Ok ''0.0.0''"
| "ValidateAsVersion _ = Errorf ''Invalid version number''"

text \<open>
  Submatch 2 of \<^verbatim>\<open>^([<>=~]{1,2}) (.*)\<close>. The operator is greedy but must be followed by a
  blank, so it is the whole run of operator characters. The expression has no closing
  anchor: what follows a newline is ignored.
\<close>

definition is_op_char :: "char \<Rightarrow> bool" where
  "is_op_char c \<longleftrightarrow> c \<in> set ''<>=~''"

definition constraint_version :: "string \<Rightarrow> string option" where
  "constraint_version s =
     (let ops = takeWhile is_op_char s; rest = dropWhile is_op_char s
      in if 1 \<le> length ops \<and> length ops \<le> 2 \<and> rest \<noteq> [] \<and> hd rest = CHR '' ''
         then Some (takeWhile (\<lambda>c. c \<noteq> CHR 0x0A) (tl rest)) else None)"

fun ValidateAsConstraint :: "gval \<Rightarrow> bool outcome" where
  "ValidateAsConstraint (GStr t) =
     (case constraint_version t of
        Some ver \<Rightarrow> outcome_bind (ValidateAsVersion (GStr ver)) (\<lambda>_. Ok True)
      | None \<Rightarrow> Errorf ''Invalid constraint'')"
| "ValidateAsConstraint _ = Errorf ''Invalid constraint''"

text \<open>
  \<open>ValidateNumVersions\<close>; the parameter \<open>quote\<close> is \<open>strconv.Quote\<close>, used in the text of
  the error of \<open>strconv.Atoi\<close>.
\<close>

definition ValidateNumVersions :: "(string \<Rightarrow> string) \<Rightarrow> string \<Rightarrow> unit outcome" where
  "ValidateNumVersions quote nr =
     (if nr \<noteq> ''all'' \<and> nr \<noteq> [] then
        (if \<not> is_digit (hd nr) then Errorf ''Invalid num_versions''
         else (case Atoi nr of
                 (n, Some e) \<Rightarrow>
                   Errorf (''strconv.Atoi: parsing '' @ quote nr @ '': '' @ num_error_text e)
               | (n, None) \<Rightarrow> (if n < 0 then Errorf ''Invalid num_versions'' else Ok ())))
      else if nr = [] then Errorf ''Invalid num_versions''
      else Ok ())"

subsection \<open>Run lists\<close>

definition validateRoleName :: "string \<Rightarrow> bool" where
  "validateRoleName name \<longleftrightarrow> list_all (\<lambda>c. is_alnum c \<or> c \<in> set ''_-'') name"

text \<open>The expression \<^verbatim>\<open>^\d+\.\d+(\.\d+)?$\<close>.\<close>

definition recipe_version_ok :: "string \<Rightarrow> bool" where
  "recipe_version_ok v \<longleftrightarrow>
     (let ps = split_on CHR ''.'' v
      in (length ps = 2 \<or> length ps = 3) \<and> list_all (\<lambda>p. p \<noteq> [] \<and> is_digits p) ps)"

definition validateRecipeName :: "string \<Rightarrow> bool" where
  "validateRecipeName name \<longleftrightarrow>
     list_all (\<lambda>c. is_alnum c \<or> c \<in> set ''_@.:-'') name \<and>
     (CHR ''@'' \<in> set name \<longrightarrow> recipe_version_ok (split_on CHR ''@'' name ! 1))"

text \<open>The submatches of \<^verbatim>\<open>^(\w+)\[(.*?)\]$\<close>.\<close>

definition rl_groups :: "string \<Rightarrow> (string \<times> string) option" where
  "rl_groups item =
     (let w = takeWhile is_word item; rest = dropWhile is_word item
      in if w \<noteq> [] \<and> 2 \<le> length rest \<and> hd rest = CHR ''['' \<and> last rest = CHR '']'' \<and>
            CHR 0x0A \<notin> set (butlast (tl rest))
         then Some (w, butlast (tl rest)) else None)"

definition rl_error :: "'a outcome" where
  "rl_error = Errorf ''Field 'run_list' is not a valid run list''"

definition validateRLItem :: "string \<Rightarrow> string outcome" where
  "validateRLItem item =
     (if item = [] then rl_error
      else if \<not> list_all (\<lambda>c. is_alnum c \<or> c \<in> set ''_[]@.:-'') item then rl_error
      else (case rl_groups item of
              Some (rlType, rlItem) \<Rightarrow>
                (if rlType = ''role'' then
                   (if \<not> validateRoleName rlItem then rl_error else Ok item)
                 else if rlType = ''recipe'' then
                   (if \<not> validateRecipeName rlItem then rl_error else Ok item)
                 else rl_error)
            | None \<Rightarrow>
                (if validateRecipeName item then Ok (''recipe['' @ item @ '']'') else rl_error)))"

fun validate_rl_items :: "string list \<Rightarrow> string list outcome" where
  "validate_rl_items [] = Ok []"
| "validate_rl_items (r # rl) =
     (case validateRLItem r of
        Ok j \<Rightarrow> (if j = [] then rl_error
                 else outcome_bind (validate_rl_items rl) (\<lambda>js. Ok (j # js)))
      | Err e \<Rightarrow> Err e
      | Panic \<Rightarrow> Panic)"

text \<open>The loop that removes duplicates, with the set \<open>found\<close> of the items already kept.\<close>

fun dedup_loop :: "string list \<Rightarrow> string list \<Rightarrow> string list" where
  "dedup_loop found [] = []"
| "dedup_loop found (u # rl) =
     (if u \<in> set found then dedup_loop found rl else u # dedup_loop (u # found) rl)"

fun ValidateRunList :: "gval \<Rightarrow> string list outcome" where
  "ValidateRunList (GStrs rl) = outcome_bind (validate_rl_items rl) (\<lambda>js. Ok (dedup_loop [] js))"
| "ValidateRunList GNil = Ok []"
| "ValidateRunList _ = Errorf ''Not a proper runlist []string''"

subsection \<open>Cookbook divisions and metadata\<close>

text \<open>
  \<open>ValidateCookbookDivision\<close>. The parameter \<open>file_url\<close> is the file backend: \<open>Some\<close> of the
  download URL when a file with the checksum has been uploaded, \<open>None\<close> when not. An entry
  whose checksum is not a string is not an error: it is left out of the result.
\<close>

fun division_loop :: "(string \<Rightarrow> string option) \<Rightarrow> string \<Rightarrow> gval list \<Rightarrow> gobj list outcome" where
  "division_loop file_url dname [] = Ok []"
| "division_loop file_url dname (GMap v # dv) =
     (if length v < 4 then Errorf (''Invalid element in array value of '' @ sq dname @ ''.'')
      else (case ValidateAsString (gget v ''checksum'') of
              Ok chksum \<Rightarrow>
                (case file_url chksum of
                   None \<Rightarrow>
                     (if dname = ''recipes''
                      then Errorf ''Manifest has a checksum that hasn't been uploaded.''
                      else Errorf (''Manifest has checksum '' @ chksum @
                             '' but it hasn't yet been uploaded''))
                 | Some itemURL \<Rightarrow>
                     outcome_bind (division_loop file_url dname dv)
                       (\<lambda>d. Ok (aput ''url'' (GStr itemURL) v # d)))
            | _ \<Rightarrow> division_loop file_url dname dv))"
| "division_loop file_url dname (_ # dv) =
     Errorf (''Invalid element in array value of '' @ sq dname @ ''.'')"

fun ValidateCookbookDivision ::
  "(string \<Rightarrow> string option) \<Rightarrow> string \<Rightarrow> gval \<Rightarrow> gobj list outcome" where
  "ValidateCookbookDivision file_url dname (GArr dv) = division_loop file_url dname dv"
| "ValidateCookbookDivision file_url dname GNil = Ok []"
| "ValidateCookbookDivision file_url dname _ = Errorf (''Field '' @ sq dname @ '' invalid'')"

definition metadata_invalid :: "string \<Rightarrow> 'a outcome" where
  "metadata_invalid v = Errorf (''Field '' @ sq (''metadata.'' @ v) @ '' invalid'')"

definition strchk :: "string list" where
  "strchk = [''maintainer'', ''name'', ''description'', ''maintainer_email'',
             ''long_description'', ''license'']"

definition hashchk :: "string list" where
  "hashchk = [''platforms'', ''dependencies'', ''recommendations'', ''suggestions'',
              ''conflicting'', ''replacing'', ''groupings'']"

fun metadata_strchk :: "string list \<Rightarrow> gobj \<Rightarrow> gobj outcome" where
  "metadata_strchk [] mdata = Ok mdata"
| "metadata_strchk (v # vs) mdata =
     (case gget mdata v of
        GStr sv \<Rightarrow> (if v = ''name'' \<and> \<not> ValidateName sv then metadata_invalid v
                    else metadata_strchk vs mdata)
      | GNil \<Rightarrow> metadata_strchk vs
                  (if v = ''long_description'' then aput v (GStr []) mdata else mdata)
      | _ \<Rightarrow> metadata_invalid v)"

definition metadata_bad_value :: "string \<Rightarrow> string \<Rightarrow> 'a outcome" where
  "metadata_bad_value s v = Errorf (''Invalid value '' @ sq s @ '' for metadata.'' @ v)"

text \<open>The inner loop over one hash; the parameter \<open>fmt_v\<close> is \<open>fmt.Sprintf("%v", _)\<close>.\<close>

fun metadata_entries :: "(gval \<Rightarrow> string) \<Rightarrow> string \<Rightarrow> gobj \<Rightarrow> unit outcome" where
  "metadata_entries fmt_v v [] = Ok ()"
| "metadata_entries fmt_v v ((k, j) # hv) =
     (case j of
        GStr s \<Rightarrow>
          (if is_ok (ValidateAsConstraint (GStr s)) \<or> is_ok (ValidateAsVersion (GStr s))
           then metadata_entries fmt_v v hv else metadata_bad_value s v)
      | GMap _ \<Rightarrow>
          (if v \<noteq> ''groupings'' then metadata_bad_value ''{[]}'' v
           else metadata_entries fmt_v v hv)
      | _ \<Rightarrow> metadata_bad_value (if fmt_v j = ''map[]'' then ''{[]}'' else fmt_v j) v)"

fun metadata_hashchk :: "(gval \<Rightarrow> string) \<Rightarrow> string list \<Rightarrow> gobj \<Rightarrow> gobj outcome" where
  "metadata_hashchk fmt_v [] mdata = Ok mdata"
| "metadata_hashchk fmt_v (v # vs) mdata =
     (case gget mdata v of
        GMap hv \<Rightarrow>
          outcome_bind (metadata_entries fmt_v v hv) (\<lambda>_. metadata_hashchk fmt_v vs mdata)
      | GNil \<Rightarrow> metadata_hashchk fmt_v vs
                  (if v = ''dependencies'' then aput v (GMap []) mdata else mdata)
      | _ \<Rightarrow> metadata_invalid v)"

definition metadata_version_check :: "gobj \<Rightarrow> unit outcome" where
  "metadata_version_check mdata =
     (case map_of mdata ''version'' of
        Some (GStr mv) \<Rightarrow>
          (if is_ok (ValidateAsVersion (GStr mv)) then Ok () else metadata_invalid ''version'')
      | Some GNil \<Rightarrow> Ok ()
      | Some _ \<Rightarrow> metadata_invalid ''version''
      | None \<Rightarrow> Errorf ''Field 'metadata.version' missing'')"

fun ValidateCookbookMetadata :: "(gval \<Rightarrow> string) \<Rightarrow> gval \<Rightarrow> gobj outcome" where
  "ValidateCookbookMetadata fmt_v (GMap mdata) =
     (if mdata = [] then Errorf ''Field 'metadata.version' missing''
      else outcome_bind (metadata_version_check mdata) (\<lambda>_.
           outcome_bind (metadata_strchk strchk mdata) (\<lambda>mdata'.
           metadata_hashchk fmt_v hashchk mdata')))"
| "ValidateCookbookMetadata fmt_v _ = Errorf ''bad metadata: chng msg''"

subsection \<open>Administrator and validator flags\<close>

definition bool_field :: "gobj \<Rightarrow> string \<Rightarrow> bool" where
  "bool_field m k \<longleftrightarrow> ghas m k \<and> ValidateAsBool (gget m k) = Ok True"

definition CheckAdminPlusValidator :: "gobj \<Rightarrow> unit outcome" where
  "CheckAdminPlusValidator jsonActor =
     (if bool_field jsonActor ''admin'' \<and> bool_field jsonActor ''validator''
      then ErrorS ''Client can be either an admin or a validator, but not both.'' StatusBadRequest
      else Ok ())"

subsection \<open>Versions: what is accepted\<close>

text \<open>The validators never panic.\<close>

lemma check_version_nums_no_panic [simp]: "check_version_nums gs \<noteq> Panic"
  by (induction gs) (auto split: prod.splits option.splits)

lemma check_version_nums_3_no_panic: "check_version_nums [a, b, c] \<noteq> Panic"
  by (rule check_version_nums_no_panic)

declare check_version_nums.simps [simp del]

lemma ValidateAsVersion_no_panic [simp]: "ValidateAsVersion v \<noteq> Panic"
  by (cases v) (auto simp: outcome_simps split: option.splits)

lemma ValidateAsConstraint_no_panic [simp]: "ValidateAsConstraint v \<noteq> Panic"
  by (cases v) (auto simp: outcome_simps split: option.splits)

lemma ValidateAsVersion_value: "ValidateAsVersion (GStr v) = Ok w \<Longrightarrow> w = v"
  by (auto simp: outcome_simps split: option.splits if_splits)

lemma parse_digits_ok:
  assumes "is_digits g" "g \<noteq> []"
  shows "snd (ParseInt10 g) = None \<longleftrightarrow> digits_val 10 g < 2 ^ 63"
    and "snd (ParseInt10 g) = None \<Longrightarrow> 0 \<le> fst (ParseInt10 g)"
  using ParseInt10_digits [OF assms] by auto

lemma check_version_nums_ok:
  assumes "is_digits a" "is_digits b" "is_digits c" "a \<noteq> []" "b \<noteq> []"
  shows "check_version_nums [a, b, c] = Ok () \<longleftrightarrow>
    digits_val 10 a < 2 ^ 63 \<and> digits_val 10 b < 2 ^ 63 \<and> digits_val 10 c < 2 ^ 63"
proof -
  have one: "(case ParseInt10 g of (v, Some e) \<Rightarrow> Errorf (parse_int_error g e)
      | (v, None) \<Rightarrow> if v < 0 then Errorf ''Invalid version number'' else r) =
      (if digits_val 10 g < 2 ^ 63 then r else Errorf (parse_int_error g ErrRange))"
    if "is_digits g" "g \<noteq> []" for g and r :: "unit outcome"
    using ParseInt10_digits [OF that] by simp
  have "digits_val 10 [] = 0" by (simp add: digits_val_def)
  then show ?thesis
    using assms by (cases "c = []") (simp_all add: one check_version_nums.simps)
qed

lemma version_groups_digits:
  "version_groups v = Some (a, b, c) \<Longrightarrow>
   is_digits a \<and> is_digits b \<and> is_digits c \<and> a \<noteq> [] \<and> b \<noteq> []"
  by (auto simp: version_groups_def is_digits_def split: list.splits if_splits)

lemma ValidateAsVersion_GStr:
  "ValidateAsVersion (GStr v) = Ok w \<longleftrightarrow>
     w = v \<and> v \<noteq> ''0.0'' \<and>
     (\<exists>a b c. version_groups v = Some (a, b, c) \<and>
        digits_val 10 a < 2 ^ 63 \<and> digits_val 10 b < 2 ^ 63 \<and> digits_val 10 c < 2 ^ 63)"
proof (cases "version_groups v")
  case None
  then show ?thesis by simp
next
  case (Some g)
  obtain a b c where g: "g = (a, b, c)" by (cases g) auto
  have *: "is_digits a" "is_digits b" "is_digits c" "a \<noteq> []" "b \<noteq> []"
    using version_groups_digits [of v a b c] Some g by simp_all
  show ?thesis
    using Some g check_version_nums_ok [OF *]
    by (cases "check_version_nums [a, b, c]") auto
qed

text \<open>The printed form of a version with numbers below \<open>2^63\<close> is accepted.\<close>

definition print_version :: "nat \<Rightarrow> nat \<Rightarrow> nat \<Rightarrow> string" where
  "print_version a b c =
     join_with ''.'' [string_of_nat a, string_of_nat b, string_of_nat c]"

lemma split_print_version [simp]:
  "split_on CHR ''.'' (print_version a b c) = [string_of_nat a, string_of_nat b, string_of_nat c]"
  unfolding print_version_def by (rule split_join) simp_all

lemma version_groups_print [simp]:
  "version_groups (print_version a b c) = Some (string_of_nat a, string_of_nat b, string_of_nat c)"
  by (simp add: version_groups_def)

lemma print_version_ne_00: "print_version a b c \<noteq> ''0.0''"
proof
  assume "print_version a b c = ''0.0''"
  then have "length (split_on CHR ''.'' ''0.0'') = 3" by (metis split_print_version length_Cons list.size(3) numeral_3_eq_3)
  then show False by simp
qed

lemma ValidateAsVersion_print:
  "a < 2 ^ 63 \<Longrightarrow> b < 2 ^ 63 \<Longrightarrow> c < 2 ^ 63 \<Longrightarrow>
   ValidateAsVersion (GStr (print_version a b c)) = Ok (print_version a b c)"
  by (simp only: ValidateAsVersion_GStr) (simp add: print_version_ne_00)

subsection \<open>Run lists: normal form\<close>

lemma rl_groups_SomeD:
  assumes "rl_groups x = Some (w, r)"
  shows "x = w @ ''['' @ r @ '']''" and "w \<noteq> []"
proof -
  let ?rest = "dropWhile is_word x"
  have w: "w = takeWhile is_word x" "w \<noteq> []" and r: "2 \<le> length ?rest" "hd ?rest = CHR ''[''"
    "last ?rest = CHR '']''" "r = butlast (tl ?rest)"
    using assms by (auto simp: rl_groups_def Let_def split: if_splits)
  from r(1) obtain c cs where rest: "?rest = c # cs" and "cs \<noteq> []"
    by (cases ?rest) (auto simp: Suc_le_eq)
  with r have "?rest = ''['' @ r @ '']''"
    by (simp, metis append_butlast_last_id)
  then show "x = w @ ''['' @ r @ '']''"
    using w(1) by (metis takeWhile_dropWhile_id)
  show "w \<noteq> []" by (rule w(2))
qed

lemma takeWhile_word_bracket: "list_all is_word w \<Longrightarrow> takeWhile is_word (w @ CHR ''['' # r) = w"
  by (induction w) (auto simp: is_word_def is_alnum_def is_upper_def is_lower_def is_digit_def
      less_eq_char_def)

lemma dropWhile_word_bracket:
  "list_all is_word w \<Longrightarrow> dropWhile is_word (w @ CHR ''['' # r) = CHR ''['' # r"
  by (induction w) (auto simp: is_word_def is_alnum_def is_upper_def is_lower_def is_digit_def
      less_eq_char_def)

lemma rl_groups_bracket:
  "list_all is_word w \<Longrightarrow> w \<noteq> [] \<Longrightarrow> CHR 0x0A \<notin> set r \<Longrightarrow>
   rl_groups (w @ CHR ''['' # r @ '']'') = Some (w, r)"
  by (simp add: rl_groups_def Let_def takeWhile_word_bracket dropWhile_word_bracket butlast_append)

lemma recipe_prefix_word: "list_all is_word ''recipe''"
  by (simp add: is_word_def is_alnum_def is_lower_def less_eq_char_def)

lemma recipe_chars_no_newline: "validateRecipeName n \<Longrightarrow> CHR 0x0A \<notin> set n"
  by (auto simp: validateRecipeName_def list_all_iff is_alnum_def is_upper_def is_lower_def
      is_digit_def less_eq_char_def)

lemma rl_groups_recipe:
  "validateRecipeName n \<Longrightarrow> rl_groups (''recipe['' @ n @ '']'') = Some (''recipe'', n)"
  using rl_groups_bracket [OF recipe_prefix_word _ recipe_chars_no_newline, of n] by simp

lemma validateRLItem_recipe:
  assumes "validateRecipeName n"
  shows "validateRLItem (''recipe['' @ n @ '']'') = Ok (''recipe['' @ n @ '']'')"
proof -
  have "list_all (\<lambda>c. is_alnum c \<or> c \<in> set ''_[]@.:-'') (''recipe['' @ n @ '']'')"
    using assms unfolding validateRecipeName_def
    by (auto simp: list_all_iff is_alnum_def is_lower_def less_eq_char_def)
  with rl_groups_recipe [OF assms] assms show ?thesis
    by (simp add: validateRLItem_def)
qed

text \<open>What an accepted run list item looks like, and that it is a fixed point.\<close>

lemma validateRLItem_OkD:
  assumes "validateRLItem x = Ok y"
  shows "(\<exists>n. y = ''recipe['' @ n @ '']'' \<and> validateRecipeName n) \<or>
         (\<exists>n. y = ''role['' @ n @ '']'' \<and> validateRoleName n)"
  using assms rl_groups_SomeD [of x]
  by (fastforce simp: validateRLItem_def rl_error_def split: if_splits option.splits)

lemma validateRLItem_cases:
  assumes "validateRLItem x = Ok y"
  shows "y = x \<or> (y = ''recipe['' @ x @ '']'' \<and> validateRecipeName x)"
  using assms
  by (auto simp: validateRLItem_def rl_error_def split: if_splits option.splits)

lemma validateRLItem_idem: "validateRLItem x = Ok y \<Longrightarrow> validateRLItem y = Ok y"
  using validateRLItem_cases [of x y] validateRLItem_recipe [of x] by metis

lemma validate_rl_items_Ok:
  "validate_rl_items rl = Ok js \<longleftrightarrow> list_all2 (\<lambda>r j. validateRLItem r = Ok j \<and> j \<noteq> []) rl js"
proof (induction rl arbitrary: js)
  case Nil
  then show ?case by auto
next
  case (Cons r rl)
  then show ?case
    by (auto simp: outcome_simps rl_error_def list_all2_Cons1 split: outcome.splits)
qed

lemma set_dedup_loop: "set (dedup_loop found rl) = set rl - set found"
  by (induction found rl rule: dedup_loop.induct) auto

lemma distinct_dedup_loop: "distinct (dedup_loop found rl)"
  by (induction found rl rule: dedup_loop.induct) (auto simp: set_dedup_loop)

lemma dedup_loop_id: "distinct rl \<Longrightarrow> set rl \<inter> set found = {} \<Longrightarrow> dedup_loop found rl = rl"
  by (induction found rl rule: dedup_loop.induct) auto

lemma ValidateRunList_idem: "ValidateRunList v = Ok out \<Longrightarrow> ValidateRunList (GStrs out) = Ok out"
proof (cases v)
  case (GStrs rl)
  assume "ValidateRunList v = Ok out"
  then obtain js where js: "list_all2 (\<lambda>r j. validateRLItem r = Ok j \<and> j \<noteq> []) rl js"
    and out: "out = dedup_loop [] js"
    using GStrs by (auto simp: outcome_simps validate_rl_items_Ok)
  have "\<forall>j\<in>set js. \<exists>r. validateRLItem r = Ok j \<and> j \<noteq> []"
    using js by (induction rule: list_all2_induct) auto
  then have "list_all2 (\<lambda>r j. validateRLItem r = Ok j \<and> j \<noteq> []) out out"
    using validateRLItem_idem by (fastforce simp: list_all2_same out set_dedup_loop)
  then have "validate_rl_items out = Ok out" by (simp add: validate_rl_items_Ok)
  then show ?thesis by (simp add: dedup_loop_id distinct_dedup_loop out)
qed auto

lemma ValidateRunList_no_panic [simp]: "ValidateRunList v \<noteq> Panic"
proof -
  have "validateRLItem x \<noteq> Panic" for x
    by (simp add: validateRLItem_def rl_error_def split: option.split)
  then have "validate_rl_items rl \<noteq> Panic" for rl
    by (induction rl) (auto simp: rl_error_def outcome_bind_Panic_iff split: outcome.splits)
  then show ?thesis by (cases v) (auto simp: outcome_bind_Panic_iff)
qed

text \<open>\<^bold>\<open>C11\<close>. \<open>ValidateRunList\<close> normalises a run list: the result has no duplicates, holds exactly
  the normal forms of the given items, every item is \<open>recipe[n]\<close> or \<open>role[n]\<close> with a valid
  name, and validating the result again changes nothing.\<close>

theorem run_list_normal_form:
  assumes "ValidateRunList (GStrs rl) = Ok out"
  shows "distinct out \<and>
    set out = {j. \<exists>r\<in>set rl. validateRLItem r = Ok j} \<and>
    (\<forall>j\<in>set out. (\<exists>n. j = ''recipe['' @ n @ '']'' \<and> validateRecipeName n) \<or>
                      (\<exists>n. j = ''role['' @ n @ '']'' \<and> validateRoleName n)) \<and>
    ValidateRunList (GStrs out) = Ok out"
proof -
  obtain js where js: "list_all2 (\<lambda>r j. validateRLItem r = Ok j \<and> j \<noteq> []) rl js"
    and out: "out = dedup_loop [] js"
    using assms by (auto simp: outcome_simps validate_rl_items_Ok)
  have d: "distinct out" by (simp add: out distinct_dedup_loop)
  have set_out: "set out = set js" by (simp add: out set_dedup_loop)
  have s: "set out = {j. \<exists>r\<in>set rl. validateRLItem r = Ok j}"
    using js unfolding set_out by (induction rule: list_all2_induct) auto
  have items: "\<forall>j\<in>set js. \<exists>r. validateRLItem r = Ok j \<and> j \<noteq> []"
    using js by (induction rule: list_all2_induct) auto
  have form: "\<forall>j\<in>set out. (\<exists>n. j = ''recipe['' @ n @ '']'' \<and> validateRecipeName n) \<or>
      (\<exists>n. j = ''role['' @ n @ '']'' \<and> validateRoleName n)"
    using items validateRLItem_OkD unfolding set_out by blast
  with d s show ?thesis using ValidateRunList_idem [OF assms] by blast
qed

theorem run_list_normal_form_witness:
  "distinct [''recipe[a]'', ''role[b]''] \<and>
   ValidateRunList (GStrs [''recipe[a]'', ''role[b]'']) = Ok [''recipe[a]'', ''role[b]'']"
proof -
  have "ValidateRunList (GStrs [''a'', ''role[b]'', ''recipe[a]'']) = Ok [''recipe[a]'', ''role[b]'']"
    by code_simp
  from run_list_normal_form [OF this] show ?thesis by blast
qed

subsection \<open>Metadata: what the dependency resolver may rely on\<close>

definition dep_value_ok :: "gval \<Rightarrow> bool" where
  "dep_value_ok j \<longleftrightarrow>
     (\<exists>s. j = GStr s \<and> (is_ok (ValidateAsConstraint (GStr s)) \<or> is_ok (ValidateAsVersion (GStr s))))"

lemma metadata_entries_ok:
  "metadata_entries fmt_v v hv = Ok () \<Longrightarrow> v \<noteq> ''groupings'' \<Longrightarrow> \<forall>(k, j)\<in>set hv. dep_value_ok j"
proof (induction fmt_v v hv rule: metadata_entries.induct)
  case (1 fmt_v v)
  then show ?case by simp
next
  case (2 fmt_v v k j hv)
  then show ?case
    by (cases j) (auto simp: dep_value_ok_def metadata_bad_value_def simp del: ValidateAsConstraint.simps
        ValidateAsVersion.simps split: if_splits)
qed

definition hash_field_ok :: "(gval \<Rightarrow> string) \<Rightarrow> gobj \<Rightarrow> string \<Rightarrow> bool" where
  "hash_field_ok fmt_v m v \<longleftrightarrow>
     (\<exists>hv. gget m v = GMap hv \<and> metadata_entries fmt_v v hv = Ok ()) \<or>
     (gget m v = GNil \<and> v \<noteq> ''dependencies'')"

lemma metadata_hashchk_ok:
  "metadata_hashchk fmt_v vs m = Ok m' \<Longrightarrow>
   (\<forall>v. hash_field_ok fmt_v m v \<longrightarrow> hash_field_ok fmt_v m' v) \<and>
   (\<forall>v\<in>set vs. hash_field_ok fmt_v m' v)"
proof (induction fmt_v vs m rule: metadata_hashchk.induct)
  case (1 fmt_v m)
  then show ?case by simp
next
  case (2 fmt_v v vs m)
  let ?m = "if v = ''dependencies'' then aput v (GMap []) m else m"
  consider hv where "gget m v = GMap hv" | "gget m v = GNil"
    using 2(3) by (cases "gget m v") (auto simp: metadata_invalid_def)
  then show ?case
  proof cases
    case 1
    with 2(3) have e: "metadata_entries fmt_v v hv = Ok ()" "metadata_hashchk fmt_v vs m = Ok m'"
      by (auto simp: outcome_simps)
    with 1 have "hash_field_ok fmt_v m v" by (simp add: hash_field_ok_def)
    with "2.IH"(2) [OF 1 e(2)] show ?thesis by auto
  next
    case 2
    with "2.prems" have m: "metadata_hashchk fmt_v vs ?m = Ok m'" by simp
    have "hash_field_ok fmt_v ?m v"
      using 2 by (simp add: hash_field_ok_def)
    moreover have "hash_field_ok fmt_v m u \<longrightarrow> hash_field_ok fmt_v ?m u" for u
      using 2 by (auto simp: hash_field_ok_def)
    ultimately show ?thesis using "2.IH"(1) [OF 2 m] by auto
  qed
qed

text \<open>Metadata that passes \<open>ValidateCookbookMetadata\<close> always has a \<open>dependencies\<close> hash, and
  every value in it is a string that is a valid constraint or a valid version. This is
  what the two unchecked type assertions of \<open>getDependencies\<close> rely on.\<close>

theorem metadata_dependencies_sound:
  assumes "ValidateCookbookMetadata fmt_v mdata = Ok m"
  shows "\<exists>deps. gget m ''dependencies'' = GMap deps \<and> (\<forall>(k, j)\<in>set deps. dep_value_ok j)"
proof -
  obtain md m0 where "mdata = GMap md" and h: "metadata_hashchk fmt_v hashchk m0 = Ok m"
    using assms by (cases mdata) (auto simp: outcome_simps split: if_splits)
  have "''dependencies'' \<in> set hashchk" by (simp add: hashchk_def)
  with metadata_hashchk_ok [OF h] have "hash_field_ok fmt_v m ''dependencies''" by blast
  then show ?thesis
    using metadata_entries_ok [of fmt_v "''dependencies''"] by (auto simp: hash_field_ok_def)
qed

theorem metadata_dependencies_sound_witness:
  "\<exists>deps. gget [(''version'', GStr ''1.0.0''), (''dependencies'', GMap [(''apt'', GStr ''>= 1.2.3'')]),
                (''long_description'', GStr [])] ''dependencies'' = GMap deps \<and>
     (\<forall>(k, j)\<in>set deps. dep_value_ok j)"
proof -
  note eval = ValidateAsVersion_GStr version_groups_def is_digits_def is_digit_of_char
    digits_val_def digit_val_def
  have v1: "ValidateAsVersion (GStr ''1.0.0'') = Ok ''1.0.0''"
    and v2: "ValidateAsVersion (GStr ''1.2.3'') = Ok ''1.2.3''"
    by (simp_all add: eval del: ValidateAsVersion.simps)
  have "ValidateCookbookMetadata (\<lambda>_. []) (GMap [(''version'', GStr ''1.0.0''),
      (''dependencies'', GMap [(''apt'', GStr ''>= 1.2.3'')])]) =
    Ok [(''version'', GStr ''1.0.0''), (''dependencies'', GMap [(''apt'', GStr ''>= 1.2.3'')]),
        (''long_description'', GStr [])]"
    by (simp add: metadata_version_check_def strchk_def hashchk_def gget_def
        constraint_version_def is_op_char_def v1 v2 del: ValidateAsVersion.simps)
  from metadata_dependencies_sound [OF this] show ?thesis .
qed

end
