(* ===== verification/Objects.thy ===== *)
theory Objects
  imports DataStore Index Validations "HOL-Library.Word"
begin

text \<open>
  The objects the server keeps and its state. Every struct of the sources is a record
  with the struct's fields, prefixed by a short name of the type since field names are
  global here; fields only the SQL code uses (database ids) are left out. An instant of
  time is an integer. \<open>dsval\<close> is the union of what the data store holds, and \<open>gob_codec\<close>
  is what the encoding of the store keeps of a value: unexported fields are lost unless
  the type brings its own encoder, as \<open>Client\<close> and \<open>User\<close> do.

  The state of the server is the data store and the indexer. The model is of the server
  without an SQL database and without an external secret store.
\<close>

record client =
  cl_Name :: string
  cl_NodeName :: string
  cl_JSONClass :: string
  cl_ChefType :: string
  cl_Validator :: bool
  cl_Orgname :: string
  cl_pubKey :: string
  cl_Admin :: bool
  cl_Certificate :: string

record user =
  us_Username :: string
  us_Name :: string
  us_Email :: string
  us_Admin :: bool
  us_pubKey :: string
  us_passwd :: string
  us_salt :: string

record node =
  nd_Name :: string
  nd_ChefEnvironment :: string
  nd_RunList :: "string list"
  nd_JSONClass :: string
  nd_ChefType :: string
  nd_Automatic :: gobj
  nd_Normal :: gobj
  nd_Default :: gobj
  nd_Override :: gobj
  nd_isDown :: bool

record node_status =
  ns_Node :: node
  ns_Status :: string
  ns_UpdatedAt :: int

record role =
  ro_Name :: string
  ro_ChefType :: string
  ro_JSONClass :: string
  ro_RunList :: "string list"
  ro_EnvRunLists :: "(string \<times> string list) list"
  ro_Description :: string
  ro_Default :: gobj
  ro_Override :: gobj

record chef_environment =
  en_Name :: string
  en_ChefType :: string
  en_JSONClass :: string
  en_Description :: string
  en_Default :: gobj
  en_Override :: gobj
  en_CookbookVersions :: "(string \<times> string) list"

record databag_item =
  di_Name :: string
  di_ChefType :: string
  di_JSONClass :: string
  di_DataBagName :: string
  di_RawData :: gobj

record databag =
  db_Name :: string
  db_DataBagItems :: "(string \<times> databag_item) list"

record cookbook_version =
  cv_CookbookName :: string
  cv_Name :: string
  cv_Version :: string
  cv_ChefType :: string
  cv_JSONClass :: string
  cv_Definitions :: "gobj list"
  cv_Libraries :: "gobj list"
  cv_Attributes :: "gobj list"
  cv_Recipes :: "gobj list"
  cv_Providers :: "gobj list"
  cv_Resources :: "gobj list"
  cv_Templates :: "gobj list"
  cv_RootFiles :: "gobj list"
  cv_Files :: "gobj list"
  cv_IsFrozen :: bool
  cv_Metadata :: gobj

record cookbook =
  cb_Name :: string
  cb_Versions :: "(string \<times> cookbook_version) list"
  cb_latest :: "cookbook_version option"
  cb_numVersions :: "nat option"

record filestore =
  fs_Chksum :: string
  fs_Data :: string

record sandbox =
  sb_ID :: string
  sb_CreationTime :: int
  sb_Completed :: bool
  sb_Checksums :: "string list"

record report =
  rp_RunID :: string
  rp_StartTime :: int
  rp_EndTime :: int
  rp_TotalResCount :: int
  rp_Status :: string
  rp_RunList :: string
  rp_Resources :: "gval list option"
  rp_Data :: "gobj option"
  rp_NodeName :: string

record shovey =
  sh_RunID :: string
  sh_NodeNames :: "string list"
  sh_Command :: string
  sh_CreatedAt :: int
  sh_UpdatedAt :: int
  sh_Status :: string
  sh_Timeout :: int
  sh_Quorum :: string

record shovey_run =
  sr_ShoveyUUID :: string
  sr_NodeName :: string
  sr_Status :: string
  sr_AckTime :: int
  sr_EndTime :: int
  sr_Error :: string
  sr_ExitStatus :: "8 word"

record shovey_stream =
  ss_ShoveyUUID :: string
  ss_NodeName :: string
  ss_Seq :: int
  ss_OutputType :: string
  ss_Output :: string
  ss_IsLast :: bool
  ss_CreatedAt :: int

text \<open>\<open>time.Time{}\<close>, in nanoseconds from the start of 1970.\<close>

definition zero_time :: int where
  "zero_time = - 62135596800 * 10 ^ 9"

text \<open>The actor of a request is a client or a user (\<^verbatim>\<open>actor/actor.go\<close>).\<close>

datatype actor = AClient client | AUser user

record loginfo =
  li_Actor :: actor
  li_ActorInfo :: string
  li_ActorType :: string
  li_Time :: int
  li_Action :: string
  li_ObjectType :: string
  li_ObjectName :: string
  li_ExtendedInfo :: string
  li_ID :: int

datatype dsval =
    VClient client
  | VUser user
  | VNode node
  | VNodeStatus node_status
  | VRole role
  | VEnv chef_environment
  | VDataBag databag
  | VCookbook cookbook
  | VFile filestore
  | VSandbox sandbox
  | VLogInfo loginfo
  | VReport report
  | VShovey shovey
  | VShoveyRun shovey_run
  | VShoveyStream shovey_stream

definition gob_node :: "node \<Rightarrow> node" where
  "gob_node n = n\<lparr>nd_isDown := False\<rparr>"

definition gob_cookbook :: "cookbook \<Rightarrow> cookbook" where
  "gob_cookbook c = c\<lparr>cb_latest := None, cb_numVersions := None\<rparr>"

text \<open>The encoder of reports leaves out the run list. An empty slice comes back as nil.\<close>

definition gob_report :: "report \<Rightarrow> report" where
  "gob_report r = r\<lparr>rp_RunList := [], rp_Resources := (if rp_Resources r = Some [] then None else rp_Resources r)\<rparr>"

fun gob_codec :: "dsval \<Rightarrow> dsval" where
  "gob_codec (VNode n) = VNode (gob_node n)"
| "gob_codec (VNodeStatus s) = VNodeStatus (s\<lparr>ns_Node := gob_node (ns_Node s)\<rparr>)"
| "gob_codec (VCookbook c) = VCookbook (gob_cookbook c)"
| "gob_codec (VReport r) = VReport (gob_report r)"
| "gob_codec v = v"

lemma gob_codec_idem [simp]: "gob_codec (gob_codec v) = gob_codec v"
  by (cases v) (simp_all add: gob_node_def gob_cookbook_def gob_report_def)

text \<open>Besides the store and the index: whether a search that never ends holds the mutex of the
  searches, the number of rebuilds of the index that have not run yet, and the jobs whose runs have
  been updated and that have not been checked for completion yet.\<close>

record server =
  srv_ds :: "dsval datastore"
  srv_ix :: indexer
  srv_searching :: bool
  srv_reindexes :: nat
  srv_notified :: "string list"

definition new_server :: server where
  "new_server = \<lparr>srv_ds = initDataStore, srv_ix = new_indexer, srv_searching = False, srv_reindexes = 0,
     srv_notified = []\<rparr>"

abbreviation srv_Get :: "string \<Rightarrow> server \<Rightarrow> string \<Rightarrow> dsval option" where
  "srv_Get t s \<equiv> ds_Get t (srv_ds s)"

abbreviation srv_GetList :: "string \<Rightarrow> server \<Rightarrow> string list" where
  "srv_GetList t s \<equiv> ds_GetList t (srv_ds s)"

definition srv_Set :: "string \<Rightarrow> string \<Rightarrow> dsval \<Rightarrow> server \<Rightarrow> server" where
  "srv_Set t k v s = s\<lparr>srv_ds := ds_Set gob_codec t k v (srv_ds s)\<rparr>"

definition srv_Delete :: "string \<Rightarrow> string \<Rightarrow> server \<Rightarrow> server" where
  "srv_Delete t k s = s\<lparr>srv_ds := ds_Delete t k (srv_ds s)\<rparr>"

definition srv_Index :: "indexable \<Rightarrow> server \<Rightarrow> server" where
  "srv_Index obj s = s\<lparr>srv_ix := IndexObj obj (srv_ix s)\<rparr>"

definition srv_Unindex :: "string \<Rightarrow> string \<Rightarrow> server \<Rightarrow> server" where
  "srv_Unindex c d s = s\<lparr>srv_ix := snd (DeleteItemFromCollection c d (srv_ix s))\<rparr>"

lemma srv_ds_simps [simp]:
  "srv_ds (srv_Set t k v s) = ds_Set gob_codec t k v (srv_ds s)"
  "srv_ds (srv_Delete t k s) = ds_Delete t k (srv_ds s)"
  "srv_ds (srv_Index obj s) = srv_ds s"
  "srv_ds (srv_Unindex c d s) = srv_ds s"
  by (simp_all add: srv_Set_def srv_Delete_def srv_Index_def srv_Unindex_def)

lemma srv_ix_simps [simp]:
  "srv_ix (srv_Set t k v s) = srv_ix s"
  "srv_ix (srv_Delete t k s) = srv_ix s"
  "srv_ix (srv_Index obj s) = IndexObj obj (srv_ix s)"
  by (simp_all add: srv_Set_def srv_Delete_def srv_Index_def)

subsection \<open>Errors shared by the object packages\<close>

text \<open>
  A field read with \<open>ValidateAsFieldString\<close>: a missing field keeps the value the object
  has, any other value must be the expected constant.
\<close>

definition check_field :: "string \<Rightarrow> string \<Rightarrow> string \<Rightarrow> gval \<Rightarrow> string outcome" where
  "check_field name expected old v =
     (case ValidateAsFieldString v of
        Ok s \<Rightarrow> if s \<noteq> expected then Errorf (''Field '' @ sq name @ '' invalid'') else Ok s
      | Err e \<Rightarrow> if msg e = ''Field 'name' nil'' then Ok old else Err e
      | Panic \<Rightarrow> Panic)"

lemma check_field_Ok: "check_field name expected old v = Ok s \<Longrightarrow> s = expected \<or> s = old"
  by (auto simp: check_field_def split: outcome.splits if_splits)

subsection \<open>The store of the server as an object store\<close>

text \<open>The names of the object types hold no colon, so every type is an object store.\<close>

interpretation node_store: object_store "ds_Get ''node''" "ds_Set gob_codec ''node''"
  "ds_Delete ''node''" "ds_GetList ''node''" gob_codec ds_ok
  by (rule ds_object_store) simp

interpretation client_store: object_store "ds_Get ''client''" "ds_Set gob_codec ''client''"
  "ds_Delete ''client''" "ds_GetList ''client''" gob_codec ds_ok
  by (rule ds_object_store) simp

interpretation user_store: object_store "ds_Get ''user''" "ds_Set gob_codec ''user''"
  "ds_Delete ''user''" "ds_GetList ''user''" gob_codec ds_ok
  by (rule ds_object_store) simp

lemma ds_Get_other:
  assumes "CHR '':'' \<notin> set t" "CHR '':'' \<notin> set t'" "t \<noteq> t'"
  shows "ds_Get t (ds_Set codec t' k v ds) = ds_Get t ds" "ds_Get t (ds_Delete t' k ds) = ds_Get t ds"
  using assms by (auto simp: ds_Get_def dsc_Set dsc_Delete makeKey_inj fun_eq_iff)

subsection \<open>Packages of named objects\<close>

text \<open>
  Most packages keep objects of one type under their own names, with a \<open>Get\<close> that turns a
  missing key into an error and asserts the type of what it finds. The locale states that
  contract once: \<open>wrap\<close> puts an object into the store, \<open>good\<close> says that the store's
  encoding keeps all of it, \<open>fetch\<close> is the package's \<open>Get\<close>. \<open>typed_in\<close> is the invariant.
\<close>

definition typed_in ::
  "('s \<Rightarrow> string \<Rightarrow> 'v option) \<Rightarrow> ('s \<Rightarrow> bool) \<Rightarrow> ('o \<Rightarrow> 'v) \<Rightarrow> ('o \<Rightarrow> string) \<Rightarrow> ('o \<Rightarrow> bool) \<Rightarrow> 's \<Rightarrow> bool" where
  "typed_in get ok wrap oname good s \<longleftrightarrow>
     ok s \<and> (\<forall>k v. get s k = Some v \<longrightarrow> (\<exists>x. v = wrap x \<and> oname x = k \<and> good x))"

text \<open>The loop \<open>for _, n := range names { o, _ := Get(n); if o != nil { append } }\<close>.\<close>

fun get_multi :: "(string \<Rightarrow> 'o outcome) \<Rightarrow> string list \<Rightarrow> 'o list outcome" where
  "get_multi fetch [] = Ok []"
| "get_multi fetch (n # ns) =
     (case fetch n of
        Panic \<Rightarrow> Panic
      | Err _ \<Rightarrow> get_multi fetch ns
      | Ok x \<Rightarrow> outcome_bind (get_multi fetch ns) (\<lambda>xs. Ok (x # xs)))"

lemma get_multi_Ok: "map fetch ks = map Ok xs \<Longrightarrow> get_multi fetch ks = Ok xs"
  by (induction ks arbitrary: xs) auto

locale typed_store = object_store get put del names codec ok
  for get :: "'s \<Rightarrow> string \<Rightarrow> 'v option" and put :: "string \<Rightarrow> 'v \<Rightarrow> 's \<Rightarrow> 's"
    and del :: "string \<Rightarrow> 's \<Rightarrow> 's" and names :: "'s \<Rightarrow> string list" and codec :: "'v \<Rightarrow> 'v"
    and ok :: "'s \<Rightarrow> bool" +
  fixes wrap :: "'o \<Rightarrow> 'v"
    and oname :: "'o \<Rightarrow> string"
    and good :: "'o \<Rightarrow> bool"
    and unwrap :: "'v \<Rightarrow> 'o outcome"
    and missing :: "string \<Rightarrow> gerror"
    and fetch :: "string \<Rightarrow> 's \<Rightarrow> 'o outcome"
  assumes unwrap_wrap: "unwrap (wrap x) = Ok x"
    and codec_wrap: "good x \<Longrightarrow> codec (wrap x) = wrap x"
    and fetch_get: "fetch k s = (case get s k of None \<Rightarrow> Err (missing k) | Some v \<Rightarrow> unwrap v)"
begin

lemma typed_put:
  "typed_in get ok wrap oname good s \<Longrightarrow> good x \<Longrightarrow> typed_in get ok wrap oname good (put (oname x) (wrap x) s)"
  by (auto simp: typed_in_def get_put ok_put codec_wrap)

lemma typed_del: "typed_in get ok wrap oname good s \<Longrightarrow> typed_in get ok wrap oname good (del k s)"
  by (auto simp: typed_in_def get_del ok_del)

lemma fetch_put: "good x \<Longrightarrow> fetch k (put (oname x) (wrap x) s) = (if k = oname x then Ok x else fetch k s)"
  by (simp add: fetch_get get_put codec_wrap unwrap_wrap)

lemma fetch_del: "fetch k (del k' s) = (if k = k' then Err (missing k) else fetch k s)"
  by (simp add: fetch_get get_del)

lemma fetch_missing:
  "typed_in get ok wrap oname good s \<Longrightarrow> k \<notin> set (names s) \<Longrightarrow> fetch k s = Err (missing k)"
  using in_names_iff [of s k] by (simp add: typed_in_def fetch_get)

lemma fetch_name:
  assumes "typed_in get ok wrap oname good s" "k \<in> set (names s)"
  shows "\<exists>x. fetch k s = Ok x \<and> oname x = k \<and> good x \<and> get s k = Some (wrap x)"
proof -
  obtain v where "get s k = Some v" using assms in_names_iff [of s k] by (auto simp: typed_in_def)
  moreover from this obtain x where "v = wrap x" "oname x = k" "good x"
    using assms(1) unfolding typed_in_def by blast
  ultimately show ?thesis by (simp add: fetch_get unwrap_wrap)
qed

lemma fetch_Ok:
  assumes "typed_in get ok wrap oname good s" "fetch k s = Ok x"
  shows "k \<in> set (names s) \<and> oname x = k \<and> good x"
proof (cases "k \<in> set (names s)")
  case True
  with fetch_name [OF assms(1) True] assms(2) show ?thesis by auto
next
  case False
  with fetch_missing [OF assms(1) False] assms(2) show ?thesis by simp
qed

lemma fetch_no_panic: "typed_in get ok wrap oname good s \<Longrightarrow> fetch k s \<noteq> Panic"
  by (cases "k \<in> set (names s)") (use fetch_name [of s k] fetch_missing [of s k] in auto)

lemma fetch_all:
  assumes "typed_in get ok wrap oname good s"
  shows "\<exists>xs. map (\<lambda>k. fetch k s) (names s) = map Ok xs \<and> map oname xs = names s \<and> (\<forall>x\<in>set xs. good x)"
proof -
  have "\<exists>xs. map (\<lambda>k. fetch k s) ks = map Ok xs \<and> map oname xs = ks \<and> (\<forall>x\<in>set xs. good x)"
    if "set ks \<subseteq> set (names s)" for ks
    using that
  proof (induction ks)
    case (Cons k ks)
    then obtain xs x where "map (\<lambda>k. fetch k s) ks = map Ok xs" "map oname xs = ks" "\<forall>x\<in>set xs. good x"
      "fetch k s = Ok x" "oname x = k" "good x"
      using fetch_name [OF assms, of k] by auto
    then show ?case by (intro exI [of _ "x # xs"]) simp
  qed simp
  then show ?thesis by blast
qed

text \<open>All objects, and the deletion of those that satisfy a condition.\<close>

lemma all_objects:
  assumes "typed_in get ok wrap oname good s"
  shows "\<exists>xs. get_multi (\<lambda>k. fetch k s) (names s) = Ok xs \<and> map oname xs = names s \<and> distinct (map oname xs) \<and>
    (\<forall>x. x \<in> set xs \<longleftrightarrow> fetch (oname x) s = Ok x)"
proof -
  obtain xs where xs: "map (\<lambda>k. fetch k s) (names s) = map Ok xs" "map oname xs = names s"
    using fetch_all [OF assms] by blast
  have "map (\<lambda>x. fetch (oname x) s) xs = map Ok xs"
    using xs(1) unfolding xs(2) [symmetric] by (simp add: o_def)
  then have get: "fetch (oname x) s = Ok x" if "x \<in> set xs" for x using that by (simp only: map_eq_conv)
  have mem: "x \<in> set xs" if g: "fetch (oname x) s = Ok x" for x
  proof -
    have "oname x \<in> oname ` set xs" using fetch_Ok [OF assms g] by (simp only: xs(2) [symmetric] list.set_map)
    then obtain x' where x': "x' \<in> set xs" "oname x' = oname x" by (metis imageE)
    from get [OF x'(1)] g have "x' = x" unfolding x'(2) by (metis outcome.inject(1))
    with x'(1) show ?thesis by simp
  qed
  have "distinct (names s)" using names_eq [of s] assms by (simp add: typed_in_def)
  with xs get mem get_multi_Ok [OF xs(1)] show ?thesis by (intro exI [of _ xs]) auto
qed

lemma delete_all:
  "typed_in get ok wrap oname good s \<Longrightarrow>
     typed_in get ok wrap oname good (fold (\<lambda>x. del (oname x)) ys s) \<and>
     fetch k (fold (\<lambda>x. del (oname x)) ys s) = (if k \<in> oname ` set ys then Err (missing k) else fetch k s)"
proof (induction ys arbitrary: s)
  case (Cons y ys)
  from Cons.IH [OF typed_del [OF Cons.prems, of "oname y"]] fetch_del [of k "oname y" s] show ?case
    by (cases "k = oname y") simp_all
qed simp

lemma delete_those:
  assumes "typed_in get ok wrap oname good s" "get_multi (\<lambda>k. fetch k s) (names s) = Ok xs"
    "mset ys = mset (filter P xs)"
  shows "fetch i (fold (\<lambda>x. del (oname x)) ys s) = Ok x \<longleftrightarrow> fetch i s = Ok x \<and> \<not> P x"
    "length ys = card {i. \<exists>x. fetch i s = Ok x \<and> P x}"
proof -
  have d: "distinct (map oname xs)" and m: "x \<in> set xs \<longleftrightarrow> fetch (oname x) s = Ok x" for x
    using all_objects [OF assms(1)] assms(2) by auto
  have id: "oname x = i" if "fetch i s = Ok x" for i x using fetch_Ok [OF assms(1) that] by simp
  have st: "set ys = set (filter P xs)" by (rule mset_eq_setD [OF assms(3)])
  have gone: "{i. \<exists>x. fetch i s = Ok x \<and> P x} = oname ` set (filter P xs)"
    using m id by (fastforce simp: image_iff)
  have "i \<in> oname ` set ys \<longleftrightarrow> (\<exists>x. fetch i s = Ok x \<and> P x)"
    unfolding st using gone by blast
  then show "fetch i (fold (\<lambda>x. del (oname x)) ys s) = Ok x \<longleftrightarrow> fetch i s = Ok x \<and> \<not> P x"
    using conjunct2 [OF delete_all [OF assms(1), of ys i]] by (auto split: if_splits)
  have "length ys = length (filter P xs)" by (metis assms(3) size_mset)
  also have "\<dots> = card (set (map oname (filter P xs)))"
    using distinct_card [OF distinct_map_filter [OF d, of P]] by simp
  finally show "length ys = card {i. \<exists>x. fetch i s = Ok x \<and> P x}" unfolding gone by simp
qed

end

lemma srv_object_store:
  "CHR '':'' \<notin> set t \<Longrightarrow>
     object_store (srv_Get t) (srv_Set t) (srv_Delete t) (srv_GetList t) gob_codec (\<lambda>s. ds_ok (srv_ds s))"
  using ds_object_store [of t gob_codec] by (simp add: object_store_def)

end
