(* ===== verification/Actors.thy ===== *)
theory Actors
  imports Objects
begin

text \<open>
  \<^verbatim>\<open>client/client.go\<close>, \<^verbatim>\<open>user/user.go\<close> and \<^verbatim>\<open>actor/actor.go\<close>: the clients and users
  that make requests. A method that changes its receiver returns the changed receiver; a
  method that changes the server returns the changed server.

  Cryptography (\<^verbatim>\<open>chefcrypto\<close>) is the parameter \<open>cr\<close>: checking a public key, generating a
  key pair, generating a salt and hashing a password.
\<close>

record crypto =
  cr_ValidatePublicKey :: "string \<Rightarrow> gerror option"
  cr_GenerateRSAKeys :: "(string \<times> string) outcome"
  cr_GenerateSalt :: "string outcome"
  cr_HashPasswd :: "string \<Rightarrow> string \<Rightarrow> string outcome"

subsection \<open>Clients\<close>

definition validateClientName :: "string \<Rightarrow> unit outcome" where
  "validateClientName name =
     (if \<not> ValidateName name then
        Errorf (''Invalid client name '' @ sq name @ '' using regex: '' @
          sq ''Malformed client name.  Must be A-Z, a-z, 0-9, _, -, or .'' @ ''.'')
      else Ok ())"

definition chkInMemUser :: "string \<Rightarrow> server \<Rightarrow> unit outcome" where
  "chkInMemUser name s =
     (if srv_Get ''user'' s name \<noteq> None then
        ErrorS (''a user named '' @ name @ '' was found that would conflict with this client'') StatusConflict
      else Ok ())"

definition client_New :: "string \<Rightarrow> server \<Rightarrow> client outcome" where
  "client_New clientname s =
     (if srv_Get ''client'' s clientname \<noteq> None then ErrorS ''Client already exists'' StatusConflict
      else outcome_bind (validateClientName clientname) (\<lambda>_.
        Ok \<lparr>cl_Name = clientname, cl_NodeName = clientname, cl_JSONClass = ''Chef::ApiClient'',
            cl_ChefType = ''client'', cl_Validator = False, cl_Orgname = [], cl_pubKey = [],
            cl_Admin = False, cl_Certificate = []\<rparr>))"

definition client_Get :: "string \<Rightarrow> server \<Rightarrow> client outcome" where
  "client_Get clientname s =
     (case srv_Get ''client'' s clientname of
        None \<Rightarrow> ErrorS (''Client '' @ clientname @ '' not found'') StatusNotFound
      | Some (VClient c) \<Rightarrow> Ok c
      | Some _ \<Rightarrow> Panic)"

definition client_DoesExist :: "string \<Rightarrow> server \<Rightarrow> bool" where
  "client_DoesExist clientname s \<longleftrightarrow> srv_Get ''client'' s clientname \<noteq> None"

fun client_GetMulti :: "string list \<Rightarrow> server \<Rightarrow> client list outcome" where
  "client_GetMulti [] s = Ok []"
| "client_GetMulti (n # ns) s =
     (case client_Get n s of
        Panic \<Rightarrow> Panic
      | Err _ \<Rightarrow> client_GetMulti ns s
      | Ok c \<Rightarrow> outcome_bind (client_GetMulti ns s) (\<lambda>cs. Ok (c # cs)))"

definition client_GetList :: "server \<Rightarrow> string list" where
  "client_GetList s = srv_GetList ''client'' s"

definition AllClients :: "server \<Rightarrow> client list outcome" where
  "AllClients s = client_GetMulti (client_GetList s) s"

definition client_flatExport :: "client \<Rightarrow> gobj" where
  "client_flatExport c =
     [(''name'', GStr (cl_Name c)), (''node_name'', GStr (cl_NodeName c)),
      (''json_class'', GStr (cl_JSONClass c)), (''chef_type'', GStr (cl_ChefType c)),
      (''validator'', GBool (cl_Validator c)), (''orgname'', GStr (cl_Orgname c)),
      (''public_key'', GStr (cl_pubKey c)), (''admin'', GBool (cl_Admin c)),
      (''certificate'', GStr (cl_Certificate c))]"

definition client_indexable :: "client \<Rightarrow> indexable" where
  "client_indexable c =
     \<lparr>DocID = cl_Name c, IndexName = ''client'', flat_tagged = True, flat_fields = client_flatExport c\<rparr>"

definition client_Save :: "client \<Rightarrow> server \<Rightarrow> unit outcome \<times> server" where
  "client_Save c s =
     (case chkInMemUser (cl_Name c) s of
        Ok _ \<Rightarrow> (Ok (), srv_Index (client_indexable c) (srv_Set ''client'' (cl_Name c) (VClient c) s))
      | e \<Rightarrow> (e, s))"

fun count_admin_clients :: "string list \<Rightarrow> server \<Rightarrow> nat outcome" where
  "count_admin_clients [] s = Ok 0"
| "count_admin_clients (cc # clist) s =
     (case client_Get cc s of
        Panic \<Rightarrow> Panic
      | Err _ \<Rightarrow> count_admin_clients clist s
      | Ok c1 \<Rightarrow> outcome_bind (count_admin_clients clist s)
                   (\<lambda>n. Ok (if cl_Admin c1 then Suc n else n)))"

definition client_isLastAdmin :: "client \<Rightarrow> server \<Rightarrow> bool outcome" where
  "client_isLastAdmin c s =
     (if cl_Admin c then
        outcome_bind (count_admin_clients (client_GetList s) s) (\<lambda>numAdmins. Ok (numAdmins = 1))
      else Ok False)"

definition client_Delete :: "client \<Rightarrow> server \<Rightarrow> unit outcome \<times> server" where
  "client_Delete c s =
     (case client_isLastAdmin c s of
        Panic \<Rightarrow> (Panic, s)
      | Err e \<Rightarrow> (Err e, s)
      | Ok True \<Rightarrow> (Errorf ''Cannot delete the last admin'', s)
      | Ok False \<Rightarrow>
          (Ok (), srv_Unindex ''client'' (cl_Name c) (srv_Delete ''client'' (cl_Name c) s)))"

definition client_ToJSON :: "client \<Rightarrow> gobj" where
  "client_ToJSON c =
     [(''name'', GStr (cl_Name c)), (''admin'', GBool (cl_Admin c)), (''public_key'', GStr (cl_pubKey c)),
      (''validator'', GBool (cl_Validator c)), (''json_class'', GStr (cl_JSONClass c)),
      (''chef_type'', GStr (cl_ChefType c))]"

definition client_Rename :: "string \<Rightarrow> client \<Rightarrow> server \<Rightarrow> unit outcome \<times> client \<times> server" where
  "client_Rename newName c s =
     (case validateClientName newName of
        Err e \<Rightarrow> (Err e, c, s)
      | Panic \<Rightarrow> (Panic, c, s)
      | Ok _ \<Rightarrow>
          (case client_isLastAdmin c s of
             Panic \<Rightarrow> (Panic, c, s)
           | Err e \<Rightarrow> (Err e, c, s)
           | Ok True \<Rightarrow> (ErrorS ''Cannot rename the last admin'' StatusForbidden, c, s)
           | Ok False \<Rightarrow>
               (case chkInMemUser newName s of
                  Err e \<Rightarrow> (ErrorS (msg e) StatusConflict, c, s)
                | Panic \<Rightarrow> (Panic, c, s)
                | Ok _ \<Rightarrow>
                    (if srv_Get ''client'' s newName \<noteq> None then
                       (ErrorS (''Client '' @ newName @ '' already exists, cannot rename '' @ cl_Name c)
                          StatusConflict, c, s)
                     else (Ok (), c\<lparr>cl_Name := newName\<rparr>, srv_Delete ''client'' (cl_Name c) s)))))"

definition client_valid_elements :: "string list" where
  "client_valid_elements =
     [''name'', ''json_class'', ''chef_type'', ''validator'', ''org_name'', ''orgname'', ''public_key'',
      ''private_key'', ''admin'', ''certificate'', ''password'', ''node_name'', ''clientname'', ''create_key'']"

definition client_admin_field :: "gobj \<Rightarrow> client \<Rightarrow> server \<Rightarrow> bool outcome" where
  "client_admin_field jsonActor c s =
     (if ghas jsonActor ''admin'' then
        (case ValidateAsBool (gget jsonActor ''admin'') of
           Ok ab \<Rightarrow>
             (if cl_Admin c \<and> \<not> ab then
                outcome_bind (client_isLastAdmin c s)
                  (\<lambda>l. if l then ErrorS ''Cannot remove admin status from the last admin'' StatusForbidden
                       else Ok ab)
              else Ok ab)
         | _ \<Rightarrow> Errorf ''Field 'admin' invalid'')
      else Ok False)"

definition client_UpdateFromJSON :: "gobj \<Rightarrow> client \<Rightarrow> server \<Rightarrow> client outcome" where
  "client_UpdateFromJSON jsonActor c s =
     outcome_bind (ValidateAsString (gget jsonActor ''name'')) (\<lambda>actorName.
       if cl_Name c \<noteq> actorName then
         Errorf (''Client name '' @ cl_Name c @ '' and '' @ actorName @ '' from JSON do not match'')
       else
         (case first_invalid_key client_valid_elements jsonActor of
            Some k \<Rightarrow> Errorf (''Invalid key '' @ k @ '' in request body'')
          | None \<Rightarrow>
              outcome_bind (check_field ''json_class'' ''Chef::ApiClient'' (cl_JSONClass c) (gget jsonActor ''json_class''))
                (\<lambda>jc.
              outcome_bind (check_field ''chef_type'' ''client'' (cl_ChefType c) (gget jsonActor ''chef_type''))
                (\<lambda>ct.
              outcome_bind (client_admin_field jsonActor c s) (\<lambda>ab.
              outcome_bind (if ghas jsonActor ''validator'' then ValidateAsBool (gget jsonActor ''validator'') else Ok False)
                (\<lambda>vb.
              if ab \<and> vb then
                ErrorS ''Client can be either an admin or a validator, but not both.'' StatusBadRequest
              else
                Ok (c\<lparr>cl_Admin := ab, cl_Validator := vb, cl_ChefType := ct, cl_JSONClass := jc\<rparr>)))))))"

definition client_NewFromJSON :: "gobj \<Rightarrow> server \<Rightarrow> client outcome" where
  "client_NewFromJSON jsonActor s =
     outcome_bind (ValidateAsString (gget jsonActor ''name'')) (\<lambda>actorName.
     outcome_bind (client_New actorName s) (\<lambda>c. client_UpdateFromJSON jsonActor c s))"

definition client_SetPublicKey :: "crypto \<Rightarrow> gval \<Rightarrow> client \<Rightarrow> unit outcome \<times> client" where
  "client_SetPublicKey cr pk c =
     (case pk of
        GStr k \<Rightarrow> (case cr_ValidatePublicKey cr k of
                     Some e \<Rightarrow> (Err (CastErr e), c)
                   | None \<Rightarrow> (Ok (), c\<lparr>cl_pubKey := k\<rparr>))
      | _ \<Rightarrow> (Errorf ''invalid type for public key'', c))"

definition client_GenerateKeys :: "crypto \<Rightarrow> client \<Rightarrow> string outcome \<times> client" where
  "client_GenerateKeys cr c =
     (case cr_GenerateRSAKeys cr of
        Ok (privPem, pubPem) \<Rightarrow> (Ok privPem, snd (client_SetPublicKey cr (GStr pubPem) c))
      | Err e \<Rightarrow> (Err e, c)
      | Panic \<Rightarrow> (Panic, c))"

definition client_IsAdmin :: "conf \<Rightarrow> client \<Rightarrow> bool" where
  "client_IsAdmin cfg c = (if \<not> UseAuth cfg then True else cl_Admin c)"

definition client_IsValidator :: "conf \<Rightarrow> client \<Rightarrow> bool" where
  "client_IsValidator cfg c =
     (if \<not> UseAuth cfg then False
      else if cl_ChefType c = ''client'' \<and> cl_Validator c then cl_Validator c else False)"

definition CheckPermEdit :: "gobj \<Rightarrow> string \<Rightarrow> unit outcome" where
  "CheckPermEdit data perm =
     (if ghas data perm \<and> ValidateAsBool (gget data perm) = Ok True
      then ErrorS ''You are not allowed to take this action.'' StatusForbidden else Ok ())"

subsection \<open>Users\<close>

definition validateUserName :: "string \<Rightarrow> unit outcome" where
  "validateUserName name = (if \<not> ValidateUserName name then Errorf ''Field 'name' invalid'' else Ok ())"

definition chkInMemClient :: "string \<Rightarrow> server \<Rightarrow> unit outcome" where
  "chkInMemClient name s =
     (if srv_Get ''client'' s name \<noteq> None then
        Errorf (''a client named '' @ name @ '' was found that would conflict with this user'')
      else Ok ())"

definition user_New :: "crypto \<Rightarrow> string \<Rightarrow> server \<Rightarrow> user outcome" where
  "user_New cr name s =
     (if srv_Get ''user'' s name \<noteq> None then ErrorS (''User '' @ sq name @ '' already exists'') StatusConflict
      else outcome_bind (validateUserName name) (\<lambda>_.
        (case cr_GenerateSalt cr of
           Ok salt \<Rightarrow> Ok \<lparr>us_Username = name, us_Name = name, us_Email = [], us_Admin = False,
                          us_pubKey = [], us_passwd = [], us_salt = salt\<rparr>
         | Err e \<Rightarrow> Errorf (msg e)
         | Panic \<Rightarrow> Panic)))"

definition user_Get :: "string \<Rightarrow> server \<Rightarrow> user outcome" where
  "user_Get name s =
     (case srv_Get ''user'' s name of
        None \<Rightarrow> Errorf (''User '' @ name @ '' not found'')
      | Some (VUser u) \<Rightarrow> Ok u
      | Some _ \<Rightarrow> Panic)"

definition user_DoesExist :: "string \<Rightarrow> server \<Rightarrow> bool" where
  "user_DoesExist userName s \<longleftrightarrow> srv_Get ''user'' s userName \<noteq> None"

definition user_Save :: "user \<Rightarrow> server \<Rightarrow> unit outcome \<times> server" where
  "user_Save u s =
     (case chkInMemClient (us_Username u) s of
        Ok _ \<Rightarrow> (Ok (), srv_Set ''user'' (us_Username u) (VUser u) s)
      | Err e \<Rightarrow> (ErrorS (msg e) StatusConflict, s)
      | Panic \<Rightarrow> (Panic, s))"

definition user_GetList :: "server \<Rightarrow> string list" where
  "user_GetList s = srv_GetList ''user'' s"

fun count_admin_users :: "string list \<Rightarrow> server \<Rightarrow> nat outcome" where
  "count_admin_users [] s = Ok 0"
| "count_admin_users (n # ulist) s =
     (case user_Get n s of
        Panic \<Rightarrow> Panic
      | Err _ \<Rightarrow> count_admin_users ulist s
      | Ok u1 \<Rightarrow> outcome_bind (count_admin_users ulist s)
                   (\<lambda>k. Ok (if us_Admin u1 then Suc k else k)))"

definition user_isLastAdmin :: "user \<Rightarrow> server \<Rightarrow> bool outcome" where
  "user_isLastAdmin u s =
     (if us_Admin u then
        outcome_bind (count_admin_users (user_GetList s) s) (\<lambda>numAdmins. Ok (numAdmins = 1))
      else Ok False)"

definition user_Delete :: "user \<Rightarrow> server \<Rightarrow> unit outcome \<times> server" where
  "user_Delete u s =
     (case user_isLastAdmin u s of
        Panic \<Rightarrow> (Panic, s)
      | Err e \<Rightarrow> (Err e, s)
      | Ok True \<Rightarrow> (Errorf ''Cannot delete the last admin'', s)
      | Ok False \<Rightarrow> (Ok (), srv_Delete ''user'' (us_Username u) s))"

text \<open>\<open>Rename\<close> of a user deletes the old name from the store of clients.\<close>

definition user_Rename :: "string \<Rightarrow> user \<Rightarrow> server \<Rightarrow> unit outcome \<times> user \<times> server" where
  "user_Rename newName u s =
     (case validateUserName newName of
        Err e \<Rightarrow> (Err e, u, s)
      | Panic \<Rightarrow> (Panic, u, s)
      | Ok _ \<Rightarrow>
          (case user_isLastAdmin u s of
             Panic \<Rightarrow> (Panic, u, s)
           | Err e \<Rightarrow> (Err e, u, s)
           | Ok True \<Rightarrow> (ErrorS ''Cannot rename the last admin'' StatusForbidden, u, s)
           | Ok False \<Rightarrow>
               (case chkInMemClient newName s of
                  Err e \<Rightarrow> (ErrorS (msg e) StatusConflict, u, s)
                | Panic \<Rightarrow> (Panic, u, s)
                | Ok _ \<Rightarrow>
                    (if srv_Get ''user'' s newName \<noteq> None then
                       (ErrorS (''User '' @ newName @ '' already exists, cannot rename '' @ us_Username u)
                          StatusConflict, u, s)
                     else (Ok (), u\<lparr>us_Username := newName\<rparr>, srv_Delete ''client'' (us_Username u) s)))))"

definition SetPasswd :: "crypto \<Rightarrow> string \<Rightarrow> user \<Rightarrow> unit outcome \<times> user" where
  "SetPasswd cr password u =
     (if length password < 6 then (Errorf ''Password must have at least 6 characters'', u)
      else (case cr_HashPasswd cr password (us_salt u) of
              Ok pw \<Rightarrow> (Ok (), u\<lparr>us_passwd := pw\<rparr>)
            | Err e \<Rightarrow> (Errorf (msg e), u)
            | Panic \<Rightarrow> (Panic, u)))"

definition CheckPasswd :: "crypto \<Rightarrow> string \<Rightarrow> user \<Rightarrow> unit outcome" where
  "CheckPasswd cr password u =
     (case cr_HashPasswd cr password (us_salt u) of
        Ok h \<Rightarrow> if us_passwd u \<noteq> h then Errorf ''password did not match'' else Ok ()
      | Err e \<Rightarrow> Errorf (msg e)
      | Panic \<Rightarrow> Panic)"

definition SetPasswdHash :: "string \<Rightarrow> user \<Rightarrow> user" where
  "SetPasswdHash pwhash u = (if pwhash \<noteq> [] then u\<lparr>us_passwd := pwhash\<rparr> else u)"

definition user_valid_elements :: "string list" where
  "user_valid_elements =
     [''username'', ''name'', ''org_name'', ''public_key'', ''private_key'', ''admin'', ''password'',
      ''email'', ''salt'', ''chef_type'', ''display_name'', ''json_class'', ''openid'']"

definition user_set_password :: "crypto \<Rightarrow> gobj \<Rightarrow> user \<Rightarrow> unit outcome \<times> user" where
  "user_set_password cr jsonUser u =
     (if ghas jsonUser ''password'' \<and> gget jsonUser ''password'' \<noteq> GNil then
        (case ValidateAsString (gget jsonUser ''password'') of
           Ok p \<Rightarrow> if p \<noteq> [] then SetPasswd cr p u else (Ok (), u)
         | Err e \<Rightarrow> (Err e, u)
         | Panic \<Rightarrow> (Panic, u))
      else (Ok (), u))"

definition user_set_admin :: "gobj \<Rightarrow> user \<Rightarrow> server \<Rightarrow> unit outcome \<times> user" where
  "user_set_admin jsonUser u s =
     (if ghas jsonUser ''admin'' then
        (case ValidateAsBool (gget jsonUser ''admin'') of
           Ok ab \<Rightarrow>
             (case (if us_Admin u \<and> \<not> ab then user_isLastAdmin u s else Ok False) of
                Ok True \<Rightarrow> (ErrorS ''Cannot remove admin status from the last admin'' StatusForbidden, u)
              | Ok False \<Rightarrow> (Ok (), u\<lparr>us_Admin := ab\<rparr>)
              | Err e \<Rightarrow> (Err e, u)
              | Panic \<Rightarrow> (Panic, u))
         | _ \<Rightarrow> (Errorf ''Field 'admin' invalid'', u))
      else (Ok (), u))"

definition user_UpdateFromJSON :: "crypto \<Rightarrow> gobj \<Rightarrow> user \<Rightarrow> server \<Rightarrow> unit outcome \<times> user" where
  "user_UpdateFromJSON cr jsonUser u s =
     (case ValidateAsString (gget jsonUser ''name'') of
        Err e \<Rightarrow> (Err e, u)
      | Panic \<Rightarrow> (Panic, u)
      | Ok userName \<Rightarrow>
          if us_Username u \<noteq> userName then
            (Errorf (''User name '' @ us_Username u @ '' and '' @ userName @ '' from JSON do not match''), u)
          else
            (case first_invalid_key user_valid_elements jsonUser of
               Some k \<Rightarrow> (Errorf (''Invalid key '' @ k @ '' in request body''), u)
             | None \<Rightarrow>
                 (case user_set_password cr jsonUser u of
                    (Ok _, u1) \<Rightarrow> user_set_admin jsonUser u1 s
                  | (e, u1) \<Rightarrow> (e, u1))))"

definition user_NewFromJSON :: "crypto \<Rightarrow> gobj \<Rightarrow> server \<Rightarrow> user outcome" where
  "user_NewFromJSON cr jsonUser s =
     outcome_bind (ValidateAsString (gget jsonUser ''name'')) (\<lambda>userName.
     outcome_bind (user_New cr userName s) (\<lambda>u.
       if \<not> ghas jsonUser ''password'' then Errorf ''Field 'password' missing''
       else (case user_UpdateFromJSON cr jsonUser u s of
               (Ok _, u1) \<Rightarrow> Ok u1 | (Err e, _) \<Rightarrow> Err e | (Panic, _) \<Rightarrow> Panic)))"

definition user_ToJSON :: "user \<Rightarrow> gobj" where
  "user_ToJSON u =
     [(''name'', GStr (us_Name u)), (''admin'', GBool (us_Admin u)), (''public_key'', GStr (us_pubKey u))]"

definition user_SetPublicKey :: "crypto \<Rightarrow> gval \<Rightarrow> user \<Rightarrow> unit outcome \<times> user" where
  "user_SetPublicKey cr pk u =
     (case pk of
        GStr k \<Rightarrow> (case cr_ValidatePublicKey cr k of
                     Some e \<Rightarrow> (Err (CastErr e), u)
                   | None \<Rightarrow> (Ok (), u\<lparr>us_pubKey := k\<rparr>))
      | _ \<Rightarrow> (Errorf ''invalid type for public key'', u))"

definition user_GenerateKeys :: "crypto \<Rightarrow> user \<Rightarrow> string outcome \<times> user" where
  "user_GenerateKeys cr u =
     (case cr_GenerateRSAKeys cr of
        Ok (privPem, pubPem) \<Rightarrow> (Ok privPem, snd (user_SetPublicKey cr (GStr pubPem) u))
      | Err e \<Rightarrow> (Err e, u)
      | Panic \<Rightarrow> (Panic, u))"

definition user_IsAdmin :: "conf \<Rightarrow> user \<Rightarrow> bool" where
  "user_IsAdmin cfg u = (if \<not> UseAuth cfg then True else us_Admin u)"

fun user_GetMulti :: "string list \<Rightarrow> server \<Rightarrow> user list outcome" where
  "user_GetMulti [] s = Ok []"
| "user_GetMulti (n # ns) s =
     (case user_Get n s of
        Panic \<Rightarrow> Panic
      | Err _ \<Rightarrow> user_GetMulti ns s
      | Ok u \<Rightarrow> outcome_bind (user_GetMulti ns s) (\<lambda>us. Ok (u # us)))"

definition AllUsers :: "server \<Rightarrow> user list outcome" where
  "AllUsers s = user_GetMulti (user_GetList s) s"

subsection \<open>The actor of a request\<close>

definition IsAdmin :: "conf \<Rightarrow> actor \<Rightarrow> bool" where
  "IsAdmin cfg a = (case a of AClient c \<Rightarrow> client_IsAdmin cfg c | AUser u \<Rightarrow> user_IsAdmin cfg u)"

definition IsValidator :: "conf \<Rightarrow> actor \<Rightarrow> bool" where
  "IsValidator cfg a = (case a of AClient c \<Rightarrow> client_IsValidator cfg c | AUser u \<Rightarrow> False)"

definition IsSelf :: "conf \<Rightarrow> actor \<Rightarrow> actor \<Rightarrow> bool" where
  "IsSelf cfg a other =
     (if \<not> UseAuth cfg then True
      else (case (a, other) of
              (AClient c, AClient oc) \<Rightarrow> cl_Name c = cl_Name oc
            | (AUser u, AUser ou) \<Rightarrow> us_Username u = us_Username ou
            | _ \<Rightarrow> False))"

definition GetReqUser :: "conf \<Rightarrow> string \<Rightarrow> server \<Rightarrow> actor outcome" where
  "GetReqUser cfg name0 s =
     (let name = (if \<not> UseAuth cfg then ''admin'' else name0)
      in case client_Get name s of
           Ok c \<Rightarrow> Ok (AClient c)
         | Panic \<Rightarrow> Panic
         | Err err \<Rightarrow>
             (case user_Get name s of
                Ok u \<Rightarrow> Ok (AUser u)
              | Panic \<Rightarrow> Panic
              | Err cerr \<Rightarrow>
                  ErrorS (''Neither a client nor a user named '' @ sq name @
                    '' could be found. In addition, the following errors were reported: '' @
                    msg err @ '' -- '' @ msg cerr) StatusUnauthorized))"

subsection \<open>Administrators\<close>

text \<open>What the two packages rely on when they protect the last administrator, stated once
  for any store of objects that may be administrators.\<close>

locale admin_registry = object_store get put del names codec ok
  for get :: "'s \<Rightarrow> string \<Rightarrow> 'v option" and put del names codec ok +
  fixes is_admin :: "'v \<Rightarrow> bool"
  assumes admin_codec: "is_admin (codec v) = is_admin v"
begin

lemma admin_remains:
  assumes "ok s" "get s k = Some v" "get s n = Some w" "is_admin w"
    "is_admin v \<longrightarrow> length (filter (\<lambda>n. \<exists>w. get s n = Some w \<and> is_admin w) (names s)) \<noteq> 1"
  shows "\<exists>n w. get (del k s) n = Some w \<and> is_admin w"
proof (cases "is_admin v")
  case False
  then have "n \<noteq> k" using assms(2-4) by auto
  then show ?thesis using assms(3,4) by (auto simp: get_del)
next
  case True
  let ?A = "{n. \<exists>w. get s n = Some w \<and> is_admin w}"
  have "card ?A \<noteq> 1" using assms(5) True count_names [OF assms(1), of is_admin] by simp
  then have "?A \<noteq> {k}" by auto
  moreover have "k \<in> ?A" using assms(2) True by simp
  ultimately obtain n' where "n' \<in> ?A" "n' \<noteq> k" by blast
  then show ?thesis by (auto simp: get_del)
qed

lemma admin_put: "get s n = Some w \<Longrightarrow> is_admin w \<Longrightarrow> is_admin v \<or> n \<noteq> k \<Longrightarrow>
    \<exists>n w. get (put k v s) n = Some w \<and> is_admin w"
  by (cases "n = k") (auto simp: get_put admin_codec)

end

fun client_admin :: "dsval \<Rightarrow> bool" where
  "client_admin (VClient c) = cl_Admin c"
| "client_admin _ = False"

fun user_admin :: "dsval \<Rightarrow> bool" where
  "user_admin (VUser u) = us_Admin u"
| "user_admin _ = False"

interpretation client_admins: admin_registry "ds_Get ''client''" "ds_Set gob_codec ''client''"
  "ds_Delete ''client''" "ds_GetList ''client''" gob_codec ds_ok client_admin
proof
  show "client_admin (gob_codec v) = client_admin v" for v by (cases v) simp_all
qed

interpretation user_admins: admin_registry "ds_Get ''user''" "ds_Set gob_codec ''user''"
  "ds_Delete ''user''" "ds_GetList ''user''" gob_codec ds_ok user_admin
proof
  show "user_admin (gob_codec v) = user_admin v" for v by (cases v) simp_all
qed

subsection \<open>The invariant of the actors\<close>

definition clients_typed :: "dsval datastore \<Rightarrow> bool" where
  "clients_typed ds \<longleftrightarrow> (\<forall>n v. ds_Get ''client'' ds n = Some v \<longrightarrow> (\<exists>c. v = VClient c \<and> cl_Name c = n))"

definition users_typed :: "dsval datastore \<Rightarrow> bool" where
  "users_typed ds \<longleftrightarrow> (\<forall>n v. ds_Get ''user'' ds n = Some v \<longrightarrow> (\<exists>u. v = VUser u \<and> us_Username u = n))"

definition actors_ok :: "server \<Rightarrow> bool" where
  "actors_ok s \<longleftrightarrow> ds_ok (srv_ds s) \<and> clients_typed (srv_ds s) \<and> users_typed (srv_ds s) \<and>
     (\<forall>n. srv_Get ''client'' s n = None \<or> srv_Get ''user'' s n = None)"

lemma client_Get_Ok:
  "actors_ok s \<Longrightarrow> client_Get n s = Ok c \<longleftrightarrow> srv_Get ''client'' s n = Some (VClient c)"
  by (auto simp: client_Get_def split: option.splits dsval.splits)

lemma user_Get_Ok:
  "actors_ok s \<Longrightarrow> user_Get n s = Ok u \<longleftrightarrow> srv_Get ''user'' s n = Some (VUser u)"
  by (auto simp: user_Get_def split: option.splits dsval.splits)

lemma count_admin_clients_eq:
  assumes "clients_typed (srv_ds s)"
  shows "count_admin_clients l s =
    Ok (length (filter (\<lambda>n. \<exists>v. srv_Get ''client'' s n = Some v \<and> client_admin v) l))"
proof (induction l)
  case (Cons n l)
  show ?case
  proof (cases "srv_Get ''client'' s n")
    case None
    then show ?thesis using Cons by (simp add: client_Get_def)
  next
    case (Some v)
    then obtain c where "v = VClient c" using assms by (auto simp: clients_typed_def)
    then show ?thesis using Cons Some by (simp add: client_Get_def)
  qed
qed simp

lemma count_admin_users_eq:
  assumes "users_typed (srv_ds s)"
  shows "count_admin_users l s =
    Ok (length (filter (\<lambda>n. \<exists>v. srv_Get ''user'' s n = Some v \<and> user_admin v) l))"
proof (induction l)
  case (Cons n l)
  show ?case
  proof (cases "srv_Get ''user'' s n")
    case None
    then show ?thesis using Cons by (simp add: user_Get_def)
  next
    case (Some v)
    then obtain u where "v = VUser u" using assms by (auto simp: users_typed_def)
    then show ?thesis using Cons Some by (simp add: user_Get_def)
  qed
qed simp

lemmas client_user_other [simp] =
  ds_Get_other [of "''client''" "''user''", simplified] ds_Get_other [of "''user''" "''client''", simplified]

lemma client_Delete_cases:
  assumes "client_Delete c s = (r, s')"
  shows "(s' = s \<and> r \<noteq> Ok ()) \<or>
    (client_isLastAdmin c s = Ok False \<and> r = Ok () \<and> srv_ds s' = ds_Delete ''client'' (cl_Name c) (srv_ds s))"
  using assms by (auto simp: client_Delete_def split: outcome.splits bool.splits)

lemma client_Rename_cases:
  assumes "client_Rename n c s = (r, c', s')"
  shows "(s' = s \<and> c' = c \<and> r \<noteq> Ok ()) \<or>
    (client_isLastAdmin c s = Ok False \<and> r = Ok () \<and> c' = c\<lparr>cl_Name := n\<rparr> \<and>
     srv_Get ''user'' s n = None \<and> srv_Get ''client'' s n = None \<and>
     srv_ds s' = ds_Delete ''client'' (cl_Name c) (srv_ds s))"
  using assms
  by (auto simp: client_Rename_def chkInMemUser_def split: outcome.splits bool.splits if_splits)

lemma user_Delete_cases:
  assumes "user_Delete u s = (r, s')"
  shows "(s' = s \<and> r \<noteq> Ok ()) \<or>
    (user_isLastAdmin u s = Ok False \<and> r = Ok () \<and> srv_ds s' = ds_Delete ''user'' (us_Username u) (srv_ds s))"
  using assms by (auto simp: user_Delete_def split: outcome.splits bool.splits)

lemma user_Rename_cases:
  assumes "user_Rename n u s = (r, u', s')"
  shows "(s' = s \<and> u' = u \<and> r \<noteq> Ok ()) \<or>
    (r = Ok () \<and> u' = u\<lparr>us_Username := n\<rparr> \<and> srv_Get ''user'' s n = None \<and>
     srv_Get ''client'' s n = None \<and> srv_ds s' = ds_Delete ''client'' (us_Username u) (srv_ds s))"
  using assms
  by (auto simp: user_Rename_def chkInMemClient_def split: outcome.splits bool.splits if_splits)

lemma client_Save_cases:
  assumes "client_Save c s = (r, s')"
  shows "(s' = s \<and> r \<noteq> Ok () \<and> srv_Get ''user'' s (cl_Name c) \<noteq> None) \<or>
    (r = Ok () \<and> srv_Get ''user'' s (cl_Name c) = None \<and>
     srv_ds s' = ds_Set gob_codec ''client'' (cl_Name c) (VClient c) (srv_ds s))"
  using assms by (auto simp: client_Save_def chkInMemUser_def split: outcome.splits if_splits)

lemma user_Save_cases:
  assumes "user_Save u s = (r, s')"
  shows "(s' = s \<and> r \<noteq> Ok () \<and> srv_Get ''client'' s (us_Username u) \<noteq> None) \<or>
    (r = Ok () \<and> srv_Get ''client'' s (us_Username u) = None \<and>
     srv_ds s' = ds_Set gob_codec ''user'' (us_Username u) (VUser u) (srv_ds s))"
  using assms by (auto simp: user_Save_def chkInMemClient_def split: outcome.splits if_splits)

subsection \<open>Sequences of operations\<close>

inductive actor_step :: "server \<Rightarrow> server \<Rightarrow> bool" where
  save_client: "client_Save c s = (r, s') \<Longrightarrow> actor_step s s'"
| delete_client: "client_Get n s = Ok c \<Longrightarrow> client_Delete c s = (r, s') \<Longrightarrow> actor_step s s'"
| rename_client: "client_Get n s = Ok c \<Longrightarrow> client_Rename m c s = (r, c', s') \<Longrightarrow> actor_step s s'"
| save_user: "user_Save u s = (r, s') \<Longrightarrow> actor_step s s'"
| delete_user: "user_Get n s = Ok u \<Longrightarrow> user_Delete u s = (r, s') \<Longrightarrow> actor_step s s'"
| rename_user: "user_Get n s = Ok u \<Longrightarrow> user_Rename m u s = (r, u', s') \<Longrightarrow> actor_step s s'"

inductive_cases actor_stepE: "actor_step s s'"

lemma actors_ok_new: "actors_ok new_server"
  by (simp add: actors_ok_def new_server_def clients_typed_def users_typed_def ds_Get_def initDataStore_def
      flip: initDataStore_def)
    (simp add: initDataStore_def)

lemma actors_ok_set_client:
  assumes "actors_ok s" "srv_ds s' = ds_Set gob_codec ''client'' (cl_Name c) (VClient c) (srv_ds s)"
    "srv_Get ''user'' s (cl_Name c) = None"
  shows "actors_ok s'"
  using assms
  by (auto simp: actors_ok_def clients_typed_def users_typed_def client_store.get_put client_store.ok_put)

lemma actors_ok_set_user:
  assumes "actors_ok s" "srv_ds s' = ds_Set gob_codec ''user'' (us_Username u) (VUser u) (srv_ds s)"
    "srv_Get ''client'' s (us_Username u) = None"
  shows "actors_ok s'"
  using assms
  by (auto simp: actors_ok_def clients_typed_def users_typed_def user_store.get_put user_store.ok_put)

lemma actors_ok_del_client:
  assumes "actors_ok s" "srv_ds s' = ds_Delete ''client'' n (srv_ds s)"
  shows "actors_ok s'"
  using assms
  by (auto simp: actors_ok_def clients_typed_def users_typed_def client_store.get_del client_store.ok_del)

lemma actors_ok_del_user:
  assumes "actors_ok s" "srv_ds s' = ds_Delete ''user'' n (srv_ds s)"
  shows "actors_ok s'"
  using assms
  by (auto simp: actors_ok_def clients_typed_def users_typed_def user_store.get_del user_store.ok_del)

lemmas actors_ok_ops =
  actors_ok_set_client actors_ok_set_user actors_ok_del_client actors_ok_del_user

lemma actors_ok_step: "actor_step s s' \<Longrightarrow> actors_ok s \<Longrightarrow> actors_ok s'"
proof (induction rule: actor_step.induct)
  case (save_client c s r s')
  then show ?case using client_Save_cases [of c s r s'] actors_ok_ops by blast
next
  case (delete_client n s c r s')
  then show ?case using client_Delete_cases [of c s r s'] actors_ok_ops by blast
next
  case (rename_client n s c m r c' s')
  then show ?case using client_Rename_cases [of m c s r c' s'] actors_ok_ops by blast
next
  case (save_user u s r s')
  then show ?case using user_Save_cases [of u s r s'] actors_ok_ops by blast
next
  case (delete_user n s u r s')
  then show ?case using user_Delete_cases [of u s r s'] actors_ok_ops by blast
next
  case (rename_user n s u m r u' s')
  then show ?case using user_Rename_cases [of m u s r u' s'] actors_ok_ops by blast
qed

lemma actors_ok_reachable: "actor_step\<^sup>*\<^sup>* s s' \<Longrightarrow> actors_ok s \<Longrightarrow> actors_ok s'"
  by (induction rule: rtranclp_induct) (auto intro: actors_ok_step)

definition example_client :: client where
  "example_client = \<lparr>cl_Name = ''web'', cl_NodeName = ''web'', cl_JSONClass = ''Chef::ApiClient'',
     cl_ChefType = ''client'', cl_Validator = False, cl_Orgname = [], cl_pubKey = ''k'', cl_Admin = True,
     cl_Certificate = []\<rparr>"

definition example_user :: user where
  "example_user = \<lparr>us_Username = ''ann'', us_Name = ''ann'', us_Email = [], us_Admin = False,
     us_pubKey = ''k'', us_passwd = ''h'', us_salt = ''s''\<rparr>"

definition example_server :: server where
  "example_server = snd (user_Save example_user (snd (client_Save example_client new_server)))"

lemma example_server_reachable: "actor_step\<^sup>*\<^sup>* new_server example_server"
proof -
  have "actor_step new_server (snd (client_Save example_client new_server))"
    by (rule save_client [of example_client _ "fst (client_Save example_client new_server)"]) simp
  moreover have "actor_step (snd (client_Save example_client new_server)) example_server"
    unfolding example_server_def
    by (rule save_user [of example_user _ "fst (user_Save example_user (snd (client_Save example_client new_server)))"]) simp
  ultimately show ?thesis by (meson rtranclp.simps)
qed

lemma example_server_get:
  "srv_Get ''client'' example_server = [''web'' \<mapsto> VClient example_client]"
  "srv_Get ''user'' example_server = [''ann'' \<mapsto> VUser example_user]"
proof -
  have n: "ds_Get t (srv_ds new_server) = Map.empty" for t
    by (simp add: new_server_def initDataStore_def ds_Get_def fun_eq_iff)
  have 1: "client_Save example_client new_server =
      (Ok (), srv_Index (client_indexable example_client) (srv_Set ''client'' ''web'' (VClient example_client) new_server))"
    by (simp add: client_Save_def chkInMemUser_def n example_client_def)
  show "srv_Get ''client'' example_server = [''web'' \<mapsto> VClient example_client]"
    "srv_Get ''user'' example_server = [''ann'' \<mapsto> VUser example_user]"
    by (simp_all add: example_server_def 1 user_Save_def chkInMemClient_def client_store.get_put
        user_store.get_put n example_user_def)
qed

text \<open>Whatever sequence of saves, deletions and renamings of clients and users is
  carried out, every stored client and user is found under its own name, no name belongs
  to both a client and a user, and so a request is attributed to exactly one actor: the
  client or else the user of that name.\<close>

theorem actor_names_disjoint:
  assumes "actor_step\<^sup>*\<^sup>* new_server s"
  shows "(\<forall>n c. client_Get n s = Ok c \<longrightarrow> cl_Name c = n \<and> user_Get n s \<noteq> Panic \<and> \<not> is_ok (user_Get n s)) \<and>
    (\<forall>n u. user_Get n s = Ok u \<longrightarrow> us_Username u = n \<and> \<not> is_ok (client_Get n s)) \<and>
    (\<forall>n. client_Get n s \<noteq> Panic \<and> user_Get n s \<noteq> Panic) \<and>
    (\<forall>cfg n u. UseAuth cfg \<longrightarrow> user_Get n s = Ok u \<longrightarrow> GetReqUser cfg n s = Ok (AUser u))"
proof -
  have ok: "actors_ok s" using assms actors_ok_new by (rule actors_ok_reachable)
  have c: "client_Get n s \<noteq> Panic" for n
    using ok by (auto simp: actors_ok_def clients_typed_def client_Get_def split: option.splits dsval.splits)
  have u: "user_Get n s \<noteq> Panic" for n
    using ok by (auto simp: actors_ok_def users_typed_def user_Get_def split: option.splits dsval.splits)
  have d: "srv_Get ''client'' s n = None \<or> srv_Get ''user'' s n = None" for n
    using ok by (simp add: actors_ok_def)
  have cn: "cl_Name c = n \<and> \<not> is_ok (user_Get n s)" if "client_Get n s = Ok c" for n c
  proof -
    have g: "srv_Get ''client'' s n = Some (VClient c)" using that ok by (simp add: client_Get_Ok)
    then have "srv_Get ''user'' s n = None" using d [of n] by simp
    with g show ?thesis using ok by (auto simp: user_Get_def actors_ok_def clients_typed_def)
  qed
  have un: "us_Username v = n \<and> \<not> is_ok (client_Get n s)" if "user_Get n s = Ok v" for n v
  proof -
    have g: "srv_Get ''user'' s n = Some (VUser v)" using that ok by (simp add: user_Get_Ok)
    then have "srv_Get ''client'' s n = None" using d [of n] by simp
    with g show ?thesis using ok by (auto simp: client_Get_def actors_ok_def users_typed_def)
  qed
  have "GetReqUser cfg n s = Ok (AUser v)" if "UseAuth cfg" "user_Get n s = Ok v" for cfg n v
    using that c [of n] un [OF that(2)] by (auto simp: GetReqUser_def split: outcome.split)
  with c u cn un show ?thesis by blast
qed

theorem actor_names_disjoint_witness:
  "client_Get ''web'' example_server = Ok example_client \<and> \<not> is_ok (user_Get ''web'' example_server) \<and>
   GetReqUser example_conf ''ann'' example_server = Ok (AUser example_user)"
proof -
  have "client_Get ''web'' example_server = Ok example_client" "user_Get ''ann'' example_server = Ok example_user"
    by (simp_all add: client_Get_def user_Get_def example_server_get)
  moreover have "UseAuth example_conf" by (simp add: example_conf_def)
  ultimately show ?thesis using actor_names_disjoint [OF example_server_reachable] by blast
qed

subsection \<open>The last administrator\<close>

definition has_admin_client :: "server \<Rightarrow> bool" where
  "has_admin_client s \<longleftrightarrow> (\<exists>n c. client_Get n s = Ok c \<and> cl_Admin c)"

definition has_admin_user :: "server \<Rightarrow> bool" where
  "has_admin_user s \<longleftrightarrow> (\<exists>n u. user_Get n s = Ok u \<and> us_Admin u)"

lemma has_admin_client_iff:
  "actors_ok s \<Longrightarrow> has_admin_client s \<longleftrightarrow> (\<exists>n v. srv_Get ''client'' s n = Some v \<and> client_admin v)"
  unfolding has_admin_client_def client_Get_Ok
  by (fastforce simp: actors_ok_def clients_typed_def)

lemma has_admin_user_iff:
  "actors_ok s \<Longrightarrow> has_admin_user s \<longleftrightarrow> (\<exists>n v. srv_Get ''user'' s n = Some v \<and> user_admin v)"
  unfolding has_admin_user_def user_Get_Ok
  by (fastforce simp: actors_ok_def users_typed_def)

lemma admin_client_remains:
  assumes "actors_ok s" "client_Get n s = Ok c" "client_isLastAdmin c s = Ok False" "has_admin_client s"
    "srv_ds s' = ds_Delete ''client'' (cl_Name c) (srv_ds s)"
  shows "has_admin_client s'"
proof -
  have g: "srv_Get ''client'' s (cl_Name c) = Some (VClient c)"
    using assms(1,2) by (auto simp: client_Get_Ok actors_ok_def clients_typed_def)
  have "cl_Admin c \<longrightarrow> length (filter (\<lambda>n. \<exists>v. srv_Get ''client'' s n = Some v \<and> client_admin v)
      (srv_GetList ''client'' s)) \<noteq> 1"
    using assms(1,3) by (auto simp: client_isLastAdmin_def client_GetList_def count_admin_clients_eq actors_ok_def)
  moreover obtain m w where "srv_Get ''client'' s m = Some w" "client_admin w"
    using assms(1,4) has_admin_client_iff by blast
  moreover have "ds_ok (srv_ds s)" using assms(1) by (simp add: actors_ok_def)
  ultimately have "\<exists>n v. srv_Get ''client'' s' n = Some v \<and> client_admin v"
    using client_admins.admin_remains [OF _ g, of m w] assms(5) by simp
  then show ?thesis using has_admin_client_iff [OF actors_ok_del_client [OF assms(1,5)]] by simp
qed

lemma admin_user_remains:
  assumes "actors_ok s" "user_Get n s = Ok u" "user_isLastAdmin u s = Ok False" "has_admin_user s"
    "srv_ds s' = ds_Delete ''user'' (us_Username u) (srv_ds s)"
  shows "has_admin_user s'"
proof -
  have g: "srv_Get ''user'' s (us_Username u) = Some (VUser u)"
    using assms(1,2) by (auto simp: user_Get_Ok actors_ok_def users_typed_def)
  have "us_Admin u \<longrightarrow> length (filter (\<lambda>n. \<exists>v. srv_Get ''user'' s n = Some v \<and> user_admin v)
      (srv_GetList ''user'' s)) \<noteq> 1"
    using assms(1,3) by (auto simp: user_isLastAdmin_def user_GetList_def count_admin_users_eq actors_ok_def)
  moreover obtain m w where "srv_Get ''user'' s m = Some w" "user_admin w"
    using assms(1,4) has_admin_user_iff by blast
  moreover have "ds_ok (srv_ds s)" using assms(1) by (simp add: actors_ok_def)
  ultimately have "\<exists>n v. srv_Get ''user'' s' n = Some v \<and> user_admin v"
    using user_admins.admin_remains [OF _ g, of m w] assms(5) by simp
  then show ?thesis using has_admin_user_iff [OF actors_ok_del_user [OF assms(1,5)]] by simp
qed

text \<open>\<^bold>\<open>C8\<close>. Deleting or renaming a client, and deleting a user, never removes the last
  administrator: whatever happened before, if there was an administrator among the
  clients (the users), there still is one.\<close>

theorem last_admin_survives:
  assumes "actor_step\<^sup>*\<^sup>* new_server s"
  shows "(client_Get n s = Ok c \<and> has_admin_client s \<longrightarrow>
      has_admin_client (snd (client_Delete c s)) \<and> has_admin_client (snd (snd (client_Rename m c s)))) \<and>
    (user_Get n s = Ok u \<and> has_admin_user s \<longrightarrow> has_admin_user (snd (user_Delete u s)))"
proof -
  have ok: "actors_ok s" using assms actors_ok_new by (rule actors_ok_reachable)
  have "has_admin_client (snd (client_Delete c s))" if "client_Get n s = Ok c" "has_admin_client s"
    using client_Delete_cases [of c s "fst (client_Delete c s)" "snd (client_Delete c s)"]
      admin_client_remains [OF ok that(1) _ that(2)] that by auto
  moreover have "has_admin_client (snd (snd (client_Rename m c s)))"
    if "client_Get n s = Ok c" "has_admin_client s"
  proof -
    obtain r c' s' where r: "client_Rename m c s = (r, c', s')" by (metis prod.exhaust)
    with client_Rename_cases [OF r] admin_client_remains [OF ok that(1) _ that(2)] that(2)
    show ?thesis by auto
  qed
  moreover have "has_admin_user (snd (user_Delete u s))" if "user_Get n s = Ok u" "has_admin_user s"
    using user_Delete_cases [of u s "fst (user_Delete u s)" "snd (user_Delete u s)"]
      admin_user_remains [OF ok that(1) _ that(2)] that by auto
  ultimately show ?thesis by blast
qed

theorem last_admin_survives_witness:
  "has_admin_client example_server \<and> has_admin_client (snd (client_Delete example_client example_server))"
proof -
  have "client_Get ''web'' example_server = Ok example_client"
    by (simp add: client_Get_def example_server_get)
  moreover have "cl_Admin example_client" by (simp add: example_client_def)
  ultimately have "has_admin_client example_server" by (auto simp: has_admin_client_def)
  with \<open>client_Get _ _ = _\<close> last_admin_survives [OF example_server_reachable, of "''web''" example_client]
  show ?thesis by blast
qed

lemma update_without_admin:
  assumes "client_UpdateFromJSON d c s = Ok c'" "\<not> ghas d ''admin''"
  shows "cl_Name c' = cl_Name c \<and> \<not> cl_Admin c'"
  using assms
  by (auto simp: client_UpdateFromJSON_def client_admin_field_def outcome_bind_Ok_iff split: option.splits if_splits)

lemma save_drops_last_admin:
  assumes "actors_ok s" "client_Get n s = Ok c" "client_isLastAdmin c s = Ok True" "cl_Name c' = cl_Name c" "\<not> cl_Admin c'"
  shows "\<not> has_admin_client (snd (client_Save c' s))"
proof -
  have g: "srv_Get ''client'' s n = Some (VClient c)" "cl_Name c = n"
    using assms(1,2) by (auto simp: client_Get_Ok actors_ok_def clients_typed_def)
  let ?A = "{k. \<exists>v. srv_Get ''client'' s k = Some v \<and> client_admin v}"
  have a: "cl_Admin c" "card ?A = 1"
    using assms(1,3) client_store.count_names [of "srv_ds s" client_admin]
    by (auto simp: client_isLastAdmin_def client_GetList_def count_admin_clients_eq actors_ok_def split: if_splits)
  have "n \<in> ?A" using g a(1) by simp
  moreover obtain x where "?A = {x}" using a(2) by (rule card_1_singletonE)
  ultimately have A: "?A = {n}" by (simp only: singleton_iff)
  obtain r s' where sv: "client_Save c' s = (r, s')" by fastforce
  have "srv_Get ''user'' s n = None" using assms(1) g(1) by (auto simp: actors_ok_def dest!: spec [of _ n])
  then have s': "srv_ds s' = ds_Set gob_codec ''client'' n (VClient c') (srv_ds s)"
    using client_Save_cases [OF sv] g(2) assms(4) by simp
  have "actors_ok s'"
    using client_Save_cases [OF sv] actors_ok_set_client [OF assms(1), of s' c'] assms(1) by auto
  then have "has_admin_client s' \<longleftrightarrow> (\<exists>k v. srv_Get ''client'' s' k = Some v \<and> client_admin v)"
    by (rule has_admin_client_iff)
  also have "\<dots> \<longleftrightarrow> (\<exists>k v. k \<noteq> n \<and> srv_Get ''client'' s k = Some v \<and> client_admin v)"
    unfolding s' client_store.get_put using assms(5) by auto
  finally show ?thesis using A sv by auto
qed

text \<open>\<^bold>\<open>C37\<close>. An update of a client whose body does not mention \<open>admin\<close> skips the check for
  the last administrator and clears the flag. So every such update of the only administrator
  among the clients, once accepted and saved, leaves no administrator among the clients;
  the body with nothing but the name is accepted.\<close>

theorem update_drops_last_admin:
  assumes "actors_ok s" "client_Get n s = Ok c" "client_isLastAdmin c s = Ok True"
  shows "is_ok (client_UpdateFromJSON [(''name'', GStr n)] c s) \<and>
    (\<forall>d c'. \<not> ghas d ''admin'' \<and> client_UpdateFromJSON d c s = Ok c' \<longrightarrow>
       \<not> cl_Admin c' \<and> \<not> has_admin_client (snd (client_Save c' s)))"
proof -
  have "cl_Name c = n" using assms(1,2) by (auto simp: client_Get_Ok actors_ok_def clients_typed_def)
  then have "is_ok (client_UpdateFromJSON [(''name'', GStr n)] c s)"
    by (simp add: client_UpdateFromJSON_def gget_def ghas_def client_valid_elements_def
        check_field_def client_admin_field_def)
  then show ?thesis using update_without_admin save_drops_last_admin [OF assms] by blast
qed

theorem update_drops_last_admin_witness:
  "has_admin_client example_server \<and>
   (\<exists>c'. client_UpdateFromJSON [(''name'', GStr ''web'')] example_client example_server = Ok c' \<and>
     \<not> has_admin_client (snd (client_Save c' example_server)))"
proof -
  have ok: "actors_ok example_server"
    using example_server_reachable actors_ok_new by (rule actors_ok_reachable)
  have g: "client_Get ''web'' example_server = Ok example_client"
    by (simp add: client_Get_def example_server_get)
  have a: "cl_Admin example_client" by (simp add: example_client_def)
  have "srv_GetList ''client'' example_server = [''web'']"
    using client_store.names_eq [of "srv_ds example_server"] ok by (simp add: actors_ok_def example_server_get)
  then have "client_isLastAdmin example_client example_server = Ok True"
    using a g by (simp add: client_isLastAdmin_def client_GetList_def)
  moreover have "has_admin_client example_server" using a g by (auto simp: has_admin_client_def)
  moreover have "\<not> ghas [(''name'', GStr ''web'')] ''admin''" by (simp add: ghas_def)
  ultimately show ?thesis using update_drops_last_admin [OF ok g] by (auto simp: is_ok_iff)
qed

text \<open>Renaming a user deletes the old name from the clients, not from the users:
  after the renaming is saved, both names are users.\<close>

theorem user_rename_keeps_old:
  assumes "actors_ok s" "user_Get n s = Ok u" "user_Rename m u s = (Ok (), u', s')"
    "user_Save u' s' = (r, s'')"
  shows "user_Get n s'' = Ok u \<and> user_Get m s'' = Ok (u\<lparr>us_Username := m\<rparr>) \<and> n \<noteq> m"
proof -
  note rn = user_Rename_cases [OF assms(3)]
  have ok': "actors_ok s'" using rn actors_ok_del_client [OF assms(1)] by auto
  have c: "srv_Get ''client'' s' m = None"
    using rn by (auto simp: client_store.get_del)
  have g: "srv_Get ''user'' s n = Some (VUser u)" using assms(1,2) by (simp add: user_Get_Ok)
  then have nm: "n \<noteq> m" using rn by auto
  have s'': "srv_ds s'' = ds_Set gob_codec ''user'' m (VUser u') (srv_ds s')"
    using user_Save_cases [OF assms(4)] rn c by auto
  have "actors_ok s''" using s'' actors_ok_set_user [OF ok', of s'' u'] rn c by auto
  moreover have "srv_Get ''user'' s'' n = Some (VUser u)" "srv_Get ''user'' s'' m = Some (VUser u')"
    using g nm rn by (auto simp: s'' user_store.get_put)
  ultimately show ?thesis using nm rn by (auto simp: user_Get_Ok)
qed

theorem user_rename_keeps_old_witness:
  "\<exists>u' s' r s''. user_Rename ''bob'' example_user example_server = (Ok (), u', s') \<and>
     user_Save u' s' = (r, s'') \<and> user_Get ''ann'' s'' = Ok example_user \<and>
     user_Get ''bob'' s'' = Ok (example_user\<lparr>us_Username := ''bob''\<rparr>)"
proof -
  have ok: "actors_ok example_server"
    using example_server_reachable actors_ok_new by (rule actors_ok_reachable)
  have g: "user_Get ''ann'' example_server = Ok example_user"
    by (simp add: user_Get_def example_server_get)
  have "ValidateUserName ''bob''" by code_simp
  then have "user_Rename ''bob'' example_user example_server =
      (Ok (), example_user\<lparr>us_Username := ''bob''\<rparr>, srv_Delete ''client'' ''ann'' example_server)"
    by (simp add: user_Rename_def validateUserName_def user_isLastAdmin_def chkInMemClient_def
        example_server_get) (simp add: example_user_def)
  moreover obtain r s'' where sv: "user_Save (example_user\<lparr>us_Username := ''bob''\<rparr>)
      (srv_Delete ''client'' ''ann'' example_server) = (r, s'')" by fastforce
  ultimately show ?thesis using user_rename_keeps_old [OF ok g _ sv] by blast
qed

end
