(* ===== verification/Requests.thy ===== *)
theory Requests
  imports Objects
begin

text \<open>
  \<^verbatim>\<open>common.go\<close>: what happens to a decoded request body before a component sees it. The
  JSON decoder leaves arrays as \<open>[]interface{}\<close>; \<open>checkAttrs\<close> turns the run lists into
  slices of strings, which the type assertions of the components rely on.
\<close>

text \<open>
  What a request sees of the outside world: the time, the JSON encoder (\<^verbatim>\<open>encoding/json\<close>),
  the base of the server's URLs, the formatting of times by a layout (\<^verbatim>\<open>time.Format\<close>), the
  random ids that the attempts to name a sandbox draw, the MD5 checksum in hexadecimal,
  the format \<^verbatim>\<open>%v\<close> of a value, the parsing of times by a layout (\<^verbatim>\<open>time.Parse\<close>), and the
  next random UUID (\<^verbatim>\<open>uuid.New\<close>).
\<close>

record world =
  w_now :: int
  w_json :: "gval \<Rightarrow> string"
  w_baseURL :: string
  w_format :: "string \<Rightarrow> int \<Rightarrow> string"
  w_ids :: "nat \<Rightarrow> string outcome"
  w_md5 :: "string \<Rightarrow> string"
  w_fmt_v :: "gval \<Rightarrow> string"
  w_ParseTime :: "string \<Rightarrow> string \<Rightarrow> int outcome"
  w_uuid :: string

fun run_list_strings :: "gval list \<Rightarrow> string list outcome" where
  "run_list_strings [] = Ok []"
| "run_list_strings (v # vs) =
     (case v of
        GStr s \<Rightarrow> outcome_bind (run_list_strings vs) (\<lambda>l. Ok (s # l))
      | _ \<Rightarrow> Errorf ''Field 'run_list' is not a valid run list'')"

definition chkRunList :: "gval \<Rightarrow> string list outcome" where
  "chkRunList rl =
     (case rl of GArr vs \<Rightarrow> run_list_strings vs | _ \<Rightarrow> Errorf ''Field 'run_list' is not a valid run list'')"

fun env_run_lists :: "gobj \<Rightarrow> (string \<times> string list) list outcome" where
  "env_run_lists [] = Ok []"
| "env_run_lists ((i, v) # erl) =
     (case chkRunList v of
        Ok l \<Rightarrow> outcome_bind (env_run_lists erl) (\<lambda>m. Ok ((i, l) # m))
      | Err _ \<Rightarrow> Errorf ''Field 'env_run_lists' contains invalid run lists''
      | Panic \<Rightarrow> Panic)"

definition attribute_keys :: "string list" where
  "attribute_keys =
     [''normal'', ''default'', ''automatic'', ''override'', ''default_attributes'', ''override_attributes'']"

definition fill_attrs :: "gobj \<Rightarrow> gobj" where
  "fill_attrs objData =
     fold (\<lambda>k m. if ghas m k \<and> gget m k = GNil then aput k (GMap []) m else m) attribute_keys objData"

definition check_run_list :: "gobj \<Rightarrow> gobj outcome" where
  "check_run_list objData =
     (if ghas objData ''run_list'' then
        outcome_bind (chkRunList (gget objData ''run_list'')) (\<lambda>rl. Ok (aput ''run_list'' (GStrs rl) objData))
      else Ok objData)"

definition check_env_run_lists :: "gobj \<Rightarrow> gobj outcome" where
  "check_env_run_lists objData =
     (if ghas objData ''env_run_lists'' then
        (case gget objData ''env_run_lists'' of
           GMap erl \<Rightarrow> outcome_bind (env_run_lists erl)
                         (\<lambda>m. Ok (aput ''env_run_lists'' (GStrsMap m) objData))
         | _ \<Rightarrow> Errorf ''Field 'env_run_lists' contains invalid run lists'')
      else Ok objData)"

definition checkAttrs :: "gobj \<Rightarrow> gobj outcome" where
  "checkAttrs objData =
     outcome_bind (check_run_list objData) (\<lambda>o1.
     outcome_bind (check_env_run_lists o1) (\<lambda>o2. Ok (fill_attrs o2)))"

lemma ghas_aput [simp]: "ghas (aput k v m) k' \<longleftrightarrow> k' = k \<or> ghas m k'"
  by (auto simp: ghas_def)

lemma ValidateAttributes_no_panic [simp]: "ValidateAttributes k v \<noteq> Panic"
  by (cases v) auto

lemma ValidateAsFieldString_no_panic [simp]: "ValidateAsFieldString v \<noteq> Panic"
  by (cases v) auto

lemma check_field_no_panic [simp]: "check_field a b c v \<noteq> Panic"
  by (auto simp: check_field_def split: outcome.splits)

lemma run_list_strings_no_panic [simp]: "run_list_strings vs \<noteq> Panic"
  by (induction vs rule: run_list_strings.induct)
    (auto simp: outcome_bind_Panic_iff split: gval.splits)

lemma chkRunList_no_panic [simp]: "chkRunList rl \<noteq> Panic"
  by (simp add: chkRunList_def split: gval.split)

lemma env_run_lists_no_panic [simp]: "env_run_lists erl \<noteq> Panic"
  by (induction erl rule: env_run_lists.induct)
    (auto simp: outcome_bind_Panic_iff split: outcome.splits)

lemma fill_attrs_other: "k \<notin> set attribute_keys \<Longrightarrow> gget (fill_attrs m) k = gget m k \<and> ghas (fill_attrs m) k = ghas m k"
proof -
  have "gget (fold (\<lambda>k m. if ghas m k \<and> gget m k = GNil then aput k (GMap []) m else m) ks m) k = gget m k \<and>
    ghas (fold (\<lambda>k m. if ghas m k \<and> gget m k = GNil then aput k (GMap []) m else m) ks m) k = ghas m k"
    if "k \<notin> set ks" for ks
    using that by (induction ks arbitrary: m) auto
  then show "k \<notin> set attribute_keys \<Longrightarrow> ?thesis" unfolding fill_attrs_def by blast
qed

text \<open>After \<open>checkAttrs\<close> a run list is a slice of strings and the run lists of environments
  are a map of such slices.\<close>

lemma checkAttrs_types:
  assumes "checkAttrs objData = Ok m"
  shows "ghas m ''run_list'' \<Longrightarrow> \<exists>l. gget m ''run_list'' = GStrs l"
    and "ghas m ''env_run_lists'' \<Longrightarrow> \<exists>l. gget m ''env_run_lists'' = GStrsMap l"
    and "gget m ''name'' = gget objData ''name''"
proof -
  obtain o1 o2 where o: "check_run_list objData = Ok o1" "check_env_run_lists o1 = Ok o2" "m = fill_attrs o2"
    using assms by (auto simp: checkAttrs_def outcome_bind_Ok_iff)
  have k: "''run_list'' \<notin> set attribute_keys" "''env_run_lists'' \<notin> set attribute_keys" "''name'' \<notin> set attribute_keys"
    by (simp_all add: attribute_keys_def)
  have 1: "(ghas o1 ''run_list'' \<longrightarrow> (\<exists>l. gget o1 ''run_list'' = GStrs l)) \<and> gget o1 ''name'' = gget objData ''name''"
    using o(1) by (auto simp: check_run_list_def outcome_bind_Ok_iff split: if_splits)
  have 2: "(ghas o2 ''run_list'' = ghas o1 ''run_list'') \<and> gget o2 ''run_list'' = gget o1 ''run_list'' \<and>
      gget o2 ''name'' = gget o1 ''name'' \<and>
      (ghas o2 ''env_run_lists'' \<longrightarrow> (\<exists>l. gget o2 ''env_run_lists'' = GStrsMap l))"
    using o(2) by (auto simp: check_env_run_lists_def outcome_bind_Ok_iff split: if_splits gval.splits)
  show "ghas m ''run_list'' \<Longrightarrow> \<exists>l. gget m ''run_list'' = GStrs l"
    "ghas m ''env_run_lists'' \<Longrightarrow> \<exists>l. gget m ''env_run_lists'' = GStrsMap l"
    "gget m ''name'' = gget objData ''name''"
    using 1 2 o(3) fill_attrs_other [OF k(1)] fill_attrs_other [OF k(2)] fill_attrs_other [OF k(3)] by simp_all
qed

end
