(* ===== verification/LogInfo.thy ===== *)
theory LogInfo
  imports Actors Requests
begin

text \<open>
  \<^verbatim>\<open>loginfo/log_info.go\<close>: the log of who changed what. An object to log is given by its Go
  type, its name and the fields the JSON encoder sees. Announcing events over serf does not
  change the server and is left out.
\<close>

record logobj =
  lo_Type :: string
  lo_Name :: string
  lo_JSON :: gval

definition client_logobj :: "client \<Rightarrow> logobj" where
  "client_logobj c =
     \<lparr>lo_Type = ''*client.Client'', lo_Name = cl_Name c,
      lo_JSON = GMap [(''name'', GStr (cl_Name c)), (''node_name'', GStr (cl_NodeName c)),
        (''json_class'', GStr (cl_JSONClass c)), (''chef_type'', GStr (cl_ChefType c)),
        (''validator'', GBool (cl_Validator c)), (''orgname'', GStr (cl_Orgname c)),
        (''admin'', GBool (cl_Admin c)), (''certificate'', GStr (cl_Certificate c))]\<rparr>"

definition user_logobj :: "user \<Rightarrow> logobj" where
  "user_logobj u =
     \<lparr>lo_Type = ''*user.User'', lo_Name = us_Username u,
      lo_JSON = GMap [(''username'', GStr (us_Username u)), (''name'', GStr (us_Name u)),
        (''email'', GStr (us_Email u)), (''admin'', GBool (us_Admin u))]\<rparr>"

definition actor_logobj :: "actor \<Rightarrow> logobj" where
  "actor_logobj a = (case a of AClient c \<Rightarrow> client_logobj c | AUser u \<Rightarrow> user_logobj u)"

definition actor_name :: "actor \<Rightarrow> string" where
  "actor_name a = (case a of AClient c \<Rightarrow> cl_Name c | AUser u \<Rightarrow> us_Username u)"

definition IsUser :: "actor \<Rightarrow> bool" where
  "IsUser a = (case a of AClient _ \<Rightarrow> False | AUser _ \<Rightarrow> True)"

definition new_event :: "conf \<Rightarrow> world \<Rightarrow> actor \<Rightarrow> logobj \<Rightarrow> string \<Rightarrow> loginfo" where
  "new_event cfg w doer obj action =
     \<lparr>li_Actor = doer, li_ActorInfo = w_json w (lo_JSON (actor_logobj doer)),
      li_ActorType = (if IsUser doer then ''user'' else ''client''), li_Time = w_now w, li_Action = action,
      li_ObjectType = lo_Type obj, li_ObjectName = lo_Name obj,
      li_ExtendedInfo = (if SkipLogExtended cfg then [] else w_json w (lo_JSON obj)), li_ID = 0\<rparr>"

definition LogEvent :: "conf \<Rightarrow> world \<Rightarrow> actor \<Rightarrow> logobj \<Rightarrow> string \<Rightarrow> server \<Rightarrow> server" where
  "LogEvent cfg w doer obj action s =
     (if \<not> LogEvents cfg then s
      else s\<lparr>srv_ds := SetLogInfo gob_codec (VLogInfo (new_event cfg w doer obj action)) None (srv_ds s)\<rparr>)"

definition loginfo_Get :: "int \<Rightarrow> server \<Rightarrow> loginfo outcome" where
  "loginfo_Get i s =
     outcome_bind (GetLogInfo i (srv_ds s))
       (\<lambda>c. case c of VLogInfo le \<Rightarrow> Ok (le\<lparr>li_ID := i\<rparr>) | _ \<Rightarrow> Panic)"

definition loginfo_DoesExist :: "string \<Rightarrow> server \<Rightarrow> bool outcome" where
  "loginfo_DoesExist eventID s =
     (case Atoi eventID of
        (_, Some e) \<Rightarrow> Errorf (''strconv.Atoi: parsing '' @ [CHR 0x22] @ eventID @ [CHR 0x22] @ '': '' @ num_error_text e)
      | (i, None) \<Rightarrow>
          (case GetLogInfo i (srv_ds s) of Ok _ \<Rightarrow> Ok True | Err e \<Rightarrow> Err (CastErr e) | Panic \<Rightarrow> Panic))"

definition loginfo_Delete :: "loginfo \<Rightarrow> server \<Rightarrow> server" where
  "loginfo_Delete le s = s\<lparr>srv_ds := DeleteLogInfo gob_codec (li_ID le) (srv_ds s)\<rparr>"

definition PurgeLogInfos :: "int \<Rightarrow> server \<Rightarrow> nat \<times> server" where
  "PurgeLogInfos i s =
     (let (n, ds) = PurgeLogInfoBefore gob_codec i (srv_ds s) in (n, s\<lparr>srv_ds := ds\<rparr>))"

subsection \<open>Listing events\<close>

definition checkTimeRange :: "int \<Rightarrow> int \<Rightarrow> loginfo \<Rightarrow> bool" where
  "checkTimeRange from until le \<longleftrightarrow> from < li_Time le \<and> li_Time le < until"

text \<open>\<open>searchParams[k]\<close>, and the times given in seconds.\<close>

definition param :: "(string \<times> string) list \<Rightarrow> string \<Rightarrow> string" where
  "param searchParams k = (case map_of searchParams k of None \<Rightarrow> [] | Some v \<Rightarrow> v)"

definition time_param :: "(string \<times> string) list \<Rightarrow> string \<Rightarrow> int \<Rightarrow> int outcome" where
  "time_param searchParams k dflt =
     (case map_of searchParams k of
        None \<Rightarrow> Ok dflt
      | Some v \<Rightarrow>
          (case ParseInt10 v of
             (sec, None) \<Rightarrow> Ok (sec * 10 ^ 9)
           | (_, Some e) \<Rightarrow> Errorf (parse_int_error v e)))"

text \<open>\<open>strings.Title\<close> on ASCII.\<close>

fun title_from :: "bool \<Rightarrow> string \<Rightarrow> string" where
  "title_from start [] = []"
| "title_from start (c # s) =
     (if start \<and> is_lower c then char_of (of_char c - 32 :: nat) else c) #
     title_from (\<not> (is_alnum c \<or> c = CHR ''_'')) s"

definition object_type_name :: "string \<Rightarrow> string" where
  "object_type_name ot =
     (if CHR ''*'' \<in> set ot \<or> CHR ''.'' \<in> set ot then ot
      else if ot = ''environment'' then ''*environment.ChefEnvironment''
      else if ot = ''cookbook_version'' then ''*cookbook.CookbookVersion''
      else ''*'' @ ot @ ''.'' @ title_from True ot)"

definition type_param :: "(string \<times> string) list \<Rightarrow> string" where
  "type_param searchParams =
     (case map_of searchParams ''object_type'' of None \<Rightarrow> [] | Some ot \<Rightarrow> object_type_name ot)"

definition event_matches :: "(string \<times> string) list \<Rightarrow> int \<Rightarrow> int \<Rightarrow> loginfo \<Rightarrow> bool" where
  "event_matches sp from until item \<longleftrightarrow>
     checkTimeRange from until item \<and>
     (param sp ''action'' = [] \<or> param sp ''action'' = li_Action item) \<and>
     (type_param sp = [] \<or> type_param sp = li_ObjectType item) \<and>
     (param sp ''object_name'' = [] \<or> param sp ''object_name'' = li_ObjectName item) \<and>
     (param sp ''doer'' = [] \<or> param sp ''doer'' = actor_name (li_Actor item))"

fun matching_events ::
  "(string \<times> string) list \<Rightarrow> int \<Rightarrow> int \<Rightarrow> (int \<times> dsval) list \<Rightarrow> int list \<Rightarrow> loginfo list outcome" where
  "matching_events sp from until arr [] = Ok []"
| "matching_events sp from until arr (i # ks) =
     (case map_of arr i of
        None \<Rightarrow> matching_events sp from until arr ks
      | Some (VLogInfo item) \<Rightarrow>
          outcome_bind (matching_events sp from until arr ks) (\<lambda>lis.
            Ok (if event_matches sp from until item then item\<lparr>li_ID := i\<rparr> # lis else lis))
      | Some _ \<Rightarrow> Panic)"

text \<open>Go's \<open>offset + limit\<close> on 64 bits, and the slice \<open>lis[offset:limit]\<close> of the \<open>len\<close> places of
  which the first \<open>n\<close> are filled: bounds that are out of order are a panic.\<close>

definition int64_add :: "int \<Rightarrow> int \<Rightarrow> int" where
  "int64_add a b = (a + b + 2 ^ 63) mod 2 ^ 64 - 2 ^ 63"

definition log_page :: "int list \<Rightarrow> nat \<Rightarrow> loginfo list \<Rightarrow> loginfo list outcome" where
  "log_page limits len lis =
     (if len = 0 then Ok []
      else
        (let offset = (case limits of [] \<Rightarrow> 0 | o1 # _ \<Rightarrow> o1);
             limit0 = (case limits of o1 # l # _ \<Rightarrow> min (int64_add offset l) (int len) | _ \<Rightarrow> int len);
             limit = min (int (length lis)) limit0
         in if offset < 0 \<or> limit < offset then Panic
            else Ok (take (nat (limit - offset)) (drop (nat offset) lis))))"

definition GetLogInfos :: "int \<Rightarrow> (string \<times> string) list \<Rightarrow> int list \<Rightarrow> server \<Rightarrow> loginfo list outcome" where
  "GetLogInfos now searchParams limits s =
     outcome_bind (time_param searchParams ''from'' 0) (\<lambda>from.
     outcome_bind (time_param searchParams ''until'' now) (\<lambda>until.
       (let arr = GetLogInfoList (srv_ds s)
        in outcome_bind (matching_events searchParams from until arr (rev (sort (map fst arr))))
             (log_page limits (length arr)))))"

subsection \<open>The log\<close>

definition log_ok :: "server \<Rightarrow> bool" where
  "log_ok s \<longleftrightarrow> distinct (map fst (GetLogInfoList (srv_ds s))) \<and>
     (\<forall>(i, v)\<in>set (GetLogInfoList (srv_ds s)). (\<exists>le. v = VLogInfo le) \<and> gob_codec v = v)"

text \<open>The event stored under an id.\<close>

definition event_at :: "server \<Rightarrow> int \<Rightarrow> loginfo option" where
  "event_at s i = (case map_of (GetLogInfoList (srv_ds s)) i of Some (VLogInfo le) \<Rightarrow> Some le | _ \<Rightarrow> None)"

definition event_ids :: "server \<Rightarrow> int list" where
  "event_ids s = rev (sorted_list_of_set (fst ` set (GetLogInfoList (srv_ds s))))"

lemma event_ids_eq: "log_ok s \<Longrightarrow> rev (sort (map fst (GetLogInfoList (srv_ds s)))) = event_ids s"
  unfolding log_ok_def event_ids_def by (metis list.set_map sorted_list_of_set_sort_remdups distinct_remdups_id)

lemma event_at_listed: "log_ok s \<Longrightarrow> i \<in> set (event_ids s) \<Longrightarrow> \<exists>le. map_of (GetLogInfoList (srv_ds s)) i = Some (VLogInfo le)"
proof -
  assume ok: "log_ok s" and i: "i \<in> set (event_ids s)"
  obtain v where v: "(i, v) \<in> set (GetLogInfoList (srv_ds s))" using i by (auto simp: event_ids_def)
  then have "map_of (GetLogInfoList (srv_ds s)) i = Some v" using ok by (simp add: log_ok_def)
  with ok v show ?thesis unfolding log_ok_def by fastforce
qed

text \<open>The events of a query, latest first.\<close>

definition query_events :: "(string \<times> string) list \<Rightarrow> int \<Rightarrow> int \<Rightarrow> server \<Rightarrow> loginfo list" where
  "query_events sp from until s =
     List.map_filter (\<lambda>i. case event_at s i of
        Some le \<Rightarrow> if event_matches sp from until le then Some (le\<lparr>li_ID := i\<rparr>) else None
      | None \<Rightarrow> None) (event_ids s)"

lemma matching_events_Ok:
  assumes "log_ok s"
  shows "matching_events sp from until (GetLogInfoList (srv_ds s)) (rev (sort (map fst (GetLogInfoList (srv_ds s))))) =
    Ok (query_events sp from until s)"
proof -
  let ?arr = "GetLogInfoList (srv_ds s)"
  have "matching_events sp from until ?arr ks = Ok (List.map_filter (\<lambda>i. case event_at s i of
        Some le \<Rightarrow> if event_matches sp from until le then Some (le\<lparr>li_ID := i\<rparr>) else None | None \<Rightarrow> None) ks)"
    if "\<forall>i\<in>set ks. \<exists>le. map_of ?arr i = Some (VLogInfo le)" for ks
    using that by (induction ks) (auto simp: event_at_def map_filter_simps)
  then show ?thesis
    unfolding event_ids_eq [OF assms] query_events_def using event_at_listed [OF assms] by blast
qed

lemma query_events_sorted: "sorted_wrt (\<lambda>a b. li_ID b < li_ID a) (query_events sp from until s)"
proof -
  have 1: "sorted_wrt (\<lambda>a b. li_ID b < li_ID a) (List.map_filter f ks)"
    if f: "\<And>i x. f i = Some x \<Longrightarrow> li_ID x = i" and "sorted_wrt (>) ks" for f ks
    using that(2)
  proof (induction ks)
    case (Cons k ks)
    have "li_ID x < k" if x: "x \<in> set (List.map_filter f ks)" for x
    proof -
      obtain j where "j \<in> set ks" "f j = Some x" using x by (auto simp: mem_map_filter)
      then show ?thesis using f [of j x] Cons.prems by auto
    qed
    with Cons f show ?case by (cases "f k") (auto simp: map_filter_simps)
  qed (simp add: map_filter_simps)
  have "sorted_wrt (>) (event_ids s)"
    unfolding event_ids_def sorted_wrt_rev using strict_sorted_list_of_set by (simp add: sorted_wrt_mono_rel)
  then show ?thesis unfolding query_events_def by (rule 1 [rotated]) (auto split: option.splits if_splits)
qed

lemma int64_add_small: "0 \<le> a \<Longrightarrow> 0 \<le> b \<Longrightarrow> a + b < 2 ^ 63 \<Longrightarrow> int64_add a b = a + b"
  unfolding int64_add_def by (subst mod_pos_pos_trivial) auto

lemma log_page_Ok:
  assumes "0 \<le> offset" "0 \<le> limit" "offset + limit < 2 ^ 63" "length lis \<le> len"
  shows "log_page [offset, limit] len lis =
    (if len = 0 then Ok [] else if int (length lis) < offset then Panic
     else Ok (take (nat limit) (drop (nat offset) lis)))"
proof -
  let ?m = "min (int (length lis)) (min (offset + limit) (int len))"
  have m: "?m = min (int (length lis)) (offset + limit)" using assms(4) by simp
  have "?m < offset \<longleftrightarrow> int (length lis) < offset" using assms(2) unfolding m by auto
  moreover have "take (nat (?m - offset)) (drop (nat offset) lis) = take (nat limit) (drop (nat offset) lis)"
    if "offset \<le> int (length lis)"
  proof (cases "int (length lis) \<le> offset + limit")
    case True
    have "length (drop (nat offset) lis) \<le> nat (?m - offset)" "length (drop (nat offset) lis) \<le> nat limit"
      using True assms(1) that unfolding m by auto
    then show ?thesis by simp
  next
    case False
    then have "?m - offset = limit" unfolding m by simp
    then show ?thesis by (simp only:)
  qed
  ultimately show ?thesis
    using assms(1) int64_add_small [OF assms(1-3)] by (simp add: log_page_def Let_def not_less)
qed

text \<open>A page of the event log holds, latest first, the events that satisfy the query,
  without the first \<open>offset\<close> ones and at most \<open>limit\<close> of them. But an offset beyond the
  last matching event is a slice out of bounds: the request panics instead of returning an
  empty page.\<close>

theorem events_page:
  assumes "log_ok s" "time_param sp ''from'' 0 = Ok from" "time_param sp ''until'' now = Ok until"
    "0 \<le> offset" "0 \<le> limit" "offset + limit < 2 ^ 63"
  shows "GetLogInfos now sp [offset, limit] s =
      (if event_ids s = [] then Ok []
       else if int (length (query_events sp from until s)) < offset then Panic
       else Ok (take (nat limit) (drop (nat offset) (query_events sp from until s)))) \<and>
    sorted_wrt (\<lambda>a b. li_ID b < li_ID a) (query_events sp from until s) \<and>
    set (query_events sp from until s) =
      {le\<lparr>li_ID := i\<rparr> | i le. event_at s i = Some le \<and> event_matches sp from until le}"
proof -
  let ?arr = "GetLogInfoList (srv_ds s)" and ?q = "query_events sp from until s"
  have len: "length (event_ids s) = length ?arr"
    using assms(1) by (simp flip: event_ids_eq [OF assms(1)])
  have "length ?q \<le> length (event_ids s)"
    unfolding query_events_def by (simp add: List.map_filter_def)
  then have "GetLogInfos now sp [offset, limit] s =
      (if event_ids s = [] then Ok [] else if int (length ?q) < offset then Panic
       else Ok (take (nat limit) (drop (nat offset) ?q)))"
    using assms len log_page_Ok [OF assms(4-6), of ?q "length ?arr"]
    by (simp add: GetLogInfos_def matching_events_Ok Let_def) (metis length_0_conv)
  moreover have listed: "i \<in> set (event_ids s)" if "event_at s i = Some le" for i le
    using that by (force simp: event_at_def event_ids_def dest: map_of_SomeD split: option.splits)
  have "(case event_at s i of Some le \<Rightarrow> if event_matches sp from until le then Some (le\<lparr>li_ID := i\<rparr>) else None
      | None \<Rightarrow> None) = Some x \<longleftrightarrow> (\<exists>le. x = le\<lparr>li_ID := i\<rparr> \<and> event_at s i = Some le \<and> event_matches sp from until le)" for i x
    by (auto split: option.split)
  then have "set ?q = {le\<lparr>li_ID := i\<rparr> | i le. event_at s i = Some le \<and> event_matches sp from until le}"
    unfolding query_events_def using listed by (auto simp only: mem_map_filter set_eq_iff mem_Collect_eq)
  ultimately show ?thesis using query_events_sorted by blast
qed

subsection \<open>Logging an event\<close>

lemma gob_VLogInfo [simp]: "gob_codec (VLogInfo le) = VLogInfo le"
  by simp

lemma map_codec_id: "(\<forall>(i, v)\<in>set m. codec v = v) \<Longrightarrow> map (\<lambda>(k, v). (k, codec v)) m = m"
  by (induction m) auto

lemma aput_new: "k \<notin> fst ` set m \<Longrightarrow> aput k v m = m @ [(k, v)]"
  by (induction k v m rule: aput.induct) auto

lemma LogEvent_list:
  assumes "log_ok s" "ids_below (2 ^ 63 - 1) (GetLogInfoList (srv_ds s))" "LogEvents cfg"
  shows "GetLogInfoList (srv_ds (LogEvent cfg w doer obj action s)) =
    GetLogInfoList (srv_ds s) @
      [(getNextID (GetLogInfoList (srv_ds s)), VLogInfo (new_event cfg w doer obj action))]"
proof -
  let ?arr = "GetLogInfoList (srv_ds s)"
  have fresh: "getNextID ?arr \<notin> fst ` set ?arr" using getNextID_fresh [OF assms(2)] by blast
  have "\<forall>(i, v)\<in>set ?arr. gob_codec v = v" using assms(1) by (auto simp: log_ok_def)
  then have "map (\<lambda>(k, v). (k, gob_codec v)) ?arr = ?arr" by (rule map_codec_id)
  then show ?thesis
    using assms(3) aput_new [OF fresh]
    by (simp add: LogEvent_def SetLogInfo_def Let_def setLogInfoMap_def GetLogInfoList_def getLogInfoMap_def ns_or_new_def)
qed

text \<open>Logging an event adds it under an id that is greater than all others, changes no
  earlier event and no other object, and the event can be fetched under its id; with
  logging switched off nothing changes.\<close>

theorem log_event_appends:
  assumes "log_ok s" "ids_below (2 ^ 63 - 1) (GetLogInfoList (srv_ds s))"
  shows "\<exists>i. (\<forall>j. event_at s j \<noteq> None \<longrightarrow> j < i) \<and>
    event_at (LogEvent cfg w doer obj action s) =
      (if LogEvents cfg then (event_at s)(i \<mapsto> new_event cfg w doer obj action) else event_at s) \<and>
    (LogEvents cfg \<longrightarrow> loginfo_Get i (LogEvent cfg w doer obj action s) =
       Ok ((new_event cfg w doer obj action)\<lparr>li_ID := i\<rparr>)) \<and>
    log_ok (LogEvent cfg w doer obj action s) \<and>
    dsc (srv_ds (LogEvent cfg w doer obj action s)) = dsc (srv_ds s) \<and>
    srv_ix (LogEvent cfg w doer obj action s) = srv_ix s"
proof -
  let ?arr = "GetLogInfoList (srv_ds s)" and ?s = "LogEvent cfg w doer obj action s"
  let ?i = "getNextID (GetLogInfoList (srv_ds s))"
  have fresh: "\<forall>j\<in>fst ` set ?arr. j < ?i" by (rule getNextID_fresh [OF assms(2)])
  have lt: "j < ?i" if "event_at s j \<noteq> None" for j
    using that fresh by (force simp: event_at_def dest: map_of_SomeD split: option.splits)
  have rest: "dsc (srv_ds ?s) = dsc (srv_ds s)" "srv_ix ?s = srv_ix s"
    by (simp_all add: LogEvent_def SetLogInfo_def setLogInfoMap_def Let_def)
  show ?thesis
  proof (cases "LogEvents cfg")
    case True
    note L = LogEvent_list [OF assms True, of w doer obj action]
    have none: "map_of ?arr ?i = None" using fresh by (auto simp: map_of_eq_None_iff)
    have at: "event_at ?s = (event_at s)(?i \<mapsto> new_event cfg w doer obj action)"
      using none by (auto simp: fun_eq_iff event_at_def L map_add_def split: option.split)
    have "loginfo_Get ?i ?s = Ok ((new_event cfg w doer obj action)\<lparr>li_ID := ?i\<rparr>)"
      using none L by (simp add: loginfo_Get_def GetLogInfo_def GetLogInfoList_def map_add_def)
    moreover have "log_ok ?s" using assms(1) fresh unfolding log_ok_def L by force
    ultimately show ?thesis using True at lt rest by (intro exI [of _ ?i]) simp
  next
    case False
    then have "?s = s" by (simp add: LogEvent_def)
    with False lt assms(1) show ?thesis by (intro exI [of _ ?i]) simp
  qed
qed

definition example_world :: world where
  "example_world = \<lparr>w_now = 5 * 10 ^ 9, w_json = (\<lambda>_. ''{}''), w_baseURL = ''http://chef'',
     w_format = (\<lambda>_ _. ''now''), w_ids = (\<lambda>_. Ok ''1''), w_md5 = (\<lambda>_. ''0''),
     w_fmt_v = (\<lambda>_. ''value''), w_ParseTime = (\<lambda>_ _. Ok (4 * 10 ^ 9)),
     w_uuid = ''c3cb9d2a-6d0d-4b3c-9b3e-0c1f3f1d2e4a''\<rparr>"

definition example_event :: "string \<Rightarrow> int \<Rightarrow> loginfo" where
  "example_event action i =
     (new_event example_conf example_world (AClient example_client) (user_logobj example_user) action)
       \<lparr>li_ID := i\<rparr>"

definition example_log :: server where
  "example_log = new_server\<lparr>srv_ds := (srv_ds new_server)\<lparr>loginfos :=
     Some [(1, VLogInfo (example_event ''create'' 0)), (2, VLogInfo (example_event ''modify'' 0))]\<rparr>\<rparr>"

lemma example_log_list:
  "GetLogInfoList (srv_ds example_log) = [(1, VLogInfo (example_event ''create'' 0)), (2, VLogInfo (example_event ''modify'' 0))]"
  by (simp add: example_log_def GetLogInfoList_def getLogInfoMap_def ns_or_new_def)

lemma example_log_ok: "log_ok example_log"
  by (simp add: log_ok_def example_log_list)

theorem events_page_witness:
  "GetLogInfos 10000000000 [] [1, 5] example_log = Ok [example_event ''create'' 1] \<and>
   GetLogInfos 10000000000 [] [3, 5] example_log = Panic"
proof -
  have q: "query_events [] 0 10000000000 example_log = [example_event ''modify'' 2, example_event ''create'' 1]"
    "event_ids example_log = [2, 1]"
    by (simp_all add: query_events_def event_ids_def example_log_list event_at_def event_matches_def checkTimeRange_def
        param_def type_param_def map_filter_simps example_event_def new_event_def example_world_def)
  have t: "time_param [] ''from'' 0 = Ok 0" "time_param [] ''until'' 10000000000 = Ok 10000000000"
    by (simp_all add: time_param_def)
  from events_page [OF example_log_ok t, of 1 5] events_page [OF example_log_ok t, of 3 5] show ?thesis
    by (simp add: q)
qed

theorem log_event_appends_witness:
  "\<exists>i. event_at (LogEvent example_conf example_world (AClient example_client) (user_logobj example_user) ''delete'' example_log) i =
     Some (example_event ''delete'' 0) \<and> 2 < i"
proof -
  have b: "ids_below (2 ^ 63 - 1) (GetLogInfoList (srv_ds example_log))" by (simp add: ids_below_def example_log_list)
  have at: "event_at example_log 2 \<noteq> None" by (simp add: event_at_def example_log_list)
  have "LogEvents example_conf" by (simp add: example_conf_def)
  moreover have "new_event example_conf example_world (AClient example_client) (user_logobj example_user) ''delete'' =
      example_event ''delete'' 0" by (simp add: example_event_def new_event_def)
  ultimately show ?thesis
    using log_event_appends [OF example_log_ok b, of example_conf example_world "AClient example_client"
        "user_logobj example_user" "''delete''"] at
    by (elim exE conjE) (metis fun_upd_same)
qed

end
