(* ===== verification/Http.thy ===== *)
theory Http
  imports LogInfo
begin

text \<open>
  What the HTTP handlers share (\<^verbatim>\<open>common.go\<close>, \<^verbatim>\<open>head.go\<close>, \<^verbatim>\<open>reqctx/reqctx.go\<close> and the URL
  helpers of \<^verbatim>\<open>util/util.go\<close>).

  A request carries its method, path, query form, its headers under canonical names, the actor
  that \<open>ServeHTTP\<close> put into its context, its body as sent (\<open>r_RawBody\<close>), the error of unpacking a
  gzipped body, the unpacked body (\<open>r_Body\<close>), and the result of decoding that as a JSON object
  (\<open>None\<close> is the literal \<open>null\<close>, which decodes to a nil map). \<open>r_QueryError\<close> is the error of
  parsing the query string.

  A response is what has been written so far. As in \<^verbatim>\<open>net/http\<close>, the first status that is
  written wins, later calls of \<open>WriteHeader\<close> have no effect, and writing a body before any
  status sends 200. A handler returns its response, or crashes with a panic, which the HTTP
  server catches, or overflows the stack, which ends the process, or never returns; and the
  server it leaves behind.
\<close>

named_theorems http_simps \<open>unfolding of responses\<close>

datatype http_method = MethodGet | MethodHead | MethodPost | MethodPut | MethodDelete | MethodOther string

definition method_text :: "http_method \<Rightarrow> string" where
  "method_text m =
     (case m of MethodGet \<Rightarrow> ''GET'' | MethodHead \<Rightarrow> ''HEAD'' | MethodPost \<Rightarrow> ''POST'' | MethodPut \<Rightarrow> ''PUT''
      | MethodDelete \<Rightarrow> ''DELETE'' | MethodOther t \<Rightarrow> t)"

record request =
  r_Method :: http_method
  r_Path :: string
  r_Form :: "(string \<times> string list) list"
  r_Header :: "(string \<times> string list) list"
  r_OpUser :: "actor option"
  r_RawBody :: string
  r_GzipError :: "gerror option"
  r_Body :: string
  r_JSON :: "gobj option outcome"
  r_ContentLength :: int
  r_RemoteAddr :: string
  r_QueryError :: "gerror option"

definition header_values :: "request \<Rightarrow> string \<Rightarrow> string list" where
  "header_values r k = (case map_of (r_Header r) k of None \<Rightarrow> [] | Some vs \<Rightarrow> vs)"

text \<open>\<open>Header.Get\<close>: the first value, or the empty string.\<close>

definition header_Get :: "request \<Rightarrow> string \<Rightarrow> string" where
  "header_Get r k = (case header_values r k of [] \<Rightarrow> [] | v # _ \<Rightarrow> v)"

record response =
  rs_status :: "int option"
  rs_body :: "gval list"

datatype reply = Reply response | Crash | Fatal | Hang

definition new_response :: response where
  "new_response = \<lparr>rs_status = None, rs_body = []\<rparr>"

definition WriteHeader :: "int \<Rightarrow> response \<Rightarrow> response" where
  "WriteHeader st w = (case rs_status w of None \<Rightarrow> w\<lparr>rs_status := Some st\<rparr> | Some _ \<Rightarrow> w)"

definition Encode :: "gval \<Rightarrow> response \<Rightarrow> response" where
  "Encode v w = (let w1 = WriteHeader 200 w in w1\<lparr>rs_body := rs_body w1 @ [v]\<rparr>)"

text \<open>\<open>http.Error\<close> writes a plain text and a newline.\<close>

definition http_Error :: "string \<Rightarrow> int \<Rightarrow> response \<Rightarrow> response" where
  "http_Error errorStr st w = Encode (GStr (errorStr @ [CHR 0x0A])) (WriteHeader st w)"

text \<open>The status the client sees: a handler that writes nothing answers 200.\<close>

definition sent_status :: "response \<Rightarrow> int" where
  "sent_status w = (case rs_status w of None \<Rightarrow> 200 | Some st \<Rightarrow> st)"

subsection \<open>common.go\<close>

definition splitPath :: "string \<Rightarrow> string list" where
  "splitPath path = split_on (CHR ''/'') (tl path)"

text \<open>An element of the path; an index out of range panics.\<close>

definition path_elem :: "string list \<Rightarrow> nat \<Rightarrow> string outcome" where
  "path_elem pathArray i = (if i < length pathArray then Ok (pathArray ! i) else Panic)"

definition jsonErrorReport :: "string \<Rightarrow> int \<Rightarrow> response \<Rightarrow> response" where
  "jsonErrorReport errorStr st w = Encode (GMap [(''error'', GStrs [errorStr])]) (WriteHeader st w)"

fun checkAccept :: "string list \<Rightarrow> string \<Rightarrow> unit outcome" where
  "checkAccept [] acceptType = Errorf (''Client cannot accept content type '' @ acceptType)"
| "checkAccept (a # ats) acceptType =
     (if a = ''*/*'' then Ok () else if a = acceptType then Ok () else checkAccept ats acceptType)"

definition parseObjJSON :: "request \<Rightarrow> gobj option outcome" where
  "parseObjJSON r =
     outcome_bind (r_JSON r)
       (\<lambda>m. case m of None \<Rightarrow> Ok None | Some objData \<Rightarrow> outcome_bind (checkAttrs objData) (\<lambda>o1. Ok (Some o1)))"

text \<open>Reading from a nil map is reading from an empty one.\<close>

definition reads :: "gobj option \<Rightarrow> gobj" where
  "reads m = (case m of None \<Rightarrow> [] | Some objData \<Rightarrow> objData)"

definition CtxReqUser :: "request \<Rightarrow> actor outcome" where
  "CtxReqUser r =
     (case r_OpUser r of
        Some a \<Rightarrow> Ok a
      | None \<Rightarrow> Errorf ''Surprisingly, there was no actor for this request, and there should have been.'')"

definition actor_PublicKey :: "actor \<Rightarrow> string" where
  "actor_PublicKey a = (case a of AClient c \<Rightarrow> cl_pubKey c | AUser u \<Rightarrow> us_pubKey u)"

subsection \<open>URLs\<close>

text \<open>\<open>chkPath\<close> reads the first byte of the path; no caller passes an empty one.\<close>

definition chkPath :: "string \<Rightarrow> string" where
  "chkPath p = (if hd p \<noteq> CHR ''/'' then CHR ''/'' # p else p)"

definition ObjURL :: "world \<Rightarrow> string \<Rightarrow> string \<Rightarrow> string" where
  "ObjURL wd urlType name = w_baseURL wd @ ''/'' @ urlType @ ''/'' @ name"

definition CustomObjURL :: "world \<Rightarrow> string \<Rightarrow> string \<Rightarrow> string \<Rightarrow> string" where
  "CustomObjURL wd urlType name path = ObjURL wd urlType name @ chkPath path"

definition CustomURL :: "world \<Rightarrow> string \<Rightarrow> string" where
  "CustomURL wd path = w_baseURL wd @ chkPath path"

text \<open>\<open>path.Clean\<close> of Go's library: the elements of the path, without empty ones and \<open>.\<close>, where
  \<open>..\<close> removes the element before it. At the start of a rooted path \<open>..\<close> vanishes.\<close>

definition clean_elem :: "bool \<Rightarrow> string list \<Rightarrow> string \<Rightarrow> string list" where
  "clean_elem rooted done e =
     (if e = [] \<or> e = ''.'' then done
      else if e = ''..'' then
        (if done \<noteq> [] \<and> last done \<noteq> ''..'' then butlast done else if rooted then done else done @ [e])
      else done @ [e])"

definition path_Clean :: "string \<Rightarrow> string" where
  "path_Clean p =
     (if p = [] then ''.''
      else
        (let rooted = (hd p = CHR ''/'');
             res = join_with ''/'' (foldl (clean_elem rooted) [] (split_on (CHR ''/'') p))
         in if rooted then CHR ''/'' # res else if res = [] then ''.'' else res))"

text \<open>The loop that fills a listing with the URLs of the names.\<close>

definition url_list :: "world \<Rightarrow> string \<Rightarrow> string list \<Rightarrow> (string \<times> string) list" where
  "url_list wd base names = map (\<lambda>k. (k, CustomURL wd (''/'' @ base @ ''/'' @ k))) names"

subsection \<open>Steps of a handler\<close>

text \<open>
  \<open>reply_error\<close> is \<open>jsonErrorReport(...); return\<close>, \<open>reply_json\<close> encodes the response and
  returns. \<open>attempt\<close> is \<open>x, err := f(); if err != nil { ... }; ...\<close>.
\<close>

definition reply_error :: "string \<Rightarrow> int \<Rightarrow> response \<Rightarrow> server \<Rightarrow> reply \<times> server" where
  "reply_error m st w s = (Reply (jsonErrorReport m st w), s)"

definition reply_json :: "gval \<Rightarrow> response \<Rightarrow> server \<Rightarrow> reply \<times> server" where
  "reply_json v w s = (Reply (Encode v w), s)"

definition attempt ::
  "'a outcome \<Rightarrow> server \<Rightarrow> (gerror \<Rightarrow> reply \<times> server) \<Rightarrow> ('a \<Rightarrow> reply \<times> server) \<Rightarrow> reply \<times> server" where
  "attempt res s failed continue =
     (case res of Ok x \<Rightarrow> continue x | Err e \<Rightarrow> failed e | Panic \<Rightarrow> (Crash, s))"

text \<open>The start of nearly every handler: fetch the actor from the context.\<close>

definition with_opUser :: "request \<Rightarrow> server \<Rightarrow> (actor \<Rightarrow> reply \<times> server) \<Rightarrow> reply \<times> server" where
  "with_opUser r s k =
     attempt (CtxReqUser r) s (\<lambda>e. reply_error (msg e) (status e) new_response s) k"

subsection \<open>head.go\<close>

definition headResponse :: "int \<Rightarrow> response \<Rightarrow> response" where
  "headResponse st w = WriteHeader st w"

definition headDefaultResponse :: "response \<Rightarrow> response" where
  "headDefaultResponse w = WriteHeader 200 w"

definition headForbidden :: "unit outcome" where
  "headForbidden = Err (StatusError ''forbidden'' StatusForbidden)"

definition nilPermCheck :: "unit outcome" where
  "nilPermCheck = Ok ()"

text \<open>\<open>headChecking\<close> does not return after an answer: it goes on and writes again.\<close>

definition head_error :: "'a outcome \<Rightarrow> response \<Rightarrow> response" where
  "head_error res w = (case res of Err e \<Rightarrow> headResponse (status e) w | _ \<Rightarrow> w)"

definition headChecking :: "bool outcome \<Rightarrow> unit outcome \<Rightarrow> response \<Rightarrow> reply" where
  "headChecking doesExist permCheck w =
     (if doesExist = Panic \<or> permCheck = Panic then Crash
      else
        (let w1 = head_error doesExist w;
             w2 = head_error permCheck w1;
             w3 = (if doesExist \<noteq> Ok True then headResponse StatusNotFound w2 else w2)
         in Reply (headResponse 200 w3)))"

subsection \<open>What is sent\<close>

lemma rs_status_simps [simp, http_simps]:
  "rs_status new_response = None"
  "rs_status (WriteHeader st w) = Some (case rs_status w of None \<Rightarrow> st | Some st' \<Rightarrow> st')"
  "rs_status (Encode v w) = Some (case rs_status w of None \<Rightarrow> 200 | Some st' \<Rightarrow> st')"
  "rs_status (jsonErrorReport m st w) = Some (case rs_status w of None \<Rightarrow> st | Some st' \<Rightarrow> st')"
  by (simp_all add: new_response_def WriteHeader_def Encode_def jsonErrorReport_def Let_def split: option.split)

lemma sent_status_simps [simp, http_simps]:
  "sent_status new_response = 200"
  "sent_status (WriteHeader st w) = (case rs_status w of None \<Rightarrow> st | Some st' \<Rightarrow> st')"
  "sent_status (Encode v w) = sent_status w"
  "sent_status (jsonErrorReport m st w) = (case rs_status w of None \<Rightarrow> st | Some st' \<Rightarrow> st')"
  by (simp_all add: sent_status_def split: option.split)

lemma rs_body_simps [simp, http_simps]:
  "rs_body new_response = []"
  "rs_body (WriteHeader st w) = rs_body w"
  "rs_body (Encode v w) = rs_body w @ [v]"
  "rs_body (jsonErrorReport m st w) = rs_body w @ [GMap [(''error'', GStrs [m])]]"
  by (simp_all add: new_response_def WriteHeader_def Encode_def jsonErrorReport_def Let_def split: option.split)

lemma attempt_simps [simp]:
  "attempt (Ok x) s f k = k x" "attempt (Err e) s f k = f e" "attempt Panic s f k = (Crash, s)"
  by (simp_all add: attempt_def)

lemma attempt_cases:
  obtains (Ok) x where "res = Ok x" "attempt res s f k = k x"
  | (Err) e where "res = Err e" "attempt res s f k = f e"
  | (Panic) "res = Panic" "attempt res s f k = (Crash, s)"
  by (cases res) auto

text \<open>The answer to a HEAD request, although \<open>headChecking\<close> writes up to four statuses:
  an error of the look-up goes first, then one of the permission check, then 404 if the
  object does not exist, and 200 only if it exists and may be read. Nothing is written to the
  body.\<close>

theorem head_status:
  "headChecking found perm new_response =
     (if found = Panic \<or> perm = Panic then Crash
      else Reply \<lparr>rs_status = Some (case found of Err e \<Rightarrow> status e
                                    | _ \<Rightarrow> (case perm of Err e \<Rightarrow> status e
                                            | _ \<Rightarrow> if found = Ok True then 200 else 404)),
                 rs_body = []\<rparr>)"
  by (cases found; cases perm)
    (auto simp: headChecking_def head_error_def headResponse_def new_response_def WriteHeader_def Let_def
      StatusNotFound_def)

end
