(* ===== verification/Authentication.thy ===== *)
theory Authentication
  imports Http
begin

text \<open>
  \<^verbatim>\<open>authentication/authentication.go\<close>: the check of the signature that a request carries in its
  headers. Header names are canonical, as \<open>net/http\<close> keeps them.

  The parameter \<open>al\<close> stands for the cryptography: the digests, Base64, the two signature checks
  and the decryption of \<open>chefcrypto\<close>, and the parsing of an RFC 3339 time into nanoseconds.
  Times and durations are nanoseconds; a \<open>time.Duration\<close> is a signed 64-bit integer.
\<close>

record authlib =
  al_ParseTime :: "string \<Rightarrow> int outcome"
  al_sha1 :: "string \<Rightarrow> string"
  al_sha256 :: "string \<Rightarrow> string"
  al_EncodeToString :: "string \<Rightarrow> string"
  al_DecodeString :: "string \<Rightarrow> string outcome"
  al_Auth12HeaderVerify :: "string \<Rightarrow> string \<Rightarrow> string \<Rightarrow> gerror option"
  al_Auth13HeaderVerify :: "string \<Rightarrow> string \<Rightarrow> string \<Rightarrow> gerror option"
  al_HeaderDecrypt :: "string \<Rightarrow> string \<Rightarrow> string outcome"

subsection \<open>Time stamps\<close>

definition min_duration :: int where "min_duration = - (2 ^ 63)"
definition max_duration :: int where "max_duration = 2 ^ 63 - 1"

text \<open>\<open>Time.Sub\<close> saturates; the negation of a duration wraps around.\<close>

definition time_Sub :: "int \<Rightarrow> int \<Rightarrow> int" where
  "time_Sub t u =
     (if t - u < min_duration then min_duration else if max_duration < t - u then max_duration else t - u)"

definition duration_neg :: "int \<Rightarrow> int" where
  "duration_neg d = (if d = min_duration then min_duration else - d)"

definition checkTimeStamp :: "authlib \<Rightarrow> int \<Rightarrow> string \<Rightarrow> int \<Rightarrow> unit outcome" where
  "checkTimeStamp al timeNow timestamp slew =
     (case al_ParseTime al timestamp of
        Panic \<Rightarrow> Panic
      | Err terr \<Rightarrow> ErrorS (msg terr) StatusUnauthorized
      | Ok timeHeader \<Rightarrow>
          (let tdiff = time_Sub timeNow timeHeader;
               tdiff1 = (if tdiff < 0 then duration_neg tdiff else tdiff)
           in if slew < tdiff1
              then ErrorS ''Authentication failed. Please check your system's clock.'' StatusUnauthorized
              else Ok ()))"

subsection \<open>Hashes\<close>

definition hashStr :: "authlib \<Rightarrow> string \<Rightarrow> string" where
  "hashStr al toHash = al_EncodeToString al (al_sha1 al toHash)"

definition hashSha256Str :: "authlib \<Rightarrow> string \<Rightarrow> string" where
  "hashSha256Str al toHash = al_EncodeToString al (al_sha256 al toHash)"

definition calcBodyHash :: "authlib \<Rightarrow> request \<Rightarrow> string \<Rightarrow> string" where
  "calcBodyHash al r apiVer =
     (if apiVer = ''1.3'' then hashSha256Str al (r_RawBody r) else hashStr al (r_RawBody r))"

subsection \<open>The headers X-Ops-Authorization-N\<close>

definition auth_prefix :: string where "auth_prefix = ''X-Ops-Authorization-''"

text \<open>The regular expression \<open>(?i)^X-Ops-Authorization-(\d+)\<close> on a canonical name.\<close>

definition auth_index :: "string \<Rightarrow> string option" where
  "auth_index k =
     (if take 20 k = auth_prefix then
        (let ds = takeWhile is_digit (drop 20 k) in if ds = [] then None else Some ds)
      else None)"

definition header_store :: "request \<Rightarrow> (int \<times> string) list" where
  "header_store r =
     fold (\<lambda>(k, _) st. (case auth_index k of
         None \<Rightarrow> st
       | Some ds \<Rightarrow> aput (fst (ParseInt10 ds)) (header_Get r k) st)) (r_Header r) []"

text \<open>The loop that puts the values into a slice; index -1 panics.\<close>

fun place_headers :: "int \<Rightarrow> (int \<times> string) list \<Rightarrow> string list \<Rightarrow> string list outcome" where
  "place_headers sHlimit [] sH = Ok sH"
| "place_headers sHlimit ((k, v) # st) sH =
     (if sHlimit < k then ErrorS ''malformed authentication headers'' StatusUnauthorized
      else if k < 1 then Panic
      else place_headers sHlimit st (sH[nat (k - 1) := v]))"

definition assembleSignedHeader :: "request \<Rightarrow> string outcome" where
  "assembleSignedHeader r =
     (let sHeadStore = header_store r
      in if sHeadStore = [] then ErrorS ''No authentication headers found!'' StatusUnauthorized
         else outcome_bind
                (place_headers (int (length sHeadStore)) sHeadStore (replicate (length sHeadStore) []))
                (\<lambda>sH. Ok (concat sH)))"

subsection \<open>The text that is signed\<close>

definition assembleHeaderToCheck :: "authlib \<Rightarrow> request \<Rightarrow> string \<Rightarrow> string \<Rightarrow> string" where
  "assembleHeaderToCheck al r cHash apiVer =
     (let nl = [CHR 0x0A]; method = method_text (r_Method r); cleanPath = path_Clean (r_Path r);
          timestamp = header_Get r ''X-Ops-Timestamp''; uid = header_Get r ''X-Ops-Userid'';
          userID = (if apiVer \<noteq> ''1.0'' \<and> apiVer \<noteq> ''1.3'' then hashStr al uid else uid)
      in if apiVer = ''1.3'' then
           ''Method:'' @ method @ nl @ ''Path:'' @ cleanPath @ nl @ ''X-Ops-Content-Hash:'' @ cHash @ nl @
           ''X-Ops-Sign:version='' @ apiVer @ nl @ ''X-Ops-Timestamp:'' @ timestamp @ nl @
           ''X-Ops-UserId:'' @ userID @ nl @ ''X-Ops-Server-API-Version:'' @
           header_Get r ''X-Ops-Server-Api-Version''
         else
           ''Method:'' @ method @ nl @ ''Hashed Path:'' @ hashStr al cleanPath @ nl @
           ''X-Ops-Content-Hash:'' @ cHash @ nl @ ''X-Ops-Timestamp:'' @ timestamp @ nl @
           ''X-Ops-UserId:'' @ userID)"

definition verify_digest :: "gerror option \<Rightarrow> unit outcome" where
  "verify_digest err = (case err of None \<Rightarrow> Ok () | Some e \<Rightarrow> Err (CastErr e))"

definition cast_error :: "'a outcome \<Rightarrow> 'a outcome" where
  "cast_error res = (case res of Err e \<Rightarrow> Err (CastErr e) | _ \<Rightarrow> res)"

definition checkAuth12Headers :: "authlib \<Rightarrow> string \<Rightarrow> string \<Rightarrow> string \<Rightarrow> unit outcome" where
  "checkAuth12Headers al publicKey headToCheck signedHeaders =
     outcome_bind (cast_error (al_DecodeString al signedHeaders)) (\<lambda>sig.
       verify_digest (al_Auth12HeaderVerify al publicKey (al_sha1 al headToCheck) sig))"

definition checkAuth13Headers :: "authlib \<Rightarrow> string \<Rightarrow> string \<Rightarrow> string \<Rightarrow> unit outcome" where
  "checkAuth13Headers al publicKey headToCheck signedHeaders =
     outcome_bind (cast_error (al_DecodeString al signedHeaders)) (\<lambda>sig.
       verify_digest (al_Auth13HeaderVerify al publicKey (al_sha256 al headToCheck) sig))"

definition checkAuthHeaders :: "authlib \<Rightarrow> string \<Rightarrow> string \<Rightarrow> string \<Rightarrow> unit outcome" where
  "checkAuthHeaders al publicKey headToCheck signedHeaders =
     (case al_HeaderDecrypt al publicKey signedHeaders of
        Panic \<Rightarrow> Panic
      | Err berr \<Rightarrow> ErrorS (msg berr) StatusUnauthorized
      | Ok decHead \<Rightarrow>
          if decHead \<noteq> headToCheck then ErrorS ''failed to verify authorization'' StatusUnauthorized else Ok ())"

subsection \<open>X-Ops-Sign\<close>

text \<open>The leftmost matches of \<open>version=(\d+\.\d+)\<close> and \<open>algorithm=(\w+)\<close>.\<close>

definition version_here :: "string \<Rightarrow> string option" where
  "version_here t =
     (if take 8 t = ''version='' then
        (let a = takeWhile is_digit (drop 8 t); rest = dropWhile is_digit (drop 8 t)
         in case rest of
              [] \<Rightarrow> None
            | c # cs \<Rightarrow>
                (let b = takeWhile is_digit cs
                 in if a \<noteq> [] \<and> c = CHR ''.'' \<and> b \<noteq> [] then Some (a @ ''.'' @ b) else None))
      else None)"

definition algorithm_here :: "string \<Rightarrow> string option" where
  "algorithm_here t =
     (if take 10 t = ''algorithm='' then
        (let a = takeWhile is_word (drop 10 t) in if a = [] then None else Some a)
      else None)"

fun find_leftmost :: "(string \<Rightarrow> string option) \<Rightarrow> string \<Rightarrow> string option" where
  "find_leftmost here [] = here []"
| "find_leftmost here (c # cs) = (case here (c # cs) of Some m \<Rightarrow> Some m | None \<Rightarrow> find_leftmost here cs)"

definition check_sign :: "string \<Rightarrow> string outcome" where
  "check_sign xopssign =
     (if xopssign = [] then Errorf ''missing X-Ops-Sign header''
      else
        (case find_leftmost version_here xopssign of
           None \<Rightarrow> Errorf ''malformed version in X-Ops-Header''
         | Some apiVer \<Rightarrow>
             (if apiVer \<notin> {''1.0'', ''1.1'', ''1.2'', ''1.3''} then
                Errorf (''Bad version number '' @ sq apiVer @ '' in X-Ops-Header'')
              else
                (case find_leftmost algorithm_here xopssign of
                   None \<Rightarrow> Ok apiVer
                 | Some alg \<Rightarrow>
                     (if alg \<noteq> ''sha1'' \<and> \<not> (alg = ''sha256'' \<and> apiVer = ''1.3'') then
                        Errorf (''Unsupported hashing algorithm '' @ sq alg @ '' specified in X-Ops-Header'')
                      else Ok apiVer)))))"

subsection \<open>AuthenticateHeader and CheckHeader\<close>

text \<open>\<open>DefaultTimeSlew\<close> is 15 minutes.\<close>

definition default_slew :: int where "default_slew = 900000000000"

definition set_unauthorized :: "unit outcome \<Rightarrow> unit outcome" where
  "set_unauthorized res = (case res of Err e \<Rightarrow> Err (SetStatus StatusUnauthorized e) | _ \<Rightarrow> res)"

definition check_signature :: "authlib \<Rightarrow> string \<Rightarrow> string \<Rightarrow> string \<Rightarrow> string \<Rightarrow> unit outcome" where
  "check_signature al publicKey apiVer headToCheck signedHeaders =
     (if apiVer = ''1.3'' then checkAuth13Headers al publicKey headToCheck signedHeaders
      else if apiVer = ''1.2'' then checkAuth12Headers al publicKey headToCheck signedHeaders
      else checkAuthHeaders al publicKey headToCheck signedHeaders)"

definition AuthenticateHeader :: "authlib \<Rightarrow> int \<Rightarrow> string \<Rightarrow> int \<Rightarrow> request \<Rightarrow> unit outcome" where
  "AuthenticateHeader al timeNow publicKey timeSlew r =
     (let slew = (if timeSlew = 0 then default_slew else timeSlew);
          contentHash = header_Get r ''X-Ops-Content-Hash'';
          authTimestamp = header_Get r ''X-Ops-Timestamp''
      in if contentHash = [] then ErrorS ''no content hash provided'' StatusBadRequest
         else if authTimestamp = [] then ErrorS ''no timestamp header provided'' StatusBadRequest
         else
           outcome_bind (checkTimeStamp al timeNow authTimestamp slew) (\<lambda>_.
           outcome_bind (check_sign (header_Get r ''X-Ops-Sign'')) (\<lambda>apiVer.
             let chkHash = calcBodyHash al r apiVer
             in if chkHash \<noteq> contentHash then
                  ErrorS ''Content hash did not match hash of request body'' StatusUnauthorized
                else
                  outcome_bind (assembleSignedHeader r) (\<lambda>signedHeaders.
                    set_unauthorized
                      (check_signature al publicKey apiVer (assembleHeaderToCheck al r chkHash apiVer)
                         signedHeaders)))))"

definition CheckHeader :: "conf \<Rightarrow> authlib \<Rightarrow> int \<Rightarrow> string \<Rightarrow> request \<Rightarrow> server \<Rightarrow> unit outcome" where
  "CheckHeader cfg al timeNow userID r s =
     (case GetReqUser cfg userID s of
        Panic \<Rightarrow> Panic
      | Err _ \<Rightarrow>
          ErrorS (''Failed to authenticate as '' @ sq userID @
            ''. Ensure that your node_name and client key are correct.'') StatusUnauthorized
      | Ok user \<Rightarrow> AuthenticateHeader al timeNow (actor_PublicKey user) (TimeSlewDur cfg) r)"

subsection \<open>Which time stamps pass\<close>

text \<open>\<^bold>\<open>C24\<close>. A time stamp passes if it is within the allowed slew of the clock, in either
  direction. It also passes if it lies at least \<open>2 ^ 63\<close> nanoseconds, about 292 years, ahead of
  the clock: the difference saturates at the least duration, whose negation is itself again and
  thus below any slew. No other time stamp passes.\<close>

theorem timestamp_window:
  assumes "al_ParseTime al timestamp = Ok t" "0 \<le> slew" "slew < max_duration"
  shows "checkTimeStamp al now timestamp slew = Ok () \<longleftrightarrow> \<bar>now - t\<bar> \<le> slew \<or> 2 ^ 63 \<le> t - now"
proof -
  have "(if time_Sub now t < 0 then duration_neg (time_Sub now t) else time_Sub now t) \<le> slew
    \<longleftrightarrow> \<bar>now - t\<bar> \<le> slew \<or> 2 ^ 63 \<le> t - now"
    using assms(2,3) by (auto simp: time_Sub_def duration_neg_def min_duration_def max_duration_def)
  then show ?thesis using assms(1) by (auto simp: checkTimeStamp_def Let_def not_less)
qed

definition example_authlib :: authlib where
  "example_authlib =
     \<lparr>al_ParseTime = (\<lambda>t. if t = ''2000-01-01T00:00:00Z'' then Ok 0
                        else if t = ''2300-01-01T00:00:00Z'' then Ok 9467107200000000000
                        else Errorf ''parsing time''),
      al_sha1 = (\<lambda>t. t), al_sha256 = (\<lambda>t. t), al_EncodeToString = (\<lambda>t. t), al_DecodeString = Ok,
      al_Auth12HeaderVerify = (\<lambda>k h sig. if sig = k @ h then None else Some (gerror_New ''bad signature'')),
      al_Auth13HeaderVerify = (\<lambda>k h sig. if sig = k @ h then None else Some (gerror_New ''bad signature'')),
      al_HeaderDecrypt = (\<lambda>k t. if take (length k) t = k then Ok (drop (length k) t) else Errorf ''bad key'')\<rparr>"

theorem timestamp_window_witness:
  "checkTimeStamp example_authlib 60000000000 ''2000-01-01T00:00:00Z'' default_slew = Ok () \<and>
   checkTimeStamp example_authlib 1000000000000 ''2000-01-01T00:00:00Z'' default_slew \<noteq> Ok () \<and>
   checkTimeStamp example_authlib 60000000000 ''2300-01-01T00:00:00Z'' default_slew = Ok ()"
proof -
  have p: "al_ParseTime example_authlib ''2000-01-01T00:00:00Z'' = Ok 0"
    "al_ParseTime example_authlib ''2300-01-01T00:00:00Z'' = Ok 9467107200000000000"
    and s: "0 \<le> default_slew" "default_slew < max_duration"
    by (simp_all add: example_authlib_def default_slew_def max_duration_def)
  show ?thesis
    unfolding timestamp_window [OF p(1) s] timestamp_window [OF p(2) s] by (simp add: default_slew_def)
qed

subsection \<open>The signature is put together in order\<close>

definition auth_name :: "nat \<Rightarrow> string" where
  "auth_name i = auth_prefix @ string_of_nat i"

lemma auth_index_name [simp]: "auth_index (auth_name i) = Some (string_of_nat i)"
proof -
  have "take 20 (auth_name i) = auth_prefix" "drop 20 (auth_name i) = string_of_nat i"
    by (simp_all add: auth_name_def auth_prefix_def)
  moreover have "takeWhile is_digit (string_of_nat i) = string_of_nat i"
    using string_of_nat_digits by (simp add: takeWhile_eq_all_conv list_all_iff)
  ultimately show ?thesis unfolding auth_index_def Let_def by (simp del: takeWhile_eq_all_conv)
qed

lemma auth_name_inj: "auth_name i = auth_name j \<longleftrightarrow> i = j"
  using string_of_nat_inj by (auto simp: auth_name_def)

text \<open>\<open>keep_auth\<close> is the step of the loop over the headers.\<close>

definition keep_auth :: "request \<Rightarrow> string \<times> string list \<Rightarrow> (int \<times> string) list \<Rightarrow> (int \<times> string) list" where
  "keep_auth r = (\<lambda>(k, _) st. (case auth_index k of
       None \<Rightarrow> st | Some ds \<Rightarrow> aput (fst (ParseInt10 ds)) (header_Get r k) st))"

lemma keep_auth_simps:
  "auth_index k = None \<Longrightarrow> keep_auth r (k, vs) st = st"
  "i < 2 ^ 63 \<Longrightarrow> keep_auth r (auth_name i, vs) st = aput (int i) (header_Get r (auth_name i)) st"
  by (simp_all add: keep_auth_def ParseInt10_string_of_nat)

lemma fold_keep_auth:
  assumes "\<forall>k\<in>fst ` set hs. auth_index k = None \<or> (\<exists>i. i < 2 ^ 63 \<and> k = auth_name i)"
    and "distinct (map fst st)"
  shows "distinct (map fst (fold (keep_auth r) hs st)) \<and>
    map_of (fold (keep_auth r) hs st) x =
      (if \<exists>i<2 ^ 63. x = int i \<and> auth_name i \<in> fst ` set hs then Some (header_Get r (auth_name (nat x)))
       else map_of st x)"
  using assms
proof (induction hs arbitrary: st)
  case Nil
  then show ?case by simp
next
  case (Cons h hs)
  obtain k vs where h: "h = (k, vs)" by (cases h)
  from Cons.prems(1) h consider "auth_index k = None" | i where "i < 2 ^ 63" "k = auth_name i" by auto
  then show ?case
  proof cases
    case 1
    then have "auth_name i \<noteq> k" for i by auto
    with Cons 1 h show ?thesis by (auto simp: keep_auth_simps)
  next
    case (2 i)
    have "distinct (map fst (aput (int i) (header_Get r k) st))" using Cons.prems(2) by simp
    from Cons.IH [OF _ this] Cons.prems(1) h 2 show ?thesis
      by (auto simp: keep_auth_simps auth_name_inj map_of_aput)
  qed
qed

lemma place_headers_Ok:
  assumes "distinct (map fst st)" "\<forall>k\<in>fst ` set st. 1 \<le> k \<and> k \<le> int (length sH)"
  shows "place_headers (int (length sH)) st sH =
    Ok (map (\<lambda>i. case map_of st (int i + 1) of Some v \<Rightarrow> v | None \<Rightarrow> sH ! i) [0..<length sH])"
  using assms
proof (induction st arbitrary: sH)
  case Nil
  show ?case by (simp add: map_nth)
next
  case (Cons kv st)
  obtain k v where kv: "kv = (k, v)" by (cases kv)
  let ?sH = "sH[nat (k - 1) := v]"
  from Cons.prems kv have k: "1 \<le> k" "k \<le> int (length sH)" "k \<notin> fst ` set st" by auto
  have "place_headers (int (length sH)) (kv # st) sH = place_headers (int (length ?sH)) st ?sH"
    using k kv by simp
  also have "\<dots> = Ok (map (\<lambda>i. case map_of st (int i + 1) of Some w \<Rightarrow> w | None \<Rightarrow> ?sH ! i) [0..<length ?sH])"
    by (rule Cons.IH) (use Cons.prems in auto)
  also have "\<dots> = Ok (map (\<lambda>i. case map_of (kv # st) (int i + 1) of Some w \<Rightarrow> w | None \<Rightarrow> sH ! i) [0..<length sH])"
  proof -
    have "map_of st k = None" using k(3) by (simp add: map_of_eq_None_iff)
    moreover have "k = int i + 1 \<longleftrightarrow> nat (k - 1) = i" for i using k by auto
    ultimately show ?thesis using k kv
      by (auto simp: nth_list_update split: option.splits)
  qed
  finally show ?case .
qed

text \<open>The parts of a signature sent in the headers \<open>X-Ops-Authorization-1\<close> to \<open>-n\<close> are put
  together in the order of their numbers, whatever the order in which the map of headers is
  walked and whatever other headers there are.\<close>

theorem signature_in_order:
  assumes "{k \<in> fst ` set (r_Header r). auth_index k \<noteq> None} = auth_name ` {1..n}"
    and "0 < n" "n < 2 ^ 63"
  shows "assembleSignedHeader r = Ok (concat (map (\<lambda>i. header_Get r (auth_name i)) [1..<Suc n]))"
proof -
  let ?st = "header_store r"
  have st: "?st = fold (keep_auth r) (r_Header r) []" by (simp add: header_store_def keep_auth_def)
  have names: "auth_name i \<in> fst ` set (r_Header r) \<longleftrightarrow> 1 \<le> i \<and> i \<le> n" for i
  proof -
    have "auth_name i \<in> {k \<in> fst ` set (r_Header r). auth_index k \<noteq> None} \<longleftrightarrow> i \<in> {1..n}"
      unfolding assms(1) by (auto simp: auth_name_inj)
    then show ?thesis by simp
  qed
  have "\<forall>k\<in>fst ` set (r_Header r). auth_index k = None \<or> (\<exists>i. i < 2 ^ 63 \<and> k = auth_name i)"
  proof
    fix k assume "k \<in> fst ` set (r_Header r)"
    then consider "auth_index k = None" | i where "i \<le> n" "k = auth_name i"
    proof (cases "auth_index k = None")
      case False
      with \<open>k \<in> _\<close> have "k \<in> auth_name ` {1..n}" unfolding assms(1) [symmetric] by blast
      then show ?thesis using that(2) by auto
    qed (rule that(1))
    then show "auth_index k = None \<or> (\<exists>i. i < 2 ^ 63 \<and> k = auth_name i)"
      by cases (use assms(3) le_less_trans in blast)+
  qed
  note F = fold_keep_auth [OF this, of "[]" r, folded st]
  have d: "distinct (map fst ?st)" using F by simp
  have m: "map_of ?st x = (if \<exists>i<2 ^ 63. x = int i \<and> auth_name i \<in> fst ` set (r_Header r)
      then Some (header_Get r (auth_name (nat x))) else map_of [] x)" for x
    by (rule conjunct2 [OF F]) simp
  have m2: "map_of ?st x = (if 1 \<le> x \<and> x \<le> int n then Some (header_Get r (auth_name (nat x))) else None)" for x
  proof -
    have "(\<exists>i<2 ^ 63. x = int i \<and> auth_name i \<in> fst ` set (r_Header r)) \<longleftrightarrow> 1 \<le> x \<and> x \<le> int n"
      unfolding names using assms(3) by (cases x) auto
    then show ?thesis unfolding m by simp
  qed
  have keys: "fst ` set ?st = {1..int n}"
  proof -
    have "x \<in> fst ` set ?st \<longleftrightarrow> x \<in> {1..int n}" for x
      using m2 [of x] by (auto simp: dom_map_of_conv_image_fst [symmetric] split: if_splits)
    then show ?thesis by blast
  qed
  have len: "length ?st = n"
    using distinct_card [OF d] keys by simp
  have "place_headers (int n) ?st (replicate n []) =
    Ok (map (\<lambda>i. case map_of ?st (int i + 1) of Some v \<Rightarrow> v | None \<Rightarrow> replicate n [] ! i) [0..<n])"
    using place_headers_Ok [OF d, of "replicate n []"] keys by simp
  also have "\<dots> = Ok (map (\<lambda>i. header_Get r (auth_name i)) [1..<Suc n])"
    by (auto simp: m2 map_Suc_upt [symmetric] nat_add_distrib simp del: upt_Suc)
  finally show ?thesis using len assms(2) by (auto simp: assembleSignedHeader_def Let_def)
qed

definition example_request :: "http_method \<Rightarrow> string \<Rightarrow> (string \<times> string list) list \<Rightarrow> request" where
  "example_request m p hs =
     \<lparr>r_Method = m, r_Path = p, r_Form = [], r_Header = hs, r_OpUser = None, r_RawBody = [],
      r_GzipError = None, r_Body = [], r_JSON = Ok None, r_ContentLength = 0, r_RemoteAddr = [],
      r_QueryError = None\<rparr>"

lemma auth_name_small: "auth_name (Suc 0) = ''X-Ops-Authorization-1''" "auth_name 2 = ''X-Ops-Authorization-2''"
  by code_simp+

lemma auth_index_Host: "auth_index ''Host'' = None"
  by code_simp

theorem signature_in_order_witness:
  "assembleSignedHeader (example_request MethodGet ''/nodes''
     [(''X-Ops-Authorization-2'', [''b'']), (''Host'', [''h'']), (''X-Ops-Authorization-1'', [''a''])]) = Ok ''ab''"
  (is "assembleSignedHeader ?r = _")
proof -
  have h: "fst ` set (r_Header ?r) = {auth_name (Suc 0), auth_name 2, ''Host''}"
    by (auto simp: example_request_def auth_name_small)
  have "{k \<in> fst ` set (r_Header ?r). auth_index k \<noteq> None} = auth_name ` {1..2}"
    unfolding h by (auto simp: auth_index_Host numeral_2_eq_2 atLeastAtMostSuc_conv)
  from signature_in_order [OF this] show ?thesis
    by (simp add: example_request_def header_Get_def header_values_def upt_rec auth_name_small
        numeral_2_eq_2 [symmetric])
qed

end
