(* ===== verification/ActorHandlers.thy ===== *)
theory ActorHandlers
  imports Http
begin

text \<open>
  The handlers for clients and users: \<^verbatim>\<open>clients.go\<close>, \<^verbatim>\<open>users.go\<close>, the parts of
  \<^verbatim>\<open>lists.go\<close> on \<open>/clients\<close> and \<open>/users\<close>, \<^verbatim>\<open>principals.go\<close> and
  \<^verbatim>\<open>authenticate_users.go\<close>. \<open>wd\<close> is the outside world, \<open>cr\<close> the cryptography.
\<close>

subsection \<open>clients.go\<close>

definition not_allowed :: "response \<Rightarrow> server \<Rightarrow> reply \<times> server" where
  "not_allowed w s = reply_error ''You are not allowed to perform that action.'' StatusForbidden w s"

definition client_delete :: "conf \<Rightarrow> world \<Rightarrow> actor \<Rightarrow> string \<Rightarrow> server \<Rightarrow> reply \<times> server" where
  "client_delete cfg wd opUser clientName s =
     attempt (client_Get clientName s) s (\<lambda>gerr. reply_error (msg gerr) (status gerr) new_response s)
       (\<lambda>chefClient.
          if \<not> IsAdmin cfg opUser \<and> \<not> IsSelf cfg opUser (AClient chefClient) then
            reply_error ''Deleting that client is forbidden'' StatusForbidden new_response s
          else
            (let s1 = LogEvent cfg wd opUser (client_logobj chefClient) ''delete'' s;
                 (err, s2) = client_Delete chefClient s1
             in attempt err s2 (\<lambda>e. reply_error (msg e) StatusForbidden new_response s2)
                  (\<lambda>_. reply_json (GMap (client_ToJSON chefClient)) new_response s2)))"

definition client_head :: "conf \<Rightarrow> actor \<Rightarrow> string \<Rightarrow> server \<Rightarrow> reply \<times> server" where
  "client_head cfg opUser clientName s =
     (headChecking (Ok (client_DoesExist clientName s))
        (if \<not> IsAdmin cfg opUser then
           outcome_bind (client_Get clientName s)
             (\<lambda>chefClient. if \<not> IsSelf cfg opUser (AClient chefClient) then headForbidden else Ok ())
         else Ok ())
        new_response, s)"

definition client_get :: "conf \<Rightarrow> actor \<Rightarrow> string \<Rightarrow> server \<Rightarrow> reply \<times> server" where
  "client_get cfg opUser clientName s =
     attempt (client_Get clientName s) s (\<lambda>gerr. reply_error (msg gerr) (status gerr) new_response s)
       (\<lambda>chefClient.
          if \<not> IsAdmin cfg opUser \<and> \<not> IsSelf cfg opUser (AClient chefClient) then not_allowed new_response s
          else reply_json (GMap (client_ToJSON chefClient)) new_response s)"

text \<open>A client that is not an administrator may not make itself one, nor a validator unless it
  is one already.\<close>

definition client_perm_edit :: "conf \<Rightarrow> actor \<Rightarrow> gobj \<Rightarrow> unit outcome" where
  "client_perm_edit cfg opUser clientData =
     (if IsAdmin cfg opUser then Ok ()
      else
        (let aerr = CheckPermEdit clientData ''admin'';
             verr = (if IsValidator cfg opUser then Ok () else CheckPermEdit clientData ''validator'')
         in (if aerr \<noteq> Ok () \<and> verr \<noteq> Ok () then
               ErrorS ''Client can be either an admin or a validator, but not both.'' StatusBadRequest
             else if aerr \<noteq> Ok () then aerr else verr)))"

definition client_put_public_key :: "crypto \<Rightarrow> gobj \<Rightarrow> client \<Rightarrow> gobj \<Rightarrow> (client \<times> gobj) outcome" where
  "client_put_public_key cr clientData chefClient jsonClient =
     (if ghas clientData ''public_key'' then
        (case gget clientData ''public_key'' of
           GStr pk \<Rightarrow>
             (case cr_ValidatePublicKey cr pk of
                Some pkerr \<Rightarrow> Errorf (msg pkerr)
              | None \<Rightarrow> Ok (snd (client_SetPublicKey cr (GStr pk) chefClient),
                            aput ''public_key'' (GStr pk) jsonClient))
         | GNil \<Rightarrow> Ok (chefClient, jsonClient)
         | _ \<Rightarrow> Errorf ''Bad request'')
      else Ok (chefClient, jsonClient))"

definition client_put_private_key :: "crypto \<Rightarrow> gobj \<Rightarrow> client \<Rightarrow> gobj \<Rightarrow> (client \<times> gobj) outcome" where
  "client_put_private_key cr clientData chefClient jsonClient =
     (if ghas clientData ''private_key'' then
        (case gget clientData ''private_key'' of
           GBool p \<Rightarrow>
             (if p then
                (case client_GenerateKeys cr chefClient of
                   (Ok privPem, c1) \<Rightarrow>
                     Ok (c1, aput ''public_key'' (GStr (cl_pubKey c1)) (aput ''private_key'' (GStr privPem) jsonClient))
                 | (Err e, _) \<Rightarrow> ErrorS (msg e) StatusInternalServerError
                 | (Panic, _) \<Rightarrow> Panic)
              else Ok (chefClient, jsonClient))
         | _ \<Rightarrow> Errorf ''Bad request'')
      else Ok (chefClient, jsonClient))"

text \<open>The part of PUT after a possible renaming; \<open>w\<close> has status 201 if there was one. The
  result of \<open>Save\<close> is not looked at.\<close>

definition client_put_update ::
  "conf \<Rightarrow> world \<Rightarrow> crypto \<Rightarrow> actor \<Rightarrow> gobj \<Rightarrow> gobj \<Rightarrow> client \<Rightarrow> response \<Rightarrow> server \<Rightarrow> reply \<times> server" where
  "client_put_update cfg wd cr opUser clientData jsonClient chefClient w s =
     attempt (client_UpdateFromJSON clientData chefClient s) s
       (\<lambda>uerr. reply_error (msg uerr) (status uerr) w s)
       (\<lambda>c1. attempt (client_put_public_key cr clientData c1 jsonClient) s
          (\<lambda>e. reply_error (msg e) (status e) w s)
          (\<lambda>(c2, j2). attempt (client_put_private_key cr clientData c2 j2) s
             (\<lambda>e. reply_error (msg e) (status e) w s)
             (\<lambda>(c3, j3).
                let s1 = snd (client_Save c3 s);
                    s2 = LogEvent cfg wd opUser (client_logobj c3) ''modify'' s1
                in reply_json (GMap j3) w s2)))"

definition client_put_rename ::
  "conf \<Rightarrow> world \<Rightarrow> crypto \<Rightarrow> actor \<Rightarrow> string \<Rightarrow> gobj \<Rightarrow> client \<Rightarrow> server \<Rightarrow> reply \<times> server" where
  "client_put_rename cfg wd cr opUser clientName clientData chefClient s =
     attempt (ValidateAsString (gget clientData ''name'')) s
       (\<lambda>sterr. reply_error (msg sterr) StatusBadRequest new_response s)
       (\<lambda>jsonName.
          let jsonClient = client_ToJSON chefClient
          in if clientName \<noteq> jsonName then
               (let s1 = LogEvent cfg wd opUser (client_logobj chefClient) ''modify'' s;
                    (err, c1, s2) = client_Rename jsonName chefClient s1
                in attempt err s2 (\<lambda>e. reply_error (msg e) (status e) new_response s2)
                     (\<lambda>_. client_put_update cfg wd cr opUser clientData jsonClient c1
                            (WriteHeader 201 new_response) s2))
             else client_put_update cfg wd cr opUser clientData jsonClient chefClient new_response s)"

definition client_put :: "conf \<Rightarrow> world \<Rightarrow> crypto \<Rightarrow> request \<Rightarrow> actor \<Rightarrow> string \<Rightarrow> server \<Rightarrow> reply \<times> server" where
  "client_put cfg wd cr r opUser clientName s =
     attempt (parseObjJSON r) s (\<lambda>jerr. reply_error (msg jerr) StatusBadRequest new_response s)
       (\<lambda>body. let clientData = reads body in
          attempt (client_Get clientName s) s (\<lambda>err. reply_error (msg err) StatusNotFound new_response s)
            (\<lambda>chefClient.
               attempt (CheckAdminPlusValidator clientData) s
                 (\<lambda>averr. reply_error (msg averr) (status averr) new_response s)
                 (\<lambda>_. if \<not> IsAdmin cfg opUser \<and> \<not> IsSelf cfg opUser (AClient chefClient) then not_allowed new_response s
                     else attempt (client_perm_edit cfg opUser clientData) s
                            (\<lambda>e. reply_error (msg e) (status e) new_response s)
                            (\<lambda>_. client_put_rename cfg wd cr opUser clientName clientData chefClient s))))"

definition clientHandler :: "conf \<Rightarrow> world \<Rightarrow> crypto \<Rightarrow> request \<Rightarrow> server \<Rightarrow> reply \<times> server" where
  "clientHandler cfg wd cr r s =
     attempt (path_elem (splitPath (r_Path r)) 1) s (\<lambda>_. (Crash, s)) (\<lambda>clientName.
     with_opUser r s (\<lambda>opUser.
       case r_Method r of
         MethodDelete \<Rightarrow> client_delete cfg wd opUser clientName s
       | MethodHead \<Rightarrow> client_head cfg opUser clientName s
       | MethodGet \<Rightarrow> client_get cfg opUser clientName s
       | MethodPut \<Rightarrow> client_put cfg wd cr r opUser clientName s
       | _ \<Rightarrow> reply_error ''Unrecognized method for client!'' StatusMethodNotAllowed new_response s))"

subsection \<open>users.go\<close>

definition user_delete :: "conf \<Rightarrow> world \<Rightarrow> actor \<Rightarrow> string \<Rightarrow> server \<Rightarrow> reply \<times> server" where
  "user_delete cfg wd opUser userName s =
     attempt (user_Get userName s) s (\<lambda>err. reply_error (msg err) StatusNotFound new_response s)
       (\<lambda>chefUser.
          if \<not> IsAdmin cfg opUser \<and> \<not> IsSelf cfg opUser (AUser chefUser) then
            reply_error ''Deleting that user is forbidden'' StatusForbidden new_response s
          else
            (let s1 = LogEvent cfg wd opUser (user_logobj chefUser) ''delete'' s;
                 (err, s2) = user_Delete chefUser s1
             in attempt err s2 (\<lambda>e. reply_error (msg e) StatusForbidden new_response s2)
                  (\<lambda>_. reply_json (GMap (user_ToJSON chefUser)) new_response s2)))"

definition user_head :: "conf \<Rightarrow> actor \<Rightarrow> string \<Rightarrow> server \<Rightarrow> reply \<times> server" where
  "user_head cfg opUser userName s =
     (headChecking (Ok (user_DoesExist userName s))
        (if \<not> IsAdmin cfg opUser then
           outcome_bind (user_Get userName s)
             (\<lambda>chefUser. if \<not> IsSelf cfg opUser (AUser chefUser) then ErrorS ''not same'' StatusForbidden else Ok ())
         else Ok ())
        new_response, s)"

definition user_get :: "conf \<Rightarrow> actor \<Rightarrow> string \<Rightarrow> server \<Rightarrow> reply \<times> server" where
  "user_get cfg opUser userName s =
     attempt (user_Get userName s) s (\<lambda>err. reply_error (msg err) StatusNotFound new_response s)
       (\<lambda>chefUser.
          if \<not> IsAdmin cfg opUser \<and> \<not> IsSelf cfg opUser (AUser chefUser) then not_allowed new_response s
          else reply_json (GMap (user_ToJSON chefUser)) new_response s)"

definition user_put_public_key :: "crypto \<Rightarrow> gobj \<Rightarrow> user \<Rightarrow> gobj \<Rightarrow> (user \<times> gobj) outcome" where
  "user_put_public_key cr userData chefUser jsonUser =
     (if ghas userData ''public_key'' then
        (case gget userData ''public_key'' of
           GStr pk \<Rightarrow>
             (case cr_ValidatePublicKey cr pk of
                Some pkerr \<Rightarrow> Errorf (msg pkerr)
              | None \<Rightarrow> Ok (snd (user_SetPublicKey cr (GStr pk) chefUser), aput ''public_key'' (GStr pk) jsonUser))
         | GNil \<Rightarrow> Ok (chefUser, jsonUser)
         | _ \<Rightarrow> Errorf ''Bad request'')
      else Ok (chefUser, jsonUser))"

definition user_put_private_key :: "crypto \<Rightarrow> gobj \<Rightarrow> user \<Rightarrow> gobj \<Rightarrow> (user \<times> gobj) outcome" where
  "user_put_private_key cr userData chefUser jsonUser =
     (if ghas userData ''private_key'' then
        (case gget userData ''private_key'' of
           GBool p \<Rightarrow>
             (if p then
                (case user_GenerateKeys cr chefUser of
                   (Ok privPem, u1) \<Rightarrow>
                     Ok (u1, aput ''public_key'' (GStr (us_pubKey u1)) (aput ''private_key'' (GStr privPem) jsonUser))
                 | (Err e, _) \<Rightarrow> ErrorS (msg e) StatusInternalServerError
                 | (Panic, _) \<Rightarrow> Panic)
              else Ok (chefUser, jsonUser))
         | _ \<Rightarrow> Errorf ''Bad request'')
      else Ok (chefUser, jsonUser))"

definition user_put_update ::
  "conf \<Rightarrow> world \<Rightarrow> crypto \<Rightarrow> actor \<Rightarrow> gobj \<Rightarrow> gobj \<Rightarrow> user \<Rightarrow> response \<Rightarrow> server \<Rightarrow> reply \<times> server" where
  "user_put_update cfg wd cr opUser userData jsonUser chefUser w s =
     (let (uerr, u1) = user_UpdateFromJSON cr userData chefUser s
      in attempt uerr s (\<lambda>e. reply_error (msg e) (status e) w s)
       (\<lambda>_. attempt (user_put_public_key cr userData u1 jsonUser) s
          (\<lambda>e. reply_error (msg e) (status e) w s)
          (\<lambda>(u2, j2). attempt (user_put_private_key cr userData u2 j2) s
             (\<lambda>e. reply_error (msg e) (status e) w s)
             (\<lambda>(u3, j3).
                let (serr, s1) = user_Save u3 s
                in attempt serr s1 (\<lambda>e. reply_error (msg e) (status e) w s1)
                     (\<lambda>_. reply_json (GMap j3) w
                            (LogEvent cfg wd opUser (user_logobj u3) ''modify'' s1))))))"

definition user_put_rename ::
  "conf \<Rightarrow> world \<Rightarrow> crypto \<Rightarrow> actor \<Rightarrow> string \<Rightarrow> gobj \<Rightarrow> user \<Rightarrow> server \<Rightarrow> reply \<times> server" where
  "user_put_rename cfg wd cr opUser userName userData chefUser s =
     attempt (ValidateAsString (gget userData ''name'')) s
       (\<lambda>sterr. reply_error (msg sterr) StatusBadRequest new_response s)
       (\<lambda>jsonName.
          let jsonUser = adel ''public_key'' (user_ToJSON chefUser)
          in if userName \<noteq> jsonName then
               (let (err, u1, s1) = user_Rename jsonName chefUser s
                in attempt err s1 (\<lambda>e. reply_error (msg e) (status e) new_response s1)
                     (\<lambda>_. user_put_update cfg wd cr opUser userData jsonUser u1
                            (WriteHeader 201 new_response) s1))
             else user_put_update cfg wd cr opUser userData jsonUser chefUser new_response s)"

definition user_put :: "conf \<Rightarrow> world \<Rightarrow> crypto \<Rightarrow> request \<Rightarrow> actor \<Rightarrow> string \<Rightarrow> server \<Rightarrow> reply \<times> server" where
  "user_put cfg wd cr r opUser userName s =
     attempt (parseObjJSON r) s (\<lambda>jerr. reply_error (msg jerr) StatusBadRequest new_response s)
       (\<lambda>body. let userData = reads body in
          attempt (user_Get userName s) s (\<lambda>err. reply_error (msg err) StatusNotFound new_response s)
            (\<lambda>chefUser.
               attempt (CheckAdminPlusValidator userData) s
                 (\<lambda>averr. reply_error (msg averr) (status averr) new_response s)
                 (\<lambda>_. if \<not> IsAdmin cfg opUser \<and> \<not> IsSelf cfg opUser (AUser chefUser) then not_allowed new_response s
                     else attempt (if IsAdmin cfg opUser then Ok () else CheckPermEdit userData ''admin'') s
                            (\<lambda>e. reply_error (msg e) (status e) new_response s)
                            (\<lambda>_. user_put_rename cfg wd cr opUser userName userData chefUser s))))"

definition userHandler :: "conf \<Rightarrow> world \<Rightarrow> crypto \<Rightarrow> request \<Rightarrow> server \<Rightarrow> reply \<times> server" where
  "userHandler cfg wd cr r s =
     attempt (path_elem (splitPath (r_Path r)) 1) s (\<lambda>_. (Crash, s)) (\<lambda>userName.
     with_opUser r s (\<lambda>opUser.
       case r_Method r of
         MethodHead \<Rightarrow> user_head cfg opUser userName s
       | MethodDelete \<Rightarrow> user_delete cfg wd opUser userName s
       | MethodGet \<Rightarrow> user_get cfg opUser userName s
       | MethodPut \<Rightarrow> user_put cfg wd cr r opUser userName s
       | _ \<Rightarrow> reply_error ''Unrecognized method for user!'' StatusMethodNotAllowed new_response s))"

subsection \<open>lists.go: clientHandling and userHandling\<close>

text \<open>The checks of both POSTs: only administrators and validators may create actors, and
  validators only plain ones.\<close>

definition create_perm :: "conf \<Rightarrow> actor \<Rightarrow> gobj \<Rightarrow> unit outcome" where
  "create_perm cfg opUser actorData =
     outcome_bind (CheckAdminPlusValidator actorData) (\<lambda>_.
       if \<not> IsAdmin cfg opUser \<and> \<not> IsValidator cfg opUser then
         ErrorS ''You are not allowed to take this action.'' StatusForbidden
       else if \<not> IsAdmin cfg opUser \<and> IsValidator cfg opUser then
         outcome_bind (CheckPermEdit actorData ''admin'') (\<lambda>_. CheckPermEdit actorData ''validator'')
       else Ok ())"

definition name_given :: "gobj \<Rightarrow> unit outcome" where
  "name_given actorData =
     (case ValidateAsString (gget actorData ''name'') of
        Panic \<Rightarrow> Panic
      | Err _ \<Rightarrow> Errorf ''Field 'name' missing''
      | Ok n \<Rightarrow> if n = [] then Errorf ''Field 'name' missing'' else Ok ())"

text \<open>The key of a new client: generated, or checked and taken from the request. The second
  component holds the generated private key.\<close>

definition client_new_key :: "crypto \<Rightarrow> gobj \<Rightarrow> client \<Rightarrow> (client \<times> (string \<times> string) list) outcome" where
  "client_new_key cr clientData chefClient =
     (let generate = (case client_GenerateKeys cr chefClient of
                        (Ok privPem, c1) \<Rightarrow> Ok (c1, [(''private_key'', privPem)])
                      | (Err e, _) \<Rightarrow> ErrorS (msg e) StatusInternalServerError
                      | (Panic, _) \<Rightarrow> Panic)
      in if \<not> ghas clientData ''public_key'' then generate
         else (case gget clientData ''public_key'' of
                 GStr publicKey \<Rightarrow>
                   (case cr_ValidatePublicKey cr publicKey of
                      Some pkerr \<Rightarrow> Err (CastErr pkerr)
                    | None \<Rightarrow> Ok (snd (client_SetPublicKey cr (GStr publicKey) chefClient), []))
               | GNil \<Rightarrow> generate
               | _ \<Rightarrow> Errorf ''Bad public key''))"

definition client_post :: "conf \<Rightarrow> world \<Rightarrow> crypto \<Rightarrow> request \<Rightarrow> actor \<Rightarrow> server \<Rightarrow> reply \<times> server" where
  "client_post cfg wd cr r opUser s =
     attempt (parseObjJSON r) s (\<lambda>jerr. reply_error (msg jerr) StatusBadRequest new_response s)
       (\<lambda>body. let clientData = reads body in
          attempt (outcome_bind (create_perm cfg opUser clientData) (\<lambda>_.
                   outcome_bind (name_given clientData) (\<lambda>_.
                   outcome_bind (client_NewFromJSON clientData s) (\<lambda>c. client_new_key cr clientData c)))) s
            (\<lambda>e. reply_error (msg e) (status e) new_response s)
            (\<lambda>(c, clientResponse).
               let (err, s1) = client_Save c s
               in attempt err s1 (\<lambda>e. reply_error (msg e) (status e) new_response s1)
                    (\<lambda>_. reply_json
                           (GStrMap (aput ''uri'' (ObjURL wd ''clients'' (cl_Name c))
                              (aput ''public_key'' (cl_pubKey c) clientResponse)))
                           (WriteHeader 201 new_response)
                           (LogEvent cfg wd opUser (client_logobj c) ''create'' s1))))"

definition clientHandling :: "conf \<Rightarrow> world \<Rightarrow> crypto \<Rightarrow> request \<Rightarrow> server \<Rightarrow> reply \<times> server" where
  "clientHandling cfg wd cr r s =
     with_opUser r s (\<lambda>opUser.
       case r_Method r of
         MethodGet \<Rightarrow> reply_json (GStrMap (url_list wd ''clients'' (client_GetList s))) new_response s
       | MethodPost \<Rightarrow> client_post cfg wd cr r opUser s
       | _ \<Rightarrow> reply_error ''Method not allowed for clients or users'' StatusMethodNotAllowed new_response s)"

definition user_new_key :: "crypto \<Rightarrow> gobj \<Rightarrow> user \<Rightarrow> (user \<times> (string \<times> string) list) outcome" where
  "user_new_key cr userData chefUser =
     (let generate = (case user_GenerateKeys cr chefUser of
                        (Ok privPem, u1) \<Rightarrow> Ok (u1, [(''private_key'', privPem)])
                      | (Err e, _) \<Rightarrow> ErrorS (msg e) StatusInternalServerError
                      | (Panic, _) \<Rightarrow> Panic)
      in if \<not> ghas userData ''public_key'' then generate
         else (case gget userData ''public_key'' of
                 GStr publicKey \<Rightarrow>
                   (case cr_ValidatePublicKey cr publicKey of
                      Some pkerr \<Rightarrow> Err (CastErr pkerr)
                    | None \<Rightarrow> Ok (snd (user_SetPublicKey cr (GStr publicKey) chefUser), []))
               | GNil \<Rightarrow> generate
               | _ \<Rightarrow> Errorf ''Bad public key''))"

text \<open>As for clients, but the result of \<open>Save\<close> is not looked at.\<close>

definition user_post :: "conf \<Rightarrow> world \<Rightarrow> crypto \<Rightarrow> request \<Rightarrow> actor \<Rightarrow> server \<Rightarrow> reply \<times> server" where
  "user_post cfg wd cr r opUser s =
     attempt (parseObjJSON r) s (\<lambda>jerr. reply_error (msg jerr) StatusBadRequest new_response s)
       (\<lambda>body. let userData = reads body in
          attempt (outcome_bind (create_perm cfg opUser userData) (\<lambda>_.
                   outcome_bind (name_given userData) (\<lambda>_.
                   outcome_bind (user_NewFromJSON cr userData s) (\<lambda>u. user_new_key cr userData u)))) s
            (\<lambda>e. reply_error (msg e) (status e) new_response s)
            (\<lambda>(u, userResponse).
               let s1 = snd (user_Save u s)
               in reply_json
                    (GStrMap (aput ''uri'' (ObjURL wd ''users'' (us_Username u))
                       (aput ''public_key'' (us_pubKey u) userResponse)))
                    (WriteHeader 201 new_response)
                    (LogEvent cfg wd opUser (user_logobj u) ''create'' s1)))"

definition userHandling :: "conf \<Rightarrow> world \<Rightarrow> crypto \<Rightarrow> request \<Rightarrow> server \<Rightarrow> reply \<times> server" where
  "userHandling cfg wd cr r s =
     with_opUser r s (\<lambda>opUser.
       case r_Method r of
         MethodGet \<Rightarrow> reply_json (GStrMap (url_list wd ''users'' (user_GetList s))) new_response s
       | MethodPost \<Rightarrow> user_post cfg wd cr r opUser s
       | _ \<Rightarrow> reply_error ''Method not allowed for clients or users'' StatusMethodNotAllowed new_response s)"

subsection \<open>principals.go\<close>

definition principalHandler :: "conf \<Rightarrow> request \<Rightarrow> server \<Rightarrow> reply \<times> server" where
  "principalHandler cfg r s =
     (let principalName = drop 12 (r_Path r)
      in case r_Method r of
           MethodGet \<Rightarrow>
             attempt (GetReqUser cfg principalName s) s
               (\<lambda>err. reply_error (msg err) StatusNotFound new_response s)
               (\<lambda>chefActor. reply_json
                  (GMap [(''name'', GStr (actor_name chefActor)),
                         (''type'', GStr (if IsUser chefActor then ''user'' else ''client'')),
                         (''public_key'', GStr (actor_PublicKey chefActor))]) new_response s)
         | MethodHead \<Rightarrow>
             attempt (GetReqUser cfg principalName s) s
               (\<lambda>_. (Reply (headResponse StatusNotFound new_response), s))
               (\<lambda>_. (Reply (headResponse 200 new_response), s))
         | _ \<Rightarrow> reply_error ''Unrecognized method for principals!'' StatusMethodNotAllowed new_response s)"

subsection \<open>authenticate\_users.go\<close>

definition auth_field :: "gobj \<Rightarrow> string \<Rightarrow> string outcome" where
  "auth_field authJSON k =
     (if ghas authJSON k then
        (case gget authJSON k of GStr v \<Rightarrow> Ok v | _ \<Rightarrow> Errorf (''Field '' @ sq k @ '' invalid''))
      else Errorf (''Field '' @ sq k @ '' missing''))"

definition validateJSON :: "gobj \<Rightarrow> (string \<times> string) outcome" where
  "validateJSON authJSON =
     outcome_bind (auth_field authJSON ''name'') (\<lambda>name.
     outcome_bind (auth_field authJSON ''password'') (\<lambda>password. Ok (name, password)))"

definition validateLogin :: "conf \<Rightarrow> crypto \<Rightarrow> string \<Rightarrow> string \<Rightarrow> server \<Rightarrow> bool outcome" where
  "validateLogin cfg cr name password s =
     (if \<not> UseAuth cfg then Ok True
      else (case user_Get name s of
              Panic \<Rightarrow> Panic
            | Err _ \<Rightarrow> Ok False
            | Ok u \<Rightarrow> (case CheckPasswd cr password u of Ok _ \<Rightarrow> Ok True | Err _ \<Rightarrow> Ok False | Panic \<Rightarrow> Panic)))"

definition authenticateUserHandler :: "conf \<Rightarrow> crypto \<Rightarrow> request \<Rightarrow> server \<Rightarrow> reply \<times> server" where
  "authenticateUserHandler cfg cr r s =
     attempt (r_JSON r) s (\<lambda>err. reply_error (msg err) StatusBadRequest new_response s)
       (\<lambda>body. attempt (validateJSON (reads body)) s
          (\<lambda>authErr. reply_error (msg authErr) StatusBadRequest new_response s)
          (\<lambda>(name, password). attempt (validateLogin cfg cr name password s) s (\<lambda>_. (Crash, s))
             (\<lambda>verified. reply_json (GMap [(''name'', GStr name), (''verified'', GBool verified)]) new_response s)))"

end
