(* ===== verification/Nodes.thy ===== *)
theory Nodes
  imports Requests
begin

text \<open>
  \<^verbatim>\<open>node/node.go\<close> and \<^verbatim>\<open>node/status.go\<close>: nodes and the status reports kept about them.

  Reading the latest status sorts a slice inside the store (see \<^verbatim>\<open>DataStore\<close>), so the
  operations that call it return the store. The clock is an argument: \<open>now\<close> is the time
  read, and where the code reads it once per node, a function of the node's name.

  The last part follows the index while nodes are saved and deleted and the goroutines of the
  indexer run: the steps \<open>node_index_step\<close> and the invariant of \<^verbatim>\<open>Index\<close>.
\<close>

subsection \<open>Nodes\<close>

definition node_New :: "string \<Rightarrow> server \<Rightarrow> node outcome" where
  "node_New name s =
     (if \<not> ValidateDBagName name then Errorf ''Field 'name' invalid''
      else if srv_Get ''node'' s name \<noteq> None then
        ErrorS (''Node '' @ name @ '' already exists'') StatusConflict
      else Ok \<lparr>nd_Name = name, nd_ChefEnvironment = ''_default'', nd_RunList = [],
               nd_JSONClass = ''Chef::Node'', nd_ChefType = ''node'', nd_Automatic = [],
               nd_Normal = [], nd_Default = [], nd_Override = [], nd_isDown = False\<rparr>)"

definition node_Get :: "string \<Rightarrow> server \<Rightarrow> node outcome" where
  "node_Get nodeName s =
     (case srv_Get ''node'' s nodeName of
        None \<Rightarrow> ErrorS (''node '' @ sq nodeName @ '' not found'') StatusNotFound
      | Some (VNode n) \<Rightarrow> Ok n
      | Some _ \<Rightarrow> Panic)"

definition node_DoesExist :: "string \<Rightarrow> server \<Rightarrow> bool" where
  "node_DoesExist nodeName s \<longleftrightarrow> srv_Get ''node'' s nodeName \<noteq> None"

definition node_GetMulti :: "string list \<Rightarrow> server \<Rightarrow> node list outcome" where
  "node_GetMulti nodeNames s = get_multi (\<lambda>n. node_Get n s) nodeNames"

definition node_valid_elements :: "string list" where
  "node_valid_elements =
     [''name'', ''json_class'', ''chef_type'', ''chef_environment'', ''run_list'', ''override'',
      ''normal'', ''default'', ''automatic'']"

definition node_env_field :: "string \<Rightarrow> gval \<Rightarrow> string outcome" where
  "node_env_field old v =
     (case ValidateAsFieldString v of
        Ok e \<Rightarrow> if \<not> ValidateEnvName e then Errorf ''Field 'chef_environment' invalid'' else Ok e
      | Err e \<Rightarrow> if msg e = ''Field 'name' nil'' then Ok old else Err e
      | Panic \<Rightarrow> Panic)"

definition node_fields_update :: "gobj \<Rightarrow> node \<Rightarrow> node outcome" where
  "node_fields_update jsonNode n =
     outcome_bind (ValidateRunList (gget jsonNode ''run_list'')) (\<lambda>rl.
     outcome_bind (ValidateAttributes ''normal'' (gget jsonNode ''normal'')) (\<lambda>no.
     outcome_bind (ValidateAttributes ''automatic'' (gget jsonNode ''automatic'')) (\<lambda>au.
     outcome_bind (ValidateAttributes ''default'' (gget jsonNode ''default'')) (\<lambda>de.
     outcome_bind (ValidateAttributes ''override'' (gget jsonNode ''override'')) (\<lambda>ov.
     outcome_bind (node_env_field (nd_ChefEnvironment n) (gget jsonNode ''chef_environment'')) (\<lambda>ce.
     outcome_bind (check_field ''json_class'' ''Chef::Node'' (nd_JSONClass n) (gget jsonNode ''json_class'')) (\<lambda>jc.
     outcome_bind (check_field ''chef_type'' ''node'' (nd_ChefType n) (gget jsonNode ''chef_type'')) (\<lambda>ct.
     Ok (n\<lparr>nd_ChefEnvironment := ce, nd_ChefType := ct, nd_JSONClass := jc, nd_RunList := rl,
           nd_Normal := no, nd_Automatic := au, nd_Default := de, nd_Override := ov\<rparr>)))))))))"

definition node_UpdateFromJSON :: "gobj \<Rightarrow> node \<Rightarrow> node outcome" where
  "node_UpdateFromJSON jsonNode n =
     outcome_bind (ValidateAsString (gget jsonNode ''name'')) (\<lambda>nodeName.
       if nd_Name n \<noteq> nodeName then
         Errorf (''Node name '' @ nd_Name n @ '' and '' @ nodeName @ '' from JSON do not match.'')
       else
         (case first_invalid_key node_valid_elements jsonNode of
            Some k \<Rightarrow> Errorf (''Invalid key '' @ k @ '' in request body'')
          | None \<Rightarrow> node_fields_update jsonNode n))"

definition node_NewFromJSON :: "gobj \<Rightarrow> server \<Rightarrow> node outcome" where
  "node_NewFromJSON jsonNode s =
     outcome_bind (ValidateAsString (gget jsonNode ''name'')) (\<lambda>nodeName.
     outcome_bind (node_New nodeName s) (\<lambda>node. node_UpdateFromJSON jsonNode node))"

definition node_fields :: "node \<Rightarrow> gobj" where
  "node_fields n =
     [(''name'', GStr (nd_Name n)), (''chef_environment'', GStr (nd_ChefEnvironment n)),
      (''run_list'', GStrs (nd_RunList n)), (''json_class'', GStr (nd_JSONClass n)),
      (''chef_type'', GStr (nd_ChefType n)), (''automatic'', GMap (nd_Automatic n)),
      (''normal'', GMap (nd_Normal n)), (''default'', GMap (nd_Default n)),
      (''override'', GMap (nd_Override n))]"

definition node_indexable :: "node \<Rightarrow> indexable" where
  "node_indexable n = \<lparr>DocID = nd_Name n, IndexName = ''node'', flat_tagged = True, flat_fields = node_fields n\<rparr>"

definition node_Save :: "node \<Rightarrow> server \<Rightarrow> server" where
  "node_Save n s = srv_Index (node_indexable n) (srv_Set ''node'' (nd_Name n) (VNode n) s)"

definition node_deleteStatuses :: "node \<Rightarrow> server \<Rightarrow> server" where
  "node_deleteStatuses n s = s\<lparr>srv_ds := snd (DeleteNodeStatus (nd_Name n) (srv_ds s))\<rparr>"

definition node_Delete :: "conf \<Rightarrow> node \<Rightarrow> server \<Rightarrow> server" where
  "node_Delete cfg n s =
     (let s1 = srv_Delete ''node'' (nd_Name n) s;
          s2 = (if UseSerf cfg then node_deleteStatuses n s1 else s1)
      in srv_Unindex ''node'' (nd_Name n) s2)"

definition node_GetList :: "server \<Rightarrow> string list" where
  "node_GetList s = srv_GetList ''node'' s"

definition AllNodes :: "server \<Rightarrow> node list outcome" where
  "AllNodes s = node_GetMulti (node_GetList s) s"

definition GetFromEnv :: "string \<Rightarrow> server \<Rightarrow> node list outcome" where
  "GetFromEnv envName s =
     outcome_bind (node_GetMulti (node_GetList s) s)
       (\<lambda>nodes. Ok (filter (\<lambda>n. nd_ChefEnvironment n = envName) nodes))"

definition node_Count :: "server \<Rightarrow> nat" where
  "node_Count s = length (node_GetList s)"

subsection \<open>Statuses\<close>

definition node_UpdateStatus :: "int \<Rightarrow> string \<Rightarrow> node \<Rightarrow> server \<Rightarrow> unit outcome \<times> node \<times> server" where
  "node_UpdateStatus now st n s =
     (if st \<noteq> ''new'' \<and> st \<noteq> ''up'' \<and> st \<noteq> ''down'' then (Errorf (''invalid node status '' @ st), n, s)
      else
        (let nodeDown = (st = ''down'');
             n1 = n\<lparr>nd_isDown := nodeDown\<rparr>;
             s1 = (if nodeDown \<noteq> nd_isDown n then node_Save n1 s else s);
             ns = \<lparr>ns_Node = n1, ns_Status = st, ns_UpdatedAt = now\<rparr>
         in (Ok (), n1, s1\<lparr>srv_ds := SetNodeStatus gob_codec (nd_Name n) (VNodeStatus ns) None (srv_ds s1)\<rparr>)))"

fun status_error_text :: "status_error \<Rightarrow> string" where
  "status_error_text ErrNoStatuses = ''No statuses in the datastore''"
| "status_error_text ErrNoStatusList = ''No status lists in the datastore''"
| "status_error_text (ErrNoNodeStatus n) = ''no statuses found for node '' @ n"

definition LatestStatus :: "node \<Rightarrow> server \<Rightarrow> node_status outcome \<times> server" where
  "LatestStatus n s =
     (let (r, ds) = LatestNodeStatus (nd_Name n) (srv_ds s)
      in (case r of
            Inl e \<Rightarrow> Errorf (status_error_text e)
          | Inr (Ok (VNodeStatus ns)) \<Rightarrow> Ok ns
          | Inr _ \<Rightarrow> Panic, s\<lparr>srv_ds := ds\<rparr>))"

fun as_statuses :: "dsval list \<Rightarrow> node_status list outcome" where
  "as_statuses [] = Ok []"
| "as_statuses (VNodeStatus ns # vs) = outcome_bind (as_statuses vs) (\<lambda>l. Ok (ns # l))"
| "as_statuses (_ # vs) = Panic"

definition AllStatuses :: "node \<Rightarrow> server \<Rightarrow> node_status list outcome" where
  "AllStatuses n s =
     (case AllNodeStatuses (nd_Name n) (srv_ds s) of
        Inl e \<Rightarrow> Errorf (status_error_text e)
      | Inr r \<Rightarrow> outcome_bind r as_statuses)"

definition status_ToJSON :: "(int \<Rightarrow> string) \<Rightarrow> node_status \<Rightarrow> (string \<times> string) list" where
  "status_ToJSON rfc3339 ns =
     [(''node_name'', nd_Name (ns_Node ns)), (''status'', ns_Status ns),
      (''updated_at'', rfc3339 (ns_UpdatedAt ns))]"

fun unseen_loop :: "int \<Rightarrow> node list \<Rightarrow> server \<Rightarrow> node list outcome \<times> server" where
  "unseen_loop t [] s = (Ok [], s)"
| "unseen_loop t (n # nodes) s =
     (case LatestStatus n s of
        (Panic, s1) \<Rightarrow> (Panic, s1)
      | (Err _, s1) \<Rightarrow> unseen_loop t nodes s1
      | (Ok ns, s1) \<Rightarrow>
          (let (r, s2) = unseen_loop t nodes s1
           in if nd_isDown n \<or> \<not> ns_UpdatedAt ns < t then (r, s2)
              else (outcome_bind r (\<lambda>down. Ok (n # down)), s2)))"

definition minute :: int where "minute = 60 * 10 ^ 9"

definition UnseenNodes :: "int \<Rightarrow> server \<Rightarrow> node list outcome \<times> server" where
  "UnseenNodes now s =
     (case AllNodes s of
        Ok nodes \<Rightarrow> unseen_loop (now - 10 * minute) nodes s
      | Err e \<Rightarrow> (Err e, s)
      | Panic \<Rightarrow> (Panic, s))"

fun by_status_loop :: "string \<Rightarrow> node list \<Rightarrow> server \<Rightarrow> node list outcome \<times> server" where
  "by_status_loop st [] s = (Ok [], s)"
| "by_status_loop st (n # nodes) s =
     (case LatestStatus n s of
        (Panic, s1) \<Rightarrow> (Panic, s1)
      | (Err _, s1) \<Rightarrow> by_status_loop st nodes s1
      | (Ok ns, s1) \<Rightarrow>
          (let (r, s2) = by_status_loop st nodes s1
           in if ns_Status ns = st then (outcome_bind r (\<lambda>l. Ok (n # l)), s2) else (r, s2)))"

definition GetNodesByStatus :: "string list \<Rightarrow> string \<Rightarrow> server \<Rightarrow> node list outcome \<times> server" where
  "GetNodesByStatus nodeNames st s =
     (case node_GetMulti nodeNames s of
        Ok nodes \<Rightarrow> by_status_loop st nodes s
      | Err e \<Rightarrow> (Err e, s)
      | Panic \<Rightarrow> (Panic, s))"

text \<open>
  Purging. The check \<open>nsErrChk\<close> asserts that the error is an \<open>ErrorNodeStatus\<close>, which is an
  interface every error has, so it is true of every error. \<open>sort.Sort\<close> may order statuses
  of the same instant either way; the model keeps them as they are, and the theorem about
  the result does not depend on it.
\<close>

definition status_before :: "node_status \<Rightarrow> node_status \<Rightarrow> bool" where
  "status_before a b \<longleftrightarrow> ns_UpdatedAt a < ns_UpdatedAt b"

definition newer_statuses :: "int \<Rightarrow> node_status list \<Rightarrow> node_status list" where
  "newer_statuses cutoff statuses =
     (let sorted = sort_by status_before statuses
      in drop (sort_Search (length sorted) (\<lambda>i. cutoff < ns_UpdatedAt (sorted ! i))) sorted)"

fun by_age_loop :: "(string \<Rightarrow> int) \<Rightarrow> int \<Rightarrow> node list \<Rightarrow> nat \<Rightarrow> server \<Rightarrow> nat outcome \<times> server" where
  "by_age_loop now dur [] j s = (Ok j, s)"
| "by_age_loop now dur (n # nodes) j s =
     (case AllStatuses n s of
        Err e \<Rightarrow> (Err e, s)
      | Panic \<Rightarrow> (Panic, s)
      | Ok [] \<Rightarrow> by_age_loop now dur nodes j s
      | Ok statuses \<Rightarrow>
          (let cutoff = now (nd_Name n) - dur
           in if cutoff < ns_UpdatedAt (hd (sort_by status_before statuses)) then by_age_loop now dur nodes j s
              else
                (let kept = newer_statuses cutoff statuses
                 in case ReplaceNodeStatuses gob_codec (nd_Name n) (map VNodeStatus kept) (srv_ds s) of
                      (Some e, ds) \<Rightarrow> (Errorf (status_error_text e), s\<lparr>srv_ds := ds\<rparr>)
                    | (None, ds) \<Rightarrow>
                        by_age_loop now dur nodes (j + (length statuses - length kept)) (s\<lparr>srv_ds := ds\<rparr>))))"

definition DeleteNodeStatusesByAge :: "(string \<Rightarrow> int) \<Rightarrow> int \<Rightarrow> server \<Rightarrow> nat outcome \<times> server" where
  "DeleteNodeStatusesByAge now dur s =
     (case AllNodes s of
        Ok nodes \<Rightarrow> if nodes = [] then (Ok 0, s) else by_age_loop now dur nodes 0 s
      | Err e \<Rightarrow> (Err e, s)
      | Panic \<Rightarrow> (Panic, s))"

subsection \<open>Saving, updating and deleting\<close>

fun unwrap_node :: "dsval \<Rightarrow> node outcome" where
  "unwrap_node (VNode n) = Ok n"
| "unwrap_node _ = Panic"

definition nodes_ok :: "server \<Rightarrow> bool" where
  "nodes_ok = typed_in (srv_Get ''node'') (\<lambda>s. ds_ok (srv_ds s)) VNode nd_Name (\<lambda>n. \<not> nd_isDown n)"

interpretation node_objects: typed_store "srv_Get ''node''" "srv_Set ''node''" "srv_Delete ''node''"
  "srv_GetList ''node''" gob_codec "\<lambda>s. ds_ok (srv_ds s)" VNode nd_Name "\<lambda>n. \<not> nd_isDown n" unwrap_node
  "\<lambda>k. SetStatus StatusNotFound (gerror_New (''node '' @ sq k @ '' not found''))" node_Get
  by (intro typed_store.intro srv_object_store typed_store_axioms.intro)
    (auto simp: gob_node_def node_Get_def split: option.split dsval.split)

lemma AllNodes_ok:
  assumes "nodes_ok s"
  shows "\<exists>nodes. AllNodes s = Ok nodes \<and> map nd_Name nodes = node_GetList s \<and> (\<forall>n\<in>set nodes. \<not> nd_isDown n)"
  using node_objects.fetch_all [OF assms [unfolded nodes_ok_def]]
  by (auto simp: AllNodes_def node_GetMulti_def node_GetList_def dest: get_multi_Ok)

lemma distinct_node_GetList: "nodes_ok s \<Longrightarrow> distinct (node_GetList s)"
  unfolding nodes_ok_def typed_in_def node_GetList_def
  by (metis node_objects.names_eq distinct_sorted_list_of_set)

lemma nodes_ok_cong: "srv_ds s = srv_ds s' \<Longrightarrow> nodes_ok s = nodes_ok s'"
  by (simp add: nodes_ok_def typed_in_def)

lemma nodes_ok_Save: "nodes_ok s \<Longrightarrow> \<not> nd_isDown n \<Longrightarrow> nodes_ok (node_Save n s)"
  using node_objects.typed_put [of s n] by (simp add: nodes_ok_def typed_in_def node_Save_def)

lemma node_fields_update_Ok:
  assumes "node_fields_update j n = Ok n'"
  shows "nd_Name n' = nd_Name n" "nd_isDown n' = nd_isDown n"
    "ValidateRunList (GStrs (nd_RunList n')) = Ok (nd_RunList n')"
    "ValidateEnvName (nd_ChefEnvironment n') \<or> nd_ChefEnvironment n' = nd_ChefEnvironment n"
    "nd_JSONClass n' = ''Chef::Node'' \<or> nd_JSONClass n' = nd_JSONClass n"
    "nd_ChefType n' = ''node'' \<or> nd_ChefType n' = nd_ChefType n"
proof -
  obtain rl no au de ov ce jc ct where r: "ValidateRunList (gget j ''run_list'') = Ok rl"
      "node_env_field (nd_ChefEnvironment n) (gget j ''chef_environment'') = Ok ce"
      "check_field ''json_class'' ''Chef::Node'' (nd_JSONClass n) (gget j ''json_class'') = Ok jc"
      "check_field ''chef_type'' ''node'' (nd_ChefType n) (gget j ''chef_type'') = Ok ct"
      "n' = n\<lparr>nd_ChefEnvironment := ce, nd_ChefType := ct, nd_JSONClass := jc, nd_RunList := rl,
           nd_Normal := no, nd_Automatic := au, nd_Default := de, nd_Override := ov\<rparr>"
    using assms unfolding node_fields_update_def by (auto simp only: outcome_bind_Ok_iff outcome.inject)
  show "ValidateRunList (GStrs (nd_RunList n')) = Ok (nd_RunList n')"
    using ValidateRunList_idem [OF r(1)] r(5) by simp
  show "ValidateEnvName (nd_ChefEnvironment n') \<or> nd_ChefEnvironment n' = nd_ChefEnvironment n"
    using r(2,5) by (auto simp: node_env_field_def split: outcome.splits if_splits)
  show "nd_JSONClass n' = ''Chef::Node'' \<or> nd_JSONClass n' = nd_JSONClass n"
    "nd_ChefType n' = ''node'' \<or> nd_ChefType n' = nd_ChefType n"
    using check_field_Ok [OF r(3)] check_field_Ok [OF r(4)] r(5) by simp_all
qed (use assms in \<open>auto simp: node_fields_update_def outcome_bind_Ok_iff\<close>)

text \<open>A node whose fields are as the code leaves them.\<close>

definition node_ok :: "node \<Rightarrow> bool" where
  "node_ok n \<longleftrightarrow> ValidateRunList (GStrs (nd_RunList n)) = Ok (nd_RunList n) \<and>
     ValidateEnvName (nd_ChefEnvironment n) \<and> nd_JSONClass n = ''Chef::Node'' \<and> nd_ChefType n = ''node'' \<and>
     \<not> nd_isDown n"

lemma node_ok_update: "node_UpdateFromJSON j n = Ok n' \<Longrightarrow> node_ok n \<Longrightarrow> node_ok n' \<and> nd_Name n' = nd_Name n"
  using node_fields_update_Ok [of j n n']
  by (auto simp: node_UpdateFromJSON_def node_ok_def outcome_bind_Ok_iff split: if_splits option.splits)

lemma node_ok_New: "node_New name s = Ok n \<Longrightarrow> node_ok n \<and> nd_Name n = name \<and> srv_Get ''node'' s name = None"
proof -
  assume n: "node_New name s = Ok n"
  have "ValidateEnvName ''_default''" "ValidateRunList (GStrs []) = Ok []" by code_simp+
  with n show ?thesis by (auto simp: node_New_def node_ok_def split: if_splits)
qed

lemma gget_node_fields:
  "gget (node_fields n) ''name'' = GStr (nd_Name n)"
  "gget (node_fields n) ''run_list'' = GStrs (nd_RunList n)"
  "gget (node_fields n) ''normal'' = GMap (nd_Normal n)"
  "gget (node_fields n) ''automatic'' = GMap (nd_Automatic n)"
  "gget (node_fields n) ''default'' = GMap (nd_Default n)"
  "gget (node_fields n) ''override'' = GMap (nd_Override n)"
  "gget (node_fields n) ''chef_environment'' = GStr (nd_ChefEnvironment n)"
  "gget (node_fields n) ''json_class'' = GStr (nd_JSONClass n)"
  "gget (node_fields n) ''chef_type'' = GStr (nd_ChefType n)"
  "first_invalid_key node_valid_elements (node_fields n) = None"
  by (simp_all add: node_fields_def gget_def node_valid_elements_def)

lemma node_update_id: "node_ok n \<Longrightarrow> node_UpdateFromJSON (node_fields n) n = Ok n"
  by (simp add: node_UpdateFromJSON_def node_fields_update_def gget_node_fields node_ok_def
      node_env_field_def check_field_def del: ValidateRunList.simps)

lemma nodes_ok_Delete: "nodes_ok s \<Longrightarrow> nodes_ok (node_Delete cfg n s)"
proof -
  assume "nodes_ok s"
  then have "nodes_ok (srv_Delete ''node'' (nd_Name n) s)"
    unfolding nodes_ok_def by (rule node_objects.typed_del)
  then show ?thesis
    by (auto simp: nodes_ok_def typed_in_def node_Delete_def node_deleteStatuses_def DeleteNodeStatus_def
        deleteStatuses_def ds_ok_def ds_Get_def names_of_def Let_def split: option.split)
qed

lemma node_Get_Save: "\<not> nd_isDown n \<Longrightarrow> node_Get k (node_Save n s) = (if k = nd_Name n then Ok n else node_Get k s)"
  using node_objects.fetch_put [of n k s] by (simp add: node_Save_def node_Get_def)

lemma node_Get_Delete:
  "node_Get k (node_Delete cfg n s) =
     (if k = nd_Name n then ErrorS (''node '' @ sq k @ '' not found'') StatusNotFound else node_Get k s)"
proof -
  have "node_Get k (node_Delete cfg n s) = node_Get k (srv_Delete ''node'' (nd_Name n) s)"
    by (simp add: node_Get_def node_Delete_def node_deleteStatuses_def DeleteNodeStatus_def
        deleteStatuses_def ds_Get_def Let_def split: option.split)
  then show ?thesis using node_objects.fetch_del [of k "nd_Name n" s] by simp
qed

text \<open>\<^bold>\<open>C14\<close>. A node made from a request body has a name no stored node had; saved, it is read
  back unchanged, beside all other nodes; sending back what was read changes nothing;
  and deleting it leaves the nodes there were before.\<close>

theorem node_roundtrip:
  assumes "nodes_ok s" "node_NewFromJSON body s = Ok n"
  shows "gget body ''name'' = GStr (nd_Name n) \<and> nd_Name n \<notin> set (node_GetList s) \<and>
    (\<forall>k. node_Get k (node_Save n s) = (if k = nd_Name n then Ok n else node_Get k s)) \<and>
    set (node_GetList (node_Save n s)) = insert (nd_Name n) (set (node_GetList s)) \<and>
    node_UpdateFromJSON (node_fields n) n = Ok n \<and>
    nodes_ok (node_Save n s) \<and> nodes_ok (node_Delete cfg n (node_Save n s)) \<and>
    (\<forall>k. node_Get k (node_Delete cfg n (node_Save n s)) = node_Get k s)"
proof -
  obtain n0 where n0: "gget body ''name'' = GStr (nd_Name n0)" "node_ok n0"
      "srv_Get ''node'' s (nd_Name n0) = None" "node_UpdateFromJSON body n0 = Ok n"
    using assms(2) node_ok_New [of _ s]
    by (cases "gget body ''name''") (auto simp: node_NewFromJSON_def outcome_bind_Ok_iff)
  have n: "node_ok n" "nd_Name n = nd_Name n0" using node_ok_update [OF n0(4,2)] by simp_all
  then have up: "\<not> nd_isDown n" by (simp add: node_ok_def)
  have okS: "nodes_ok (node_Save n s)" by (rule nodes_ok_Save [OF assms(1) up])
  have fresh: "nd_Name n \<notin> set (node_GetList s)"
    using assms(1) n0(3) n(2) node_objects.in_names_iff [of s "nd_Name n"]
    by (simp add: node_GetList_def nodes_ok_def typed_in_def)
  have list: "set (node_GetList (node_Save n s)) = insert (nd_Name n) (set (node_GetList s))"
    using assms(1) node_objects.set_names_put [of s "nd_Name n" "VNode n"]
    by (simp add: node_GetList_def nodes_ok_def typed_in_def node_Save_def)
  have none: "node_Get (nd_Name n) s = ErrorS (''node '' @ sq (nd_Name n) @ '' not found'') StatusNotFound"
    using n0(3) n(2) by (simp add: node_Get_def)
  have rest: "node_Get k (node_Delete cfg n (node_Save n s)) = node_Get k s" for k
    using none by (simp only: node_Get_Delete node_Get_Save [OF up] split: if_split) simp
  show ?thesis
    using n0(1) n fresh list okS nodes_ok_Delete [OF okS] rest node_Get_Save [OF up] node_update_id [OF n(1)]
    by simp
qed

definition example_node_body :: gobj where
  "example_node_body = [(''name'', GStr ''web''), (''run_list'', GStrs [''nginx'']),
     (''chef_environment'', GStr ''prod''), (''normal'', GMap [(''port'', GNum ''80'')])]"

definition example_node :: node where
  "example_node = \<lparr>nd_Name = ''web'', nd_ChefEnvironment = ''prod'', nd_RunList = [''recipe[nginx]''],
     nd_JSONClass = ''Chef::Node'', nd_ChefType = ''node'', nd_Automatic = [], nd_Normal = [(''port'', GNum ''80'')],
     nd_Default = [], nd_Override = [], nd_isDown = False\<rparr>"

lemma nodes_ok_new_server: "nodes_ok new_server"
  by (simp add: nodes_ok_def typed_in_def new_server_def ds_Get_def initDataStore_def [symmetric])
    (simp add: initDataStore_def)

lemma example_node_new: "node_NewFromJSON example_node_body new_server = Ok example_node"
  by code_simp

theorem node_roundtrip_witness:
  "node_Get ''web'' (node_Save example_node new_server) = Ok example_node \<and>
   node_UpdateFromJSON (node_fields example_node) example_node = Ok example_node"
proof -
  have "nd_Name example_node = ''web''" by (simp add: example_node_def)
  with node_roundtrip [OF nodes_ok_new_server example_node_new, of example_conf] show ?thesis by simp
qed

subsection \<open>The index follows the stored nodes\<close>

text \<open>
  The steps of a server that works on its nodes: a node is saved or deleted while no
  goroutine that indexes this node is pending, and any pending goroutine runs to its end.
\<close>

inductive node_index_step :: "conf \<Rightarrow> server \<Rightarrow> server \<Rightarrow> bool" for cfg where
  save: "(''node'', nd_Name n) \<notin> pending (srv_ix s) \<Longrightarrow> indexable_ok cfg (node_indexable n) \<Longrightarrow>
    node_index_step cfg s (node_Save n s)"
| delete: "(''node'', nd_Name n) \<notin> pending (srv_ix s) \<Longrightarrow> node_index_step cfg s (node_Delete cfg n s)"
| run: "j < length (idx_jobs (srv_ix s)) \<Longrightarrow> run_job cfg j (srv_ix s) = Ok ix \<Longrightarrow>
    node_index_step cfg s (s\<lparr>srv_ix := ix\<rparr>)"

definition stored_docs :: "server \<Rightarrow> (string \<times> string) \<rightharpoonup> indexable" where
  "stored_docs s = (\<lambda>(c, k). if c = ''node''
     then (case node_Get k s of Ok n \<Rightarrow> Some (node_indexable n) | _ \<Rightarrow> None) else None)"

lemma obj_key_node [simp]: "obj_key (node_indexable n) = (''node'', nd_Name n)"
  by (simp add: obj_key_def node_indexable_def)

lemma stored_docs_Save: "stored_docs (node_Save n s) = (stored_docs s)((''node'', nd_Name n) \<mapsto> node_indexable n)"
proof -
  have "node_indexable (gob_node n) = node_indexable n"
    by (simp add: node_indexable_def node_fields_def gob_node_def)
  then have "stored_docs (node_Save n s) (c, k) = ((stored_docs s)((''node'', nd_Name n) \<mapsto> node_indexable n)) (c, k)" for c k
    using node_objects.get_put [of "nd_Name n" "VNode n" s] by (simp add: stored_docs_def node_Get_def node_Save_def)
  then show ?thesis by (simp only: fun_eq_iff split_paired_All) simp
qed

lemma stored_docs_Delete: "stored_docs (node_Delete cfg n s) = (stored_docs s)((''node'', nd_Name n) := None)"
  by (auto simp: fun_eq_iff stored_docs_def node_Get_Delete)

lemma stored_docs_ix [simp]: "stored_docs (s\<lparr>srv_ix := ix\<rparr>) = stored_docs s"
  by (simp add: stored_docs_def node_Get_def cong: if_cong)

lemma node_index_inv:
  "node_index_step cfg s s' \<Longrightarrow> index_inv cfg (stored_docs s, srv_ix s) \<Longrightarrow> index_inv cfg (stored_docs s', srv_ix s')"
proof (induction rule: node_index_step.induct)
  case (save n s)
  have "srv_ix (node_Save n s) = IndexObj (node_indexable n) (srv_ix s)" by (simp add: node_Save_def)
  with index_inv_save [OF save(3), of "node_indexable n"] save show ?case by (simp only: stored_docs_Save obj_key_node simp_thms)
next
  case (delete n s)
  have "srv_ix (node_Delete cfg n s) = snd (DeleteItemFromCollection ''node'' (nd_Name n) (srv_ix s))"
    by (simp add: node_Delete_def node_deleteStatuses_def srv_Unindex_def Let_def)
  with index_inv_delete [OF delete(2,1)] show ?case by (simp only: stored_docs_Delete)
next
  case (run j s ix)
  then show ?case using index_inv_run [of cfg "stored_docs s" "srv_ix s" j] by auto
qed

lemma node_index_reachable:
  "(node_index_step cfg)\<^sup>*\<^sup>* new_server s \<Longrightarrow> index_inv cfg (stored_docs s, srv_ix s)"
proof (induction rule: rtranclp_induct)
  case base
  have "node_Get k new_server = ErrorS (''node '' @ sq k @ '' not found'') StatusNotFound" for k
    by (simp add: node_Get_def new_server_def ds_Get_def initDataStore_def)
  then have "stored_docs new_server = Map.empty" by (simp add: stored_docs_def fun_eq_iff)
  then show ?case using index_inv_new by (simp add: new_server_def)
qed (rule node_index_inv)

text \<open>\<^bold>\<open>C26\<close>. In every state that a server reaches from the start by saving and deleting nodes,
  each while no goroutine for that node is pending, and by finishing goroutines in any
  order, where a node that is saved has pairwise different and well-formed lines
  (\<open>indexable_ok\<close>; for others see \<^verbatim>\<open>Trie\<close>): every pending goroutine can finish without failing, and one less is pending then;
  and once none is pending, a stored node has a document in the index, which accepts exactly
  the lines the node as stored is flattened to, and nothing else has a document among the
  nodes.\<close>

theorem index_follows_nodes:
  assumes "(node_index_step cfg)\<^sup>*\<^sup>* new_server s"
  shows "(\<forall>j<length (idx_jobs (srv_ix s)). \<exists>ix. run_job cfg j (srv_ix s) = Ok ix \<and>
       length (idx_jobs (srv_ix s)) = Suc (length (idx_jobs ix))) \<and>
    (idx_jobs (srv_ix s) = [] \<longrightarrow>
       (\<forall>name. case node_Get name s of
          Ok n \<Rightarrow> \<exists>d t ls. doc_at (objIndex (srv_ix s)) (''node'', name) = Some d \<and> doc_trie d = Some t \<and>
            object_lines cfg (node_indexable n) ls \<and> (\<forall>w. valid_utf8 w \<longrightarrow> trie_Accepts t w = (w \<in> set ls))
        | _ \<Rightarrow> doc_at (objIndex (srv_ix s)) (''node'', name) = None))"
proof -
  note inv = node_index_reachable [OF assms]
  have run: "\<exists>ix. run_job cfg j (srv_ix s) = Ok ix \<and> length (idx_jobs (srv_ix s)) = Suc (length (idx_jobs ix))"
    if "j < length (idx_jobs (srv_ix s))" for j
    using index_inv_run [OF inv that] by blast
  have docs: "case node_Get name s of
      Ok n \<Rightarrow> \<exists>d t ls. doc_at (objIndex (srv_ix s)) (''node'', name) = Some d \<and> doc_trie d = Some t \<and>
        object_lines cfg (node_indexable n) ls \<and> (\<forall>w. valid_utf8 w \<longrightarrow> trie_Accepts t w = (w \<in> set ls))
    | _ \<Rightarrow> doc_at (objIndex (srv_ix s)) (''node'', name) = None" if "idx_jobs (srv_ix s) = []" for name
  proof -
    have r: "rel_option (doc_of cfg) (stored_docs s (''node'', name)) (doc_at (objIndex (srv_ix s)) (''node'', name))"
      by (rule index_inv_drained [OF inv that])
    show ?thesis
    proof (cases "\<exists>n. node_Get name s = Ok n")
      case True
      then obtain n where n: "node_Get name s = Ok n" by blast
      with r obtain d where d: "doc_at (objIndex (srv_ix s)) (''node'', name) = Some d" "doc_of cfg (node_indexable n) d"
        by (auto simp: stored_docs_def option_rel_Some1)
      with n doc_of_accepts [OF d(2)] show ?thesis by auto
    next
      case False
      with r show ?thesis by (auto simp: stored_docs_def split: outcome.split)
    qed
  qed
  show ?thesis using run docs by blast
qed

lemma example_node_indexable: "indexable_ok example_conf (node_indexable example_node)"
proof -
  have "map_option (\<lambda>m. case Indexify example_conf m of Ok ls \<Rightarrow> ls \<noteq> [] \<and> distinct ls \<and> list_all (\<lambda>l. valid_utf8 l \<and> l \<noteq> []) ls | _ \<Rightarrow> False)
      (case obj_Flatten example_conf (node_indexable example_node) of Ok m \<Rightarrow> Some m | _ \<Rightarrow> None) = Some True"
    by code_simp
  then show ?thesis
    by (auto simp: indexable_ok_def object_lines_def list_all_iff split: outcome.splits)
qed

theorem index_follows_nodes_witness:
  "\<exists>ix d. run_job example_conf 0 (srv_ix (node_Save example_node new_server)) = Ok ix \<and> idx_jobs ix = [] \<and>
     doc_at (objIndex ix) (''node'', ''web'') = Some d"
proof -
  let ?s = "node_Save example_node new_server"
  have nm: "nd_Name example_node = ''web''" by (simp add: example_node_def)
  have jobs: "idx_jobs (srv_ix ?s) = [node_indexable example_node]"
    by (simp add: node_Save_def IndexObj_def new_server_def new_indexer_def)
  have "node_index_step example_conf new_server ?s"
    by (rule node_index_step.save) (simp_all add: pending_def new_server_def new_indexer_def example_node_indexable)
  then have 1: "(node_index_step example_conf)\<^sup>*\<^sup>* new_server ?s" by blast
  from index_follows_nodes [OF 1] obtain ix where ix: "run_job example_conf 0 (srv_ix ?s) = Ok ix" "idx_jobs ix = []"
    using jobs by auto
  have "node_index_step example_conf ?s (?s\<lparr>srv_ix := ix\<rparr>)"
    by (rule node_index_step.run [OF _ ix(1)]) (simp add: jobs)
  with 1 have 2: "(node_index_step example_conf)\<^sup>*\<^sup>* new_server (?s\<lparr>srv_ix := ix\<rparr>)" by simp
  have "node_Get ''web'' (?s\<lparr>srv_ix := ix\<rparr>) = Ok example_node"
    using node_Get_Save [of example_node "''web''" new_server] nm by (simp add: node_Get_def example_node_def)
  with index_follows_nodes [OF 2] ix show ?thesis by (auto dest!: spec [of _ "''web''"])
qed

subsection \<open>Purging keeps exactly the newer statuses\<close>

text \<open>The stored statuses are status reports, and encoding them again changes nothing.\<close>

definition node_statuses_ok :: "server \<Rightarrow> bool" where
  "node_statuses_ok s \<longleftrightarrow> statuses_ok (srv_ds s) \<and>
     (\<forall>n. \<forall>v\<in>set (statuses_of (srv_ds s) n). (\<exists>ns. v = VNodeStatus ns) \<and> gob_codec v = v)"

definition newer :: "int \<Rightarrow> dsval \<Rightarrow> bool" where
  "newer cutoff v = (case v of VNodeStatus ns \<Rightarrow> cutoff < ns_UpdatedAt ns | _ \<Rightarrow> False)"

lemma newer_VNodeStatus [simp]: "newer cutoff (VNodeStatus ns) \<longleftrightarrow> cutoff < ns_UpdatedAt ns"
  by (simp add: newer_def)

lemma as_statuses_ok:
  "\<forall>v\<in>set vs. \<exists>ns. v = VNodeStatus ns \<Longrightarrow> \<exists>l. as_statuses vs = Ok l \<and> map VNodeStatus l = vs"
  by (induction vs) auto

lemma AllStatuses_ok:
  assumes "node_statuses_ok s" "nodestatuses (srv_ds s) \<noteq> None"
  shows "\<exists>l. AllStatuses n s = Ok l \<and> map VNodeStatus l = statuses_of (srv_ds s) (nd_Name n)"
  using as_statuses_ok [of "statuses_of (srv_ds s) (nd_Name n)"] assms
  by (fastforce simp: AllStatuses_def node_statuses_ok_def AllNodeStatuses_ok)

lemma status_before_key: "status_before = (\<lambda>a b. ns_UpdatedAt a < ns_UpdatedAt b)"
  by (simp add: fun_eq_iff status_before_def)

lemma newer_statuses_eq:
  "newer_statuses cutoff l = filter (\<lambda>st. cutoff < ns_UpdatedAt st) (sort_by status_before l)"
  unfolding newer_statuses_def Let_def status_before_key
  by (rule drop_sort_Search [OF sorted_sort_by_key])

lemma oldest_newer:
  assumes "l \<noteq> []" "cutoff < ns_UpdatedAt (hd (sort_by status_before l))" "st \<in> set l"
  shows "cutoff < ns_UpdatedAt st"
proof -
  let ?s = "sort_by status_before l"
  have "sorted (map ns_UpdatedAt ?s)" unfolding status_before_key by (rule sorted_sort_by_key)
  moreover have "st \<in> set ?s" using assms(3) by simp
  ultimately have "ns_UpdatedAt (hd ?s) \<le> ns_UpdatedAt st" by (cases ?s) auto
  with assms(2) show ?thesis by simp
qed

lemma by_age_step:
  assumes "node_statuses_ok s" "nodestatuses (srv_ds s) \<noteq> None"
    "ids_below b (ns_or_new (nodestatuses (srv_ds s)))" "0 < b"
    "b + int (length (statuses_of (srv_ds s) (nd_Name n))) \<le> 2 ^ 63"
  shows "\<exists>s' k. by_age_loop now dur (n # nodes) j s = by_age_loop now dur nodes (j + k) s' \<and>
    node_statuses_ok s' \<and> nodestatuses (srv_ds s') \<noteq> None \<and>
    ids_below (b + int (length (statuses_of (srv_ds s) (nd_Name n)))) (ns_or_new (nodestatuses (srv_ds s'))) \<and>
    (\<forall>m. mset (statuses_of (srv_ds s') m) =
       (if m = nd_Name n then filter_mset (newer (now m - dur)) (mset (statuses_of (srv_ds s) m))
        else mset (statuses_of (srv_ds s) m))) \<and>
    k + length (statuses_of (srv_ds s') (nd_Name n)) = length (statuses_of (srv_ds s) (nd_Name n)) \<and>
    srv_ix s' = srv_ix s \<and> dsc (srv_ds s') = dsc (srv_ds s)"
proof -
  let ?n = "nd_Name n" and ?c = "now (nd_Name n) - dur"
  obtain l where l: "AllStatuses n s = Ok l" "map VNodeStatus l = statuses_of (srv_ds s) ?n"
    using AllStatuses_ok [OF assms(1,2)] by blast
  have len: "length (statuses_of (srv_ds s) ?n) = length l" using l(2) by (metis length_map)
  have sub: "ids_below (b + int (length (statuses_of (srv_ds s) ?n))) (ns_or_new (nodestatuses (srv_ds s)))"
    using assms(3) unfolding ids_below_def by fastforce
  have msl: "mset (statuses_of (srv_ds s) ?n) = image_mset VNodeStatus (mset l)"
    using l(2) by (metis mset_map)
  show ?thesis
  proof (cases "l = [] \<or> ?c < ns_UpdatedAt (hd (sort_by status_before l))")
    case True
    then have all: "\<forall>st\<in>set l. ?c < ns_UpdatedAt st" using oldest_newer [of l ?c] by (cases "l = []") auto
    have "filter_mset (newer ?c) (mset (statuses_of (srv_ds s) ?n)) = mset (statuses_of (srv_ds s) ?n)"
      using all unfolding msl by (auto simp: filter_mset_eq_conv)
    moreover have "by_age_loop now dur (n # nodes) j s = by_age_loop now dur nodes (j + 0) s"
      using l True by (cases l) (auto simp: Let_def)
    ultimately show ?thesis using assms(1,2) sub by (intro exI [of _ s] exI [of _ 0]) simp
  next
    case False
    define kept where "kept = newer_statuses ?c l"
    obtain e ds where r: "ReplaceNodeStatuses gob_codec ?n (map VNodeStatus kept) (srv_ds s) = (e, ds)" by fastforce
    have mk: "mset kept = filter_mset (\<lambda>st. ?c < ns_UpdatedAt st) (mset l)"
      unfolding kept_def newer_statuses_eq by simp
    have lk: "length kept \<le> length l"
      unfolding kept_def newer_statuses_eq by (metis length_filter_le length_sort_by)
    have bk: "b + int (length (map VNodeStatus kept)) \<le> 2 ^ 63" using assms(5) len lk by simp
    have sok: "statuses_ok (srv_ds s)" using assms(1) by (simp add: node_statuses_ok_def)
    note R = ReplaceNodeStatuses_spec [OF sok assms(2,3,4) bk r]
    have cod: "gob_codec (VNodeStatus st) = VNodeStatus st" if "st \<in> set kept" for st
    proof -
      have "st \<in> set l" using that unfolding kept_def newer_statuses_eq by simp
      then have "VNodeStatus st \<in> set (statuses_of (srv_ds s) ?n)" using l(2) by (metis image_eqI list.set_map)
      then show ?thesis using assms(1) unfolding node_statuses_ok_def by blast
    qed
    then have vals: "statuses_of ds m = (if m = ?n then map VNodeStatus kept else statuses_of (srv_ds s) m)" for m
      using R(5) [of m] by simp
    have "by_age_loop now dur (n # nodes) j s =
        by_age_loop now dur nodes (j + (length l - length kept)) (s\<lparr>srv_ds := ds\<rparr>)"
      using l(1) False R(1) r by (cases l) (simp_all add: Let_def kept_def)
    moreover have "node_statuses_ok (s\<lparr>srv_ds := ds\<rparr>)"
      using assms(1) R(2) cod unfolding node_statuses_ok_def by (auto simp: vals)
    moreover have "ids_below (b + int (length (statuses_of (srv_ds s) ?n))) (ns_or_new (nodestatuses ds))"
      using R(4) lk len unfolding ids_below_def by fastforce
    moreover have "mset (statuses_of ds ?n) = filter_mset (newer ?c) (mset (statuses_of (srv_ds s) ?n))"
      unfolding vals msl by (simp add: mk filter_mset_image_mset)
    ultimately show ?thesis
      using R(3,6) lk len by (intro exI [of _ "s\<lparr>srv_ds := ds\<rparr>"] exI [of _ "length l - length kept"]) (simp add: vals)
  qed
qed

lemma by_age_loop_spec:
  assumes "node_statuses_ok s" "nodestatuses (srv_ds s) \<noteq> None"
    "ids_below b (ns_or_new (nodestatuses (srv_ds s)))" "0 < b" "distinct (map nd_Name nodes)"
    "b + int (\<Sum>n\<leftarrow>nodes. length (statuses_of (srv_ds s) (nd_Name n))) \<le> 2 ^ 63"
  shows "\<exists>s' k. by_age_loop now dur nodes j s = (Ok (j + k), s') \<and> node_statuses_ok s' \<and>
    nodestatuses (srv_ds s') \<noteq> None \<and>
    (\<forall>m. mset (statuses_of (srv_ds s') m) =
       (if m \<in> nd_Name ` set nodes then filter_mset (newer (now m - dur)) (mset (statuses_of (srv_ds s) m))
        else mset (statuses_of (srv_ds s) m))) \<and>
    k + (\<Sum>n\<leftarrow>nodes. length (statuses_of (srv_ds s') (nd_Name n))) =
      (\<Sum>n\<leftarrow>nodes. length (statuses_of (srv_ds s) (nd_Name n))) \<and>
    srv_ix s' = srv_ix s \<and> dsc (srv_ds s') = dsc (srv_ds s)"
  using assms
proof (induction nodes arbitrary: b j s)
  case Nil
  then show ?case by simp
next
  case (Cons n nodes)
  let ?n = "nd_Name n"
  let ?b = "b + int (length (statuses_of (srv_ds s) ?n))"
  have bn: "?b \<le> 2 ^ 63" using Cons.prems(6) by simp
  obtain s1 k where 1: "by_age_loop now dur (n # nodes) j s = by_age_loop now dur nodes (j + k) s1"
      "node_statuses_ok s1" "nodestatuses (srv_ds s1) \<noteq> None"
      "ids_below ?b (ns_or_new (nodestatuses (srv_ds s1)))"
      "\<forall>m. mset (statuses_of (srv_ds s1) m) =
         (if m = ?n then filter_mset (newer (now m - dur)) (mset (statuses_of (srv_ds s) m))
          else mset (statuses_of (srv_ds s) m))"
      "k + length (statuses_of (srv_ds s1) ?n) = length (statuses_of (srv_ds s) ?n)"
      "srv_ix s1 = srv_ix s" "dsc (srv_ds s1) = dsc (srv_ds s)"
    using by_age_step [OF Cons.prems(1-4) bn] by blast
  have fresh: "?n \<notin> nd_Name ` set nodes" and d: "distinct (map nd_Name nodes)"
    using Cons.prems(5) by simp_all
  have len1: "length (statuses_of (srv_ds s1) m) = length (statuses_of (srv_ds s) m)" if "m \<noteq> ?n" for m
    using 1(5) that by (metis size_mset)
  have sum1: "(\<Sum>x\<leftarrow>nodes. length (statuses_of (srv_ds s1) (nd_Name x))) =
      (\<Sum>x\<leftarrow>nodes. length (statuses_of (srv_ds s) (nd_Name x)))"
  proof (intro arg_cong [of _ _ sum_list] map_cong refl)
    fix x assume "x \<in> set nodes"
    then have "nd_Name x \<noteq> ?n" using fresh by (metis imageI)
    then show "length (statuses_of (srv_ds s1) (nd_Name x)) = length (statuses_of (srv_ds s) (nd_Name x))"
      by (rule len1)
  qed
  have bb: "?b + int (\<Sum>x\<leftarrow>nodes. length (statuses_of (srv_ds s1) (nd_Name x))) \<le> 2 ^ 63"
    unfolding sum1 using Cons.prems(6) by simp
  obtain s2 k2 where 2: "by_age_loop now dur nodes (j + k) s1 = (Ok (j + k + k2), s2)" "node_statuses_ok s2"
      "nodestatuses (srv_ds s2) \<noteq> None"
      "\<forall>m. mset (statuses_of (srv_ds s2) m) =
         (if m \<in> nd_Name ` set nodes then filter_mset (newer (now m - dur)) (mset (statuses_of (srv_ds s1) m))
          else mset (statuses_of (srv_ds s1) m))"
      "k2 + (\<Sum>x\<leftarrow>nodes. length (statuses_of (srv_ds s2) (nd_Name x))) =
        (\<Sum>x\<leftarrow>nodes. length (statuses_of (srv_ds s1) (nd_Name x)))"
      "srv_ix s2 = srv_ix s1" "dsc (srv_ds s2) = dsc (srv_ds s1)"
    using Cons.IH [OF 1(2,3,4) _ d bb, of "j + k"] Cons.prems(4) by auto
  have "length (statuses_of (srv_ds s2) ?n) = length (statuses_of (srv_ds s1) ?n)"
    using 2(4) fresh by (metis size_mset)
  then show ?case
    using 1 2 sum1 fresh by (intro exI [of _ s2] exI [of _ "k + k2"]) auto
qed

lemma purge_newer_statuses:
  assumes "nodes_ok s" "node_statuses_ok s" "nodestatuses (srv_ds s) \<noteq> None"
    "ids_below b (ns_or_new (nodestatuses (srv_ds s)))" "0 < b"
    "b + int (\<Sum>name\<leftarrow>node_GetList s. length (statuses_of (srv_ds s) name)) \<le> 2 ^ 63"
  shows "\<exists>k s'. DeleteNodeStatusesByAge now dur s = (Ok k, s') \<and>
    (\<forall>n. \<exists>l l'. AllStatuses n s = Ok l \<and> AllStatuses n s' = Ok l' \<and>
      mset l' = (if nd_Name n \<in> set (node_GetList s)
                 then filter_mset (\<lambda>st. now (nd_Name n) - dur < ns_UpdatedAt st) (mset l) else mset l)) \<and>
    k + (\<Sum>name\<leftarrow>node_GetList s. length (statuses_of (srv_ds s') name)) =
      (\<Sum>name\<leftarrow>node_GetList s. length (statuses_of (srv_ds s) name)) \<and>
    dsc (srv_ds s') = dsc (srv_ds s) \<and> srv_ix s' = srv_ix s"
proof -
  obtain nodes where nodes: "AllNodes s = Ok nodes" "map nd_Name nodes = node_GetList s"
    using AllNodes_ok [OF assms(1)] by blast
  have sum: "(\<Sum>n\<leftarrow>nodes. f (nd_Name n)) = (\<Sum>name\<leftarrow>node_GetList s. f name)" for f :: "string \<Rightarrow> nat"
    unfolding nodes(2) [symmetric] by (simp add: o_def)
  have d: "distinct (map nd_Name nodes)" using distinct_node_GetList [OF assms(1)] nodes(2) by simp
  have names: "nd_Name ` set nodes = set (node_GetList s)" unfolding nodes(2) [symmetric] by simp
  have bnd: "b + int (\<Sum>n\<leftarrow>nodes. length (statuses_of (srv_ds s) (nd_Name n))) \<le> 2 ^ 63"
    using assms(6) sum [of "\<lambda>name. length (statuses_of (srv_ds s) name)"] by simp
  obtain s' k where s': "by_age_loop now dur nodes 0 s = (Ok (0 + k), s')" "node_statuses_ok s'"
      "nodestatuses (srv_ds s') \<noteq> None"
      "\<forall>m. mset (statuses_of (srv_ds s') m) =
         (if m \<in> nd_Name ` set nodes then filter_mset (newer (now m - dur)) (mset (statuses_of (srv_ds s) m))
          else mset (statuses_of (srv_ds s) m))"
      "k + (\<Sum>n\<leftarrow>nodes. length (statuses_of (srv_ds s') (nd_Name n))) =
        (\<Sum>n\<leftarrow>nodes. length (statuses_of (srv_ds s) (nd_Name n)))"
      "srv_ix s' = srv_ix s" "dsc (srv_ds s') = dsc (srv_ds s)"
    using by_age_loop_spec [OF assms(2-5) d bnd] by blast
  have "DeleteNodeStatusesByAge now dur s = (Ok k, s')"
    using nodes(1) s'(1) by (cases nodes) (simp_all add: DeleteNodeStatusesByAge_def)
  moreover have "\<exists>l l'. AllStatuses n s = Ok l \<and> AllStatuses n s' = Ok l' \<and>
      mset l' = (if nd_Name n \<in> set (node_GetList s)
                 then filter_mset (\<lambda>st. now (nd_Name n) - dur < ns_UpdatedAt st) (mset l) else mset l)" for n
  proof -
    obtain l l' where l: "AllStatuses n s = Ok l" "map VNodeStatus l = statuses_of (srv_ds s) (nd_Name n)"
        "AllStatuses n s' = Ok l'" "map VNodeStatus l' = statuses_of (srv_ds s') (nd_Name n)"
      using AllStatuses_ok [OF assms(2,3)] AllStatuses_ok [OF s'(2,3)] by blast
    have m: "mset (statuses_of (srv_ds s) (nd_Name n)) = image_mset VNodeStatus (mset l)"
        "mset (statuses_of (srv_ds s') (nd_Name n)) = image_mset VNodeStatus (mset l')"
      using l(2,4) by (metis mset_map)+
    have inj: "inj (image_mset VNodeStatus)" by (intro multiset.inj_map injI) simp
    have "image_mset VNodeStatus (mset l') = image_mset VNodeStatus
        (if nd_Name n \<in> set (node_GetList s)
         then filter_mset (\<lambda>st. now (nd_Name n) - dur < ns_UpdatedAt st) (mset l) else mset l)"
      using s'(4) [rule_format, of "nd_Name n"] unfolding m names by (simp add: filter_mset_image_mset)
    from injD [OF inj this] l(1,3) show ?thesis by blast
  qed
  moreover have "k + (\<Sum>name\<leftarrow>node_GetList s. length (statuses_of (srv_ds s') name)) =
      (\<Sum>name\<leftarrow>node_GetList s. length (statuses_of (srv_ds s) name))"
    using s'(5) by (simp only: sum [of "\<lambda>name. length (statuses_of (srv_ds s') name)"]
        sum [of "\<lambda>name. length (statuses_of (srv_ds s) name)"])
  ultimately show ?thesis using s'(6,7) by (intro exI [of _ k] exI [of _ s'] conjI allI)
qed

text \<open>\<^bold>\<open>C15\<close>. Purging old statuses. Once a status was recorded, it succeeds, keeps of every node
  exactly the statuses that are newer than the given age, touches nothing else, and reports
  how many it removed. Without nodes it removes nothing. With nodes while no status was ever
  recorded it fails with the error of the data store, and changes nothing.\<close>

theorem purge_statuses:
  assumes "nodes_ok s" "node_statuses_ok s"
    "ids_below b (ns_or_new (nodestatuses (srv_ds s)))" "0 < b"
    "b + int (\<Sum>name\<leftarrow>node_GetList s. length (statuses_of (srv_ds s) name)) \<le> 2 ^ 63"
  shows "(node_GetList s = [] \<longrightarrow> DeleteNodeStatusesByAge now dur s = (Ok 0, s)) \<and>
    (node_GetList s \<noteq> [] \<and> nodestatuses (srv_ds s) = None \<longrightarrow>
       DeleteNodeStatusesByAge now dur s = (Errorf ''No statuses in the datastore'', s)) \<and>
    (nodestatuses (srv_ds s) \<noteq> None \<longrightarrow>
      (\<exists>k s'. DeleteNodeStatusesByAge now dur s = (Ok k, s') \<and>
        (\<forall>n. \<exists>l l'. AllStatuses n s = Ok l \<and> AllStatuses n s' = Ok l' \<and>
          mset l' = (if nd_Name n \<in> set (node_GetList s)
                     then filter_mset (\<lambda>st. now (nd_Name n) - dur < ns_UpdatedAt st) (mset l) else mset l)) \<and>
        k + (\<Sum>name\<leftarrow>node_GetList s. length (statuses_of (srv_ds s') name)) =
          (\<Sum>name\<leftarrow>node_GetList s. length (statuses_of (srv_ds s) name)) \<and>
        dsc (srv_ds s') = dsc (srv_ds s) \<and> srv_ix s' = srv_ix s))"
proof -
  obtain nodes where nodes: "AllNodes s = Ok nodes" "map nd_Name nodes = node_GetList s"
    using AllNodes_ok [OF assms(1)] by blast
  have "DeleteNodeStatusesByAge now dur s = (Errorf ''No statuses in the datastore'', s)"
    if "node_GetList s \<noteq> []" "nodestatuses (srv_ds s) = None"
    using nodes that by (cases nodes) (simp_all add: DeleteNodeStatusesByAge_def AllStatuses_def AllNodeStatuses_def)
  moreover have "DeleteNodeStatusesByAge now dur s = (Ok 0, s)" if "node_GetList s = []"
    using nodes that by (simp add: DeleteNodeStatusesByAge_def)
  ultimately show ?thesis
    using purge_newer_statuses [OF assms(1,2) _ assms(3-5), of now dur] by (intro conjI impI) simp_all
qed

definition example_status :: "int \<Rightarrow> node_status" where
  "example_status t = \<lparr>ns_Node = example_node, ns_Status = ''up'', ns_UpdatedAt = t\<rparr>"

definition example_node_server :: server where
  "example_node_server =
     snd (snd (node_UpdateStatus 100 ''up'' example_node
       (snd (snd (node_UpdateStatus 10 ''up'' example_node (node_Save example_node new_server))))))"

lemma example_node_server_eq:
  "nodestatuses (srv_ds example_node_server) =
     Some [(1, VNodeStatus (example_status 10)), (2, VNodeStatus (example_status 100))]"
  "nodestatuslists (srv_ds example_node_server) = Some [(''web'', [1, 2])]"
  "dsc (srv_ds example_node_server) = dsc (srv_ds (node_Save example_node new_server))"
  "objList (srv_ds example_node_server) = objList (srv_ds (node_Save example_node new_server))"
  by (simp_all add: example_node_server_def node_UpdateStatus_def Let_def SetNodeStatus_def example_node_def
      node_Save_def new_server_def initDataStore_def ds_Set_def addToList_def ns_or_new_def getNextID_def
      int64_inc_def status_ids_def gob_node_def example_status_def)

lemma example_node_server_ok:
  "nodes_ok example_node_server" "node_statuses_ok example_node_server"
  "node_GetList example_node_server = [''web'']"
  "statuses_of (srv_ds example_node_server) ''web'' =
     [VNodeStatus (example_status 10), VNodeStatus (example_status 100)]"
proof -
  have "\<not> nd_isDown example_node" by (simp add: example_node_def)
  from nodes_ok_Save [OF nodes_ok_new_server this]
  show "nodes_ok example_node_server"
    by (simp add: nodes_ok_def typed_in_def ds_ok_def names_of_def ds_Get_def example_node_server_eq)
  show "node_GetList example_node_server = [''web'']"
    by (simp add: node_GetList_def ds_GetList_def example_node_server_eq node_Save_def example_node_def
        new_server_def initDataStore_def ds_Set_def addToList_def Let_def)
  show st: "statuses_of (srv_ds example_node_server) ''web'' =
      [VNodeStatus (example_status 10), VNodeStatus (example_status 100)]"
    by (simp add: statuses_of_def example_node_server_eq ns_or_new_def status_ids_def)
  have "statuses_ok (srv_ds example_node_server)"
    by (auto simp: statuses_ok_def ns_ok_def ns_or_new_def example_node_server_eq status_ids_def)
  moreover have "statuses_of (srv_ds example_node_server) n = []" if "n \<noteq> ''web''" for n
    using that by (simp add: statuses_of_def example_node_server_eq ns_or_new_def status_ids_def)
  moreover have "gob_codec (VNodeStatus (example_status t)) = VNodeStatus (example_status t)" for t
    by (simp add: example_status_def gob_node_def example_node_def)
  ultimately show "node_statuses_ok example_node_server"
    unfolding node_statuses_ok_def using st by (metis empty_iff insert_iff list.set(1,2))
qed

theorem purge_statuses_witness:
  "\<exists>k s' l'. DeleteNodeStatusesByAge (\<lambda>_. 60) 10 example_node_server = (Ok k, s') \<and>
     AllStatuses example_node s' = Ok l' \<and> mset l' = {#example_status 100#}"
proof -
  let ?s = example_node_server
  have nm: "nd_Name example_node = ''web''" by (simp add: example_node_def)
  have "ids_below 3 (ns_or_new (nodestatuses (srv_ds ?s)))"
    by (simp add: example_node_server_eq ns_or_new_def ids_below_def)
  from purge_statuses [OF example_node_server_ok(1,2) this, of "\<lambda>_. 60" 10]
  obtain k s' where r: "DeleteNodeStatusesByAge (\<lambda>_. 60) 10 ?s = (Ok k, s')"
      "\<forall>n. \<exists>l l'. AllStatuses n ?s = Ok l \<and> AllStatuses n s' = Ok l' \<and>
         mset l' = (if nd_Name n \<in> set (node_GetList ?s)
                    then filter_mset (\<lambda>st. 60 - 10 < ns_UpdatedAt st) (mset l) else mset l)"
    by (auto simp: example_node_server_eq(1) example_node_server_ok(3,4))
  obtain l l' where l: "AllStatuses example_node ?s = Ok l" "AllStatuses example_node s' = Ok l'"
      "mset l' = filter_mset (\<lambda>st. 60 - 10 < ns_UpdatedAt st) (mset l)"
    using r(2) [rule_format, of example_node] by (auto simp: example_node_server_ok(3) nm)
  have "l = [example_status 10, example_status 100]"
    using l(1) by (simp add: AllStatuses_def AllNodeStatuses_def example_node_server_eq nm status_ids_def)
  then show ?thesis using r(1) l(2,3) by (auto simp: example_status_def)
qed

end
