(* ===== verification/Roles.thy ===== *)
theory Roles
  imports Requests
begin

text \<open>
  \<^verbatim>\<open>role/role.go\<close>: roles. \<open>New\<close> on a request body asserts that the name is a string
  without checking it, and \<open>UpdateFromJSON\<close> asserts the type that \<^verbatim>\<open>checkAttrs\<close> gives the run
  lists of environments; a failed assertion is \<open>Panic\<close>.
\<close>

text \<open>The verb \<^verbatim>\<open>%s\<close> of \<open>fmt\<close> on a dynamic value, for the error messages.\<close>

fun fmt_s :: "gval \<Rightarrow> string" where
  "fmt_s GNil = ''%!s(<nil>)''"
| "fmt_s (GBool b) = ''%!s(bool='' @ (if b then ''true'' else ''false'') @ '')''"
| "fmt_s (GArr vs) = ''['' @ join_with '' '' (map fmt_s vs) @ '']''"
| "fmt_s (GMap m) =
     ''map['' @ join_with '' '' (map (\<lambda>(k, s). k @ '':'' @ s)
        (sort_by (\<lambda>p q. fst p < fst q) (map (\<lambda>(k, v). (k, fmt_s v)) m))) @ '']''"
| "fmt_s v = stringify v"

definition role_New :: "string \<Rightarrow> server \<Rightarrow> role outcome" where
  "role_New name s =
     (if srv_Get ''role'' s name \<noteq> None then ErrorS (''Role '' @ name @ '' already exists'') StatusConflict
      else if \<not> ValidateDBagName name then ErrorS ''Field 'name' invalid'' StatusBadRequest
      else Ok \<lparr>ro_Name = name, ro_ChefType = ''role'', ro_JSONClass = ''Chef::Role'', ro_RunList = [],
               ro_EnvRunLists = [], ro_Description = [], ro_Default = [], ro_Override = []\<rparr>)"

definition role_valid_elements :: "string list" where
  "role_valid_elements =
     [''name'', ''json_class'', ''chef_type'', ''run_list'', ''env_run_lists'', ''default_attributes'',
      ''override_attributes'', ''description'']"

fun validate_env_run_lists :: "(string \<times> string list) list \<Rightarrow> (string \<times> string list) list outcome" where
  "validate_env_run_lists [] = Ok []"
| "validate_env_run_lists ((k, v) # erl) =
     outcome_bind (ValidateRunList (GStrs v)) (\<lambda>l.
     outcome_bind (validate_env_run_lists erl) (\<lambda>m. Ok ((k, l) # m)))"

definition role_env_run_lists :: "gobj \<Rightarrow> (string \<times> string list) list outcome" where
  "role_env_run_lists jsonRole =
     (if ghas jsonRole ''env_run_lists'' then
        (case gget jsonRole ''env_run_lists'' of
           GStrsMap erl \<Rightarrow> validate_env_run_lists erl
         | _ \<Rightarrow> Panic)
      else Ok [])"

definition role_fields_update :: "gobj \<Rightarrow> role \<Rightarrow> role outcome" where
  "role_fields_update jsonRole r =
     outcome_bind (ValidateRunList (gget jsonRole ''run_list'')) (\<lambda>rl.
     outcome_bind (role_env_run_lists jsonRole) (\<lambda>erl.
     outcome_bind (ValidateAttributes ''default_attributes'' (gget jsonRole ''default_attributes'')) (\<lambda>de.
     outcome_bind (ValidateAttributes ''override_attributes'' (gget jsonRole ''override_attributes'')) (\<lambda>ov.
     outcome_bind (check_field ''json_class'' ''Chef::Role'' (ro_JSONClass r) (gget jsonRole ''json_class'')) (\<lambda>jc.
     outcome_bind (check_field ''chef_type'' ''role'' (ro_ChefType r) (gget jsonRole ''chef_type'')) (\<lambda>ct.
     Ok (r\<lparr>ro_ChefType := ct, ro_JSONClass := jc,
           ro_Description := (case ValidateAsString (gget jsonRole ''description'') of Ok d \<Rightarrow> d | _ \<Rightarrow> []),
           ro_RunList := rl, ro_EnvRunLists := erl, ro_Default := de, ro_Override := ov\<rparr>)))))))"

definition role_UpdateFromJSON :: "gobj \<Rightarrow> role \<Rightarrow> role outcome" where
  "role_UpdateFromJSON jsonRole r =
     (if gget jsonRole ''name'' \<noteq> GStr (ro_Name r) then
        Errorf (''Role name '' @ ro_Name r @ '' and '' @ fmt_s (gget jsonRole ''name'') @ '' from JSON do not match.'')
      else
        (case first_invalid_key role_valid_elements jsonRole of
           Some k \<Rightarrow> Errorf (''Invalid key '' @ k @ '' in request body'')
         | None \<Rightarrow> role_fields_update jsonRole r))"

definition role_NewFromJSON :: "gobj \<Rightarrow> server \<Rightarrow> role outcome" where
  "role_NewFromJSON jsonRole s =
     (case gget jsonRole ''name'' of
        GStr name \<Rightarrow> outcome_bind (role_New name s) (role_UpdateFromJSON jsonRole)
      | _ \<Rightarrow> Panic)"

definition role_Get :: "string \<Rightarrow> server \<Rightarrow> role outcome" where
  "role_Get roleName s =
     (case srv_Get ''role'' s roleName of
        None \<Rightarrow> Errorf (''Cannot load role '' @ roleName)
      | Some (VRole r) \<Rightarrow> Ok r
      | Some _ \<Rightarrow> Panic)"

definition role_DoesExist :: "string \<Rightarrow> server \<Rightarrow> bool" where
  "role_DoesExist roleName s \<longleftrightarrow> srv_Get ''role'' s roleName \<noteq> None"

definition role_GetMulti :: "string list \<Rightarrow> server \<Rightarrow> role list outcome" where
  "role_GetMulti roleNames s = get_multi (\<lambda>r. role_Get r s) roleNames"

definition role_fields :: "role \<Rightarrow> gobj" where
  "role_fields r =
     [(''name'', GStr (ro_Name r)), (''chef_type'', GStr (ro_ChefType r)), (''json_class'', GStr (ro_JSONClass r)),
      (''run_list'', GStrs (ro_RunList r)), (''env_run_lists'', GStrsMap (ro_EnvRunLists r)),
      (''description'', GStr (ro_Description r)), (''default_attributes'', GMap (ro_Default r)),
      (''override_attributes'', GMap (ro_Override r))]"

definition role_indexable :: "role \<Rightarrow> indexable" where
  "role_indexable r = \<lparr>DocID = ro_Name r, IndexName = ''role'', flat_tagged = True, flat_fields = role_fields r\<rparr>"

definition role_Save :: "role \<Rightarrow> server \<Rightarrow> server" where
  "role_Save r s = srv_Index (role_indexable r) (srv_Set ''role'' (ro_Name r) (VRole r) s)"

definition role_Delete :: "role \<Rightarrow> server \<Rightarrow> server" where
  "role_Delete r s = srv_Unindex ''role'' (ro_Name r) (srv_Delete ''role'' (ro_Name r) s)"

definition role_GetList :: "server \<Rightarrow> string list" where
  "role_GetList s = srv_GetList ''role'' s"

definition AllRoles :: "server \<Rightarrow> role list outcome" where
  "AllRoles s = get_multi (\<lambda>r. role_Get r s) (role_GetList s)"

subsection \<open>Roles as named objects\<close>

fun unwrap_role :: "dsval \<Rightarrow> role outcome" where
  "unwrap_role (VRole r) = Ok r"
| "unwrap_role _ = Panic"

definition roles_ok :: "server \<Rightarrow> bool" where
  "roles_ok = typed_in (srv_Get ''role'') (\<lambda>s. ds_ok (srv_ds s)) VRole ro_Name (\<lambda>_. True)"

interpretation role_objects: typed_store "srv_Get ''role''" "srv_Set ''role''" "srv_Delete ''role''"
  "srv_GetList ''role''" gob_codec "\<lambda>s. ds_ok (srv_ds s)" VRole ro_Name "\<lambda>_. True" unwrap_role
  "\<lambda>k. gerror_New (''Cannot load role '' @ k)" role_Get
  by (intro typed_store.intro srv_object_store typed_store_axioms.intro)
    (auto simp: role_Get_def split: option.split dsval.split)

lemma role_Get_Save: "role_Get k (role_Save r s) = (if k = ro_Name r then Ok r else role_Get k s)"
  using role_objects.fetch_put [where x = r and k = k and s = s] by (simp add: role_Save_def role_Get_def)

lemma role_Get_Delete:
  "role_Get k (role_Delete r s) = (if k = ro_Name r then Errorf (''Cannot load role '' @ k) else role_Get k s)"
  using role_objects.fetch_del [of k "ro_Name r" s] by (simp add: role_Delete_def role_Get_def)

lemma roles_ok_Save: "roles_ok s \<Longrightarrow> roles_ok (role_Save r s)"
  using role_objects.typed_put [where s = s and x = r] by (simp add: roles_ok_def typed_in_def role_Save_def)

lemma roles_ok_Delete: "roles_ok s \<Longrightarrow> roles_ok (role_Delete r s)"
  using role_objects.typed_del [of s "ro_Name r"] by (simp add: roles_ok_def typed_in_def role_Delete_def)

subsection \<open>Request bodies\<close>

lemma validate_env_run_lists_no_panic [simp]: "validate_env_run_lists erl \<noteq> Panic"
  by (induction erl rule: validate_env_run_lists.induct)
    (auto simp: outcome_bind_Panic_iff simp del: ValidateRunList.simps)

lemma validate_env_run_lists_idem:
  "validate_env_run_lists erl = Ok m \<Longrightarrow> validate_env_run_lists m = Ok m"
proof (induction erl arbitrary: m rule: validate_env_run_lists.induct)
  case (2 k v erl)
  then show ?case
    using ValidateRunList_idem by (fastforce simp: outcome_bind_Ok_iff simp del: ValidateRunList.simps)
qed simp

lemma role_update_no_panic:
  assumes "ghas body ''env_run_lists'' \<Longrightarrow> \<exists>l. gget body ''env_run_lists'' = GStrsMap l"
  shows "role_UpdateFromJSON body r \<noteq> Panic"
proof -
  have "role_env_run_lists body \<noteq> Panic" using assms by (auto simp: role_env_run_lists_def)
  then show ?thesis
    by (auto simp: role_UpdateFromJSON_def role_fields_update_def outcome_bind_Panic_iff
        simp del: ValidateRunList.simps split: option.splits)
qed

lemma role_New_no_panic [simp]: "role_New name s \<noteq> Panic"
  by (simp add: role_New_def)

lemma role_fields_update_Ok:
  assumes "role_fields_update j r = Ok r'"
  shows "ro_Name r' = ro_Name r"
    "ValidateRunList (GStrs (ro_RunList r')) = Ok (ro_RunList r')"
    "validate_env_run_lists (ro_EnvRunLists r') = Ok (ro_EnvRunLists r')"
    "ro_JSONClass r' = ''Chef::Role'' \<or> ro_JSONClass r' = ro_JSONClass r"
    "ro_ChefType r' = ''role'' \<or> ro_ChefType r' = ro_ChefType r"
proof -
  obtain rl erl de ov jc ct d where r: "ValidateRunList (gget j ''run_list'') = Ok rl"
      "role_env_run_lists j = Ok erl"
      "check_field ''json_class'' ''Chef::Role'' (ro_JSONClass r) (gget j ''json_class'') = Ok jc"
      "check_field ''chef_type'' ''role'' (ro_ChefType r) (gget j ''chef_type'') = Ok ct"
      "r' = r\<lparr>ro_ChefType := ct, ro_JSONClass := jc, ro_Description := d, ro_RunList := rl,
           ro_EnvRunLists := erl, ro_Default := de, ro_Override := ov\<rparr>"
    using assms unfolding role_fields_update_def by (auto simp only: outcome_bind_Ok_iff outcome.inject)
  show "ValidateRunList (GStrs (ro_RunList r')) = Ok (ro_RunList r')"
    using ValidateRunList_idem [OF r(1)] r(5) by simp
  show "validate_env_run_lists (ro_EnvRunLists r') = Ok (ro_EnvRunLists r')"
    using r(2,5) validate_env_run_lists_idem by (auto simp: role_env_run_lists_def split: if_splits gval.splits)
  show "ro_JSONClass r' = ''Chef::Role'' \<or> ro_JSONClass r' = ro_JSONClass r"
    "ro_ChefType r' = ''role'' \<or> ro_ChefType r' = ro_ChefType r"
    using check_field_Ok [OF r(3)] check_field_Ok [OF r(4)] r(5) by simp_all
qed (use assms in \<open>auto simp: role_fields_update_def outcome_bind_Ok_iff\<close>)

definition role_ok :: "role \<Rightarrow> bool" where
  "role_ok r \<longleftrightarrow> ValidateRunList (GStrs (ro_RunList r)) = Ok (ro_RunList r) \<and>
     validate_env_run_lists (ro_EnvRunLists r) = Ok (ro_EnvRunLists r) \<and>
     ro_JSONClass r = ''Chef::Role'' \<and> ro_ChefType r = ''role''"

lemma role_ok_New: "role_New name s = Ok r \<Longrightarrow> role_ok r \<and> ro_Name r = name \<and> srv_Get ''role'' s name = None"
  by (auto simp: role_New_def role_ok_def split: if_splits)

lemma role_ok_update: "role_UpdateFromJSON j r = Ok r' \<Longrightarrow> role_ok r \<Longrightarrow> role_ok r' \<and> ro_Name r' = ro_Name r"
  using role_fields_update_Ok [of j r r']
  by (auto simp: role_UpdateFromJSON_def role_ok_def split: if_splits option.splits)

lemma gget_role_fields:
  "gget (role_fields r) ''name'' = GStr (ro_Name r)"
  "gget (role_fields r) ''run_list'' = GStrs (ro_RunList r)"
  "gget (role_fields r) ''env_run_lists'' = GStrsMap (ro_EnvRunLists r)"
  "ghas (role_fields r) ''env_run_lists''"
  "gget (role_fields r) ''default_attributes'' = GMap (ro_Default r)"
  "gget (role_fields r) ''override_attributes'' = GMap (ro_Override r)"
  "gget (role_fields r) ''description'' = GStr (ro_Description r)"
  "gget (role_fields r) ''json_class'' = GStr (ro_JSONClass r)"
  "gget (role_fields r) ''chef_type'' = GStr (ro_ChefType r)"
  "first_invalid_key role_valid_elements (role_fields r) = None"
  by (simp_all add: role_fields_def gget_def ghas_def role_valid_elements_def)

lemma role_update_id: "role_ok r \<Longrightarrow> role_UpdateFromJSON (role_fields r) r = Ok r"
  by (simp add: role_UpdateFromJSON_def role_fields_update_def gget_role_fields role_env_run_lists_def role_ok_def
      check_field_def del: ValidateRunList.simps)

text \<open>On a body that went through \<open>checkAttrs\<close>, creating a role panics exactly if the
  name is not a string; otherwise it is an error or a role with validated run lists, a
  fresh name, that is read back after saving, and that sending back does not change.\<close>

theorem role_from_request:
  assumes "roles_ok s" "checkAttrs objData = Ok body"
  shows "(role_NewFromJSON body s = Panic \<longleftrightarrow> \<not> (\<exists>n. gget objData ''name'' = GStr n)) \<and>
    (\<forall>r. role_UpdateFromJSON body r \<noteq> Panic) \<and>
    (\<forall>r. role_NewFromJSON body s = Ok r \<longrightarrow>
       ro_Name r \<notin> set (role_GetList s) \<and> role_ok r \<and> role_UpdateFromJSON (role_fields r) r = Ok r \<and>
       roles_ok (role_Save r s) \<and>
       (\<forall>k. role_Get k (role_Save r s) = (if k = ro_Name r then Ok r else role_Get k s)) \<and>
       (\<forall>k. role_Get k (role_Delete r (role_Save r s)) = role_Get k s))"
proof -
  note T = checkAttrs_types [OF assms(2)]
  have np: "role_UpdateFromJSON body r \<noteq> Panic" for r using role_update_no_panic T(2) by blast
  have 1: "role_NewFromJSON body s = Panic \<longleftrightarrow> \<not> (\<exists>n. gget objData ''name'' = GStr n)"
    using np T(3) by (auto simp: role_NewFromJSON_def outcome_bind_Panic_iff split: gval.splits)
  have 2: "ro_Name r \<notin> set (role_GetList s) \<and> role_ok r \<and> role_UpdateFromJSON (role_fields r) r = Ok r \<and>
       roles_ok (role_Save r s) \<and>
       (\<forall>k. role_Get k (role_Save r s) = (if k = ro_Name r then Ok r else role_Get k s)) \<and>
       (\<forall>k. role_Get k (role_Delete r (role_Save r s)) = role_Get k s)" if n: "role_NewFromJSON body s = Ok r" for r
  proof -
    obtain r0 where r0: "role_New (ro_Name r0) s = Ok r0" "role_UpdateFromJSON body r0 = Ok r"
      using n role_ok_New [of _ s] by (auto simp: role_NewFromJSON_def outcome_bind_Ok_iff split: gval.splits)
    have ok: "role_ok r" "ro_Name r = ro_Name r0" and fresh: "srv_Get ''role'' s (ro_Name r) = None"
      using role_ok_update [OF r0(2)] role_ok_New [OF r0(1)] by auto
    have "ro_Name r \<notin> set (role_GetList s)"
      using assms(1) fresh role_objects.in_names_iff [of s "ro_Name r"]
      by (simp add: role_GetList_def roles_ok_def typed_in_def)
    moreover have "role_Get (ro_Name r) s = Errorf (''Cannot load role '' @ ro_Name r)"
      using fresh by (simp add: role_Get_def)
    ultimately show ?thesis
      using ok role_update_id roles_ok_Save [OF assms(1), of r]
      by (simp only: role_Get_Delete role_Get_Save simp_thms split: if_split) simp
  qed
  show ?thesis using 1 2 np by blast
qed

definition example_role_body :: gobj where
  "example_role_body = [(''name'', GStr ''base''), (''run_list'', GArr [GStr ''ntp'']),
     (''env_run_lists'', GMap [(''prod'', GArr [GStr ''role[web]''])])]"

lemma roles_ok_new_server: "roles_ok new_server"
  by (simp add: roles_ok_def typed_in_def new_server_def ds_Get_def initDataStore_def [symmetric])
    (simp add: initDataStore_def)

theorem role_from_request_witness:
  "\<exists>body r. checkAttrs example_role_body = Ok body \<and> role_NewFromJSON body new_server = Ok r \<and>
     ro_EnvRunLists r = [(''prod'', [''role[web]''])] \<and> role_Get ''base'' (role_Save r new_server) = Ok r"
proof -
  let ?b = "[(''name'', GStr ''base''), (''run_list'', GStrs [''ntp'']), (''env_run_lists'', GStrsMap [(''prod'', [''role[web]''])])]"
  let ?r = "\<lparr>ro_Name = ''base'', ro_ChefType = ''role'', ro_JSONClass = ''Chef::Role'', ro_RunList = [''recipe[ntp]''],
     ro_EnvRunLists = [(''prod'', [''role[web]''])], ro_Description = [], ro_Default = [], ro_Override = []\<rparr>"
  have b: "checkAttrs example_role_body = Ok ?b" by code_simp
  have r: "role_NewFromJSON ?b new_server = Ok ?r" by code_simp
  from role_from_request [OF roles_ok_new_server b] r
  have "role_Get ''base'' (role_Save ?r new_server) = Ok ?r" by (metis role.select_convs(1))
  with b r show ?thesis by (intro exI [of _ ?b] exI [of _ ?r]) simp
qed

end
