(* ===== verification/FileStore.thy ===== *)
theory FileStore
  imports Objects
begin

text \<open>
  \<^verbatim>\<open>filestore/filestore.go\<close>: uploaded files, kept in the data store under their MD5
  checksum. The parameter \<open>md5\<close> is the checksum in hexadecimal. Files kept in a local
  directory (\<open>LocalFstoreDir\<close>) are not modelled.
\<close>

definition file_Get :: "string \<Rightarrow> server \<Rightarrow> filestore outcome" where
  "file_Get chksum s =
     (case srv_Get ''filestore'' s chksum of
        None \<Rightarrow> Errorf (''File with checksum '' @ chksum @ '' not found'')
      | Some (VFile f) \<Rightarrow> Ok f
      | Some _ \<Rightarrow> Panic)"

text \<open>The reader yields the bytes \<open>content\<close>; a negative length makes \<open>make\<close> panic.\<close>

definition file_New ::
  "(string \<Rightarrow> string) \<Rightarrow> string \<Rightarrow> string \<Rightarrow> int \<Rightarrow> server \<Rightarrow> filestore outcome" where
  "file_New md5 chksum content dataLength s =
     (case file_Get chksum s of
        Panic \<Rightarrow> Panic
      | f \<Rightarrow>
          (if dataLength < 0 then Panic
           else if length content < nat dataLength then
             Errorf (''Only read '' @ string_of_nat (length content) @ '' bytes (out of '' @
               string_of_nat (nat dataLength) @ '', supposedly) from io.ReadCloser: '' @
               (if content = [] then ''EOF'' else ''unexpected EOF''))
           else
             (let fileData = take (nat dataLength) content
              in case f of
                   Ok f' \<Rightarrow>
                     if fileData \<noteq> fs_Data f' then
                       Errorf (''File with checksum '' @ chksum @ '' already exists.'')
                     else if md5 fileData \<noteq> chksum then
                       Errorf (''Checksum '' @ md5 fileData @ '' did not match original '' @ chksum @ ''!'')
                     else Ok \<lparr>fs_Chksum = chksum, fs_Data = fileData\<rparr>
                 | _ \<Rightarrow>
                     if md5 fileData \<noteq> chksum then
                       Errorf (''Checksum '' @ md5 fileData @ '' did not match original '' @ chksum @ ''!'')
                     else Ok \<lparr>fs_Chksum = chksum, fs_Data = fileData\<rparr>)))"

definition file_Save :: "filestore \<Rightarrow> server \<Rightarrow> server" where
  "file_Save f s = srv_Set ''filestore'' (fs_Chksum f) (VFile f) s"

definition file_Delete :: "filestore \<Rightarrow> server \<Rightarrow> server" where
  "file_Delete f s = srv_Delete ''filestore'' (fs_Chksum f) s"

definition file_GetList :: "server \<Rightarrow> string list" where
  "file_GetList s = srv_GetList ''filestore'' s"

fun DeleteHashes :: "string list \<Rightarrow> server \<Rightarrow> unit outcome \<times> server" where
  "DeleteHashes [] s = (Ok (), s)"
| "DeleteHashes (ff # fileHashes) s =
     (case file_Get ff s of
        Ok delFile \<Rightarrow> DeleteHashes fileHashes (file_Delete delFile s)
      | Err _ \<Rightarrow> DeleteHashes fileHashes s
      | Panic \<Rightarrow> (Panic, s))"

fun all_files :: "string list \<Rightarrow> server \<Rightarrow> filestore list outcome" where
  "all_files [] s = Ok []"
| "all_files (f # fileList) s =
     (case file_Get f s of
        Panic \<Rightarrow> Panic
      | Err _ \<Rightarrow> all_files fileList s
      | Ok fl \<Rightarrow> outcome_bind (all_files fileList s) (\<lambda>fs. Ok (fl # fs)))"

definition AllFilestores :: "server \<Rightarrow> filestore list outcome" where
  "AllFilestores s = all_files (file_GetList s) s"

interpretation file_store: object_store "ds_Get ''filestore''" "ds_Set gob_codec ''filestore''"
  "ds_Delete ''filestore''" "ds_GetList ''filestore''" gob_codec ds_ok
  by (rule ds_object_store) simp

subsection \<open>Files are stored under their checksum\<close>

definition files_ok :: "(string \<Rightarrow> string) \<Rightarrow> server \<Rightarrow> bool" where
  "files_ok md5 s \<longleftrightarrow>
     (\<forall>k v. srv_Get ''filestore'' s k = Some v \<longrightarrow>
        (\<exists>f. v = VFile f \<and> fs_Chksum f = k \<and> md5 (fs_Data f) = k))"

definition files_typed :: "server \<Rightarrow> bool" where
  "files_typed s \<longleftrightarrow>
     (\<forall>k v. srv_Get ''filestore'' s k = Some v \<longrightarrow> (\<exists>f. v = VFile f \<and> fs_Chksum f = k))"

lemma files_ok_typed: "files_ok md5 s \<Longrightarrow> files_typed s"
  by (fastforce simp: files_ok_def files_typed_def)

lemma file_Get_cases:
  assumes "files_typed s"
  shows "file_Get k s \<noteq> Panic" "file_Get k s = Ok f \<Longrightarrow> fs_Chksum f = k"
    "is_ok (file_Get k s) \<longleftrightarrow> srv_Get ''filestore'' s k \<noteq> None"
  using assms by (auto simp: file_Get_def files_typed_def split: option.splits dsval.splits)

lemma DeleteHashes_get:
  assumes "files_typed s"
  shows "fst (DeleteHashes hs s) = Ok () \<and> files_typed (snd (DeleteHashes hs s)) \<and>
    (\<forall>k. srv_Get ''filestore'' (snd (DeleteHashes hs s)) k =
       (if k \<in> set hs then None else srv_Get ''filestore'' s k)) \<and>
    (\<forall>t. CHR '':'' \<notin> set t \<longrightarrow> t \<noteq> ''filestore'' \<longrightarrow> srv_Get t (snd (DeleteHashes hs s)) = srv_Get t s)"
  using assms
proof (induction hs s rule: DeleteHashes.induct)
  case (1 s)
  then show ?case by simp
next
  case (2 h hs s)
  show ?case
  proof (cases "file_Get h s")
    case (Ok f)
    then have f: "fs_Chksum f = h" using file_Get_cases(2) [OF "2.prems"] by simp
    have t: "files_typed (file_Delete f s)"
      using "2.prems" by (auto simp: files_typed_def file_Delete_def file_store.get_del)
    have "srv_Get t (file_Delete f s) = srv_Get t s" if "CHR '':'' \<notin> set t" "t \<noteq> ''filestore''" for t
      using that by (simp add: file_Delete_def ds_Get_other)
    then show ?thesis using "2.IH"(1) [OF Ok t] Ok f by (auto simp: file_Delete_def file_store.get_del)
  next
    case (Err e)
    then have "srv_Get ''filestore'' s h = None" using file_Get_cases(3) [OF "2.prems", of h] by simp
    then show ?thesis using "2.IH"(2) [OF Err "2.prems"] Err by auto
  next
    case Panic
    then show ?thesis using file_Get_cases(1) [OF "2.prems"] by simp
  qed
qed

text \<open>\<^bold>\<open>C13\<close>. An upload is accepted only with the checksum of its bytes, so every stored file
  is found under its checksum, whatever was uploaded before; saving it and fetching it
  gives the uploaded bytes; uploading other bytes under the same checksum is refused.\<close>

theorem upload_checksum:
  assumes "files_ok md5 s" "file_New md5 chksum content n s = Ok f"
  shows "md5 (fs_Data f) = chksum \<and> fs_Chksum f = chksum \<and> fs_Data f = take (nat n) content \<and>
    files_ok md5 (file_Save f s) \<and> file_Get chksum (file_Save f s) = Ok f \<and>
    (\<forall>g. file_Get chksum s = Ok g \<longrightarrow> fs_Data g = fs_Data f)"
proof -
  have f: "fs_Chksum f = chksum" "fs_Data f = take (nat n) content" "md5 (fs_Data f) = chksum"
    "\<forall>g. file_Get chksum s = Ok g \<longrightarrow> fs_Data g = fs_Data f"
    using assms(2) by (auto simp: file_New_def Let_def split: outcome.splits if_splits)
  then have "files_ok md5 (file_Save f s)"
    using assms(1) by (auto simp: files_ok_def file_Save_def file_store.get_put)
  with f show ?thesis by (simp add: file_Get_def file_Save_def file_store.get_put)
qed

theorem upload_checksum_witness:
  "file_New (\<lambda>b. ''h'' @ b) ''hab'' ''abc'' 2 new_server = Ok \<lparr>fs_Chksum = ''hab'', fs_Data = ''ab''\<rparr> \<and>
   file_Get ''hab'' (file_Save \<lparr>fs_Chksum = ''hab'', fs_Data = ''ab''\<rparr> new_server) =
     Ok \<lparr>fs_Chksum = ''hab'', fs_Data = ''ab''\<rparr>"
proof -
  have e: "srv_Get t new_server k = None" for t k
    by (simp add: new_server_def initDataStore_def ds_Get_def)
  then have "files_ok (\<lambda>b. ''h'' @ b) new_server" by (simp add: files_ok_def)
  moreover have "file_New (\<lambda>b. ''h'' @ b) ''hab'' ''abc'' 2 new_server = Ok \<lparr>fs_Chksum = ''hab'', fs_Data = ''ab''\<rparr>"
    by (simp add: file_New_def file_Get_def e Let_def numeral_2_eq_2)
  ultimately show ?thesis using upload_checksum by blast
qed

end
