(* ===== verification/Versioning.thy ===== *)
theory Versioning
  imports Validations
begin

text \<open>
  \<^verbatim>\<open>cookbook/versioning.go\<close>: comparing cookbook versions, checking a version against a
  constraint, and reading the numbers of a version.

  A \<^emph>\<open>canonical\<close> version has two or three parts, each the decimal form (no leading zero) of
  a number below \<open>2^63\<close>. On canonical versions \<open>versionLess\<close> is a strict total order,
  the lexicographic order of the number lists; on other versions that validation lets
  through it is not even asymmetric.
\<close>

subsection \<open>versionLess\<close>

text \<open>
  The loop over the positions \<open>q = 0, 1, 2\<close>: \<open>n\<close> is the number of positions left, the lists
  are the parts from position \<open>q\<close> on.
\<close>

fun version_less_loop :: "nat \<Rightarrow> string list \<Rightarrow> string list \<Rightarrow> bool" where
  "version_less_loop 0 iVer jVer = False"
| "version_less_loop (Suc n) [] jVer = True"
| "version_less_loop (Suc n) (ic # iVer) [] = False"
| "version_less_loop (Suc n) (ic # iVer) (jc # jVer) =
     (let ici = fst (Atoi ic); jci = fst (Atoi jc)
      in if ici \<noteq> jci then ici < jci else version_less_loop n iVer jVer)"

definition versionLess :: "string \<Rightarrow> string \<Rightarrow> bool" where
  "versionLess verA verB =
     (if verA = verB then False
      else version_less_loop 3 (split_on CHR ''.'' verA) (split_on CHR ''.'' verB))"

subsection \<open>verConstraintCheck\<close>

definition string_of_int :: "int \<Rightarrow> string" where
  "string_of_int i = (if i < 0 then ''-'' @ string_of_nat (nat (- i)) else string_of_nat (nat i))"

text \<open>The exclusive upper bound of a pessimistic constraint.\<close>

definition pessimistic_upper :: "string \<Rightarrow> string" where
  "pessimistic_upper verB =
     (let pv = split_on CHR ''.'' verB
      in if length pv = 3
         then pv ! 0 @ ''.'' @ string_of_int (int64_inc (fst (Atoi (pv ! 1))))
         else string_of_int (int64_inc (fst (Atoi (pv ! 0)))) @ ''.0'')"

definition verConstraintCheck :: "string \<Rightarrow> string \<Rightarrow> string \<Rightarrow> string" where
  "verConstraintCheck verA verB op =
     (if op = ''='' then
        (if verA = verB then ''ok'' else if versionLess verA verB then ''break'' else ''skip'')
      else if op = ''>'' then
        (if verA = verB \<or> versionLess verA verB then ''break'' else ''ok'')
      else if op = ''<'' then
        (if verA = verB \<or> \<not> versionLess verA verB then ''skip'' else ''ok'')
      else if op = ''>='' then
        (if \<not> versionLess verA verB then ''ok'' else ''break'')
      else if op = ''<='' then
        (if verA = verB \<or> versionLess verA verB then ''ok'' else ''skip'')
      else if op = ''~>'' then
        (if versionLess verA verB then ''break''
         else if \<not> versionLess verA verB \<and> versionLess verA (pessimistic_upper verB)
         then ''ok'' else ''skip'')
      else ''invalid'')"

subsection \<open>splitConstraint and extractVerNums\<close>

definition splitConstraint :: "string \<Rightarrow> (string \<times> string) outcome" where
  "splitConstraint constraint =
     (case split_on CHR '' '' constraint of
        [op, ver] \<Rightarrow> Ok (op, ver)
      | _ \<Rightarrow> Errorf (''Constraint '' @ sq constraint @ '' was not well-formed.''))"

definition parse_num0 :: "string \<Rightarrow> int outcome" where
  "parse_num0 s =
     (case ParseInt0 s of (v, None) \<Rightarrow> Ok v | (v, Some e) \<Rightarrow> Errorf (parse_int_error s e))"

text \<open>
  The length check of the source, \<open>len(nums) < 2 && len(nums) > 3\<close>, is never true, so it
  has no branch here; validation has already fixed the number of parts to two or three.
\<close>

definition extractVerNums :: "string \<Rightarrow> (int \<times> int \<times> int) outcome" where
  "extractVerNums cbVersion =
     outcome_bind (ValidateAsVersion (GStr cbVersion)) (\<lambda>_.
       let nums = split_on CHR ''.'' cbVersion in
       outcome_bind (parse_num0 (nums ! 0)) (\<lambda>maj.
       outcome_bind (parse_num0 (nums ! 1)) (\<lambda>min.
       if length nums = 3
       then outcome_bind (parse_num0 (nums ! 2)) (\<lambda>patch. Ok (maj, min, patch))
       else Ok (maj, min, 0))))"

subsection \<open>Canonical versions and their order\<close>

definition canon_part :: "string \<Rightarrow> bool" where
  "canon_part p \<longleftrightarrow> (\<exists>n < 2 ^ 63. p = string_of_nat n)"

definition canon_version :: "string \<Rightarrow> bool" where
  "canon_version v \<longleftrightarrow>
     (let ps = split_on CHR ''.'' v
      in (length ps = 2 \<or> length ps = 3) \<and> list_all canon_part ps)"

definition ver_key :: "string \<Rightarrow> int list" where
  "ver_key v = map (\<lambda>p. fst (Atoi p)) (split_on CHR ''.'' v)"

lemma canon_part_string_of_nat: "n < 2 ^ 63 \<Longrightarrow> canon_part (string_of_nat n)"
  by (auto simp: canon_part_def)

lemma canon_part_inj:
  "canon_part p \<Longrightarrow> canon_part q \<Longrightarrow> fst (Atoi p) = fst (Atoi q) \<Longrightarrow> p = q"
  by (auto simp: canon_part_def ParseInt10_string_of_nat)

lemma canon_parts_inj:
  "list_all canon_part ps \<Longrightarrow> list_all canon_part qs \<Longrightarrow>
   map (\<lambda>p. fst (Atoi p)) ps = map (\<lambda>p. fst (Atoi p)) qs \<Longrightarrow> ps = qs"
proof (induction ps arbitrary: qs)
  case Nil
  then show ?case by simp
next
  case (Cons p ps)
  then obtain q qs' where "qs = q # qs'" by (cases qs) auto
  with Cons show ?case using canon_part_inj by auto
qed

lemma ver_key_inj: "canon_version a \<Longrightarrow> canon_version b \<Longrightarrow> ver_key a = ver_key b \<Longrightarrow> a = b"
  using canon_parts_inj split_on_inj unfolding canon_version_def ver_key_def Let_def by blast

lemma version_less_loop_lex:
  assumes "length iVer \<le> n" "length jVer \<le> n"
  shows "version_less_loop n iVer jVer \<longleftrightarrow>
     map (\<lambda>p. fst (Atoi p)) iVer < map (\<lambda>p. fst (Atoi p)) jVer \<or>
     (map (\<lambda>p. fst (Atoi p)) iVer = map (\<lambda>p. fst (Atoi p)) jVer \<and> length iVer < n)"
  using assms
proof (induction n iVer jVer rule: version_less_loop.induct)
  case (2 n jVer)
  then show ?case by (cases jVer) auto
next
  case (4 n ic iVer jc jVer)
  then show ?case by (auto simp: Let_def)
qed auto

lemma canon_length: "canon_version v \<Longrightarrow> length (split_on CHR ''.'' v) \<le> 3"
  by (auto simp: canon_version_def Let_def)

lemma versionLess_iff:
  assumes "canon_version a" "canon_version b"
  shows "versionLess a b \<longleftrightarrow> ver_key a < ver_key b"
proof (cases "a = b")
  case True
  then show ?thesis by (simp add: versionLess_def)
next
  case False
  with ver_key_inj assms have "ver_key a \<noteq> ver_key b" by blast
  with False version_less_loop_lex [OF canon_length canon_length, OF assms]
  show ?thesis by (simp add: versionLess_def ver_key_def)
qed

lemma not_versionLess_iff:
  assumes "canon_version a" "canon_version b"
  shows "\<not> versionLess a b \<longleftrightarrow> ver_key b \<le> ver_key a"
  using versionLess_iff [OF assms] by auto

lemma versionLess_total_canon: "strict_total_on versionLess {v. canon_version v}"
  unfolding strict_total_on_def
  using versionLess_iff ver_key_inj by (fastforce simp: neq_iff)

text \<open>\<^bold>\<open>C25\<close>. On canonical versions \<open>versionLess\<close> is a strict total order: irreflexive,
  transitive, and any two different versions are comparable. It is the lexicographic
  order of the version's numbers.\<close>

theorem versionLess_strict_total:
  "strict_total_on versionLess {v. canon_version v} \<and>
   (\<forall>a b. canon_version a \<and> canon_version b \<longrightarrow> versionLess a b = (ver_key a < ver_key b))"
  using versionLess_total_canon versionLess_iff by blast

lemma canon_print_version:
  "a < 2 ^ 63 \<Longrightarrow> b < 2 ^ 63 \<Longrightarrow> c < 2 ^ 63 \<Longrightarrow> canon_version (print_version a b c)"
  by (auto simp: canon_version_def canon_part_def)

lemma ver_key_print_version:
  "a < 2 ^ 63 \<Longrightarrow> b < 2 ^ 63 \<Longrightarrow> c < 2 ^ 63 \<Longrightarrow>
   ver_key (print_version a b c) = [int a, int b, int c]"
  by (simp add: ver_key_def ParseInt10_string_of_nat)

lemma print_version_eval:
  "print_version 3 2 5 = ''3.2.5''" "print_version 3 9 0 = ''3.9.0''"
  "print_version 3 10 0 = ''3.10.0''"
  by code_simp+

text \<open>Rewriting that evaluates validation and \<open>Atoi\<close> on literal versions.\<close>

lemmas version_eval = ValidateAsVersion_GStr version_groups_def is_digits_def is_digit_of_char
  digits_val_def digit_val_def ParseInt10_digits

theorem versionLess_strict_total_witness:
  "strict_total_on versionLess {v. canon_version v} \<and> canon_version ''3.9.0'' \<and>
   canon_version ''3.10.0'' \<and> versionLess ''3.9.0'' ''3.10.0''"
proof -
  have c: "canon_version ''3.9.0''" "canon_version ''3.10.0''"
    using canon_print_version [of 3 9 0] canon_print_version [of 3 10 0]
    by (simp_all add: print_version_eval)
  have k: "ver_key ''3.9.0'' = [3, 9, 0]" "ver_key ''3.10.0'' = [3, 10, 0]"
    using ver_key_print_version [of 3 9 0] ver_key_print_version [of 3 10 0]
    by (simp_all add: print_version_eval)
  show ?thesis
    using versionLess_strict_total c k by simp
qed

text \<open>Leading zeros break the order: \<open>1.0\<close> and \<open>1.00\<close> both pass validation, and each is
  less than the other, so a cookbook that holds both has no well-defined latest version.\<close>

theorem versionLess_not_asymmetric:
  "ValidateAsVersion (GStr ''1.0'') = Ok ''1.0'' \<and> ValidateAsVersion (GStr ''1.00'') = Ok ''1.00'' \<and>
   versionLess ''1.0'' ''1.00'' \<and> versionLess ''1.00'' ''1.0''"
  by (simp add: version_eval versionLess_def numeral_3_eq_3 del: ValidateAsVersion.simps)

subsection \<open>Constraints\<close>

text \<open>What each operator means on the keys of the versions.\<close>

definition ver_sat :: "string \<Rightarrow> string \<Rightarrow> string \<Rightarrow> bool" where
  "ver_sat verA verB op =
     (if op = ''='' then ver_key verA = ver_key verB
      else if op = ''>'' then ver_key verB < ver_key verA
      else if op = ''<'' then ver_key verA < ver_key verB
      else if op = ''>='' then ver_key verB \<le> ver_key verA
      else if op = ''<='' then ver_key verA \<le> ver_key verB
      else if op = ''~>'' then ver_key verB \<le> ver_key verA \<and> versionLess verA (pessimistic_upper verB)
      else False)"

lemma verConstraintCheck_ok_iff:
  assumes "canon_version a" "canon_version b"
  shows "verConstraintCheck a b op = ''ok'' \<longleftrightarrow> ver_sat a b op"
proof -
  have eq: "a = b \<longleftrightarrow> ver_key a = ver_key b" using ver_key_inj assms by blast
  show ?thesis
    using versionLess_iff [OF assms] not_versionLess_iff [OF assms]
    by (auto simp: verConstraintCheck_def ver_sat_def eq)
qed

text \<open>
  \<open>break\<close> is sound for a list sorted in descending order: no smaller version satisfies
  the constraint either.
\<close>

lemma verConstraintCheck_break_sound:
  assumes "canon_version a" "canon_version a'" "canon_version b"
    and "verConstraintCheck a b op = ''break''" and "ver_key a' < ver_key a"
  shows "verConstraintCheck a' b op \<noteq> ''ok''"
proof -
  have "ver_key a \<le> ver_key b" "op \<in> {''='', ''>'', ''>='', ''~>''}"
    "op \<noteq> ''>'' \<Longrightarrow> ver_key a < ver_key b"
    using assms(4) versionLess_iff [OF assms(1,3)]
    by (auto simp: verConstraintCheck_def split: if_splits)
  with assms(5) have "\<not> ver_sat a' b op"
    by (auto simp: ver_sat_def)
  then show ?thesis
    using verConstraintCheck_ok_iff [OF assms(2,3)] by blast
qed

lemma string_of_int_inc:
  "n < 2 ^ 63 - 1 \<Longrightarrow> string_of_int (int64_inc (int n)) = string_of_nat (Suc n)"
  by (simp add: int64_inc_def string_of_int_def nat_add_distrib)

lemma canon_version_cases:
  assumes "canon_version v"
  obtains (two) x y where "split_on CHR ''.'' v = [string_of_nat x, string_of_nat y]" "x < 2 ^ 63" "y < 2 ^ 63"
      "ver_key v = [int x, int y]"
    | (three) x y z where "split_on CHR ''.'' v = [string_of_nat x, string_of_nat y, string_of_nat z]"
      "x < 2 ^ 63" "y < 2 ^ 63" "z < 2 ^ 63" "ver_key v = [int x, int y, int z]"
  using assms
  by (auto simp: canon_version_def canon_part_def ver_key_def Let_def ParseInt10_string_of_nat
      numeral_2_eq_2 numeral_3_eq_3 length_Suc_conv)

lemma two_part_version:
  assumes "x < 2 ^ 63" "y < 2 ^ 63"
  shows "canon_version (string_of_nat x @ ''.'' @ string_of_nat y)"
    and "ver_key (string_of_nat x @ ''.'' @ string_of_nat y) = [int x, int y]"
proof -
  have sp: "split_on CHR ''.'' (string_of_nat x @ ''.'' @ string_of_nat y) = [string_of_nat x, string_of_nat y]"
    by (simp add: split_on_app split_on_none)
  show "canon_version (string_of_nat x @ ''.'' @ string_of_nat y)"
    unfolding canon_version_def sp using assms by (simp add: canon_part_string_of_nat)
  show "ver_key (string_of_nat x @ ''.'' @ string_of_nat y) = [int x, int y]"
    unfolding ver_key_def sp using assms by (simp add: ParseInt10_string_of_nat)
qed

lemma pessimistic_upper_three:
  assumes "split_on CHR ''.'' v = [string_of_nat x, string_of_nat y, string_of_nat z]" "x < 2 ^ 63" "y < 2 ^ 63 - 1"
  shows "canon_version (pessimistic_upper v) \<and> ver_key (pessimistic_upper v) = [int x, int (Suc y)]"
proof -
  have "pessimistic_upper v = string_of_nat x @ ''.'' @ string_of_nat (Suc y)"
    using assms by (simp add: pessimistic_upper_def ParseInt10_string_of_nat string_of_int_inc)
  then show ?thesis using two_part_version [of x "Suc y"] assms by simp
qed

lemma pessimistic_upper_two:
  assumes "split_on CHR ''.'' v = [string_of_nat x, string_of_nat y]" "x < 2 ^ 63 - 1"
  shows "canon_version (pessimistic_upper v) \<and> ver_key (pessimistic_upper v) = [int (Suc x), 0]"
proof -
  have "string_of_nat 0 = ''0''" by code_simp
  then have "pessimistic_upper v = string_of_nat (Suc x) @ ''.'' @ string_of_nat 0"
    using assms by (simp add: pessimistic_upper_def ParseInt10_string_of_nat string_of_int_inc)
  then show ?thesis using two_part_version [of "Suc x" 0] assms by simp
qed

text \<open>\<^bold>\<open>C10\<close>. The pessimistic operator, on versions and bounds of two or three numbers: a version
  satisfies \<open>~>\<close> exactly when it is at least the bound and agrees with it in all numbers but
  the last, so that \<open>~> x.y.z\<close> stays below \<open>x.(y+1)\<close> and \<open>~> x.y\<close> below \<open>(x+1).0\<close>. The number that
  is counted up must not be the greatest 64-bit integer.\<close>

theorem pessimistic_constraint:
  assumes "canon_version a" "canon_version b" "last (butlast (ver_key b)) < 2 ^ 63 - 1"
  shows "verConstraintCheck a b ''~>'' = ''ok'' \<longleftrightarrow>
    ver_key b \<le> ver_key a \<and> take (length (ver_key b) - 1) (ver_key a) = butlast (ver_key b)"
proof -
  have iff: "verConstraintCheck a b ''~>'' = ''ok'' \<longleftrightarrow> ver_key b \<le> ver_key a \<and> versionLess a (pessimistic_upper b)"
    by (simp add: verConstraintCheck_ok_iff [OF assms(1,2)] ver_sat_def)
  obtain a0 a1 as where a: "ver_key a = a0 # a1 # as" using assms(1) by (cases rule: canon_version_cases) auto
  from assms(2) show ?thesis
  proof (cases rule: canon_version_cases)
    case (two x y)
    with assms(3) have up: "canon_version (pessimistic_upper b) \<and> ver_key (pessimistic_upper b) = [int (Suc x), 0]"
      by (intro pessimistic_upper_two) auto
    have "0 \<le> a1" using assms(1) a by (cases rule: canon_version_cases) auto
    with iff two(4) a versionLess_iff [OF assms(1) conjunct1 [OF up]] up show ?thesis by auto
  next
    case (three x y z)
    with assms(3) have up: "canon_version (pessimistic_upper b) \<and> ver_key (pessimistic_upper b) = [int x, int (Suc y)]"
      by (intro pessimistic_upper_three) auto
    with iff three(5) a versionLess_iff [OF assms(1) conjunct1 [OF up]] show ?thesis by auto
  qed
qed

theorem pessimistic_constraint_witness:
  "verConstraintCheck ''3.2.5'' ''3.2.5'' ''~>'' = ''ok'' \<and> verConstraintCheck ''3.9.0'' ''3.2.5'' ''~>'' \<noteq> ''ok'' \<and>
   verConstraintCheck ''3.9.0'' ''3.2'' ''~>'' = ''ok'' \<and> verConstraintCheck ''4.0'' ''3.2'' ''~>'' \<noteq> ''ok''"
proof -
  have c: "canon_version ''3.2.5''" "canon_version ''3.9.0''" "ver_key ''3.2.5'' = [3, 2, 5]" "ver_key ''3.9.0'' = [3, 9, 0]"
    using canon_print_version [of 3 2 5] canon_print_version [of 3 9 0] ver_key_print_version [of 3 2 5] ver_key_print_version [of 3 9 0]
    by (simp_all add: print_version_eval)
  have "string_of_nat 3 @ ''.'' @ string_of_nat 2 = ''3.2''" "string_of_nat 4 @ ''.'' @ string_of_nat 0 = ''4.0''" by code_simp+
  with two_part_version [of 3 2] two_part_version [of 4 0]
  have d: "canon_version ''3.2''" "ver_key ''3.2'' = [3, 2]" "canon_version ''4.0''" "ver_key ''4.0'' = [4, 0]" by simp_all
  show ?thesis
    using pessimistic_constraint [OF c(1) c(1)] pessimistic_constraint [OF c(2) c(1)]
      pessimistic_constraint [OF c(2) d(1)] pessimistic_constraint [OF d(3) d(1)]
    by (simp add: c d)
qed

subsection \<open>Reading the numbers of a version\<close>

lemma hd_string_of_nat: "0 < n \<Longrightarrow> hd (string_of_nat n) \<noteq> CHR ''0''"
proof (induction n rule: string_of_nat.induct)
  case (1 n)
  show ?case
  proof (cases "n < 10")
    case True
    then have "digit_val (digit_char n) = n" by simp
    moreover have "digit_val CHR ''0'' = 0" by (simp add: digit_val_def)
    ultimately have "digit_char n \<noteq> CHR ''0''" using 1(2) by (metis less_irrefl)
    then show ?thesis using True by (simp add: string_of_nat.simps [of n])
  next
    case False
    with 1 have "hd (string_of_nat (n div 10)) \<noteq> CHR ''0''" by simp
    with False show ?thesis by (simp add: string_of_nat.simps [of n])
  qed
qed

lemma string_of_nat_0: "string_of_nat 0 = ''0''"
  by code_simp

lemma parse_num0_string_of_nat:
  assumes "n < 2 ^ 63"
  shows "parse_num0 (string_of_nat n) = Ok (int n)"
proof (cases "n = 0")
  case True
  then show ?thesis
    by (simp add: parse_num0_def ParseInt0_def clamp_int_def string_of_nat_0)
next
  case False
  obtain d ds where s: "string_of_nat n = d # ds" by (cases "string_of_nat n") auto
  with hd_string_of_nat [of n] False have "d \<noteq> CHR ''0''" by simp
  then have "ParseInt0 (string_of_nat n) = clamp_int False (parse_uint_loop 10 0 (string_of_nat n))"
    by (simp add: ParseInt0_def s)
  also have "\<dots> = (int n, None)"
    using parse_uint_loop_dec [OF is_digits_string_of_nat, of 0 n] assms
    by (simp add: digits_val_def [symmetric] clamp_int_def)
  finally show ?thesis by (simp add: parse_num0_def)
qed

text \<open>Printing a version and reading its numbers back gives the numbers.\<close>

theorem extractVerNums_print:
  assumes "a < 2 ^ 63" "b < 2 ^ 63" "c < 2 ^ 63"
  shows "extractVerNums (print_version a b c) = Ok (int a, int b, int c)"
  using assms ValidateAsVersion_print [OF assms]
  by (simp add: extractVerNums_def parse_num0_string_of_nat del: ValidateAsVersion.simps)

theorem extractVerNums_print_witness: "extractVerNums ''3.10.0'' = Ok (3, 10, 0)"
  using extractVerNums_print [of 3 10 0] by (simp add: print_version_eval)

text \<open>\<open>extractVerNums\<close> reads a part with a leading zero in base 8, unlike \<open>versionLess\<close>: of
  the valid version \<open>1.010.0\<close> it reads the minor number 8, where \<open>versionLess\<close> reads 10,
  and it rejects the valid version \<open>1.08.0\<close>.\<close>

theorem extractVerNums_octal:
  "is_ok (ValidateAsVersion (GStr ''1.010.0'')) \<and> extractVerNums ''1.010.0'' = Ok (1, 8, 0) \<and>
   ver_key ''1.010.0'' = [1, 10, 0] \<and>
   is_ok (ValidateAsVersion (GStr ''1.08.0'')) \<and> \<not> is_ok (extractVerNums ''1.08.0'')"
proof -
  have v: "ValidateAsVersion (GStr ''1.010.0'') = Ok ''1.010.0''"
    "ValidateAsVersion (GStr ''1.08.0'') = Ok ''1.08.0''"
    by (simp_all add: version_eval del: ValidateAsVersion.simps)
  show ?thesis
    by (simp add: v version_eval(2-) ver_key_def extractVerNums_def parse_num0_def ParseInt0_def
        clamp_int_def del: ValidateAsVersion.simps)
qed

end
