(* ===== verification/Cookbook.thy ===== *)
theory Cookbook
  imports FileStore Versioning
begin

text \<open>
  \<^verbatim>\<open>cookbook/cookbook.go\<close>: cookbooks and their versions. A cookbook maps version strings
  to cookbook versions; the files of a version live in the file store and are deleted when
  no version uses them any more. A method that changes its receiver returns it.

  Parameters: \<open>baseURL\<close> is the server's base URL, \<open>fmt_v\<close> the format \<^verbatim>\<open>%v\<close> in an error
  message of the metadata check, \<open>check\<close> a constraint of the package \<open>go-version\<close>.
\<close>

subsection \<open>Cookbooks\<close>

definition cookbook_New :: "string \<Rightarrow> server \<Rightarrow> cookbook outcome" where
  "cookbook_New name s =
     (if \<not> ValidateName name then
        Errorf (''Invalid cookbook name '' @ sq name @ '' using regex: '' @
          sq ''Malformed cookbook name. Must only contain A-Z, a-z, 0-9, _ or -'' @ ''.'')
      else Ok \<lparr>cb_Name = name, cb_Versions = [], cb_latest = None, cb_numVersions = None\<rparr>)"

definition NumVersions :: "cookbook \<Rightarrow> nat" where
  "NumVersions c = length (cb_Versions c)"

definition cookbook_Get :: "string \<Rightarrow> server \<Rightarrow> cookbook option outcome" where
  "cookbook_Get name s =
     (case srv_Get ''cookbook'' s name of
        None \<Rightarrow> Ok None
      | Some (VCookbook c) \<Rightarrow> Ok (Some c)
      | Some _ \<Rightarrow> Panic)"

definition cookbook_DoesExist :: "string \<Rightarrow> server \<Rightarrow> bool" where
  "cookbook_DoesExist name s \<longleftrightarrow> srv_Get ''cookbook'' s name \<noteq> None"

definition cookbook_Save :: "cookbook \<Rightarrow> server \<Rightarrow> server" where
  "cookbook_Save c s = srv_Set ''cookbook'' (cb_Name c) (VCookbook c) s"

definition cookbook_Delete :: "cookbook \<Rightarrow> server \<Rightarrow> server" where
  "cookbook_Delete c s = srv_Delete ''cookbook'' (cb_Name c) s"

definition cookbook_GetList :: "server \<Rightarrow> string list" where
  "cookbook_GetList s = srv_GetList ''cookbook'' s"

fun all_cookbooks :: "string list \<Rightarrow> server \<Rightarrow> cookbook list outcome" where
  "all_cookbooks [] s = Ok []"
| "all_cookbooks (n # ns) s =
     outcome_bind (cookbook_Get n s) (\<lambda>c. outcome_bind (all_cookbooks ns s)
       (\<lambda>cs. Ok (case c of None \<Rightarrow> cs | Some cb \<Rightarrow> cb # cs)))"

definition AllCookbooks :: "server \<Rightarrow> cookbook list outcome" where
  "AllCookbooks s = all_cookbooks (cookbook_GetList s) s"

subsection \<open>Ordering of the versions\<close>

definition sortedVersions :: "cookbook \<Rightarrow> cookbook_version list" where
  "sortedVersions c =
     map (\<lambda>k. the (map_of (cb_Versions c) k)) (sort_by (\<lambda>a b. versionLess b a) (map fst (cb_Versions c)))"

definition LatestVersion :: "cookbook \<Rightarrow> cookbook_version outcome \<times> cookbook" where
  "LatestVersion c =
     (case cb_latest c of
        Some l \<Rightarrow> (Ok l, c)
      | None \<Rightarrow>
          (case sortedVersions c of
             [] \<Rightarrow> (Panic, c)
           | l # _ \<Rightarrow> (Ok l, c\<lparr>cb_latest := Some l\<rparr>)))"

definition UpdateLatestVersion :: "cookbook \<Rightarrow> unit outcome \<times> cookbook" where
  "UpdateLatestVersion c =
     (case LatestVersion (c\<lparr>cb_latest := None\<rparr>) of
        (Ok _, c') \<Rightarrow> (Ok (), c') | (Err e, c') \<Rightarrow> (Err e, c') | (Panic, c') \<Rightarrow> (Panic, c'))"

definition version_url :: "string \<Rightarrow> cookbook \<Rightarrow> string \<Rightarrow> string" where
  "version_url baseURL c v = baseURL @ ''/cookbooks/'' @ cb_Name c @ ''/'' @ v"

text \<open>The loop of \<open>infoHashBase\<close>: \<open>limit\<close> is \<open>None\<close> when all versions are asked for, \<open>traint\<close>
  is the constraint's version and operator if there is a constraint.\<close>

fun info_loop :: "int option \<Rightarrow> (string \<times> string) option \<Rightarrow> int \<Rightarrow> cookbook_version list \<Rightarrow> cookbook_version list" where
  "info_loop limit traint nr [] = []"
| "info_loop limit traint nr (cv # cvs) =
     (if (case limit of None \<Rightarrow> False | Some n \<Rightarrow> nr \<ge> n) then []
      else
        (let conAction = (case traint of None \<Rightarrow> ''ok'' | Some (v, op) \<Rightarrow> verConstraintCheck (cv_Version cv) v op)
         in if conAction = ''skip'' then info_loop limit traint nr cvs
            else if conAction = ''break'' then []
            else cv # info_loop limit traint (nr + 1) cvs))"

definition info_limit :: "string \<Rightarrow> int option" where
  "info_limit numResults =
     (if numResults \<noteq> [] \<and> numResults \<noteq> ''all'' then Some (fst (Atoi numResults))
      else if numResults = [] then Some 1 else None)"

definition info_versions :: "string \<Rightarrow> string \<Rightarrow> cookbook \<Rightarrow> cookbook_version list option" where
  "info_versions numResults constraint c =
     (if constraint = [] then Some (info_loop (info_limit numResults) None 0 (sortedVersions c))
      else (case split_on CHR '' '' constraint of
              [op, v] \<Rightarrow> Some (info_loop (info_limit numResults) (Some (v, op)) 0 (sortedVersions c))
            | _ \<Rightarrow> None))"

definition infoHashBase :: "string \<Rightarrow> string \<Rightarrow> string \<Rightarrow> cookbook \<Rightarrow> gobj option" where
  "infoHashBase baseURL numResults constraint c =
     map_option (\<lambda>cvs.
         [(''url'', GStr (baseURL @ ''/cookbooks/'' @ cb_Name c)),
          (''versions'', GArr (map (\<lambda>cv. GStrMap [(''url'', version_url baseURL c (cv_Version cv)),
                                                 (''version'', cv_Version cv)]) cvs))])
       (info_versions numResults constraint c)"

definition InfoHash :: "string \<Rightarrow> string \<Rightarrow> cookbook \<Rightarrow> gobj option" where
  "InfoHash baseURL numResults c = infoHashBase baseURL numResults [] c"

fun latest_loop :: "string \<Rightarrow> string \<Rightarrow> cookbook_version list \<Rightarrow> cookbook_version option" where
  "latest_loop v op [] = None"
| "latest_loop v op (cv # cvs) =
     (if verConstraintCheck (cv_Version cv) v op = ''ok'' then Some cv else latest_loop v op cvs)"

definition LatestConstrained :: "string \<Rightarrow> cookbook \<Rightarrow> cookbook_version option outcome \<times> cookbook" where
  "LatestConstrained constraint c =
     (if constraint = [] then
        (case LatestVersion c of (Ok l, c') \<Rightarrow> (Ok (Some l), c') | (Err e, c') \<Rightarrow> (Err e, c') | (Panic, c') \<Rightarrow> (Panic, c'))
      else (case split_on CHR '' '' constraint of
              [op, v] \<Rightarrow> (Ok (latest_loop v op (sortedVersions c)), c)
            | _ \<Rightarrow> (Ok None, c)))"

text \<open>The loop labelled \<open>Ver\<close>: the version is taken after the first constraint that holds,
  so the later constraints are never looked at.\<close>

fun multi_inner :: "('c \<Rightarrow> string \<Rightarrow> bool) \<Rightarrow> 'c list \<Rightarrow> cookbook_version \<Rightarrow> bool" where
  "multi_inner check [] cver = False"
| "multi_inner check (cs # constraints) cver =
     (if \<not> check cs (cv_Version cver) then False else True)"

fun multi_loop :: "('c \<Rightarrow> string \<Rightarrow> bool) \<Rightarrow> 'c list \<Rightarrow> cookbook_version list \<Rightarrow> cookbook_version option" where
  "multi_loop check constraints [] = None"
| "multi_loop check constraints (cver # cvs) =
     (if multi_inner check constraints cver then Some cver else multi_loop check constraints cvs)"

definition latestMultiConstraint ::
  "('c \<Rightarrow> string \<Rightarrow> bool) \<Rightarrow> 'c list option \<Rightarrow> cookbook \<Rightarrow> cookbook_version option outcome \<times> cookbook" where
  "latestMultiConstraint check constraints c =
     (case constraints of
        None \<Rightarrow> (case LatestVersion c of
                   (Ok l, c') \<Rightarrow> (Ok (Some l), c') | (Err e, c') \<Rightarrow> (Err e, c') | (Panic, c') \<Rightarrow> (Panic, c'))
      | Some cs \<Rightarrow> (Ok (multi_loop check cs (sortedVersions c)), c))"

definition badConstraints :: "('c \<Rightarrow> string \<Rightarrow> bool) \<Rightarrow> ('c \<Rightarrow> string) \<Rightarrow> 'c list option \<Rightarrow> cookbook \<Rightarrow> string list" where
  "badConstraints check str constraints c =
     (case constraints of
        None \<Rightarrow> []
      | Some cs \<Rightarrow>
          map str (filter (\<lambda>k. list_ex (\<lambda>cver. \<not> check k (cv_Version cver)) (sortedVersions c)) cs))"

definition universeFormat :: "string \<Rightarrow> cookbook \<Rightarrow> gobj" where
  "universeFormat baseURL c =
     merge_all (map (\<lambda>cbv. (cv_Version cbv,
        GMap [(''location_path'', GStr (version_url baseURL c (cv_Version cbv))),
              (''location_type'', GStr ''chef_server''),
              (''dependencies'', gget (cv_Metadata cbv) ''dependencies'')])) (sortedVersions c)) []"

subsection \<open>Files of a version\<close>

text \<open>An entry without a string as its checksum leaves the empty string in the slice.\<close>

definition getAttrHashes :: "gobj list \<Rightarrow> string list" where
  "getAttrHashes attr = map (\<lambda>v. case gget v ''checksum'' of GStr h \<Rightarrow> h | _ \<Rightarrow> []) attr"

definition fileHashes :: "cookbook_version \<Rightarrow> string list" where
  "fileHashes cbv =
     RemoveDupStrings (sort
       (getAttrHashes (cv_Definitions cbv) @ getAttrHashes (cv_Libraries cbv) @
        getAttrHashes (cv_Attributes cbv) @ getAttrHashes (cv_Recipes cbv) @
        getAttrHashes (cv_Providers cbv) @ getAttrHashes (cv_Resources cbv) @
        getAttrHashes (cv_Templates cbv) @ getAttrHashes (cv_RootFiles cbv) @ getAttrHashes (cv_Files cbv)))"

text \<open>The innermost loop of \<open>deleteHashes\<close>: drop the hash if it is found, stop when a
  greater one is met.\<close>

fun drop_hash :: "string \<Rightarrow> string list \<Rightarrow> string list" where
  "drop_hash vh [] = []"
| "drop_hash vh (fh # fhashes) =
     (if fh = vh then fhashes else if fh > vh then fh # fhashes else fh # drop_hash vh fhashes)"

definition unused_hashes :: "cookbook \<Rightarrow> cookbook list \<Rightarrow> string list \<Rightarrow> string list" where
  "unused_hashes c ac fhashes =
     fold (\<lambda>cb fhs. fold (\<lambda>ver fhs. fold drop_hash (fileHashes ver) fhs)
       (sortedVersions (if cb_Name cb = cb_Name c then c else cb)) fhs) ac fhashes"

definition deleteHashes :: "cookbook \<Rightarrow> string list \<Rightarrow> server \<Rightarrow> unit outcome \<times> server" where
  "deleteHashes c fhashes s =
     (case AllCookbooks s of
        Ok ac \<Rightarrow> DeleteHashes (unused_hashes c ac fhashes) s
      | Err e \<Rightarrow> (Err e, s)
      | Panic \<Rightarrow> (Panic, s))"

subsection \<open>Versions\<close>

definition GetVersion :: "string \<Rightarrow> cookbook \<Rightarrow> cookbook_version outcome \<times> cookbook" where
  "GetVersion cbVersion c =
     (if cbVersion = ''_latest'' then LatestVersion c
      else (case map_of (cb_Versions c) cbVersion of
              None \<Rightarrow> (ErrorS (''Cannot find a cookbook named '' @ cb_Name c @ '' with version '' @ cbVersion)
                         StatusNotFound, c)
            | Some cbv \<Rightarrow> (Ok cbv, c)))"

definition DoesVersionExist :: "string \<Rightarrow> cookbook \<Rightarrow> bool outcome" where
  "DoesVersionExist cbVersion c = outcome_bind (fst (GetVersion cbVersion c)) (\<lambda>_. Ok True)"

definition DeleteVersion :: "string \<Rightarrow> cookbook \<Rightarrow> server \<Rightarrow> unit outcome \<times> cookbook \<times> server" where
  "DeleteVersion cbVersion c s =
     (case GetVersion cbVersion c of
        (Panic, c1) \<Rightarrow> (Panic, c1, s)
      | (Err _, c1) \<Rightarrow>
          (ErrorS (''Version '' @ cbVersion @ '' of cookbook '' @ cb_Name c @ '' does not exist to be deleted.'')
             StatusNotFound, c1, s)
      | (Ok cbv, c1) \<Rightarrow>
          (let c2 = c1\<lparr>cb_numVersions := None, cb_Versions := adel cbVersion (cb_Versions c1)\<rparr>;
               s1 = cookbook_Save c2 s
           in case deleteHashes c2 (fileHashes cbv) s1 of
                (Panic, s2) \<Rightarrow> (Panic, c2, s2)
              | (_, s2) \<Rightarrow> (Ok (), c2, s2)))"

definition version_elements :: "string list" where
  "version_elements =
     [''cookbook_name'', ''name'', ''version'', ''json_class'', ''chef_type'', ''definitions'', ''libraries'',
      ''attributes'', ''recipes'', ''providers'', ''resources'', ''templates'', ''root_files'', ''files'',
      ''frozen?'', ''metadata'', ''force'']"

definition field_invalid :: "string \<Rightarrow> 'a outcome" where
  "field_invalid name = Errorf (''Field '' @ sq name @ '' invalid'')"

definition version_field :: "string \<Rightarrow> string \<Rightarrow> string \<Rightarrow> gval \<Rightarrow> string outcome" where
  "version_field name expected old v =
     (case ValidateAsFieldString v of
        Ok f \<Rightarrow> if f \<noteq> expected then field_invalid name else Ok f
      | Err e \<Rightarrow> if msg e = ''Field 'name' nil'' then Ok old else field_invalid name
      | Panic \<Rightarrow> Panic)"

definition file_url :: "string \<Rightarrow> server \<Rightarrow> string \<Rightarrow> string option" where
  "file_url baseURL s chksum =
     (if is_ok (file_Get chksum s) then Some (baseURL @ ''/file_store/'' @ chksum) else None)"

fun validate_divs :: "(string \<Rightarrow> string option) \<Rightarrow> string list \<Rightarrow> gobj \<Rightarrow> gobj list list outcome" where
  "validate_divs furl [] data = Ok []"
| "validate_divs furl (d # ds) data =
     outcome_bind (ValidateCookbookDivision furl d (gget data d))
       (\<lambda>v. outcome_bind (validate_divs furl ds data) (\<lambda>vs. Ok (v # vs)))"

definition cookbook_name_check :: "gobj \<Rightarrow> string outcome" where
  "cookbook_name_check data =
     (case ValidateAsString (gget data ''cookbook_name'') of
        Ok n \<Rightarrow> Ok n
      | Err e \<Rightarrow> if msg e = ''Field 'name' missing'' then Errorf ''Field 'cookbook_name' missing''
                 else field_invalid ''cookbook_name''
      | Panic \<Rightarrow> Panic)"

text \<open>The part of \<open>UpdateVersion\<close> after the validations: the sanity checks and the update of the
  fields. Reading the name is an unchecked type assertion.\<close>

definition checked_update ::
  "string \<Rightarrow> string \<Rightarrow> string \<Rightarrow> string \<Rightarrow> gobj list list \<Rightarrow> gobj \<Rightarrow> bool \<Rightarrow> gobj \<Rightarrow> cookbook_version \<Rightarrow>
   cookbook_version outcome" where
  "checked_update cbname ct jc ver divs mdata frozen data cbv =
     (if cbname \<noteq> cv_CookbookName cbv then field_invalid ''cookbook_name''
      else (case gget data ''name'' of
              GStr name \<Rightarrow>
                if name \<noteq> cv_Name cbv then field_invalid ''name''
                else if ver \<noteq> cv_Version cbv \<and> ver \<noteq> ''0.0.0'' then field_invalid ''version''
                else
                  Ok (cbv\<lparr>cv_ChefType := ct, cv_JSONClass := jc,
                      cv_Definitions := divs ! 0, cv_Libraries := divs ! 1, cv_Attributes := divs ! 2,
                      cv_Recipes := divs ! 3, cv_Providers := divs ! 4, cv_Resources := divs ! 5,
                      cv_Templates := divs ! 6, cv_RootFiles := divs ! 7, cv_Files := divs ! 8,
                      cv_IsFrozen := (if cv_IsFrozen cbv then True else frozen), cv_Metadata := mdata\<rparr>)
            | _ \<Rightarrow> Panic))"

text \<open>The validations of \<open>UpdateVersion\<close>, in order, and the updated version.\<close>

definition updated_version ::
  "string \<Rightarrow> (gval \<Rightarrow> string) \<Rightarrow> gobj \<Rightarrow> cookbook_version \<Rightarrow> server \<Rightarrow> cookbook_version outcome" where
  "updated_version baseURL fmt_v data cbv s =
     outcome_bind (cookbook_name_check data) (\<lambda>cbname.
     (case first_invalid_key version_elements data of
        Some k \<Rightarrow> Errorf (''Invalid key '' @ k @ '' in request body'')
      | None \<Rightarrow>
     outcome_bind (version_field ''chef_type'' ''cookbook_version'' (cv_ChefType cbv) (gget data ''chef_type'')) (\<lambda>ct.
     outcome_bind (version_field ''json_class'' ''Chef::CookbookVersion'' (cv_JSONClass cbv) (gget data ''json_class'')) (\<lambda>jc.
     (case ValidateAsVersion (gget data ''version'') of
        Panic \<Rightarrow> Panic
      | Err _ \<Rightarrow> field_invalid ''version''
      | Ok ver0 \<Rightarrow>
     (let ver = (if ver0 = ''0.0.0'' \<and> cv_Version cbv \<noteq> [] then cv_Version cbv else ver0) in
     outcome_bind (validate_divs (file_url baseURL s)
         [''definitions'', ''libraries'', ''attributes'', ''recipes'', ''providers'', ''resources'', ''templates'',
          ''root_files'', ''files''] data) (\<lambda>divs.
     outcome_bind (ValidateCookbookMetadata fmt_v (gget data ''metadata'')) (\<lambda>mdata.
     outcome_bind (ValidateAsBool (gget data ''frozen?'')) (\<lambda>frozen.
       checked_update cbname ct jc ver divs mdata frozen data cbv)))))))))"

definition UpdateVersion ::
  "string \<Rightarrow> (gval \<Rightarrow> string) \<Rightarrow> gobj \<Rightarrow> bool \<Rightarrow> cookbook_version \<Rightarrow> server \<Rightarrow>
   unit outcome \<times> cookbook_version \<times> server" where
  "UpdateVersion baseURL fmt_v cbvData force cbv s =
     (if cv_IsFrozen cbv \<and> \<not> force then
        (ErrorS (''The cookbook '' @ cv_CookbookName cbv @ '' at version '' @ cv_Version cbv @
           '' is frozen. Use the 'force' option to override.'') StatusConflict, cbv, s)
      else
        (let fhashes = fileHashes cbv
         in case updated_version baseURL fmt_v cbvData cbv s of
              Err e \<Rightarrow> (Err e, cbv, s)
            | Panic \<Rightarrow> (Panic, cbv, s)
            | Ok cbv' \<Rightarrow>
                (if length fhashes > 0 then
                   (case cookbook_Get (cv_CookbookName cbv) s of
                      Ok None \<Rightarrow> (ErrorS (''cannot get a cookbook with name '' @ cv_CookbookName cbv)
                                    StatusInternalServerError, cbv', s)
                    | Ok (Some cookbook) \<Rightarrow>
                        (let cb' = cookbook\<lparr>cb_Versions := aput (cv_Version cbv') cbv' (cb_Versions cookbook)\<rparr>
                         in case deleteHashes cb' fhashes s of
                              (Panic, s') \<Rightarrow> (Panic, cbv', s')
                            | (_, s') \<Rightarrow> (Ok (), cbv', s'))
                    | Err e \<Rightarrow> (Err e, cbv', s)
                    | Panic \<Rightarrow> (Panic, cbv', s))
                 else (Ok (), cbv', s))))"

definition new_version :: "cookbook \<Rightarrow> string \<Rightarrow> cookbook_version" where
  "new_version c cbVersion =
     \<lparr>cv_CookbookName = cb_Name c, cv_Name = cb_Name c @ ''-'' @ cbVersion, cv_Version = cbVersion,
      cv_ChefType = ''cookbook_version'', cv_JSONClass = ''Chef::CookbookVersion'',
      cv_Definitions = [], cv_Libraries = [], cv_Attributes = [], cv_Recipes = [], cv_Providers = [],
      cv_Resources = [], cv_Templates = [], cv_RootFiles = [], cv_Files = [], cv_IsFrozen = False,
      cv_Metadata = []\<rparr>"

definition NewVersion ::
  "string \<Rightarrow> (gval \<Rightarrow> string) \<Rightarrow> string \<Rightarrow> gobj \<Rightarrow> cookbook \<Rightarrow> server \<Rightarrow>
   cookbook_version outcome \<times> cookbook \<times> server" where
  "NewVersion baseURL fmt_v cbVersion cbvData c s =
     (case GetVersion cbVersion c of
        (Ok _, c1) \<Rightarrow>
          (ErrorS (''Version '' @ cbVersion @ '' of cookbook '' @ cb_Name c @
             '' already exists, and shouldn't be created like this. Use UpdateVersion instead.'') StatusConflict, c1, s)
      | (Panic, c1) \<Rightarrow> (Panic, c1, s)
      | (Err _, c1) \<Rightarrow>
          (case UpdateVersion baseURL fmt_v cbvData False (new_version c1 cbVersion) s of
             (Err e, _, s1) \<Rightarrow> (Err e, c1, s1)
           | (Panic, _, s1) \<Rightarrow> (Panic, c1, s1)
           | (Ok _, cbv, s1) \<Rightarrow>
               (let c2 = c1\<lparr>cb_Versions := aput cbVersion cbv (cb_Versions c1), cb_numVersions := None\<rparr>
                in case UpdateLatestVersion c2 of
                     (Panic, c3) \<Rightarrow> (Panic, c3, s1)
                   | (_, c3) \<Rightarrow> (Ok cbv, c3, cookbook_Save c3 s1))))"

subsection \<open>Rendering\<close>

text \<open>The submatch of \<^verbatim>\<open>(.*?)\.rb\<close>: in the first line that has one, what stands before
  the first \<open>.rb\<close>.\<close>

fun before_rb :: "string \<Rightarrow> string option" where
  "before_rb [] = None"
| "before_rb (c # s) = (if take 3 (c # s) = ''.rb'' then Some [] else map_option ((#) c) (before_rb s))"

definition recipe_base :: "string \<Rightarrow> string option" where
  "recipe_base name =
     (case List.map_filter before_rb (split_on CHR 0x0A name) of [] \<Rightarrow> None | b # _ \<Rightarrow> Some b)"

fun recipe_names :: "string \<Rightarrow> gobj list \<Rightarrow> string list outcome" where
  "recipe_names cbname [] = Ok []"
| "recipe_names cbname (r # rs) =
     (case gget r ''name'' of
        GStr n \<Rightarrow>
          (case recipe_base n of
             None \<Rightarrow> Errorf ''No recipe name found''
           | Some rbase \<Rightarrow>
               outcome_bind (recipe_names cbname rs)
                 (\<lambda>l. Ok ((if rbase = ''default'' then cbname else cbname @ ''::'' @ rbase) # l)))
      | _ \<Rightarrow> Panic)"

definition RecipeList :: "cookbook_version \<Rightarrow> string list outcome" where
  "RecipeList cbv = recipe_names (cv_CookbookName cbv) (cv_Recipes cbv)"

fun latest_recipes :: "cookbook list \<Rightarrow> string list outcome" where
  "latest_recipes [] = Ok []"
| "latest_recipes (cb # cbs) =
     outcome_bind (fst (LatestVersion cb)) (\<lambda>l. outcome_bind (RecipeList l) (\<lambda>rs.
     outcome_bind (latest_recipes cbs) (\<lambda>rest. Ok (rs @ rest))))"

definition CookbookRecipes :: "server \<Rightarrow> string list outcome" where
  "CookbookRecipes s =
     outcome_bind (AllCookbooks s) (\<lambda>cbs. outcome_bind (latest_recipes cbs) (\<lambda>rs. Ok (sort rs)))"

fun has_sub :: "string \<Rightarrow> string \<Rightarrow> bool" where
  "has_sub pat [] = (pat = [])"
| "has_sub pat (c # s) = (take (length pat) (c # s) = pat \<or> has_sub pat s)"

definition methodize_item :: "string \<Rightarrow> string \<Rightarrow> gobj \<Rightarrow> gobj outcome" where
  "methodize_item baseURL meth v =
     (case gget v ''checksum'' of
        GStr chkSum \<Rightarrow>
          Ok (map (\<lambda>(k, j).
                (let str = (case j of GStr x \<Rightarrow> x | _ \<Rightarrow> [])
                 in if k = ''url'' \<and> (has_sub ''/file_store/'' str \<or> str = [])
                    then (k, GStr (baseURL @ ''/file_store/'' @ chkSum)) else (k, j)))
              (filter (\<lambda>(k, j). \<not> (meth = ''PUT'' \<and> k = ''url'')) v))
      | _ \<Rightarrow> Panic)"

fun methodize :: "string \<Rightarrow> string \<Rightarrow> gobj list \<Rightarrow> gobj list outcome" where
  "methodize baseURL meth [] = Ok []"
| "methodize baseURL meth (v # cbThing) =
     outcome_bind (methodize_item baseURL meth v)
       (\<lambda>r. outcome_bind (methodize baseURL meth cbThing) (\<lambda>rs. Ok (r # rs)))"

fun json_divs :: "string \<Rightarrow> string \<Rightarrow> (string \<times> gobj list) list \<Rightarrow> gobj outcome" where
  "json_divs baseURL meth [] = Ok []"
| "json_divs baseURL meth ((k, d) # ds) =
     (if length d \<noteq> 0 then
        outcome_bind (methodize baseURL meth d) (\<lambda>m. outcome_bind (json_divs baseURL meth ds)
          (\<lambda>r. Ok ((k, GArr (map GMap m)) # r)))
      else json_divs baseURL meth ds)"

definition version_ToJSON :: "string \<Rightarrow> string \<Rightarrow> cookbook_version \<Rightarrow> gobj outcome" where
  "version_ToJSON baseURL meth cbv =
     outcome_bind (methodize baseURL meth (cv_Recipes cbv)) (\<lambda>recipes.
     outcome_bind (json_divs baseURL meth
         [(''providers'', cv_Providers cbv), (''definitions'', cv_Definitions cbv), (''libraries'', cv_Libraries cbv),
          (''attributes'', cv_Attributes cbv), (''resources'', cv_Resources cbv), (''templates'', cv_Templates cbv),
          (''root_files'', cv_RootFiles cbv), (''files'', cv_Files cbv)]) (\<lambda>divs.
     Ok ([(''name'', GStr (cv_Name cbv)), (''cookbook_name'', GStr (cv_CookbookName cbv))] @
         (if cv_Version cbv \<noteq> ''0.0.0'' then [(''version'', GStr (cv_Version cbv))] else []) @
         [(''chef_type'', GStr (cv_ChefType cbv)), (''json_class'', GStr (cv_JSONClass cbv)),
          (''frozen?'', GBool (cv_IsFrozen cbv)), (''recipes'', GArr (map GMap recipes)),
          (''metadata'', GMap (cv_Metadata cbv))] @ divs)))"

subsection \<open>Versions are sorted and selected correctly\<close>

definition versions_ok :: "cookbook \<Rightarrow> bool" where
  "versions_ok c \<longleftrightarrow> distinct (map fst (cb_Versions c)) \<and>
     (\<forall>(k, v)\<in>set (cb_Versions c). canon_version k \<and> cv_Version v = k)"

lemma strict_total_on_converse: "strict_total_on lt A \<Longrightarrow> strict_total_on (\<lambda>a b. lt b a) A"
  unfolding strict_total_on_def by blast

lemma keys_canon: "versions_ok c \<Longrightarrow> set (map fst (cb_Versions c)) \<subseteq> {v. canon_version v}"
  by (auto simp: versions_ok_def)

lemma keys_total:
  "versions_ok c \<Longrightarrow> strict_total_on (\<lambda>a b. versionLess b a) (set (map fst (cb_Versions c)))"
  using strict_total_on_subset [OF strict_total_on_converse [OF versionLess_total_canon] keys_canon] .

lemma map_version_sortedVersions:
  assumes "versions_ok c"
  shows "map cv_Version (sortedVersions c) = sort_by (\<lambda>a b. versionLess b a) (map fst (cb_Versions c))"
proof -
  have "cv_Version (the (map_of (cb_Versions c) k)) = k" if k: "k \<in> set (map fst (cb_Versions c))" for k
  proof -
    obtain v where v: "(k, v) \<in> set (cb_Versions c)" using k by auto
    then have "map_of (cb_Versions c) k = Some v" using assms by (simp add: versions_ok_def)
    then show ?thesis using v assms by (auto simp: versions_ok_def)
  qed
  then have "\<forall>k\<in>set (sort_by (\<lambda>a b. versionLess b a) (map fst (cb_Versions c))).
      cv_Version (the (map_of (cb_Versions c) k)) = k"
    unfolding set_sort_by by blast
  then show ?thesis unfolding sortedVersions_def map_map comp_def by (intro map_idI) blast
qed

lemma set_sortedVersions_distinct:
  assumes "distinct (map fst (cb_Versions c))"
  shows "set (sortedVersions c) = snd ` set (cb_Versions c)"
proof -
  have "the (map_of (cb_Versions c) (fst p)) = snd p" if "p \<in> set (cb_Versions c)" for p
  proof -
    have "map_of (cb_Versions c) (fst p) = Some (snd p)"
      by (rule map_of_is_SomeI) (use that assms in simp_all)
    then show ?thesis by simp
  qed
  then have "(\<lambda>k. the (map_of (cb_Versions c) k)) ` fst ` set (cb_Versions c) = snd ` set (cb_Versions c)"
    by (simp add: image_image)
  then show ?thesis by (simp add: sortedVersions_def)
qed

lemma set_sortedVersions: "versions_ok c \<Longrightarrow> set (sortedVersions c) = snd ` set (cb_Versions c)"
  by (simp add: set_sortedVersions_distinct versions_ok_def)

lemma sortedVersions_desc:
  assumes "versions_ok c"
  shows "sorted_wrt (\<lambda>a b. ver_key (cv_Version b) < ver_key (cv_Version a)) (sortedVersions c)"
proof -
  have "sorted_wrt (\<lambda>a b. versionLess b a) (map cv_Version (sortedVersions c))"
    unfolding map_version_sortedVersions [OF assms]
    using keys_total [OF assms] assms by (intro sorted_sort_by) (simp_all add: versions_ok_def)
  then have "sorted_wrt (\<lambda>a b. versionLess (cv_Version b) (cv_Version a)) (sortedVersions c)"
    by (simp add: sorted_wrt_map)
  moreover have "canon_version (cv_Version v)" if "v \<in> set (sortedVersions c)" for v
    using that assms set_sortedVersions [OF assms] by (auto simp: versions_ok_def)
  ultimately show ?thesis
    by (auto intro!: sorted_wrt_mono_rel [of "sortedVersions c" "\<lambda>a b. versionLess (cv_Version b) (cv_Version a)"]
        simp: versionLess_iff)
qed

text \<open>The versions of a cookbook with canonical version numbers are listed in
  strictly descending order, each once, and the result does not depend on the order in
  which Go iterates over the map; the first of them is the latest version.\<close>

theorem sorted_versions:
  assumes "versions_ok c" "versions_ok c'" "set (cb_Versions c') = set (cb_Versions c)"
  shows "sorted_wrt (\<lambda>a b. ver_key (cv_Version b) < ver_key (cv_Version a)) (sortedVersions c) \<and>
    set (sortedVersions c) = snd ` set (cb_Versions c) \<and> sortedVersions c' = sortedVersions c \<and>
    (cb_latest c = None \<and> cb_Versions c \<noteq> [] \<longrightarrow>
      (\<exists>l. fst (LatestVersion c) = Ok l \<and> (\<forall>v\<in>snd ` set (cb_Versions c). ver_key (cv_Version v) \<le> ver_key (cv_Version l))))"
proof -
  have "map_of (cb_Versions c') = map_of (cb_Versions c)"
    using assms by (intro map_of_inject_set [THEN iffD2]) (auto simp: versions_ok_def)
  moreover have "sort_by (\<lambda>a b. versionLess b a) (map fst (cb_Versions c')) =
      sort_by (\<lambda>a b. versionLess b a) (map fst (cb_Versions c))"
  proof (rule sort_by_unique [OF keys_total [OF assms(1)]])
    show "distinct (map fst (cb_Versions c))" using assms(1) by (simp add: versions_ok_def)
    show "sorted_wrt (\<lambda>a b. versionLess b a) (sort_by (\<lambda>a b. versionLess b a) (map fst (cb_Versions c')))"
      using keys_total [OF assms(2)] assms(2) by (intro sorted_sort_by) (simp_all add: versions_ok_def)
    have "set (map fst (cb_Versions c')) = set (map fst (cb_Versions c))" using assms(3) by simp
    moreover have "distinct (map fst (cb_Versions c'))" "distinct (map fst (cb_Versions c))"
      using assms(1,2) by (simp_all add: versions_ok_def)
    ultimately show "mset (sort_by (\<lambda>a b. versionLess b a) (map fst (cb_Versions c'))) = mset (map fst (cb_Versions c))"
      unfolding mset_sort_by using set_eq_iff_mset_eq_distinct by blast
  qed
  ultimately have "sortedVersions c' = sortedVersions c" by (simp add: sortedVersions_def)
  moreover have "\<exists>l. fst (LatestVersion c) = Ok l \<and> (\<forall>v\<in>snd ` set (cb_Versions c). ver_key (cv_Version v) \<le> ver_key (cv_Version l))"
    if n: "cb_latest c = None" "cb_Versions c \<noteq> []"
  proof -
    obtain l ls where l: "sortedVersions c = l # ls"
      using n(2) set_sortedVersions [OF assms(1)] by (cases "sortedVersions c") auto
    then have "fst (LatestVersion c) = Ok l" using n(1) by (simp add: LatestVersion_def)
    moreover have "\<forall>v\<in>set (sortedVersions c). ver_key (cv_Version v) \<le> ver_key (cv_Version l)"
      using sortedVersions_desc [OF assms(1)] unfolding l by (auto intro: less_imp_le)
    ultimately show ?thesis by (simp add: set_sortedVersions [OF assms(1)])
  qed
  ultimately show ?thesis using sortedVersions_desc [OF assms(1)] set_sortedVersions [OF assms(1)] by blast
qed

definition example_version :: "string \<Rightarrow> string \<Rightarrow> cookbook_version" where
  "example_version v h =
     (new_version \<lparr>cb_Name = ''nginx'', cb_Versions = [], cb_latest = None, cb_numVersions = None\<rparr> v)
       \<lparr>cv_Files := [[(''checksum'', GStr h)]]\<rparr>"

definition example_cookbook :: "(string \<times> cookbook_version) list \<Rightarrow> cookbook" where
  "example_cookbook vs = \<lparr>cb_Name = ''nginx'', cb_Versions = vs, cb_latest = None, cb_numVersions = None\<rparr>"

definition example_versions :: "(string \<times> cookbook_version) list" where
  "example_versions = [(''3.2.5'', example_version ''3.2.5'' ''f1''), (''3.10.0'', example_version ''3.10.0'' ''f2''),
     (''3.9.0'', example_version ''3.9.0'' ''f1'')]"

lemma canon_examples: "canon_version ''3.2.5''" "canon_version ''3.9.0''" "canon_version ''3.10.0''"
  using canon_print_version [of 3 2 5] canon_print_version [of 3 9 0] canon_print_version [of 3 10 0]
  by (simp_all add: print_version_eval)

lemma ver_key_examples:
  "ver_key ''3.2.5'' = [3, 2, 5]" "ver_key ''3.9.0'' = [3, 9, 0]" "ver_key ''3.10.0'' = [3, 10, 0]"
  using ver_key_print_version [of 3 2 5] ver_key_print_version [of 3 9 0] ver_key_print_version [of 3 10 0]
  by (simp_all add: print_version_eval)

lemma cv_Version_example [simp]: "cv_Version (example_version v h) = v"
  by (simp add: example_version_def new_version_def)

lemma example_cookbook_ok:
  "versions_ok (example_cookbook example_versions)" "versions_ok (example_cookbook (rev example_versions))"
  by (auto simp: versions_ok_def example_cookbook_def example_versions_def canon_examples)

theorem sorted_versions_witness:
  "sortedVersions (example_cookbook (rev example_versions)) = sortedVersions (example_cookbook example_versions) \<and>
   (\<exists>l. fst (LatestVersion (example_cookbook example_versions)) = Ok l \<and>
      ver_key ''3.10.0'' \<le> ver_key (cv_Version l))"
proof -
  have "cb_latest (example_cookbook example_versions) = None" "cb_Versions (example_cookbook example_versions) \<noteq> []"
    "set (cb_Versions (example_cookbook (rev example_versions))) = set (cb_Versions (example_cookbook example_versions))"
    "example_version ''3.10.0'' ''f2'' \<in> snd ` set (cb_Versions (example_cookbook example_versions))"
    by (auto simp: example_cookbook_def example_versions_def)
  then show ?thesis
    using sorted_versions [OF example_cookbook_ok] by force
qed

lemma latest_loop_eq: "latest_loop v op cvs =
    (case filter (\<lambda>cv. verConstraintCheck (cv_Version cv) v op = ''ok'') cvs of [] \<Rightarrow> None | cv # _ \<Rightarrow> Some cv)"
  by (induction v op cvs rule: latest_loop.induct) auto

lemma sorted_filter_hd:
  assumes "sorted_wrt (\<lambda>a b. f b < (f a :: 'a :: order)) xs" "filter P xs = x # ys" "y \<in> set xs" "P y"
  shows "f y \<le> f x"
proof -
  have "sorted_wrt (\<lambda>a b. f b < f a) (x # ys)" using sorted_wrt_filter [OF assms(1), of P] assms(2) by simp
  moreover have "y \<in> set (x # ys)" using assms(3,4) unfolding assms(2) [symmetric] by simp
  ultimately show ?thesis by auto
qed

text \<open>\<^bold>\<open>C7\<close>. With a well-formed constraint \<open>LatestConstrained\<close> returns the greatest version
  that satisfies it, and nothing exactly when no version does.\<close>

theorem latest_constrained:
  assumes "versions_ok c" "canon_version v" "CHR '' '' \<notin> set v" "CHR '' '' \<notin> set op"
  shows "\<exists>r. LatestConstrained (op @ '' '' @ v) c = (Ok r, c) \<and>
    (case r of
       None \<Rightarrow> \<forall>cv\<in>snd ` set (cb_Versions c). \<not> ver_sat (cv_Version cv) v op
     | Some l \<Rightarrow> l \<in> snd ` set (cb_Versions c) \<and> ver_sat (cv_Version l) v op \<and>
         (\<forall>cv\<in>snd ` set (cb_Versions c). ver_sat (cv_Version cv) v op \<longrightarrow>
            ver_key (cv_Version cv) \<le> ver_key (cv_Version l)))"
proof -
  let ?P = "\<lambda>cv. verConstraintCheck (cv_Version cv) v op = ''ok''"
  let ?S = "sortedVersions c"
  have "split_on CHR '' '' (op @ '' '' @ v) = [op, v]" using assms(3,4) by (simp add: split_on_app split_on_none)
  then have r: "LatestConstrained (op @ '' '' @ v) c = (Ok (latest_loop v op ?S), c)"
    by (simp add: LatestConstrained_def)
  have S: "snd ` set (cb_Versions c) = set ?S" by (simp add: set_sortedVersions [OF assms(1)])
  have "canon_version (cv_Version cv)" if "cv \<in> set ?S" for cv
    using that assms(1) unfolding S [symmetric] by (auto simp: versions_ok_def)
  then have P: "?P cv \<longleftrightarrow> ver_sat (cv_Version cv) v op" if "cv \<in> set ?S" for cv
    using that verConstraintCheck_ok_iff assms(2) by blast
  show ?thesis
  proof (cases "filter ?P ?S")
    case Nil
    then have "\<forall>cv\<in>set ?S. \<not> ?P cv" by (simp add: filter_empty_conv)
    with Nil P S r show ?thesis by (simp add: latest_loop_eq)
  next
    case (Cons l ls)
    then have "l \<in> set (filter ?P ?S)" by (simp only: list.set_intros)
    then have "l \<in> set ?S" "?P l" by simp_all
    moreover have "ver_key (cv_Version cv) \<le> ver_key (cv_Version l)" if "cv \<in> set ?S" "?P cv" for cv
      using sorted_filter_hd [OF sortedVersions_desc [OF assms(1)] Cons that] .
    ultimately show ?thesis using Cons P S r by (simp add: latest_loop_eq)
  qed
qed

theorem latest_constrained_witness:
  "\<exists>l. LatestConstrained ''< 3.10.0'' (example_cookbook example_versions) =
     (Ok (Some l), example_cookbook example_versions) \<and> cv_Version l \<noteq> ''3.10.0'' \<and>
     ver_key ''3.9.0'' \<le> ver_key (cv_Version l)"
proof -
  let ?c = "example_cookbook example_versions"
  have m: "example_version ''3.9.0'' ''f1'' \<in> snd ` set (cb_Versions ?c)"
    by (simp add: example_cookbook_def example_versions_def)
  obtain r where r: "LatestConstrained ''< 3.10.0'' ?c = (Ok r, ?c)"
    "case r of None \<Rightarrow> \<forall>cv\<in>snd ` set (cb_Versions ?c). \<not> ver_sat (cv_Version cv) ''3.10.0'' ''<''
     | Some l \<Rightarrow> l \<in> snd ` set (cb_Versions ?c) \<and> ver_sat (cv_Version l) ''3.10.0'' ''<'' \<and>
         (\<forall>cv\<in>snd ` set (cb_Versions ?c). ver_sat (cv_Version cv) ''3.10.0'' ''<'' \<longrightarrow>
            ver_key (cv_Version cv) \<le> ver_key (cv_Version l))"
    using latest_constrained [OF example_cookbook_ok(1) canon_examples(3), of "''<''"] by auto
  have "ver_sat ''3.9.0'' ''3.10.0'' ''<''" "\<not> ver_sat ''3.10.0'' ''3.10.0'' ''<''"
    by (simp_all add: ver_sat_def ver_key_examples)
  with r m show ?thesis by (cases r) force+
qed

definition limit_take :: "int option \<Rightarrow> int \<Rightarrow> 'a list \<Rightarrow> 'a list" where
  "limit_take limit nr xs = (case limit of None \<Rightarrow> xs | Some n \<Rightarrow> take (nat (n - nr)) xs)"

lemma limit_take_Nil [simp]: "limit_take limit nr [] = []"
  by (simp add: limit_take_def split: option.split)

lemma limit_take_Cons:
  "limit_take limit nr (x # xs) =
     (if (case limit of None \<Rightarrow> False | Some n \<Rightarrow> nr \<ge> n) then [] else x # limit_take limit (nr + 1) xs)"
proof (cases limit)
  case (Some n)
  show ?thesis
  proof (cases "nr \<ge> n")
    case False
    then have "nat (n - nr) = Suc (nat (n - (nr + 1)))" by linarith
    then show ?thesis using Some False by (simp add: limit_take_def)
  qed (simp add: Some limit_take_def)
qed (simp add: limit_take_def)

lemma info_loop_done:
  "(case limit of None \<Rightarrow> False | Some n \<Rightarrow> nr \<ge> n) \<Longrightarrow> limit_take limit nr xs = []"
  by (auto simp: limit_take_def split: option.splits)

definition constraint_ops :: "string set" where
  "constraint_ops = {''='', ''>'', ''<'', ''>='', ''<='', ''~>''}"

lemma action_cases:
  "op \<in> constraint_ops \<Longrightarrow> verConstraintCheck a v op \<in> {''ok'', ''skip'', ''break''}"
  unfolding constraint_ops_def verConstraintCheck_def by (auto split: if_split)

lemma info_loop_constrained:
  assumes "sorted_wrt (\<lambda>a b. ver_key (cv_Version b) < ver_key (cv_Version a)) cvs"
    "\<forall>cv\<in>set cvs. canon_version (cv_Version cv)" "canon_version v" "op \<in> constraint_ops"
  shows "info_loop limit (Some (v, op)) nr cvs =
    limit_take limit nr (filter (\<lambda>cv. verConstraintCheck (cv_Version cv) v op = ''ok'') cvs)"
  using assms
proof (induction limit "Some (v, op)" nr cvs rule: info_loop.induct)
  case (1 limit nr)
  then show ?case by simp
next
  case (2 limit nr cv cvs)
  let ?a = "verConstraintCheck (cv_Version cv) v op"
  let ?P = "\<lambda>cv. verConstraintCheck (cv_Version cv) v op = ''ok''"
  show ?case
  proof (cases "case limit of None \<Rightarrow> False | Some n \<Rightarrow> nr \<ge> n")
    case True
    then show ?thesis
      using info_loop_done [OF True, of "filter ?P (cv # cvs)"] by (simp only: info_loop.simps if_True)
  next
    case lim: False
    consider "?a = ''ok''" | "?a = ''skip''" | "?a = ''break''"
      using action_cases [OF "2.prems"(4)] by blast
    then show ?thesis
    proof cases
      case 1
      then show ?thesis using 2 lim by (simp add: limit_take_Cons)
    next
      case 2
      then show ?thesis using "2.hyps"(1) "2.prems" lim by simp
    next
      case 3
      have "\<not> ?P cv'" if "cv' \<in> set cvs" for cv'
        using verConstraintCheck_break_sound [OF _ _ "2.prems"(3) 3, of "cv_Version cv'"] "2.prems"(1,2) that by simp
      then have "filter ?P cvs = []" by (simp add: filter_empty_conv)
      then show ?thesis using 3 lim by simp
    qed
  qed
qed

lemma info_loop_all: "info_loop limit None nr cvs = limit_take limit nr cvs"
  by (induction limit "None :: (string \<times> string) option" nr cvs rule: info_loop.induct)
    (simp_all add: limit_take_Cons)

text \<open>The version list of a cookbook stops early when the constraint check says no
  later version can match. That is only an optimisation: the result is the first
  \<open>numResults\<close> of all the versions, in descending order, that satisfy the constraint.\<close>

theorem info_versions_spec:
  assumes "versions_ok c" "canon_version v" "op \<in> constraint_ops" "CHR '' '' \<notin> set v"
  shows "info_versions numResults (op @ '' '' @ v) c =
     Some (limit_take (info_limit numResults) 0 (filter (\<lambda>cv. ver_sat (cv_Version cv) v op) (sortedVersions c))) \<and>
   info_versions numResults [] c = Some (limit_take (info_limit numResults) 0 (sortedVersions c))"
proof -
  let ?S = "sortedVersions c"
  have "CHR '' '' \<notin> set op" using assms(3) by (auto simp: constraint_ops_def)
  then have sp: "split_on CHR '' '' (op @ CHR '' '' # v) = [op, v]" using assms(4) by (simp add: split_on_app split_on_none)
  have canon: "\<forall>cv\<in>set ?S. canon_version (cv_Version cv)"
    using assms(1) set_sortedVersions [OF assms(1)] by (auto simp: versions_ok_def)
  have "filter (\<lambda>cv. verConstraintCheck (cv_Version cv) v op = ''ok'') ?S =
      filter (\<lambda>cv. ver_sat (cv_Version cv) v op) ?S"
    using canon verConstraintCheck_ok_iff assms(2) by (intro filter_cong) auto
  then show ?thesis
    using info_loop_constrained [OF sortedVersions_desc [OF assms(1)] canon assms(2,3)]
    by (simp add: info_versions_def sp info_loop_all)
qed

theorem info_versions_spec_witness:
  "\<exists>l. info_versions ''all'' ''~> 3.9.0'' (example_cookbook example_versions) = Some l \<and>
     (\<forall>cv\<in>set l. ver_sat (cv_Version cv) ''3.9.0'' ''~>'')"
  using info_versions_spec [OF example_cookbook_ok(1) canon_examples(2), of "''~>''" "''all''"]
  by (simp add: constraint_ops_def info_limit_def limit_take_def)

text \<open>\<open>latestMultiConstraint\<close>, which resolves the dependencies of a run list, looks at
  the first constraint only: whatever constraints follow it, the result is the same.\<close>

theorem multi_constraint_first_only:
  "latestMultiConstraint check (Some (k # ks)) c = latestMultiConstraint check (Some [k]) c"
proof -
  have "multi_loop check (k # ks) cvs = multi_loop check [k] cvs" for cvs by (induction cvs) simp_all
  then show ?thesis by (simp add: latestMultiConstraint_def)
qed

subsection \<open>Deleting a version deletes exactly the unused files\<close>

lemma fileHashes_sorted: "sorted_wrt (<) (fileHashes v)"
  by (simp add: fileHashes_def RemoveDupStrings_eq strict_sorted_remdups_adj)

lemma drop_hash_eq: "sorted_wrt (<) fhs \<Longrightarrow> drop_hash vh fhs = filter (\<lambda>h. h \<noteq> vh) fhs"
proof (induction vh fhs rule: drop_hash.induct)
  case (2 vh fh fhs)
  have "filter (\<lambda>h. h \<noteq> vh) fhs = fhs" if "fh \<ge> vh"
    using that "2.prems" by (intro filter_True) auto
  then show ?case using 2 by auto
qed simp

lemma fold_drop_hash:
  "sorted_wrt (<) fhs \<Longrightarrow> fold drop_hash vhs fhs = filter (\<lambda>h. h \<notin> set vhs) fhs"
proof (induction vhs arbitrary: fhs)
  case (Cons vh vhs)
  then have "sorted_wrt (<) (filter (\<lambda>h. h \<noteq> vh) fhs)" by (simp add: sorted_wrt_filter)
  from Cons.IH [OF this] show ?case using Cons.prems
    by (simp add: drop_hash_eq conj_commute)
qed simp

lemma fold_versions:
  "sorted_wrt (<) fhs \<Longrightarrow> fold (\<lambda>ver fhs. fold drop_hash (fileHashes ver) fhs) vers fhs =
     filter (\<lambda>h. \<forall>ver\<in>set vers. h \<notin> set (fileHashes ver)) fhs"
proof (induction vers arbitrary: fhs)
  case (Cons v vers)
  then have "sorted_wrt (<) (filter (\<lambda>h. h \<notin> set (fileHashes v)) fhs)" by (simp add: sorted_wrt_filter)
  from Cons.IH [OF this] show ?case using Cons.prems
    by (simp add: fold_drop_hash conj_commute)
qed simp

lemma unused_hashes_eq:
  "sorted_wrt (<) fhs \<Longrightarrow> unused_hashes c ac fhs =
     filter (\<lambda>h. \<forall>cb\<in>set ac. \<forall>ver\<in>set (sortedVersions (if cb_Name cb = cb_Name c then c else cb)).
       h \<notin> set (fileHashes ver)) fhs"
proof (induction ac arbitrary: fhs)
  case (Cons cb ac)
  let ?f = "filter (\<lambda>h. \<forall>ver\<in>set (sortedVersions (if cb_Name cb = cb_Name c then c else cb)). h \<notin> set (fileHashes ver)) fhs"
  have "sorted_wrt (<) ?f" using Cons.prems by (rule sorted_wrt_filter)
  from Cons.IH [OF this] show ?case using Cons.prems
    by (simp add: unused_hashes_def fold_versions conj_commute)
qed (simp add: unused_hashes_def)

definition cookbooks_ok :: "server \<Rightarrow> bool" where
  "cookbooks_ok s \<longleftrightarrow> ds_ok (srv_ds s) \<and>
     (\<forall>n v. srv_Get ''cookbook'' s n = Some v \<longrightarrow>
        (\<exists>cb. v = VCookbook cb \<and> cb_Name cb = n \<and> distinct (map fst (cb_Versions cb))))"

definition hash_used :: "server \<Rightarrow> string \<Rightarrow> bool" where
  "hash_used s h \<longleftrightarrow> (\<exists>n cb ver. srv_Get ''cookbook'' s n = Some (VCookbook cb) \<and>
     ver \<in> snd ` set (cb_Versions cb) \<and> h \<in> set (fileHashes ver))"

interpretation cookbook_store: object_store "ds_Get ''cookbook''" "ds_Set gob_codec ''cookbook''"
  "ds_Delete ''cookbook''" "ds_GetList ''cookbook''" gob_codec ds_ok
  by (rule ds_object_store) simp

lemma all_cookbooks_Ok:
  assumes "cookbooks_ok s"
  shows "\<exists>cs. all_cookbooks ns s = Ok cs \<and>
    set cs = {cb. \<exists>n\<in>set ns. srv_Get ''cookbook'' s n = Some (VCookbook cb)}"
proof (induction ns)
  case (Cons n ns)
  then obtain cs where cs: "all_cookbooks ns s = Ok cs"
    "set cs = {cb. \<exists>n\<in>set ns. srv_Get ''cookbook'' s n = Some (VCookbook cb)}" by blast
  show ?case
  proof (cases "srv_Get ''cookbook'' s n")
    case None
    then show ?thesis using cs by (auto simp: cookbook_Get_def)
  next
    case (Some v)
    then obtain cb where "v = VCookbook cb" using assms by (auto simp: cookbooks_ok_def)
    then show ?thesis using cs Some by (auto simp: cookbook_Get_def)
  qed
qed simp

lemma AllCookbooks_Ok:
  assumes "cookbooks_ok s"
  shows "\<exists>cs. AllCookbooks s = Ok cs \<and> set cs = {cb. \<exists>n. srv_Get ''cookbook'' s n = Some (VCookbook cb)}"
proof -
  have "ds_ok (srv_ds s)" using assms by (simp add: cookbooks_ok_def)
  then have "n \<in> set (cookbook_GetList s) \<longleftrightarrow> srv_Get ''cookbook'' s n \<noteq> None" for n
    unfolding cookbook_GetList_def by (rule cookbook_store.in_names_iff)
  then have "{cb. \<exists>n\<in>set (cookbook_GetList s). srv_Get ''cookbook'' s n = Some (VCookbook cb)} =
      {cb. \<exists>n. srv_Get ''cookbook'' s n = Some (VCookbook cb)}" by blast
  then show ?thesis
    using all_cookbooks_Ok [OF assms, of "cookbook_GetList s"] by (simp only: AllCookbooks_def)
qed

lemma deleteHashes_files:
  assumes "cookbooks_ok s" "files_typed s" "sorted_wrt (<) fhs"
    "srv_Get ''cookbook'' s (cb_Name c) = Some (VCookbook cs)" "cb_Versions cs = cb_Versions c"
  shows "fst (deleteHashes c fhs s) = Ok () \<and>
    (\<forall>k. srv_Get ''filestore'' (snd (deleteHashes c fhs s)) k =
       (if k \<in> set fhs \<and> \<not> hash_used s k then None else srv_Get ''filestore'' s k)) \<and>
    srv_Get ''cookbook'' (snd (deleteHashes c fhs s)) = srv_Get ''cookbook'' s"
proof -
  obtain ac where ac: "AllCookbooks s = Ok ac"
    "set ac = {cb. \<exists>n. srv_Get ''cookbook'' s n = Some (VCookbook cb)}"
    using AllCookbooks_Ok [OF assms(1)] by blast
  have names: "cb_Name cb = n \<and> distinct (map fst (cb_Versions cb))"
    if "srv_Get ''cookbook'' s n = Some (VCookbook cb)" for n cb
    using assms(1) that by (auto simp: cookbooks_ok_def)
  have sv: "set (sortedVersions (if cb_Name cb = cb_Name c then c else cb)) = snd ` set (cb_Versions cb)"
    if cb: "srv_Get ''cookbook'' s n = Some (VCookbook cb)" for n cb
  proof (cases "cb_Name cb = cb_Name c")
    case True
    then have "cb = cs" using names [OF cb] cb assms(4) by simp
    moreover have "sortedVersions c = sortedVersions cs" using assms(5) by (simp add: sortedVersions_def)
    ultimately show ?thesis using True names [OF cb] by (simp add: set_sortedVersions_distinct)
  next
    case False
    then show ?thesis using names [OF cb] by (simp add: set_sortedVersions_distinct)
  qed
  have q: "(\<forall>cb\<in>set ac. \<forall>ver\<in>set (sortedVersions (if cb_Name cb = cb_Name c then c else cb)). h \<notin> set (fileHashes ver)) \<longleftrightarrow>
      \<not> hash_used s h" for h
  proof -
    have "(\<forall>cb\<in>set ac. \<forall>ver\<in>set (sortedVersions (if cb_Name cb = cb_Name c then c else cb)). h \<notin> set (fileHashes ver)) \<longleftrightarrow>
        (\<forall>cb\<in>set ac. \<forall>ver\<in>snd ` set (cb_Versions cb). h \<notin> set (fileHashes ver))"
    proof (rule ball_cong [OF refl])
      fix cb assume "cb \<in> set ac"
      then obtain n where "srv_Get ''cookbook'' s n = Some (VCookbook cb)" unfolding ac(2) by blast
      then show "(\<forall>ver\<in>set (sortedVersions (if cb_Name cb = cb_Name c then c else cb)). h \<notin> set (fileHashes ver)) \<longleftrightarrow>
          (\<forall>ver\<in>snd ` set (cb_Versions cb). h \<notin> set (fileHashes ver))"
        by (simp only: sv)
    qed
    also have "\<dots> \<longleftrightarrow> \<not> hash_used s h" unfolding ac(2) hash_used_def by blast
    finally show ?thesis .
  qed
  have u: "set (unused_hashes c ac fhs) = {h \<in> set fhs. \<not> hash_used s h}"
    unfolding unused_hashes_eq [OF assms(3)] set_filter q by (rule refl)
  show ?thesis
    using DeleteHashes_get [OF assms(2), of "unused_hashes c ac fhs"] by (simp add: deleteHashes_def ac(1) u)
qed

lemma GetVersion_stored:
  "map_of (cb_Versions c) v = Some cbv \<Longrightarrow> v \<noteq> ''_latest'' \<Longrightarrow> GetVersion v c = (Ok cbv, c)"
  by (simp add: GetVersion_def)

lemma files_typed_other:
  "CHR '':'' \<notin> set t \<Longrightarrow> t \<noteq> ''filestore'' \<Longrightarrow> files_typed (srv_Set t k v s) \<longleftrightarrow> files_typed s"
  by (simp add: files_typed_def ds_Get_other)

lemma cookbooks_ok_Save:
  "cookbooks_ok s \<Longrightarrow> distinct (map fst (cb_Versions c)) \<Longrightarrow> cookbooks_ok (cookbook_Save c s)"
  by (auto simp: cookbooks_ok_def cookbook_Save_def cookbook_store.get_put cookbook_store.ok_put gob_cookbook_def)

text \<open>\<^bold>\<open>C6\<close>. Deleting a version of a stored cookbook removes it from the cookbook and deletes
  exactly those of its files that no remaining version of any cookbook uses: a file goes
  if and only if it belonged to the deleted version and is not used any more.\<close>

theorem delete_version_files:
  assumes "cookbooks_ok s" "files_typed s" "cookbook_Get (cb_Name c) s = Ok (Some c)"
    "map_of (cb_Versions c) v = Some cbv" "v \<noteq> ''_latest''" "DeleteVersion v c s = (r, c', s')"
  shows "r = Ok () \<and> cb_Versions c' = adel v (cb_Versions c) \<and>
    (\<exists>cb. cookbook_Get (cb_Name c) s' = Ok (Some cb) \<and> cb_Versions cb = cb_Versions c') \<and>
    (\<forall>k. is_ok (file_Get k s') \<longleftrightarrow>
       is_ok (file_Get k s) \<and> (k \<in> set (fileHashes cbv) \<longrightarrow> hash_used s' k))"
proof -
  define c2 where "c2 = c\<lparr>cb_numVersions := None, cb_Versions := adel v (cb_Versions c)\<rparr>"
  define s1 where "s1 = cookbook_Save c2 s"
  have c: "srv_Get ''cookbook'' s (cb_Name c) = Some (VCookbook c)"
    using assms(3) by (auto simp: cookbook_Get_def split: option.splits dsval.splits)
  then have "distinct (map fst (cb_Versions c))" using assms(1) by (auto simp: cookbooks_ok_def)
  then have ok1: "cookbooks_ok s1"
    unfolding s1_def by (intro cookbooks_ok_Save [OF assms(1)]) (simp add: c2_def)
  have t1: "files_typed s1" using assms(2) by (simp add: s1_def cookbook_Save_def files_typed_other)
  have g1: "srv_Get ''cookbook'' s1 (cb_Name c2) = Some (VCookbook (gob_cookbook c2))"
    by (simp add: s1_def cookbook_Save_def cookbook_store.get_put)
  note d = deleteHashes_files [OF ok1 t1 fileHashes_sorted g1, of cbv]
  have fs1: "srv_Get ''filestore'' s1 = srv_Get ''filestore'' s"
    by (simp add: s1_def cookbook_Save_def ds_Get_other)
  have res: "r = Ok ()" "c' = c2" "s' = snd (deleteHashes c2 (fileHashes cbv) s1)"
    using assms(6) d GetVersion_stored [OF assms(4,5)]
    by (auto simp: DeleteVersion_def Let_def c2_def [symmetric] s1_def [symmetric] gob_cookbook_def
        split: prod.splits outcome.splits)
  have cb: "srv_Get ''cookbook'' s' = srv_Get ''cookbook'' s1"
    "srv_Get ''filestore'' s' k = (if k \<in> set (fileHashes cbv) \<and> \<not> hash_used s1 k then None else srv_Get ''filestore'' s k)" for k
    using d fs1 by (simp_all add: res(3) gob_cookbook_def)
  have u: "hash_used s' k \<longleftrightarrow> hash_used s1 k" for k by (simp add: hash_used_def cb(1))
  have "files_typed s'" using assms(2) by (auto simp: files_typed_def cb(2) split: if_splits)
  then have "is_ok (file_Get k s') \<longleftrightarrow>
      is_ok (file_Get k s) \<and> (k \<in> set (fileHashes cbv) \<longrightarrow> hash_used s' k)" for k
    using file_Get_cases(3) [of s' k] file_Get_cases(3) [OF assms(2), of k] by (simp add: cb(2) u)
  moreover have "cookbook_Get (cb_Name c) s' = Ok (Some (gob_cookbook c2))"
    using g1 by (simp add: cookbook_Get_def cb(1) c2_def)
  ultimately show ?thesis using res by (simp add: c2_def gob_cookbook_def)
qed

definition example_shop :: server where
  "example_shop = cookbook_Save (example_cookbook example_versions)
     (file_Save \<lparr>fs_Chksum = ''f1'', fs_Data = ''a''\<rparr> (file_Save \<lparr>fs_Chksum = ''f2'', fs_Data = ''b''\<rparr> new_server))"

lemma example_shop_get:
  "srv_Get ''cookbook'' example_shop = [''nginx'' \<mapsto> VCookbook (example_cookbook example_versions)]"
  "srv_Get ''filestore'' example_shop =
     [''f2'' \<mapsto> VFile \<lparr>fs_Chksum = ''f2'', fs_Data = ''b''\<rparr>, ''f1'' \<mapsto> VFile \<lparr>fs_Chksum = ''f1'', fs_Data = ''a''\<rparr>]"
proof -
  have e: "ds_Get t (srv_ds new_server) = Map.empty" for t
    by (simp add: new_server_def initDataStore_def ds_Get_def fun_eq_iff)
  show "srv_Get ''cookbook'' example_shop = [''nginx'' \<mapsto> VCookbook (example_cookbook example_versions)]"
    by (simp add: example_shop_def cookbook_Save_def file_Save_def cookbook_store.get_put ds_Get_other e
        example_cookbook_def gob_cookbook_def)
  show "srv_Get ''filestore'' example_shop =
     [''f2'' \<mapsto> VFile \<lparr>fs_Chksum = ''f2'', fs_Data = ''b''\<rparr>, ''f1'' \<mapsto> VFile \<lparr>fs_Chksum = ''f1'', fs_Data = ''a''\<rparr>]"
    by (simp add: example_shop_def cookbook_Save_def file_Save_def file_store.get_put ds_Get_other e)
qed

lemma example_shop_ok: "cookbooks_ok example_shop" "files_typed example_shop"
proof -
  have "ds_ok (srv_ds example_shop)"
    by (simp add: example_shop_def cookbook_Save_def file_Save_def cookbook_store.ok_put file_store.ok_put new_server_def)
  then show "cookbooks_ok example_shop"
    by (auto simp: cookbooks_ok_def example_shop_get example_cookbook_def example_versions_def split: if_splits)
  show "files_typed example_shop" by (auto simp: files_typed_def example_shop_get split: if_splits)
qed

lemma fileHashes_example: "fileHashes (example_version v h) = [h]"
  by (simp add: fileHashes_def RemoveDupStrings_eq example_version_def new_version_def getAttrHashes_def gget_def)

theorem delete_version_files_witness:
  "\<exists>c' s'. DeleteVersion ''3.2.5'' (example_cookbook example_versions) example_shop = (Ok (), c', s') \<and>
     ''f1'' \<in> set (fileHashes (example_version ''3.2.5'' ''f1'')) \<and> is_ok (file_Get ''f1'' s')"
proof -
  let ?c = "example_cookbook example_versions"
  obtain r c' s' where d: "DeleteVersion ''3.2.5'' ?c example_shop = (r, c', s')" by (metis prod.exhaust)
  have g: "cookbook_Get (cb_Name ?c) example_shop = Ok (Some ?c)"
    by (simp add: cookbook_Get_def example_shop_get) (simp add: example_cookbook_def)
  have "map_of (cb_Versions ?c) ''3.2.5'' = Some (example_version ''3.2.5'' ''f1'')"
    by (simp add: example_cookbook_def example_versions_def)
  note r = delete_version_files [OF example_shop_ok g this _ d]
  then obtain cb where cb: "cookbook_Get (cb_Name ?c) s' = Ok (Some cb)" "cb_Versions cb = cb_Versions c'" by auto
  then have "srv_Get ''cookbook'' s' (cb_Name ?c) = Some (VCookbook cb)"
    by (auto simp: cookbook_Get_def split: option.splits dsval.splits)
  moreover have "example_version ''3.9.0'' ''f1'' \<in> snd ` set (cb_Versions cb)"
    using r by (simp add: cb(2) example_cookbook_def example_versions_def adel_def)
  moreover have "''f1'' \<in> set (fileHashes (example_version ''3.9.0'' ''f1''))"
    by (simp add: fileHashes_example)
  ultimately have "hash_used s' ''f1''" unfolding hash_used_def by blast
  then have "is_ok (file_Get ''f1'' s')"
    using r by (simp add: file_Get_def [of _ example_shop] example_shop_get)
  with r d show ?thesis by (simp add: fileHashes_example)
qed

subsection \<open>Frozen versions\<close>

lemma checked_update_keeps:
  "checked_update cbname ct jc ver divs mdata frozen data cbv = Ok cbv' \<Longrightarrow>
     cv_Version cbv' = cv_Version cbv \<and> cv_CookbookName cbv' = cv_CookbookName cbv \<and>
     cv_Name cbv' = cv_Name cbv \<and> (cv_IsFrozen cbv \<longrightarrow> cv_IsFrozen cbv')"
  by (auto simp: checked_update_def field_invalid_def split: gval.splits if_splits)

lemma updated_version_keeps:
  assumes "updated_version baseURL fmt_v data cbv s = Ok cbv'"
  shows "cv_Version cbv' = cv_Version cbv \<and> cv_CookbookName cbv' = cv_CookbookName cbv \<and>
    cv_Name cbv' = cv_Name cbv \<and> (cv_IsFrozen cbv \<longrightarrow> cv_IsFrozen cbv')"
proof (cases "ValidateAsVersion (gget data ''version'')")
  case (Ok v)
  have "first_invalid_key version_elements data = None"
    using assms unfolding updated_version_def
    by (cases "first_invalid_key version_elements data")
      (auto simp only: outcome_bind_Ok_iff option.case outcome.distinct)
  with Ok obtain cbname ct jc ver divs mdata frozen where
    "checked_update cbname ct jc ver divs mdata frozen data cbv = Ok cbv'"
    using assms unfolding updated_version_def Let_def by (auto simp only: outcome_bind_Ok_iff outcome.case option.case)
  then show ?thesis by (rule checked_update_keeps)
qed (use assms in \<open>auto simp: updated_version_def field_invalid_def outcome_simps split: option.splits\<close>)

text \<open>\<^bold>\<open>C28\<close>. A frozen version is changed only by force: without it the update is refused
  with a conflict and neither the version nor the server changes. With force the version
  keeps its name and number and stays frozen.\<close>

theorem frozen_version:
  assumes "cv_IsFrozen cbv" "UpdateVersion baseURL fmt_v data force cbv s = (r, cbv', s')"
  shows "cv_IsFrozen cbv' \<and> cv_Version cbv' = cv_Version cbv \<and> cv_CookbookName cbv' = cv_CookbookName cbv \<and>
    (\<not> force \<longrightarrow> (\<exists>e. r = Err e \<and> status e = StatusConflict) \<and> cbv' = cbv \<and> s' = s)"
proof (cases force)
  case True
  then have "cbv' = cbv \<or> updated_version baseURL fmt_v data cbv s = Ok cbv'"
    using assms(2) by (auto simp: UpdateVersion_def Let_def split: outcome.splits option.splits prod.splits if_splits)
  then show ?thesis using updated_version_keeps [of baseURL fmt_v data cbv s cbv'] assms(1) True by auto
next
  case False
  then show ?thesis using assms by (auto simp: UpdateVersion_def)
qed

theorem frozen_version_witness:
  "\<exists>r cbv' s'. UpdateVersion [] stringify [] False ((example_version ''3.2.5'' ''f1'')\<lparr>cv_IsFrozen := True\<rparr>) example_shop =
     (r, cbv', s') \<and> cbv' = (example_version ''3.2.5'' ''f1'')\<lparr>cv_IsFrozen := True\<rparr> \<and> s' = example_shop"
proof -
  let ?v = "(example_version ''3.2.5'' ''f1'')\<lparr>cv_IsFrozen := True\<rparr>"
  obtain r cbv' s' where u: "UpdateVersion [] stringify [] False ?v example_shop = (r, cbv', s')"
    by (metis prod.exhaust)
  have "cv_IsFrozen ?v" by simp
  from frozen_version [OF this u] u show ?thesis by blast
qed

subsection \<open>A body without a name\<close>

text \<open>The field \<open>name\<close> of an upload is read with an unchecked type assertion: a body
  that is valid otherwise but has no name makes the server panic instead of reporting an
  error.\<close>

theorem upload_without_name_panics:
  "UpdateVersion baseURL fmt_v
     [(''cookbook_name'', GStr ''nginx''), (''version'', GStr ''3.2.5''), (''frozen?'', GBool False),
      (''metadata'', GMap [(''version'', GStr ''3.2.5'')])]
     False (new_version (example_cookbook []) ''3.2.5'') s =
   (Panic, new_version (example_cookbook []) ''3.2.5'', s)"
proof -
  have v: "ValidateAsVersion (GStr ''3.2.5'') = Ok ''3.2.5''"
    using ValidateAsVersion_print [of 3 2 5] by (simp add: print_version_eval del: ValidateAsVersion.simps)
  have "updated_version baseURL fmt_v
     [(''cookbook_name'', GStr ''nginx''), (''version'', GStr ''3.2.5''), (''frozen?'', GBool False),
      (''metadata'', GMap [(''version'', GStr ''3.2.5'')])] (new_version (example_cookbook []) ''3.2.5'') s = Panic"
    by (simp add: updated_version_def checked_update_def cookbook_name_check_def gget_def version_elements_def version_field_def
        new_version_def example_cookbook_def v metadata_version_check_def strchk_def hashchk_def Let_def
        del: ValidateAsVersion.simps)
  then show ?thesis by (simp add: UpdateVersion_def new_version_def Let_def)
qed

end
