(* ===== verification/Environments.thy ===== *)
theory Environments
  imports Cookbook Requests
begin

text \<open>
  \<^verbatim>\<open>environment/environment.go\<close>: environments and the cookbooks they make available. The
  environment \<open>_default\<close> is not read from the store: \<open>Get\<close> makes it afresh, and it can be
  neither saved nor deleted.
\<close>

definition env_New :: "string \<Rightarrow> server \<Rightarrow> chef_environment outcome" where
  "env_New name s =
     (if \<not> ValidateEnvName name then ErrorS ''Field 'name' invalid'' StatusBadRequest
      else if srv_Get ''env'' s name \<noteq> None \<or> name = ''_default'' then Errorf ''Environment already exists''
      else Ok \<lparr>en_Name = name, en_ChefType = ''environment'', en_JSONClass = ''Chef::Environment'',
               en_Description = [], en_Default = [], en_Override = [], en_CookbookVersions = []\<rparr>)"

definition env_valid_elements :: "string list" where
  "env_valid_elements =
     [''name'', ''chef_type'', ''json_class'', ''description'', ''default_attributes'',
      ''override_attributes'', ''cookbook_versions'']"

fun check_cookbook_versions :: "gobj \<Rightarrow> unit outcome" where
  "check_cookbook_versions [] = Ok ()"
| "check_cookbook_versions ((k, v) # m) =
     (if \<not> ValidateEnvName k \<or> k = [] then ErrorS (''Cookbook name '' @ k @ '' invalid'') StatusBadRequest
      else if v = GNil then Errorf ''Invalid version number''
      else if is_ok (ValidateAsConstraint v) then check_cookbook_versions m
      else outcome_bind (ValidateAsVersion v) (\<lambda>_. check_cookbook_versions m))"

fun copy_versions :: "gobj \<Rightarrow> (string \<times> string) list outcome" where
  "copy_versions [] = Ok []"
| "copy_versions ((c, v) # m) =
     (case v of GStr s \<Rightarrow> outcome_bind (copy_versions m) (\<lambda>l. Ok ((c, s) # l)) | _ \<Rightarrow> Panic)"

definition env_description :: "gval \<Rightarrow> string outcome" where
  "env_description v =
     (case ValidateAsString v of
        Ok d \<Rightarrow> Ok d
      | Err e \<Rightarrow> if msg e = ''Field 'name' missing'' then Ok [] else Err e
      | Panic \<Rightarrow> Panic)"

definition env_fields_update :: "gobj \<Rightarrow> chef_environment \<Rightarrow> chef_environment outcome" where
  "env_fields_update jsonEnv e =
     outcome_bind (ValidateAttributes ''default_attributes'' (gget jsonEnv ''default_attributes'')) (\<lambda>de.
     outcome_bind (ValidateAttributes ''override_attributes'' (gget jsonEnv ''override_attributes'')) (\<lambda>ov.
     outcome_bind (check_field ''json_class'' ''Chef::Environment'' (en_JSONClass e) (gget jsonEnv ''json_class'')) (\<lambda>jc.
     outcome_bind (check_field ''chef_type'' ''environment'' (en_ChefType e) (gget jsonEnv ''chef_type'')) (\<lambda>ct.
     outcome_bind (ValidateAttributes ''cookbook_versions'' (gget jsonEnv ''cookbook_versions'')) (\<lambda>cvs.
     outcome_bind (check_cookbook_versions cvs) (\<lambda>_.
     outcome_bind (env_description (gget jsonEnv ''description'')) (\<lambda>d.
     outcome_bind (copy_versions cvs) (\<lambda>vs.
     Ok (e\<lparr>en_ChefType := ct, en_JSONClass := jc, en_Description := d, en_Default := de, en_Override := ov,
           en_CookbookVersions := vs\<rparr>)))))))))"

definition env_UpdateFromJSON :: "gobj \<Rightarrow> chef_environment \<Rightarrow> chef_environment outcome" where
  "env_UpdateFromJSON jsonEnv e =
     (case gget jsonEnv ''name'' of
        GStr name \<Rightarrow>
          if en_Name e \<noteq> name then
            Errorf (''Environment name '' @ en_Name e @ '' and '' @ name @ '' from JSON do not match'')
          else if en_Name e = ''_default'' then
            ErrorS ''The '_default' environment cannot be modified.'' StatusMethodNotAllowed
          else
            (case first_invalid_key env_valid_elements jsonEnv of
               Some k \<Rightarrow> Errorf (''Invalid key '' @ k @ '' in request body'')
             | None \<Rightarrow> env_fields_update jsonEnv e)
      | _ \<Rightarrow> Panic)"

definition env_NewFromJSON :: "gobj \<Rightarrow> server \<Rightarrow> chef_environment outcome" where
  "env_NewFromJSON jsonEnv s =
     (case gget jsonEnv ''name'' of
        GStr name \<Rightarrow> outcome_bind (env_New name s) (env_UpdateFromJSON jsonEnv)
      | _ \<Rightarrow> Panic)"

definition defaultEnvironment :: chef_environment where
  "defaultEnvironment =
     \<lparr>en_Name = ''_default'', en_ChefType = ''environment'', en_JSONClass = ''Chef::Environment'',
      en_Description = ''The default Chef environment'', en_Default = [], en_Override = [],
      en_CookbookVersions = []\<rparr>"

definition env_Get :: "string \<Rightarrow> server \<Rightarrow> chef_environment outcome" where
  "env_Get envName s =
     (if envName = ''_default'' then Ok defaultEnvironment
      else (case srv_Get ''env'' s envName of
              None \<Rightarrow> ErrorS (''Cannot load environment '' @ envName) StatusNotFound
            | Some (VEnv e) \<Rightarrow> Ok e
            | Some _ \<Rightarrow> Panic))"

definition env_DoesExist :: "string \<Rightarrow> server \<Rightarrow> bool" where
  "env_DoesExist envName s \<longleftrightarrow> srv_Get ''env'' s envName \<noteq> None"

definition env_GetMulti :: "string list \<Rightarrow> server \<Rightarrow> chef_environment list outcome" where
  "env_GetMulti envNames s = get_multi (\<lambda>e. env_Get e s) envNames"

definition env_fields :: "chef_environment \<Rightarrow> gobj" where
  "env_fields e =
     [(''name'', GStr (en_Name e)), (''chef_type'', GStr (en_ChefType e)), (''json_class'', GStr (en_JSONClass e)),
      (''description'', GStr (en_Description e)), (''default_attributes'', GMap (en_Default e)),
      (''override_attributes'', GMap (en_Override e)), (''cookbook_versions'', GStrMap (en_CookbookVersions e))]"

definition env_indexable :: "chef_environment \<Rightarrow> indexable" where
  "env_indexable e = \<lparr>DocID = en_Name e, IndexName = ''environment'', flat_tagged = True, flat_fields = env_fields e\<rparr>"

definition MakeDefaultEnvironment :: "server \<Rightarrow> server" where
  "MakeDefaultEnvironment s =
     (if srv_Get ''env'' s ''_default'' \<noteq> None then s
      else srv_Index (env_indexable defaultEnvironment)
             (srv_Set ''env'' (en_Name defaultEnvironment) (VEnv defaultEnvironment) s))"

definition env_Save :: "chef_environment \<Rightarrow> server \<Rightarrow> unit outcome \<times> server" where
  "env_Save e s =
     (if en_Name e = ''_default'' then
        (ErrorS ''The '_default' environment cannot be modified.'' StatusMethodNotAllowed, s)
      else (Ok (), srv_Index (env_indexable e) (srv_Set ''env'' (en_Name e) (VEnv e) s)))"

definition env_Delete :: "chef_environment \<Rightarrow> server \<Rightarrow> unit outcome \<times> server" where
  "env_Delete e s =
     (if en_Name e = ''_default'' then (Errorf ''The '_default' environment cannot be modified.'', s)
      else (Ok (), srv_Unindex ''environment'' (en_Name e) (srv_Delete ''env'' (en_Name e) s)))"

definition env_GetList :: "server \<Rightarrow> string list" where
  "env_GetList s = srv_GetList ''env'' s @ [''_default'']"

definition AllEnvironments :: "server \<Rightarrow> chef_environment list outcome" where
  "AllEnvironments s = get_multi (\<lambda>e. env_Get e s) (env_GetList s)"

subsection \<open>Cookbooks of an environment\<close>

text \<open>\<open>e.CookbookVersions[name]\<close>, the empty string if there is no entry.\<close>

definition env_constraint :: "chef_environment \<Rightarrow> string \<Rightarrow> string" where
  "env_constraint e name = (case map_of (en_CookbookVersions e) name of None \<Rightarrow> [] | Some v \<Rightarrow> v)"

definition AllCookbookHash :: "string \<Rightarrow> string \<Rightarrow> chef_environment \<Rightarrow> server \<Rightarrow> gobj outcome" where
  "AllCookbookHash baseURL numVersions e s =
     outcome_bind (AllCookbooks s) (\<lambda>cbList.
       Ok (fold (\<lambda>cb h. aput (cb_Name cb)
              (case infoHashBase baseURL numVersions (env_constraint e (cb_Name cb)) cb of
                 None \<Rightarrow> GNil | Some i \<Rightarrow> GMap i) h) cbList []))"

fun env_recipes :: "chef_environment \<Rightarrow> cookbook list \<Rightarrow> string list outcome" where
  "env_recipes e [] = Ok []"
| "env_recipes e (cb # cbList) =
     outcome_bind (fst (LatestConstrained (env_constraint e (cb_Name cb)) cb)) (\<lambda>cbv.
     outcome_bind (case cbv of None \<Rightarrow> Ok [] | Some v \<Rightarrow> (case RecipeList v of Err _ \<Rightarrow> Ok [] | r \<Rightarrow> r)) (\<lambda>rlist.
     outcome_bind (env_recipes e cbList) (\<lambda>rest. Ok (rlist @ rest))))"

definition env_RecipeList :: "chef_environment \<Rightarrow> server \<Rightarrow> string list outcome" where
  "env_RecipeList e s =
     outcome_bind (AllCookbooks s) (\<lambda>cbList.
     outcome_bind (env_recipes e cbList) (\<lambda>rs. Ok (sort (remdups rs))))"

subsection \<open>Environments from request bodies\<close>

text \<open>What a client reads of an environment: the versions come back as an untyped map.\<close>

definition env_json :: "chef_environment \<Rightarrow> gobj" where
  "env_json e =
     aput ''cookbook_versions'' (GMap (map (\<lambda>(c, v). (c, GStr v)) (en_CookbookVersions e))) (env_fields e)"

definition version_entry_ok :: "string \<times> string \<Rightarrow> bool" where
  "version_entry_ok p \<longleftrightarrow> ValidateEnvName (fst p) \<and> fst p \<noteq> [] \<and>
     (is_ok (ValidateAsConstraint (GStr (snd p))) \<or> is_ok (ValidateAsVersion (GStr (snd p))))"

definition env_ok :: "chef_environment \<Rightarrow> bool" where
  "env_ok e \<longleftrightarrow> en_Name e \<noteq> ''_default'' \<and> en_JSONClass e = ''Chef::Environment'' \<and> en_ChefType e = ''environment'' \<and>
     (\<forall>p\<in>set (en_CookbookVersions e). version_entry_ok p)"

lemma check_cookbook_versions_no_panic [simp]: "check_cookbook_versions m \<noteq> Panic"
  by (induction m rule: check_cookbook_versions.induct)
    (auto simp: outcome_bind_Panic_iff simp del: ValidateAsVersion.simps ValidateAsConstraint.simps)

lemma check_cookbook_versions_Ok:
  "check_cookbook_versions m = Ok () \<Longrightarrow>
     \<exists>vs. copy_versions m = Ok vs \<and> m = map (\<lambda>(c, v). (c, GStr v)) vs \<and> (\<forall>p\<in>set vs. version_entry_ok p)"
proof (induction m rule: check_cookbook_versions.induct)
  case (2 k v m)
  have ok: "check_cookbook_versions m = Ok ()" "is_ok (ValidateAsConstraint v) \<or> is_ok (ValidateAsVersion v)"
      "ValidateEnvName k" "k \<noteq> []" "v \<noteq> GNil"
    using 2(3) by (auto simp: is_ok_iff outcome_bind_Ok_iff simp del: ValidateAsVersion.simps ValidateAsConstraint.simps
        split: if_splits)
  then obtain w where "v = GStr w" by (cases v) auto
  moreover obtain vs where "copy_versions m = Ok vs" "m = map (\<lambda>(c, v). (c, GStr v)) vs" "\<forall>p\<in>set vs. version_entry_ok p"
    using "2.IH" ok(1,2,3,4,5) 2(3) by (auto simp: is_ok_iff split: if_splits)
  ultimately show ?case using ok by (intro exI [of _ "(k, w) # vs"]) (simp add: version_entry_ok_def del: ValidateAsVersion.simps ValidateAsConstraint.simps)
qed simp

lemma check_cookbook_versions_GStr:
  "\<forall>p\<in>set vs. version_entry_ok p \<Longrightarrow>
     check_cookbook_versions (map (\<lambda>(c, v). (c, GStr v)) vs) = Ok () \<and>
     copy_versions (map (\<lambda>(c, v). (c, GStr v)) vs) = Ok vs"
  by (induction vs)
    (auto simp: version_entry_ok_def is_ok_iff simp del: ValidateAsVersion.simps ValidateAsConstraint.simps)

lemma env_fields_update_no_panic: "env_fields_update j e \<noteq> Panic"
proof -
  have "env_description v \<noteq> Panic" for v by (cases v) (auto simp: env_description_def)
  moreover have "copy_versions m \<noteq> Panic" if "check_cookbook_versions m = Ok ()" for m
    using check_cookbook_versions_Ok [OF that] by auto
  ultimately show ?thesis
    by (auto simp: env_fields_update_def outcome_bind_Panic_iff simp del: check_cookbook_versions.simps copy_versions.simps)
qed

lemma env_fields_update_Ok:
  assumes "env_fields_update j e = Ok e'"
  shows "en_Name e' = en_Name e" "en_JSONClass e' = ''Chef::Environment'' \<or> en_JSONClass e' = en_JSONClass e"
    "en_ChefType e' = ''environment'' \<or> en_ChefType e' = en_ChefType e"
    "\<forall>p\<in>set (en_CookbookVersions e'). version_entry_ok p"
proof -
  obtain de ov jc ct cvs d vs u where r:
      "check_field ''json_class'' ''Chef::Environment'' (en_JSONClass e) (gget j ''json_class'') = Ok jc"
      "check_field ''chef_type'' ''environment'' (en_ChefType e) (gget j ''chef_type'') = Ok ct"
      "check_cookbook_versions cvs = Ok u" "copy_versions cvs = Ok vs"
      "e' = e\<lparr>en_ChefType := ct, en_JSONClass := jc, en_Description := d, en_Default := de, en_Override := ov,
           en_CookbookVersions := vs\<rparr>"
    using assms unfolding env_fields_update_def by (auto simp only: outcome_bind_Ok_iff outcome.inject)
  show "\<forall>p\<in>set (en_CookbookVersions e'). version_entry_ok p"
    using check_cookbook_versions_Ok [of cvs] r(3,4,5) by auto
  show "en_Name e' = en_Name e" "en_JSONClass e' = ''Chef::Environment'' \<or> en_JSONClass e' = en_JSONClass e"
    "en_ChefType e' = ''environment'' \<or> en_ChefType e' = en_ChefType e"
    using check_field_Ok [OF r(1)] check_field_Ok [OF r(2)] r(5) by simp_all
qed

lemma env_ok_New: "env_New name s = Ok e \<Longrightarrow> env_ok e \<and> en_Name e = name \<and> srv_Get ''env'' s name = None"
  by (auto simp: env_New_def env_ok_def split: if_splits)

lemma env_ok_update:
  "env_UpdateFromJSON j e = Ok e' \<Longrightarrow> env_ok e \<Longrightarrow> env_ok e' \<and> en_Name e' = en_Name e"
  using env_fields_update_Ok [of j e e']
  by (auto simp: env_UpdateFromJSON_def env_ok_def split: if_splits option.splits gval.splits)

lemma gget_env_json:
  "gget (env_json e) ''name'' = GStr (en_Name e)"
  "gget (env_json e) ''default_attributes'' = GMap (en_Default e)"
  "gget (env_json e) ''override_attributes'' = GMap (en_Override e)"
  "gget (env_json e) ''description'' = GStr (en_Description e)"
  "gget (env_json e) ''json_class'' = GStr (en_JSONClass e)"
  "gget (env_json e) ''chef_type'' = GStr (en_ChefType e)"
  "gget (env_json e) ''cookbook_versions'' = GMap (map (\<lambda>(c, v). (c, GStr v)) (en_CookbookVersions e))"
  "first_invalid_key env_valid_elements (env_json e) = None"
  by (simp_all add: env_json_def env_fields_def gget_def env_valid_elements_def)

lemma env_update_id: "env_ok e \<Longrightarrow> env_UpdateFromJSON (env_json e) e = Ok e"
  using check_cookbook_versions_GStr [of "en_CookbookVersions e"]
  by (simp add: env_UpdateFromJSON_def env_fields_update_def gget_env_json env_ok_def check_field_def env_description_def)

lemma env_Get_Save:
  "env_Save e s = (Ok (), s') \<Longrightarrow> env_Get k s' = (if k = en_Name e then Ok e else env_Get k s)"
  using ds_object_store [of "''env''" gob_codec]
  by (auto simp: env_Save_def env_Get_def object_store_def split: if_splits)

lemma env_Get_Delete:
  "env_Delete e s = (Ok (), s') \<Longrightarrow>
     env_Get k s' = (if k = en_Name e then ErrorS (''Cannot load environment '' @ k) StatusNotFound else env_Get k s)"
  using ds_object_store [of "''env''" gob_codec]
  by (auto simp: env_Delete_def env_Get_def object_store_def split: if_splits)

text \<open>Creating an environment from a body panics exactly if the name is not a string. What
  is accepted is never \<open>_default\<close>, constrains cookbooks only by valid constraints or versions,
  can be saved and read back beside all other environments, and is not changed by sending
  back what was read. No operation changes what is read as \<open>_default\<close>.\<close>

theorem environment_from_request:
  "(env_NewFromJSON body s = Panic \<longleftrightarrow> \<not> (\<exists>n. gget body ''name'' = GStr n)) \<and>
   env_Get ''_default'' s = Ok defaultEnvironment \<and> \<not> is_ok (env_UpdateFromJSON body defaultEnvironment) \<and>
   snd (env_Save defaultEnvironment s) = s \<and> snd (env_Delete defaultEnvironment s) = s \<and>
   (\<forall>e. env_NewFromJSON body s = Ok e \<longrightarrow> (\<exists>s' s''.
      en_Name e \<noteq> ''_default'' \<and> (\<forall>p\<in>set (en_CookbookVersions e). version_entry_ok p) \<and>
      env_UpdateFromJSON (env_json e) e = Ok e \<and>
      env_Save e s = (Ok (), s') \<and> (\<forall>k. env_Get k s' = (if k = en_Name e then Ok e else env_Get k s)) \<and>
      env_Delete e s' = (Ok (), s'') \<and> (\<forall>k. env_Get k s'' = env_Get k s)))"
proof -
  have np: "env_UpdateFromJSON body e \<noteq> Panic" if "gget body ''name'' = GStr n" for e n
    using that env_fields_update_no_panic by (auto simp: env_UpdateFromJSON_def split: option.splits)
  have 1: "env_NewFromJSON body s = Panic \<longleftrightarrow> \<not> (\<exists>n. gget body ''name'' = GStr n)"
    using np by (auto simp: env_NewFromJSON_def outcome_bind_Panic_iff env_New_def split: gval.splits)
  have 2: "\<not> is_ok (env_UpdateFromJSON body defaultEnvironment)"
    by (auto simp: env_UpdateFromJSON_def defaultEnvironment_def split: gval.splits)
  have 3: "\<exists>s' s''. en_Name e \<noteq> ''_default'' \<and> (\<forall>p\<in>set (en_CookbookVersions e). version_entry_ok p) \<and>
      env_UpdateFromJSON (env_json e) e = Ok e \<and>
      env_Save e s = (Ok (), s') \<and> (\<forall>k. env_Get k s' = (if k = en_Name e then Ok e else env_Get k s)) \<and>
      env_Delete e s' = (Ok (), s'') \<and> (\<forall>k. env_Get k s'' = env_Get k s)" if n: "env_NewFromJSON body s = Ok e" for e
  proof -
    obtain e0 where e0: "env_New (en_Name e0) s = Ok e0" "env_UpdateFromJSON body e0 = Ok e"
      using n env_ok_New [of _ s] by (auto simp: env_NewFromJSON_def outcome_bind_Ok_iff split: gval.splits)
    have ok: "env_ok e" "en_Name e = en_Name e0" and fresh: "srv_Get ''env'' s (en_Name e) = None"
      using env_ok_update [OF e0(2)] env_ok_New [OF e0(1)] by auto
    have nd: "en_Name e \<noteq> ''_default''" using ok by (simp add: env_ok_def)
    then obtain s' where s': "env_Save e s = (Ok (), s')" by (simp add: env_Save_def)
    from nd obtain s'' where s'': "env_Delete e s' = (Ok (), s'')" by (simp add: env_Delete_def)
    have "env_Get (en_Name e) s = ErrorS (''Cannot load environment '' @ en_Name e) StatusNotFound"
      using fresh nd by (simp add: env_Get_def)
    then have "env_Get k s'' = env_Get k s" for k
      using env_Get_Delete [OF s'', of k] env_Get_Save [OF s', of k] by (simp split: if_splits)
    with nd ok s' s'' env_Get_Save [OF s'] env_update_id [OF ok(1)] show ?thesis by (auto simp: env_ok_def)
  qed
  have 4: "env_Get ''_default'' s = Ok defaultEnvironment" "snd (env_Save defaultEnvironment s) = s"
      "snd (env_Delete defaultEnvironment s) = s"
    by (simp_all add: env_Get_def env_Save_def env_Delete_def defaultEnvironment_def)
  show ?thesis using 1 2 3 4 by blast
qed

definition example_env_body :: gobj where
  "example_env_body = [(''name'', GStr ''prod''),
     (''cookbook_versions'', GMap [(''nginx'', GStr ''3.2.5'')])]"

definition example_env :: chef_environment where
  "example_env = \<lparr>en_Name = ''prod'', en_ChefType = ''environment'', en_JSONClass = ''Chef::Environment'',
     en_Description = [], en_Default = [], en_Override = [],
     en_CookbookVersions = [(''nginx'', ''3.2.5'')]\<rparr>"

lemma example_version_valid: "ValidateAsVersion (GStr ''3.2.5'') = Ok ''3.2.5''"
  by (simp add: ValidateAsVersion_GStr version_groups_def is_digits_def is_digit_of_char digits_val_def
      digit_val_def del: ValidateAsVersion.simps)

lemma example_env_new: "env_NewFromJSON example_env_body new_server = Ok example_env"
proof -
  have "check_cookbook_versions [(''nginx'', GStr ''3.2.5'')] = Ok ()"
    using example_version_valid
    by (simp add: ValidateEnvName_def is_alnum_def is_lower_def less_eq_char_def del: ValidateAsVersion.simps)
  then show ?thesis
    by (simp add: env_NewFromJSON_def example_env_body_def gget_def env_New_def ValidateEnvName_def is_alnum_def
        is_lower_def less_eq_char_def new_server_def initDataStore_def ds_Get_def env_UpdateFromJSON_def
        env_valid_elements_def env_fields_update_def check_field_def env_description_def example_env_def
        del: check_cookbook_versions.simps)
qed

theorem environment_from_request_witness:
  "\<exists>s'. env_Save example_env new_server = (Ok (), s') \<and> env_Get ''prod'' s' = Ok example_env"
  using environment_from_request [of example_env_body new_server] example_env_new
  by (auto simp: example_env_def)

subsection \<open>Bare versions\<close>

lemma split_on_chars: "x \<in> set s \<Longrightarrow> x = c \<or> (\<exists>p\<in>set (split_on c s). x \<in> set p)"
  using set_join_with [of x "[c]" "split_on c s"] by simp

text \<open>An environment accepts a bare version number for a cookbook, but the code that
  reads the entry takes only an operator and a version: to such an environment the cookbook
  has no versions at all.\<close>

theorem bare_version_hides_cookbook:
  assumes "is_ok (ValidateAsVersion (GStr v))"
  shows "check_cookbook_versions [(''nginx'', GStr v)] = Ok () \<and>
    LatestConstrained v cb = (Ok None, cb) \<and> infoHashBase url num v cb = None"
proof -
  obtain a b c where g: "version_groups v = Some (a, b, c)"
    using assms by (auto simp: is_ok_iff ValidateAsVersion_GStr simp del: ValidateAsVersion.simps)
  have "\<forall>p\<in>set (split_on CHR ''.'' v). is_digits p"
    using g by (auto simp: version_groups_def split: list.splits if_splits)
  then have "CHR '' '' \<notin> set v"
    using split_on_chars [of "CHR '' ''" v "CHR ''.''"] by (fastforce simp: is_digits_def list_all_iff is_digit_of_char)
  then have sp: "split_on CHR '' '' v = [v]" by (rule split_on_none)
  moreover have "v \<noteq> []" using g by (auto simp: version_groups_def)
  moreover have "check_cookbook_versions [(''nginx'', GStr v)] = Ok ()"
    using assms by (auto simp: is_ok_iff ValidateEnvName_def is_alnum_def is_lower_def less_eq_char_def
        simp del: ValidateAsVersion.simps)
  ultimately show ?thesis
    by (simp add: LatestConstrained_def infoHashBase_def info_versions_def)
qed

theorem bare_version_hides_cookbook_witness:
  "env_constraint example_env ''nginx'' = ''3.2.5'' \<and>
   LatestConstrained ''3.2.5'' (example_cookbook example_versions) = (Ok None, example_cookbook example_versions)"
proof -
  have "is_ok (ValidateAsVersion (GStr ''3.2.5''))" unfolding example_version_valid by simp
  from bare_version_hides_cookbook [OF this] show ?thesis
    by (simp add: env_constraint_def example_env_def)
qed

end
