(* ===== verification/DataBags.thy ===== *)
theory DataBags
  imports Requests
begin

text \<open>
  \<^verbatim>\<open>databag/databag.go\<close>: data bags and their items. A bag is stored as one object with all
  its items; every item is a document of a collection of the index that carries the name of
  the bag. The name of an item's document is the \<open>id\<close> of its raw data.
\<close>

definition validateDataBagName :: "string \<Rightarrow> bool \<Rightarrow> unit outcome" where
  "validateDataBagName name dbi =
     (if \<not> ValidateDBagName name
      then ErrorS (''Field '' @ sq (if dbi then ''id'' else ''name'') @ '' invalid'') StatusBadRequest
      else Ok ())"

text \<open>\<open>New\<close> does not save the bag, but it creates the collection.\<close>

definition databag_New :: "string \<Rightarrow> server \<Rightarrow> databag outcome \<times> server" where
  "databag_New name s =
     (case validateDataBagName name False of
        Err e \<Rightarrow> (Err e, s)
      | Panic \<Rightarrow> (Panic, s)
      | Ok _ \<Rightarrow>
          (if srv_Get ''data_bag'' s name \<noteq> None then
             (ErrorS (''Data bag '' @ name @ '' already exists'') StatusConflict, s)
           else (Ok \<lparr>db_Name = name, db_DataBagItems = []\<rparr>,
                 s\<lparr>srv_ix := indexer_CreateNewCollection name (srv_ix s)\<rparr>)))"

definition databag_Get :: "string \<Rightarrow> server \<Rightarrow> databag outcome" where
  "databag_Get dbName s =
     (case srv_Get ''data_bag'' s dbName of
        None \<Rightarrow> ErrorS (''Cannot load data bag '' @ dbName) StatusNotFound
      | Some (VDataBag d) \<Rightarrow> Ok d
      | Some _ \<Rightarrow> Panic)"

definition databag_DoesExist :: "string \<Rightarrow> server \<Rightarrow> bool" where
  "databag_DoesExist dbName s \<longleftrightarrow> srv_Get ''data_bag'' s dbName \<noteq> None"

definition databag_Save :: "databag \<Rightarrow> server \<Rightarrow> server" where
  "databag_Save db s = srv_Set ''data_bag'' (db_Name db) (VDataBag db) s"

definition databag_GetList :: "server \<Rightarrow> string list" where
  "databag_GetList s = srv_GetList ''data_bag'' s"

subsection \<open>Items\<close>

text \<open>\<open>strings.Replace(s, old, "", 1)\<close>: without its first occurrence of \<open>old\<close>.\<close>

fun remove_first :: "string \<Rightarrow> string \<Rightarrow> string" where
  "remove_first old [] = []"
| "remove_first old (c # s) =
     (if take (length old) (c # s) = old then drop (length old) (c # s) else c # remove_first old s)"

definition item_DocID :: "databag_item \<Rightarrow> string" where
  "item_DocID dbi =
     (case gget (di_RawData dbi) ''id'' of
        GStr did \<Rightarrow> did
      | _ \<Rightarrow> remove_first (di_DataBagName dbi) (di_Name dbi))"

definition item_indexable :: "databag_item \<Rightarrow> indexable" where
  "item_indexable dbi =
     \<lparr>DocID = item_DocID dbi, IndexName = di_DataBagName dbi, flat_tagged = False,
      flat_fields = di_RawData dbi\<rparr>"

definition fullDBItemName :: "string \<Rightarrow> databag \<Rightarrow> string" where
  "fullDBItemName dbItemName db = ''data_bag_item_'' @ db_Name db @ ''_'' @ dbItemName"

definition GetDBItem :: "string \<Rightarrow> databag \<Rightarrow> databag_item outcome" where
  "GetDBItem dbItemName db =
     (case map_of (db_DataBagItems db) dbItemName of
        None \<Rightarrow> Errorf (''data bag item '' @ dbItemName @ '' in '' @ db_Name db @ '' not found'')
      | Some dbi \<Rightarrow> Ok dbi)"

definition NewDBItem :: "gobj \<Rightarrow> databag \<Rightarrow> server \<Rightarrow> databag_item outcome \<times> databag \<times> server" where
  "NewDBItem rawDbagItem db s =
     (case gget rawDbagItem ''id'' of
        GStr dbiID \<Rightarrow>
          (if dbiID = [] then (Errorf ''Field 'id' missing'', db, s)
           else (case validateDataBagName dbiID True of
                   Err e \<Rightarrow> (Err e, db, s)
                 | Panic \<Rightarrow> (Panic, db, s)
                 | Ok _ \<Rightarrow>
                     (if is_ok (GetDBItem dbiID db) then
                        (ErrorS (''Data Bag Item '' @ sq dbiID @ '' already exists in Data Bag '' @
                           sq (db_Name db) @ ''.'') StatusConflict, db, s)
                      else
                        (let dbagItem = \<lparr>di_Name = fullDBItemName dbiID db, di_ChefType = ''data_bag_item'',
                               di_JSONClass = ''Chef::DataBagItem'', di_DataBagName = db_Name db,
                               di_RawData = rawDbagItem\<rparr>;
                             db' = db\<lparr>db_DataBagItems := aput dbiID dbagItem (db_DataBagItems db)\<rparr>
                         in (Ok dbagItem, db', srv_Index (item_indexable dbagItem) (databag_Save db' s))))))
      | _ \<Rightarrow> (Errorf ''Field 'id' missing'', db, s))"

definition UpdateDBItem ::
  "string \<Rightarrow> gobj \<Rightarrow> databag \<Rightarrow> server \<Rightarrow> databag_item outcome \<times> databag \<times> server" where
  "UpdateDBItem dbiID rawDbagItem db s =
     (case GetDBItem dbiID db of
        Err e \<Rightarrow> (Err e, db, s)
      | Panic \<Rightarrow> (Panic, db, s)
      | Ok dbItem \<Rightarrow>
          (let dbItem' = dbItem\<lparr>di_RawData := rawDbagItem\<rparr>;
               db' = db\<lparr>db_DataBagItems := aput dbiID dbItem' (db_DataBagItems db)\<rparr>
           in (Ok dbItem', db', srv_Index (item_indexable dbItem') (databag_Save db' s))))"

definition DeleteDBItem :: "string \<Rightarrow> databag \<Rightarrow> server \<Rightarrow> databag \<times> server" where
  "DeleteDBItem dbItemName db s =
     (let db' = db\<lparr>db_DataBagItems := adel dbItemName (db_DataBagItems db)\<rparr>
      in (db', srv_Unindex (db_Name db) dbItemName (databag_Save db' s)))"

definition DoesItemExist :: "string \<Rightarrow> databag \<Rightarrow> bool" where
  "DoesItemExist dbItemName db \<longleftrightarrow> map_of (db_DataBagItems db) dbItemName \<noteq> None"

definition GetMultiDBItems :: "string list \<Rightarrow> databag \<Rightarrow> databag_item list" where
  "GetMultiDBItems dbItemNames db = List.map_filter (map_of (db_DataBagItems db)) dbItemNames"

definition AllDBItems :: "databag \<Rightarrow> (string \<times> databag_item) list" where
  "AllDBItems db = db_DataBagItems db"

definition ListDBItems :: "databag \<Rightarrow> string list" where
  "ListDBItems db = map fst (db_DataBagItems db)"

definition NumDBItems :: "databag \<Rightarrow> nat" where
  "NumDBItems db = length (db_DataBagItems db)"

definition databag_Delete :: "databag \<Rightarrow> server \<Rightarrow> server" where
  "databag_Delete db s =
     (let s1 = snd (fold (\<lambda>dbiName (d, s'). DeleteDBItem dbiName d s') (ListDBItems db) (db, s));
          s2 = srv_Delete ''data_bag'' (db_Name db) s1
      in s2\<lparr>srv_ix := snd (indexer_DeleteCollection (db_Name db) (srv_ix s2))\<rparr>)"

definition AllDataBags :: "server \<Rightarrow> databag list outcome" where
  "AllDataBags s = get_multi (\<lambda>d. databag_Get d s) (databag_GetList s)"

text \<open>The raw data of a decoded request body; a \<open>raw_data\<close> that is not a map is a failed type
  assertion.\<close>

definition RawDataBagJSON :: "gobj \<Rightarrow> gobj outcome" where
  "RawDataBagJSON rawDbagItem =
     (if ghas rawDbagItem ''raw_data'' then
        (case gget rawDbagItem ''raw_data'' of GMap rawData \<Rightarrow> Ok rawData | _ \<Rightarrow> Panic)
      else Ok rawDbagItem)"

subsection \<open>Bags as named objects\<close>

fun unwrap_databag :: "dsval \<Rightarrow> databag outcome" where
  "unwrap_databag (VDataBag d) = Ok d"
| "unwrap_databag _ = Panic"

interpretation databag_objects: typed_store "srv_Get ''data_bag''" "srv_Set ''data_bag''" "srv_Delete ''data_bag''"
  "srv_GetList ''data_bag''" gob_codec "\<lambda>s. ds_ok (srv_ds s)" VDataBag db_Name "\<lambda>_. True" unwrap_databag
  "\<lambda>k. SetStatus StatusNotFound (gerror_New (''Cannot load data bag '' @ k))" databag_Get
  by (intro typed_store.intro srv_object_store typed_store_axioms.intro)
    (auto simp: databag_Get_def split: option.split dsval.split)

lemma databag_Get_Save: "databag_Get k (databag_Save db s) = (if k = db_Name db then Ok db else databag_Get k s)"
  using databag_objects.fetch_put [where x = db and k = k and s = s] by (simp add: databag_Save_def)

lemma databag_Get_ds: "srv_ds s' = srv_ds s \<Longrightarrow> databag_Get k s' = databag_Get k s"
  by (simp add: databag_Get_def)

lemma databag_Get_index [simp]: "databag_Get k (srv_Index obj s) = databag_Get k s"
  "databag_Get k (srv_Unindex c d s) = databag_Get k s" "databag_Get k (s\<lparr>srv_ix := ix\<rparr>) = databag_Get k s"
  by (simp_all add: databag_Get_def)

lemma GetDBItem_aput:
  "GetDBItem k (db\<lparr>db_DataBagItems := aput i it (db_DataBagItems db)\<rparr>) = (if k = i then Ok it else GetDBItem k db)"
  by (simp add: GetDBItem_def split: option.split)

lemma GetDBItem_adel:
  "GetDBItem k (db\<lparr>db_DataBagItems := adel i (db_DataBagItems db)\<rparr>) =
     (if k = i then Errorf (''data bag item '' @ k @ '' in '' @ db_Name db @ '' not found'') else GetDBItem k db)"
  by (simp add: GetDBItem_def split: option.split)

lemma DeleteDBItem_facts:
  "db_Name (fst (DeleteDBItem i db s)) = db_Name db"
  "databag_Get k (snd (DeleteDBItem i db s)) = (if k = db_Name db then Ok (fst (DeleteDBItem i db s)) else databag_Get k s)"
  by (simp_all add: DeleteDBItem_def Let_def databag_Get_Save)

lemma delete_items_other:
  "k \<noteq> db_Name db \<Longrightarrow>
     databag_Get k (snd (fold (\<lambda>i (d, s'). DeleteDBItem i d s') is (db, s))) = databag_Get k s"
proof (induction "is" arbitrary: db s)
  case (Cons i "is")
  then show ?case
    using DeleteDBItem_facts(1) [of i db s] DeleteDBItem_facts(2) [of k i db s] by (cases "DeleteDBItem i db s") simp
qed simp

lemma databag_Get_Delete:
  "databag_Get k (databag_Delete db s) =
     (if k = db_Name db then ErrorS (''Cannot load data bag '' @ k) StatusNotFound else databag_Get k s)"
  using delete_items_other [of k db "ListDBItems db" s]
    databag_objects.fetch_del [of k "db_Name db" "snd (fold (\<lambda>i (d, s'). DeleteDBItem i d s') (ListDBItems db) (db, s))"]
  by (simp add: databag_Delete_def Let_def)

lemma NewDBItem_Ok:
  assumes "NewDBItem raw db s = (Ok it, db', s')"
  obtains i where "gget raw ''id'' = GStr i" "i \<noteq> []" "ValidateDBagName i" "\<not> is_ok (GetDBItem i db)"
    "it = \<lparr>di_Name = fullDBItemName i db, di_ChefType = ''data_bag_item'', di_JSONClass = ''Chef::DataBagItem'',
           di_DataBagName = db_Name db, di_RawData = raw\<rparr>"
    "db' = db\<lparr>db_DataBagItems := aput i it (db_DataBagItems db)\<rparr>"
    "s' = srv_Index (item_indexable it) (databag_Save db' s)"
  using assms
  by (auto simp: NewDBItem_def validateDataBagName_def Let_def split: gval.splits if_splits)

lemma NewDBItem_not_Ok:
  "NewDBItem raw db s = (r, db', s') \<Longrightarrow> \<not> is_ok r \<Longrightarrow> db' = db \<and> s' = s \<and> r \<noteq> Panic"
  by (auto simp: NewDBItem_def validateDataBagName_def Let_def split: gval.splits if_splits)

lemma NewDBItem_spec:
  assumes "NewDBItem raw db s = (r, db', s')"
  shows "(is_ok r \<longleftrightarrow> (\<exists>i. gget raw ''id'' = GStr i \<and> i \<noteq> [] \<and> ValidateDBagName i \<and> \<not> DoesItemExist i db)) \<and>
    (\<not> is_ok r \<longrightarrow> r \<noteq> Panic \<and> db' = db \<and> s' = s) \<and>
    (\<forall>it. r = Ok it \<longrightarrow> (\<exists>i. gget raw ''id'' = GStr i \<and> di_RawData it = raw \<and>
       (\<forall>k. GetDBItem k db' = (if k = i then Ok it else GetDBItem k db)) \<and>
       (\<forall>k. databag_Get k s' = (if k = db_Name db then Ok db' else databag_Get k s)) \<and>
       idx_jobs (srv_ix s') = idx_jobs (srv_ix s) @ [item_indexable it] \<and> obj_key (item_indexable it) = (db_Name db, i)))"
proof -
  have ex: "is_ok (GetDBItem i db) = DoesItemExist i db" for i
    by (simp add: GetDBItem_def DoesItemExist_def split: option.split)
  have 1: "is_ok r \<longleftrightarrow> (\<exists>i. gget raw ''id'' = GStr i \<and> i \<noteq> [] \<and> ValidateDBagName i \<and> \<not> DoesItemExist i db)"
    using assms unfolding ex [symmetric]
    by (auto simp: NewDBItem_def validateDataBagName_def Let_def split: gval.splits if_splits)
  have 2: "\<not> is_ok r \<longrightarrow> r \<noteq> Panic \<and> db' = db \<and> s' = s" using NewDBItem_not_Ok [OF assms] by blast
  have 3: "\<exists>i. gget raw ''id'' = GStr i \<and> di_RawData it = raw \<and>
       (\<forall>k. GetDBItem k db' = (if k = i then Ok it else GetDBItem k db)) \<and>
       (\<forall>k. databag_Get k s' = (if k = db_Name db then Ok db' else databag_Get k s)) \<and>
       idx_jobs (srv_ix s') = idx_jobs (srv_ix s) @ [item_indexable it] \<and> obj_key (item_indexable it) = (db_Name db, i)"
    if r: "r = Ok it" for it
  proof -
    obtain i where i: "gget raw ''id'' = GStr i"
        "it = \<lparr>di_Name = fullDBItemName i db, di_ChefType = ''data_bag_item'', di_JSONClass = ''Chef::DataBagItem'',
           di_DataBagName = db_Name db, di_RawData = raw\<rparr>"
        "db' = db\<lparr>db_DataBagItems := aput i it (db_DataBagItems db)\<rparr>"
        "s' = srv_Index (item_indexable it) (databag_Save db' s)"
      using NewDBItem_Ok [OF assms [unfolded r]] by blast
    have nm: "db_Name db' = db_Name db" using i(3) by simp
    have "obj_key (item_indexable it) = (db_Name db, i)"
      using i(1,2) by (simp add: obj_key_def item_indexable_def item_DocID_def)
    moreover have "databag_Get k s' = (if k = db_Name db then Ok db' else databag_Get k s)" for k
      unfolding i(4) using nm by (simp add: databag_Get_Save)
    moreover have "idx_jobs (srv_ix s') = idx_jobs (srv_ix s) @ [item_indexable it]"
      unfolding i(4) by (simp add: IndexObj_def databag_Save_def)
    moreover have "GetDBItem k db' = (if k = i then Ok it else GetDBItem k db)" for k
      unfolding i(3) by (rule GetDBItem_aput)
    ultimately show ?thesis using i(1,2) by auto
  qed
  show ?thesis by (intro conjI allI impI) (use 1 2 3 in \<open>simp_all only: simp_thms not_False_eq_True\<close>)
qed

lemma UpdateDBItem_spec:
  assumes "UpdateDBItem i raw db s = (r, db', s')"
  shows "(is_ok r \<longleftrightarrow> DoesItemExist i db) \<and> (\<not> is_ok r \<longrightarrow> r \<noteq> Panic \<and> db' = db \<and> s' = s) \<and>
    (\<forall>it. r = Ok it \<longrightarrow> (\<exists>old. GetDBItem i db = Ok old \<and> it = old\<lparr>di_RawData := raw\<rparr>) \<and>
       (\<forall>k. GetDBItem k db' = (if k = i then Ok it else GetDBItem k db)) \<and>
       (\<forall>k. databag_Get k s' = (if k = db_Name db then Ok db' else databag_Get k s)) \<and>
       idx_jobs (srv_ix s') = idx_jobs (srv_ix s) @ [item_indexable it])"
proof (cases "map_of (db_DataBagItems db) i")
  case None
  then show ?thesis using assms by (auto simp: UpdateDBItem_def GetDBItem_def DoesItemExist_def)
next
  case (Some it)
  define it' where "it' = it\<lparr>di_RawData := raw\<rparr>"
  define d where "d = db\<lparr>db_DataBagItems := aput i it' (db_DataBagItems db)\<rparr>"
  have eq: "r = Ok it'" "db' = d" "s' = srv_Index (item_indexable it') (databag_Save d s)"
    using assms Some by (auto simp: UpdateDBItem_def GetDBItem_def it'_def d_def Let_def)
  have "db_Name d = db_Name db" by (simp add: d_def)
  moreover have "GetDBItem k d = (if k = i then Ok it' else GetDBItem k db)" for k
    unfolding d_def by (rule GetDBItem_aput)
  moreover have "idx_jobs (srv_ix s') = idx_jobs (srv_ix s) @ [item_indexable it']"
    unfolding eq(3) by (simp add: IndexObj_def databag_Save_def)
  ultimately show ?thesis
    unfolding eq(1,2) using Some by (simp add: eq(3) databag_Get_Save DoesItemExist_def) (simp add: GetDBItem_def it'_def)
qed

lemma DeleteDBItem_spec:
  assumes "DeleteDBItem i db s = (db', s')"
  shows "\<not> DoesItemExist i db' \<and> (\<forall>k. k \<noteq> i \<longrightarrow> GetDBItem k db' = GetDBItem k db) \<and>
    (\<forall>k. databag_Get k s' = (if k = db_Name db then Ok db' else databag_Get k s)) \<and>
    doc_at (objIndex (srv_ix s')) = (doc_at (objIndex (srv_ix s)))((db_Name db, i) := None)"
proof -
  have eq: "db' = db\<lparr>db_DataBagItems := adel i (db_DataBagItems db)\<rparr>" "s' = srv_Unindex (db_Name db) i (databag_Save db' s)"
    using assms by (auto simp: DeleteDBItem_def Let_def)
  have "doc_at (objIndex (srv_ix s')) = (doc_at (objIndex (srv_ix s)))((db_Name db, i) := None)"
    unfolding eq(2) by (simp add: srv_Unindex_def databag_Save_def DeleteItemFromCollection_def DeleteItem_doc_at case_prod_beta)
  moreover have "databag_Get k s' = (if k = db_Name db then Ok db' else databag_Get k s)" for k
    using assms DeleteDBItem_facts(2) [of k i db s] by simp
  ultimately show ?thesis unfolding eq(1) by (simp add: GetDBItem_adel DoesItemExist_def)
qed

text \<open>\<^bold>\<open>C27\<close>. Items of a data bag behave like a map from ids to raw data. A new item is accepted
  exactly under a fresh valid id; an update exactly for an item that is there, of which it
  replaces the raw data only; a deleted item is gone. Each of the three changes the entry of
  its item alone, stores the changed bag beside the other bags, and queues the item for the
  index or takes its document out; what is refused changes nothing. Deleting the bag removes
  that bag only.\<close>

theorem databag_items_map:
  assumes "NewDBItem raw db s = (r, db', s')" "UpdateDBItem i raw' db s = (ru, dbu, su)" "DeleteDBItem i db s = (dbd, sd)"
  shows "(is_ok r \<longleftrightarrow> (\<exists>i. gget raw ''id'' = GStr i \<and> i \<noteq> [] \<and> ValidateDBagName i \<and> \<not> DoesItemExist i db)) \<and>
    (\<not> is_ok r \<longrightarrow> r \<noteq> Panic \<and> db' = db \<and> s' = s) \<and>
    (\<forall>it. r = Ok it \<longrightarrow> (\<exists>i. gget raw ''id'' = GStr i \<and> di_RawData it = raw \<and>
       (\<forall>k. GetDBItem k db' = (if k = i then Ok it else GetDBItem k db)) \<and>
       (\<forall>k. databag_Get k s' = (if k = db_Name db then Ok db' else databag_Get k s)) \<and>
       idx_jobs (srv_ix s') = idx_jobs (srv_ix s) @ [item_indexable it] \<and> obj_key (item_indexable it) = (db_Name db, i))) \<and>
    (is_ok ru \<longleftrightarrow> DoesItemExist i db) \<and> (\<not> is_ok ru \<longrightarrow> ru \<noteq> Panic \<and> dbu = db \<and> su = s) \<and>
    (\<forall>it. ru = Ok it \<longrightarrow> (\<exists>old. GetDBItem i db = Ok old \<and> it = old\<lparr>di_RawData := raw'\<rparr>) \<and>
       (\<forall>k. GetDBItem k dbu = (if k = i then Ok it else GetDBItem k db)) \<and>
       (\<forall>k. databag_Get k su = (if k = db_Name db then Ok dbu else databag_Get k s)) \<and>
       idx_jobs (srv_ix su) = idx_jobs (srv_ix s) @ [item_indexable it]) \<and>
    \<not> DoesItemExist i dbd \<and> (\<forall>k. k \<noteq> i \<longrightarrow> GetDBItem k dbd = GetDBItem k db) \<and>
    (\<forall>k. databag_Get k sd = (if k = db_Name db then Ok dbd else databag_Get k s)) \<and>
    doc_at (objIndex (srv_ix sd)) = (doc_at (objIndex (srv_ix s)))((db_Name db, i) := None) \<and>
    (\<forall>k. databag_Get k (databag_Delete db s) =
       (if k = db_Name db then ErrorS (''Cannot load data bag '' @ k) StatusNotFound else databag_Get k s))"
  using NewDBItem_spec [OF assms(1)] UpdateDBItem_spec [OF assms(2)] DeleteDBItem_spec [OF assms(3)]
    allI [of "\<lambda>k. databag_Get k (databag_Delete db s) = _ k", OF databag_Get_Delete]
  by (elim conjE, intro conjI) assumption+

definition example_bag :: databag where
  "example_bag = \<lparr>db_Name = ''users'', db_DataBagItems = []\<rparr>"

definition example_raw :: gobj where
  "example_raw = [(''id'', GStr ''joe''), (''shell'', GStr ''zsh'')]"

theorem databag_items_map_witness:
  "\<exists>it it' db' dbu s' su. NewDBItem example_raw example_bag new_server = (Ok it, db', s') \<and> GetDBItem ''joe'' db' = Ok it \<and>
     databag_Get ''users'' s' = Ok db' \<and>
     UpdateDBItem ''joe'' (example_raw @ [(''uid'', GNum ''7'')]) db' s' = (Ok it', dbu, su) \<and> databag_Get ''users'' su = Ok dbu \<and>
     GetDBItem ''joe'' dbu = Ok it' \<and> di_RawData it' = example_raw @ [(''uid'', GNum ''7'')]"
proof -
  let ?raw = "example_raw @ [(''uid'', GNum ''7'')]"
  obtain r db' s' where r: "NewDBItem example_raw example_bag new_server = (r, db', s')" by (cases "NewDBItem example_raw example_bag new_server") auto
  obtain ru dbu su where ru: "UpdateDBItem ''joe'' ?raw db' s' = (ru, dbu, su)" by (cases "UpdateDBItem ''joe'' ?raw db' s'") auto
  obtain rx dbx sx where rx: "UpdateDBItem ''joe'' ?raw example_bag new_server = (rx, dbx, sx)" by (cases "UpdateDBItem ''joe'' ?raw example_bag new_server") auto
  obtain rn dbn sn where rn: "NewDBItem example_raw db' s' = (rn, dbn, sn)" by (cases "NewDBItem example_raw db' s'") auto
  note m1 = databag_items_map [OF r rx surjective_pairing] and m2 = databag_items_map [OF rn ru surjective_pairing]
  have id: "gget example_raw ''id'' = GStr ''joe''" by (simp add: example_raw_def gget_def)
  have nm: "db_Name example_bag = ''users''" by (simp add: example_bag_def)
  have "ValidateDBagName ''joe''" "\<not> DoesItemExist ''joe'' example_bag" by code_simp+
  then have "is_ok r" using m1 id by blast
  then obtain it where it: "r = Ok it" by (auto simp: is_ok_iff)
  from m1 it id have g: "GetDBItem ''joe'' db' = Ok it" "databag_Get ''users'' s' = Ok db'"
    unfolding nm by (metis gval.inject(3))+
  have "db_Name db' = ''users''" using r it nm by (auto elim!: NewDBItem_Ok)
  moreover have "DoesItemExist ''joe'' db'" using g(1) by (auto simp: GetDBItem_def DoesItemExist_def split: option.splits)
  then have "is_ok ru" using m2 by blast
  then obtain it' where it': "ru = Ok it'" by (auto simp: is_ok_iff)
  ultimately have "databag_Get ''users'' su = Ok dbu" "GetDBItem ''joe'' dbu = Ok it'" "di_RawData it' = ?raw"
    using m2 by (metis, metis, (elim conjE, auto)[1])
  with r ru it it' g show ?thesis by blast
qed

subsection \<open>Updating an item without its id\<close>

lemma length_remove_first: "length (remove_first old s) \<ge> length s - length old"
  by (induction old s rule: remove_first.induct) auto

lemma item_DocID_without_id:
  assumes "di_Name it = fullDBItemName i db" "di_DataBagName it = db_Name db" "\<forall>d. gget (di_RawData it) ''id'' \<noteq> GStr d"
  shows "item_DocID it \<noteq> i"
proof -
  have "item_DocID it = remove_first (db_Name db) (fullDBItemName i db)"
    using assms by (simp add: item_DocID_def split: gval.split)
  moreover have "length (remove_first (db_Name db) (fullDBItemName i db)) \<ge> length (fullDBItemName i db) - length (db_Name db)"
    by (rule length_remove_first)
  moreover have "length (fullDBItemName i db) - length (db_Name db) > length i" by (simp add: fullDBItemName_def)
  ultimately show ?thesis by auto
qed

text \<open>An update whose raw data has no \<open>id\<close> is accepted, but the item is then indexed under
  another name: after the item is deleted the index still holds a document for it.\<close>

theorem update_without_id_orphans:
  assumes "GetDBItem i db = Ok it" "di_Name it = fullDBItemName i db" "di_DataBagName it = db_Name db"
    "\<forall>d. gget raw ''id'' \<noteq> GStr d" "idx_jobs (srv_ix s) = []"
    "indexable_ok cfg (item_indexable (it\<lparr>di_RawData := raw\<rparr>))"
  shows "\<exists>it' db' s' ix d. UpdateDBItem i raw db s = (Ok it', db', s') \<and> run_job cfg 0 (srv_ix s') = Ok ix \<and>
    (let (db'', s'') = DeleteDBItem i db' (s'\<lparr>srv_ix := ix\<rparr>)
     in \<not> DoesItemExist i db'' \<and> idx_jobs (srv_ix s'') = [] \<and> d \<noteq> i \<and>
        doc_at (objIndex (srv_ix s'')) (db_Name db, d) \<noteq> None)"
proof -
  define it' where "it' = it\<lparr>di_RawData := raw\<rparr>"
  define db' where "db' = db\<lparr>db_DataBagItems := aput i it' (db_DataBagItems db)\<rparr>"
  define s' where "s' = srv_Index (item_indexable it') (databag_Save db' s)"
  have u: "UpdateDBItem i raw db s = (Ok it', db', s')"
    using assms(1) by (simp add: UpdateDBItem_def Let_def it'_def db'_def s'_def)
  have jobs: "idx_jobs (srv_ix s') = [item_indexable it']" "objIndex (srv_ix s') = objIndex (srv_ix s)"
    using assms(5) by (simp_all add: s'_def IndexObj_def databag_Save_def)
  obtain i' d where i': "SaveItem cfg (item_indexable it') (objIndex (srv_ix s)) = Ok i'"
      "doc_at i' = (doc_at (objIndex (srv_ix s)))(obj_key (item_indexable it') \<mapsto> d)"
    using SaveItem_doc_at [of cfg "item_indexable it'"] assms(6) unfolding it'_def by blast
  have run: "run_job cfg 0 (srv_ix s') = Ok \<lparr>objIndex = i', idx_jobs = []\<rparr>"
    using jobs i'(1) by (simp add: run_job_def)
  have ne: "item_DocID it' \<noteq> i"
    by (rule item_DocID_without_id [where db = db]) (use assms(2-4) in \<open>simp_all add: it'_def\<close>)
  have key: "obj_key (item_indexable it') = (db_Name db, item_DocID it')"
    using assms(3) by (simp add: obj_key_def item_indexable_def it'_def)
  show ?thesis
    using u run ne
    by (intro exI [of _ it'] exI [of _ db'] exI [of _ s'] exI [of _ "\<lparr>objIndex = i', idx_jobs = []\<rparr>"]
        exI [of _ "item_DocID it'"])
      (simp add: DeleteDBItem_def Let_def DoesItemExist_def srv_Unindex_def databag_Save_def
        DeleteItemFromCollection_def DeleteItem_doc_at i'(2) key db'_def case_prod_beta)
qed

definition example_item :: databag_item where
  "example_item = \<lparr>di_Name = ''data_bag_item_users_joe'', di_ChefType = ''data_bag_item'',
     di_JSONClass = ''Chef::DataBagItem'', di_DataBagName = ''users'', di_RawData = example_raw\<rparr>"

theorem update_without_id_orphans_witness:
  "\<exists>it' db' s' ix d. UpdateDBItem ''joe'' [(''shell'', GStr ''zsh'')] (example_bag\<lparr>db_DataBagItems := [(''joe'', example_item)]\<rparr>)
       new_server = (Ok it', db', s') \<and> run_job example_conf 0 (srv_ix s') = Ok ix \<and>
     doc_at (objIndex (srv_ix (snd (DeleteDBItem ''joe'' db' (s'\<lparr>srv_ix := ix\<rparr>))))) (''users'', d) \<noteq> None"
proof -
  let ?db = "example_bag\<lparr>db_DataBagItems := [(''joe'', example_item)]\<rparr>" and ?raw = "[(''shell'', GStr ''zsh'')]"
  have nm: "db_Name ?db = ''users''" by (simp add: example_bag_def)
  have "obj_Flatten example_conf (item_indexable (example_item\<lparr>di_RawData := ?raw\<rparr>)) = Ok [(''shell'', GStr ''zsh'')]"
    by code_simp
  moreover have "Indexify example_conf [(''shell'', GStr ''zsh'')] = Ok [''shell:zsh'']" by code_simp
  moreover have "valid_utf8 ''shell:zsh''" by code_simp
  ultimately have "indexable_ok example_conf (item_indexable (example_item\<lparr>di_RawData := ?raw\<rparr>))"
    by (auto simp: indexable_ok_def object_lines_def intro!: exI [of _ "[''shell:zsh'']"])
  then have "\<exists>it' db' s' ix d. UpdateDBItem ''joe'' ?raw ?db new_server = (Ok it', db', s') \<and> run_job example_conf 0 (srv_ix s') = Ok ix \<and>
    (let (db'', s'') = DeleteDBItem ''joe'' db' (s'\<lparr>srv_ix := ix\<rparr>)
     in \<not> DoesItemExist ''joe'' db'' \<and> idx_jobs (srv_ix s'') = [] \<and> d \<noteq> ''joe'' \<and>
        doc_at (objIndex (srv_ix s'')) (db_Name ?db, d) \<noteq> None)"
    by (intro update_without_id_orphans [where it = example_item])
      (simp_all add: GetDBItem_def example_item_def fullDBItemName_def example_bag_def gget_def new_server_def new_indexer_def)
  then show ?thesis unfolding nm Let_def case_prod_beta by blast
qed

end
