(* ===== verification/Sandbox.thy ===== *)
theory Sandbox
  imports FileStore
begin

text \<open>
  \<^verbatim>\<open>sandbox/sandbox.go\<close>: sandboxes, the lists of checksums that a client is about to upload.
  The ids drawn from the random number generator are the argument \<open>ids\<close>, one outcome per
  draw, and the clock is the argument \<open>now\<close>.
\<close>

definition sandbox_Get :: "string \<Rightarrow> server \<Rightarrow> sandbox outcome" where
  "sandbox_Get sandboxID s =
     (case srv_Get ''sandbox'' s sandboxID of
        None \<Rightarrow> Errorf (''Sandbox '' @ sandboxID @ '' not found'')
      | Some (VSandbox sb) \<Rightarrow> Ok sb
      | Some _ \<Rightarrow> Panic)"

text \<open>The loop over at most \<open>n\<close> attempts; the result is empty if every attempt collided.\<close>

fun draw_id :: "nat \<Rightarrow> (nat \<Rightarrow> string outcome) \<Rightarrow> nat \<Rightarrow> server \<Rightarrow> string outcome" where
  "draw_id 0 ids i s = Ok []"
| "draw_id (Suc n) ids i s =
     outcome_bind (ids i) (\<lambda>sandboxID.
       (case sandbox_Get sandboxID s of
          Ok _ \<Rightarrow> draw_id n ids (Suc i) s
        | Err _ \<Rightarrow> Ok sandboxID
        | Panic \<Rightarrow> Panic))"

definition sandbox_New :: "(nat \<Rightarrow> string outcome) \<Rightarrow> int \<Rightarrow> gobj \<Rightarrow> server \<Rightarrow> sandbox outcome" where
  "sandbox_New ids now checksumHash s =
     outcome_bind (draw_id 5 ids 0 s) (\<lambda>sandboxID.
       if sandboxID = [] then
         Errorf ''Somehow every attempt to create a unique sandbox id failed. Bailing.''
       else Ok \<lparr>sb_ID = sandboxID, sb_CreationTime = now, sb_Completed = False,
                sb_Checksums = map fst checksumHash\<rparr>)"

definition sandbox_Save :: "sandbox \<Rightarrow> server \<Rightarrow> server" where
  "sandbox_Save sb s = srv_Set ''sandbox'' (sb_ID sb) (VSandbox sb) s"

definition sandbox_Delete :: "sandbox \<Rightarrow> server \<Rightarrow> server" where
  "sandbox_Delete sb s = srv_Delete ''sandbox'' (sb_ID sb) s"

definition sandbox_GetList :: "server \<Rightarrow> string list" where
  "sandbox_GetList s = srv_GetList ''sandbox'' s"

definition UploadChkList :: "string \<Rightarrow> sandbox \<Rightarrow> server \<Rightarrow> (string \<times> gobj) list outcome" where
  "UploadChkList baseURL sb s =
     fold (\<lambda>chk acc. outcome_bind acc (\<lambda>stats.
         (case file_Get chk s of
            Ok _ \<Rightarrow> Ok (aput chk [(''needs_upload'', GBool False)] stats)
          | Err _ \<Rightarrow> Ok (aput chk [(''url'', GStr (baseURL @ ''/file_store/'' @ chk)), (''needs_upload'', GBool True)] stats)
          | Panic \<Rightarrow> Panic))) (sb_Checksums sb) (Ok [])"

fun checksums_uploaded :: "string \<Rightarrow> string list \<Rightarrow> server \<Rightarrow> unit outcome" where
  "checksums_uploaded sbid [] s = Ok ()"
| "checksums_uploaded sbid (chk # chks) s =
     (case file_Get chk s of
        Ok _ \<Rightarrow> checksums_uploaded sbid chks s
      | Err _ \<Rightarrow> Errorf (''Checksum '' @ chk @ '' not uploaded yet, '' @ sbid @ '' not complete, cannot commit yet.'')
      | Panic \<Rightarrow> Panic)"

definition IsComplete :: "sandbox \<Rightarrow> server \<Rightarrow> unit outcome" where
  "IsComplete sb s = checksums_uploaded (sb_ID sb) (sb_Checksums sb) s"

definition AllSandboxes :: "server \<Rightarrow> sandbox list outcome" where
  "AllSandboxes s = get_multi (\<lambda>i. sandbox_Get i s) (sandbox_GetList s)"

definition sandbox_before :: "sandbox \<Rightarrow> sandbox \<Rightarrow> bool" where
  "sandbox_before a b \<longleftrightarrow> sb_CreationTime a < sb_CreationTime b"

definition sandbox_Purge :: "int \<Rightarrow> int \<Rightarrow> server \<Rightarrow> nat outcome \<times> server" where
  "sandbox_Purge now olderThan s =
     (let t = now - olderThan
      in case AllSandboxes s of
           Err e \<Rightarrow> (Err e, s)
         | Panic \<Rightarrow> (Panic, s)
         | Ok sandboxes \<Rightarrow>
             (if sandboxes = [] then (Ok 0, s)
              else
                (let sorted = sort_by sandbox_before sandboxes
                 in if t < sb_CreationTime (hd sorted) then (Ok 0, s)
                    else
                      (let j = sort_Search (length sorted) (\<lambda>i. \<not> sb_CreationTime (sorted ! i) < t)
                       in (Ok j, fold (\<lambda>sb. srv_Delete ''sandbox'' (sb_ID sb)) (take j sorted) s)))))"

subsection \<open>Sandboxes as named objects\<close>

fun unwrap_sandbox :: "dsval \<Rightarrow> sandbox outcome" where
  "unwrap_sandbox (VSandbox sb) = Ok sb"
| "unwrap_sandbox _ = Panic"

definition sandboxes_ok :: "server \<Rightarrow> bool" where
  "sandboxes_ok = typed_in (srv_Get ''sandbox'') (\<lambda>s. ds_ok (srv_ds s)) VSandbox sb_ID (\<lambda>_. True)"

interpretation sandbox_objects: typed_store "srv_Get ''sandbox''" "srv_Set ''sandbox''" "srv_Delete ''sandbox''"
  "srv_GetList ''sandbox''" gob_codec "\<lambda>s. ds_ok (srv_ds s)" VSandbox sb_ID "\<lambda>_. True" unwrap_sandbox
  "\<lambda>k. gerror_New (''Sandbox '' @ k @ '' not found'')" sandbox_Get
  by (intro typed_store.intro srv_object_store typed_store_axioms.intro)
    (auto simp: sandbox_Get_def split: option.split dsval.split)

lemma sandbox_Get_Save: "sandbox_Get k (sandbox_Save sb s) = (if k = sb_ID sb then Ok sb else sandbox_Get k s)"
  using sandbox_objects.fetch_put [where x = sb and k = k and s = s] by (simp add: sandbox_Save_def)

lemma sandboxes_ok_Save: "sandboxes_ok s \<Longrightarrow> sandboxes_ok (sandbox_Save sb s)"
  using sandbox_objects.typed_put [where s = s and x = sb] by (simp add: sandboxes_ok_def sandbox_Save_def)

subsection \<open>Purging\<close>

text \<open>Purging sandboxes removes exactly those created before the cutoff, whatever order they
  are listed in, keeps all others, and returns how many it removed.\<close>

theorem purge_sandboxes:
  assumes "sandboxes_ok s"
  shows "\<exists>k s'. sandbox_Purge now olderThan s = (Ok k, s') \<and> sandboxes_ok s' \<and>
    (\<forall>i sb. sandbox_Get i s' = Ok sb \<longleftrightarrow> sandbox_Get i s = Ok sb \<and> \<not> sb_CreationTime sb < now - olderThan) \<and>
    k = card {i. \<exists>sb. sandbox_Get i s = Ok sb \<and> sb_CreationTime sb < now - olderThan}"
proof -
  let ?Q = "\<lambda>sb. \<not> sb_CreationTime sb < now - olderThan" and ?del = "fold (\<lambda>sb. srv_Delete ''sandbox'' (sb_ID sb))"
  note ok = assms [unfolded sandboxes_ok_def]
  obtain sbs where sbs: "AllSandboxes s = Ok sbs"
    using sandbox_objects.all_objects [OF ok] unfolding AllSandboxes_def sandbox_GetList_def by blast
  define ss where "ss = sort_by (\<lambda>a b. sb_CreationTime a < sb_CreationTime b) sbs"
  have ss: "sort_by sandbox_before sbs = ss" unfolding ss_def by (rule arg_cong2 [of _ _ _ _ sort_by]) (auto simp: sandbox_before_def fun_eq_iff)
  note pp = purged_prefix [of sb_CreationTime ?Q, OF _ ss_def]
  have P: "sandbox_Purge now olderThan s = (Ok (length (filter (\<lambda>sb. \<not> ?Q sb) ss)), ?del (filter (\<lambda>sb. \<not> ?Q sb) ss) s)"
  proof (cases "sbs = [] \<or> now - olderThan < sb_CreationTime (hd ss)")
    case True
    then have "filter (\<lambda>sb. \<not> ?Q sb) ss = []" using pp(3) by (cases "sbs = []") (auto simp: ss_def sort_by_def)
    with True sbs ss show ?thesis by (auto simp: sandbox_Purge_def Let_def)
  next
    case False
    then show ?thesis using sbs pp(1,2) by (simp add: sandbox_Purge_def Let_def ss)
  qed
  have m: "mset (filter (\<lambda>sb. \<not> ?Q sb) ss) = mset (filter (\<lambda>sb. \<not> ?Q sb) sbs)" by (rule pp(4)) simp
  note D = sandbox_objects.delete_those [OF ok sbs [unfolded AllSandboxes_def sandbox_GetList_def] m]
  show ?thesis
    by (intro exI [of _ "length (filter (\<lambda>sb. \<not> ?Q sb) ss)"] exI [of _ "?del (filter (\<lambda>sb. \<not> ?Q sb) ss) s"] conjI allI)
      (use P D sandbox_objects.delete_all [OF ok] in \<open>simp_all add: sandboxes_ok_def\<close>)
qed

definition example_sandbox :: "string \<Rightarrow> int \<Rightarrow> sandbox" where
  "example_sandbox i t = \<lparr>sb_ID = i, sb_CreationTime = t, sb_Completed = False, sb_Checksums = []\<rparr>"

lemma sandboxes_ok_new_server: "sandboxes_ok new_server"
  by (simp add: sandboxes_ok_def typed_in_def new_server_def ds_Get_def initDataStore_def [symmetric])
    (simp add: initDataStore_def)

theorem purge_sandboxes_witness:
  "\<exists>k s'. sandbox_Purge 100 50 (sandbox_Save (example_sandbox ''a'' 10) (sandbox_Save (example_sandbox ''b'' 50) new_server)) = (Ok k, s') \<and>
     sandbox_Get ''b'' s' = Ok (example_sandbox ''b'' 50) \<and> \<not> is_ok (sandbox_Get ''a'' s')"
proof -
  let ?s = "sandbox_Save (example_sandbox ''a'' 10) (sandbox_Save (example_sandbox ''b'' 50) new_server)"
  have ok: "sandboxes_ok ?s" by (intro sandboxes_ok_Save sandboxes_ok_new_server)
  have g: "sandbox_Get ''a'' ?s = Ok (example_sandbox ''a'' 10)" "sandbox_Get ''b'' ?s = Ok (example_sandbox ''b'' 50)"
    by (simp_all add: sandbox_Get_Save example_sandbox_def)
  obtain k s' where r: "sandbox_Purge 100 50 ?s = (Ok k, s')"
      "\<forall>i sb. sandbox_Get i s' = Ok sb \<longleftrightarrow> sandbox_Get i ?s = Ok sb \<and> \<not> sb_CreationTime sb < 100 - 50"
    using purge_sandboxes [OF ok, of 100 50] by blast
  have "sandbox_Get ''b'' s' = Ok (example_sandbox ''b'' 50)" using r(2) g(2) by (simp add: example_sandbox_def)
  moreover have "\<not> is_ok (sandbox_Get ''a'' s')"
    unfolding is_ok_iff r(2) [rule_format] g(1) by (simp add: example_sandbox_def)
  ultimately show ?thesis using r(1) by blast
qed

end
