(* ===== verification/ObjectHandlers.thy ===== *)
theory ObjectHandlers
  imports Http Nodes Roles Environments DataBags Sandbox
begin

text \<open>
  The handlers for nodes and roles (\<^verbatim>\<open>nodes.go\<close>, \<^verbatim>\<open>roles.go\<close> and their parts of \<^verbatim>\<open>lists.go\<close>), and
  the objects of the event log that other handlers share.
\<close>

subsection \<open>Objects in the event log\<close>

definition node_logobj :: "node \<Rightarrow> logobj" where
  "node_logobj n = \<lparr>lo_Type = ''*node.Node'', lo_Name = nd_Name n, lo_JSON = GMap (node_fields n)\<rparr>"

definition role_logobj :: "role \<Rightarrow> logobj" where
  "role_logobj r = \<lparr>lo_Type = ''*role.Role'', lo_Name = ro_Name r, lo_JSON = GMap (role_fields r)\<rparr>"

definition item_json :: "databag_item \<Rightarrow> gval" where
  "item_json dbi =
     GMap [(''name'', GStr (di_Name dbi)), (''chef_type'', GStr (di_ChefType dbi)),
       (''json_class'', GStr (di_JSONClass dbi)), (''data_bag'', GStr (di_DataBagName dbi)),
       (''raw_data'', GMap (di_RawData dbi))]"

definition item_logobj :: "databag_item \<Rightarrow> logobj" where
  "item_logobj dbi = \<lparr>lo_Type = ''*databag.DataBagItem'', lo_Name = di_Name dbi, lo_JSON = item_json dbi\<rparr>"

definition databag_logobj :: "databag \<Rightarrow> logobj" where
  "databag_logobj db =
     \<lparr>lo_Type = ''*databag.DataBag'', lo_Name = db_Name db,
      lo_JSON = GMap [(''Name'', GStr (db_Name db)),
        (''DataBagItems'', GMap (map (\<lambda>(k, dbi). (k, item_json dbi)) (db_DataBagItems db)))]\<rparr>"

definition not_allowed_this :: "response \<Rightarrow> server \<Rightarrow> reply \<times> server" where
  "not_allowed_this w s = reply_error ''You are not allowed to perform this action'' StatusForbidden w s"

definition not_allowed_take :: "response \<Rightarrow> server \<Rightarrow> reply \<times> server" where
  "not_allowed_take w s = reply_error ''You are not allowed to take this action.'' StatusForbidden w s"

text \<open>The permission check for HEAD that most handlers use.\<close>

definition validator_forbidden :: "conf \<Rightarrow> actor \<Rightarrow> unit outcome" where
  "validator_forbidden cfg opUser = (if IsValidator cfg opUser then headForbidden else Ok ())"

subsection \<open>nodes.go\<close>

text \<open>\<open>opUser.IsClient() && opUser.(*client.Client).NodeName == nodeName\<close>\<close>

definition is_own_node :: "actor \<Rightarrow> string \<Rightarrow> bool" where
  "is_own_node opUser nodeName = (case opUser of AClient c \<Rightarrow> cl_NodeName c = nodeName | AUser _ \<Rightarrow> False)"

definition node_read_or_delete ::
  "conf \<Rightarrow> world \<Rightarrow> http_method \<Rightarrow> actor \<Rightarrow> string \<Rightarrow> server \<Rightarrow> reply \<times> server" where
  "node_read_or_delete cfg wd method opUser nodeName s =
     (if IsValidator cfg opUser \<or> \<not> IsAdmin cfg opUser \<and> method = MethodDelete \<and> \<not> is_own_node opUser nodeName
      then not_allowed_this new_response s
      else attempt (node_Get nodeName s) s (\<lambda>nerr. reply_error (msg nerr) StatusNotFound new_response s)
        (\<lambda>chefNode. reply_json (GMap (node_fields chefNode)) new_response
           (if method = MethodDelete then
              LogEvent cfg wd opUser (node_logobj chefNode) ''delete'' (node_Delete cfg chefNode s)
            else s)))"

text \<open>The name of the body of a PUT: taken from the URL if missing or empty, otherwise it must
  be the one of the URL. Writing into a nil map panics.\<close>

definition node_body_name :: "string \<Rightarrow> gobj option \<Rightarrow> gobj outcome" where
  "node_body_name nodeName body =
     (case body of
        None \<Rightarrow> Panic
      | Some nodeData \<Rightarrow>
          (let d1 = (if ghas nodeData ''name'' then nodeData else aput ''name'' (GStr nodeName) nodeData)
           in outcome_bind (ValidateAsString (gget d1 ''name'')) (\<lambda>jsonName.
                if nodeName \<noteq> jsonName \<and> jsonName \<noteq> [] then Errorf ''Node name mismatch.''
                else if jsonName = [] then Ok (aput ''name'' (GStr nodeName) d1)
                else Ok d1)))"

definition node_put :: "conf \<Rightarrow> world \<Rightarrow> request \<Rightarrow> actor \<Rightarrow> string \<Rightarrow> server \<Rightarrow> reply \<times> server" where
  "node_put cfg wd r opUser nodeName s =
     (if \<not> IsAdmin cfg opUser \<and> \<not> is_own_node opUser nodeName then not_allowed_this new_response s
      else attempt (parseObjJSON r) s (\<lambda>jerr. reply_error (msg jerr) StatusBadRequest new_response s)
        (\<lambda>body. attempt (node_Get nodeName s) s (\<lambda>kerr. reply_error (msg kerr) StatusNotFound new_response s)
          (\<lambda>chefNode. attempt (node_body_name nodeName body) s
             (\<lambda>e. reply_error (msg e) StatusBadRequest new_response s)
             (\<lambda>nodeData. attempt (node_UpdateFromJSON nodeData chefNode) s
                (\<lambda>nerr. reply_error (msg nerr) (status nerr) new_response s)
                (\<lambda>n1. reply_json (GMap (node_fields n1)) new_response
                        (LogEvent cfg wd opUser (node_logobj n1) ''modify'' (node_Save n1 s)))))))"

definition nodeHandler :: "conf \<Rightarrow> world \<Rightarrow> request \<Rightarrow> server \<Rightarrow> reply \<times> server" where
  "nodeHandler cfg wd r s =
     (let nodeName = drop 7 (r_Path r)
      in with_opUser r s (\<lambda>opUser.
           case r_Method r of
             MethodHead \<Rightarrow>
               (headChecking (Ok (node_DoesExist nodeName s)) (validator_forbidden cfg opUser) new_response, s)
           | MethodGet \<Rightarrow> node_read_or_delete cfg wd MethodGet opUser nodeName s
           | MethodDelete \<Rightarrow> node_read_or_delete cfg wd MethodDelete opUser nodeName s
           | MethodPut \<Rightarrow> node_put cfg wd r opUser nodeName s
           | _ \<Rightarrow> reply_error ''Unrecognized method!'' StatusMethodNotAllowed new_response s))"

definition node_post :: "conf \<Rightarrow> world \<Rightarrow> request \<Rightarrow> actor \<Rightarrow> server \<Rightarrow> reply \<times> server" where
  "node_post cfg wd r opUser s =
     (if IsValidator cfg opUser then not_allowed_take new_response s
      else attempt (parseObjJSON r) s (\<lambda>jerr. reply_error (msg jerr) StatusBadRequest new_response s)
        (\<lambda>body. let nodeData = reads body in
           attempt (ValidateAsString (gget nodeData ''name'')) s
             (\<lambda>sterr. reply_error (msg sterr) StatusBadRequest new_response s)
             (\<lambda>nodeName.
                (case node_Get nodeName s of
                   Panic \<Rightarrow> (Crash, s)
                 | Ok _ \<Rightarrow> reply_error ''Node already exists'' StatusConflict new_response s
                 | Err _ \<Rightarrow>
                     attempt (node_NewFromJSON nodeData s) s
                       (\<lambda>nerr. reply_error (msg nerr) (status nerr) new_response s)
                       (\<lambda>chefNode.
                          let (err, n1, s2) = node_UpdateStatus (w_now wd) ''new'' chefNode (node_Save chefNode s)
                          in attempt err s2 (\<lambda>e. reply_error (msg e) StatusInternalServerError new_response s2)
                               (\<lambda>_. reply_json (GStrMap [(''uri'', ObjURL wd ''nodes'' (nd_Name n1))])
                                      (WriteHeader 201 new_response)
                                      (LogEvent cfg wd opUser (node_logobj n1) ''create'' s2)))))))"

definition nodeHandling :: "conf \<Rightarrow> world \<Rightarrow> request \<Rightarrow> server \<Rightarrow> reply \<times> server" where
  "nodeHandling cfg wd r s =
     with_opUser r s (\<lambda>opUser.
       case r_Method r of
         MethodGet \<Rightarrow>
           (if IsValidator cfg opUser then not_allowed_take new_response s
            else reply_json (GStrMap (url_list wd ''nodes'' (node_GetList s))) new_response s)
       | MethodPost \<Rightarrow> node_post cfg wd r opUser s
       | _ \<Rightarrow> reply_error ''Method not allowed for nodes'' StatusMethodNotAllowed new_response s)"

subsection \<open>roles.go\<close>

definition role_read_or_delete :: "conf \<Rightarrow> world \<Rightarrow> http_method \<Rightarrow> actor \<Rightarrow> role \<Rightarrow> server \<Rightarrow> reply \<times> server" where
  "role_read_or_delete cfg wd method opUser chefRole s =
     (if IsValidator cfg opUser \<or> (\<not> IsAdmin cfg opUser \<and> method = MethodDelete)
      then not_allowed_this new_response s
      else reply_json (GMap (role_fields chefRole)) new_response
             (if method = MethodDelete then
                LogEvent cfg wd opUser (role_logobj chefRole) ''delete'' (role_Delete chefRole s)
              else s))"

definition role_body_name :: "string \<Rightarrow> gobj option \<Rightarrow> gobj outcome" where
  "role_body_name roleName body =
     (case body of
        None \<Rightarrow> Panic
      | Some roleData \<Rightarrow>
          (let d1 = (if ghas roleData ''name'' then roleData else aput ''name'' (GStr roleName) roleData)
           in outcome_bind (ValidateAsString (gget d1 ''name'')) (\<lambda>jsonName.
                (case gget d1 ''name'' of
                   GStr n \<Rightarrow> if roleName \<noteq> n then Errorf ''Role name mismatch''
                             else if jsonName = [] then Ok (aput ''name'' (GStr roleName) d1) else Ok d1
                 | _ \<Rightarrow> Panic))))"

definition role_put :: "conf \<Rightarrow> world \<Rightarrow> request \<Rightarrow> actor \<Rightarrow> string \<Rightarrow> role \<Rightarrow> server \<Rightarrow> reply \<times> server" where
  "role_put cfg wd r opUser roleName chefRole s =
     (if \<not> IsAdmin cfg opUser then not_allowed_this new_response s
      else attempt (parseObjJSON r) s (\<lambda>jerr. reply_error (msg jerr) StatusBadRequest new_response s)
        (\<lambda>body. attempt (role_body_name roleName body) s
           (\<lambda>e. reply_error (msg e) (status e) new_response s)
           (\<lambda>roleData. attempt (role_UpdateFromJSON roleData chefRole) s
              (\<lambda>nerr. reply_error (msg nerr) (status nerr) new_response s)
              (\<lambda>r1. reply_json (GMap (role_fields r1)) new_response
                      (LogEvent cfg wd opUser (role_logobj r1) ''modify'' (role_Save r1 s))))))"

text \<open>The run list of a role for an environment; a missing one is the nil slice.\<close>

definition env_run_list :: "string \<Rightarrow> role \<Rightarrow> gval" where
  "env_run_list environmentName chefRole =
     (if environmentName = ''_default'' then GStrs (ro_RunList chefRole)
      else (case map_of (ro_EnvRunLists chefRole) environmentName of None \<Rightarrow> GNil | Some l \<Rightarrow> GStrs l))"

text \<open>\<open>/roles/NAME/environments\<close> and \<open>/roles/NAME/environments/ENV\<close>.\<close>

definition role_environments ::
  "conf \<Rightarrow> http_method \<Rightarrow> actor \<Rightarrow> string list \<Rightarrow> role \<Rightarrow> server \<Rightarrow> reply \<times> server" where
  "role_environments cfg method opUser pathArray chefRole s =
     (let environmentName = (if length pathArray = 4 then pathArray ! 3 else [])
      in attempt (if length pathArray = 4 then outcome_bind (env_Get environmentName s) (\<lambda>_. Ok ()) else Ok ()) s
           (\<lambda>err. reply_error (msg err) StatusNotFound new_response s)
           (\<lambda>_. if method \<noteq> MethodGet then
                  reply_error ''Unrecognized method!'' StatusMethodNotAllowed new_response s
                else if IsValidator cfg opUser then not_allowed_this new_response s
                else if environmentName \<noteq> [] then
                  reply_json (GMap [(''run_list'', env_run_list environmentName chefRole)]) new_response s
                else reply_json (GStrs (''_default'' # map fst (ro_EnvRunLists chefRole))) new_response s))"

definition roleHandler :: "conf \<Rightarrow> world \<Rightarrow> request \<Rightarrow> server \<Rightarrow> reply \<times> server" where
  "roleHandler cfg wd r s =
     with_opUser r s (\<lambda>opUser.
       let pathArray = splitPath (r_Path r)
       in attempt (path_elem pathArray 1) s (\<lambda>_. (Crash, s)) (\<lambda>roleName.
            if r_Method r = MethodHead then
              (headChecking (Ok (role_DoesExist roleName s)) (validator_forbidden cfg opUser) new_response, s)
            else
              attempt (role_Get roleName s) s (\<lambda>err. reply_error (msg err) StatusNotFound new_response s)
                (\<lambda>chefRole.
                   if length pathArray = 2 then
                     (case r_Method r of
                        MethodGet \<Rightarrow> role_read_or_delete cfg wd MethodGet opUser chefRole s
                      | MethodDelete \<Rightarrow> role_read_or_delete cfg wd MethodDelete opUser chefRole s
                      | MethodPut \<Rightarrow> role_put cfg wd r opUser roleName chefRole s
                      | _ \<Rightarrow> reply_error ''Unrecognized method!'' StatusMethodNotAllowed new_response s)
                   else role_environments cfg (r_Method r) opUser pathArray chefRole s)))"

definition role_post :: "conf \<Rightarrow> world \<Rightarrow> request \<Rightarrow> actor \<Rightarrow> server \<Rightarrow> reply \<times> server" where
  "role_post cfg wd r opUser s =
     (if \<not> IsAdmin cfg opUser then not_allowed_take new_response s
      else attempt (parseObjJSON r) s (\<lambda>jerr. reply_error (msg jerr) StatusBadRequest new_response s)
        (\<lambda>body. let roleData = reads body in
           (case gget roleData ''name'' of
              GStr roleName \<Rightarrow>
                (case role_Get roleName s of
                   Panic \<Rightarrow> (Crash, s)
                 | Ok _ \<Rightarrow> reply_error ''Role already exists'' StatusConflict new_response s
                 | Err _ \<Rightarrow>
                     attempt (role_NewFromJSON roleData s) s
                       (\<lambda>nerr. reply_error (msg nerr) (status nerr) new_response s)
                       (\<lambda>chefRole.
                          reply_json (GStrMap [(''uri'', ObjURL wd ''roles'' (ro_Name chefRole))])
                            (WriteHeader 201 new_response)
                            (LogEvent cfg wd opUser (role_logobj chefRole) ''create'' (role_Save chefRole s))))
            | _ \<Rightarrow> reply_error ''Role name missing'' StatusBadRequest new_response s)))"

definition roleHandling :: "conf \<Rightarrow> world \<Rightarrow> request \<Rightarrow> server \<Rightarrow> reply \<times> server" where
  "roleHandling cfg wd r s =
     with_opUser r s (\<lambda>opUser.
       case r_Method r of
         MethodGet \<Rightarrow>
           (if IsValidator cfg opUser then not_allowed_take new_response s
            else reply_json (GStrMap (url_list wd ''roles'' (role_GetList s))) new_response s)
       | MethodPost \<Rightarrow> role_post cfg wd r opUser s
       | _ \<Rightarrow> reply_error ''Method not allowed for roles'' StatusMethodNotAllowed new_response s)"

end
