(* ===== verification/DataHandlers.thy ===== *)
theory DataHandlers
  imports ObjectHandlers
begin

text \<open>
  The handlers for data bags, sandboxes, uploaded files, events and node statuses:
  \<^verbatim>\<open>data.go\<close>, \<^verbatim>\<open>sandboxes.go\<close>, \<^verbatim>\<open>file_store.go\<close>, \<^verbatim>\<open>events.go\<close>, \<^verbatim>\<open>status.go\<close>.
\<close>

subsection \<open>data.go\<close>

definition databag_post :: "conf \<Rightarrow> world \<Rightarrow> request \<Rightarrow> actor \<Rightarrow> server \<Rightarrow> reply \<times> server" where
  "databag_post cfg wd r opUser s =
     (if \<not> IsAdmin cfg opUser then not_allowed_this new_response s
      else attempt (parseObjJSON r) s (\<lambda>jerr. reply_error (msg jerr) StatusBadRequest new_response s)
        (\<lambda>body.
           (case gget (reads body) ''name'' of
              GStr name \<Rightarrow>
                (if name = [] then reply_error ''Field 'name' missing'' StatusBadRequest new_response s
                 else
                   (case databag_Get name s of
                      Panic \<Rightarrow> (Crash, s)
                    | Ok _ \<Rightarrow> reply_error (''Data bag '' @ name @ '' already exists.'') StatusConflict new_response s
                    | Err _ \<Rightarrow>
                        (let (nerr, s1) = databag_New name s
                         in attempt nerr s1 (\<lambda>e. reply_error (msg e) (status e) new_response s1)
                              (\<lambda>chefDbag.
                                 reply_json (GMap [(''uri'', GStr (ObjURL wd ''data'' (db_Name chefDbag)))])
                                   (WriteHeader 201 new_response)
                                   (LogEvent cfg wd opUser (databag_logobj chefDbag) ''create''
                                      (databag_Save chefDbag s1))))))
            | _ \<Rightarrow> reply_error ''Field 'name' missing'' StatusBadRequest new_response s)))"

definition databags_handler :: "conf \<Rightarrow> world \<Rightarrow> request \<Rightarrow> actor \<Rightarrow> server \<Rightarrow> reply \<times> server" where
  "databags_handler cfg wd r opUser s =
     (case r_Method r of
        MethodGet \<Rightarrow>
          (if IsValidator cfg opUser then not_allowed_this new_response s
           else reply_json (GStrMap (url_list wd ''data'' (databag_GetList s))) new_response s)
      | MethodHead \<Rightarrow>
          (if IsValidator cfg opUser then (Reply (headResponse StatusForbidden new_response), s)
           else (Reply (headDefaultResponse new_response), s))
      | MethodPost \<Rightarrow> databag_post cfg wd r opUser s
      | _ \<Rightarrow> reply_error ''GET, POST'' StatusMethodNotAllowed new_response s)"

definition data_head :: "conf \<Rightarrow> actor \<Rightarrow> string list \<Rightarrow> string \<Rightarrow> server \<Rightarrow> reply \<times> server" where
  "data_head cfg opUser pathArray dbName s =
     (if length pathArray = 2 then
        (headChecking (Ok (databag_DoesExist dbName s)) (validator_forbidden cfg opUser) new_response, s)
      else attempt (databag_Get dbName s) s (\<lambda>err. (Reply (headResponse (status err) new_response), s))
        (\<lambda>chefDbag. (headChecking (Ok (DoesItemExist (pathArray ! 2) chefDbag)) (validator_forbidden cfg opUser)
                       new_response, s)))"

definition missing_bag_text :: "http_method \<Rightarrow> string list \<Rightarrow> string \<Rightarrow> string \<Rightarrow> string" where
  "missing_bag_text method pathArray dbName emsg =
     (if method = MethodPost then
        ''No data bag '' @ sq dbName @ '' could be found. Please create this data bag before adding items to it.''
      else if length pathArray = 3 then
        (if method = MethodDelete then ''Cannot load data bag '' @ dbName @ '' item '' @ pathArray ! 2
         else ''Cannot load data bag item '' @ pathArray ! 2 @ '' for data bag '' @ dbName)
      else emsg)"

text \<open>The body of a data bag item request: an error of the decoder is not looked at and leaves
  an empty map.\<close>

definition item_body :: "request \<Rightarrow> gobj outcome" where
  "item_body r =
     (case r_JSON r of
        Ok body \<Rightarrow> RawDataBagJSON (reads body)
      | Err _ \<Rightarrow> RawDataBagJSON []
      | Panic \<Rightarrow> Panic)"

definition item_response :: "databag_item \<Rightarrow> gobj" where
  "item_response dbitem =
     aput ''chef_type'' (GStr (di_ChefType dbitem))
       (aput ''data_bag'' (GStr (di_DataBagName dbitem)) (di_RawData dbitem))"

definition databag_handler :: "conf \<Rightarrow> world \<Rightarrow> request \<Rightarrow> actor \<Rightarrow> databag \<Rightarrow> server \<Rightarrow> reply \<times> server" where
  "databag_handler cfg wd r opUser chefDbag s =
     (case r_Method r of
        MethodGet \<Rightarrow>
          reply_json (GStrMap (map (\<lambda>k. (k, CustomObjURL wd ''data'' (db_Name chefDbag) k)) (ListDBItems chefDbag)))
            new_response s
      | MethodDelete \<Rightarrow>
          reply_json (GMap [(''chef_type'', GStr ''data_bag''), (''json_class'', GStr ''Chef::DataBag''),
              (''name'', GStr (db_Name chefDbag))]) new_response
            (LogEvent cfg wd opUser (databag_logobj (chefDbag\<lparr>db_DataBagItems := []\<rparr>)) ''delete''
               (databag_Delete chefDbag s))
      | MethodPost \<Rightarrow>
          attempt (item_body r) s (\<lambda>_. (Crash, s))
            (\<lambda>rawData.
               let (nerr, db1, s1) = NewDBItem rawData chefDbag s
               in attempt nerr s1 (\<lambda>e. reply_error (msg e) (status e) new_response s1)
                    (\<lambda>dbitem. reply_json (GMap (item_response dbitem)) (WriteHeader 201 new_response)
                       (LogEvent cfg wd opUser (item_logobj dbitem) ''create'' s1)))
      | _ \<Rightarrow> reply_error ''GET, DELETE, POST'' StatusMethodNotAllowed new_response s)"

definition item_put :: "conf \<Rightarrow> world \<Rightarrow> request \<Rightarrow> actor \<Rightarrow> databag \<Rightarrow> string \<Rightarrow> server \<Rightarrow> reply \<times> server" where
  "item_put cfg wd r opUser chefDbag dbItemName s =
     attempt (item_body r) s (\<lambda>_. (Crash, s))
       (\<lambda>rawData.
          let update =
            (let (err, db1, s1) = UpdateDBItem dbItemName rawData chefDbag s
             in attempt err s1 (\<lambda>e. reply_error (msg e) StatusInternalServerError new_response s1)
                  (\<lambda>dbitem. reply_json (GMap (aput ''id'' (GStr dbItemName) (item_response dbitem))) new_response
                     (LogEvent cfg wd opUser (item_logobj dbitem) ''modify'' s1)))
          in if ghas rawData ''id'' then
               (case gget rawData ''id'' of
                  GStr rawID \<Rightarrow>
                    if rawID \<noteq> dbItemName then
                      reply_error ''DataBagItem name mismatch.'' StatusBadRequest new_response s
                    else update
                | _ \<Rightarrow> reply_error ''Bad request'' StatusBadRequest new_response s)
             else update)"

definition item_handler :: "conf \<Rightarrow> world \<Rightarrow> request \<Rightarrow> actor \<Rightarrow> databag \<Rightarrow> string \<Rightarrow> server \<Rightarrow> reply \<times> server" where
  "item_handler cfg wd r opUser chefDbag dbItemName s =
     attempt (GetDBItem dbItemName chefDbag) s
       (\<lambda>_. reply_error
          (if r_Method r \<noteq> MethodDelete then
             ''Cannot load data bag item '' @ dbItemName @ '' for data bag '' @ db_Name chefDbag
           else ''Cannot load data bag '' @ db_Name chefDbag @ '' item '' @ dbItemName)
          StatusNotFound new_response s)
       (\<lambda>dbi.
          (case r_Method r of
             MethodGet \<Rightarrow> reply_json (GMap (di_RawData dbi)) new_response s
           | MethodDelete \<Rightarrow>
               reply_json (item_json dbi) new_response
                 (LogEvent cfg wd opUser (item_logobj dbi) ''delete'' (snd (DeleteDBItem dbItemName chefDbag s)))
           | MethodPut \<Rightarrow> item_put cfg wd r opUser chefDbag dbItemName s
           | _ \<Rightarrow> reply_error ''GET, DELETE, PUT'' StatusMethodNotAllowed new_response s))"

definition dataHandler :: "conf \<Rightarrow> world \<Rightarrow> request \<Rightarrow> server \<Rightarrow> reply \<times> server" where
  "dataHandler cfg wd r s =
     (let pathArray = splitPath (r_Path r); n = length pathArray; method = r_Method r
      in with_opUser r s (\<lambda>opUser.
           if n = 1 then databags_handler cfg wd r opUser s
           else
             (let dbName = pathArray ! 1
              in if (n = 2 \<and> method = MethodPut) \<or> (n = 3 \<and> method = MethodPost) then
                   reply_error ''Method not allowed'' StatusMethodNotAllowed new_response s
                 else if IsValidator cfg opUser \<or> (\<not> IsAdmin cfg opUser \<and> method \<noteq> MethodGet \<and> method \<noteq> MethodHead) then
                   not_allowed_this new_response s
                 else if method = MethodHead then data_head cfg opUser pathArray dbName s
                 else
                   attempt (databag_Get dbName s) s
                     (\<lambda>err. reply_error (missing_bag_text method pathArray dbName (msg err)) (status err) new_response s)
                     (\<lambda>chefDbag.
                        if n = 2 then databag_handler cfg wd r opUser chefDbag s
                        else item_handler cfg wd r opUser chefDbag (pathArray ! 2) s))))"

subsection \<open>sandboxes.go\<close>

definition StatusServiceUnavailable :: int where "StatusServiceUnavailable = 503"

definition sandbox_post :: "conf \<Rightarrow> world \<Rightarrow> request \<Rightarrow> actor \<Rightarrow> string list \<Rightarrow> server \<Rightarrow> reply \<times> server" where
  "sandbox_post cfg wd r opUser pathArray s =
     (if length pathArray \<noteq> 1 then reply_error ''Bad request.'' StatusMethodNotAllowed new_response s
      else if \<not> IsAdmin cfg opUser then not_allowed_take new_response s
      else attempt (parseObjJSON r) s (\<lambda>jerr. reply_error (msg jerr) StatusBadRequest new_response s)
        (\<lambda>body.
           (case gget (reads body) ''checksums'' of
              GMap sboxHash \<Rightarrow>
                (if sboxHash = [] \<or> (\<exists>p \<in> set sboxHash. snd p \<noteq> GNil) then
                   reply_error ''Bad checksums!'' StatusBadRequest new_response s
                 else attempt (sandbox_New (w_ids wd) (w_now wd) sboxHash s) s
                   (\<lambda>err. reply_error (msg err) StatusBadRequest new_response s)
                   (\<lambda>sbox. let s1 = sandbox_Save sbox s in
                      attempt (UploadChkList (w_baseURL wd) sbox s1) s1 (\<lambda>_. (Crash, s1))
                        (\<lambda>chks. reply_json
                           (GMap [(''uri'', GStr (ObjURL wd ''sandboxes'' (sb_ID sbox))),
                              (''sandbox_id'', GStr (sb_ID sbox)),
                              (''checksums'', GMap (map (\<lambda>(k, m). (k, GMap m)) chks))])
                           (WriteHeader 201 new_response) s1)))
            | _ \<Rightarrow> reply_error ''Field 'checksums' missing'' StatusBadRequest new_response s)))"

definition sandbox_put :: "conf \<Rightarrow> world \<Rightarrow> request \<Rightarrow> actor \<Rightarrow> string list \<Rightarrow> server \<Rightarrow> reply \<times> server" where
  "sandbox_put cfg wd r opUser pathArray s =
     (if length pathArray \<noteq> 2 then reply_error ''Bad request.'' StatusMethodNotAllowed new_response s
      else if \<not> IsAdmin cfg opUser then not_allowed_take new_response s
      else attempt (parseObjJSON r) s (\<lambda>jerr. reply_error (msg jerr) StatusBadRequest new_response s)
        (\<lambda>body.
           (case gget (reads body) ''is_completed'' of
              GBool sboxCommit \<Rightarrow>
                attempt (sandbox_Get (pathArray ! 1) s) s (\<lambda>err. reply_error (msg err) StatusNotFound new_response s)
                  (\<lambda>sbox. attempt (IsComplete sbox s) s
                     (\<lambda>err. reply_error (msg err) StatusServiceUnavailable new_response s)
                     (\<lambda>_. let sbox1 = sbox\<lparr>sb_Completed := sboxCommit\<rparr>
                         in reply_json
                              (GMap [(''guid'', GStr (sb_ID sbox1)), (''name'', GStr (sb_ID sbox1)),
                                 (''is_completed'', GBool (sb_Completed sbox1)),
                                 (''create_time'', GStr (w_format wd ''2006-01-02T15:04:05+00:00'' (sb_CreationTime sbox1))),
                                 (''checksums'', GStrs (sb_Checksums sbox1))])
                              new_response (sandbox_Save sbox1 s)))
            | _ \<Rightarrow> reply_error ''Bad request'' StatusBadRequest new_response s)))"

definition sandboxHandler :: "conf \<Rightarrow> world \<Rightarrow> request \<Rightarrow> server \<Rightarrow> reply \<times> server" where
  "sandboxHandler cfg wd r s =
     (let pathArray = splitPath (r_Path r)
      in with_opUser r s (\<lambda>opUser.
           case r_Method r of
             MethodPost \<Rightarrow> sandbox_post cfg wd r opUser pathArray s
           | MethodPut \<Rightarrow> sandbox_put cfg wd r opUser pathArray s
           | _ \<Rightarrow> reply_error ''Unrecognized method!'' StatusMethodNotAllowed new_response s))"

subsection \<open>file\_store.go\<close>

text \<open>The body of an upload is the whole of \<open>r_Body\<close>; \<open>ServeHTTP\<close> has refused longer ones. A file
  is sent as the value of its bytes.\<close>

text \<open>The limit of \<open>MaxBytesReader\<close> is never met: exactly \<open>ContentLength\<close> bytes are read, and \<open>ServeHTTP\<close>
  refuses lengths above the limit.\<close>

definition fileStoreHandler :: "world \<Rightarrow> request \<Rightarrow> server \<Rightarrow> reply \<times> server" where
  "fileStoreHandler wd r s =
     (let chksum = drop 12 (r_Path r);
          upload =
            (case file_Get chksum s of
               Panic \<Rightarrow> (Crash, s)
             | Ok _ \<Rightarrow> reply_error (''File with checksum '' @ chksum @ '' already exists.'') 200 new_response s
             | Err _ \<Rightarrow>
                 attempt (file_New (w_md5 wd) chksum (r_Body r) (r_ContentLength r) s) s
                   (\<lambda>err. reply_error (msg err) StatusInternalServerError new_response s)
                   (\<lambda>f. reply_json (GStrMap [(fs_Chksum f, ''File with checksum '' @ fs_Chksum f @ '' uploaded.'')])
                          new_response (file_Save f s)))
      in case r_Method r of
           MethodGet \<Rightarrow>
             attempt (file_Get chksum s) s (\<lambda>err. (Reply (http_Error (msg err) StatusNotFound new_response), s))
               (\<lambda>f. (Reply (Encode (GStr (fs_Data f)) new_response), s))
         | MethodHead \<Rightarrow>
             attempt (file_Get chksum s) s (\<lambda>err. (Reply (http_Error (msg err) StatusNotFound new_response), s))
               (\<lambda>_. (Reply (headResponse 200 new_response), s))
         | MethodPut \<Rightarrow> upload
         | MethodPost \<Rightarrow> upload
         | _ \<Rightarrow> reply_error ''Unrecognized method!'' StatusMethodNotAllowed new_response s)"

subsection \<open>events.go\<close>

text \<open>An optional non-negative number of the query; \<open>strconv.Atoi\<close> reads its first value.\<close>

definition form_number :: "request \<Rightarrow> string \<Rightarrow> string \<Rightarrow> string \<Rightarrow> int option outcome" where
  "form_number r k conversion negative =
     (case map_of (r_Form r) k of
        None \<Rightarrow> Ok None
      | Some [] \<Rightarrow> Panic
      | Some (v # _) \<Rightarrow>
          (case Atoi v of
             (_, Some _) \<Rightarrow> Errorf conversion
           | (i, None) \<Rightarrow> if i < 0 then Errorf negative else Ok (Some i)))"

fun form_params :: "request \<Rightarrow> string list \<Rightarrow> (string \<times> string) list outcome" where
  "form_params r [] = Ok []"
| "form_params r (v # vs) =
     outcome_bind (form_params r vs) (\<lambda>ps.
       (case map_of (r_Form r) v of
          None \<Rightarrow> Ok ps
        | Some [] \<Rightarrow> Panic
        | Some (x # _) \<Rightarrow> Ok ((v, x) # ps)))"

definition event_json :: "world \<Rightarrow> loginfo \<Rightarrow> gval" where
  "event_json wd le =
     GMap [(''actor_info'', GStr (li_ActorInfo le)), (''actor_type'', GStr (li_ActorType le)),
       (''time'', GStr (w_format wd ''2006-01-02T15:04:05.999999999Z07:00'' (li_Time le))),
       (''action'', GStr (li_Action le)), (''object_type'', GStr (li_ObjectType le)),
       (''object_name'', GStr (li_ObjectName le)), (''extended_info'', GStr (li_ExtendedInfo le)),
       (''id'', GNum (string_of_int (li_ID le)))]"

definition event_list_get ::
  "conf \<Rightarrow> world \<Rightarrow> actor \<Rightarrow> int \<Rightarrow> int option \<Rightarrow> (string \<times> string) list \<Rightarrow> server \<Rightarrow> reply \<times> server" where
  "event_list_get cfg wd opUser offset limit searchParams s =
     (if \<not> IsAdmin cfg opUser then reply_error ''You must be an admin to do that'' StatusForbidden new_response s
      else attempt (GetLogInfos (w_now wd) searchParams (case limit of None \<Rightarrow> [offset] | Some l \<Rightarrow> [offset, l]) s) s
        (\<lambda>err. reply_error (msg err) StatusBadRequest new_response s)
        (\<lambda>leList. reply_json
           (GArr (map (\<lambda>v. GMap [(''event'', event_json wd v),
                 (''url'', GStr (CustomURL wd (''/events/'' @ string_of_int (li_ID v))))]) leList))
           new_response s))"

definition eventListHandler :: "conf \<Rightarrow> world \<Rightarrow> request \<Rightarrow> server \<Rightarrow> reply \<times> server" where
  "eventListHandler cfg wd r s =
     with_opUser r s (\<lambda>opUser.
     attempt (form_number r ''offset'' ''invalid offset conversion to int'' ''invalid negative offset value'') s
       (\<lambda>e. reply_error (msg e) StatusBadRequest new_response s) (\<lambda>offset.
     attempt (form_number r ''limit'' ''invalid limit conversion to int'' ''invalid negative limit value'') s
       (\<lambda>e. reply_error (msg e) StatusBadRequest new_response s) (\<lambda>limit.
     attempt (form_number r ''purge'' ''invalid purge from conversion to int'' ''invalid negative purgeFrom value'') s
       (\<lambda>e. reply_error (msg e) StatusBadRequest new_response s) (\<lambda>purge.
     attempt (form_params r [''from'', ''until'', ''action'', ''object_type'', ''object_name'', ''doer'']) s
       (\<lambda>_. (Crash, s)) (\<lambda>searchParams.
       case r_Method r of
         MethodHead \<Rightarrow>
           (if \<not> IsAdmin cfg opUser then (Reply (headResponse StatusForbidden new_response), s)
            else (Reply (headDefaultResponse new_response), s))
       | MethodGet \<Rightarrow>
           event_list_get cfg wd opUser (case offset of None \<Rightarrow> 0 | Some i \<Rightarrow> i) limit searchParams s
       | MethodDelete \<Rightarrow>
           (if \<not> IsAdmin cfg opUser then reply_error ''You must be an admin to do that'' StatusForbidden new_response s
            else
              (let (purged, s1) = PurgeLogInfos (case purge of None \<Rightarrow> 0 | Some i \<Rightarrow> i) s
               in reply_json (GStrMap [(''purged'', ''Purged '' @ string_of_nat purged @ '' logged events'')])
                    new_response s1))
       | _ \<Rightarrow> reply_error ''Method not allowed'' StatusMethodNotAllowed new_response s)))))"

text \<open>HEAD by anyone but an administrator returns without writing a status.\<close>

definition eventHandler :: "conf \<Rightarrow> world \<Rightarrow> request \<Rightarrow> server \<Rightarrow> reply \<times> server" where
  "eventHandler cfg wd r s =
     with_opUser r s (\<lambda>opUser.
       let eventIDstr = drop 8 (r_Path r)
       in case Atoi eventIDstr of
            (_, Some e) \<Rightarrow>
              reply_error (''strconv.Atoi: parsing '' @ [CHR 0x22] @ eventIDstr @ [CHR 0x22] @ '': '' @ num_error_text e)
                StatusBadRequest new_response s
          | (eventID, None) \<Rightarrow>
              (case r_Method r of
                 MethodHead \<Rightarrow>
                   (if \<not> IsAdmin cfg opUser then (Reply new_response, s)
                    else (headChecking (loginfo_DoesExist eventIDstr s) (Ok ()) new_response, s))
               | MethodGet \<Rightarrow>
                   (if \<not> IsAdmin cfg opUser then
                      reply_error ''You must be an admin to do that'' StatusForbidden new_response s
                    else attempt (loginfo_Get eventID s) s (\<lambda>err. reply_error (msg err) StatusNotFound new_response s)
                      (\<lambda>le. reply_json (event_json wd le) new_response s))
               | MethodDelete \<Rightarrow>
                   (if \<not> IsAdmin cfg opUser then
                      reply_error ''You must be an admin to do that'' StatusForbidden new_response s
                    else attempt (loginfo_Get eventID s) s (\<lambda>err. reply_error (msg err) StatusNotFound new_response s)
                      (\<lambda>le. reply_json (event_json wd le) new_response (loginfo_Delete le s)))
               | _ \<Rightarrow> reply_error ''Method not allowed'' StatusMethodNotAllowed new_response s))"

subsection \<open>status.go\<close>

definition status_json :: "world \<Rightarrow> node_status \<Rightarrow> (string \<times> string) list" where
  "status_json wd ns = status_ToJSON (w_format wd ''2006-01-02T15:04:05Z07:00'') ns"

fun all_statuses :: "world \<Rightarrow> node list \<Rightarrow> server \<Rightarrow> gval list outcome \<times> server" where
  "all_statuses wd [] s = (Ok [], s)"
| "all_statuses wd (n # nodes) s =
     (let (res, s1) = LatestStatus n s
      in case res of
           Panic \<Rightarrow> (Panic, s1)
         | Err _ \<Rightarrow>
             (let (rest, s2) = all_statuses wd nodes s1
              in (outcome_bind rest (\<lambda>l. Ok (GStrMap [(''node_name'', nd_Name n), (''status'', ''no record'')] # l)), s2))
         | Ok ns \<Rightarrow>
             (let (rest, s2) = all_statuses wd nodes s1
              in (outcome_bind rest (\<lambda>l. Ok (GStrMap (aput ''url'' (CustomURL wd (''/status/node/'' @ nd_Name n @ ''/latest''))
                    (status_json wd ns)) # l)), s2)))"

definition status_all :: "world \<Rightarrow> string list \<Rightarrow> server \<Rightarrow> reply \<times> server" where
  "status_all wd pathArray s =
     (if length pathArray \<noteq> 3 then reply_error ''Bad request'' StatusBadRequest new_response s
      else if pathArray ! 2 \<noteq> ''nodes'' then
        reply_error ''Invalid object to get status for'' StatusBadRequest new_response s
      else attempt (AllNodes s) s (\<lambda>_. (Crash, s))
        (\<lambda>nodes. let (sr, s1) = all_statuses wd nodes s
                 in attempt sr s1 (\<lambda>_. (Crash, s1)) (\<lambda>l. reply_json (GArr l) new_response s1)))"

definition status_node :: "world \<Rightarrow> string list \<Rightarrow> server \<Rightarrow> reply \<times> server" where
  "status_node wd pathArray s =
     (if length pathArray \<noteq> 4 then reply_error ''Bad request'' StatusBadRequest new_response s
      else attempt (node_Get (pathArray ! 2) s) s (\<lambda>gerr. reply_error (msg gerr) (status gerr) new_response s)
        (\<lambda>n. if pathArray ! 3 = ''latest'' then
               (let (res, s1) = LatestStatus n s
                in attempt res s1 (\<lambda>err. reply_error (msg err) StatusInternalServerError new_response s1)
                     (\<lambda>ns. reply_json (GStrMap (status_json wd ns)) new_response s1))
             else if pathArray ! 3 = ''all'' then
               attempt (AllStatuses n s) s (\<lambda>err. reply_error (msg err) StatusInternalServerError new_response s)
                 (\<lambda>nss. reply_json (GArr (map (\<lambda>ns. GStrMap (status_json wd ns)) nss)) new_response s)
             else reply_error ''Bad request'' StatusBadRequest new_response s))"

definition statusHandler :: "conf \<Rightarrow> world \<Rightarrow> request \<Rightarrow> server \<Rightarrow> reply \<times> server" where
  "statusHandler cfg wd r s =
     with_opUser r s (\<lambda>opUser.
       if \<not> IsAdmin cfg opUser then
         reply_error ''You must be an admin to do that'' StatusForbidden new_response s
       else
         (let pathArray = splitPath (r_Path r)
          in if length pathArray < 3 then reply_error ''Bad request'' StatusBadRequest new_response s
             else (case r_Method r of
                     MethodHead \<Rightarrow> (Reply (headDefaultResponse new_response), s)
                   | MethodGet \<Rightarrow>
                       (if pathArray ! 1 = ''all'' then status_all wd pathArray s
                        else if pathArray ! 1 = ''node'' then status_node wd pathArray s
                        else reply_error ''Bad request'' StatusBadRequest new_response s)
                   | _ \<Rightarrow> reply_error ''Method not allowed'' StatusMethodNotAllowed new_response s)))"

end
