(* ===== verification/Depends.thy ===== *)
theory Depends
  imports Cookbook
begin

text \<open>
  Resolution of the cookbooks a run list needs: \<open>DependsCookbooks\<close> and \<open>getDependencies\<close> of
  \<^verbatim>\<open>cookbook/cookbook.go\<close>, the constraint functions of \<^verbatim>\<open>cookbook/versioning.go\<close>,
  \<^verbatim>\<open>cookbook/deperr.go\<close>, and what they use of \<^verbatim>\<open>depgraph\<close> and \<^verbatim>\<open>digraph\<close>.

  The parameter \<open>vl\<close> is the package \<open>go-version\<close>: parsing a text into constraints (no
  constraints if it is malformed), checking a version against one, and printing one.

  The nouns of the graph are kept by name. Their dependencies are named after source and
  target, so the dependencies of a noun are a list of targets with the parsed constraints.
\<close>

record 'c verlib =
  vl_NewConstraint :: "string \<Rightarrow> 'c list"
  vl_Check :: "'c \<Rightarrow> string \<Rightarrow> bool"
  vl_String :: "'c \<Rightarrow> string"

record 'c noun =
  nn_version :: string
  nn_constraint :: "'c list"
  nn_notFound :: bool
  nn_noVersion :: bool
  nn_deps :: "(string \<times> 'c list) list"

record 'c depgraph =
  dg_nodes :: "(string \<times> 'c noun) list"
  dg_shelf :: "(string \<times> cookbook) list"

definition new_noun :: "'c noun" where
  "new_noun = \<lparr>nn_version = [], nn_constraint = [], nn_notFound = False, nn_noVersion = False, nn_deps = []\<rparr>"

definition set_noun :: "string \<Rightarrow> 'c noun \<Rightarrow> 'c depgraph \<Rightarrow> 'c depgraph" where
  "set_noun r n g = g\<lparr>dg_nodes := aput r n (dg_nodes g)\<rparr>"

definition set_shelf :: "string \<Rightarrow> cookbook \<Rightarrow> 'c depgraph \<Rightarrow> 'c depgraph" where
  "set_shelf r cb g = g\<lparr>dg_shelf := aput r cb (dg_shelf g)\<rparr>"

subsection \<open>versioning.go: constraints\<close>

definition constraintPresent :: "'c verlib \<Rightarrow> 'c list \<Rightarrow> string \<Rightarrow> bool" where
  "constraintPresent vl constraints cons = list_ex (\<lambda>c. vl_String vl c = cons) constraints"

definition appendConstraint :: "'c verlib \<Rightarrow> 'c list \<Rightarrow> string \<Rightarrow> 'c list" where
  "appendConstraint vl constraints cons =
     (if constraintPresent vl constraints cons then constraints
      else constraints @ vl_NewConstraint vl cons)"

definition checkDependency :: "'c noun \<Rightarrow> string \<Rightarrow> bool" where
  "checkDependency n cbName = list_ex (\<lambda>d. fst d = cbName) (nn_deps n)"

definition constraints_String :: "'c verlib \<Rightarrow> 'c list \<Rightarrow> string" where
  "constraints_String vl cs = join_with '','' (map (vl_String vl) cs)"

text \<open>A nil list of constraints means no constraint at all.\<close>

definition nil_constraints :: "'c list \<Rightarrow> 'c list option" where
  "nil_constraints cs = (if cs = [] then None else Some cs)"

subsection \<open>getDependencies\<close>

text \<open>The end of an iteration: add the constraint, choose a version, and drop the
  dependencies of a noun whose version changes. A version that comes back is visited next.\<close>

definition resolve_dep ::
  "'c verlib \<Rightarrow> string \<Rightarrow> string \<Rightarrow> cookbook \<Rightarrow> 'c noun \<Rightarrow> 'c depgraph \<Rightarrow> ('c depgraph \<times> cookbook_version option) outcome" where
  "resolve_dep vl r c depCb rn g =
     (let rn1 = rn\<lparr>nn_constraint := appendConstraint vl (nn_constraint rn) c\<rparr>;
          (res, cb') = latestMultiConstraint (vl_Check vl) (nil_constraints (nn_constraint rn1)) depCb
      in outcome_bind res (\<lambda>depCbv.
           (case depCbv of
              None \<Rightarrow> Ok (set_noun r (rn1\<lparr>nn_noVersion := True\<rparr>) (set_shelf r cb' g), None)
            | Some v \<Rightarrow>
                (let rn2 = (if nn_version rn1 \<noteq> [] \<and> nn_version rn1 \<noteq> cv_Version v
                            then rn1\<lparr>nn_deps := []\<rparr> else rn1)
                 in Ok (set_noun r (rn2\<lparr>nn_version := cv_Version v\<rparr>) (set_shelf r cb' g), Some v)))))"

text \<open>One iteration of the loop over the dependencies of the version of cookbook \<open>name\<close>.\<close>

definition visit_dep ::
  "'c verlib \<Rightarrow> server \<Rightarrow> string \<Rightarrow> string \<Rightarrow> gval \<Rightarrow> 'c depgraph \<Rightarrow> ('c depgraph \<times> cookbook_version option) outcome" where
  "visit_dep vl s name r c2 g =
     (if (case map_of (dg_nodes g) r of None \<Rightarrow> False | Some n \<Rightarrow> nn_noVersion n \<or> nn_notFound n)
      then Ok (g, None)
      else
        (case c2 of
           GStr c \<Rightarrow>
             (let g1 = (if map_of (dg_nodes g) r = None then set_noun r new_noun g else g)
              in case map_of (dg_nodes g1) name of
                   None \<Rightarrow> Panic
                 | Some src \<Rightarrow>
                     (let dt = checkDependency src r;
                          g2 = set_noun name (src\<lparr>nn_deps := aput r (vl_NewConstraint vl c) (nn_deps src)\<rparr>) g1;
                          rn = (case map_of (dg_nodes g2) r of None \<Rightarrow> new_noun | Some n \<Rightarrow> n)
                      in case map_of (dg_shelf g2) r of
                           Some depCb \<Rightarrow>
                             (if dt \<and> constraintPresent vl (nn_constraint rn) c then Ok (g2, None)
                              else resolve_dep vl r c depCb rn g2)
                         | None \<Rightarrow>
                             outcome_bind (cookbook_Get r s) (\<lambda>found.
                               (case found of
                                  None \<Rightarrow>
                                    Ok (set_noun r (rn\<lparr>nn_notFound := True,
                                          nn_constraint := appendConstraint vl (nn_constraint rn) c\<rparr>) g2, None)
                                | Some depCb \<Rightarrow> resolve_dep vl r c depCb rn g2))))
         | _ \<Rightarrow> Panic))"

definition dep_list :: "cookbook_version \<Rightarrow> gobj outcome" where
  "dep_list cbv = (case gget (cv_Metadata cbv) ''dependencies'' of GMap depList \<Rightarrow> Ok depList | _ \<Rightarrow> Panic)"

text \<open>The recursion need not end; \<open>None\<close> is a call that never returns.\<close>

partial_function (option) getDependencies ::
  "'c verlib \<Rightarrow> server \<Rightarrow> string \<Rightarrow> gobj \<Rightarrow> 'c depgraph \<Rightarrow> 'c depgraph outcome option" where
  "getDependencies vl s name depList g =
     (case depList of
        [] \<Rightarrow> Some (Ok g)
      | (r, c2) # rest \<Rightarrow>
          (case visit_dep vl s name r c2 g of
             Err e \<Rightarrow> Some (Err e)
           | Panic \<Rightarrow> Some Panic
           | Ok (g1, None) \<Rightarrow> getDependencies vl s name rest g1
           | Ok (g1, Some depCbv) \<Rightarrow>
               (case dep_list depCbv of
                  Err e \<Rightarrow> Some (Err e)
                | Panic \<Rightarrow> Some Panic
                | Ok dl \<Rightarrow>
                    Option.bind (getDependencies vl s (cv_CookbookName depCbv) dl g1)
                      (\<lambda>res. case res of
                         Ok g2 \<Rightarrow> getDependencies vl s name rest g2
                       | Err e \<Rightarrow> Some (Err e)
                       | Panic \<Rightarrow> Some Panic))))"

declare getDependencies.simps [code]

subsection \<open>The run list\<close>

fun before_colons :: "string \<Rightarrow> string" where
  "before_colons (a # b # cs) = (if a = CHR '':'' \<and> b = CHR '':'' then [] else a # before_colons (b # cs))"
| "before_colons cs = cs"

text \<open>The name and the constraint of an entry \<open>NAME\<close>, \<open>NAME::RECIPE\<close> or \<open>NAME@VERSION\<close>.\<close>

definition run_list_name :: "string \<Rightarrow> string" where
  "run_list_name cbV = before_colons (hd (split_on (CHR ''@'') cbV))"

definition run_list_constraint :: "'c verlib \<Rightarrow> string \<Rightarrow> 'c list" where
  "run_list_constraint vl cbV =
     (case split_on (CHR ''@'') cbV of [_, v] \<Rightarrow> vl_NewConstraint vl (''= '' @ v) | _ \<Rightarrow> [])"

definition run_list_nodes :: "'c verlib \<Rightarrow> string list \<Rightarrow> (string \<times> 'c noun) list" where
  "run_list_nodes vl runList =
     fold (\<lambda>cbV m. aput (run_list_name cbV) (new_noun\<lparr>nn_constraint := run_list_constraint vl cbV\<rparr>) m) runList []"

definition env_nodes :: "'c verlib \<Rightarrow> (string \<times> string) list \<Rightarrow> (string \<times> 'c noun) list \<Rightarrow> (string \<times> 'c noun) list" where
  "env_nodes vl envConstraints nodes =
     fold (\<lambda>(k, ec) m. (case map_of m k of
         None \<Rightarrow> m
       | Some n \<Rightarrow> aput k (n\<lparr>nn_constraint := appendConstraint vl (nn_constraint n) ec\<rparr>) m)) envConstraints nodes"

text \<open>The loop over the run list.\<close>

fun resolve_run_list ::
  "'c verlib \<Rightarrow> server \<Rightarrow> string list \<Rightarrow> 'c depgraph \<Rightarrow> 'c depgraph outcome option" where
  "resolve_run_list vl s [] g = Some (Ok g)"
| "resolve_run_list vl s (cbName # runListRef) g =
     (case map_of (dg_nodes g) cbName of
        None \<Rightarrow> Some Panic
      | Some n \<Rightarrow>
          (if map_of (dg_shelf g) cbName \<noteq> None \<or> nn_notFound n then resolve_run_list vl s runListRef g
           else
             (case cookbook_Get cbName s of
                Err e \<Rightarrow> Some (Err e)
              | Panic \<Rightarrow> Some Panic
              | Ok None \<Rightarrow> resolve_run_list vl s runListRef (set_noun cbName (n\<lparr>nn_notFound := True\<rparr>) g)
              | Ok (Some cb) \<Rightarrow>
                  (case latestMultiConstraint (vl_Check vl) (nil_constraints (nn_constraint n)) cb of
                     (Err e, _) \<Rightarrow> Some (Err e)
                   | (Panic, _) \<Rightarrow> Some Panic
                   | (Ok None, cb') \<Rightarrow>
                       resolve_run_list vl s runListRef
                         (set_noun cbName (n\<lparr>nn_noVersion := True\<rparr>) (set_shelf cbName cb' g))
                   | (Ok (Some cbv), cb') \<Rightarrow>
                       (case dep_list cbv of
                          Err e \<Rightarrow> Some (Err e)
                        | Panic \<Rightarrow> Some Panic
                        | Ok dl \<Rightarrow>
                            Option.bind
                              (getDependencies vl s (cv_CookbookName cbv) dl
                                 (set_noun cbName (n\<lparr>nn_version := cv_Version cbv\<rparr>) (set_shelf cbName cb' g)))
                              (\<lambda>res. case res of
                                 Ok g2 \<Rightarrow> resolve_run_list vl s runListRef g2
                               | Err e \<Rightarrow> Some (Err e)
                               | Panic \<Rightarrow> Some Panic))))))"

subsection \<open>digraph: DepthFirstWalk\<close>

text \<open>\<open>frontier\<close> is the stack with its top first; the edges of a visited node are pushed in
  reverse order, so they are popped in order. The result lists the nodes visited.\<close>

definition edges_of :: "('n \<times> 'n list) list \<Rightarrow> 'n \<Rightarrow> 'n list" where
  "edges_of graph n = (case map_of graph n of None \<Rightarrow> [] | Some ts \<Rightarrow> ts)"

lemma dfs_measure:
  assumes "current \<notin> set seen" "map_of graph current = Some ts"
  shows "card (fst ` set graph - insert current (set seen)) < card (fst ` set graph - set seen)"
proof (rule psubset_card_mono)
  show "finite (fst ` set graph - set seen)" by simp
  have "current \<in> fst ` set graph" using map_of_SomeD [OF assms(2)] by force
  then show "fst ` set graph - insert current (set seen) \<subset> fst ` set graph - set seen"
    using assms(1) by blast
qed

function dfs_walk :: "('n \<times> 'n list) list \<Rightarrow> 'n list \<Rightarrow> 'n list \<Rightarrow> 'n list" where
  "dfs_walk graph [] seen = []"
| "dfs_walk graph (current # frontier) seen =
     (if current \<in> set seen then dfs_walk graph frontier seen
      else current # dfs_walk graph (edges_of graph current @ frontier) (current # seen))"
  by pat_completeness auto

termination dfs_walk
proof (relation "measures [\<lambda>(graph, frontier, seen). card (fst ` set graph - set seen), \<lambda>(graph, frontier, seen). length frontier]")
  fix graph :: "('n \<times> 'n list) list" and current :: 'n and frontier seen :: "'n list"
  assume n: "current \<notin> set seen"
  show "((graph, edges_of graph current @ frontier, current # seen), graph, current # frontier, seen)
    \<in> measures [\<lambda>(graph, frontier, seen). card (fst ` set graph - set seen), \<lambda>(graph, frontier, seen). length frontier]"
  proof (cases "map_of graph current")
    case None
    then have "current \<notin> fst ` set graph" by (simp add: map_of_eq_None_iff)
    then have "fst ` set graph - insert current (set seen) = fst ` set graph - set seen" by blast
    then show ?thesis using None by (simp add: edges_of_def)
  next
    case (Some ts)
    with dfs_measure [OF n Some] show ?thesis by simp
  qed
qed auto

definition DepthFirstWalk :: "('n \<times> 'n list) list \<Rightarrow> 'n \<Rightarrow> 'n list" where
  "DepthFirstWalk graph node = dfs_walk graph [node] []"

subsection \<open>depgraph: CheckConstraints\<close>

datatype violation_type = CookbookNotFound | CookbookNoVersion

record versionConstraintError =
  ve_ViolationType :: violation_type
  ve_ParentCookbook :: string
  ve_ParentConstraint :: string
  ve_ParentVersion :: string
  ve_Cookbook :: string
  ve_Constraint :: string

text \<open>\<open>head\<close> is the noun with the dependency, \<open>None\<close> for the root, which has no meta data.\<close>

definition Satisfied ::
  "'c verlib \<Rightarrow> server \<Rightarrow> 'c list \<Rightarrow> string \<Rightarrow> 'c noun option \<Rightarrow> string \<Rightarrow> 'c noun \<Rightarrow> versionConstraintError option outcome" where
  "Satisfied vl s v headName head tailName tMeta =
     (let verr = \<lparr>ve_ViolationType = CookbookNotFound, ve_ParentCookbook = headName,
            ve_ParentConstraint = (case head of None \<Rightarrow> [] | Some h \<Rightarrow> constraints_String vl (nn_constraint h)),
            ve_ParentVersion = (case head of None \<Rightarrow> [] | Some h \<Rightarrow> nn_version h),
            ve_Cookbook = tailName, ve_Constraint = constraints_String vl v\<rparr>
      in if nn_notFound tMeta then Ok (Some verr)
         else if nn_version tMeta = [] then
           outcome_bind (cookbook_Get tailName s) (\<lambda>cb.
             (case cb of
                None \<Rightarrow> Ok (Some (verr\<lparr>ve_ViolationType := CookbookNoVersion\<rparr>))
              | Some c \<Rightarrow> Ok (Some (verr\<lparr>ve_ViolationType := CookbookNoVersion,
                    ve_Constraint := join_with '','' (badConstraints (vl_Check vl) (vl_String vl) (nil_constraints v) c)\<rparr>))))
         else Ok None)"

fun check_deps ::
  "'c verlib \<Rightarrow> server \<Rightarrow> (string \<times> 'c noun) list \<Rightarrow> string \<Rightarrow> 'c noun option \<Rightarrow> (string \<times> 'c list) list \<Rightarrow>
     versionConstraintError list outcome" where
  "check_deps vl s nodes headName head [] = Ok []"
| "check_deps vl s nodes headName head ((r, v) # deps) =
     (case map_of nodes r of
        None \<Rightarrow> Panic
      | Some tMeta \<Rightarrow>
          outcome_bind (Satisfied vl s v headName head r tMeta) (\<lambda>verr.
          outcome_bind (check_deps vl s nodes headName head deps) (\<lambda>verrs.
            Ok (case verr of None \<Rightarrow> verrs | Some e \<Rightarrow> e # verrs))))"

definition root_name :: string where
  "root_name = ''^runlist_root^''"

text \<open>The nodes of the graph: \<open>None\<close> is the root, \<open>Some k\<close> the noun of cookbook \<open>k\<close>.\<close>

definition graph_edges ::
  "(string \<times> 'c list) list \<Rightarrow> (string \<times> 'c noun) list \<Rightarrow> (string option \<times> string option list) list" where
  "graph_edges rootDeps nodes =
     (None, map (Some \<circ> fst) rootDeps) # map (\<lambda>(k, n). (Some k, map (Some \<circ> fst) (nn_deps n))) nodes"

fun check_nouns ::
  "'c verlib \<Rightarrow> server \<Rightarrow> (string \<times> 'c list) list \<Rightarrow> (string \<times> 'c noun) list \<Rightarrow> string option list \<Rightarrow>
     versionConstraintError list outcome" where
  "check_nouns vl s rootDeps nodes [] = Ok []"
| "check_nouns vl s rootDeps nodes (k # ks) =
     outcome_bind
       (case k of
          None \<Rightarrow> check_deps vl s nodes root_name None rootDeps
        | Some r \<Rightarrow>
            (case map_of nodes r of
               None \<Rightarrow> Panic
             | Some n \<Rightarrow> check_deps vl s nodes r (Some n) (nn_deps n)))
       (\<lambda>verrs. outcome_bind (check_nouns vl s rootDeps nodes ks) (\<lambda>rest. Ok (verrs @ rest)))"

definition CheckConstraints ::
  "'c verlib \<Rightarrow> server \<Rightarrow> (string \<times> 'c list) list \<Rightarrow> (string \<times> 'c noun) list \<Rightarrow> versionConstraintError list outcome" where
  "CheckConstraints vl s rootDeps nodes =
     check_nouns vl s rootDeps nodes (DepthFirstWalk (graph_edges rootDeps nodes) None)"

subsection \<open>DependsCookbooks\<close>

definition chkDiv :: "string list" where
  "chkDiv = [''definitions'', ''libraries'', ''attributes'', ''providers'', ''resources'', ''templates'',
     ''root_files'', ''files'']"

definition fill_divs :: "gobj \<Rightarrow> gobj" where
  "fill_divs j = fold (\<lambda>cd m. if gget m cd = GNil then aput cd (GArr []) m else m) chkDiv j"

fun chosen_versions ::
  "'c verlib \<Rightarrow> string \<Rightarrow> (string \<times> 'c noun) list \<Rightarrow> (string \<times> cookbook) list \<Rightarrow> gobj \<Rightarrow> gobj outcome" where
  "chosen_versions vl baseURL nodes [] acc = Ok acc"
| "chosen_versions vl baseURL nodes ((k, c) # shelf) acc =
     (case map_of nodes k of
        None \<Rightarrow> Panic
      | Some n \<Rightarrow>
          outcome_bind (fst (latestMultiConstraint (vl_Check vl) (nil_constraints (nn_constraint n)) c)) (\<lambda>cbv.
            (case cbv of
               None \<Rightarrow> Errorf (''Somehow, and this shouldn't have beenable to happen at this stage, no versions of '' @
                   cb_Name c @ '' satisfied the constraints '' @ sq (constraints_String vl (nn_constraint n)) @ ''!'')
             | Some v \<Rightarrow>
                 outcome_bind (version_ToJSON baseURL ''POST'' v) (\<lambda>j.
                   chosen_versions vl baseURL nodes shelf (aput (cv_CookbookName v) (GMap (fill_divs j)) acc)))))"

definition run_list_graph :: "'c verlib \<Rightarrow> string list \<Rightarrow> (string \<times> string) list \<Rightarrow> 'c depgraph" where
  "run_list_graph vl runList envConstraints =
     \<lparr>dg_nodes = env_nodes vl envConstraints (run_list_nodes vl runList), dg_shelf = []\<rparr>"

text \<open>\<open>Inl\<close> lists the violations of a \<open>DependsError\<close>.\<close>

definition DependsCookbooks ::
  "'c verlib \<Rightarrow> string \<Rightarrow> string list \<Rightarrow> (string \<times> string) list \<Rightarrow> server \<Rightarrow>
     (versionConstraintError list + gobj) outcome option" where
  "DependsCookbooks vl baseURL runList envConstraints s =
     (let g = run_list_graph vl runList envConstraints;
          rootDeps = map (\<lambda>(k, n). (k, nn_constraint n)) (dg_nodes g)
      in map_option (\<lambda>res.
           outcome_bind res (\<lambda>g2.
           outcome_bind (CheckConstraints vl s rootDeps (dg_nodes g2)) (\<lambda>violations.
             if violations \<noteq> [] then Ok (Inl violations)
             else outcome_bind (chosen_versions vl baseURL (dg_nodes g2) (dg_shelf g2) []) (\<lambda>deps. Ok (Inr deps)))))
         (resolve_run_list vl s (map run_list_name runList) g))"

subsection \<open>The walk visits what is reachable\<close>

definition edge_rel :: "('n \<times> 'n list) list \<Rightarrow> ('n \<times> 'n) set" where
  "edge_rel graph = {(a, b). b \<in> set (edges_of graph a)}"

lemma dfs_walk_distinct: "distinct (dfs_walk graph fr seen) \<and> set (dfs_walk graph fr seen) \<inter> set seen = {}"
  by (induction graph fr seen rule: dfs_walk.induct) auto

lemma dfs_walk_reachable: "set (dfs_walk graph fr seen) \<subseteq> (edge_rel graph)\<^sup>* `` set fr"
proof (induction graph fr seen rule: dfs_walk.induct)
  case (2 graph current frontier seen)
  let ?R = "(edge_rel graph)\<^sup>*"
  have r: "?R `` set (current # frontier) = ?R `` {current} \<union> ?R `` set frontier" by auto
  show ?case
  proof (cases "current \<in> set seen")
    case True
    with 2(1) have "set (dfs_walk graph frontier seen) \<subseteq> ?R `` set frontier" by simp
    with True show ?thesis unfolding r by simp blast
  next
    case False
    have "?R `` set (edges_of graph current) \<subseteq> ?R `` {current}"
      by (auto simp: edge_rel_def intro: converse_rtrancl_into_rtrancl)
    moreover have "set (dfs_walk graph (edges_of graph current @ frontier) (current # seen)) \<subseteq>
        ?R `` set (edges_of graph current) \<union> ?R `` set frontier"
      using 2(2) [OF False] by (simp add: Image_Un)
    moreover have "current \<in> ?R `` {current}" by simp
    ultimately show ?thesis unfolding r using False by simp blast
  qed
qed simp

lemma dfs_walk_closed:
  "set fr \<subseteq> set (dfs_walk graph fr seen) \<union> set seen \<and>
   (\<forall>a \<in> set (dfs_walk graph fr seen). set (edges_of graph a) \<subseteq> set (dfs_walk graph fr seen) \<union> set seen)"
  by (induction graph fr seen rule: dfs_walk.induct) auto

text \<open>\<open>DepthFirstWalk\<close> visits exactly the nodes that can be reached from the start,
  each of them once, whatever cycles the graph has.\<close>

theorem depth_first_walk:
  "set (DepthFirstWalk graph start) = {n. (start, n) \<in> {(a, b). b \<in> set (edges_of graph a)}\<^sup>*} \<and>
   distinct (DepthFirstWalk graph start)"
proof
  let ?W = "set (DepthFirstWalk graph start)"
  have "n \<in> ?W" if "(start, n) \<in> (edge_rel graph)\<^sup>*" for n
    using that
  proof (induction rule: rtrancl_induct)
    case base
    then show ?case using dfs_walk_closed [of "[start]" graph "[]"] by (simp add: DepthFirstWalk_def)
  next
    case (step a b)
    then show ?case using dfs_walk_closed [of "[start]" graph "[]"] by (auto simp: DepthFirstWalk_def edge_rel_def)
  qed
  then show "?W = {n. (start, n) \<in> {(a, b). b \<in> set (edges_of graph a)}\<^sup>*}"
    using dfs_walk_reachable [of graph "[start]" "[]"] by (auto simp: DepthFirstWalk_def simp flip: edge_rel_def)
  show "distinct (DepthFirstWalk graph start)"
    using dfs_walk_distinct [of graph "[start]" "[]"] by (simp add: DepthFirstWalk_def)
qed

end
