(* ===== verification/CookbookHandlers.thy ===== *)
theory CookbookHandlers
  imports ObjectHandlers Depends
begin

text \<open>
  \<^verbatim>\<open>cookbooks.go\<close>, \<^verbatim>\<open>environments.go\<close>, \<^verbatim>\<open>universe.go\<close>, the listings of
  \<^verbatim>\<open>cookbook/cookbook.go\<close> they use, and the error report of \<^verbatim>\<open>cookbook/deperr.go\<close>.
\<close>

subsection \<open>Listings\<close>

definition CookbookLister :: "string \<Rightarrow> string \<Rightarrow> server \<Rightarrow> gobj outcome" where
  "CookbookLister baseURL numResults s =
     outcome_bind (AllCookbooks s) (\<lambda>cbs.
       Ok (fold (\<lambda>cb cr. aput (cb_Name cb)
             (case InfoHash baseURL numResults cb of None \<Rightarrow> GNil | Some i \<Rightarrow> GMap i) cr) cbs []))"

fun latest_urls :: "string \<Rightarrow> cookbook list \<Rightarrow> gobj \<Rightarrow> gobj outcome" where
  "latest_urls baseURL [] latest = Ok latest"
| "latest_urls baseURL (cb # cbs) latest =
     outcome_bind (fst (LatestVersion cb)) (\<lambda>cbv.
       latest_urls baseURL cbs (aput (cb_Name cb) (GStr (version_url baseURL cb (cv_Version cbv))) latest))"

definition CookbookLatest :: "string \<Rightarrow> server \<Rightarrow> gobj outcome" where
  "CookbookLatest baseURL s = outcome_bind (AllCookbooks s) (\<lambda>cbs. latest_urls baseURL cbs [])"

definition Universe :: "string \<Rightarrow> server \<Rightarrow> gobj outcome" where
  "Universe baseURL s =
     outcome_bind (AllCookbooks s) (\<lambda>cbs.
       Ok (fold (\<lambda>cb universe. aput (cb_Name cb) (GMap (universeFormat baseURL cb)) universe) cbs []))"

definition info_or_nil :: "gobj option \<Rightarrow> gval" where
  "info_or_nil i = (case i of None \<Rightarrow> GNil | Some h \<Rightarrow> GMap h)"

subsection \<open>deperr.go\<close>

definition not_found_strings :: "versionConstraintError list \<Rightarrow> string list" where
  "not_found_strings vs =
     RemoveDupStrings (sort (map ve_Cookbook (filter (\<lambda>v. ve_ViolationType v = CookbookNotFound) vs)))"

definition unsat :: "versionConstraintError \<Rightarrow> bool" where
  "unsat v \<longleftrightarrow> ve_ParentCookbook v \<noteq> root_name"

definition no_version_strings :: "versionConstraintError list \<Rightarrow> string list" where
  "no_version_strings vs =
     RemoveDupStrings (sort (map (\<lambda>v. ''('' @ ve_Cookbook v @ '' '' @ ve_Constraint v @ '')'')
       (filter (\<lambda>v. ve_ViolationType v \<noteq> CookbookNotFound \<and> \<not> unsat v) vs)))"

definition most_constrained_strings :: "versionConstraintError list \<Rightarrow> string list" where
  "most_constrained_strings vs =
     RemoveDupStrings (sort (map (\<lambda>v. ve_Cookbook v @ '' '' @ ve_Constraint v @ '' -> ['' @ ve_ParentCookbook v @ '' '' @
           ve_ParentConstraint v @ '']'')
       (filter (\<lambda>v. ve_ViolationType v \<noteq> CookbookNotFound \<and> unsat v) vs)))"

definition unsat_message :: "versionConstraintError \<Rightarrow> string" where
  "unsat_message v =
     ''Unable to satisfy constraints on package '' @ ve_Cookbook v @
     (if ve_ViolationType v = CookbookNotFound then '', which does not exist,'' else []) @
     '' due to solution constraint ('' @ ve_ParentCookbook v @ '' '' @ ve_ParentConstraint v @
     ''). Solution constraints that may result in a constraint on '' @ ve_Cookbook v @ '': [('' @
     ve_ParentCookbook v @ '' = '' @ ve_ParentVersion v @ '') -> ('' @ ve_Cookbook v @ '' '' @ ve_Constraint v @ '')]''"

definition run_list_message :: "string list \<Rightarrow> string list \<Rightarrow> string list" where
  "run_list_message notFoundStr noVersionStr =
     (if notFoundStr = [] \<and> noVersionStr = [] then []
      else [''Run list contains invalid items:'' @
        (if notFoundStr = [] then []
         else '' no such '' @ (if length notFoundStr = 1 then ''cookbook'' else ''cookbooks'') @ '' '' @
           join_with '', '' notFoundStr) @
        (if noVersionStr = [] then []
         else '' no versions match the constraints on cookbook '' @ join_with '', '' noVersionStr) @ ''.''])"

text \<open>For the unsatisfiable items the result of \<open>RemoveDupStrings\<close> is dropped and the slice it was
  given, changed in place, is used.\<close>

definition ErrMap :: "versionConstraintError list \<Rightarrow> gobj" where
  "ErrMap vs =
     (let notFoundStr = not_found_strings vs; noVersionStr = no_version_strings vs;
          unsatisfiable = filter unsat vs;
          unsatisfiableStr = RemoveDupStrings_array
            (sort (map (\<lambda>v. ''('' @ ve_ParentCookbook v @ '' '' @ ve_ParentConstraint v @ '')'') unsatisfiable))
      in [(''message'', GStr (join_with [CHR 0x0A] (map unsat_message unsatisfiable @ run_list_message notFoundStr noVersionStr))),
          (''non_existent_cookbooks'', GStrs notFoundStr)] @
         (if unsatisfiable \<noteq> [] then
            [(''unsatisfiable_run_list_item'', GStr (join_with '', '' unsatisfiableStr)),
             (''most_constrained_cookbooks'', GStrs (most_constrained_strings vs))]
          else [(''cookbooks_with_no_versions'', GStrs noVersionStr)]))"

subsection \<open>environments.go\<close>


definition env_logobj :: "chef_environment \<Rightarrow> logobj" where
  "env_logobj e = \<lparr>lo_Type = ''*environment.ChefEnvironment'', lo_Name = en_Name e, lo_JSON = GMap (env_fields e)\<rparr>"

text \<open>The query parameter \<open>num_versions\<close>; \<open>None\<close> if it is missing.\<close>

definition num_versions :: "request \<Rightarrow> string option outcome" where
  "num_versions r =
     (case map_of (r_Form r) ''num_versions'' of
        None \<Rightarrow> Ok None
      | Some [] \<Rightarrow> Panic
      | Some (nr # _) \<Rightarrow> outcome_bind (ValidateNumVersions (\<lambda>v. [CHR 0x22] @ v @ [CHR 0x22]) nr) (\<lambda>_. Ok (Some nr)))"

definition env_post :: "conf \<Rightarrow> world \<Rightarrow> request \<Rightarrow> actor \<Rightarrow> server \<Rightarrow> reply \<times> server" where
  "env_post cfg wd r opUser s =
     (if \<not> IsAdmin cfg opUser then not_allowed_this new_response s
      else attempt (parseObjJSON r) s (\<lambda>jerr. reply_error (msg jerr) StatusBadRequest new_response s)
        (\<lambda>body. let envData = reads body in
           (case gget envData ''name'' of
              GStr name \<Rightarrow>
                (if name = [] then reply_error ''Environment name missing'' StatusBadRequest new_response s
                 else
                   (case env_Get name s of
                      Panic \<Rightarrow> (Crash, s)
                    | Ok _ \<Rightarrow> reply_error ''Environment already exists'' StatusConflict new_response s
                    | Err _ \<Rightarrow>
                        attempt (env_NewFromJSON envData s) s
                          (\<lambda>eerr. reply_error (msg eerr) (status eerr) new_response s)
                          (\<lambda>chefEnv. let (err, s1) = env_Save chefEnv s in
                             attempt err s1 (\<lambda>e. reply_error (msg e) StatusBadRequest new_response s1)
                               (\<lambda>_. reply_json (GMap [(''uri'', GStr (ObjURL wd ''environments'' (en_Name chefEnv)))])
                                      (WriteHeader 201 new_response)
                                      (LogEvent cfg wd opUser (env_logobj chefEnv) ''create'' s1)))))
            | _ \<Rightarrow> reply_error ''Environment name missing'' StatusBadRequest new_response s)))"

definition envs_handler :: "conf \<Rightarrow> world \<Rightarrow> request \<Rightarrow> actor \<Rightarrow> server \<Rightarrow> reply \<times> server" where
  "envs_handler cfg wd r opUser s =
     (case r_Method r of
        MethodHead \<Rightarrow>
          (if IsValidator cfg opUser then (Reply (headResponse StatusForbidden new_response), s)
           else (Reply (headDefaultResponse new_response), s))
      | MethodGet \<Rightarrow>
          (if IsValidator cfg opUser then not_allowed_this new_response s
           else reply_json (GStrMap (url_list wd ''environments'' (env_GetList s))) new_response s)
      | MethodPost \<Rightarrow> env_post cfg wd r opUser s
      | _ \<Rightarrow> reply_error ''Unrecognized method'' StatusMethodNotAllowed new_response s)"

text \<open>The end of a PUT: save, log, answer.\<close>

definition env_put_save ::
  "conf \<Rightarrow> world \<Rightarrow> actor \<Rightarrow> chef_environment \<Rightarrow> response \<Rightarrow> server \<Rightarrow> reply \<times> server" where
  "env_put_save cfg wd opUser env w s =
     (let (err, s1) = env_Save env s
      in attempt err s1 (\<lambda>e. reply_error (msg e) (status e) w s1)
           (\<lambda>_. reply_json (GMap (env_fields env)) w (LogEvent cfg wd opUser (env_logobj env) ''modify'' s1)))"

definition env_put_data ::
  "conf \<Rightarrow> world \<Rightarrow> actor \<Rightarrow> string \<Rightarrow> chef_environment \<Rightarrow> gobj \<Rightarrow> server \<Rightarrow> reply \<times> server" where
  "env_put_data cfg wd opUser envName env envData s =
     (if \<not> ghas envData ''name'' then reply_error ''Environment name missing'' StatusBadRequest new_response s
      else attempt (ValidateAsString (gget envData ''name'')) s
        (\<lambda>sterr. reply_error (msg sterr) (status sterr) new_response s)
        (\<lambda>jsonName.
           if jsonName = [] then reply_error ''Environment name missing'' StatusBadRequest new_response s
           else if envName \<noteq> jsonName then
             (case env_Get jsonName s of
                Panic \<Rightarrow> (Crash, s)
              | Ok _ \<Rightarrow> reply_error ''Environment already exists'' StatusConflict new_response s
              | Err _ \<Rightarrow>
                  attempt (env_NewFromJSON envData s) s
                    (\<lambda>eerr. reply_error (msg eerr) (status eerr) new_response s)
                    (\<lambda>newEnv.
                       let s1 = (case env_Get envName s of Ok oldenv \<Rightarrow> snd (env_Delete oldenv s) | _ \<Rightarrow> s)
                       in env_put_save cfg wd opUser newEnv (WriteHeader 201 new_response) s1))
           else attempt (env_UpdateFromJSON envData env) s
                  (\<lambda>err. reply_error (msg err) (status err) new_response s)
                  (\<lambda>env1. env_put_save cfg wd opUser env1 new_response s)))"

definition env_put :: "conf \<Rightarrow> world \<Rightarrow> request \<Rightarrow> actor \<Rightarrow> string \<Rightarrow> chef_environment \<Rightarrow> server \<Rightarrow> reply \<times> server" where
  "env_put cfg wd r opUser envName env s =
     (if \<not> IsAdmin cfg opUser then not_allowed_this new_response s
      else attempt (parseObjJSON r) s (\<lambda>jerr. reply_error (msg jerr) StatusBadRequest new_response s)
        (\<lambda>body.
           (case body of
              None \<Rightarrow> reply_error ''No environment data in body at all!'' StatusBadRequest new_response s
            | Some envData \<Rightarrow> env_put_data cfg wd opUser envName env envData s)))"

definition env_delete :: "conf \<Rightarrow> world \<Rightarrow> actor \<Rightarrow> string \<Rightarrow> chef_environment \<Rightarrow> server \<Rightarrow> reply \<times> server" where
  "env_delete cfg wd opUser envName env s =
     (if \<not> IsAdmin cfg opUser then not_allowed_this new_response s
      else if envName = ''_default'' then
        reply_error ''The '_default' environment cannot be modified.'' StatusMethodNotAllowed new_response s
      else
        (let w = Encode (GMap (env_fields env)) new_response; (err, s1) = env_Delete env s
         in attempt err s1 (\<lambda>e. reply_error (msg e) StatusInternalServerError w s1)
              (\<lambda>_. (Reply w, LogEvent cfg wd opUser (env_logobj env) ''delete'' s1))))"

definition env_handler :: "conf \<Rightarrow> world \<Rightarrow> request \<Rightarrow> actor \<Rightarrow> string \<Rightarrow> server \<Rightarrow> reply \<times> server" where
  "env_handler cfg wd r opUser envName s =
     (if r_Method r = MethodHead then
        (headChecking (Ok (env_DoesExist envName s)) (validator_forbidden cfg opUser) new_response, s)
      else attempt (env_Get envName s) s (\<lambda>err. reply_error (msg err) StatusNotFound new_response s)
        (\<lambda>env.
           (case r_Method r of
              MethodGet \<Rightarrow>
                (if IsValidator cfg opUser then not_allowed_this new_response s
                 else reply_json (GMap (env_fields env)) new_response s)
            | MethodDelete \<Rightarrow> env_delete cfg wd opUser envName env s
            | MethodPut \<Rightarrow> env_put cfg wd r opUser envName env s
            | _ \<Rightarrow> reply_error ''Unrecognized method'' StatusMethodNotAllowed new_response s)))"

text \<open>\<open>POST /environments/ENV/cookbook_versions\<close>: a resolution that recurses for ever overflows
  the stack.\<close>

definition env_cookbook_versions ::
  "'c verlib \<Rightarrow> world \<Rightarrow> request \<Rightarrow> chef_environment \<Rightarrow> server \<Rightarrow> reply \<times> server" where
  "env_cookbook_versions vl wd r env s =
     attempt (parseObjJSON r) s
       (\<lambda>jerr. reply_error (if \<not> has_sub ''Field'' (msg jerr) then ''invalid JSON'' else msg jerr)
          StatusBadRequest new_response s)
       (\<lambda>body. let cbVer = reads body in
          if \<not> ghas cbVer ''run_list'' then
            reply_error ''POSTed JSON badly formed.'' StatusMethodNotAllowed new_response s
          else
            (case gget cbVer ''run_list'' of
               GStrs runList \<Rightarrow>
                 (case DependsCookbooks vl (w_baseURL wd) runList (en_CookbookVersions env) s of
                    None \<Rightarrow> (Fatal, s)
                  | Some res \<Rightarrow>
                      attempt res s (\<lambda>derr. reply_error (msg derr) StatusPreconditionFailed new_response s)
                        (\<lambda>deps. case deps of
                           Inl violations \<Rightarrow>
                             (Reply (Encode (GMap [(''error'', GArr [GMap (ErrMap violations)])])
                                (WriteHeader StatusPreconditionFailed new_response)), s)
                         | Inr d \<Rightarrow> reply_json (GMap d) new_response s))
             | _ \<Rightarrow> (Crash, s)))"

definition env_op ::
  "conf \<Rightarrow> 'c verlib \<Rightarrow> world \<Rightarrow> request \<Rightarrow> actor \<Rightarrow> string \<Rightarrow> string \<Rightarrow> string \<Rightarrow> server \<Rightarrow> reply \<times> server" where
  "env_op cfg vl wd r opUser envName op numResults s =
     (if (op = ''cookbook_versions'' \<and> r_Method r \<noteq> MethodPost) \<or> (op \<noteq> ''cookbook_versions'' \<and> r_Method r \<noteq> MethodGet)
      then reply_error ''Unrecognized method'' StatusMethodNotAllowed new_response s
      else if IsValidator cfg opUser then not_allowed_this new_response s
      else attempt (env_Get envName s) s
        (\<lambda>err. reply_error
           (if status err = StatusNotFound \<and> op \<noteq> ''recipes'' \<and> op \<noteq> ''cookbooks''
            then ''environment '' @ sq envName @ '' not found'' else msg err) (status err) new_response s)
        (\<lambda>env.
           if op = ''cookbook_versions'' then env_cookbook_versions vl wd r env s
           else if op = ''cookbooks'' then
             attempt (AllCookbookHash (w_baseURL wd) numResults env s) s (\<lambda>_. (Crash, s))
               (\<lambda>h. reply_json (GMap h) new_response s)
           else if op = ''nodes'' then
             attempt (GetFromEnv envName s) s (\<lambda>e. reply_error (msg e) StatusInternalServerError new_response s)
               (\<lambda>nodes. reply_json (GStrMap (map (\<lambda>n. (nd_Name n, ObjURL wd ''nodes'' (nd_Name n))) nodes)) new_response s)
           else if op = ''recipes'' then
             attempt (env_RecipeList env s) s (\<lambda>_. (Crash, s)) (\<lambda>l. reply_json (GStrs l) new_response s)
           else reply_error ''Bad request'' StatusBadRequest new_response s))"

definition env_object ::
  "conf \<Rightarrow> world \<Rightarrow> request \<Rightarrow> actor \<Rightarrow> string \<Rightarrow> string \<Rightarrow> string \<Rightarrow> string \<Rightarrow> server \<Rightarrow> reply \<times> server" where
  "env_object cfg wd r opUser envName op opName numResults s =
     (if r_Method r \<noteq> MethodGet then reply_error ''Method not allowed'' StatusMethodNotAllowed new_response s
      else if IsValidator cfg opUser then not_allowed_this new_response s
      else attempt (env_Get envName s) s (\<lambda>err. reply_error (msg err) StatusNotFound new_response s)
        (\<lambda>env.
           if op = ''roles'' then
             attempt (role_Get opName s) s (\<lambda>err. reply_error (msg err) StatusNotFound new_response s)
               (\<lambda>role. reply_json (GMap [(''run_list'', env_run_list envName role)]) new_response s)
           else if op = ''cookbooks'' then
             attempt (cookbook_Get opName s) s
               (\<lambda>err. reply_error (''Cannot get a cookbook named '' @ opName) (status err) new_response s)
               (\<lambda>found. case found of
                  None \<Rightarrow> reply_error (''Cannot find a cookbook named '' @ opName) StatusNotFound new_response s
                | Some cb \<Rightarrow>
                    reply_json (GMap [(opName, info_or_nil (infoHashBase (w_baseURL wd)
                        (if numResults = [] then ''all'' else numResults) (env_constraint env opName) cb))]) new_response s)
           else reply_error ''Bad request - too many elements in path'' StatusBadRequest new_response s))"

definition environmentHandler ::
  "conf \<Rightarrow> 'c verlib \<Rightarrow> world \<Rightarrow> request \<Rightarrow> server \<Rightarrow> reply \<times> server" where
  "environmentHandler cfg vl wd r s =
     attempt (checkAccept (header_values r ''Accept'') ''application/json'') s
       (\<lambda>accErr. reply_error (msg accErr) StatusNotAcceptable new_response s)
       (\<lambda>_. with_opUser r s (\<lambda>opUser.
          attempt (num_versions r) s
            (\<lambda>err. reply_error ''You have requested an invalid number of versions (x >= 0 || 'all')'' (status err)
               new_response s)
            (\<lambda>nv.
               let numResults = (case nv of None \<Rightarrow> [] | Some v \<Rightarrow> v); pathArray = splitPath (r_Path r); n = length pathArray
               in if n = 1 then envs_handler cfg wd r opUser s
                  else if n = 2 then env_handler cfg wd r opUser (pathArray ! 1) s
                  else if n = 3 then env_op cfg vl wd r opUser (pathArray ! 1) (pathArray ! 2) numResults s
                  else if n = 4 then
                    env_object cfg wd r opUser (pathArray ! 1) (pathArray ! 2) (pathArray ! 3) numResults s
                  else reply_error ''Bad request - too many elements in path'' StatusBadRequest new_response s)))"

subsection \<open>cookbooks.go\<close>

definition version_json :: "cookbook_version \<Rightarrow> gobj" where
  "version_json v =
     [(''cookbook_name'', GStr (cv_CookbookName v)), (''name'', GStr (cv_Name v)), (''version'', GStr (cv_Version v)),
      (''chef_type'', GStr (cv_ChefType v)), (''json_class'', GStr (cv_JSONClass v)),
      (''definitions'', GArr (map GMap (cv_Definitions v))), (''libraries'', GArr (map GMap (cv_Libraries v))),
      (''attributes'', GArr (map GMap (cv_Attributes v))), (''recipes'', GArr (map GMap (cv_Recipes v))),
      (''providers'', GArr (map GMap (cv_Providers v))), (''resources'', GArr (map GMap (cv_Resources v))),
      (''templates'', GArr (map GMap (cv_Templates v))), (''root_files'', GArr (map GMap (cv_RootFiles v))),
      (''files'', GArr (map GMap (cv_Files v))), (''frozen?'', GBool (cv_IsFrozen v)), (''metadata'', GMap (cv_Metadata v))]"

definition version_logobj :: "cookbook_version \<Rightarrow> logobj" where
  "version_logobj v = \<lparr>lo_Type = ''*cookbook.CookbookVersion'', lo_Name = cv_Name v, lo_JSON = GMap (version_json v)\<rparr>"

definition cookbook_logobj :: "cookbook \<Rightarrow> logobj" where
  "cookbook_logobj c =
     \<lparr>lo_Type = ''*cookbook.Cookbook'', lo_Name = cb_Name c,
      lo_JSON = GMap [(''Name'', GStr (cb_Name c)),
        (''Versions'', GMap (map (\<lambda>(k, v). (k, GMap (version_json v))) (cb_Versions c)))]\<rparr>"

definition cannot_find :: "string \<Rightarrow> server \<Rightarrow> reply \<times> server" where
  "cannot_find name s = reply_error (''Cannot find a cookbook named '' @ name) StatusNotFound new_response s"

definition cannot_get :: "string \<Rightarrow> gerror \<Rightarrow> server \<Rightarrow> reply \<times> server" where
  "cannot_get name err s = reply_error (''Cannot get a cookbook named '' @ name) (status err) new_response s"

text \<open>\<open>/cookbooks/NAME\<close>.\<close>

definition cookbook_info :: "world \<Rightarrow> request \<Rightarrow> string \<Rightarrow> string \<Rightarrow> server \<Rightarrow> reply \<times> server" where
  "cookbook_info wd r cookbookName numResults s =
     (if r_Method r = MethodHead then
        (if cookbookName = ''_latest'' \<or> cookbookName = ''_recipes'' then (Reply (headResponse 200 new_response), s)
         else (headChecking (Ok (cookbook_DoesExist cookbookName s)) nilPermCheck new_response, s))
      else if cookbookName = ''_latest'' then
        attempt (CookbookLatest (w_baseURL wd) s) s (\<lambda>_. (Crash, s)) (\<lambda>l. reply_json (GMap l) new_response s)
      else if cookbookName = ''_recipes'' then
        attempt (CookbookRecipes s) s (\<lambda>nerr. reply_error (msg nerr) (status nerr) new_response s)
          (\<lambda>rlist. reply_json (GStrs rlist) new_response s)
      else
        attempt (cookbook_Get cookbookName s) s (\<lambda>err. cannot_get cookbookName err s)
          (\<lambda>found. case found of
             None \<Rightarrow> cannot_find cookbookName s
           | Some cb \<Rightarrow>
               reply_json (GMap [(cookbookName, info_or_nil (InfoHash (w_baseURL wd)
                   (if numResults = [] then ''all'' else numResults) cb))]) new_response s))"

definition version_get ::
  "conf \<Rightarrow> world \<Rightarrow> request \<Rightarrow> actor \<Rightarrow> string \<Rightarrow> string \<Rightarrow> server \<Rightarrow> reply \<times> server" where
  "version_get cfg wd r opUser cookbookName cookbookVersion s =
     (if IsValidator cfg opUser then not_allowed_this new_response s
      else attempt (cookbook_Get cookbookName s) s (\<lambda>err. cannot_get cookbookName err s)
        (\<lambda>found. case found of
           None \<Rightarrow> cannot_find cookbookName s
         | Some cb \<Rightarrow>
             attempt (fst (GetVersion cookbookVersion cb)) s (\<lambda>err. reply_error (msg err) StatusNotFound new_response s)
               (\<lambda>cbv. attempt (version_ToJSON (w_baseURL wd) ''GET'' cbv) s (\<lambda>_. (Crash, s))
                  (\<lambda>j. reply_json (GMap (if header_Get r ''X-Ops-Request-Source'' = ''web'' then fill_divs j else j)) new_response s))))"

text \<open>A version is deleted, and the cookbook with its last version.\<close>

definition version_delete ::
  "conf \<Rightarrow> world \<Rightarrow> actor \<Rightarrow> string \<Rightarrow> string \<Rightarrow> server \<Rightarrow> reply \<times> server" where
  "version_delete cfg wd opUser cookbookName cookbookVersion s =
     (if IsValidator cfg opUser then not_allowed_this new_response s
      else attempt (cookbook_Get cookbookName s) s (\<lambda>err. cannot_get cookbookName err s)
        (\<lambda>found. case found of
           None \<Rightarrow> cannot_find cookbookName s
         | Some cb \<Rightarrow>
             (let (v, cb1) = GetVersion cookbookVersion cb
              in attempt v s (\<lambda>err. reply_error (msg err) StatusNotFound new_response s)
                   (\<lambda>cbv.
                      if \<not> IsAdmin cfg opUser then not_allowed_take new_response s
                      else
                        (let (err, cb2, s1) = DeleteVersion cookbookVersion cb1 s
                         in attempt err s1 (\<lambda>e. reply_error (msg e) (status e) new_response s1)
                              (\<lambda>_. let s2 = LogEvent cfg wd opUser (version_logobj cbv) ''delete'' s1;
                                      s3 = (if NumVersions cb2 = 0 then cookbook_Delete cb2 s2 else s2)
                                  in reply_json (GMap []) new_response s3))))))"

text \<open>The upload of a version of a cookbook that is stored.\<close>

definition version_put_stored ::
  "conf \<Rightarrow> world \<Rightarrow> actor \<Rightarrow> string \<Rightarrow> string \<Rightarrow> bool \<Rightarrow> gobj \<Rightarrow> cookbook \<Rightarrow> server \<Rightarrow> reply \<times> server" where
  "version_put_stored cfg wd opUser cookbookName cookbookVersion force cbvData cb s =
     (case GetVersion cookbookVersion cb of
        (Panic, _) \<Rightarrow> (Crash, s)
      | (Err _, cb1) \<Rightarrow>
          (if (case gget cbvData ''cookbook_name'' of GStr t \<Rightarrow> t \<noteq> cookbookName | _ \<Rightarrow> False) then
             reply_error ''Field 'name' invalid'' StatusBadRequest new_response s
           else
             (let (nerr, cb2, s1) = NewVersion (w_baseURL wd) (w_fmt_v wd) cookbookVersion cbvData cb1 s
              in attempt nerr s1
                   (\<lambda>e. reply_error (msg e) (status e) new_response
                          (if NumVersions cb2 = 0 then cookbook_Delete cb2 s1 else s1))
                   (\<lambda>cbv. attempt (version_ToJSON (w_baseURL wd) ''PUT'' cbv)
                      (LogEvent cfg wd opUser (version_logobj cbv) ''create'' s1) (\<lambda>_. (Crash, s1))
                      (\<lambda>j. reply_json (GMap j) (WriteHeader 201 new_response)
                             (LogEvent cfg wd opUser (version_logobj cbv) ''create'' s1)))))
      | (Ok cbv, cb1) \<Rightarrow>
          (let (err, cbv1, s1) = UpdateVersion (w_baseURL wd) (w_fmt_v wd) cbvData force cbv s
           in attempt err s1 (\<lambda>e. reply_error (msg e) (status e) new_response s1)
                (\<lambda>_. let s2 = cookbook_Save (cb1\<lparr>cb_Versions := aput cookbookVersion cbv1 (cb_Versions cb1)\<rparr>) s1;
                        s3 = LogEvent cfg wd opUser (version_logobj cbv1) ''modify'' s2
                    in attempt (version_ToJSON (w_baseURL wd) ''PUT'' cbv1) s3 (\<lambda>_. (Crash, s3))
                         (\<lambda>j. reply_json (GMap j) new_response s3))))"

text \<open>A cookbook that does not exist yet is created and saved before the body is looked at.\<close>

definition version_put ::
  "conf \<Rightarrow> world \<Rightarrow> request \<Rightarrow> actor \<Rightarrow> string \<Rightarrow> string \<Rightarrow> bool \<Rightarrow> server \<Rightarrow> reply \<times> server" where
  "version_put cfg wd r opUser cookbookName cookbookVersion force s =
     (if \<not> IsAdmin cfg opUser then not_allowed_this new_response s
      else attempt (parseObjJSON r) s (\<lambda>jerr. reply_error (msg jerr) StatusBadRequest new_response s)
        (\<lambda>body. let cbvData = reads body in
           attempt (cookbook_Get cookbookName s) s (\<lambda>err. cannot_get cookbookName err s)
             (\<lambda>found. case found of
                Some cb \<Rightarrow> version_put_stored cfg wd opUser cookbookName cookbookVersion force cbvData cb s
              | None \<Rightarrow>
                  attempt (cookbook_New cookbookName s) s (\<lambda>err. reply_error (msg err) (status err) new_response s)
                    (\<lambda>cb. let s1 = LogEvent cfg wd opUser (cookbook_logobj cb) ''create'' (cookbook_Save cb s)
                         in version_put_stored cfg wd opUser cookbookName cookbookVersion force cbvData cb s1))))"

definition version_head ::
  "conf \<Rightarrow> actor \<Rightarrow> string \<Rightarrow> string \<Rightarrow> server \<Rightarrow> reply \<times> server" where
  "version_head cfg opUser cookbookName cookbookVersion s =
     (if IsValidator cfg opUser then (Reply (headResponse StatusForbidden new_response), s)
      else attempt (cookbook_Get cookbookName s) s (\<lambda>err. (Reply (headResponse (status err) new_response), s))
        (\<lambda>found. case found of
           None \<Rightarrow> (Reply (headResponse StatusNotFound new_response), s)
         | Some cb \<Rightarrow> (headChecking (DoesVersionExist cookbookVersion cb) nilPermCheck new_response, s)))"

definition version_handler ::
  "conf \<Rightarrow> world \<Rightarrow> request \<Rightarrow> actor \<Rightarrow> string \<Rightarrow> string \<Rightarrow> bool \<Rightarrow> server \<Rightarrow> reply \<times> server" where
  "version_handler cfg wd r opUser cookbookName ver force s =
     attempt (if (r_Method r = MethodGet \<or> r_Method r = MethodHead) \<and> ver = ''_latest'' then Ok ver
              else ValidateAsVersion (GStr ver)) s
       (\<lambda>_. reply_error (''Invalid cookbook version '' @ sq ver @ ''.'') StatusBadRequest new_response s)
       (\<lambda>cookbookVersion.
          (case r_Method r of
             MethodHead \<Rightarrow> version_head cfg opUser cookbookName cookbookVersion s
           | MethodGet \<Rightarrow> version_get cfg wd r opUser cookbookName cookbookVersion s
           | MethodDelete \<Rightarrow> version_delete cfg wd opUser cookbookName cookbookVersion s
           | MethodPut \<Rightarrow> version_put cfg wd r opUser cookbookName cookbookVersion force s
           | _ \<Rightarrow> reply_error ''Unrecognized method'' StatusMethodNotAllowed new_response s))"

definition cookbookHandler :: "conf \<Rightarrow> world \<Rightarrow> request \<Rightarrow> server \<Rightarrow> reply \<times> server" where
  "cookbookHandler cfg wd r s =
     with_opUser r s (\<lambda>opUser.
       attempt (num_versions r) s (\<lambda>err. reply_error (msg err) (status err) new_response s)
         (\<lambda>nv.
            let numResults = (case nv of None \<Rightarrow> [] | Some v \<Rightarrow> v);
                force = (case map_of (r_Form r) ''force'' of None \<Rightarrow> False | Some l \<Rightarrow> l \<noteq> []);
                pathArray = splitPath (r_Path r); n = length pathArray
            in if n < 3 \<and> r_Method r \<noteq> MethodGet \<and> r_Method r \<noteq> MethodHead then
                 reply_error ''Bad request.'' StatusMethodNotAllowed new_response s
               else if n < 3 \<and> IsValidator cfg opUser then not_allowed_this new_response s
               else if n = 1 \<or> (n = 2 \<and> pathArray ! 1 = []) then
                 (if r_Method r = MethodHead then (Reply (headResponse 200 new_response), s)
                  else attempt (CookbookLister (w_baseURL wd) numResults s) s (\<lambda>_. (Crash, s))
                         (\<lambda>l. reply_json (GMap l) new_response s))
               else if n = 2 then cookbook_info wd r (pathArray ! 1) numResults s
               else if n = 3 then version_handler cfg wd r opUser (pathArray ! 1) (pathArray ! 2) force s
               else reply_error ''Bad request'' StatusBadRequest new_response s))"

subsection \<open>universe.go\<close>

definition universeHandler :: "world \<Rightarrow> request \<Rightarrow> server \<Rightarrow> reply \<times> server" where
  "universeHandler wd r s =
     (case r_Method r of
        MethodGet \<Rightarrow>
          attempt (Universe (w_baseURL wd) s) s (\<lambda>_. (Crash, s)) (\<lambda>u. reply_json (GMap u) new_response s)
      | MethodHead \<Rightarrow> (Reply (headDefaultResponse new_response), s)
      | _ \<Rightarrow> reply_error ''Unrecognized method'' StatusMethodNotAllowed new_response s)"

end
