(* ===== verification/QueryGrammar.thy ===== *)
theory QueryGrammar
  imports Flatten
begin

text \<open>
  \<^verbatim>\<open>search/search-parse.peg.go\<close>: the recognizer of search queries. It is the output of a parser
  generator for \<^verbatim>\<open>search/search-parse.peg\<close>, with changes made by hand in \<open>valid_letter\<close>. Every rule
  is a parser: from the runes that are left it fails, or it returns the recorded tokens and the
  runes that are left then, or it does not return. The tokens are the texts in angle brackets and
  the actions; the tokens that only name rules are left out, since \<open>Execute\<close> skips them.

  A rune is given by its encoding. \<open>uni\<close> says which runes outside ASCII are letters or numbers.
\<close>

datatype op =
  OpNotAnOp | OpUnaryNot | OpUnaryReq | OpUnaryPro | OpBinAnd | OpBinOr | OpBoost | OpFuzzy
  | OpStartGroup | OpEndGroup | OpStartIncl | OpEndIncl | OpStartExcl | OpEndExcl

datatype action =
  DoAddTerm | DoStartBasic | DoStartGrouped | DoSetCompleted | DoStartRange bool | DoAddField | DoAddRange
  | DoStartSubQuery | DoEndSubQuery | DoAddOp op | DoSetNotQuery op | DoAddTermOp op

datatype token32 = PegText string | Action action

type_synonym rune = string

datatype result = Fails | Matches "token32 list" "rune list" | Diverges

type_synonym parser = "rune list \<Rightarrow> result"

subsection \<open>Parsing expressions\<close>

definition p_sat :: "(rune \<Rightarrow> bool) \<Rightarrow> parser" where
  "p_sat P s = (case s of [] \<Rightarrow> Fails | c # s1 \<Rightarrow> if P c then Matches [] s1 else Fails)"

definition p_char :: "char \<Rightarrow> parser" where
  "p_char c = p_sat (\<lambda>r. r = [c])"

definition p_act :: "action \<Rightarrow> parser" where
  "p_act a s = Matches [Action a] s"

definition p_seq :: "parser \<Rightarrow> parser \<Rightarrow> parser" where
  "p_seq p q s =
     (case p s of
        Matches ts s1 \<Rightarrow> (case q s1 of Matches us s2 \<Rightarrow> Matches (ts @ us) s2 | Fails \<Rightarrow> Fails | Diverges \<Rightarrow> Diverges)
      | Fails \<Rightarrow> Fails | Diverges \<Rightarrow> Diverges)"

definition p_alt :: "parser \<Rightarrow> parser \<Rightarrow> parser" where
  "p_alt p q s = (case p s of Fails \<Rightarrow> q s | r \<Rightarrow> r)"

definition p_opt :: "parser \<Rightarrow> parser" where
  "p_opt p s = (case p s of Fails \<Rightarrow> Matches [] s | r \<Rightarrow> r)"

text \<open>\<open>!p\<close> looks ahead and records nothing.\<close>

definition p_not :: "parser \<Rightarrow> parser" where
  "p_not p s = (case p s of Fails \<Rightarrow> Matches [] s | Matches _ _ \<Rightarrow> Fails | Diverges \<Rightarrow> Diverges)"

text \<open>A loop that gets around without moving on gets around for ever.\<close>

function p_many :: "parser \<Rightarrow> parser" where
  "p_many p s =
     (case p s of
        Fails \<Rightarrow> Matches [] s
      | Diverges \<Rightarrow> Diverges
      | Matches ts s1 \<Rightarrow>
          (if length s1 < length s then
             (case p_many p s1 of Matches us s2 \<Rightarrow> Matches (ts @ us) s2 | r \<Rightarrow> r)
           else Diverges))"
  by pat_completeness auto
termination by (relation "measure (\<lambda>(p, s). length s)") auto

declare p_many.simps [simp del]

definition p_some :: "parser \<Rightarrow> parser" where
  "p_some p = p_seq p (p_many p)"

text \<open>\<open>< p >\<close> records the runes that \<open>p\<close> reads, after the tokens of \<open>p\<close>.\<close>

definition p_text :: "parser \<Rightarrow> parser" where
  "p_text p s =
     (case p s of
        Matches ts s1 \<Rightarrow> Matches (ts @ [PegText (concat (take (length s - length s1) s))]) s1
      | r \<Rightarrow> r)"

definition p_word :: "string \<Rightarrow> parser" where
  "p_word w = foldr (\<lambda>c. p_seq (p_char c)) w (\<lambda>s. Matches [] s)"

text \<open>A switch on the next rune.\<close>

definition next_is :: "string \<Rightarrow> rune list \<Rightarrow> bool" where
  "next_is cs s \<longleftrightarrow> (case s of [] \<Rightarrow> False | r # _ \<Rightarrow> length r = 1 \<and> hd r \<in> set cs)"

subsection \<open>Letters\<close>

definition ascii_alnum :: "rune \<Rightarrow> bool" where
  "ascii_alnum r \<longleftrightarrow> length r = 1 \<and> is_alnum (hd r)"

definition other_letter :: "(rune \<Rightarrow> bool) \<Rightarrow> rune \<Rightarrow> bool" where
  "other_letter uni r \<longleftrightarrow> 1 < length r \<and> uni r"

definition rulespecial_char :: parser where
  "rulespecial_char = p_sat (\<lambda>r. length r = 1 \<and> (hd r \<in> set ''-+&|!(){}[]^~*?:'' \<or> hd r = CHR 0x22 \<or> hd r = CHR 0x5C))"

definition escaped :: parser where
  "escaped = p_seq (p_char CHR 0x5C) rulespecial_char"

definition rulestart_letter :: "(rune \<Rightarrow> bool) \<Rightarrow> parser" where
  "rulestart_letter uni s =
     (if next_is [CHR 0x5C] s then escaped s
      else p_sat (\<lambda>r. r = ''*'' \<or> r = ''_'' \<or> r = ''.'' \<or> ascii_alnum r \<or> other_letter uni r) s)"

text \<open>The letters that may follow. The last case, which was added by hand, does not move on.\<close>

definition next_letter :: "(rune \<Rightarrow> bool) \<Rightarrow> parser" where
  "next_letter uni s =
     (if next_is [CHR 0x5C] s then escaped s
      else if s \<noteq> [] \<and> other_letter uni (hd s) then Matches [] s
      else p_sat (\<lambda>r. r = ''-'' \<or> r = ''@'' \<or> r = ''.'' \<or> r = ''_'' \<or> r = ''?'' \<or> r = ''*'' \<or> ascii_alnum r) s)"

definition rulevalid_letter :: "(rune \<Rightarrow> bool) \<Rightarrow> parser" where
  "rulevalid_letter uni = p_seq (p_some (rulestart_letter uni)) (p_many (next_letter uni))"

definition rulespace :: parser where
  "rulespace = p_some (p_sat (\<lambda>r. r = [CHR 0x0D] \<or> r = [CHR 0x0A] \<or> r = [CHR 0x09] \<or> r = '' ''))"

definition rulekeyword :: parser where
  "rulekeyword s =
     (if next_is ''N'' s then p_word ''NOT'' s else if next_is ''O'' s then p_word ''OR'' s else p_word ''AND'' s)"

subsection \<open>Terms and fields\<close>

definition ruleterm :: "(rune \<Rightarrow> bool) \<Rightarrow> parser" where
  "ruleterm uni =
     p_seq (p_text (p_alt (p_seq rulekeyword (p_some (rulevalid_letter uni)))
                          (p_seq (p_not rulekeyword) (p_seq (p_not (p_char CHR ''?'')) (rulevalid_letter uni)))))
       (p_act DoAddTerm)"

definition rulestring :: "(rune \<Rightarrow> bool) \<Rightarrow> parser" where
  "rulestring uni =
     p_seq (p_char CHR 0x22)
       (p_seq (p_text (p_seq (ruleterm uni) (p_many (p_seq rulespace (ruleterm uni)))))
         (p_seq (p_char CHR 0x22) (p_act DoAddTerm)))"

definition rulefuzzy_param :: parser where
  "rulefuzzy_param =
     (let digit = p_sat (\<lambda>r. length r = 1 \<and> is_digit (hd r))
      in p_seq (p_text (p_alt (p_seq digit (p_seq (p_word ''.?'') digit)) (p_some digit))) (p_act DoAddTerm))"

definition rulefield_name :: "(rune \<Rightarrow> bool) \<Rightarrow> parser" where
  "rulefield_name uni = p_seq (p_text (p_seq (p_not rulekeyword) (p_some (rulevalid_letter uni)))) (p_act DoAddField)"

definition rulerange_value :: "(rune \<Rightarrow> bool) \<Rightarrow> parser" where
  "rulerange_value uni = p_seq (p_text (p_alt (p_some (rulevalid_letter uni)) (p_char CHR ''*''))) (p_act DoAddRange)"

definition range_of :: "(rune \<Rightarrow> bool) \<Rightarrow> bool \<Rightarrow> char \<Rightarrow> char \<Rightarrow> parser" where
  "range_of uni inclusive op cl =
     p_seq (p_act (DoStartRange inclusive)) (p_seq (rulefield_name uni) (p_seq (p_char CHR '':'') (p_seq (p_char op)
       (p_seq (rulerange_value uni) (p_seq (p_word '' TO '') (p_seq (rulerange_value uni) (p_char cl)))))))"

definition rulefield_range :: "(rune \<Rightarrow> bool) \<Rightarrow> parser" where
  "rulefield_range uni = p_alt (range_of uni True CHR ''['' CHR '']'') (range_of uni False CHR ''{'' CHR ''}'')"

text \<open>The rules that lead back to \<open>body\<close> take it as an argument.\<close>

definition rulesub_q :: "parser \<Rightarrow> parser" where
  "rulesub_q body = p_seq (p_char CHR ''('') (p_seq body (p_char CHR '')''))"

definition rulegroup :: "parser \<Rightarrow> parser" where
  "rulegroup body =
     p_seq (p_opt rulespace) (p_seq (p_act DoStartSubQuery) (p_seq (rulesub_q body)
       (p_seq (p_act DoEndSubQuery) (p_opt rulespace))))"

definition rulefield :: "(rune \<Rightarrow> bool) \<Rightarrow> parser \<Rightarrow> parser" where
  "rulefield uni body =
     p_alt
       (p_seq (p_act DoStartBasic) (p_seq (rulefield_name uni) (p_seq (p_char CHR '':'') (p_alt (ruleterm uni) (rulestring uni)))))
       (p_seq (p_act DoStartGrouped) (p_seq (rulefield_name uni) (p_seq (p_char CHR '':'')
         (p_seq (rulegroup body) (p_act DoSetCompleted)))))"

subsection \<open>Operators\<close>

definition rulenot_operator :: parser where
  "rulenot_operator = p_seq (p_word ''NOT'') (p_act (DoSetNotQuery OpUnaryNot))"

definition rulerequired_operator :: parser where
  "rulerequired_operator = p_seq (p_char CHR ''+'') (p_act (DoAddTermOp OpUnaryReq))"

definition operand :: "(rune \<Rightarrow> bool) \<Rightarrow> parser \<Rightarrow> parser" where
  "operand uni body = p_alt (rulefield uni body) (p_alt (rulefield_range uni) (p_alt (ruleterm uni) (rulestring uni)))"

definition term_or_string :: "(rune \<Rightarrow> bool) \<Rightarrow> parser" where
  "term_or_string uni = p_alt (ruleterm uni) (rulestring uni)"

definition boolean_operator :: parser where
  "boolean_operator =
     p_alt (p_seq (p_alt (p_word ''OR'') (p_word ''||'')) (p_act (DoAddOp OpBinOr)))
           (p_seq (p_alt (p_word ''AND'') (p_word ''&&'')) (p_act (DoAddOp OpBinAnd)))"

definition binary_op :: "(rune \<Rightarrow> bool) \<Rightarrow> parser \<Rightarrow> parser" where
  "binary_op uni body =
     p_seq (p_alt (rulegroup body) (p_alt (rulefield uni body) (p_alt (rulefield_range uni) (ruleterm uni))))
       (p_seq (p_opt rulespace) (p_seq boolean_operator (p_seq (p_some rulespace) body)))"

definition not_op :: "(rune \<Rightarrow> bool) \<Rightarrow> parser \<Rightarrow> parser" where
  "not_op uni body =
     p_alt (p_seq rulenot_operator (p_seq rulespace (operand uni body)))
       (p_seq (p_char CHR ''!'') (p_seq (p_act (DoSetNotQuery OpUnaryNot)) (p_seq (p_opt rulespace) (operand uni body))))"

definition prohibited_op :: "(rune \<Rightarrow> bool) \<Rightarrow> parser \<Rightarrow> parser" where
  "prohibited_op uni body =
     p_seq (p_not (rulevalid_letter uni))
       (p_seq (p_char CHR ''-'') (p_seq (p_act (DoSetNotQuery OpUnaryPro)) (operand uni body)))"

definition required_op :: "(rune \<Rightarrow> bool) \<Rightarrow> parser" where
  "required_op uni =
     p_alt (p_seq (p_not (rulevalid_letter uni)) (p_seq rulerequired_operator (term_or_string uni)))
       (p_seq rulerequired_operator (term_or_string uni))"

definition not_sub_op :: "parser \<Rightarrow> parser" where
  "not_sub_op body =
     p_seq (p_act DoStartSubQuery) (p_seq rulenot_operator (p_seq rulespace (p_seq (rulesub_q body) (p_act DoEndSubQuery))))"

definition unary_op :: "(rune \<Rightarrow> bool) \<Rightarrow> parser \<Rightarrow> parser" where
  "unary_op uni body =
     p_alt (not_op uni body)
       (\<lambda>s. if next_is ''-'' s then prohibited_op uni body s
            else if next_is ''+'' s then required_op uni s else not_sub_op body s)"

definition fuzzy_op :: "(rune \<Rightarrow> bool) \<Rightarrow> parser" where
  "fuzzy_op uni =
     p_seq (term_or_string uni) (p_seq (p_char CHR ''~'') (p_seq (p_act (DoAddOp OpFuzzy))
       (p_seq (p_opt rulefuzzy_param) (p_alt rulespace (p_not (rulevalid_letter uni))))))"

definition boost_op :: "(rune \<Rightarrow> bool) \<Rightarrow> parser" where
  "boost_op uni =
     p_seq (term_or_string uni) (p_seq (p_char CHR ''^'') (p_seq (p_act (DoAddOp OpBoost)) rulefuzzy_param))"

definition operation :: "(rune \<Rightarrow> bool) \<Rightarrow> parser \<Rightarrow> parser" where
  "operation uni body =
     p_alt (binary_op uni body) (p_alt (unary_op uni body) (p_alt (fuzzy_op uni) (boost_op uni)))"

definition expression :: "(rune \<Rightarrow> bool) \<Rightarrow> parser \<Rightarrow> parser" where
  "expression uni body =
     p_alt (operation uni body) (p_alt (rulefield uni body) (p_alt (rulefield_range uni)
       (\<lambda>s. if next_is [CHR 0x22] s then rulestring uni s
            else if next_is [CHR 0x09, CHR 0x0A, CHR 0x0D, CHR '' '', CHR ''(''] s then rulegroup body s
            else ruleterm uni s)))"

text \<open>Calls of \<open>body\<close> are nested at most as deep as there are runes, so that the depth given by
  \<open>Parse\<close> is never used up.\<close>

fun rulebody :: "nat \<Rightarrow> (rune \<Rightarrow> bool) \<Rightarrow> parser" where
  "rulebody 0 uni s = Diverges"
| "rulebody (Suc n) uni s = p_many (p_alt (expression uni (rulebody n uni)) rulespace) s"

definition ruleq :: "(rune \<Rightarrow> bool) \<Rightarrow> parser" where
  "ruleq uni s = p_seq (rulebody (Suc (length s)) uni) (p_not (p_sat (\<lambda>_. True))) s"

end
