(* ===== verification/QueryTermination.thy ===== *)
theory QueryTermination
  imports QueryGrammar
begin

text \<open>
  The recognizer of queries always returns on queries without letters and numbers outside ASCII,
  and there are queries with one on which it does not return.
\<close>

named_theorems suff_intros and eats_intros and sim_intros and halts_intros

subsection \<open>What a parser leaves is the end of what it was given\<close>

definition suff :: "parser \<Rightarrow> bool" where
  "suff p \<longleftrightarrow> (\<forall>s ts s1. p s = Matches ts s1 \<longrightarrow> (\<exists>pre. s = pre @ s1))"

definition eats :: "parser \<Rightarrow> bool" where
  "eats p \<longleftrightarrow> (\<forall>s ts s1. p s = Matches ts s1 \<longrightarrow> (\<exists>pre. pre \<noteq> [] \<and> s = pre @ s1))"

lemma eats_suff: "eats p \<Longrightarrow> suff p"
  unfolding eats_def suff_def by blast

lemma suff_length: "suff p \<Longrightarrow> p s = Matches ts s1 \<Longrightarrow> length s1 \<le> length s"
  by (fastforce simp: suff_def)

lemma eats_length: "eats p \<Longrightarrow> p s = Matches ts s1 \<Longrightarrow> length s1 < length s"
  by (fastforce simp: eats_def)

lemma suff_elems: "suff p \<Longrightarrow> p s = Matches ts s1 \<Longrightarrow> list_all P s \<Longrightarrow> list_all P s1"
  by (fastforce simp: suff_def)

lemma p_seq_Matches:
  "p_seq p q s = Matches ts s2 \<longleftrightarrow> (\<exists>us vs s1. p s = Matches us s1 \<and> q s1 = Matches vs s2 \<and> ts = us @ vs)"
  by (auto simp: p_seq_def split: result.split)

lemma suff_basic [suff_intros]:
  "suff (p_sat P)" "suff (p_char c)" "suff (p_act a)" "suff (\<lambda>s. Matches ts s)"
  by (auto simp: suff_def p_sat_def p_char_def p_act_def split: list.splits if_splits)

lemma eats_basic [eats_intros]: "eats (p_sat P)" "eats (p_char c)"
  by (auto simp: eats_def p_sat_def p_char_def split: list.splits if_splits)

lemma suff_seq [suff_intros]: "suff p \<Longrightarrow> suff q \<Longrightarrow> suff (p_seq p q)"
  unfolding suff_def p_seq_Matches by (metis append.assoc)

lemma eats_seq1: "eats p \<Longrightarrow> suff q \<Longrightarrow> eats (p_seq p q)"
  unfolding suff_def eats_def p_seq_Matches by (metis append.assoc append_is_Nil_conv)

lemma eats_seq2: "suff p \<Longrightarrow> eats q \<Longrightarrow> eats (p_seq p q)"
  unfolding suff_def eats_def p_seq_Matches by (metis append.assoc append_is_Nil_conv)

lemma suff_alt [suff_intros]: "suff p \<Longrightarrow> suff q \<Longrightarrow> suff (p_alt p q)"
  unfolding suff_def p_alt_def by (auto split: result.splits)

lemma eats_alt [eats_intros]: "eats p \<Longrightarrow> eats q \<Longrightarrow> eats (p_alt p q)"
  unfolding eats_def p_alt_def by (auto split: result.splits)

lemma suff_opt [suff_intros]: "suff p \<Longrightarrow> suff (p_opt p)"
  unfolding suff_def p_opt_def by (auto split: result.splits)

lemma suff_not [suff_intros]: "suff (p_not p)"
  unfolding suff_def p_not_def by (auto split: result.splits)

lemma suff_text [suff_intros]: "suff p \<Longrightarrow> suff (p_text p)"
  unfolding suff_def p_text_def by (auto split: result.splits)

lemma eats_text [eats_intros]: "eats p \<Longrightarrow> eats (p_text p)"
  unfolding eats_def p_text_def by (auto split: result.splits)

lemma p_many_cases:
  assumes "p_many p s = Matches ts s1"
  obtains (stop) "p s = Fails" "ts = []" "s1 = s"
  | (loop) us vs s2 where "p s = Matches us s2" "length s2 < length s" "p_many p s2 = Matches vs s1" "ts = us @ vs"
proof -
  have "p_many p s = (case p s of Fails \<Rightarrow> Matches [] s | Diverges \<Rightarrow> Diverges
      | Matches ts s1 \<Rightarrow> (if length s1 < length s then
          (case p_many p s1 of Matches us s2 \<Rightarrow> Matches (ts @ us) s2 | r \<Rightarrow> r) else Diverges))"
    by (rule p_many.simps)
  with assms show thesis by (auto intro: that split: result.splits if_splits)
qed

lemma suff_many [suff_intros]: "suff p \<Longrightarrow> suff (p_many p)"
proof -
  assume p: "suff p"
  have "\<exists>pre. s = pre @ s1" if "p_many p s = Matches ts s1" for s ts s1
    using that
  proof (induction "length s" arbitrary: s ts rule: less_induct)
    case less
    from less.prems show ?case
    proof (cases rule: p_many_cases)
      case (loop us vs s2)
      then obtain pre where "s2 = pre @ s1" using less.hyps by blast
      moreover obtain pre' where "s = pre' @ s2" using loop(1) p unfolding suff_def by blast
      ultimately show ?thesis by simp
    qed simp
  qed
  then show ?thesis by (auto simp: suff_def)
qed

lemma suff_some [suff_intros]: "suff p \<Longrightarrow> suff (p_some p)"
  unfolding p_some_def by (intro suff_intros)

lemma eats_some [eats_intros]: "eats p \<Longrightarrow> eats (p_some p)"
  unfolding p_some_def by (intro eats_seq1 suff_many eats_suff)

lemma p_word_Cons: "p_word (c # w) = p_seq (p_char c) (p_word w)" "p_word [] = (\<lambda>s. Matches [] s)"
  by (simp_all add: p_word_def)

lemma suff_word [suff_intros]: "suff (p_word w)"
  by (induction w) (simp_all add: p_word_Cons suff_intros)

lemma eats_word [eats_intros]: "w \<noteq> [] \<Longrightarrow> eats (p_word w)"
  by (cases w) (simp_all add: p_word_Cons eats_seq1 eats_intros suff_intros)

lemma suff_if [suff_intros]:
  "suff p \<Longrightarrow> suff q \<Longrightarrow> suff (\<lambda>s. if b s then p s else q s)"
  by (simp add: suff_def)

lemma eats_if [eats_intros]:
  "eats p \<Longrightarrow> eats q \<Longrightarrow> eats (\<lambda>s. if b s then p s else q s)"
  by (simp add: eats_def)

subsection \<open>The rules move on\<close>

lemma eats_letters [eats_intros]:
  "eats rulespecial_char" "eats escaped" "eats (rulestart_letter uni)" "eats rulespace" "eats rulekeyword"
proof -
  show sp: "eats rulespecial_char" unfolding rulespecial_char_def by (rule eats_basic)
  show e: "eats escaped" unfolding escaped_def by (intro eats_seq1 eats_basic eats_suff [OF sp])
  have "rulestart_letter uni = (\<lambda>s. if next_is [CHR 0x5C] s then escaped s
      else p_sat (\<lambda>r. r = ''*'' \<or> r = ''_'' \<or> r = ''.'' \<or> ascii_alnum r \<or> other_letter uni r) s)"
    by (simp add: fun_eq_iff rulestart_letter_def)
  then show "eats (rulestart_letter uni)" by (simp add: eats_if e eats_basic)
  show "eats rulespace" unfolding rulespace_def by (intro eats_intros)
  have "rulekeyword = (\<lambda>s. if next_is ''N'' s then p_word ''NOT'' s else if next_is ''O'' s then p_word ''OR'' s else p_word ''AND'' s)"
    by (simp add: fun_eq_iff rulekeyword_def)
  moreover have "eats \<dots>" by (intro eats_if eats_word) simp_all
  ultimately show "eats rulekeyword" by simp
qed

lemma suff_next_letter [suff_intros]: "suff (next_letter uni)"
proof -
  have "next_letter uni = (\<lambda>s. if next_is [CHR 0x5C] s then escaped s
      else (if s \<noteq> [] \<and> other_letter uni (hd s) then Matches [] s
        else p_sat (\<lambda>r. r = ''-'' \<or> r = ''@'' \<or> r = ''.'' \<or> r = ''_'' \<or> r = ''?'' \<or> r = ''*'' \<or> ascii_alnum r) s))"
    by (simp add: fun_eq_iff next_letter_def)
  moreover have "suff \<dots>" by (intro suff_if suff_basic eats_suff [OF eats_letters(2)])
  ultimately show ?thesis by simp
qed

lemma eats_terms [eats_intros]:
  "eats (rulevalid_letter uni)" "eats (ruleterm uni)" "eats (rulestring uni)" "eats rulefuzzy_param"
  "eats (rulefield_name uni)" "eats (rulerange_value uni)" "eats (range_of uni i a b)" "eats (rulefield_range uni)"
proof -
  show v: "eats (rulevalid_letter uni)" unfolding rulevalid_letter_def by (intro eats_seq1 eats_intros suff_intros)
  have some: "eats (p_some (rulevalid_letter uni))" by (intro eats_intros v)
  show t: "eats (ruleterm uni)" unfolding ruleterm_def
    by (intro eats_seq1 eats_text eats_alt eats_letters suff_intros eats_suff [OF some] eats_seq2 v)
  show "eats (rulestring uni)" unfolding rulestring_def
    by (intro eats_seq1 eats_basic suff_intros eats_suff [OF t] eats_suff [OF eats_letters(4)])
  show "eats rulefuzzy_param" unfolding rulefuzzy_param_def Let_def
    by (intro eats_seq1 eats_text eats_alt eats_basic suff_intros eats_some)
  show f: "eats (rulefield_name uni)" unfolding rulefield_name_def
    by (intro eats_seq1 [OF eats_text] eats_seq2 suff_intros some)
  show r: "eats (rulerange_value uni)" unfolding rulerange_value_def
    by (intro eats_seq1 eats_text eats_alt eats_basic suff_intros some)
  show ro: "eats (range_of uni i a b)" for i a b unfolding range_of_def
    by (intro eats_seq2 [OF suff_basic(3)] eats_seq1 [OF f] suff_intros eats_suff [OF r])
  show "eats (rulefield_range uni)" unfolding rulefield_range_def by (intro eats_alt ro)
qed

lemma eats_recursive [eats_intros]:
  assumes b: "suff body"
  shows "eats (rulesub_q body)" "eats (rulegroup body)" "eats (rulefield uni body)" "eats (operand uni body)"
    "eats (binary_op uni body)" "eats (not_op uni body)" "eats (prohibited_op uni body)" "eats (not_sub_op body)"
proof -
  note sp = eats_suff [OF eats_letters(4)]
  show q: "eats (rulesub_q body)" unfolding rulesub_q_def by (intro eats_seq1 eats_basic suff_intros b)
  show g: "eats (rulegroup body)" unfolding rulegroup_def
    by (intro eats_seq2 [OF suff_opt [OF sp]] eats_seq2 [OF suff_basic(3)] eats_seq1 [OF q] suff_intros sp)
  show f: "eats (rulefield uni body)" unfolding rulefield_def
    by (intro eats_alt eats_seq2 [OF suff_basic(3)] eats_seq1 [OF eats_terms(5)] suff_intros eats_suff [OF eats_terms(2)]
        eats_suff [OF eats_terms(3)] eats_suff [OF g])
  show o: "eats (operand uni body)" unfolding operand_def by (intro eats_alt f eats_terms)
  have "suff boolean_operator" unfolding boolean_operator_def by (intro suff_intros)
  then show "eats (binary_op uni body)" unfolding binary_op_def
    by (intro eats_seq1 eats_alt g f eats_terms suff_intros sp b)
  show "eats (not_op uni body)" unfolding not_op_def rulenot_operator_def
    by (intro eats_alt eats_seq1 eats_basic eats_word suff_intros sp eats_suff [OF o]) simp
  show "eats (prohibited_op uni body)" unfolding prohibited_op_def
    by (intro eats_seq2 [OF suff_not] eats_seq1 eats_basic suff_intros eats_suff [OF o])
  show "eats (not_sub_op body)" unfolding not_sub_op_def rulenot_operator_def
    by (intro eats_seq2 [OF suff_basic(3)] eats_seq1 eats_word suff_intros sp eats_suff [OF q]) simp
qed

lemma eats_simple_ops [eats_intros]: "eats (term_or_string uni)" "eats (required_op uni)" "eats (fuzzy_op uni)" "eats (boost_op uni)"
proof -
  show t: "eats (term_or_string uni)" unfolding term_or_string_def by (intro eats_alt eats_terms)
  show "eats (required_op uni)" unfolding required_op_def rulerequired_operator_def
    by (intro eats_alt eats_seq2 [OF _ t] suff_intros eats_seq2 [OF suff_not])
  show "eats (fuzzy_op uni)" unfolding fuzzy_op_def
    by (intro eats_seq1 [OF t] suff_intros eats_suff [OF eats_terms(4)] eats_suff [OF eats_letters(4)])
  show "eats (boost_op uni)" unfolding boost_op_def by (intro eats_seq1 [OF t] suff_intros eats_suff [OF eats_terms(4)])
qed

lemma eats_expression [eats_intros]: "suff body \<Longrightarrow> eats (expression uni body)"
  unfolding expression_def operation_def unary_op_def
  by (intro eats_alt eats_if eats_recursive eats_simple_ops eats_terms)

lemma suff_body [suff_intros]: "suff (rulebody n uni)"
proof (induction n)
  case (Suc n)
  have "rulebody (Suc n) uni = p_many (p_alt (expression uni (rulebody n uni)) rulespace)" by (simp add: fun_eq_iff)
  with Suc show ?case by (auto intro!: suff_many suff_alt eats_suff [OF eats_expression] eats_suff [OF eats_letters(4)])
qed (simp add: suff_def)


subsection \<open>The depth of nesting\<close>

text \<open>Two parsers that agree on short inputs.\<close>

definition sim :: "nat \<Rightarrow> parser \<Rightarrow> parser \<Rightarrow> bool" where
  "sim n p p' \<longleftrightarrow> (\<forall>s. length s < n \<longrightarrow> p s = p' s)"

lemma sim_refl: "sim n p p"
  by (simp add: sim_def)

lemma sim_then:
  assumes "sim n p p'" "\<And>s us s1. length s < n \<Longrightarrow> p s = Matches us s1 \<Longrightarrow> q s1 = q' s1"
  shows "sim n (p_seq p q) (p_seq p' q')"
  unfolding sim_def
proof (intro allI impI)
  fix s :: "rune list"
  assume s: "length s < n"
  then have "p' s = p s" using assms(1) by (simp add: sim_def)
  then show "p_seq p q s = p_seq p' q' s" unfolding p_seq_def using assms(2) [OF s] by (cases "p s") simp_all
qed

lemma sim_seq: "sim n p p' \<Longrightarrow> suff p \<Longrightarrow> sim n q q' \<Longrightarrow> sim n (p_seq p q) (p_seq p' q')"
  by (rule sim_then) (auto simp: sim_def dest!: suff_length)

lemma sim_eats: "sim (Suc n) p p' \<Longrightarrow> eats p \<Longrightarrow> sim n q q' \<Longrightarrow> sim (Suc n) (p_seq p q) (p_seq p' q')"
  by (rule sim_then) (auto simp: sim_def dest!: eats_length)

lemma sim_alt: "sim n p p' \<Longrightarrow> sim n q q' \<Longrightarrow> sim n (p_alt p q) (p_alt p' q')"
  unfolding sim_def p_alt_def by (auto split: result.split)

lemma sim_if: "sim n p p' \<Longrightarrow> sim n q q' \<Longrightarrow> sim n (\<lambda>s. if b s then p s else q s) (\<lambda>s. if b s then p' s else q' s)"
  unfolding sim_def by simp

lemma sim_many: "sim n p p' \<Longrightarrow> sim n (p_many p) (p_many p')"
proof -
  assume p: "sim n p p'"
  have "p_many p s = p_many p' s" if "length s < n" for s
    using that
  proof (induction "length s" arbitrary: s rule: less_induct)
    case less
    have "p s = p' s" using p less.prems by (simp add: sim_def)
    moreover have "p_many p s1 = p_many p' s1" if "length s1 < length s" for s1 using less that by simp
    ultimately show ?case unfolding p_many.simps [of p s] p_many.simps [of p' s] by (auto split: result.split)
  qed
  then show ?thesis by (simp add: sim_def)
qed

lemma sim_recursive:
  assumes b: "sim n body body'" "suff body"
  shows "sim (Suc n) (rulesub_q body) (rulesub_q body')" "sim (Suc n) (rulegroup body) (rulegroup body')"
    "sim (Suc n) (rulefield uni body) (rulefield uni body')" "sim (Suc n) (operand uni body) (operand uni body')"
    "sim (Suc n) (binary_op uni body) (binary_op uni body')" "sim (Suc n) (unary_op uni body) (unary_op uni body')"
proof -
  note sp = eats_suff [OF eats_letters(4)] and e = eats_recursive [OF b(2)]
  show q: "sim (Suc n) (rulesub_q body) (rulesub_q body')" unfolding rulesub_q_def
    by (intro sim_eats [OF sim_refl eats_basic(2)] sim_seq b sim_refl)
  show g: "sim (Suc n) (rulegroup body) (rulegroup body')" unfolding rulegroup_def
    by (intro sim_seq sim_refl q suff_intros sp eats_suff [OF e(1)])
  show f: "sim (Suc n) (rulefield uni body) (rulefield uni body')" unfolding rulefield_def
    by (intro sim_alt sim_refl sim_seq g suff_intros eats_suff [OF eats_terms(5)] eats_suff [OF e(2)])
  show o: "sim (Suc n) (operand uni body) (operand uni body')" unfolding operand_def by (intro sim_alt f sim_refl)
  have "suff boolean_operator" unfolding boolean_operator_def by (intro suff_intros)
  then have rest: "sim n (p_seq (p_opt rulespace) (p_seq boolean_operator (p_seq (p_some rulespace) body)))
      (p_seq (p_opt rulespace) (p_seq boolean_operator (p_seq (p_some rulespace) body')))"
    by (intro sim_seq sim_refl suff_intros sp b)
  show "sim (Suc n) (binary_op uni body) (binary_op uni body')" unfolding binary_op_def
    by (intro sim_eats [OF _ _ rest] sim_alt g f sim_refl eats_alt e eats_terms)
  have no: "suff rulenot_operator" unfolding rulenot_operator_def by (intro suff_intros)
  show "sim (Suc n) (unary_op uni body) (unary_op uni body')"
    unfolding unary_op_def not_op_def prohibited_op_def not_sub_op_def
    by (intro sim_alt sim_if sim_seq sim_refl o q suff_intros sp no eats_suff [OF e(1)])
qed

lemma sim_expression: "sim n body body' \<Longrightarrow> suff body \<Longrightarrow> sim (Suc n) (expression uni body) (expression uni body')"
  unfolding expression_def operation_def by (intro sim_alt sim_if sim_recursive sim_refl)

lemma body_depth: "n \<le> m \<Longrightarrow> sim n (rulebody n uni) (rulebody m uni)"
proof (induction n arbitrary: m)
  case (Suc n)
  then obtain k where m: "m = Suc k" "n \<le> k" by (cases m) auto
  have "sim (Suc n) (p_many (p_alt (expression uni (rulebody n uni)) rulespace)) (p_many (p_alt (expression uni (rulebody k uni)) rulespace))"
    by (intro sim_many sim_alt sim_expression Suc.IH [OF m(2)] suff_body sim_refl)
  then show ?case by (simp add: m sim_def)
qed (simp add: sim_def)

subsection \<open>Termination\<close>

definition plain :: "(rune \<Rightarrow> bool) \<Rightarrow> rune list \<Rightarrow> bool" where
  "plain uni s \<longleftrightarrow> list_all (\<lambda>r. \<not> other_letter uni r) s"

definition halts :: "(rune \<Rightarrow> bool) \<Rightarrow> nat \<Rightarrow> parser \<Rightarrow> bool" where
  "halts uni n p \<longleftrightarrow> (\<forall>s. length s < n \<longrightarrow> plain uni s \<longrightarrow> p s \<noteq> Diverges)"

lemma halts_basic [halts_intros]:
  "halts uni n (p_sat P)" "halts uni n (p_char c)" "halts uni n (p_act a)" "halts uni n (\<lambda>s. Matches ts s)"
  by (auto simp: halts_def p_sat_def p_char_def p_act_def split: list.splits)

lemma halts_seq: "halts uni n p \<Longrightarrow> suff p \<Longrightarrow> halts uni n q \<Longrightarrow> halts uni n (p_seq p q)"
  unfolding halts_def p_seq_def plain_def
  by (auto split: result.split) (metis suff_elems suff_length order.strict_trans1)

lemma halts_eats: "halts uni (Suc n) p \<Longrightarrow> eats p \<Longrightarrow> halts uni n q \<Longrightarrow> halts uni (Suc n) (p_seq p q)"
  unfolding halts_def p_seq_def plain_def
  by (auto split: result.split) (metis eats_suff suff_elems eats_length less_Suc_eq_le order.strict_trans2)

lemma halts_simple [halts_intros]:
  "halts uni n p \<Longrightarrow> halts uni n q \<Longrightarrow> halts uni n (p_alt p q)" "halts uni n p \<Longrightarrow> halts uni n (p_opt p)"
  "halts uni n p \<Longrightarrow> halts uni n (p_not p)" "halts uni n p \<Longrightarrow> halts uni n (p_text p)"
  "halts uni n p \<Longrightarrow> halts uni n q \<Longrightarrow> halts uni n (\<lambda>s. if b s then p s else q s)"
  by (auto simp: halts_def p_alt_def p_opt_def p_not_def p_text_def split: result.split)

lemma halts_loop:
  assumes "halts uni n p" "suff p" "\<And>s ts s1. plain uni s \<Longrightarrow> p s = Matches ts s1 \<Longrightarrow> length s1 < length s"
  shows "halts uni n (p_many p)"
proof -
  have "p_many p s \<noteq> Diverges" if "length s < n" "plain uni s" for s
    using that
  proof (induction "length s" arbitrary: s rule: less_induct)
    case less
    show ?case
    proof (cases "p s")
      case (Matches ts s1)
      have "length s1 < length s" using assms(3) [OF less.prems(2) Matches] .
      moreover from this less Matches have "p_many p s1 \<noteq> Diverges"
        using suff_elems [OF assms(2) Matches] by (auto simp: plain_def)
      ultimately show ?thesis using Matches by (subst p_many.simps) (auto split: result.split)
    qed (use assms(1) less.prems in \<open>subst p_many.simps; simp add: halts_def\<close>)+
  qed
  then show ?thesis by (simp add: halts_def)
qed

lemma halts_many [halts_intros]: "halts uni n p \<Longrightarrow> eats p \<Longrightarrow> halts uni n (p_many p)"
  by (rule halts_loop) (auto intro: eats_suff eats_length)

lemma halts_some [halts_intros]: "halts uni n p \<Longrightarrow> eats p \<Longrightarrow> halts uni n (p_some p)"
  unfolding p_some_def by (intro halts_seq halts_many eats_suff)

lemma halts_word [halts_intros]: "halts uni n (p_word w)"
  by (induction w) (simp_all add: p_word_Cons halts_basic halts_seq suff_basic)


lemma halts_letters [halts_intros]:
  "halts uni n escaped" "halts uni n (rulestart_letter uni)" "halts uni n (p_many (next_letter uni))"
  "halts uni n (rulevalid_letter uni)" "halts uni n rulespace" "halts uni n rulekeyword"
proof -
  show e: "halts uni n escaped" unfolding escaped_def rulespecial_char_def by (intro halts_seq halts_basic suff_basic)
  show st: "halts uni n (rulestart_letter uni)"
    using e by (auto simp: halts_def rulestart_letter_def p_sat_def split: list.split)
  have "halts uni n (next_letter uni)" using e by (auto simp: halts_def next_letter_def p_sat_def split: list.split)
  moreover have "length s1 < length s" if "plain uni s" "next_letter uni s = Matches ts s1" for s ts s1
  proof -
    have "\<not> (s \<noteq> [] \<and> other_letter uni (hd s))" using that(1) by (cases s) (auto simp: plain_def)
    with that(2) eats_length [OF eats_letters(2), of s] eats_length [OF eats_basic(1), of _ s] show ?thesis
      by (auto simp: next_letter_def split: if_splits)
  qed
  ultimately show nx: "halts uni n (p_many (next_letter uni))" by (intro halts_loop suff_next_letter)
  show "halts uni n (rulevalid_letter uni)" unfolding rulevalid_letter_def
    by (intro halts_seq halts_some st eats_letters nx suff_some eats_suff [OF eats_letters(3)])
  show "halts uni n rulespace" unfolding rulespace_def by (intro halts_intros eats_basic)
  show "halts uni n rulekeyword" using halts_word [of uni n] by (simp add: halts_def rulekeyword_def)
qed

lemma halts_terms [halts_intros]:
  "halts uni n (ruleterm uni)" "halts uni n (rulestring uni)" "halts uni n rulefuzzy_param" "halts uni n (rulefield_name uni)"
  "halts uni n (rulerange_value uni)" "halts uni n (rulefield_range uni)"
proof -
  note v = halts_letters(4) and vs = eats_suff [OF eats_terms(1)] and sp = eats_suff [OF eats_letters(4)]
  show t: "halts uni n (ruleterm uni)" unfolding ruleterm_def
    by (intro halts_seq halts_simple halts_letters halts_basic halts_some eats_terms suff_intros vs eats_suff [OF eats_letters(5)])
  show "halts uni n (rulestring uni)" unfolding rulestring_def
    by (intro halts_seq halts_simple halts_many t halts_letters halts_basic suff_intros sp eats_suff [OF eats_terms(2)] eats_seq1 eats_letters)
  show "halts uni n rulefuzzy_param" unfolding rulefuzzy_param_def Let_def
    by (intro halts_seq halts_simple halts_some halts_basic halts_word suff_intros eats_basic)
  show f: "halts uni n (rulefield_name uni)" unfolding rulefield_name_def
    by (intro halts_seq halts_simple halts_some halts_letters halts_basic eats_terms suff_intros vs)
  show r: "halts uni n (rulerange_value uni)" unfolding rulerange_value_def
    by (intro halts_seq halts_simple halts_some halts_letters halts_basic eats_terms suff_intros vs)
  show "halts uni n (rulefield_range uni)" unfolding rulefield_range_def range_of_def
    by (intro halts_seq halts_simple halts_basic halts_word f r suff_intros eats_suff [OF eats_terms(5)] eats_suff [OF eats_terms(6)])
qed

lemma halts_recursive:
  assumes b: "halts uni n body" "suff body"
  shows "halts uni (Suc n) (rulesub_q body)" "halts uni (Suc n) (rulegroup body)" "halts uni (Suc n) (rulefield uni body)"
    "halts uni (Suc n) (operand uni body)" "halts uni (Suc n) (binary_op uni body)" "halts uni (Suc n) (unary_op uni body)"
proof -
  note sp = eats_suff [OF eats_letters(4)] and e = eats_recursive [OF b(2)] and v = eats_suff [OF eats_terms(1)]
  show q: "halts uni (Suc n) (rulesub_q body)" unfolding rulesub_q_def
    by (intro halts_eats [OF halts_basic(2) eats_basic(2)] halts_seq b halts_basic)
  show g: "halts uni (Suc n) (rulegroup body)" unfolding rulegroup_def
    by (intro halts_seq halts_simple halts_letters halts_basic q suff_intros sp eats_suff [OF e(1)])
  show f: "halts uni (Suc n) (rulefield uni body)" unfolding rulefield_def
    by (intro halts_seq halts_simple halts_basic halts_terms g suff_intros eats_suff [OF eats_terms(5)] eats_suff [OF e(2)])
  show o: "halts uni (Suc n) (operand uni body)" unfolding operand_def by (intro halts_simple f halts_terms)
  have bo: "suff boolean_operator" "\<And>n. halts uni n boolean_operator" unfolding boolean_operator_def
    by (intro suff_intros halts_seq halts_simple halts_word halts_basic)+
  have rest: "halts uni n (p_seq (p_opt rulespace) (p_seq boolean_operator (p_seq (p_some rulespace) body)))"
    by (intro halts_seq halts_simple halts_some halts_letters bo b suff_intros sp eats_letters)
  show "halts uni (Suc n) (binary_op uni body)" unfolding binary_op_def
    by (intro halts_eats [OF _ _ rest] halts_simple g f halts_terms eats_alt e eats_terms)
  have no: "suff rulenot_operator" "\<And>n. halts uni n rulenot_operator" unfolding rulenot_operator_def
    by (intro suff_intros halts_seq halts_word halts_basic)+
  have rq: "suff rulerequired_operator" "\<And>n. halts uni n rulerequired_operator" unfolding rulerequired_operator_def
    by (intro suff_intros halts_seq halts_basic)+
  show "halts uni (Suc n) (unary_op uni body)"
    unfolding unary_op_def not_op_def prohibited_op_def not_sub_op_def required_op_def term_or_string_def
    by (intro halts_seq halts_simple halts_basic halts_letters halts_terms o q no rq suff_intros sp v eats_suff [OF e(1)])
qed

lemma halts_expression: "halts uni n body \<Longrightarrow> suff body \<Longrightarrow> halts uni (Suc n) (expression uni body)"
  unfolding expression_def operation_def fuzzy_op_def boost_op_def term_or_string_def
  by (intro halts_simple halts_recursive halts_seq halts_basic halts_terms halts_letters suff_intros
      eats_suff [OF eats_terms(2)] eats_suff [OF eats_terms(3)] eats_suff [OF eats_terms(4)])

lemma halts_body: "halts uni n (rulebody n uni)"
proof (induction n)
  case (Suc n)
  have "halts uni (Suc n) (p_many (p_alt (expression uni (rulebody n uni)) rulespace))"
    by (intro halts_many halts_simple halts_expression Suc suff_body halts_letters eats_alt eats_expression eats_letters)
  then show ?case by (simp add: halts_def)
qed (simp add: halts_def)

text \<open>\<^bold>\<open>C23\<close>. The recognizer returns on every query without letters and numbers outside ASCII, with
  calls nested no deeper than the query is long; a greater depth never changes its result on any
  query.\<close>

theorem query_parse_terminates:
  "(plain uni s \<longrightarrow> ruleq uni s \<noteq> Diverges) \<and> (length s < n \<longrightarrow> rulebody n uni s = rulebody (Suc (length s)) uni s)"
proof (intro conjI impI)
  assume "plain uni s"
  then have "rulebody (Suc (length s)) uni s \<noteq> Diverges" using halts_body [of uni "Suc (length s)"] by (simp add: halts_def)
  then show "ruleq uni s \<noteq> Diverges"
    by (auto simp: ruleq_def p_seq_def p_not_def p_sat_def split: result.split list.split)
next
  assume "length s < n"
  then show "rulebody n uni s = rulebody (Suc (length s)) uni s"
    using body_depth [of "Suc (length s)" n uni] by (simp add: sim_def)
qed

lemma ascii_plain: "list_all (\<lambda>r. length r = 1) s \<Longrightarrow> plain uni s"
  by (auto simp: plain_def other_letter_def list_all_iff)

theorem query_parse_terminates_witness:
  "ruleq (\<lambda>_. True) (runes ''name:web* AND NOT (role:db OR x-y)'') \<noteq> Diverges"
proof -
  have "list_all (\<lambda>r. length r = 1) (runes ''name:web* AND NOT (role:db OR x-y)'')" by code_simp
  then show ?thesis using query_parse_terminates [of "\<lambda>_. True"] ascii_plain by blast
qed

subsection \<open>Queries that are never answered\<close>

lemma start_letters:
  "list_all ascii_alnum w \<Longrightarrow> p_many (rulestart_letter uni) (w @ ''-'' # t) = Matches [] (''-'' # t)"
proof (induction w)
  case Nil
  have "rulestart_letter uni (''-'' # t) = Fails"
    by (simp add: rulestart_letter_def next_is_def p_sat_def ascii_alnum_def other_letter_def is_alnum_def is_digit_def is_upper_def is_lower_def)
  then show ?case by (subst p_many.simps) simp
next
  case (Cons r w)
  have "rulestart_letter uni (r # w @ ''-'' # t) = Matches [] (w @ ''-'' # t)"
    using Cons.prems by (auto simp: rulestart_letter_def next_is_def p_sat_def ascii_alnum_def is_alnum_def is_digit_def is_upper_def is_lower_def)
  with Cons show ?case by (subst p_many.simps) simp
qed

lemma letter_loops:
  assumes "w \<noteq> []" "list_all ascii_alnum w" "other_letter uni r"
  shows "rulevalid_letter uni (w @ ''-'' # r # t) = Diverges"
proof -
  obtain a v where w: "w = a # v" using assms(1) by (cases w) auto
  have a: "rulestart_letter uni (w @ ''-'' # r # t) = Matches [] (v @ ''-'' # r # t)"
    using assms(2) by (auto simp: w rulestart_letter_def next_is_def p_sat_def ascii_alnum_def is_alnum_def is_digit_def is_upper_def is_lower_def)
  have "next_letter uni (r # t) = Matches [] (r # t)"
    using assms(3) by (auto simp: next_letter_def next_is_def other_letter_def)
  then have r: "p_many (next_letter uni) (r # t) = Diverges" by (subst p_many.simps) simp
  have "next_letter uni (''-'' # r # t) = Matches [] (r # t)"
    by (simp add: next_letter_def next_is_def other_letter_def p_sat_def)
  with r have "p_many (next_letter uni) (''-'' # r # t) = Diverges" by (subst p_many.simps) simp
  then show ?thesis
    using a start_letters [of v uni "r # t"] assms(2) by (simp add: w rulevalid_letter_def p_some_def p_seq_def)
qed

lemma query_loops:
  assumes "w \<noteq> []" "list_all ascii_alnum w" "hd w \<noteq> ''N''" "hd w \<noteq> ''O''" "hd w \<noteq> ''A''" "other_letter uni r"
  shows "ruleq uni (w @ ''-'' # r # rest) = Diverges"
proof -
  let ?s = "w @ ''-'' # r # rest"
  obtain a v where w: "w = a # v" using assms(1) by (cases w) auto
  have a: "ascii_alnum a" "a \<noteq> ''N''" "a \<noteq> ''O''" "a \<noteq> ''A''" using assms w by auto
  have key: "p_not rulekeyword ?s = Matches [] ?s"
    using a by (auto simp: w p_not_def rulekeyword_def p_word_def p_seq_def p_char_def p_sat_def next_is_def ascii_alnum_def length_Suc_conv)
  have name: "rulefield_name uni ?s = Diverges"
    by (simp add: rulefield_name_def p_seq_def p_text_def key p_some_def letter_loops [OF assms(1,2,6)])
  have "rulespace ?s = Fails"
    using a(1) by (auto simp: w rulespace_def p_some_def p_seq_def p_sat_def ascii_alnum_def is_alnum_def is_digit_def is_upper_def is_lower_def)
  moreover have "p_char CHR ''('' ?s = Fails"
    using a(1) by (auto simp: w p_char_def p_sat_def ascii_alnum_def is_alnum_def is_digit_def is_upper_def is_lower_def)
  ultimately have group: "rulegroup body ?s = Fails" for body
    by (simp add: rulegroup_def p_seq_def p_opt_def p_act_def rulesub_q_def)
  have "rulefield uni body ?s = Diverges" for body
    by (simp add: rulefield_def p_alt_def p_seq_def p_act_def name)
  then have "expression uni body ?s = Diverges" for body
    using group by (simp add: expression_def operation_def binary_op_def p_alt_def p_seq_def)
  then have "p_many (p_alt (expression uni body) rulespace) ?s = Diverges" for body
    by (subst p_many.simps) (simp add: p_alt_def)
  then show ?thesis by (simp add: ruleq_def p_seq_def)
qed

text \<open>A query that starts with a word of ASCII letters and digits, a hyphen and a letter
  outside ASCII is never answered: the recognizer goes around for ever without reading that
  letter.\<close>

theorem query_never_answered:
  assumes "w \<noteq> []" "list_all ascii_alnum w" "hd w \<noteq> ''N''" "hd w \<noteq> ''O''" "hd w \<noteq> ''A''" "other_letter uni r"
  shows "ruleq uni (w @ ''-'' # r # rest) = Diverges"
  by (rule query_loops [OF assms])

theorem query_never_answered_witness:
  "ruleq (\<lambda>_. True) (runes ''caf-'' @ [[CHR 0xC3, CHR 0xA9]] @ runes ''e'') = Diverges"
proof -
  have "runes ''caf-'' = [''c'', ''a'', ''f'', ''-'']" by code_simp
  moreover have "list_all ascii_alnum [''c'', ''a'', ''f'']" by code_simp
  ultimately show ?thesis
    using query_never_answered [of "[''c'', ''a'', ''f'']" "\<lambda>_. True" "[CHR 0xC3, CHR 0xA9]" "runes ''e''"]
    by (simp add: other_letter_def)
qed

end
