(* ===== verification/Query.thy ===== *)
theory Query
  imports QueryTermination Index
begin

text \<open>
  \<^verbatim>\<open>search/parse.go\<close> and the evaluation of queries in \<^verbatim>\<open>search/search.go\<close>. The actions of the
  recognizer build a chain of links; a link keeps, of the link before it, the operator, which no
  longer changes once a link follows. The chain is the list of its links in order. Following a
  subquery cuts the chain: a cut is the position of a link whose pointer to the next link was
  reset.

  The fields for fuzzy searches are never written by the parser and are left out.
\<close>

subsection \<open>Links\<close>

record query_term =
  qt_term :: string
  qt_mod :: op

record basic_query =
  bq_field :: string
  bq_term :: query_term
  bq_op :: op
  bq_complete :: bool

record grouped_query =
  gq_field :: string
  gq_terms :: "query_term list"
  gq_op :: op
  gq_complete :: bool

record range_query =
  rq_field :: string
  rq_start :: string
  rq_end :: string
  rq_inclusive :: bool
  rq_op :: op
  rq_complete :: bool
  rq_negated :: bool

record sub_query =
  sq_start :: bool
  sq_end :: bool
  sq_op :: op
  sq_complete :: bool

datatype queryable =
  BasicQuery basic_query | GroupedQuery grouped_query | RangeQuery range_query | SubQuery sub_query | NotQuery op

record link =
  lk_query :: queryable
  lk_prev :: "op option"

text \<open>\<open>Latest\<close> is the last of the links, \<open>QueryChain\<close> the position of the first one that was put
  into the empty chain.\<close>

record token =
  tk_links :: "link list"
  QueryChain :: "nat option"

definition new_token :: token where
  "new_token = \<lparr>tk_links = [], QueryChain = None\<rparr>"

fun query_Op :: "queryable \<Rightarrow> op" where
  "query_Op (BasicQuery q) = bq_op q"
| "query_Op (GroupedQuery q) = gq_op q"
| "query_Op (RangeQuery q) = rq_op q"
| "query_Op (SubQuery q) = sq_op q"
| "query_Op (NotQuery o1) = o1"

fun query_AddOp :: "op \<Rightarrow> queryable \<Rightarrow> queryable" where
  "query_AddOp o1 (BasicQuery q) = BasicQuery (q\<lparr>bq_op := o1\<rparr>)"
| "query_AddOp o1 (GroupedQuery q) = GroupedQuery (q\<lparr>gq_op := o1\<rparr>)"
| "query_AddOp o1 (RangeQuery q) = RangeQuery (q\<lparr>rq_op := o1\<rparr>)"
| "query_AddOp o1 (SubQuery q) = SubQuery (q\<lparr>sq_op := o1\<rparr>)"
| "query_AddOp o1 (NotQuery _) = NotQuery o1"

fun IsIncomplete :: "queryable \<Rightarrow> bool" where
  "IsIncomplete (BasicQuery q) \<longleftrightarrow> \<not> bq_complete q"
| "IsIncomplete (GroupedQuery q) \<longleftrightarrow> \<not> gq_complete q"
| "IsIncomplete (RangeQuery q) \<longleftrightarrow> rq_start q = [] \<or> rq_end q = []"
| "IsIncomplete (SubQuery q) \<longleftrightarrow> \<not> sq_complete q"
| "IsIncomplete (NotQuery _) \<longleftrightarrow> False"

fun query_SetCompleted :: "queryable \<Rightarrow> queryable" where
  "query_SetCompleted (BasicQuery q) = BasicQuery (q\<lparr>bq_complete := True\<rparr>)"
| "query_SetCompleted (GroupedQuery q) = GroupedQuery (q\<lparr>gq_complete := True\<rparr>)"
| "query_SetCompleted (RangeQuery q) = RangeQuery (q\<lparr>rq_complete := True\<rparr>)"
| "query_SetCompleted (SubQuery q) = SubQuery (q\<lparr>sq_complete := True\<rparr>)"
| "query_SetCompleted (NotQuery o1) = NotQuery o1"

text \<open>\<open>pgKeyReplace\<close> of \<^verbatim>\<open>util/util.go\<close>.\<close>

fun squeeze :: "char \<Rightarrow> string \<Rightarrow> string" where
  "squeeze c (a # b # s) = (if a = c \<and> b = c then squeeze c (b # s) else a # squeeze c (b # s))"
| "squeeze c s = s"

definition trim_char :: "char \<Rightarrow> string \<Rightarrow> string" where
  "trim_char c s = rev (dropWhile (\<lambda>x. x = c) (rev (dropWhile (\<lambda>x. x = c) s)))"

definition pgKeyReplace :: "conf \<Rightarrow> (rune \<Rightarrow> bool) \<Rightarrow> string \<Rightarrow> string" where
  "pgKeyReplace cfg kept key =
     (let k = concat (map (\<lambda>r. if kept r then r else ''_'') (runes key));
          k1 = trim_char CHR ''.'' (trim_char CHR ''_'' (squeeze CHR ''.'' (squeeze CHR ''_'' k)))
      in if ConvertSearch cfg then squeeze CHR ''.'' (char_replace CHR ''_'' ''.'' k1) else k1)"

definition PgSearchQueryKey :: "conf \<Rightarrow> (rune \<Rightarrow> bool) \<Rightarrow> string \<Rightarrow> string" where
  "PgSearchQueryKey cfg uni key =
     pgKeyReplace cfg (\<lambda>r. ascii_alnum r \<or> other_letter uni r \<or> r \<in> {''_'', ''.'', ''*'', ''?''}) key"

definition converted_field :: "conf \<Rightarrow> (rune \<Rightarrow> bool) \<Rightarrow> string \<Rightarrow> string" where
  "converted_field cfg uni s = (if ConvertSearch cfg then PgSearchQueryKey cfg uni s else s)"

fun query_AddField :: "conf \<Rightarrow> (rune \<Rightarrow> bool) \<Rightarrow> string \<Rightarrow> queryable \<Rightarrow> queryable" where
  "query_AddField cfg uni s (BasicQuery q) = BasicQuery (q\<lparr>bq_field := converted_field cfg uni s\<rparr>)"
| "query_AddField cfg uni s (GroupedQuery q) = GroupedQuery (q\<lparr>gq_field := converted_field cfg uni s\<rparr>)"
| "query_AddField cfg uni s (RangeQuery q) = RangeQuery (q\<lparr>rq_field := converted_field cfg uni s\<rparr>)"
| "query_AddField cfg uni s (SubQuery q) = SubQuery q"
| "query_AddField cfg uni s (NotQuery o1) = NotQuery o1"

definition negation :: "op option \<Rightarrow> op option" where
  "negation p = (case p of Some o1 \<Rightarrow> if o1 = OpUnaryNot \<or> o1 = OpUnaryPro then Some o1 else None | None \<Rightarrow> None)"

definition group_AddTerm :: "string \<Rightarrow> query_term list \<Rightarrow> query_term list" where
  "group_AddTerm s ts =
     (if ts = [] \<or> qt_term (last ts) \<noteq> [] then ts @ [\<lparr>qt_term = s, qt_mod = OpNotAnOp\<rparr>]
      else butlast ts @ [(last ts)\<lparr>qt_term := s\<rparr>])"

definition basic_AddTerm :: "string \<Rightarrow> op option \<Rightarrow> basic_query \<Rightarrow> basic_query" where
  "basic_AddTerm s prev q =
     (let t = (bq_term q)\<lparr>qt_term := s\<rparr>
      in q\<lparr>bq_term := (case negation prev of Some o1 \<Rightarrow> t\<lparr>qt_mod := o1\<rparr> | None \<Rightarrow> t), bq_complete := True\<rparr>)"

definition link_AddTerm :: "string \<Rightarrow> link \<Rightarrow> link" where
  "link_AddTerm s l =
     (case lk_query l of
        BasicQuery q \<Rightarrow> l\<lparr>lk_query := BasicQuery (basic_AddTerm s (lk_prev l) q)\<rparr>
      | GroupedQuery q \<Rightarrow> l\<lparr>lk_query := GroupedQuery (q\<lparr>gq_terms := group_AddTerm s (gq_terms q)\<rparr>)\<rparr>
      | RangeQuery q \<Rightarrow>
          l\<lparr>lk_query := RangeQuery (if rq_start q = [] then q\<lparr>rq_start := s, rq_complete := True\<rparr>
                                     else q\<lparr>rq_end := s, rq_complete := True\<rparr>)\<rparr>
      | _ \<Rightarrow> l)"

fun query_AddTermOp :: "op \<Rightarrow> queryable \<Rightarrow> queryable" where
  "query_AddTermOp o1 (BasicQuery q) = BasicQuery (q\<lparr>bq_term := (bq_term q)\<lparr>qt_mod := o1\<rparr>\<rparr>)"
| "query_AddTermOp o1 (GroupedQuery q) = GroupedQuery (q\<lparr>gq_terms := gq_terms q @ [\<lparr>qt_term = [], qt_mod = o1\<rparr>]\<rparr>)"
| "query_AddTermOp o1 q = q"

subsection \<open>Building the chain\<close>

text \<open>A method of \<open>Latest\<close>; there is none in an empty chain, and the call panics.\<close>

definition on_latest :: "(link \<Rightarrow> link) \<Rightarrow> token \<Rightarrow> token outcome" where
  "on_latest f z =
     (if tk_links z = [] then Panic
      else Ok (z\<lparr>tk_links := butlast (tk_links z) @ [f (last (tk_links z))]\<rparr>))"

definition ready :: "token \<Rightarrow> bool" where
  "ready z \<longleftrightarrow> tk_links z = [] \<or> \<not> IsIncomplete (lk_query (last (tk_links z)))"

definition latest_op :: "token \<Rightarrow> op option" where
  "latest_op z = (if tk_links z = [] then None else Some (query_Op (lk_query (last (tk_links z)))))"

definition attach :: "queryable \<Rightarrow> token \<Rightarrow> token" where
  "attach q z = z\<lparr>tk_links := tk_links z @ [\<lparr>lk_query = q, lk_prev = latest_op z\<rparr>]\<rparr>"

definition start_chain :: "queryable \<Rightarrow> token \<Rightarrow> token" where
  "start_chain q z =
     (let z1 = attach q z in if QueryChain z = None then z1\<lparr>QueryChain := Some (length (tk_links z))\<rparr> else z1)"

definition StartBasic :: "token \<Rightarrow> token" where
  "StartBasic z =
     (if ready z then
        start_chain (BasicQuery \<lparr>bq_field = [], bq_term = \<lparr>qt_term = [], qt_mod = OpNotAnOp\<rparr>, bq_op = OpBinOr,
                                  bq_complete = False\<rparr>) z
      else z)"

definition StartGrouped :: "token \<Rightarrow> token" where
  "StartGrouped z =
     (if ready z then start_chain (GroupedQuery \<lparr>gq_field = [], gq_terms = [], gq_op = OpBinOr, gq_complete = False\<rparr>) z
      else z)"

definition StartRange :: "bool \<Rightarrow> token \<Rightarrow> token" where
  "StartRange inclusive z =
     (let o1 = (if tk_links z = [] then OpBinOr
                else (case lk_prev (last (tk_links z)) of Some p \<Rightarrow> p | None \<Rightarrow> OpNotAnOp))
      in start_chain (RangeQuery \<lparr>rq_field = [], rq_start = [], rq_end = [], rq_inclusive = inclusive, rq_op = o1,
                                   rq_complete = False, rq_negated = (latest_op z = Some OpUnaryNot)\<rparr>) z)"

definition StartSubQuery :: "token \<Rightarrow> token" where
  "StartSubQuery z =
     (if ready z then start_chain (SubQuery \<lparr>sq_start = True, sq_end = False, sq_op = OpNotAnOp, sq_complete = True\<rparr>) z
      else z)"

text \<open>The end of a subquery never starts the chain.\<close>

definition EndSubQuery :: "token \<Rightarrow> token" where
  "EndSubQuery z =
     (if ready z then attach (SubQuery \<lparr>sq_start = False, sq_end = True, sq_op = OpNotAnOp, sq_complete = True\<rparr>) z
      else z)"

definition SetNotQuery :: "op \<Rightarrow> token \<Rightarrow> token" where
  "SetNotQuery o1 z = start_chain (NotQuery o1) z"

definition token_AddOp :: "op \<Rightarrow> token \<Rightarrow> token outcome" where
  "token_AddOp o1 = on_latest (\<lambda>l. l\<lparr>lk_query := query_AddOp o1 (lk_query l)\<rparr>)"

definition token_AddField :: "conf \<Rightarrow> (rune \<Rightarrow> bool) \<Rightarrow> string \<Rightarrow> token \<Rightarrow> token outcome" where
  "token_AddField cfg uni s = on_latest (\<lambda>l. l\<lparr>lk_query := query_AddField cfg uni s (lk_query l)\<rparr>)"

definition token_AddTerm :: "string \<Rightarrow> token \<Rightarrow> token outcome" where
  "token_AddTerm s z = on_latest (link_AddTerm s) (if ready z then StartBasic z else z)"

definition token_AddTermOp :: "op \<Rightarrow> token \<Rightarrow> token outcome" where
  "token_AddTermOp o1 z =
     on_latest (\<lambda>l. l\<lparr>lk_query := query_AddTermOp o1 (lk_query l)\<rparr>) (if ready z then StartBasic z else z)"

definition AddRange :: "string \<Rightarrow> token \<Rightarrow> token outcome" where
  "AddRange s = on_latest (link_AddTerm s)"

definition token_SetCompleted :: "token \<Rightarrow> token outcome" where
  "token_SetCompleted = on_latest (\<lambda>l. l\<lparr>lk_query := query_SetCompleted (lk_query l)\<rparr>)"

definition Evaluate :: "token \<Rightarrow> nat option" where
  "Evaluate z = QueryChain z"

fun do_action :: "conf \<Rightarrow> (rune \<Rightarrow> bool) \<Rightarrow> string \<Rightarrow> action \<Rightarrow> token \<Rightarrow> token outcome" where
  "do_action cfg uni text DoAddTerm z = token_AddTerm text z"
| "do_action cfg uni text DoStartBasic z = Ok (StartBasic z)"
| "do_action cfg uni text DoStartGrouped z = Ok (StartGrouped z)"
| "do_action cfg uni text DoSetCompleted z = token_SetCompleted z"
| "do_action cfg uni text (DoStartRange inclusive) z = Ok (StartRange inclusive z)"
| "do_action cfg uni text DoAddField z = token_AddField cfg uni text z"
| "do_action cfg uni text DoAddRange z = AddRange text z"
| "do_action cfg uni text DoStartSubQuery z = Ok (StartSubQuery z)"
| "do_action cfg uni text DoEndSubQuery z = Ok (EndSubQuery z)"
| "do_action cfg uni text (DoAddOp o1) z = token_AddOp o1 z"
| "do_action cfg uni text (DoSetNotQuery o1) z = Ok (SetNotQuery o1 z)"
| "do_action cfg uni text (DoAddTermOp o1) z = token_AddTermOp o1 z"

fun Execute :: "conf \<Rightarrow> (rune \<Rightarrow> bool) \<Rightarrow> string \<Rightarrow> token32 list \<Rightarrow> token \<Rightarrow> token outcome" where
  "Execute cfg uni text [] z = Ok z"
| "Execute cfg uni text (PegText t # ts) z = Execute cfg uni t ts z"
| "Execute cfg uni text (Action a # ts) z = outcome_bind (do_action cfg uni text a z) (Execute cfg uni text ts)"

subsection \<open>Searching a link\<close>

definition makeSearchTerm :: "string \<Rightarrow> string \<Rightarrow> string" where
  "makeSearchTerm field term = join_with '':'' [field, term]"

fun group_results :: "(string \<Rightarrow> bool \<Rightarrow> collection outcome) \<Rightarrow> string \<Rightarrow> query_term list \<Rightarrow> (op \<times> collection) list outcome" where
  "group_results srch field [] = Ok []"
| "group_results srch field (v # vs) =
     outcome_bind (srch (makeSearchTerm field (qt_term v)) (qt_mod v = OpUnaryNot \<or> qt_mod v = OpUnaryPro)) (\<lambda>r.
     outcome_bind (group_results srch field vs) (\<lambda>rs. Ok ((qt_mod v, r) # rs)))"

text \<open>The loop of \<open>mergeResults\<close>, with \<open>res\<close> and \<open>req\<close>. In the end \<open>res\<close> is assigned to \<open>req\<close>, and
  \<open>res\<close> is returned.\<close>

fun merge_loop :: "(op \<times> collection) list \<Rightarrow> bool \<Rightarrow> collection \<Rightarrow> collection option \<Rightarrow> bool \<times> collection \<times> collection option" where
  "merge_loop [] reqOp res req = (reqOp, res, req)"
| "merge_loop ((o1, r) # tmpRes) reqOp res req =
     (if o1 = OpUnaryReq then
        (case req of
           None \<Rightarrow> merge_loop tmpRes True res (Some r)
         | Some q \<Rightarrow> merge_loop tmpRes True res (Some (filter (\<lambda>(k, _). map_of r k \<noteq> None) q)))
      else if \<not> reqOp then merge_loop tmpRes reqOp (fold (\<lambda>(k, v). aput k v) r res) req
      else merge_loop tmpRes reqOp res req)"

definition mergeResults :: "(op \<times> collection) list \<Rightarrow> collection" where
  "mergeResults tmpRes =
     (let (reqOp, res, req0) = merge_loop tmpRes False [] None;
          req = (if reqOp then Some res else req0)
      in res)"

definition link_notop :: "link \<Rightarrow> bool" where
  "link_notop l \<longleftrightarrow> negation (lk_prev l) \<noteq> None"

text \<open>The methods of a link and of those that follow it: a negation asks the next one.\<close>

fun chain_SearchIndex :: "regexp_engine \<Rightarrow> string \<Rightarrow> fileindex \<Rightarrow> link list \<Rightarrow> collection outcome" where
  "chain_SearchIndex rx idx i [] = Panic"
| "chain_SearchIndex rx idx i (l # ls) =
     (case lk_query l of
        BasicQuery q \<Rightarrow>
          (if bq_field q = [] then SearchText rx idx (qt_term (bq_term q)) (link_notop l) i
           else Search rx idx (makeSearchTerm (bq_field q) (qt_term (bq_term q))) (link_notop l) i)
      | GroupedQuery q \<Rightarrow>
          outcome_bind (group_results (\<lambda>t n. Search rx idx t n i) (gq_field q) (gq_terms q)) (\<lambda>rs. Ok (mergeResults rs))
      | RangeQuery q \<Rightarrow> SearchRange idx (rq_field q) (rq_start q) (rq_end q) (rq_inclusive q) (rq_negated q) i
      | SubQuery q \<Rightarrow> Ok []
      | NotQuery _ \<Rightarrow>
          (if ls = [] then Errorf ''No next link present in query chain after unary NOT operator!''
           else chain_SearchIndex rx idx i ls))"

fun chain_SearchResults :: "regexp_engine \<Rightarrow> collection \<Rightarrow> link list \<Rightarrow> collection outcome" where
  "chain_SearchResults rx curRes [] = Panic"
| "chain_SearchResults rx curRes (l # ls) =
     (case lk_query l of
        BasicQuery q \<Rightarrow> SearchResults rx (makeSearchTerm (bq_field q) (qt_term (bq_term q))) (link_notop l) curRes
      | GroupedQuery q \<Rightarrow>
          outcome_bind (group_results (\<lambda>t n. SearchResults rx t n curRes) (gq_field q) (gq_terms q)) (\<lambda>rs. Ok (mergeResults rs))
      | RangeQuery q \<Rightarrow> SearchResultsRange (rq_field q) (rq_start q) (rq_end q) (rq_inclusive q) (rq_negated q) curRes
      | SubQuery q \<Rightarrow> Ok []
      | NotQuery _ \<Rightarrow>
          (if ls = [] then Errorf ''No next link present in query chain searching results after unary NOT operator!''
           else chain_SearchResults rx curRes ls))"

subsection \<open>Executing a chain\<close>

definition next_link :: "link list \<Rightarrow> nat list \<Rightarrow> nat \<Rightarrow> nat option" where
  "next_link ls cuts i = (if Suc i < length ls \<and> i \<notin> set cuts then Some (Suc i) else None)"

definition sub_depth :: "queryable \<Rightarrow> nat \<Rightarrow> nat" where
  "sub_depth q n = (case q of SubQuery sub \<Rightarrow> if sq_start sub then n + 1 else n - 1 | _ \<Rightarrow> n)"

function sub_end :: "link list \<Rightarrow> nat list \<Rightarrow> nat \<Rightarrow> nat \<Rightarrow> nat \<Rightarrow> (nat \<times> nat) option" where
  "sub_end ls cuts n prev s =
     (let n1 = sub_depth (lk_query (ls ! s)) n
      in if n1 = 0 then Some (prev, s)
         else (case next_link ls cuts s of None \<Rightarrow> None | Some s1 \<Rightarrow> sub_end ls cuts n1 s s1))"
  by pat_completeness auto
termination
  by (relation "measure (\<lambda>(ls, cuts, n, prev, s). length ls - s)") (auto simp: next_link_def split: if_splits)

declare sub_end.simps [simp del]

text \<open>The first link of the subquery, its end, and the chain cut before the end.\<close>

definition extractSubQuery :: "link list \<Rightarrow> nat list \<Rightarrow> nat \<Rightarrow> (nat \<times> nat \<times> nat list) outcome" where
  "extractSubQuery ls cuts s =
     (case next_link ls cuts s of
        None \<Rightarrow> Panic
      | Some first \<Rightarrow>
          (case sub_end ls cuts 1 s first of
             None \<Rightarrow> Errorf ''Yikes! Somehow we weren't able to finish the subquery.''
           | Some (prev, nend) \<Rightarrow> Ok (first, nend, prev # cuts)))"

text \<open>How the documents of a link and those found so far are combined.\<close>

definition combine :: "op \<Rightarrow> collection \<Rightarrow> collection \<Rightarrow> collection" where
  "combine curOp r docs =
     (if docs = [] \<or> curOp = OpBinAnd then r
      else if curOp = OpBinOr then fold (\<lambda>(k, v). aput k v) r docs
      else docs)"

definition sub_docs :: "op \<Rightarrow> collection \<Rightarrow> collection" where
  "sub_docs curOp docs = (if curOp = OpBinAnd then docs else [])"

definition link_docs :: "regexp_engine \<Rightarrow> string \<Rightarrow> fileindex \<Rightarrow> op \<Rightarrow> collection \<Rightarrow> link list \<Rightarrow> collection outcome" where
  "link_docs rx idx i curOp docs chain =
     (if curOp = OpBinAnd then chain_SearchResults rx docs chain else chain_SearchIndex rx idx i chain)"

lemma sub_end_range:
  assumes "sub_end ls cuts n prev s = Some (p, e)" "s < length ls"
  shows "s \<le> e \<and> e < length ls"
  using assms
proof (induction ls cuts n prev s rule: sub_end.induct)
  case (1 ls cuts n prev s)
  show ?case
  proof (cases "sub_depth (lk_query (ls ! s)) n = 0")
    case False
    then obtain s1 where s1: "next_link ls cuts s = Some s1" "sub_end ls cuts (sub_depth (lk_query (ls ! s)) n) s s1 = Some (p, e)"
      using "1.prems"(1) by (subst (asm) sub_end.simps) (auto simp: Let_def split: option.splits)
    then have "s1 = Suc s" "s1 < length ls" by (auto simp: next_link_def split: if_splits)
    then show ?thesis using "1.IH" [OF refl False s1] by auto
  qed (use "1.prems" in \<open>subst (asm) sub_end.simps; simp\<close>)
qed

lemma extractSubQuery_range:
  "extractSubQuery ls cuts s = Ok (first, nend, cuts1) \<Longrightarrow> first = Suc s \<and> s < nend \<and> nend < length ls"
  using sub_end_range
  by (fastforce simp: extractSubQuery_def next_link_def split: option.splits if_splits prod.splits)

text \<open>The loop of \<open>execute\<close>, from a link with the current operator and the documents so far. The
  result has the cuts made.\<close>

function execute ::
  "regexp_engine \<Rightarrow> string \<Rightarrow> fileindex \<Rightarrow> link list \<Rightarrow> nat list \<Rightarrow> op \<Rightarrow> collection \<Rightarrow> nat option \<Rightarrow> (collection \<times> nat list) outcome" where
  "execute rx idx i ls cuts curOp docs None = Ok (docs, cuts)"
| "execute rx idx i ls cuts curOp docs (Some s) =
     (if length ls \<le> s then Panic
      else
        (case lk_query (ls ! s) of
           SubQuery q \<Rightarrow>
             (case extractSubQuery ls cuts s of
                Err e \<Rightarrow> Err e
              | Panic \<Rightarrow> Panic
              | Ok (first, nend, cuts1) \<Rightarrow>
                  (case execute rx idx i ls cuts1 curOp (sub_docs curOp docs) (Some first) of
                     Err e \<Rightarrow> Err e
                   | Panic \<Rightarrow> Panic
                   | Ok (r, cuts2) \<Rightarrow>
                       execute rx idx i ls cuts2 (query_Op (lk_query (ls ! nend))) (combine curOp r docs) (next_link ls cuts2 nend)))
         | NotQuery _ \<Rightarrow> execute rx idx i ls cuts curOp docs (next_link ls cuts s)
         | _ \<Rightarrow>
             (case link_docs rx idx i curOp docs (drop s ls) of
                Err e \<Rightarrow> Err e
              | Panic \<Rightarrow> Panic
              | Ok r \<Rightarrow>
                  execute rx idx i ls cuts (query_Op (lk_query (ls ! s))) (combine curOp r docs) (next_link ls cuts s))))"
  by pat_completeness auto
termination
proof (relation "measure (\<lambda>(rx, idx, i, ls, cuts, curOp, docs, s). case s of None \<Rightarrow> 0 | Some k \<Rightarrow> Suc (length ls - k))", goal_cases)
  case 1
  then show ?case by simp
qed (auto simp: next_link_def dest!: extractSubQuery_range split: option.split)

declare execute.simps(2) [simp del]

text \<open>\<open>SolrQuery\<close>: a chain that is evaluated from its start.\<close>

definition run_query :: "regexp_engine \<Rightarrow> string \<Rightarrow> fileindex \<Rightarrow> token \<Rightarrow> collection outcome" where
  "run_query rx idx i z =
     outcome_bind (execute rx idx i (tk_links z) [] OpNotAnOp [] (Evaluate z)) (\<lambda>(docs, _). Ok docs)"

text \<open>What the search takes from elsewhere: which runes outside ASCII are letters or numbers, the
  regular expressions, the text of an error of the recognizer, \<open>sort.Sort\<close>, and \<open>strconv.Quote\<close>.\<close>

record searchlib =
  sl_letter :: "rune \<Rightarrow> bool"
  sl_regexp :: regexp_engine
  sl_parseError :: "rune list \<Rightarrow> string"
  sl_Sort :: "(gobj \<Rightarrow> gobj \<Rightarrow> bool) \<Rightarrow> gobj list \<Rightarrow> gobj list"
  sl_Quote :: "string \<Rightarrow> string"

text \<open>The documents that a query finds; \<open>None\<close> if the query is never answered.\<close>

definition query_docs :: "conf \<Rightarrow> searchlib \<Rightarrow> string \<Rightarrow> rune list \<Rightarrow> fileindex \<Rightarrow> collection outcome option" where
  "query_docs cfg sl idx query i =
     (case ruleq (sl_letter sl) query of
        Diverges \<Rightarrow> None
      | Fails \<Rightarrow> Some (Errorf (sl_parseError sl query))
      | Matches ts _ \<Rightarrow>
          Some (outcome_bind (Execute cfg (sl_letter sl) [] ts new_token) (run_query (sl_regexp sl) idx i)))"

end
