(* ===== verification/QueryMeaning.thy ===== *)
theory QueryMeaning
  imports Query
begin

text \<open>
  What queries made of clauses \<open>field:term\<close> mean: how they are read, the chain they give, and the
  documents it finds.
\<close>

subsection \<open>Reading words\<close>

definition plain_letter :: "rune \<Rightarrow> bool" where
  "plain_letter r \<longleftrightarrow> ascii_alnum r \<or> r = ''_''"

text \<open>A word does not start with the first letter of a keyword.\<close>

definition query_word :: "rune list \<Rightarrow> bool" where
  "query_word w \<longleftrightarrow>
     (case w of [] \<Rightarrow> False | r # v \<Rightarrow> plain_letter r \<and> r \<notin> {''N'', ''O'', ''A''} \<and> list_all plain_letter v)"

text \<open>What ends a word.\<close>

definition word_end :: "rune list \<Rightarrow> bool" where
  "word_end s \<longleftrightarrow> s = [] \<or> hd s \<in> {'':'', '' '', '')''}"

lemmas letter_defs = plain_letter_def ascii_alnum_def is_alnum_def is_digit_def is_upper_def is_lower_def

lemma start_letter_plain: "plain_letter r \<Longrightarrow> rulestart_letter uni (r # s) = Matches [] s"
  by (auto simp: rulestart_letter_def next_is_def p_sat_def letter_defs)

lemma not_letters: "\<not> ascii_alnum '':''" "\<not> ascii_alnum '' ''" "\<not> ascii_alnum '')''"
  by (simp_all add: letter_defs)

lemma letters_stop:
  assumes "word_end s"
  shows "rulestart_letter uni s = Fails" "next_letter uni s = Fails"
proof -
  consider "s = []" | t where "s = '':'' # t" | t where "s = '' '' # t" | t where "s = '')'' # t"
    using assms by (cases s) (auto simp: word_end_def)
  then show "rulestart_letter uni s = Fails" "next_letter uni s = Fails"
    by (cases; simp add: rulestart_letter_def next_letter_def next_is_def p_sat_def not_letters other_letter_def)+
qed

lemma start_letters_word: "list_all plain_letter v \<Longrightarrow> word_end s \<Longrightarrow> p_many (rulestart_letter uni) (v @ s) = Matches [] s"
proof (induction v)
  case Nil
  then show ?case by (subst p_many.simps) (simp add: letters_stop)
next
  case (Cons r v)
  then show ?case by (subst p_many.simps) (simp add: start_letter_plain)
qed

lemma valid_letter_word: "query_word w \<Longrightarrow> word_end s \<Longrightarrow> rulevalid_letter uni (w @ s) = Matches [] s"
  using p_many.simps [of "next_letter uni" s]
  by (cases w) (simp_all add: query_word_def rulevalid_letter_def p_some_def p_seq_def start_letter_plain start_letters_word letters_stop)

lemma valid_letters_word:
  assumes "query_word w" "word_end s"
  shows "p_some (rulevalid_letter uni) (w @ s) = Matches [] s"
proof -
  have "rulevalid_letter uni s = Fails" using letters_stop(1) [OF assms(2)] by (simp add: rulevalid_letter_def p_some_def p_seq_def)
  then have "p_many (rulevalid_letter uni) s = Matches [] s" by (subst p_many.simps) simp
  then show ?thesis using valid_letter_word [OF assms] by (simp add: p_some_def p_seq_def)
qed

lemma word_not_keyword: "query_word w \<Longrightarrow> rulekeyword (w @ s) = Fails"
  by (cases w)
    (auto simp: query_word_def rulekeyword_def p_word_def p_seq_def p_char_def p_sat_def next_is_def length_Suc_conv letter_defs)

lemma not_plain:
  "\<not> plain_letter ''?''" "\<not> plain_letter ''!''" "\<not> plain_letter ''(''" "\<not> plain_letter ''+''" "\<not> plain_letter ''-''"
  "\<not> plain_letter [CHR 0x22]"
  by (simp_all add: letter_defs)

lemma word_hd:
  assumes "query_word w" "\<not> plain_letter [c] \<or> c = CHR ''N''"
  shows "p_char c (w @ s) = Fails" "\<not> next_is [c] (w @ s)"
proof -
  obtain r v where w: "w = r # v" "r \<noteq> [c]" using assms by (cases w) (auto simp: query_word_def)
  then show "p_char c (w @ s) = Fails" by (simp add: p_char_def p_sat_def)
  show "\<not> next_is [c] (w @ s)" using w by (auto simp: next_is_def length_Suc_conv)
qed

lemmas word_first = word_hd [of _ "CHR ''?''"] word_hd [of _ "CHR ''!''"] word_hd [of _ "CHR ''(''"] word_hd [of _ "CHR ''+''"]
  word_hd [of _ "CHR ''-''"] word_hd [of _ "CHR 0x22"] word_hd [of _ "CHR ''N''"]

lemmas word_starts = word_first [simplified not_plain, simplified]

lemma word_not_space: "query_word w \<Longrightarrow> rulespace (w @ s) = Fails"
  by (cases w) (auto simp: query_word_def rulespace_def p_some_def p_seq_def p_sat_def letter_defs)

lemma term_word:
  "query_word w \<Longrightarrow> word_end s \<Longrightarrow> ruleterm uni (w @ s) = Matches [PegText (concat w), Action DoAddTerm] s"
  by (simp add: ruleterm_def p_text_def p_seq_def p_alt_def p_not_def word_not_keyword word_starts valid_letter_word p_act_def)

lemma field_name_word:
  "query_word w \<Longrightarrow> word_end s \<Longrightarrow> rulefield_name uni (w @ s) = Matches [PegText (concat w), Action DoAddField] s"
  by (simp add: rulefield_name_def p_text_def p_seq_def p_not_def word_not_keyword valid_letters_word p_act_def)

subsection \<open>Reading clauses\<close>

type_synonym clause = "rune list \<times> rune list"

definition clause_ok :: "clause \<Rightarrow> bool" where
  "clause_ok c \<longleftrightarrow> query_word (fst c) \<and> query_word (snd c)"

definition print_clause :: "clause \<Rightarrow> rune list" where
  "print_clause c = fst c @ '':'' # snd c"

definition clause_tokens :: "clause \<Rightarrow> token32 list" where
  "clause_tokens c =
     [Action DoStartBasic, PegText (concat (fst c)), Action DoAddField, PegText (concat (snd c)), Action DoAddTerm]"

lemma field_clause:
  assumes "clause_ok c" "word_end s"
  shows "rulefield uni body (print_clause c @ s) = Matches (clause_tokens c) s"
proof -
  have "rulefield_name uni (fst c @ '':'' # snd c @ s) = Matches [PegText (concat (fst c)), Action DoAddField] ('':'' # snd c @ s)"
    using assms by (intro field_name_word) (simp_all add: clause_ok_def word_end_def)
  moreover have "ruleterm uni (snd c @ s) = Matches [PegText (concat (snd c)), Action DoAddTerm] s"
    using assms by (simp add: term_word clause_ok_def)
  ultimately show ?thesis
    by (simp add: rulefield_def p_alt_def p_seq_def p_act_def p_char_def p_sat_def print_clause_def clause_tokens_def)
qed

lemma group_not_clause: "clause_ok c \<Longrightarrow> rulegroup body (print_clause c @ s) = Fails"
  by (simp add: rulegroup_def rulesub_q_def p_seq_def p_opt_def p_act_def print_clause_def clause_ok_def word_not_space word_starts)

text \<open>The operations that are not binary do not read a clause.\<close>

lemma other_operations_fail:
  assumes "clause_ok c"
  shows "unary_op uni body (print_clause c @ s) = Fails" "fuzzy_op uni (print_clause c @ s) = Fails"
    "boost_op uni (print_clause c @ s) = Fails"
proof -
  have w: "query_word (fst c)" using assms by (simp add: clause_ok_def)
  have no: "rulenot_operator (print_clause c @ s) = Fails"
    by (simp add: rulenot_operator_def p_word_def p_seq_def print_clause_def word_starts [OF w])
  show "unary_op uni body (print_clause c @ s) = Fails"
    using no by (simp add: unary_op_def p_alt_def not_op_def p_seq_def not_sub_op_def p_act_def print_clause_def word_starts [OF w])
  have "term_or_string uni (print_clause c @ s) = Matches [PegText (concat (fst c)), Action DoAddTerm] ('':'' # snd c @ s)"
    using term_word [OF w, of "'':'' # snd c @ s"] by (simp add: term_or_string_def p_alt_def print_clause_def word_end_def)
  then show "fuzzy_op uni (print_clause c @ s) = Fails" "boost_op uni (print_clause c @ s) = Fails"
    by (simp_all add: fuzzy_op_def boost_op_def p_seq_def p_char_def p_sat_def)
qed

text \<open>A query of clauses: each further one with its operator, \<open>True\<close> for \<open>AND\<close>.\<close>

definition op_of :: "bool \<Rightarrow> op" where
  "op_of cj = (if cj then OpBinAnd else OpBinOr)"

definition print_op :: "bool \<Rightarrow> rune list" where
  "print_op cj = (if cj then ['' '', ''A'', ''N'', ''D'', '' ''] else ['' '', ''O'', ''R'', '' ''])"

fun print_query :: "clause \<Rightarrow> (bool \<times> clause) list \<Rightarrow> rune list" where
  "print_query c [] = print_clause c"
| "print_query c ((cj, d) # ds) = print_clause c @ print_op cj @ print_query d ds"

fun query_tokens :: "clause \<Rightarrow> (bool \<times> clause) list \<Rightarrow> token32 list" where
  "query_tokens c [] = clause_tokens c"
| "query_tokens c ((cj, d) # ds) = clause_tokens c @ Action (DoAddOp (op_of cj)) # query_tokens d ds"

definition query_ok :: "clause \<Rightarrow> (bool \<times> clause) list \<Rightarrow> bool" where
  "query_ok c ds \<longleftrightarrow> clause_ok c \<and> list_all (clause_ok \<circ> snd) ds"

text \<open>The end of a query or of a group.\<close>

definition query_end :: "rune list \<Rightarrow> bool" where
  "query_end s \<longleftrightarrow> s = [] \<or> hd s = '')''"

lemma query_end_word_end: "query_end s \<Longrightarrow> word_end s"
  by (auto simp: query_end_def word_end_def)

lemma space_stop: "query_end s \<Longrightarrow> rulespace s = Fails"
  by (cases s) (auto simp: query_end_def rulespace_def p_some_def p_seq_def p_sat_def)

lemma keyword_stop: "query_end s \<Longrightarrow> rulekeyword s = Fails"
  by (cases s) (auto simp: query_end_def rulekeyword_def p_word_def p_seq_def p_char_def p_sat_def next_is_def)

lemma letter_stop: "query_end s \<Longrightarrow> rulevalid_letter uni s = Fails"
  using letters_stop(1) [OF query_end_word_end] by (simp add: rulevalid_letter_def p_some_def p_seq_def)

lemma terms_stop:
  assumes "query_end s"
  shows "ruleterm uni s = Fails" "rulestring uni s = Fails" "rulefield_name uni s = Fails" "rulegroup body s = Fails"
    "rulefield uni body s = Fails" "rulefield_range uni s = Fails"
proof -
  have c: "p_char c s = Fails" if "c \<noteq> CHR '')''" for c
    using assms that by (cases s) (auto simp: query_end_def p_char_def p_sat_def)
  show "ruleterm uni s = Fails"
    by (simp add: ruleterm_def p_text_def p_seq_def p_alt_def p_not_def keyword_stop letter_stop c assms)
  show "rulestring uni s = Fails" by (simp add: rulestring_def p_seq_def c)
  show f: "rulefield_name uni s = Fails"
    by (simp add: rulefield_name_def p_text_def p_seq_def p_not_def p_some_def keyword_stop letter_stop assms)
  show "rulegroup body s = Fails" by (simp add: rulegroup_def rulesub_q_def p_seq_def p_opt_def p_act_def space_stop assms c)
  show "rulefield uni body s = Fails" "rulefield_range uni s = Fails"
    by (simp_all add: rulefield_def rulefield_range_def range_of_def p_alt_def p_seq_def p_act_def f)
qed

lemma expression_stop:
  assumes "query_end s"
  shows "expression uni body s = Fails"
proof -
  have "p_word ''NOT'' s = Fails" "p_char CHR ''!'' s = Fails" "\<not> next_is ''-'' s" "\<not> next_is ''+'' s" "\<not> next_is [CHR 0x22] s"
    using assms by (cases s; auto simp: query_end_def p_word_def p_seq_def p_char_def p_sat_def next_is_def)+
  then show ?thesis
    by (simp add: expression_def operation_def binary_op_def unary_op_def not_op_def not_sub_op_def rulenot_operator_def
        fuzzy_op_def boost_op_def term_or_string_def p_alt_def p_seq_def p_act_def terms_stop [OF assms])
qed

lemma body_stop: "query_end s \<Longrightarrow> p_many (p_alt (expression uni body) rulespace) s = Matches [] s"
  by (subst p_many.simps) (simp add: p_alt_def expression_stop space_stop)

lemma p_many_not_Fails: "p_many p s \<noteq> Fails"
proof (induction p s rule: p_many.induct)
  case (1 p s)
  then show ?case by (subst p_many.simps) (auto split: result.split)
qed

lemma one_space:
  assumes "rulespace s = Fails"
  shows "rulespace ('' '' # s) = Matches [] s"
proof -
  let ?p = "p_sat (\<lambda>r. r = [CHR 0x0D] \<or> r = [CHR 0x0A] \<or> r = [CHR 0x09] \<or> r = '' '')"
  have "?p s = Fails"
  proof (cases "?p s")
    case (Matches ts t)
    then have "suff ?p" "eats ?p" by (simp_all add: suff_basic eats_basic)
    then have "halts (\<lambda>_. False) (Suc (length t)) (p_many ?p)" by (intro halts_many halts_basic)
    then have "p_many ?p t \<noteq> Diverges" by (simp add: halts_def plain_def other_letter_def list_all_iff)
    then show ?thesis using assms Matches p_many_not_Fails [of ?p t] by (auto simp: rulespace_def p_some_def p_seq_def split: result.splits)
  qed (auto simp: p_sat_def split: list.splits if_splits)
  then have "p_many ?p s = Matches [] s" by (subst p_many.simps) simp
  then show ?thesis by (simp add: rulespace_def p_some_def p_seq_def p_sat_def [of _ "'' '' # s"])
qed

lemma read_operator:
  assumes "rulespace s = Fails"
  shows "p_seq (p_opt rulespace) (p_seq boolean_operator (p_seq (p_some rulespace) body)) (print_op cj @ s) =
    (case body s of Matches us s2 \<Rightarrow> Matches (Action (DoAddOp (op_of cj)) # us) s2 | r \<Rightarrow> r)"
proof -
  have a: "rulespace (''A'' # t) = Fails" "rulespace (''O'' # t) = Fails" for t
    by (simp_all add: rulespace_def p_some_def p_seq_def p_sat_def)
  have "p_many rulespace s = Matches [] s" using assms by (subst p_many.simps) simp
  then have "p_some rulespace ('' '' # s) = Matches [] s" using one_space [OF assms] by (simp add: p_some_def p_seq_def)
  then show ?thesis
    by (cases cj)
      (simp_all add: print_op_def p_seq_def p_opt_def one_space a boolean_operator_def p_alt_def p_word_def p_char_def p_sat_def
        p_act_def op_of_def split: result.split)
qed

lemma print_query_not_space: "query_ok c ds \<Longrightarrow> rulespace (print_query c ds @ s) = Fails"
  by (cases ds) (auto simp: query_ok_def clause_ok_def print_clause_def word_not_space)

lemma no_operator:
  assumes "query_end s"
  shows "p_seq (p_opt rulespace) (p_seq boolean_operator q) s = Fails"
proof -
  have "p_char c s = Fails" if "c \<noteq> CHR '')''" for c
    using assms that by (cases s) (auto simp: query_end_def p_char_def p_sat_def)
  then show ?thesis
    by (simp add: p_seq_def p_opt_def space_stop assms boolean_operator_def p_alt_def p_word_def)
qed

text \<open>The body reads a whole query of clauses, up to the end of the group it is in.\<close>

lemma body_reads_query:
  assumes "query_ok c ds" "query_end s" "length ds \<le> n"
  shows "rulebody (Suc n) uni (print_query c ds @ s) = Matches (query_tokens c ds) s"
  using assms
proof (induction ds arbitrary: c n)
  case Nil
  then have c: "clause_ok c" and e: "query_end s" by (simp_all add: query_ok_def)
  have f: "rulefield uni body (print_clause c @ s) = Matches (clause_tokens c) s" for body
    by (rule field_clause [OF c query_end_word_end [OF e]])
  have "expression uni (rulebody n uni) (print_clause c @ s) = Matches (clause_tokens c) s"
    using no_operator [OF e]
    by (simp add: expression_def operation_def binary_op_def p_alt_def p_seq_def [of "p_alt _ _"] group_not_clause [OF c] f
        other_operations_fail [OF c])
  then show ?case using body_stop [OF e]
    by (simp, subst p_many.simps) (simp add: p_alt_def print_clause_def)
next
  case (Cons a ds)
  obtain cj d where a: "a = (cj, d)" by (cases a)
  obtain m where n: "n = Suc m" "length ds \<le> m" using Cons.prems by (cases n) auto
  have c: "clause_ok c" and d: "query_ok d ds" and e: "query_end s" using Cons.prems by (auto simp: query_ok_def a)
  have "word_end (print_op cj @ print_query d ds @ s)" by (simp add: word_end_def print_op_def)
  then have f: "rulefield uni body (print_clause c @ print_op cj @ print_query d ds @ s) =
      Matches (clause_tokens c) (print_op cj @ print_query d ds @ s)" for body by (rule field_clause [OF c])
  have "expression uni (rulebody n uni) (print_query c (a # ds) @ s) = Matches (query_tokens c (a # ds)) s"
    using Cons.IH [OF d e n(2)] read_operator [OF print_query_not_space [OF d], of "rulebody n uni" cj s]
    by (simp add: a n(1) expression_def operation_def binary_op_def p_alt_def p_seq_def [of "p_alt _ _"] group_not_clause [OF c] f)
  then show ?case using body_stop [OF e]
    by (simp, subst p_many.simps) (simp add: p_alt_def a print_clause_def)
qed

subsection \<open>The chain of a query\<close>

definition clause_link :: "conf \<Rightarrow> (rune \<Rightarrow> bool) \<Rightarrow> op option \<Rightarrow> op \<Rightarrow> clause \<Rightarrow> link" where
  "clause_link cfg uni prev o1 c =
     \<lparr>lk_query = BasicQuery \<lparr>bq_field = converted_field cfg uni (concat (fst c)),
        bq_term = \<lparr>qt_term = concat (snd c), qt_mod = OpNotAnOp\<rparr>, bq_op = o1, bq_complete = True\<rparr>, lk_prev = prev\<rparr>"

fun query_links :: "conf \<Rightarrow> (rune \<Rightarrow> bool) \<Rightarrow> op option \<Rightarrow> clause \<Rightarrow> (bool \<times> clause) list \<Rightarrow> link list" where
  "query_links cfg uni prev c [] = [clause_link cfg uni prev OpBinOr c]"
| "query_links cfg uni prev c ((cj, d) # ds) =
     clause_link cfg uni prev (op_of cj) c # query_links cfg uni (Some (op_of cj)) d ds"

text \<open>A chain to which a clause can be added.\<close>

definition extensible :: "token \<Rightarrow> bool" where
  "extensible z \<longleftrightarrow> ready z \<and> negation (latest_op z) = None \<and> (tk_links z = [] \<and> QueryChain z = None \<or> QueryChain z = Some 0)"

definition extended :: "token \<Rightarrow> link list \<Rightarrow> token" where
  "extended z ls = \<lparr>tk_links = tk_links z @ ls, QueryChain = Some 0\<rparr>"

lemma Execute_clause:
  assumes "extensible z"
  shows "Execute cfg uni text (clause_tokens c @ ts) z =
    Execute cfg uni (concat (snd c)) ts (extended z [clause_link cfg uni (latest_op z) OpBinOr c])"
proof -
  let ?q = "\<lambda>f. \<lparr>bq_field = f, bq_term = \<lparr>qt_term = [], qt_mod = OpNotAnOp\<rparr>, bq_op = OpBinOr, bq_complete = False\<rparr>"
  let ?l = "\<lambda>f. \<lparr>lk_query = BasicQuery (?q f), lk_prev = latest_op z\<rparr>"
  have 1: "StartBasic z = extended z [?l []]"
    using assms by (auto simp: extensible_def StartBasic_def start_chain_def attach_def extended_def Let_def)
  have 2: "token_AddField cfg uni f (extended z [?l []]) = Ok (extended z [?l (converted_field cfg uni f)])" for f
    by (simp add: token_AddField_def on_latest_def extended_def)
  have "\<not> ready (extended z [?l f])" for f by (simp add: ready_def extended_def)
  then have 3: "token_AddTerm (concat (snd c)) (extended z [?l (converted_field cfg uni (concat (fst c)))]) =
      Ok (extended z [clause_link cfg uni (latest_op z) OpBinOr c])"
    using assms by (simp add: token_AddTerm_def on_latest_def link_AddTerm_def basic_AddTerm_def extended_def extensible_def
        clause_link_def Let_def)
  show ?thesis by (simp add: clause_tokens_def 1 2 3)
qed

lemma extensible_extended:
  "negation (Some o1) = None \<Longrightarrow> extensible (extended z [clause_link cfg uni p o1 c])"
  by (simp add: extensible_def extended_def ready_def latest_op_def clause_link_def)

lemma negation_op_of [simp]: "negation (Some (op_of cj)) = None" "negation (Some OpBinOr) = None" "negation (Some OpNotAnOp) = None" "negation None = None"
  by (auto simp: negation_def op_of_def)

lemma Execute_query:
  assumes "extensible z"
  shows "Execute cfg uni tx (query_tokens c ds @ ts) z =
    Execute cfg uni (concat (snd (if ds = [] then c else snd (last ds)))) ts (extended z (query_links cfg uni (latest_op z) c ds))"
  using assms
proof (induction ds arbitrary: c z tx)
  case Nil
  then show ?case by (simp add: Execute_clause)
next
  case (Cons a ds)
  obtain cj d where a: "a = (cj, d)" by (cases a)
  let ?z1 = "extended z [clause_link cfg uni (latest_op z) (op_of cj) c]"
  have op: "token_AddOp (op_of cj) (extended z [clause_link cfg uni (latest_op z) OpBinOr c]) = Ok ?z1"
    by (simp add: token_AddOp_def on_latest_def extended_def clause_link_def)
  have l: "latest_op ?z1 = Some (op_of cj)" by (simp add: latest_op_def extended_def clause_link_def)
  have "Execute cfg uni tx (query_tokens c (a # ds) @ ts) z = Execute cfg uni (concat (snd c)) (query_tokens d ds @ ts) ?z1"
    using Cons.prems by (simp add: a Execute_clause op)
  also have "\<dots> = Execute cfg uni (concat (snd (if ds = [] then d else snd (last ds)))) ts (extended ?z1 (query_links cfg uni (Some (op_of cj)) d ds))"
    using Cons.IH [of ?z1] l by (simp add: extensible_extended)
  finally show ?case by (simp add: a extended_def)
qed

subsection \<open>Evaluation\<close>

text \<open>The part of a collection whose documents satisfy a condition.\<close>

definition sel :: "collection \<Rightarrow> (idxdoc \<Rightarrow> bool) \<Rightarrow> collection \<Rightarrow> bool" where
  "sel docs P cur \<longleftrightarrow> distinct (map fst cur) \<and> set cur = {p \<in> set docs. P (snd p)}"

lemma sel_filter:
  assumes "sel docs P cur"
  shows "sel docs (\<lambda>d. P d \<and> Q d) (filter (\<lambda>p. Q (snd p)) cur)"
  using assms by (auto simp: sel_def distinct_map inj_on_def)

lemma sel_union:
  assumes "distinct (map fst docs)" "sel docs P cur" "sel docs Q r"
  shows "sel docs (\<lambda>d. P d \<or> Q d) (fold (\<lambda>(k, v). aput k v) r cur)"
proof -
  have "distinct (map fst (fold (\<lambda>(k, v). aput k v) r cur)) \<and>
      set (fold (\<lambda>(k, v). aput k v) r cur) = set cur \<union> set r"
    if "distinct (map fst cur)" "set cur \<subseteq> set docs" "set r \<subseteq> set docs" for cur
    using that
  proof (induction r arbitrary: cur)
    case (Cons p r)
    obtain k v where p: "p = (k, v)" by (cases p)
    have "w = v" if "(k, w) \<in> set cur" for w
    proof -
      have "map_of docs k = Some w" "map_of docs k = Some v"
        using that Cons.prems(2,3) p by (auto intro!: map_of_is_SomeI assms(1))
      then show ?thesis by simp
    qed
    moreover have "q \<in> set (aput k v cur) \<longleftrightarrow> (if fst q = k then snd q = v else q \<in> set cur)" for q
      using Cons.prems(1) map_of_eq_Some_iff [of "aput k v cur" "fst q" "snd q"] map_of_eq_Some_iff [of cur "fst q" "snd q"]
      by (auto split: if_splits)
    ultimately have "set (aput k v cur) = insert (k, v) (set cur)" by (auto split: if_splits)
    then show ?case using Cons.IH [of "aput k v cur"] Cons.prems by (auto simp: p)
  qed simp
  from this [of cur] assms show ?thesis by (auto simp: sel_def)
qed

definition clause_holds :: "idxdoc \<Rightarrow> clause \<Rightarrow> bool" where
  "clause_holds d c = trie_Accepts (the (doc_trie d)) (makeSearchTerm (concat (fst c)) (concat (snd c)))"

text \<open>Operators are applied from left to right.\<close>

definition apply_op :: "bool \<Rightarrow> bool \<Rightarrow> bool \<Rightarrow> bool" where
  "apply_op cj a b = (if cj then a \<and> b else a \<or> b)"

definition left_holds :: "idxdoc \<Rightarrow> bool \<Rightarrow> (bool \<times> clause) list \<Rightarrow> bool" where
  "left_holds d b ds = foldl (\<lambda>b (cj, c). apply_op cj b (clause_holds d c)) b ds"

definition query_holds :: "idxdoc \<Rightarrow> clause \<Rightarrow> (bool \<times> clause) list \<Rightarrow> bool" where
  "query_holds d c ds = left_holds d (clause_holds d c) ds"

lemma plain_letter_chars: "plain_letter r \<Longrightarrow> x \<in> set r \<Longrightarrow> is_alnum x \<or> x = CHR ''_''"
  by (auto simp: plain_letter_def ascii_alnum_def length_Suc_conv)

lemma word_chars: "query_word w \<Longrightarrow> x \<in> set (concat w) \<Longrightarrow> is_alnum x \<or> x = CHR ''_''"
  using plain_letter_chars [of _ x] by (cases w) (auto simp only: query_word_def list.case list_all_iff set_concat list.set)

lemma word_plain:
  assumes "query_word w"
  shows "CHR ''*'' \<notin> set (concat w)" "CHR ''?'' \<notin> set (concat w)" "CHR 0x5C \<notin> set (concat w)"
  using word_chars [OF assms, of "CHR ''*''"] word_chars [OF assms, of "CHR ''?''"] word_chars [OF assms, of "CHR 0x5C"]
  by (auto simp del: set_concat simp: is_alnum_def is_digit_def is_upper_def is_lower_def)

lemma clause_plain:
  assumes "clause_ok c"
  shows "plain_term (makeSearchTerm (concat (fst c)) (concat (snd c)))" "concat (fst c) \<noteq> []"
    "makeSearchTerm (concat (fst c)) (concat (snd c)) \<noteq> ''*:*''"
proof -
  show p: "plain_term (makeSearchTerm (concat (fst c)) (concat (snd c)))"
    using assms word_plain [of "fst c"] word_plain [of "snd c"]
    by (auto simp del: set_concat simp: clause_ok_def plain_term_def makeSearchTerm_def)
  then show "makeSearchTerm (concat (fst c)) (concat (snd c)) \<noteq> ''*:*''" by (auto simp: plain_term_def)
  show "concat (fst c) \<noteq> []"
    using assms by (cases "fst c") (auto simp: clause_ok_def query_word_def plain_letter_def ascii_alnum_def)
qed

text \<open>How far the documents so far determine the operators that can come next.\<close>

definition op_mode :: "op \<Rightarrow> collection \<Rightarrow> bool" where
  "op_mode curOp cur \<longleftrightarrow> curOp = OpBinAnd \<or> curOp = OpBinOr \<or> curOp = OpNotAnOp \<and> cur = []"

lemma link_step:
  assumes "map_of (idxmap i) idx = Some docs" "filled docs" "distinct (map fst docs)" "clause_ok c" "\<not> ConvertSearch cfg"
    "negation p = None" "op_mode curOp cur" "sel docs P cur"
  shows "\<exists>r. link_docs rx idx i curOp cur (clause_link cfg uni p o1 c # ls) = Ok r \<and>
    sel docs (\<lambda>d. apply_op (curOp = OpBinAnd) (P d) (clause_holds d c)) (combine curOp r cur)"
proof -
  let ?t = "makeSearchTerm (concat (fst c)) (concat (snd c))"
  note t = clause_plain [OF assms(4)] and u = unescape_plain [of ?t]
  have u: "unescape ?t = ?t" using t(1) by (intro unescape_plain) (simp add: plain_term_def)
  show ?thesis
  proof (cases "curOp = OpBinAnd")
    case True
    have "filled cur" using assms(2,8) by (auto simp: filled_def sel_def)
    then have "link_docs rx idx i curOp cur (clause_link cfg uni p o1 c # ls) =
        Ok (filter (\<lambda>q. clause_holds (snd q) c) cur)"
      using searchCollection_plain [OF _ t(1), of cur rx False] t(3) assms(5,6)
      by (simp add: True link_docs_def clause_link_def converted_field_def SearchResults_def u link_notop_def clause_holds_def)
    then show ?thesis using sel_filter [OF assms(8), of "\<lambda>d. clause_holds d c"] by (simp add: True combine_def apply_op_def)
  next
    case False
    let ?r = "filter (\<lambda>q. clause_holds (snd q) c) docs"
    have "link_docs rx idx i curOp cur (clause_link cfg uni p o1 c # ls) = Ok ?r"
      using searchCollection_plain [OF assms(2) t(1), of rx False] t(2,3) assms(1,5,6) False
      by (auto simp: link_docs_def clause_link_def converted_field_def Search_def u link_notop_def clause_holds_def)
    moreover have r: "sel docs (\<lambda>d. clause_holds d c) ?r"
      using sel_filter [of docs "\<lambda>_. True" docs "\<lambda>d. clause_holds d c"] assms(3) by (simp add: sel_def)
    have "sel docs (\<lambda>d. P d \<or> clause_holds d c) (combine curOp ?r cur)"
    proof (cases "cur = []")
      case True
      then have "\<not> P d" if "(k, d) \<in> set docs" for k d using assms(8) that by (auto simp: sel_def)
      then show ?thesis using r True by (fastforce simp: combine_def sel_def)
    next
      case False
      then show ?thesis using sel_union [OF assms(3,8) r] assms(7) \<open>curOp \<noteq> OpBinAnd\<close> by (simp add: combine_def op_mode_def)
    qed
    ultimately show ?thesis using False by (simp add: apply_op_def)
  qed
qed

lemma length_query_links [simp]: "length (query_links cfg uni p c ds) = Suc (length ds)"
  by (induction ds arbitrary: p c) auto

lemma query_links_first:
  "query_links cfg uni p c ds =
     clause_link cfg uni p (case ds of [] \<Rightarrow> OpBinOr | (cj, _) # _ \<Rightarrow> op_of cj) c #
       (case ds of [] \<Rightarrow> [] | (cj, d) # es \<Rightarrow> query_links cfg uni (Some (op_of cj)) d es)"
  by (cases ds) auto

lemma execute_basic:
  assumes "s < length ls" "lk_query (ls ! s) = BasicQuery q" "link_docs rx idx i curOp cur (drop s ls) = Ok r"
  shows "execute rx idx i ls cuts curOp cur (Some s) = execute rx idx i ls cuts (bq_op q) (combine curOp r cur) (next_link ls cuts s)"
  using assms by (simp add: execute.simps(2))

text \<open>A run of clauses in the middle of a chain.\<close>

lemma execute_clauses:
  assumes env: "map_of (idxmap i) idx = Some docs" "filled docs" "distinct (map fst docs)" "\<not> ConvertSearch cfg"
    and "query_ok c ds" "negation p = None" "op_mode curOp cur" "sel docs P cur"
    and "ls = pre @ query_links cfg uni p c ds @ post" "\<forall>k. length pre \<le> k \<and> k < length pre + length ds \<longrightarrow> k \<notin> set cuts"
  shows "\<exists>cur1. execute rx idx i ls cuts curOp cur (Some (length pre)) =
      execute rx idx i ls cuts OpBinOr cur1 (next_link ls cuts (length pre + length ds)) \<and>
    sel docs (\<lambda>d. left_holds d (apply_op (curOp = OpBinAnd) (P d) (clause_holds d c)) ds) cur1"
  using assms(5-)
proof (induction ds arbitrary: c p curOp cur P pre)
  case Nil
  then have c: "clause_ok c" by (simp add: query_ok_def)
  obtain r where "link_docs rx idx i curOp cur (clause_link cfg uni p OpBinOr c # post) = Ok r"
    "sel docs (\<lambda>d. apply_op (curOp = OpBinAnd) (P d) (clause_holds d c)) (combine curOp r cur)"
    using link_step [OF env(1-3) c env(4) Nil.prems(2-4)] by blast
  then show ?case using Nil.prems(5)
    by (intro exI [of _ "combine curOp r cur"]) (auto simp: left_holds_def execute_basic clause_link_def)
next
  case (Cons a ds)
  obtain cj d where a: "a = (cj, d)" by (cases a)
  have c: "clause_ok c" and d: "query_ok d ds" using Cons.prems(1) by (auto simp: query_ok_def a)
  let ?pre1 = "pre @ [clause_link cfg uni p (op_of cj) c]" and ?rest = "query_links cfg uni (Some (op_of cj)) d ds @ post"
  obtain r where r: "link_docs rx idx i curOp cur (clause_link cfg uni p (op_of cj) c # ?rest) = Ok r"
    "sel docs (\<lambda>d. apply_op (curOp = OpBinAnd) (P d) (clause_holds d c)) (combine curOp r cur)"
    using link_step [OF env(1-3) c env(4) Cons.prems(2-4)] by blast
  have "next_link ls cuts (length pre) = Some (length ?pre1)"
    using Cons.prems(5,6) by (simp add: next_link_def a)
  then have step: "execute rx idx i ls cuts curOp cur (Some (length pre)) =
      execute rx idx i ls cuts (op_of cj) (combine curOp r cur) (Some (length ?pre1))"
    using r(1) Cons.prems(5) by (subst execute_basic) (auto simp: a clause_link_def)
  have "op_mode (op_of cj) (combine curOp r cur)" by (simp add: op_mode_def op_of_def)
  moreover have "ls = ?pre1 @ ?rest" using Cons.prems(5) by (simp add: a)
  moreover have "\<forall>k. length ?pre1 \<le> k \<and> k < length ?pre1 + length ds \<longrightarrow> k \<notin> set cuts" using Cons.prems(6) by simp
  ultimately obtain cur1 where "execute rx idx i ls cuts (op_of cj) (combine curOp r cur) (Some (length ?pre1)) =
      execute rx idx i ls cuts OpBinOr cur1 (next_link ls cuts (length ?pre1 + length ds)) \<and>
    sel docs (\<lambda>e. left_holds e (apply_op (op_of cj = OpBinAnd) (apply_op (curOp = OpBinAnd) (P e) (clause_holds e c)) (clause_holds e d)) ds) cur1"
    using Cons.IH [OF d negation_op_of(1) _ r(2), of "op_of cj" ?pre1] by blast
  moreover have "op_of cj = OpBinAnd \<longleftrightarrow> cj" by (simp add: op_of_def)
  ultimately show ?case using step by (auto simp: a left_holds_def)
qed

subsection \<open>Queries without groups\<close>

lemma new_token_extensible: "extensible new_token" "latest_op new_token = None" "tk_links new_token = []"
  by (simp_all add: new_token_def extensible_def ready_def latest_op_def)

lemma query_length: "length ds < length (print_query c ds)"
proof (induction ds arbitrary: c)
  case (Cons a ds)
  obtain cj d where a: "a = (cj, d)" by (cases a)
  show ?case using Cons.IH [of d] by (simp add: a print_clause_def print_op_def)
qed (simp add: print_clause_def)

text \<open>A query of clauses \<open>field:term\<close> joined by \<open>AND\<close> and \<open>OR\<close> is answered, and it finds exactly the
  documents of the collection that satisfy it when the operators are applied from left to right:
  \<open>AND\<close> does not bind more tightly than \<open>OR\<close>.\<close>

lemma query_meaning:
  assumes "query_ok c ds" "\<not> ConvertSearch cfg"
    "map_of (idxmap i) idx = Some docs" "filled docs" "distinct (map fst docs)"
  shows "\<exists>r. query_docs cfg sl idx (print_query c ds) i = Some (Ok r) \<and> distinct (map fst r) \<and>
    set r = {p \<in> set docs. query_holds (snd p) c ds}"
proof -
  let ?uni = "sl_letter sl" and ?q = "print_query c ds"
  have "rulebody (Suc (length ?q)) ?uni ?q = Matches (query_tokens c ds) []"
    using body_reads_query [OF assms(1), of "[]" "length ?q" ?uni] query_length [of ds c] by (simp add: query_end_def)
  then have m: "ruleq ?uni ?q = Matches (query_tokens c ds) []" by (simp add: ruleq_def p_seq_def p_not_def p_sat_def)
  let ?ls = "query_links cfg ?uni None c ds"
  have x: "Execute cfg ?uni [] (query_tokens c ds) new_token = Ok \<lparr>tk_links = ?ls, QueryChain = Some 0\<rparr>"
    using Execute_query [OF new_token_extensible(1), of cfg ?uni "[]" c ds "[]"] by (simp add: new_token_extensible extended_def)
  have "op_mode OpNotAnOp []" "sel docs (\<lambda>_. False) []" by (simp_all add: op_mode_def sel_def)
  then obtain r where r: "execute (sl_regexp sl) idx i ?ls [] OpNotAnOp [] (Some 0) =
      execute (sl_regexp sl) idx i ?ls [] OpBinOr r (next_link ?ls [] (length ds))"
    "sel docs (\<lambda>d. left_holds d (clause_holds d c) ds) r"
    using execute_clauses [OF assms(3-5,2,1) negation_op_of(4), of OpNotAnOp "[]" "\<lambda>_. False" ?ls "[]" ?uni "[]" "[]" "sl_regexp sl"]
    by (auto simp: apply_op_def)
  have "next_link ?ls [] (length ds) = None" by (simp add: next_link_def)
  then have "query_docs cfg sl idx ?q i = Some (Ok r)"
    using r(1) by (simp add: query_docs_def m x run_query_def Evaluate_def)
  then show ?thesis using r(2) by (auto simp: sel_def query_holds_def)
qed

text \<open>The documents of two nodes, as the index has them.\<close>

definition example_docs :: collection where
  "example_docs =
     [(''db1'', \<lparr>doc_trie = lines_trie [''os:linux'', ''role:db''], docText = Some []\<rparr>),
      (''web1'', \<lparr>doc_trie = lines_trie [''os:bsd'', ''role:web''], docText = Some []\<rparr>)]"

definition example_index :: fileindex where
  "example_index = \<lparr>idxmap = [(''node'', example_docs)], idx_updated = False\<rparr>"

definition search_conf :: conf where
  "search_conf = \<lparr>UseAuth = True, DotSearch = False, UsePostgreSQL = False, UseSerf = False, LogEvents = False,
     SkipLogExtended = False, IndexValTrim = 0, DisableWebUI = False, JSONReqMaxSize = 1000000, ObjMaxSize = 1000000,
     TimeSlewDur = 0, PprofWhitelist = [], UseShovey = False, ConvertSearch = False, LogEventKeep = 0, PurgeReportsDur = 0,
     PurgeSandboxesDur = 0, PurgeNodeStatusDur = 0\<rparr>"

definition example_searchlib :: searchlib where
  "example_searchlib = \<lparr>sl_letter = (\<lambda>_. False), sl_regexp = (\<lambda>_. Errorf ''no regular expressions''),
     sl_parseError = (\<lambda>_. ''parse error''), sl_Sort = (\<lambda>_ xs. xs), sl_Quote = (\<lambda>s. s)\<rparr>"

definition example_clause :: "string \<Rightarrow> string \<Rightarrow> clause" where
  "example_clause f t = (runes f, runes t)"

lemma example_tries:
  "\<exists>t. lines_trie [''os:linux'', ''role:db''] = Some t" "\<exists>t. lines_trie [''os:bsd'', ''role:web''] = Some t"
proof -
  have "lines_trie [''os:linux'', ''role:db''] \<noteq> None" by code_simp
  then show "\<exists>t. lines_trie [''os:linux'', ''role:db''] = Some t" by blast
  have "lines_trie [''os:bsd'', ''role:web''] \<noteq> None" by code_simp
  then show "\<exists>t. lines_trie [''os:bsd'', ''role:web''] = Some t" by blast
qed

lemma example_index_ok:
  "map_of (idxmap example_index) ''node'' = Some example_docs" "filled example_docs" "distinct (map fst example_docs)"
  "\<not> ConvertSearch search_conf"
  using example_tries by (simp_all add: example_index_def example_docs_def filled_def search_conf_def)

lemma example_holds:
  "clause_holds (snd (example_docs ! 0)) (example_clause ''role'' ''db'')" "clause_holds (snd (example_docs ! 1)) (example_clause ''role'' ''web'')"
  "\<not> clause_holds (snd (example_docs ! 1)) (example_clause ''os'' ''linux'')" "clause_holds (snd (example_docs ! 0)) (example_clause ''os'' ''linux'')"
  "\<not> clause_holds (snd (example_docs ! 0)) (example_clause ''role'' ''web'')" "\<not> clause_holds (snd (example_docs ! 1)) (example_clause ''role'' ''db'')"
  by code_simp+

lemma query_meaning_example:
  "\<exists>r. query_docs search_conf example_searchlib ''node'' (runes ''role:web OR role:db AND os:linux'') example_index = Some (Ok r) \<and>
    set r = {example_docs ! 0}"
proof -
  let ?c = "example_clause ''role'' ''web''"
  let ?ds = "[(False, example_clause ''role'' ''db''), (True, example_clause ''os'' ''linux'')]"
  have "query_ok ?c ?ds" by code_simp
  from query_meaning [OF this example_index_ok(4,1-3), of example_searchlib]
  obtain r where "query_docs search_conf example_searchlib ''node'' (print_query ?c ?ds) example_index = Some (Ok r)"
    "set r = {p \<in> set example_docs. query_holds (snd p) ?c ?ds}" by auto
  moreover have "print_query ?c ?ds = runes ''role:web OR role:db AND os:linux''" by code_simp
  moreover have "set example_docs = {example_docs ! 0, example_docs ! 1}" by (simp add: example_docs_def)
  moreover have "query_holds (snd (example_docs ! 0)) ?c ?ds" "\<not> query_holds (snd (example_docs ! 1)) ?c ?ds"
    using example_holds by (simp_all add: query_holds_def left_holds_def apply_op_def)
  ultimately show ?thesis by auto
qed

subsection \<open>Groups\<close>

definition print_group :: "clause \<Rightarrow> bool \<Rightarrow> clause \<Rightarrow> (bool \<times> clause) list \<Rightarrow> rune list" where
  "print_group c0 cj c ds = print_clause c0 @ print_op cj @ ''('' # print_query c ds @ ['')'']"

definition group_tokens :: "clause \<Rightarrow> bool \<Rightarrow> clause \<Rightarrow> (bool \<times> clause) list \<Rightarrow> token32 list" where
  "group_tokens c0 cj c ds =
     clause_tokens c0 @ [Action (DoAddOp (op_of cj)), Action DoStartSubQuery] @ query_tokens c ds @ [Action DoEndSubQuery]"

lemma space_not_paren: "rulespace (''('' # s) = Fails"
  by (simp add: rulespace_def p_some_def p_seq_def p_sat_def)

text \<open>A group that nothing follows is read as such.\<close>

lemma expression_group:
  assumes "body (q @ ['')'']) = Matches ts ['')'']"
  shows "expression uni body (''('' # q @ ['')'']) = Matches (Action DoStartSubQuery # ts @ [Action DoEndSubQuery]) []"
proof -
  let ?s = "''('' # q @ ['')'']"
  have sp: "rulespace [] = Fails" by (rule space_stop) (simp add: query_end_def)
  have g: "rulegroup body ?s = Matches (Action DoStartSubQuery # ts @ [Action DoEndSubQuery]) []"
    using assms by (simp add: rulegroup_def rulesub_q_def p_seq_def p_opt_def p_act_def p_char_def p_sat_def space_not_paren sp)
  have c: "p_char x ?s = Fails" "\<not> next_is [x] ?s" if "x \<noteq> CHR ''(''" for x using that by (simp_all add: p_char_def p_sat_def next_is_def)
  have l: "rulevalid_letter uni ?s = Fails"
    by (simp add: rulevalid_letter_def p_some_def p_seq_def rulestart_letter_def next_is_def p_sat_def letter_defs other_letter_def)
  have k: "rulekeyword ?s = Fails" by (simp add: rulekeyword_def next_is_def p_word_def p_seq_def p_char_def p_sat_def)
  have t: "ruleterm uni ?s = Fails" "rulestring uni ?s = Fails" "rulefield_name uni ?s = Fails"
    by (simp_all add: ruleterm_def rulestring_def rulefield_name_def p_text_def p_seq_def p_alt_def p_not_def p_some_def k l c)
  then have f: "rulefield uni body ?s = Fails" "rulefield_range uni ?s = Fails"
    by (simp_all add: rulefield_def rulefield_range_def range_of_def p_alt_def p_seq_def p_act_def)
  have n: "rulenot_operator ?s = Fails" by (simp add: rulenot_operator_def p_word_def p_seq_def p_char_def p_sat_def)
  have "operation uni body ?s = Fails"
    using no_operator [of "[]"]
    by (simp add: operation_def binary_op_def unary_op_def not_op_def not_sub_op_def fuzzy_op_def boost_op_def term_or_string_def
        p_alt_def p_seq_def [of "p_alt _ _"] p_seq_def [of rulenot_operator] p_seq_def [of "p_char _"] p_seq_def [of "p_act _"]
        p_act_def g n t c query_end_def)
  moreover have "next_is [CHR 0x09, CHR 0x0A, CHR 0x0D, CHR '' '', CHR ''(''] ?s" by (simp add: next_is_def)
  ultimately show ?thesis using g f c by (simp add: expression_def p_alt_def)
qed

lemma body_reads_group:
  assumes "clause_ok c0" "query_ok c ds" "length ds + 2 \<le> n"
  shows "rulebody (Suc n) uni (print_group c0 cj c ds) = Matches (group_tokens c0 cj c ds) []"
proof -
  obtain m where m: "n = Suc (Suc m)" "length ds \<le> m" using assms(3) by (cases n; cases "n - 1") auto
  let ?g = "''('' # print_query c ds @ ['')'']" and ?inner = "Action DoStartSubQuery # query_tokens c ds @ [Action DoEndSubQuery]"
  have e: "query_end ['')'']" "query_end []" by (simp_all add: query_end_def)
  have "expression uni (rulebody (Suc m) uni) ?g = Matches ?inner []"
    by (rule expression_group) (rule body_reads_query [OF assms(2) e(1) m(2)])
  then have g: "rulebody n uni ?g = Matches ?inner []"
    using body_stop [OF e(2)] by (simp add: m(1), subst p_many.simps) (simp add: p_alt_def)
  have "word_end (print_op cj @ ?g)" by (simp add: word_end_def print_op_def)
  then have f: "rulefield uni body (print_clause c0 @ print_op cj @ ?g) = Matches (clause_tokens c0) (print_op cj @ ?g)" for body
    by (rule field_clause [OF assms(1)])
  have "expression uni (rulebody n uni) (print_group c0 cj c ds) = Matches (group_tokens c0 cj c ds) []"
    using g read_operator [OF space_not_paren, of "rulebody n uni" cj "print_query c ds @ ['')'']"]
    by (simp add: print_group_def group_tokens_def expression_def operation_def binary_op_def p_alt_def p_seq_def [of "p_alt _ _"]
        group_not_clause [OF assms(1)] f)
  then show ?thesis using body_stop [OF e(2)]
    by (simp, subst p_many.simps) (simp add: p_alt_def print_group_def)
qed

text \<open>The chain of such a query, and where its group ends.\<close>

definition start_link :: "op \<Rightarrow> link" where
  "start_link prev = \<lparr>lk_query = SubQuery \<lparr>sq_start = True, sq_end = False, sq_op = OpNotAnOp, sq_complete = True\<rparr>, lk_prev = Some prev\<rparr>"

definition end_link :: link where
  "end_link = \<lparr>lk_query = SubQuery \<lparr>sq_start = False, sq_end = True, sq_op = OpNotAnOp, sq_complete = True\<rparr>, lk_prev = Some OpBinOr\<rparr>"

definition group_links :: "conf \<Rightarrow> (rune \<Rightarrow> bool) \<Rightarrow> clause \<Rightarrow> bool \<Rightarrow> clause \<Rightarrow> (bool \<times> clause) list \<Rightarrow> link list" where
  "group_links cfg uni c0 cj c ds =
     [clause_link cfg uni None (op_of cj) c0, start_link (op_of cj)] @ query_links cfg uni (Some OpNotAnOp) c ds @ [end_link]"

lemma query_links_nonempty [simp]: "query_links cfg uni p c ds \<noteq> []"
  by (metis length_query_links list.size(3) nat.distinct(1))

lemma last_query_link: "last (query_links cfg uni p c ds) = clause_link cfg uni (lk_prev (last (query_links cfg uni p c ds))) OpBinOr (if ds = [] then c else snd (last ds))"
proof (induction ds arbitrary: p c)
  case (Cons a ds)
  obtain cj d where "a = (cj, d)" by (cases a)
  then show ?case using Cons.IH [of "Some (op_of cj)" d] by auto
qed (simp add: clause_link_def)

lemma Execute_group:
  "Execute cfg uni [] (group_tokens c0 cj c ds) new_token = Ok \<lparr>tk_links = group_links cfg uni c0 cj c ds, QueryChain = Some 0\<rparr>"
proof -
  let ?l0 = "clause_link cfg uni None (op_of cj) c0"
  let ?z1 = "extended new_token [?l0]" and ?z2 = "\<lparr>tk_links = [?l0, start_link (op_of cj)], QueryChain = Some 0\<rparr>"
  have 1: "token_AddOp (op_of cj) (extended new_token [clause_link cfg uni None OpBinOr c0]) = Ok ?z1"
    by (simp add: token_AddOp_def on_latest_def extended_def clause_link_def)
  have 2: "StartSubQuery ?z1 = ?z2"
    by (simp add: StartSubQuery_def start_chain_def attach_def extended_def ready_def latest_op_def clause_link_def start_link_def
        Let_def new_token_def)
  have 3: "extensible ?z2" "latest_op ?z2 = Some OpNotAnOp" by (simp_all add: extensible_def ready_def latest_op_def start_link_def)
  let ?z3 = "extended ?z2 (query_links cfg uni (Some OpNotAnOp) c ds)"
  have l: "last (tk_links ?z3) = last (query_links cfg uni (Some OpNotAnOp) c ds)" "tk_links ?z3 \<noteq> []" by (simp_all add: extended_def)
  have "lk_query (last (tk_links ?z3)) = lk_query (clause_link cfg uni None OpBinOr (if ds = [] then c else snd (last ds)))"
    unfolding l by (subst last_query_link) (simp add: clause_link_def)
  then have 4: "EndSubQuery ?z3 = \<lparr>tk_links = group_links cfg uni c0 cj c ds, QueryChain = Some 0\<rparr>"
    using l(2) by (simp add: EndSubQuery_def attach_def ready_def latest_op_def clause_link_def)
      (simp add: extended_def group_links_def end_link_def clause_link_def)
  show ?thesis
    using Execute_query [OF 3(1), of cfg uni _ c ds "[Action DoEndSubQuery]"]
    by (simp add: group_tokens_def Execute_clause [OF new_token_extensible(1)] new_token_extensible(2) 1 2 3(2) 4)
qed

lemma op_of_And: "op_of cj = OpBinAnd \<longleftrightarrow> cj"
  by (simp add: op_of_def)

lemma sub_end_clauses:
  assumes "ls = pre @ query_links cfg uni p c ds @ [end_link]" "\<forall>k. length pre \<le> k \<and> k \<le> length pre + length ds \<longrightarrow> k \<notin> set cuts"
  shows "sub_end ls cuts 1 q (length pre) = Some (length pre + length ds, Suc (length pre + length ds))"
  using assms
proof (induction ds arbitrary: pre p c q)
  case Nil
  then have "sub_end ls cuts 1 q (length pre) = sub_end ls cuts 1 (length pre) (Suc (length pre))"
    by (subst sub_end.simps) (simp add: sub_depth_def clause_link_def next_link_def)
  moreover have "ls ! Suc (length pre) = end_link" using Nil.prems(1) by (simp add: nth_append)
  ultimately show ?case by (subst (asm) (2) sub_end.simps) (simp add: sub_depth_def end_link_def)
next
  case (Cons a ds)
  obtain cj d where a: "a = (cj, d)" by (cases a)
  let ?pre1 = "pre @ [clause_link cfg uni p (op_of cj) c]"
  have "sub_end ls cuts 1 q (length pre) = sub_end ls cuts 1 (length pre) (length ?pre1)"
    using Cons.prems by (subst sub_end.simps) (simp add: a sub_depth_def clause_link_def next_link_def)
  moreover have "ls = ?pre1 @ query_links cfg uni (Some (op_of cj)) d ds @ [end_link]" using Cons.prems(1) by (simp add: a)
  ultimately show ?case using Cons.IH [of ?pre1] Cons.prems(2) by simp
qed

text \<open>\<^bold>\<open>C21\<close>. For a query of one plain clause and one group at its end: a group after \<open>OR\<close> has its own
  meaning, but a group after \<open>AND\<close> is evaluated as if it had no parentheses: \<open>a:x AND (b:y OR c:z)\<close> also finds the documents with \<open>c:z\<close> that do not have
  \<open>a:x\<close>.\<close>

theorem group_meaning:
  assumes "clause_ok c0" "query_ok c ds" "\<not> ConvertSearch cfg"
    "map_of (idxmap i) idx = Some docs" "filled docs" "distinct (map fst docs)"
  shows "\<exists>r. query_docs cfg sl idx (print_group c0 cj c ds) i = Some (Ok r) \<and> distinct (map fst r) \<and>
    set r = {p \<in> set docs. if cj then query_holds (snd p) c0 ((True, c) # ds)
                            else clause_holds (snd p) c0 \<or> query_holds (snd p) c ds}"
proof -
  let ?uni = "sl_letter sl" and ?rx = "sl_regexp sl" and ?q = "print_group c0 cj c ds"
  let ?ls = "group_links cfg ?uni c0 cj c ds" and ?pre = "[clause_link cfg ?uni None (op_of cj) c0, start_link (op_of cj)]"
  have "rulebody (Suc (length ?q)) ?uni ?q = Matches (group_tokens c0 cj c ds) []"
    using query_length [of ds c] by (intro body_reads_group assms) (simp add: print_group_def print_clause_def)
  then have m: "ruleq ?uni ?q = Matches (group_tokens c0 cj c ds) []" by (simp add: ruleq_def p_seq_def p_not_def p_sat_def)
  have ls: "?ls = ?pre @ query_links cfg ?uni (Some OpNotAnOp) c ds @ [end_link]" by (simp add: group_links_def)
  have "op_mode OpNotAnOp []" "sel docs (\<lambda>_. False) []" by (simp_all add: op_mode_def sel_def)
  then obtain r0 where r0: "link_docs ?rx idx i OpNotAnOp [] (drop 0 ?ls) = Ok r0" "sel docs (\<lambda>d. clause_holds d c0) r0"
    using link_step [OF assms(4-6,1,3) negation_op_of(4), of OpNotAnOp "[]" "\<lambda>_. False" ?rx ?uni "op_of cj" "tl ?ls"]
    by (auto simp: apply_op_def combine_def group_links_def)
  have 0: "execute ?rx idx i ?ls [] OpNotAnOp [] (Some 0) = execute ?rx idx i ?ls [] (op_of cj) r0 (Some 1)"
    using execute_basic [OF _ _ r0(1)] by (simp add: group_links_def clause_link_def next_link_def combine_def)
  let ?cut = "[2 + length ds]"
  have 1: "extractSubQuery ?ls [] 1 = Ok (2, 3 + length ds, ?cut)"
    using sub_end_clauses [OF ls, of "[]" 1]
    by (simp add: extractSubQuery_def next_link_def group_links_def numeral_2_eq_2 numeral_3_eq_3)
  let ?P = "\<lambda>d. cj \<and> clause_holds d c0"
  have s: "sel docs ?P (sub_docs (op_of cj) r0)" using r0(2) by (auto simp: sub_docs_def op_of_def sel_def)
  have "op_mode (op_of cj) (sub_docs (op_of cj) r0)" by (simp add: op_mode_def op_of_def)
  then obtain r1 where r1: "execute ?rx idx i ?ls ?cut (op_of cj) (sub_docs (op_of cj) r0) (Some 2) =
      execute ?rx idx i ?ls ?cut OpBinOr r1 (next_link ?ls ?cut (2 + length ds))"
    "sel docs (\<lambda>d. left_holds d (apply_op cj (?P d) (clause_holds d c)) ds) r1"
    using execute_clauses [where cuts = ?cut and rx = ?rx and curOp = "op_of cj", OF assms(4-6,3,2) negation_op_of(3) _ s ls]
    by (auto simp: numeral_2_eq_2 op_of_And)
  have cut: "next_link ?ls ?cut (2 + length ds) = None" "next_link ?ls ?cut (3 + length ds) = None"
    by (simp_all add: next_link_def group_links_def)
  have "?ls ! 1 = start_link (op_of cj)" "?ls ! (3 + length ds) = end_link" "1 < length ?ls"
    by (simp_all add: group_links_def nth_append numeral_3_eq_3)
  then have "execute ?rx idx i ?ls [] (op_of cj) r0 (Some 1) = Ok (combine (op_of cj) r1 r0, ?cut)"
    using 1 r1(1) cut by (simp add: execute.simps(2) start_link_def)
  then have "query_docs cfg sl idx ?q i = Some (Ok (combine (op_of cj) r1 r0))"
    using 0 by (simp add: query_docs_def m Execute_group run_query_def Evaluate_def)
  moreover have "sel docs (\<lambda>d. if cj then query_holds d c0 ((True, c) # ds) else clause_holds d c0 \<or> query_holds d c ds) (combine (op_of cj) r1 r0)"
  proof (cases cj)
    case True
    then show ?thesis using r1(2) by (simp add: combine_def op_of_def query_holds_def left_holds_def apply_op_def)
  next
    case False
    have q: "sel docs (\<lambda>d. query_holds d c ds) r1" using r1(2) False by (simp add: query_holds_def apply_op_def)
    show ?thesis
    proof (cases "r0 = []")
      case True
      then have "\<not> clause_holds d c0" if "(k, d) \<in> set docs" for k d using r0(2) that by (auto simp: sel_def)
      then show ?thesis using q False True by (fastforce simp: combine_def sel_def)
    qed (use sel_union [OF assms(6) r0(2) q] False in \<open>simp add: combine_def op_of_def\<close>)
  qed
  ultimately show ?thesis by (auto simp: sel_def)
qed

theorem group_meaning_witness:
  "\<exists>r. query_docs search_conf example_searchlib ''node'' (runes ''os:linux AND (role:db OR role:web)'') example_index = Some (Ok r) \<and>
    set r = {example_docs ! 0, example_docs ! 1}"
proof -
  let ?c = "example_clause ''os'' ''linux''" and ?d = "example_clause ''role'' ''db''" and ?ds = "[(False, example_clause ''role'' ''web'')]"
  have "clause_ok ?c" "query_ok ?d ?ds" by code_simp+
  from group_meaning [OF this example_index_ok(4,1-3), of example_searchlib True]
  obtain r where "query_docs search_conf example_searchlib ''node'' (print_group ?c True ?d ?ds) example_index = Some (Ok r)"
    "set r = {p \<in> set example_docs. query_holds (snd p) ?c ((True, ?d) # ?ds)}" by auto
  moreover have "print_group ?c True ?d ?ds = runes ''os:linux AND (role:db OR role:web)''" by code_simp
  moreover have "set example_docs = {example_docs ! 0, example_docs ! 1}" by (simp add: example_docs_def)
  moreover have "query_holds (snd (example_docs ! 0)) ?c ((True, ?d) # ?ds)" "query_holds (snd (example_docs ! 1)) ?c ((True, ?d) # ?ds)"
    using example_holds by (simp_all add: query_holds_def left_holds_def apply_op_def)
  ultimately show ?thesis by auto
qed

end
