(* ===== verification/Reports.thy ===== *)
theory Reports
  imports Authentication DataHandlers
begin

text \<open>
  \<^verbatim>\<open>report/report.go\<close> and \<^verbatim>\<open>reports.go\<close>: the reports on runs of the Chef client. The metrics that
  \<open>Save\<close> registers are left out.
\<close>

subsection \<open>UUIDs\<close>

text \<open>\<open>uuid.Parse\<close> returns nil unless the text has one of two forms.\<close>

definition is_hex :: "char \<Rightarrow> bool" where
  "is_hex c \<longleftrightarrow> is_digit c \<or> c \<in> set ''abcdefABCDEF''"

definition to_lower_ascii :: "char \<Rightarrow> char" where
  "to_lower_ascii c = (if is_upper c then char_of (of_char c + 32 :: nat) else c)"

definition uuid_body :: "string \<Rightarrow> bool" where
  "uuid_body s \<longleftrightarrow>
     s ! 8 = CHR ''-'' \<and> s ! 13 = CHR ''-'' \<and> s ! 18 = CHR ''-'' \<and> s ! 23 = CHR ''-'' \<and>
     list_all (\<lambda>x. is_hex (s ! x) \<and> is_hex (s ! Suc x)) [0, 2, 4, 6, 9, 11, 14, 16, 19, 21, 24, 26, 28, 30, 32, 34]"

definition uuid_Parse :: "string \<Rightarrow> bool" where
  "uuid_Parse s \<longleftrightarrow>
     (if length s = 45 then map to_lower_ascii (take 9 s) = ''urn:uuid:'' \<and> uuid_body (drop 9 s)
      else length s = 36 \<and> uuid_body s)"

subsection \<open>report.go\<close>

definition ReportTimeFormat :: string where
  "ReportTimeFormat = ''2006-01-02 15:04:05 -0700''"

definition report_New :: "string \<Rightarrow> string \<Rightarrow> server \<Rightarrow> report outcome" where
  "report_New runID nodeName s =
     (if srv_Get ''report'' s runID \<noteq> None then ErrorS ''Report already exists'' StatusConflict
      else if \<not> uuid_Parse runID then ErrorS ''run id was not a valid uuid'' StatusBadRequest
      else Ok \<lparr>rp_RunID = runID, rp_StartTime = zero_time, rp_EndTime = zero_time, rp_TotalResCount = 0,
               rp_Status = ''started'', rp_RunList = [], rp_Resources = None, rp_Data = None, rp_NodeName = nodeName\<rparr>)"

definition report_Get :: "string \<Rightarrow> server \<Rightarrow> report outcome" where
  "report_Get runID s =
     (case srv_Get ''report'' s runID of
        None \<Rightarrow> ErrorS (''Report '' @ runID @ '' not found'') StatusNotFound
      | Some (VReport r) \<Rightarrow> Ok r
      | Some _ \<Rightarrow> Panic)"

definition report_Save :: "report \<Rightarrow> server \<Rightarrow> server" where
  "report_Save r s = srv_Set ''report'' (rp_RunID r) (VReport r) s"

definition report_Delete :: "report \<Rightarrow> server \<Rightarrow> server" where
  "report_Delete r s = srv_Delete ''report'' (rp_RunID r) s"

definition report_GetList :: "server \<Rightarrow> string list" where
  "report_GetList s = srv_GetList ''report'' s"

definition AllReports :: "server \<Rightarrow> report list outcome" where
  "AllReports s = get_multi (\<lambda>r. report_Get r s) (report_GetList s)"

definition report_before :: "report \<Rightarrow> report \<Rightarrow> bool" where
  "report_before a b \<longleftrightarrow> rp_EndTime a < rp_EndTime b"

definition DeleteByAge :: "int \<Rightarrow> int \<Rightarrow> server \<Rightarrow> nat outcome \<times> server" where
  "DeleteByAge timeNow dur s =
     (case AllReports s of
        Err e \<Rightarrow> (Err e, s)
      | Panic \<Rightarrow> (Panic, s)
      | Ok reports \<Rightarrow>
          (if reports = [] then (Ok 0, s)
           else
             (let sorted = sort_by report_before reports; now = timeNow - dur
              in if now < rp_EndTime (hd sorted) then (Ok 0, s)
                 else
                   (let i = sort_Search (length sorted) (\<lambda>i. now < rp_EndTime (sorted ! i))
                    in (Ok i, fold report_Delete (take i sorted) s)))))"

definition report_NewFromJSON :: "world \<Rightarrow> string \<Rightarrow> gobj \<Rightarrow> server \<Rightarrow> report outcome" where
  "report_NewFromJSON wd nodeName jsonReport s =
     (case gget jsonReport ''run_id'' of
        GStr rid \<Rightarrow>
          (case gget jsonReport ''action'' of
             GStr action \<Rightarrow>
               (if action \<noteq> ''start'' then Errorf (''invalid action '' @ action)
                else
                  (case gget jsonReport ''start_time'' of
                     GStr stime \<Rightarrow>
                       (case w_ParseTime wd ReportTimeFormat stime of
                          Panic \<Rightarrow> Panic
                        | Err terr \<Rightarrow> Err (CastErr terr)
                        | Ok startTime \<Rightarrow>
                            outcome_bind (report_New rid nodeName s) (\<lambda>r. Ok (r\<lparr>rp_StartTime := startTime\<rparr>)))
                   | _ \<Rightarrow> Errorf ''invalid start time''))
           | _ \<Rightarrow> Errorf ''invalid action'')
      | _ \<Rightarrow> ErrorS ''invalid run id'' StatusBadRequest)"

text \<open>The name of the dynamic type of a value, as \<^verbatim>\<open>%T\<close> prints it.\<close>

definition type_name :: "gval \<Rightarrow> string" where
  "type_name v =
     (case v of GNil \<Rightarrow> ''<nil>'' | GBool _ \<Rightarrow> ''bool'' | GNum _ \<Rightarrow> ''json.Number'' | GStr _ \<Rightarrow> ''string''
      | GArr _ \<Rightarrow> ''[]interface {}'' | GStrs _ \<Rightarrow> ''[]string'' | GMap _ \<Rightarrow> ''map[string]interface {}''
      | GStrMap _ \<Rightarrow> ''map[string]string'' | GStrsMap _ \<Rightarrow> ''map[string][]string'')"

definition total_res_count :: "gval \<Rightarrow> int outcome" where
  "total_res_count v =
     (case v of
        GNum t \<Rightarrow>
          (case ParseInt10 t of
             (tn, None) \<Rightarrow> Ok tn
           | (_, Some e) \<Rightarrow> Errorf (''Error converting '' @ t @ '' to int: '' @ parse_int_error t e))
      | GStr t \<Rightarrow>
          (case Atoi t of
             (trc, None) \<Rightarrow> Ok trc
           | (_, Some e) \<Rightarrow>
               Errorf (''Error converting '' @ t @ '' to int: strconv.Atoi: parsing '' @ [CHR 0x22] @ t @ [CHR 0x22] @
                 '': '' @ num_error_text e))
      | _ \<Rightarrow> Errorf (''invalid total_res_count '' @ type_name v))"

definition report_status :: "gval \<Rightarrow> string outcome" where
  "report_status v =
     (case v of
        GStr st \<Rightarrow>
          (if st \<noteq> ''success'' \<and> st \<noteq> ''failure'' \<and> st \<noteq> ''started'' then Errorf (''invalid status '' @ st)
           else Ok st)
      | _ \<Rightarrow> Errorf ''invalid status'')"

definition end_action :: "gobj \<Rightarrow> unit outcome" where
  "end_action jsonReport =
     (case gget jsonReport ''action'' of
        GStr action \<Rightarrow> if action \<noteq> ''end'' then Errorf (''invalid action '' @ action) else Ok ()
      | _ \<Rightarrow> Errorf ''invalid action'')"

definition end_time :: "world \<Rightarrow> gobj \<Rightarrow> int outcome" where
  "end_time wd jsonReport =
     (case gget jsonReport ''end_time'' of
        GStr t \<Rightarrow>
          (case w_ParseTime wd ReportTimeFormat t of
             Ok endTime \<Rightarrow> Ok endTime | Err terr \<Rightarrow> Err (CastErr terr) | Panic \<Rightarrow> Panic)
      | _ \<Rightarrow> Errorf ''invalid end time'')"

definition report_body :: "gobj \<Rightarrow> (string \<times> gval list \<times> gobj) outcome" where
  "report_body jsonReport =
     (case gget jsonReport ''run_list'' of
        GStr rl \<Rightarrow>
          (case gget jsonReport ''resources'' of
             GArr res \<Rightarrow>
               (case gget jsonReport ''data'' of GMap d \<Rightarrow> Ok (rl, res, d) | _ \<Rightarrow> Errorf ''invalid data'')
           | v \<Rightarrow> Errorf (''invalid resources '' @ type_name v))
      | _ \<Rightarrow> Errorf ''invalid run_list'')"

definition report_UpdateFromJSON :: "world \<Rightarrow> gobj \<Rightarrow> report \<Rightarrow> report outcome" where
  "report_UpdateFromJSON wd jsonReport r =
     outcome_bind (end_action jsonReport) (\<lambda>_.
     outcome_bind (end_time wd jsonReport) (\<lambda>endTime.
     outcome_bind (total_res_count (gget jsonReport ''total_res_count'')) (\<lambda>trc.
     outcome_bind (report_status (gget jsonReport ''status'')) (\<lambda>st.
     outcome_bind (report_body jsonReport) (\<lambda>(rl, res, d).
       Ok (r\<lparr>rp_EndTime := endTime, rp_TotalResCount := trc, rp_Status := st, rp_RunList := rl,
             rp_Resources := Some res, rp_Data := Some d\<rparr>))))))"

definition report_checkTimeRange :: "int \<Rightarrow> int \<Rightarrow> report \<Rightarrow> bool" where
  "report_checkTimeRange from until r \<longleftrightarrow> from < rp_StartTime r \<and> rp_StartTime r < until"

definition report_matches :: "int \<Rightarrow> int \<Rightarrow> string \<Rightarrow> report \<Rightarrow> bool" where
  "report_matches from until st r \<longleftrightarrow>
     report_checkTimeRange from until r \<and> (st = [] \<or> st \<noteq> [] \<and> rp_Status r = st)"

text \<open>\<open>i\<close> is the number of reports found so far; the loop stops when it exceeds \<open>rows\<close>.\<close>

fun report_loop :: "int \<Rightarrow> int \<Rightarrow> int \<Rightarrow> string \<Rightarrow> int \<Rightarrow> string list \<Rightarrow> server \<Rightarrow> report list outcome" where
  "report_loop from until rows st i [] s = Ok []"
| "report_loop from until rows st i (r # rs) s =
     (case report_Get r s of
        Panic \<Rightarrow> Panic
      | Err _ \<Rightarrow> if rows < i then Ok [] else report_loop from until rows st i rs s
      | Ok rp \<Rightarrow>
          (if report_matches from until st rp then
             outcome_bind (if rows < i + 1 then Ok [] else report_loop from until rows st (i + 1) rs s)
               (\<lambda>l. Ok (rp # l))
           else if rows < i then Ok [] else report_loop from until rows st i rs s))"

definition GetReportList :: "int \<Rightarrow> int \<Rightarrow> int \<Rightarrow> string \<Rightarrow> server \<Rightarrow> report list outcome" where
  "GetReportList from until rows st s = report_loop from until rows st 0 (report_GetList s) s"

definition GetNodeList :: "string \<Rightarrow> int \<Rightarrow> int \<Rightarrow> int \<Rightarrow> string \<Rightarrow> server \<Rightarrow> report list outcome" where
  "GetNodeList nodeName from until rows st s =
     outcome_bind (GetReportList from until rows st s) (\<lambda>reports.
       Ok (filter (\<lambda>r. nodeName = rp_NodeName r \<and> (st = [] \<or> st \<noteq> [] \<and> rp_Status r = st)) reports))"

subsection \<open>reports.go\<close>

definition report_fields :: "world \<Rightarrow> report \<Rightarrow> gobj" where
  "report_fields wd r =
     (let t = w_format wd ''2006-01-02T15:04:05.999999999Z07:00''
      in [(''run_id'', GStr (rp_RunID r)), (''start_time'', GStr (t (rp_StartTime r))), (''end_time'', GStr (t (rp_EndTime r))),
          (''total_res_count'', GNum (string_of_int (rp_TotalResCount r))), (''status'', GStr (rp_Status r)),
          (''run_list'', GStr (rp_RunList r)),
          (''resources'', (case rp_Resources r of None \<Rightarrow> GNil | Some l \<Rightarrow> GArr l)),
          (''data'', (case rp_Data r of None \<Rightarrow> GNil | Some d \<Rightarrow> GMap d)), (''node_name'', GStr (rp_NodeName r))])"

definition formatRunShow :: "world \<Rightarrow> report \<Rightarrow> gobj" where
  "formatRunShow wd run =
     (let reportMap = MapifyObject (report_fields wd run) []
      in [(''run_detail'', GMap (adel ''resources'' reportMap)), (''resources'', gget reportMap ''resources'')])"

text \<open>A nil slice of reports is encoded as \<open>null\<close>.\<close>

definition run_history :: "world \<Rightarrow> report list \<Rightarrow> gobj" where
  "run_history wd runs =
     [(''run_history'', if runs = [] then GNil else GArr (map (\<lambda>r. GMap (report_fields wd r)) runs))]"

definition protocolVersion :: "request \<Rightarrow> string outcome" where
  "protocolVersion r =
     (let v = header_Get r ''X-Ops-Reporting-Protocol-Version''
      in if v = [] then
           (case r_QueryError r of
              Some e \<Rightarrow> Errorf (msg e)
            | None \<Rightarrow> Ok (case map_of (r_Form r) ''protocol-version'' of Some (p # _) \<Rightarrow> p | _ \<Rightarrow> []))
         else Ok v)"

definition form_seconds :: "request \<Rightarrow> string \<Rightarrow> int \<Rightarrow> int outcome" where
  "form_seconds r k dflt =
     (case map_of (r_Form r) k of
        None \<Rightarrow> Ok dflt
      | Some [] \<Rightarrow> Panic
      | Some (v # _) \<Rightarrow>
          (case ParseInt10 v of
             (sec, None) \<Rightarrow> Ok (sec * 10 ^ 9)
           | (_, Some e) \<Rightarrow> Errorf (parse_int_error v e)))"

definition form_rows :: "request \<Rightarrow> int outcome" where
  "form_rows r =
     (case map_of (r_Form r) ''rows'' of
        None \<Rightarrow> Ok 10
      | Some [] \<Rightarrow> Panic
      | Some (v # _) \<Rightarrow>
          (case Atoi v of
             (i, None) \<Rightarrow> Ok i
           | (_, Some e) \<Rightarrow> Errorf (''strconv.Atoi: parsing '' @ [CHR 0x22] @ v @ [CHR 0x22] @ '': '' @ num_error_text e)))"

definition form_status :: "request \<Rightarrow> string outcome" where
  "form_status r =
     (case map_of (r_Form r) ''status'' of
        None \<Rightarrow> Ok []
      | Some [] \<Rightarrow> Panic
      | Some (st # _) \<Rightarrow>
          (if st \<noteq> ''started'' \<and> st \<noteq> ''success'' \<and> st \<noteq> ''failure'' then Errorf ''invalid status given'' else Ok st))"

definition hour :: int where "hour = 60 * minute"
definition max_range :: int where "max_range = 24 * 90 * hour"

definition Truncate :: "int \<Rightarrow> int \<Rightarrow> int" where
  "Truncate t d = t - t mod d"

text \<open>The check of the range subtracts the end from the start.\<close>

definition range_too_long :: "int \<Rightarrow> int \<Rightarrow> bool" where
  "range_too_long from until \<longleftrightarrow> max_range \<le> time_Sub (Truncate from hour) (Truncate until hour)"

definition report_get :: "world \<Rightarrow> string list \<Rightarrow> int \<Rightarrow> int \<Rightarrow> int \<Rightarrow> string \<Rightarrow> server \<Rightarrow> reply \<times> server" where
  "report_get wd pathArray from until rows st s =
     (let n = length pathArray
      in if n < 3 \<or> 4 < n then reply_error ''Bad request'' StatusBadRequest new_response s
         else if pathArray ! 1 = ''nodes'' \<and> n = 4 then
           attempt (GetNodeList (pathArray ! 2) from until rows st s) s
             (\<lambda>e. reply_error (msg e) StatusInternalServerError new_response s)
             (\<lambda>runs. reply_json (GMap (run_history wd runs)) new_response s)
         else if pathArray ! 1 = ''org'' then
           (if n = 4 then
              attempt (report_Get (pathArray ! 3) s) s (\<lambda>e. reply_error (msg e) (status e) new_response s)
                (\<lambda>run. reply_json (GMap (formatRunShow wd run)) new_response s)
            else
              attempt (GetReportList from until rows st s) s
                (\<lambda>e. reply_error (msg e) StatusInternalServerError new_response s)
                (\<lambda>runs. reply_json (GMap (run_history wd runs)) new_response s))
         else reply_error ''Bad request'' StatusBadRequest new_response s)"

definition report_query :: "conf \<Rightarrow> world \<Rightarrow> request \<Rightarrow> actor \<Rightarrow> string list \<Rightarrow> server \<Rightarrow> reply \<times> server" where
  "report_query cfg wd r opUser pathArray s =
     attempt (form_rows r) s (\<lambda>e. reply_error (msg e) StatusBadRequest new_response s) (\<lambda>rows.
     attempt (form_seconds r ''from'' (w_now wd - max_range)) s (\<lambda>e. reply_error (msg e) StatusBadRequest new_response s) (\<lambda>from.
     attempt (form_seconds r ''until'' (w_now wd)) s (\<lambda>e. reply_error (msg e) StatusBadRequest new_response s) (\<lambda>until.
     attempt (form_status r) s (\<lambda>e. reply_error (msg e) StatusBadRequest new_response s) (\<lambda>st.
       if range_too_long from until then
         reply_error (''End time '' @ w_format wd ''2006-01-02 15:04:05.999999999 -0700 MST'' until @
             '' is too far ahead of start time '' @ w_format wd ''2006-01-02 15:04:05.999999999 -0700 MST'' from @
             '' (max 90 days)'') StatusNotAcceptable new_response s
       else if \<not> IsAdmin cfg opUser then
         reply_error ''You are not allowed to perform this action'' StatusForbidden new_response s
       else report_get wd pathArray from until rows st s))))"

definition report_post :: "world \<Rightarrow> request \<Rightarrow> string list \<Rightarrow> server \<Rightarrow> reply \<times> server" where
  "report_post wd r pathArray s =
     attempt (r_JSON r) s (\<lambda>jerr. reply_error (msg jerr) StatusBadRequest new_response s) (\<lambda>body.
       let jsonReport = reads body; n = length pathArray
       in if n < 4 \<or> 5 < n then reply_error ''Bad request'' StatusBadRequest new_response s
          else if n = 4 then
            attempt (report_NewFromJSON wd (pathArray ! 2) jsonReport s) s
              (\<lambda>e. reply_error (msg e) (status e) new_response s)
              (\<lambda>rep. reply_json (GMap [(''run_detail'', GMap (report_fields wd rep))]) new_response (report_Save rep s))
          else
            attempt (outcome_bind (report_Get (pathArray ! 4) s) (report_UpdateFromJSON wd jsonReport)) s
              (\<lambda>e. reply_error (msg e) (status e) new_response s)
              (\<lambda>rep. reply_json (GMap [(''run_detail'', GMap (report_fields wd rep))]) new_response (report_Save rep s)))"

definition reportHandler :: "conf \<Rightarrow> world \<Rightarrow> request \<Rightarrow> server \<Rightarrow> reply \<times> server" where
  "reportHandler cfg wd r s =
     attempt (protocolVersion r) s (\<lambda>e. reply_error (msg e) StatusBadRequest new_response s) (\<lambda>pv.
       if pv \<noteq> ''0.1.0'' then reply_error ''Unsupported reporting protocol version'' StatusNotFound new_response s
       else
         with_opUser r s (\<lambda>opUser.
           let pathArray = splitPath (r_Path r)
           in case r_Method r of
                MethodHead \<Rightarrow> (Reply (headDefaultResponse new_response), s)
              | MethodGet \<Rightarrow> report_query cfg wd r opUser pathArray s
              | MethodPost \<Rightarrow> report_post wd r pathArray s
              | _ \<Rightarrow> reply_error ''Bad request'' StatusBadRequest new_response s))"


subsection \<open>Reports as named objects\<close>

fun unwrap_report :: "dsval \<Rightarrow> report outcome" where
  "unwrap_report (VReport r) = Ok r"
| "unwrap_report _ = Panic"

definition stored_report :: "report \<Rightarrow> bool" where
  "stored_report r \<longleftrightarrow> gob_report r = r"

definition reports_ok :: "server \<Rightarrow> bool" where
  "reports_ok = typed_in (srv_Get ''report'') (\<lambda>s. ds_ok (srv_ds s)) VReport rp_RunID stored_report"

interpretation report_objects: typed_store "srv_Get ''report''" "srv_Set ''report''" "srv_Delete ''report''"
  "srv_GetList ''report''" gob_codec "\<lambda>s. ds_ok (srv_ds s)" VReport rp_RunID stored_report unwrap_report
  "\<lambda>k. SetStatus StatusNotFound (gerror_New (''Report '' @ k @ '' not found''))" report_Get
  by (intro typed_store.intro srv_object_store typed_store_axioms.intro)
    (auto simp: report_Get_def stored_report_def split: option.split dsval.split)

lemma report_Save_gob: "report_Save r s = report_Save (gob_report r) s"
  by (simp add: report_Save_def srv_Set_def ds_Set_def) (simp add: gob_report_def)

lemma stored_gob [simp]: "stored_report (gob_report r)" "rp_RunID (gob_report r) = rp_RunID r"
  by (simp_all add: stored_report_def gob_report_def)

lemma report_Get_Save: "report_Get k (report_Save r s) = (if k = rp_RunID r then Ok (gob_report r) else report_Get k s)"
  using report_objects.fetch_put [of "gob_report r" k s] by (subst report_Save_gob) (simp add: report_Save_def)

lemma reports_ok_Save: "reports_ok s \<Longrightarrow> reports_ok (report_Save r s)"
  using report_objects.typed_put [of s "gob_report r"] by (subst report_Save_gob) (simp add: reports_ok_def report_Save_def)

lemma reports_ok_new_server: "reports_ok new_server"
  by (simp add: reports_ok_def typed_in_def new_server_def ds_Get_def initDataStore_def [symmetric])
    (simp add: initDataStore_def)

subsection \<open>Purging\<close>

text \<open>Purging reports by age removes exactly those that ended at or before the cutoff, keeps
  all others and returns how many it removed. A run that has not ended counts as ended at the
  zero time, so that it is removed as well.\<close>

theorem purge_reports:
  assumes "reports_ok s"
  shows "\<exists>k s'. DeleteByAge now dur s = (Ok k, s') \<and> reports_ok s' \<and>
    (\<forall>i r. report_Get i s' = Ok r \<longleftrightarrow> report_Get i s = Ok r \<and> now - dur < rp_EndTime r) \<and>
    k = card {i. \<exists>r. report_Get i s = Ok r \<and> rp_EndTime r \<le> now - dur} \<and>
    (\<forall>i r. report_Get i s = Ok r \<and> rp_EndTime r = zero_time \<and> zero_time \<le> now - dur \<longrightarrow> \<not> is_ok (report_Get i s'))"
proof -
  let ?Q = "\<lambda>r. now - dur < rp_EndTime r" and ?del = "fold (\<lambda>r. srv_Delete ''report'' (rp_RunID r))"
  note ok = assms [unfolded reports_ok_def]
  obtain rs where rs: "AllReports s = Ok rs"
    using report_objects.all_objects [OF ok] unfolding AllReports_def report_GetList_def by blast
  define ss where "ss = sort_by (\<lambda>a b. rp_EndTime a < rp_EndTime b) rs"
  have ss: "sort_by report_before rs = ss" unfolding ss_def by (rule arg_cong2 [of _ _ _ _ sort_by]) (auto simp: report_before_def fun_eq_iff)
  have del: "report_Delete = (\<lambda>r. srv_Delete ''report'' (rp_RunID r))" by (simp add: report_Delete_def fun_eq_iff)
  note pp = purged_prefix [of rp_EndTime ?Q, OF _ ss_def]
  have P: "DeleteByAge now dur s = (Ok (length (filter (\<lambda>r. \<not> ?Q r) ss)), ?del (filter (\<lambda>r. \<not> ?Q r) ss) s)"
  proof (cases "rs = [] \<or> now - dur < rp_EndTime (hd ss)")
    case True
    then have "filter (\<lambda>r. \<not> ?Q r) ss = []" using pp(3) by (cases "rs = []") (auto simp: ss_def sort_by_def)
    with True rs ss show ?thesis by (auto simp: DeleteByAge_def Let_def)
  next
    case False
    then show ?thesis using rs pp(1,2) by (simp add: DeleteByAge_def Let_def ss del)
  qed
  have m: "mset (filter (\<lambda>r. \<not> ?Q r) ss) = mset (filter (\<lambda>r. \<not> ?Q r) rs)" by (rule pp(4)) simp
  note D = report_objects.delete_those [OF ok rs [unfolded AllReports_def report_GetList_def] m]
  have G: "report_Get i (?del (filter (\<lambda>r. \<not> ?Q r) ss) s) = Ok r \<longleftrightarrow> report_Get i s = Ok r \<and> ?Q r" for i r using D(1) by simp
  have "\<not> is_ok (report_Get i (?del (filter (\<lambda>r. \<not> ?Q r) ss) s))"
    if "report_Get i s = Ok r" "rp_EndTime r = zero_time" "zero_time \<le> now - dur" for i r
    unfolding is_ok_iff G using that by simp
  with P G D(2) show ?thesis
    by (intro exI [of _ "length (filter (\<lambda>r. \<not> ?Q r) ss)"] exI [of _ "?del (filter (\<lambda>r. \<not> ?Q r) ss) s"])
      (auto simp: reports_ok_def not_less report_objects.delete_all [OF ok])
qed


definition example_run :: string where "example_run = ''c3cb9d2a-6d0d-4b3c-9b3e-0c1f3f1d2e4a''"

definition example_report :: "string \<Rightarrow> string \<Rightarrow> int \<Rightarrow> int \<Rightarrow> report" where
  "example_report i n t t' = \<lparr>rp_RunID = i, rp_StartTime = t, rp_EndTime = t', rp_TotalResCount = 0, rp_Status = ''started'',
     rp_RunList = [], rp_Resources = None, rp_Data = None, rp_NodeName = n\<rparr>"

lemma gob_example_report [simp]: "gob_report (example_report i n t t') = example_report i n t t'"
  by (simp add: gob_report_def example_report_def)

theorem purge_reports_witness:
  "\<exists>k s'. DeleteByAge 100 50 (report_Save (example_report ''a'' ''n'' 10 60) (report_Save (example_report ''b'' ''n'' 90 zero_time) new_server)) = (Ok k, s') \<and>
     report_Get ''a'' s' = Ok (example_report ''a'' ''n'' 10 60) \<and> \<not> is_ok (report_Get ''b'' s')"
proof -
  let ?s = "report_Save (example_report ''a'' ''n'' 10 60) (report_Save (example_report ''b'' ''n'' 90 zero_time) new_server)"
  have ok: "reports_ok ?s" by (intro reports_ok_Save reports_ok_new_server)
  have g: "report_Get ''a'' ?s = Ok (example_report ''a'' ''n'' 10 60)" "report_Get ''b'' ?s = Ok (example_report ''b'' ''n'' 90 zero_time)"
    by (simp_all add: report_Get_Save) (simp_all add: example_report_def)
  have e: "rp_EndTime (example_report ''b'' ''n'' 90 zero_time) = zero_time" "zero_time \<le> 100 - 50"
    "100 - 50 < rp_EndTime (example_report ''a'' ''n'' 10 60)" by (simp_all add: example_report_def zero_time_def)
  obtain k s' where "DeleteByAge 100 50 ?s = (Ok k, s')" "report_Get ''a'' s' = Ok (example_report ''a'' ''n'' 10 60)"
      "\<not> is_ok (report_Get ''b'' s')"
    using purge_reports [OF ok, of 100 50] g e by blast
  then show ?thesis by blast
qed

subsection \<open>Listing\<close>

lemma report_loop_eq:
  assumes "map (\<lambda>k. report_Get k s) ks = map Ok rs" "i \<le> rows"
  shows "report_loop from until rows st i ks s = Ok (take (nat (rows - i + 1)) (filter (report_matches from until st) rs))"
  using assms
proof (induction ks arbitrary: i rs)
  case (Cons k ks)
  then obtain r rs' where rs: "rs = r # rs'" "report_Get k s = Ok r" "map (\<lambda>k. report_Get k s) ks = map Ok rs'" by auto
  have n: "nat (rows - i + 1) = Suc (nat (rows - i))" using Cons.prems(2) by simp
  show ?case
  proof (cases "report_matches from until st r")
    case True
    show ?thesis
    proof (cases "rows < i + 1")
      case True
      then have "nat (rows - i) = 0" by simp
      with True rs \<open>report_matches from until st r\<close> n show ?thesis by simp
    next
      case False
      then have "report_loop from until rows st (i + 1) ks s = Ok (take (nat (rows - i)) (filter (report_matches from until st) rs'))"
        using Cons.IH [OF rs(3), of "i + 1"] by simp
      with False True rs n show ?thesis by simp
    qed
  next
    case False
    with Cons.IH [OF rs(3) Cons.prems(2)] rs Cons.prems(2) show ?thesis by simp
  qed
qed simp

text \<open>\<^bold>\<open>C29\<close>. A list of reports has the first \<open>rows + 1\<close> reports that match the times and the status, in
  the order of their ids; the list for a node is what of these belongs to the node, so that a
  node's reports are missing when reports of other nodes come first. A query is never refused for
  a range that is too long, because only a start of 90 days after the end is.\<close>

theorem report_listing:
  assumes "reports_ok s" "0 \<le> rows"
  shows "(\<exists>all. AllReports s = Ok all \<and>
      GetReportList from until rows st s = Ok (take (nat rows + 1) (filter (report_matches from until st) all)) \<and>
      GetNodeList n from until rows st s =
        Ok (filter (\<lambda>r. rp_NodeName r = n) (take (nat rows + 1) (filter (report_matches from until st) all)))) \<and>
    (from \<le> until \<longrightarrow> \<not> range_too_long from until)"
proof
  obtain all where all: "map (\<lambda>k. report_Get k s) (report_GetList s) = map Ok all"
    using report_objects.fetch_all [OF assms(1) [unfolded reports_ok_def]] unfolding report_GetList_def by blast
  let ?l = "take (nat rows + 1) (filter (report_matches from until st) all)"
  have A: "AllReports s = Ok all" unfolding AllReports_def by (rule get_multi_Ok [OF all])
  have n: "nat (rows - 0 + 1) = nat rows + 1" using assms(2) by simp
  have L: "GetReportList from until rows st s = Ok ?l"
    using report_loop_eq [OF all, of 0 rows "from" until st] assms(2) unfolding GetReportList_def n by simp
  have "filter (\<lambda>r. n = rp_NodeName r \<and> (st = [] \<or> st \<noteq> [] \<and> rp_Status r = st)) ?l = filter (\<lambda>r. rp_NodeName r = n) ?l"
    by (rule filter_cong) (auto simp: report_matches_def dest!: in_set_takeD)
  with A L show "\<exists>all. AllReports s = Ok all \<and>
      GetReportList from until rows st s = Ok (take (nat rows + 1) (filter (report_matches from until st) all)) \<and>
      GetNodeList n from until rows st s =
        Ok (filter (\<lambda>r. rp_NodeName r = n) (take (nat rows + 1) (filter (report_matches from until st) all)))"
    by (auto simp: GetNodeList_def)
  show "from \<le> until \<longrightarrow> \<not> range_too_long from until"
  proof
    assume le: "from \<le> until"
    have tr: "Truncate t hour = hour * (t div hour)" for t
      unfolding Truncate_def by (metis minus_mod_eq_mult_div)
    have "0 < hour" by (simp add: hour_def minute_def)
    then have "Truncate from hour \<le> Truncate until hour" using le by (simp add: tr zdiv_mono1)
    moreover have "0 < max_range" by (simp add: max_range_def hour_def minute_def)
    ultimately show "\<not> range_too_long from until"
      by (auto simp: range_too_long_def time_Sub_def min_duration_def max_duration_def)
  qed
qed


definition example_reports :: server where
  "example_reports = report_Save (example_report ''b'' ''web'' 5 6) (report_Save (example_report ''a'' ''db'' 5 6) new_server)"

lemma example_reports:
  "reports_ok example_reports" "report_GetList example_reports = [''a'', ''b'']"
  "report_Get ''a'' example_reports = Ok (example_report ''a'' ''db'' 5 6)"
  "report_Get ''b'' example_reports = Ok (example_report ''b'' ''web'' 5 6)"
proof -
  show ok: "reports_ok example_reports" unfolding example_reports_def by (intro reports_ok_Save reports_ok_new_server)
  have "k \<in> dom (srv_Get ''report'' example_reports) \<longleftrightarrow> k = ''a'' \<or> k = ''b''" for k
    by (auto simp: example_reports_def report_Save_def example_report_def ds_Get_Set new_server_def ds_Get_def initDataStore_def
        split: if_splits)
  then have "dom (srv_Get ''report'' example_reports) = {''a'', ''b''}" by blast
  then show "report_GetList example_reports = [''a'', ''b'']"
    using report_objects.names_eq [of example_reports] ok by (simp add: report_GetList_def reports_ok_def typed_in_def)
  show "report_Get ''a'' example_reports = Ok (example_report ''a'' ''db'' 5 6)"
    "report_Get ''b'' example_reports = Ok (example_report ''b'' ''web'' 5 6)"
    unfolding example_reports_def by (simp_all add: report_Get_Save) (simp_all add: example_report_def)
qed

theorem report_listing_witness:
  "AllReports example_reports = Ok [example_report ''a'' ''db'' 5 6, example_report ''b'' ''web'' 5 6] \<and>
   GetReportList 0 9 0 [] example_reports = Ok [example_report ''a'' ''db'' 5 6] \<and>
   GetNodeList ''web'' 0 9 0 [] example_reports = Ok []"
proof -
  have all: "AllReports example_reports = Ok [example_report ''a'' ''db'' 5 6, example_report ''b'' ''web'' 5 6]"
    by (simp add: AllReports_def example_reports)
  have "report_matches 0 9 [] (example_report i n 5 6)" for i n
    by (simp add: report_matches_def report_checkTimeRange_def example_report_def)
  then show ?thesis
    using report_listing [OF example_reports(1), of 0 0 9 "[]" "''web''"] all by (auto simp: example_report_def)
qed

subsection \<open>The end of a run\<close>

lemma report_body_Ok:
  assumes "report_body d = Ok (rl, res, da)"
  shows "gget d ''run_list'' = GStr rl \<and> gget d ''resources'' = GArr res \<and> gget d ''data'' = GMap da"
proof -
  obtain rl' where 1: "gget d ''run_list'' = GStr rl'" using assms by (cases "gget d ''run_list''") (simp_all add: report_body_def)
  obtain res' where 2: "gget d ''resources'' = GArr res'" using assms 1 by (cases "gget d ''resources''") (simp_all add: report_body_def)
  obtain da' where 3: "gget d ''data'' = GMap da'" using assms 1 2 by (cases "gget d ''data''") (simp_all add: report_body_def)
  show ?thesis using assms by (simp add: report_body_def 1 2 3)
qed

text \<open>When the end of a run is reported and accepted, the stored report has the end time, the
  number of resources, the status, the resources and the data of the request, but not its run list:
  that is lost, whatever the request says. The id, node and start are kept, and so is every other
  report.\<close>

theorem end_of_run_stored:
  assumes "report_Get i s = Ok r" "reports_ok s" "report_UpdateFromJSON wd d r = Ok r'"
  shows "\<exists>q. report_Get i (report_Save r' s) = Ok q \<and>
      end_time wd d = Ok (rp_EndTime q) \<and> total_res_count (gget d ''total_res_count'') = Ok (rp_TotalResCount q) \<and>
      gget d ''status'' = GStr (rp_Status q) \<and> rp_Status q \<in> {''success'', ''failure'', ''started''} \<and>
      gget d ''resources'' = GArr (case rp_Resources q of None \<Rightarrow> [] | Some l \<Rightarrow> l) \<and>
      rp_RunList q = [] \<and> gget d ''run_list'' = GStr (rp_RunList r') \<and>
      rp_RunID q = i \<and> rp_NodeName q = rp_NodeName r \<and> rp_StartTime q = rp_StartTime r \<and>
      (\<forall>j. j \<noteq> i \<longrightarrow> report_Get j (report_Save r' s) = report_Get j s)"
proof -
  have i: "rp_RunID r = i" using report_objects.fetch_Ok [OF assms(2) [unfolded reports_ok_def] assms(1)] by simp
  obtain t c st rl res da where d: "end_time wd d = Ok t" "total_res_count (gget d ''total_res_count'') = Ok c"
      "report_status (gget d ''status'') = Ok st" "gget d ''run_list'' = GStr rl" "gget d ''resources'' = GArr res"
      "gget d ''data'' = GMap da"
    and r': "r' = r\<lparr>rp_EndTime := t, rp_TotalResCount := c, rp_Status := st, rp_RunList := rl, rp_Resources := Some res, rp_Data := Some da\<rparr>"
    using assms(3) by (auto simp: report_UpdateFromJSON_def outcome_bind_Ok_iff dest!: report_body_Ok)
  have "gget d ''status'' = GStr st" "st \<in> {''success'', ''failure'', ''started''}"
    using d(3) by (auto simp: report_status_def split: gval.splits if_splits)
  with d i show ?thesis
    by (intro exI [of _ "gob_report r'"]) (auto simp: report_Get_Save r' gob_report_def)
qed

definition example_end :: gobj where
  "example_end = [(''action'', GStr ''end''), (''end_time'', GStr ''2014-05-10 01:05:42 +0000''), (''total_res_count'', GNum ''7''),
     (''status'', GStr ''success''), (''run_list'', GStr ''[recipe[nginx]]''), (''resources'', GArr []), (''data'', GMap [])]"

theorem end_of_run_stored_witness:
  "\<exists>r' q. report_UpdateFromJSON example_world example_end (example_report ''a'' ''db'' 5 6) = Ok r' \<and>
     rp_RunList r' = ''[recipe[nginx]]'' \<and>
     report_Get ''a'' (report_Save r' example_reports) = Ok q \<and> rp_RunList q = []"
proof -
  have "total_res_count (GNum ''7'') = Ok 7"
    by (simp add: total_res_count_def ParseInt10_def clamp_int_def is_digit_of_char digit_val_def)
  then obtain r' where u: "report_UpdateFromJSON example_world example_end (example_report ''a'' ''db'' 5 6) = Ok r'"
    "rp_RunList r' = ''[recipe[nginx]]''"
    by (simp add: report_UpdateFromJSON_def example_end_def gget_def end_action_def end_time_def report_status_def
        report_body_def example_world_def)
  then show ?thesis using end_of_run_stored [OF example_reports(3,1) u(1)] by blast
qed

end
