(* ===== verification/SearchHandlers.thy ===== *)
theory SearchHandlers
  imports QueryMeaning Reports
begin

text \<open>
  The rest of \<^verbatim>\<open>search/search.go\<close> (the objects that belong to the documents found, partial search,
  sorting and paging) and the handlers of \<^verbatim>\<open>search.go\<close>.

  Partial search merges attributes in a copy. The code merges them into the maps of the object
  that was found, which makes a difference only if one request asks for overlapping paths.

  A rebuild of the index is a goroutine; \<open>reindexAll\<close> is one step that clears the index and starts
  the goroutines that save the objects.
\<close>

subsection \<open>Objects that were found\<close>

datatype found_obj = FNode node | FRole role | FClient client | FEnv chef_environment | FItem databag_item

definition or_empty :: "'a list outcome \<Rightarrow> 'a list outcome" where
  "or_empty r = (case r of Err _ \<Rightarrow> Ok [] | x \<Rightarrow> x)"

definition getResults :: "string \<Rightarrow> string list \<Rightarrow> server \<Rightarrow> found_obj list outcome" where
  "getResults variety toGet s =
     (if toGet = [] then Ok []
      else if variety = ''node'' then outcome_bind (or_empty (node_GetMulti toGet s)) (\<lambda>ns. Ok (map FNode ns))
      else if variety = ''role'' then outcome_bind (or_empty (role_GetMulti toGet s)) (\<lambda>rs. Ok (map FRole rs))
      else if variety = ''client'' then outcome_bind (or_empty (client_GetMulti toGet s)) (\<lambda>cs. Ok (map FClient cs))
      else if variety = ''environment'' then outcome_bind (or_empty (env_GetMulti toGet s)) (\<lambda>es. Ok (map FEnv es))
      else
        (case databag_Get variety s of
           Ok dbag \<Rightarrow> Ok (map FItem (GetMultiDBItems toGet dbag))
         | Err _ \<Rightarrow> Ok []
         | Panic \<Rightarrow> Panic))"

definition item_fields :: "databag_item \<Rightarrow> gobj" where
  "item_fields i =
     [(''name'', GStr (di_Name i)), (''chef_type'', GStr (di_ChefType i)), (''json_class'', GStr (di_JSONClass i)),
      (''data_bag'', GStr (di_DataBagName i)), (''raw_data'', GMap (di_RawData i))]"

fun found_row :: "found_obj \<Rightarrow> gobj" where
  "found_row (FClient c) =
     [(''name'', GStr (cl_Name c)), (''chef_type'', GStr (cl_ChefType c)), (''json_class'', GStr (cl_JSONClass c)),
      (''admin'', GBool (cl_Admin c)), (''public_key'', GStr (cl_pubKey c)), (''validator'', GBool (cl_Validator c))]"
| "found_row (FNode n) = MapifyObject (node_fields n) []"
| "found_row (FRole r) = MapifyObject (role_fields r) []"
| "found_row (FEnv e) = MapifyObject (env_fields e) []"
| "found_row (FItem i) = MapifyObject (item_fields i) []"

subsection \<open>Partial search\<close>

fun string_keys :: "world \<Rightarrow> string \<Rightarrow> gval list \<Rightarrow> string list outcome" where
  "string_keys wd k [] = Ok []"
| "string_keys wd k (j # v) =
     (case j of
        GStr t \<Rightarrow> outcome_bind (string_keys wd k v) (\<lambda>ts. Ok (t # ts))
      | _ \<Rightarrow> Errorf (''Partial search key '' @ k @ '' badly formatted: '' @ type_name j @ '' '' @ w_fmt_v wd j))"

definition partial_path :: "world \<Rightarrow> string \<Rightarrow> gval \<Rightarrow> string list outcome" where
  "partial_path wd k v =
     (case v of
        GArr js \<Rightarrow> string_keys wd k js
      | GStrs js \<Rightarrow> Ok js
      | _ \<Rightarrow> Errorf (''Partial search key '' @ k @ '' badly formatted: '' @ type_name v @ '' '' @ w_fmt_v wd v))"

fun psearchKeys :: "world \<Rightarrow> gobj \<Rightarrow> (string \<times> string list) list outcome" where
  "psearchKeys wd [] = Ok []"
| "psearchKeys wd ((k, v) # m) =
     outcome_bind (partial_path wd k v) (\<lambda>p. outcome_bind (psearchKeys wd m) (\<lambda>ps. Ok ((k, p) # ps)))"

text \<open>No caller gives an empty path. A missing key of a map of strings reads as the empty string.\<close>

fun walk :: "gval \<Rightarrow> string list \<Rightarrow> gval" where
  "walk v [] = GNil"
| "walk v (k # ks) =
     (case v of
        GMap m \<Rightarrow> if ghas m k then (if ks \<noteq> [] then walk (gget m k) ks else gget m k) else GNil
      | GStrMap m \<Rightarrow> GStr (case map_of m k of None \<Rightarrow> [] | Some t \<Rightarrow> t)
      | GStrsMap m \<Rightarrow> GStrs (case map_of m k of None \<Rightarrow> [] | Some ts \<Rightarrow> ts)
      | _ \<Rightarrow> if ks = [] then v else GNil)"

definition merge_value :: "gval \<Rightarrow> gval \<Rightarrow> gval" where
  "merge_value tval pval =
     (if tval = GNil then pval
      else
        (case pval of
           GMap pv \<Rightarrow> (case tval of GMap tv \<Rightarrow> GMap (fold (\<lambda>(g, h). aput g h) tv pv) | _ \<Rightarrow> pval)
         | _ \<Rightarrow> tval))"

definition keyRange :: "string list" where
  "keyRange = [''raw_data'', ''default'', ''default_attributes'', ''normal'', ''override'', ''override_attributes'', ''automatic'']"

definition partial_value :: "gobj \<Rightarrow> string list \<Rightarrow> gval" where
  "partial_value j vals =
     (case vals of
        [] \<Rightarrow> GNil
      | v # vs \<Rightarrow>
          (if ghas j v then (if vs \<noteq> [] then walk (gget j v) vs else gget j v)
           else fold (\<lambda>r. merge_value (walk (gget j r) vals)) keyRange GNil))"

definition partialSearchFormat :: "world \<Rightarrow> gobj list \<Rightarrow> gobj \<Rightarrow> gobj list outcome" where
  "partialSearchFormat wd results partialFormat =
     outcome_bind (psearchKeys wd partialFormat) (\<lambda>ps.
       Ok (map (\<lambda>j. map (\<lambda>(k, vals). (k, partial_value j vals)) ps) results))"

fun found_url :: "world \<Rightarrow> found_obj \<Rightarrow> string outcome" where
  "found_url wd (FItem i) =
     (case gget (di_RawData i) ''id'' of
        GStr did \<Rightarrow> Ok (CustomURL wd (''/data/'' @ di_DataBagName i @ ''/'' @ did))
      | _ \<Rightarrow> Panic)"
| "found_url wd (FNode n) = Ok (ObjURL wd ''nodes'' (nd_Name n))"
| "found_url wd (FRole r) = Ok (ObjURL wd ''roles'' (ro_Name r))"
| "found_url wd (FEnv e) = Ok (ObjURL wd ''environments'' (en_Name e))"
| "found_url wd (FClient c) = Ok (ObjURL wd ''clients'' (cl_Name c))"

fun partial_rows :: "world \<Rightarrow> gobj list \<Rightarrow> found_obj list \<Rightarrow> gobj list outcome" where
  "partial_rows wd (z # zs) (ob # obs) =
     outcome_bind (found_url wd ob) (\<lambda>u.
     outcome_bind (partial_rows wd zs obs) (\<lambda>rs. Ok ([(''url'', GStr u), (''data'', GMap z)] # rs)))"
| "partial_rows wd _ _ = Ok []"

definition formatPartials :: "world \<Rightarrow> gobj list \<Rightarrow> found_obj list \<Rightarrow> gobj \<Rightarrow> gobj list outcome" where
  "formatPartials wd results objs partialData =
     outcome_bind (partialSearchFormat wd results partialData) (\<lambda>rs. partial_rows wd rs objs)"

subsection \<open>Search\<close>

definition results_Less :: "string \<Rightarrow> gobj \<Rightarrow> gobj \<Rightarrow> bool" where
  "results_Less sortKey a b =
     (let ibase = gget a sortKey; jbase = gget b sortKey
      in if jbase = GNil then True
         else if ibase = GNil then False
         else (case (ibase, jbase) of (GStr x, GStr y) \<Rightarrow> x < y | _ \<Rightarrow> False))"

definition sort_key_of :: "string \<Rightarrow> string" where
  "sort_key_of sortOrder = (let k = hd (split_on CHR '' '' sortOrder) in if k = ''id'' then ''name'' else k)"

definition sort_desc :: "string \<Rightarrow> bool" where
  "sort_desc sortOrder \<longleftrightarrow> (case split_on CHR '' '' sortOrder of _ # d # _ \<Rightarrow> map to_lower_ascii d = ''desc'' | _ \<Rightarrow> False)"

definition sort_results :: "searchlib \<Rightarrow> string \<Rightarrow> gobj list \<Rightarrow> gobj list" where
  "sort_results sl sortOrder res =
     (let less = results_Less (sort_key_of sortOrder)
      in sl_Sort sl (if sort_desc sortOrder then (\<lambda>a b. less b a) else less) res)"

text \<open>\<open>res[start:end]\<close> panics unless the bounds are in order.\<close>

definition search_page :: "int \<Rightarrow> int \<Rightarrow> 'a list \<Rightarrow> 'a list outcome" where
  "search_page start rows res =
     (let end0 = int64_add start rows;
          end = (if int (length res) < end0 then int (length res) else end0)
      in if start < 0 \<or> end < start then Panic else Ok (take (nat (end - start)) (drop (nat start) res)))"

definition format_results ::
  "world \<Rightarrow> searchlib \<Rightarrow> int \<Rightarrow> string \<Rightarrow> int \<Rightarrow> gobj option \<Rightarrow> found_obj list \<Rightarrow> gobj list outcome" where
  "format_results wd sl rows sortOrder start partialData objs =
     (let res = map found_row objs
      in outcome_bind (case partialData of None \<Rightarrow> Ok res | Some pd \<Rightarrow> formatPartials wd res objs pd) (\<lambda>res1.
         search_page start rows (sort_results sl sortOrder res1)))"

text \<open>\<open>None\<close>: the search never returns, and keeps the mutex.\<close>

definition TrieSearch_Search ::
  "conf \<Rightarrow> world \<Rightarrow> searchlib \<Rightarrow> string \<Rightarrow> string \<Rightarrow> int \<Rightarrow> string \<Rightarrow> int \<Rightarrow> gobj option \<Rightarrow> server \<Rightarrow> gobj list outcome option" where
  "TrieSearch_Search cfg wd sl idx query rows sortOrder start partialData s =
     (if srv_searching s then None
      else
        (case query_docs cfg sl idx (runes query) (objIndex (srv_ix s)) of
           None \<Rightarrow> None
         | Some dr \<Rightarrow>
             Some (outcome_bind dr (\<lambda>docs.
                   outcome_bind (getResults idx (map fst docs) s)
                     (format_results wd sl rows sortOrder start partialData)))))"

subsection \<open>Handlers\<close>

fun hex_val :: "char \<Rightarrow> nat" where
  "hex_val c = (if is_digit c then of_char c - 48 else if is_lower c then of_char c - 87 else of_char c - 55)"

text \<open>\<open>url.QueryUnescape\<close>.\<close>

fun QueryUnescape :: "searchlib \<Rightarrow> string \<Rightarrow> string outcome" where
  "QueryUnescape sl [] = Ok []"
| "QueryUnescape sl (c # s) =
     (if c = CHR ''%'' then
        (case s of
           a # b # t \<Rightarrow>
             if is_hex a \<and> is_hex b then
               outcome_bind (QueryUnescape sl t) (\<lambda>r. Ok (char_of (16 * hex_val a + hex_val b) # r))
             else Errorf (''invalid URL escape '' @ sl_Quote sl (c # a # b # []))
         | _ \<Rightarrow> Errorf (''invalid URL escape '' @ sl_Quote sl (c # s)))
      else outcome_bind (QueryUnescape sl s) (\<lambda>r. Ok ((if c = CHR ''+'' then CHR '' '' else c) # r)))"

text \<open>The match of \<open>^I don't know how to search for .*? data objects.\<close>\<close>

fun has_infix_rest :: "string \<Rightarrow> string \<Rightarrow> bool" where
  "has_infix_rest w [] \<longleftrightarrow> False"
| "has_infix_rest w (c # s) \<longleftrightarrow> take (length w) (c # s) = w \<and> drop (length w) (c # s) \<noteq> [] \<or> has_infix_rest w s"

definition no_such_index :: "string \<Rightarrow> bool" where
  "no_such_index m \<longleftrightarrow>
     (let p = ''I don't know how to search for ''; l = takeWhile (\<lambda>c. c \<noteq> CHR 0x0A) m
      in take (length p) l = p \<and> has_infix_rest '' data objects'' (drop (length p) l))"

definition form_first :: "request \<Rightarrow> string \<Rightarrow> string option outcome" where
  "form_first r k = (case map_of (r_Form r) k of None \<Rightarrow> Ok None | Some [] \<Rightarrow> Panic | Some (v # _) \<Rightarrow> Ok (Some v))"

definition form_int :: "request \<Rightarrow> string \<Rightarrow> int \<Rightarrow> int" where
  "form_int r k dflt = (case map_of (r_Form r) k of None \<Rightarrow> dflt | Some [] \<Rightarrow> 0 | Some (v # _) \<Rightarrow> fst (Atoi v))"

definition form_sort :: "request \<Rightarrow> string" where
  "form_sort r = (case map_of (r_Form r) ''sort'' of Some (v # _) \<Rightarrow> if v \<noteq> [] then v else ''id ASC'' | _ \<Rightarrow> ''id ASC'')"

definition search_index ::
  "conf \<Rightarrow> world \<Rightarrow> searchlib \<Rightarrow> request \<Rightarrow> string \<Rightarrow> string \<Rightarrow> server \<Rightarrow> reply \<times> server" where
  "search_index cfg wd sl r idx paramQuery s =
     attempt (QueryUnescape sl paramQuery) s (\<lambda>e. reply_error (msg e) StatusBadRequest new_response s) (\<lambda>query.
     attempt (if r_Method r = MethodPost then parseObjJSON r else Ok None) s
       (\<lambda>e. reply_error (msg e) StatusBadRequest new_response s) (\<lambda>partialData.
       case TrieSearch_Search cfg wd sl idx query (form_int r ''rows'' 1000) (form_sort r) (form_int r ''start'' 0) partialData s of
         None \<Rightarrow> (Hang, s\<lparr>srv_searching := True\<rparr>)
       | Some res \<Rightarrow>
           attempt res s
             (\<lambda>e. reply_error (msg e) (if no_such_index (msg e) then StatusNotFound else StatusBadRequest) new_response s)
             (\<lambda>rows. reply_json (GMap [(''total'', GNum (string_of_int (int (length rows)))),
                                        (''start'', GNum (string_of_int (form_int r ''start'' 0))),
                                        (''rows'', GArr (map GMap rows))]) new_response s)))"

definition searchHandler :: "conf \<Rightarrow> world \<Rightarrow> searchlib \<Rightarrow> request \<Rightarrow> server \<Rightarrow> reply \<times> server" where
  "searchHandler cfg wd sl r s =
     with_opUser r s (\<lambda>opUser.
       let pathArray = splitPath (r_Path r); n = length pathArray;
           denied = reply_error ''You are not allowed to perform this action'' StatusForbidden new_response s
       in if r_Method r = MethodHead then
            (Reply (if IsValidator cfg opUser then headResponse StatusForbidden new_response
                    else headDefaultResponse new_response), s)
          else
            attempt (form_first r ''q'') s (\<lambda>e. (Crash, s)) (\<lambda>q.
              let paramQuery = (case q of Some v \<Rightarrow> v | None \<Rightarrow> if n \<noteq> 1 then ''*:*'' else [])
              in if n = 1 then
                   (if r_Method r = MethodGet then
                      (if IsValidator cfg opUser then denied
                       else reply_json (GMap (map (\<lambda>e. (e, GStr (CustomURL wd (''/search/'' @ e))))
                              (Endpoints (objIndex (srv_ix s))))) new_response s)
                    else reply_error ''Method not allowed'' StatusMethodNotAllowed new_response s)
                 else if n = 2 then
                   (if r_Method r = MethodGet \<or> r_Method r = MethodPost then
                      (if IsValidator cfg opUser then denied else search_index cfg wd sl r (pathArray ! 1) paramQuery s)
                    else reply_error ''Method not allowed'' StatusMethodNotAllowed new_response s)
                 else reply_error ''Bad request'' StatusBadRequest new_response s))"

definition reindexHandler :: "conf \<Rightarrow> request \<Rightarrow> server \<Rightarrow> reply \<times> server" where
  "reindexHandler cfg r s =
     with_opUser r s (\<lambda>opUser.
       if r_Method r = MethodPost then
         (if \<not> IsAdmin cfg opUser then
            reply_error ''You are not allowed to perform that action.'' StatusForbidden new_response s
          else reply_json (GMap [(''reindex'', GStr ''OK'')]) new_response (s\<lparr>srv_reindexes := Suc (srv_reindexes s)\<rparr>))
       else
         reply_error (''Method not allowed. If you're trying to do something with a data bag named 'reindex', '' @
           ''it's not going to work I'm afraid.'') StatusMethodNotAllowed new_response s)"

subsection \<open>Rebuilding the index\<close>

definition ClearIndex :: "server \<Rightarrow> server" where
  "ClearIndex s = s\<lparr>srv_ix := (srv_ix s)\<lparr>objIndex := idx_Clear (objIndex (srv_ix s))\<rparr>\<rparr>"

text \<open>\<open>ReIndex\<close> saves its objects on several processors, in an order that is not fixed.\<close>

definition ReIndex :: "indexable list \<Rightarrow> server \<Rightarrow> server" where
  "ReIndex objects s = s\<lparr>srv_ix := (srv_ix s)\<lparr>idx_jobs := idx_jobs (srv_ix s) @ objects\<rparr>\<rparr>"

fun reindex_databags :: "string list \<Rightarrow> server \<Rightarrow> (indexable list \<times> server) outcome" where
  "reindex_databags [] s = Ok ([], s)"
| "reindex_databags (db # dbags) s =
     (case databag_Get db s of
        Panic \<Rightarrow> Panic
      | Err _ \<Rightarrow> reindex_databags dbags s
      | Ok dbag \<Rightarrow>
          outcome_bind
            (reindex_databags dbags (s\<lparr>srv_ix := indexer_CreateNewCollection (db_Name dbag) (srv_ix s)\<rparr>))
            (\<lambda>(obs, s1). Ok (map (item_indexable \<circ> snd) (AllDBItems dbag) @ obs, s1)))"

text \<open>\<open>reindexAll\<close>; a panic in a goroutine ends the process.\<close>

definition reindexAll :: "server \<Rightarrow> server outcome" where
  "reindexAll s =
     (let s0 = ClearIndex s
      in outcome_bind (AllClients s0) (\<lambda>cs. let s1 = ReIndex (map client_indexable cs) s0
      in outcome_bind (AllNodes s1) (\<lambda>ns. let s2 = ReIndex (map node_indexable ns) s1
      in outcome_bind (AllRoles s2) (\<lambda>rs. let s3 = ReIndex (map role_indexable rs) s2
      in outcome_bind (AllEnvironments s3) (\<lambda>es.
         outcome_bind (env_Get ''_default'' s3) (\<lambda>defaultEnv.
         let s4 = ReIndex (map env_indexable (es @ [defaultEnv])) s3
      in outcome_bind (reindex_databags (databag_GetList s4) s4) (\<lambda>(obs, s5). Ok (ReIndex obs s5))))))))"

subsection \<open>Paging\<close>

lemma search_page_window:
  assumes "- (2 ^ 63) \<le> start" "start < 2 ^ 63" "- (2 ^ 63) \<le> rows" "rows < 2 ^ 63" "int (length res) < 2 ^ 63"
  shows "search_page start rows res =
    (if 0 \<le> start \<and> start \<le> int (length res) \<and> 0 \<le> rows \<and> start + rows < 2 ^ 63
     then Ok (take (nat rows) (drop (nat start) res)) else Panic)"
proof (cases "0 \<le> start \<and> start \<le> int (length res)")
  case True
  have big: "int64_add start rows = start + rows - 2 ^ 64" if "2 ^ 63 \<le> start + rows"
  proof -
    have "(start + rows + 2 ^ 63) mod 2 ^ 64 = (start + rows + 2 ^ 63 - 2 ^ 64) mod 2 ^ 64" by (simp only: minus_mod_self2)
    also have "\<dots> = start + rows + 2 ^ 63 - 2 ^ 64" using that True assms by (intro mod_pos_pos_trivial) simp_all
    finally show ?thesis by (simp add: int64_add_def)
  qed
  have small: "int64_add start rows = start + rows" if "start + rows < 2 ^ 63"
    using that True assms unfolding int64_add_def by (subst mod_pos_pos_trivial) simp_all
  consider (over) "2 ^ 63 \<le> start + rows" | (neg) "start + rows < 2 ^ 63" "rows < 0" | (fits) "start + rows < 2 ^ 63" "0 \<le> rows"
    by linarith
  then show ?thesis
  proof cases
    case over
    then show ?thesis using True assms by (simp add: search_page_def Let_def big)
  next
    case neg
    then show ?thesis using True by (simp add: search_page_def Let_def small)
  next
    case fits
    have "take (nat (int (length res) - start)) (drop (nat start) res) = take (nat rows) (drop (nat start) res)"
      if "int (length res) < start + rows" using that True by (simp add: take_all)
    then show ?thesis using True fits by (simp add: search_page_def Let_def small)
  qed
next
  case False
  then show ?thesis by (auto simp: search_page_def Let_def)
qed

text \<open>\<^bold>\<open>C16\<close>. The page of a search is what follows \<open>start\<close>, up to \<open>rows\<close> objects. A request panics whose
  start lies beyond the results, or with a negative start or number of rows, or whose start and
  number of rows have a sum that overflows.\<close>

theorem search_paging:
  assumes "- (2 ^ 63) \<le> start" "start < 2 ^ 63" "- (2 ^ 63) \<le> rows" "rows < 2 ^ 63" "int (length res) < 2 ^ 63"
  shows "search_page start rows res =
    (if 0 \<le> start \<and> start \<le> int (length res) \<and> 0 \<le> rows \<and> start + rows < 2 ^ 63
     then Ok (take (nat rows) (drop (nat start) res)) else Panic)"
  by (rule search_page_window [OF assms])

theorem search_paging_witness:
  "search_page 1 2 [''a'', ''b'', ''c'', ''d''] = Ok [''b'', ''c''] \<and> search_page 5 2 [''a'', ''b''] = (Panic :: string list outcome)"
  using search_paging [of 1 2 "[''a'', ''b'', ''c'', ''d'']"] search_paging [of 5 2 "[''a'', ''b'']"]
  by (simp add: numeral_2_eq_2)

subsection \<open>A query that is never answered\<close>

text \<open>A request that searches an index with a query that is properly escaped.\<close>

definition searches :: "conf \<Rightarrow> searchlib \<Rightarrow> request \<Rightarrow> string \<Rightarrow> bool" where
  "searches cfg sl r query \<longleftrightarrow>
     (\<exists>a. r_OpUser r = Some a \<and> \<not> IsValidator cfg a) \<and> r_Method r = MethodGet \<and> length (splitPath (r_Path r)) = 2 \<and>
     (\<exists>v vs. map_of (r_Form r) ''q'' = Some (v # vs) \<and> QueryUnescape sl v = Ok query)"

lemma searches_index:
  assumes "searches cfg sl r query"
  shows "\<exists>idx. searchHandler cfg wd sl r s =
    (case TrieSearch_Search cfg wd sl idx query (form_int r ''rows'' 1000) (form_sort r) (form_int r ''start'' 0) None s of
       None \<Rightarrow> (Hang, s\<lparr>srv_searching := True\<rparr>)
     | Some res \<Rightarrow>
           attempt res s
             (\<lambda>e. reply_error (msg e) (if no_such_index (msg e) then StatusNotFound else StatusBadRequest) new_response s)
             (\<lambda>rows. reply_json (GMap [(''total'', GNum (string_of_int (int (length rows)))),
                                        (''start'', GNum (string_of_int (form_int r ''start'' 0))),
                                        (''rows'', GArr (map GMap rows))]) new_response s))"
  using assms
  by (intro exI [of _ "splitPath (r_Path r) ! 1"])
    (auto simp: searches_def searchHandler_def with_opUser_def CtxReqUser_def form_first_def search_index_def Let_def)

text \<open>\<^bold>\<open>C39\<close>. One request of any actor that may search, with a query that begins with a word, a hyphen and
  a letter outside ASCII, is never answered and takes the mutex of the searches with it: from then on no
  search of an index is answered, whatever its query.\<close>

theorem one_query_stops_search:
  assumes "searches cfg sl r query" "runes query = w @ ''-'' # l # rest"
    "w \<noteq> []" "list_all ascii_alnum w" "hd w \<noteq> ''N''" "hd w \<noteq> ''O''" "hd w \<noteq> ''A''" "other_letter (sl_letter sl) l"
  shows "searchHandler cfg wd sl r s = (Hang, s\<lparr>srv_searching := True\<rparr>) \<and>
    (searches cfg sl r2 query2 \<longrightarrow>
       searchHandler cfg wd sl r2 (s\<lparr>srv_searching := True\<rparr>) = (Hang, s\<lparr>srv_searching := True\<rparr>))"
proof -
  have "ruleq (sl_letter sl) (runes query) = Diverges"
    unfolding assms(2) by (rule query_loops [OF assms(3-8)])
  then have "TrieSearch_Search cfg wd sl idx query rows so st None s = None" for idx rows so st
    by (simp add: TrieSearch_Search_def query_docs_def)
  moreover have "TrieSearch_Search cfg wd sl idx q rows so st None (s\<lparr>srv_searching := True\<rparr>) = None" for idx q rows so st
    by (simp add: TrieSearch_Search_def)
  ultimately show ?thesis using searches_index [OF assms(1), of wd s] searches_index [of cfg sl r2 query2 wd "s\<lparr>srv_searching := True\<rparr>"]
    by fastforce
qed

definition search_request :: "string \<Rightarrow> request" where
  "search_request q =
     \<lparr>r_Method = MethodGet, r_Path = ''/search/node'', r_Form = [(''q'', [q])], r_Header = [],
      r_OpUser = Some (AUser example_user), r_RawBody = [], r_GzipError = None, r_Body = [], r_JSON = Ok None,
      r_ContentLength = 0, r_RemoteAddr = [], r_QueryError = None\<rparr>"

definition letters_searchlib :: searchlib where
  "letters_searchlib = example_searchlib\<lparr>sl_letter := \<lambda>_. True\<rparr>"

lemma search_request_searches: "QueryUnescape sl q = Ok query \<Longrightarrow> searches cfg sl (search_request q) query"
proof -
  have "length (splitPath ''/search/node'') = 2" by code_simp
  then show "QueryUnescape sl q = Ok query \<Longrightarrow> searches cfg sl (search_request q) query"
    by (simp add: searches_def search_request_def IsValidator_def)
qed

theorem one_query_stops_search_witness:
  "searchHandler search_conf example_world letters_searchlib (search_request (''caf-'' @ [CHR 0xC3, CHR 0xA9])) new_server =
     (Hang, new_server\<lparr>srv_searching := True\<rparr>) \<and>
   searchHandler search_conf example_world letters_searchlib (search_request ''*:*'') (new_server\<lparr>srv_searching := True\<rparr>) =
     (Hang, new_server\<lparr>srv_searching := True\<rparr>)"
proof -
  let ?q = "''caf-'' @ [CHR 0xC3, CHR 0xA9]"
  have "runes ?q = [''c'', ''a'', ''f''] @ ''-'' # [CHR 0xC3, CHR 0xA9] # []" by code_simp
  moreover have "list_all ascii_alnum [''c'', ''a'', ''f'']" by code_simp
  moreover have "searches search_conf letters_searchlib (search_request ?q) ?q"
      "searches search_conf letters_searchlib (search_request ''*:*'') ''*:*''"
    by (simp_all add: search_request_searches)
  ultimately show ?thesis
    using one_query_stops_search [of search_conf letters_searchlib "search_request ?q" ?q "[''c'', ''a'', ''f'']"
        "[CHR 0xC3, CHR 0xA9]" "[]" example_world new_server "search_request ''*:*''" "''*:*''"]
    by (simp add: letters_searchlib_def other_letter_def)
qed

subsection \<open>Searches of nodes\<close>






end
