(* ===== verification/Float64.thy ===== *)
theory Float64
  imports Complex_Main "HOL-Library.Log_Nat"
begin

text \<open>
  Go's \<open>float64\<close>: finite values as rational numbers, infinities and NaN. Multiplication and
  division round the exact result to 53 binary digits, ties to even. The sign of zero is left
  out.
\<close>

datatype float64 = FNum rat | FInf bool | FNaN

text \<open>The exponent \<open>e\<close> with \<open>2 ^ e \<le> x < 2 ^ (e + 1)\<close>, for positive \<open>x\<close>.\<close>

definition rat_exponent :: "rat \<Rightarrow> int" where
  "rat_exponent x =
     (let (p, q) = quotient_of x; e = int (floorlog 2 (nat p)) - int (floorlog 2 (nat q))
      in if 2 powi e \<le> x then e else e - 1)"

definition round_even :: "rat \<Rightarrow> int" where
  "round_even x =
     (let f = \<lfloor>x\<rfloor>; d = x - of_int f
      in if d < 1 / 2 then f else if 1 / 2 < d then f + 1 else if even f then f else f + 1)"

definition ulp_exponent :: "rat \<Rightarrow> int" where
  "ulp_exponent x = max (rat_exponent \<bar>x\<bar> - 52) (- 1074)"

definition round64 :: "rat \<Rightarrow> float64" where
  "round64 x =
     (if x = 0 then FNum 0
      else
        (let u = 2 powi ulp_exponent x; y = of_int (round_even (x / u)) * u
         in if 2 ^ 1024 \<le> \<bar>y\<bar> then FInf (x < 0) else FNum y))"

fun f_neg :: "float64 \<Rightarrow> bool" where
  "f_neg (FNum x) = (x < 0)"
| "f_neg (FInf n) = n"
| "f_neg FNaN = False"

fun f_mul :: "float64 \<Rightarrow> float64 \<Rightarrow> float64" where
  "f_mul (FNum a) (FNum b) = round64 (a * b)"
| "f_mul FNaN b = FNaN"
| "f_mul a FNaN = FNaN"
| "f_mul a b = (if a = FNum 0 \<or> b = FNum 0 then FNaN else FInf (f_neg a \<noteq> f_neg b))"

fun f_div :: "float64 \<Rightarrow> float64 \<Rightarrow> float64" where
  "f_div (FNum a) (FNum b) = (if b = 0 then (if a = 0 then FNaN else FInf (a < 0)) else round64 (a / b))"
| "f_div FNaN b = FNaN"
| "f_div a FNaN = FNaN"
| "f_div (FInf n) (FInf m) = FNaN"
| "f_div (FInf n) (FNum b) = FInf (n \<noteq> (b < 0))"
| "f_div (FNum a) (FInf m) = FNum 0"

fun f_greater :: "float64 \<Rightarrow> float64 \<Rightarrow> bool" where
  "f_greater FNaN b = False"
| "f_greater a FNaN = False"
| "f_greater (FNum a) (FNum b) = (b < a)"
| "f_greater (FInf n) (FInf m) = (\<not> n \<and> m)"
| "f_greater (FInf n) (FNum b) = (\<not> n)"
| "f_greater (FNum a) (FInf m) = m"

fun f_ceil :: "float64 \<Rightarrow> float64" where
  "f_ceil (FNum x) = FNum (of_int \<lceil>x\<rceil>)"
| "f_ceil f = f"

text \<open>The conversion to \<open>int\<close> truncates; out of range it gives the least integer, as on amd64.\<close>

definition rat_truncate :: "rat \<Rightarrow> int" where
  "rat_truncate x = (if 0 \<le> x then \<lfloor>x\<rfloor> else \<lceil>x\<rceil>)"

fun f_int :: "float64 \<Rightarrow> int" where
  "f_int (FNum x) = (let t = rat_truncate x in if - (2 ^ 63) \<le> t \<and> t < 2 ^ 63 then t else - (2 ^ 63))"
| "f_int f = - (2 ^ 63)"

subsection \<open>The error of rounding\<close>

lemma powi_add: "(2 :: rat) powi (a + b) = 2 powi a * 2 powi b"
  by (simp add: power_int_add)

lemma powi_pos [simp]: "0 < (2 :: rat) powi a"
  by simp

lemma powi_quot: "(2 :: rat) ^ m / 2 ^ n = 2 powi (int m - int n)"
  by (simp add: power_int_diff)

lemma floorlog2_bounds: "0 < n \<Longrightarrow> 2 ^ (floorlog 2 n - 1) \<le> n \<and> n < 2 ^ floorlog 2 n"
  using floorlog_bounds [of n 2] by simp

lemma rat_exponent_bounds:
  assumes "0 < x"
  shows "2 powi rat_exponent x \<le> x" "x < 2 powi (rat_exponent x + 1)"
proof -
  obtain p q where pq: "quotient_of x = (p, q)" by (cases "quotient_of x")
  have q: "0 < q" using pq by (rule quotient_of_denom_pos)
  have x: "x = of_int p / of_int q" using pq by (rule quotient_of_div)
  have p: "0 < p" using assms q by (simp add: x zero_less_divide_iff)
  define a b where "a = floorlog 2 (nat p)" and "b = floorlog 2 (nat q)"
  have ab: "0 < a" "0 < b" using p q by (simp_all add: a_def b_def floorlog_def)
  have P: "2 ^ (a - 1) \<le> p" "p < 2 ^ a" and Q: "2 ^ (b - 1) \<le> q" "q < 2 ^ b"
    using floorlog2_bounds [of "nat p"] floorlog2_bounds [of "nat q"] p q by (simp_all add: a_def b_def zless_nat_eq_int_zless nat_le_eq_zle flip: nat_power_eq)
  have le: "(of_int p :: rat) < 2 ^ a" "(2 :: rat) ^ (a - 1) \<le> of_int p" "(of_int q :: rat) < 2 ^ b" "(2 :: rat) ^ (b - 1) \<le> of_int q"
    using P Q by (metis of_int_less_iff of_int_le_iff of_int_numeral of_int_power)+
  have up: "x < 2 powi (int a - int b + 1)"
  proof -
    have "x < 2 ^ a / of_int q" using le(1) q by (simp add: x divide_strict_right_mono)
    also have "\<dots> \<le> 2 ^ a / 2 ^ (b - 1)" using le(4) q by (intro divide_left_mono) simp_all
    also have "\<dots> = 2 powi (int a - int b + 1)" using ab by (simp add: powi_quot of_nat_diff algebra_simps)
    finally show ?thesis .
  qed
  have low: "2 powi (int a - int b - 1) \<le> x"
  proof -
    have "(2 :: rat) powi (int a - int b - 1) = 2 ^ (a - 1) / 2 ^ b" using ab by (simp add: powi_quot of_nat_diff algebra_simps)
    also have "\<dots> \<le> 2 ^ (a - 1) / of_int q" using le(3) q by (intro divide_left_mono) simp_all
    also have "\<dots> \<le> x" using le(2) q by (simp add: x divide_right_mono)
    finally show ?thesis .
  qed
  have e: "rat_exponent x = (if 2 powi (int a - int b) \<le> x then int a - int b else int a - int b - 1)"
    by (simp add: rat_exponent_def pq a_def b_def)
  show "2 powi rat_exponent x \<le> x" "x < 2 powi (rat_exponent x + 1)" using up low by (auto simp: e)
qed

lemma round_even_error: "\<bar>of_int (round_even x) - x\<bar> \<le> 1 / 2"
proof -
  have "of_int \<lfloor>x\<rfloor> \<le> x" "x < of_int \<lfloor>x\<rfloor> + 1" by linarith+
  then show ?thesis unfolding round_even_def Let_def abs_le_iff by (auto split: if_split) linarith+
qed

text \<open>Rounding a number of moderate size changes it by at most one part in \<open>2 ^ 53\<close>.\<close>

lemma round64_error:
  assumes "2 powi (- 1000) \<le> x" "x \<le> 2 ^ 1000"
  shows "\<exists>y. round64 x = FNum y \<and> \<bar>y - x\<bar> \<le> x / 2 ^ 53"
proof -
  have x: "0 < x" using assms(1) by (rule less_le_trans [rotated]) simp
  note b = rat_exponent_bounds [OF x]
  have "(2 :: rat) powi (- 1000) < 2 powi (rat_exponent x + 1)" using assms(1) b(2) by linarith
  then have "- 1000 < rat_exponent x + 1" using power_int_increasing [of "rat_exponent x + 1" "- 1000" "2 :: rat"] by linarith
  then have u: "ulp_exponent x = rat_exponent x - 52" using x by (simp add: ulp_exponent_def)
  define w where "w = (2 :: rat) powi ulp_exponent x"
  have w: "0 < w" "w * 2 ^ 52 \<le> x"
  proof -
    show "0 < w" by (simp add: w_def)
    have "w * 2 ^ 52 = 2 powi rat_exponent x" by (simp add: w_def u power_int_diff)
    then show "w * 2 ^ 52 \<le> x" using b(1) by simp
  qed
  define y where "y = of_int (round_even (x / w)) * w"
  have "y - x = (of_int (round_even (x / w)) - x / w) * w" using w(1) by (simp add: y_def left_diff_distrib)
  then have "\<bar>y - x\<bar> = \<bar>of_int (round_even (x / w)) - x / w\<bar> * w" using w(1) by (simp add: abs_mult)
  also have "\<dots> \<le> 1 / 2 * w" using w(1) round_even_error by (intro mult_right_mono) simp_all
  also have "\<dots> \<le> x / 2 ^ 53" using w(2) by simp
  finally have err: "\<bar>y - x\<bar> \<le> x / 2 ^ 53" .
  have "x / 2 ^ 53 \<le> x" using x by simp
  then have "\<bar>y\<bar> \<le> 2 * x" using err x by linarith
  also have "\<dots> < 2 ^ 1024"
  proof -
    have "2 * x \<le> 2 ^ 1001" using assms(2) by simp
    also have "\<dots> < (2 :: rat) ^ 1024" by (rule power_strict_increasing) simp_all
    finally show ?thesis .
  qed
  finally have "round64 x = FNum y" using x by (simp add: round64_def Let_def y_def w_def)
  with err show ?thesis by blast
qed

text \<open>Rounding, for a known exponent.\<close>

lemma rat_exponent_unique:
  assumes "2 powi e \<le> x" "x < 2 powi (e + 1)"
  shows "rat_exponent x = e"
proof -
  have "0 < x" using assms(1) by (rule less_le_trans [rotated]) simp
  note b = rat_exponent_bounds [OF this]
  have "(2 :: rat) powi e < 2 powi (rat_exponent x + 1)" "(2 :: rat) powi rat_exponent x < 2 powi (e + 1)"
    using assms b by linarith+
  then have "e < rat_exponent x + 1" "rat_exponent x < e + 1"
    using power_int_increasing [of "rat_exponent x + 1" e "2 :: rat"] power_int_increasing [of "e + 1" "rat_exponent x" "2 :: rat"]
    by linarith+
  then show ?thesis by simp
qed

lemma round64_with_exponent:
  assumes "2 powi e \<le> x" "x < 2 powi (e + 1)" "- 1000 \<le> e" "e < 1000"
  shows "round64 x = FNum (of_int (round_even (x / 2 powi (e - 52))) * 2 powi (e - 52))"
proof -
  have x: "0 < x" using assms(1) by (rule less_le_trans [rotated]) simp
  have u: "ulp_exponent x = e - 52" using x assms(3) rat_exponent_unique [OF assms(1,2)] by (simp add: ulp_exponent_def)
  have "(2 :: rat) powi (- 1000) \<le> 2 powi e" "(2 :: rat) powi (e + 1) \<le> 2 powi 1000"
    using assms(3,4) by (intro power_int_increasing; simp)+
  then have "2 powi (- 1000) \<le> x" "x \<le> 2 powi 1000" using assms(1,2) by linarith+
  then obtain y where "round64 x = FNum y" using round64_error [of x] by auto
  then show ?thesis using x by (auto simp: round64_def Let_def u split: if_splits)
qed

end
