(* ===== verification/Shovey.thy ===== *)
theory Shovey
  imports Float64 Reports
begin

text \<open>
  \<^verbatim>\<open>shovey/shovey.go\<close>: jobs that run a command on nodes. A job (\<open>shovey\<close>) has a run for each of its
  nodes, and a run has chunks of output.

  Parameters are \<open>strconv.ParseFloat\<close>, the format \<open>%f\<close>, signing a text with the key of the server,
  and asking the nodes through serf. What happens after the nodes have been asked, when they
  acknowledge, is in \<open>ack_read\<close> and \<open>run_save\<close>, which run at some later time.
\<close>

record shoveylib =
  sy_ParseFloat :: "string \<Rightarrow> float64 outcome"
  sy_format_f :: "float64 \<Rightarrow> string"
  sy_SignTextBlock :: "string \<Rightarrow> string outcome"
  sy_Query :: "(string \<times> string) list \<Rightarrow> string list \<Rightarrow> unit outcome"

record qerror =
  qe_msg :: string
  qe_status :: string

definition newQuerror :: "string \<Rightarrow> qerror" where
  "newQuerror t = \<lparr>qe_msg = t, qe_status = ''job_failed''\<rparr>"

subsection \<open>Jobs and runs in the store\<close>

text \<open>A job is saved with the time of saving.\<close>

definition shovey_save :: "int \<Rightarrow> shovey \<Rightarrow> server \<Rightarrow> shovey \<times> server" where
  "shovey_save now sh s =
     (let sh1 = sh\<lparr>sh_UpdatedAt := now\<rparr> in (sh1, srv_Set ''shovey'' (sh_RunID sh1) (VShovey sh1) s))"

definition run_save :: "shovey_run \<Rightarrow> server \<Rightarrow> server" where
  "run_save sr s = srv_Set ''shovey_run'' (sr_ShoveyUUID sr @ sr_NodeName sr) (VShoveyRun sr) s"

definition shovey_New :: "world \<Rightarrow> string \<Rightarrow> int \<Rightarrow> string \<Rightarrow> string list \<Rightarrow> server \<Rightarrow> shovey outcome \<times> server" where
  "shovey_New wd command timeout quorumStr nodeNames s =
     (if srv_Get ''shovey'' s (w_uuid wd) \<noteq> None then
        (ErrorS ''a shovey run with this run id already exists'' StatusConflict, s)
      else
        (let sh = \<lparr>sh_RunID = w_uuid wd, sh_NodeNames = nodeNames, sh_Command = command, sh_CreatedAt = w_now wd,
                    sh_UpdatedAt = w_now wd, sh_Status = ''submitted'', sh_Timeout = timeout, sh_Quorum = quorumStr\<rparr>;
             (sh1, s1) = shovey_save (w_now wd) sh s
         in (Ok sh1, s1)))"

definition GetRun :: "shovey \<Rightarrow> string \<Rightarrow> server \<Rightarrow> shovey_run outcome" where
  "GetRun sh nodeName s =
     (case srv_Get ''shovey_run'' s (sh_RunID sh @ nodeName) of
        None \<Rightarrow> ErrorS (''run '' @ sh_RunID sh @ '' for node '' @ nodeName @ '' not found'') StatusNotFound
      | Some (VShoveyRun sr) \<Rightarrow> Ok sr
      | Some _ \<Rightarrow> Panic)"

fun node_runs :: "shovey \<Rightarrow> string list \<Rightarrow> server \<Rightarrow> shovey_run list outcome" where
  "node_runs sh [] s = Ok []"
| "node_runs sh (n # ns) s =
     (case GetRun sh n s of
        Panic \<Rightarrow> Panic
      | Err e \<Rightarrow> if status e \<noteq> StatusNotFound then Err e else node_runs sh ns s
      | Ok sr \<Rightarrow> outcome_bind (node_runs sh ns s) (\<lambda>srs. Ok (sr # srs)))"

definition GetNodeRuns :: "shovey \<Rightarrow> server \<Rightarrow> shovey_run list outcome" where
  "GetNodeRuns sh s = node_runs sh (sh_NodeNames sh) s"

definition shovey_Get :: "string \<Rightarrow> server \<Rightarrow> shovey outcome" where
  "shovey_Get runID s =
     (case srv_Get ''shovey'' s runID of
        None \<Rightarrow> ErrorS (''shovey job '' @ runID @ '' not found'') StatusNotFound
      | Some (VShovey sh) \<Rightarrow> Ok sh
      | Some _ \<Rightarrow> Panic)"

definition shovey_DoesExist :: "string \<Rightarrow> server \<Rightarrow> bool outcome" where
  "shovey_DoesExist runID s = Ok (srv_Get ''shovey'' s runID \<noteq> None)"

definition AllShoveyIDs :: "server \<Rightarrow> string list" where
  "AllShoveyIDs s = srv_GetList ''shovey'' s"

text \<open>The exit of the process on an error is a panic of the model.\<close>

fun all_shoveys :: "string list \<Rightarrow> server \<Rightarrow> shovey list outcome" where
  "all_shoveys [] s = Ok []"
| "all_shoveys (i # is) s =
     (case shovey_Get i s of Ok sh \<Rightarrow> outcome_bind (all_shoveys is s) (\<lambda>shs. Ok (sh # shs)) | _ \<Rightarrow> Panic)"

definition AllShoveys :: "server \<Rightarrow> shovey list outcome" where
  "AllShoveys s = all_shoveys (AllShoveyIDs s) s"

fun runs_of :: "shovey list \<Rightarrow> server \<Rightarrow> shovey_run list outcome" where
  "runs_of [] s = Ok []"
| "runs_of (sh # shs) s =
     (case GetNodeRuns sh s of Ok rs \<Rightarrow> outcome_bind (runs_of shs s) (\<lambda>rs'. Ok (rs @ rs')) | _ \<Rightarrow> Panic)"

definition AllShoveyRuns :: "server \<Rightarrow> shovey_run list outcome" where
  "AllShoveyRuns s = outcome_bind (AllShoveys s) (\<lambda>shs. runs_of shs s)"

subsection \<open>Completion\<close>

definition run_finished :: "shovey_run \<Rightarrow> bool" where
  "run_finished sr \<longleftrightarrow> sr_Status sr \<in> {''invalid'', ''succeeded'', ''failed'', ''down'', ''nacked''}"

definition checkCompleted :: "int \<Rightarrow> shovey \<Rightarrow> server \<Rightarrow> (shovey \<times> server) outcome" where
  "checkCompleted now sh s =
     (case GetNodeRuns sh s of
        Panic \<Rightarrow> Panic
      | Err _ \<Rightarrow> Ok (sh, s)
      | Ok srs \<Rightarrow>
          (let c = length (filter (\<lambda>sr. run_finished sr \<or> sr_Status sr = ''cancelled'') srs)
           in if c = length (sh_NodeNames sh) then Ok (shovey_save now (sh\<lparr>sh_Status := ''complete''\<rparr>) s) else Ok (sh, s)))"

text \<open>\<open>notifyParent\<close>, a goroutine: a job that is gone is a nil pointer.\<close>

definition notifyParent :: "int \<Rightarrow> string \<Rightarrow> server \<Rightarrow> server outcome" where
  "notifyParent now uuid s =
     (case shovey_Get uuid s of
        Ok sh \<Rightarrow> outcome_bind (checkCompleted now sh s) (\<lambda>(_, s1). Ok s1)
      | _ \<Rightarrow> Panic)"

subsection \<open>Signing\<close>

definition signRequest :: "shoveylib \<Rightarrow> (string \<times> string) list \<Rightarrow> string outcome" where
  "signRequest sy payload =
     sy_SignTextBlock sy
       (join_with [CHR 0x0A]
         (map (\<lambda>k. k @ '': '' @ (case map_of payload k of None \<Rightarrow> [] | Some v \<Rightarrow> v)) (sort (map fst payload))))"

definition rfc3339 :: string where
  "rfc3339 = ''2006-01-02T15:04:05Z07:00''"

definition signed_query :: "shoveylib \<Rightarrow> (string \<times> string) list \<Rightarrow> string list \<Rightarrow> unit outcome" where
  "signed_query sy payload nodeNames =
     outcome_bind (signRequest sy payload) (\<lambda>sig. sy_Query sy (payload @ [(''signature'', sig)]) nodeNames)"

subsection \<open>Cancelling\<close>

fun cancel_runs :: "int \<Rightarrow> shovey \<Rightarrow> string list \<Rightarrow> server \<Rightarrow> unit outcome \<times> server" where
  "cancel_runs now sh [] s = (Ok (), s)"
| "cancel_runs now sh (n # ns) s =
     (case GetRun sh n s of
        Panic \<Rightarrow> (Panic, s)
      | Err e \<Rightarrow> (Err e, s)
      | Ok sr \<Rightarrow>
          cancel_runs now sh ns
            (if run_finished sr then s else run_save (sr\<lparr>sr_EndTime := now, sr_Status := ''cancelled''\<rparr>) s))"

text \<open>If as many nodes are given as the job has, both lists are sorted in place.\<close>

definition cancel_job :: "int \<Rightarrow> string list \<Rightarrow> shovey \<Rightarrow> server \<Rightarrow> (shovey \<times> server) outcome" where
  "cancel_job now nodeNames sh s =
     (if length nodeNames = length (sh_NodeNames sh) then
        (let sh1 = sh\<lparr>sh_NodeNames := sort (sh_NodeNames sh)\<rparr>
         in if sort nodeNames = sh_NodeNames sh1 then Ok (shovey_save now (sh1\<lparr>sh_Status := ''cancelled''\<rparr>) s)
            else Ok (sh1, s))
      else checkCompleted now sh s)"

definition CancelRuns :: "world \<Rightarrow> shoveylib \<Rightarrow> string list \<Rightarrow> shovey \<Rightarrow> server \<Rightarrow> unit outcome \<times> shovey \<times> server" where
  "CancelRuns wd sy nodeNames sh s =
     (case cancel_runs (w_now wd) sh nodeNames s of
        (Ok _, s1) \<Rightarrow>
          (case cancel_job (w_now wd) nodeNames sh s1 of
             Ok (sh1, s2) \<Rightarrow>
               (case signed_query sy [(''action'', ''cancel''), (''run_id'', sh_RunID sh), (''time'', w_format wd rfc3339 (w_now wd))]
                       (if length nodeNames = length (sh_NodeNames sh) then sort nodeNames else nodeNames) of
                  Ok _ \<Rightarrow> (Ok (), sh1, s2)
                | Err e \<Rightarrow> (Err (CastErr e), sh1, s2)
                | Panic \<Rightarrow> (Panic, sh1, s2))
           | _ \<Rightarrow> (Panic, sh, s1))
      | (e, s1) \<Rightarrow> (e, sh, s1))"

definition Cancel :: "world \<Rightarrow> shoveylib \<Rightarrow> shovey \<Rightarrow> server \<Rightarrow> unit outcome \<times> shovey \<times> server" where
  "Cancel wd sy sh s =
     (case CancelRuns wd sy (sh_NodeNames sh) sh s of
        (Ok _, sh1, s1) \<Rightarrow> (case shovey_save (w_now wd) (sh1\<lparr>sh_Status := ''cancelled''\<rparr>) s1 of (sh2, s2) \<Rightarrow> (Ok (), sh2, s2))
      | r \<Rightarrow> r)"

subsection \<open>Starting\<close>

text \<open>The match of \<open>^(\d+\.?\d?)%$\<close>.\<close>

definition percent_part :: "string \<Rightarrow> string option" where
  "percent_part quorum =
     (if quorum \<noteq> [] \<and> last quorum = CHR ''%'' then
        (let b = butlast quorum; r = dropWhile is_digit b
         in if takeWhile is_digit b \<noteq> [] \<and> (r = [] \<or> hd r = CHR ''.'' \<and> (tl r = [] \<or> length (tl r) = 1 \<and> is_digit (hd (tl r))))
            then Some b else None)
      else None)"

definition getQuorum :: "shoveylib \<Rightarrow> string \<Rightarrow> nat \<Rightarrow> (qerror + int) outcome" where
  "getQuorum sy quorum numNodes =
     (if numNodes = 0 then
        Ok (Inl ((newQuerror ''There's no nodes to make a quorum'')\<lparr>qe_status := ''quorum_failed''\<rparr>))
      else
        (case percent_part quorum of
           Some z \<Rightarrow>
             (case sy_ParseFloat sy z of
                Ok q \<Rightarrow> Ok (Inr (f_int (f_ceil (f_mul (f_div q (FNum 100)) (FNum (of_nat numNodes))))))
              | Err e \<Rightarrow> Ok (Inl (newQuerror (msg e)))
              | Panic \<Rightarrow> Panic)
         | None \<Rightarrow>
             (case sy_ParseFloat sy quorum of
                Ok qnum \<Rightarrow>
                  (if f_greater qnum (FNum (of_nat numNodes)) then
                     Ok (Inl ((newQuerror (sy_format_f sy qnum @ '' nodes were required for the quorum, but only '' @
                       string_of_int (int numNodes) @ '' matched the criteria given''))\<lparr>qe_status := ''quorum_failed''\<rparr>))
                   else Ok (Inr (f_int qnum)))
              | Err e \<Rightarrow> Ok (Inl (newQuerror (msg e)))
              | Panic \<Rightarrow> Panic)))"

definition new_run :: "shovey \<Rightarrow> string \<Rightarrow> string \<Rightarrow> int \<Rightarrow> shovey_run" where
  "new_run sh n st t = \<lparr>sr_ShoveyUUID = sh_RunID sh, sr_NodeName = n, sr_Status = st, sr_AckTime = zero_time, sr_EndTime = t,
     sr_Error = [], sr_ExitStatus = 0\<rparr>"

definition create_runs :: "int \<Rightarrow> shovey \<Rightarrow> string list \<Rightarrow> server \<Rightarrow> server" where
  "create_runs now sh up s =
     fold (\<lambda>n. run_save (new_run sh n ''down'' now)) (filter (\<lambda>n. n \<notin> set up) (sh_NodeNames sh))
       (fold (\<lambda>n. run_save (new_run sh n ''created'' zero_time)) up s)"

text \<open>\<open>startJobs\<close>, up to the point where the nodes have been asked.\<close>

definition startJobs :: "world \<Rightarrow> shoveylib \<Rightarrow> shovey \<Rightarrow> server \<Rightarrow> qerror option outcome \<times> server" where
  "startJobs wd sy sh s =
     (case getQuorum sy (sh_Quorum sh) (length (sh_NodeNames sh)) of
        Panic \<Rightarrow> (Panic, s)
      | Err e \<Rightarrow> (Err e, s)
      | Ok (Inl qe) \<Rightarrow> (Ok (Some qe), s)
      | Ok (Inr qnum) \<Rightarrow>
          (case GetNodesByStatus (sh_NodeNames sh) ''up'' s of
             (Panic, s1) \<Rightarrow> (Panic, s1)
           | (Err e, s1) \<Rightarrow> (Ok (Some (newQuerror (msg e))), s1)
           | (Ok upNodes, s1) \<Rightarrow>
               (if int (length upNodes) < qnum then
                  (Ok (Some ((newQuerror (''Not enough nodes were up to execute job '' @ sh_RunID sh @ '' - got '' @
                     string_of_int (int (length upNodes)) @ '', needed at least '' @ string_of_int qnum))
                     \<lparr>qe_status := ''quorum_failed''\<rparr>)), s1)
                else
                  (let tagNodes = map nd_Name upNodes; s2 = create_runs (w_now wd) sh tagNodes s1;
                       payload = [(''run_id'', sh_RunID sh), (''command'', sh_Command sh), (''action'', ''start''),
                         (''time'', w_format wd rfc3339 (w_now wd)), (''timeout'', string_of_int (sh_Timeout sh))]
                   in case signed_query sy payload tagNodes of
                        Ok _ \<Rightarrow> (Ok None, s2)
                      | Err e \<Rightarrow> (Ok (Some (newQuerror (msg e))), s2)
                      | Panic \<Rightarrow> (Panic, s2)))))"

definition Start :: "world \<Rightarrow> shoveylib \<Rightarrow> shovey \<Rightarrow> server \<Rightarrow> unit outcome \<times> shovey \<times> server" where
  "Start wd sy sh s =
     (case startJobs wd sy sh s of
        (Ok (Some qe), s1) \<Rightarrow>
          (case shovey_save (w_now wd) (sh\<lparr>sh_Status := qe_status qe\<rparr>) s1 of (sh1, s2) \<Rightarrow> (Errorf (qe_msg qe), sh1, s2))
      | (Ok None, s1) \<Rightarrow>
          (case shovey_save (w_now wd) (sh\<lparr>sh_Status := ''running''\<rparr>) s1 of (sh1, s2) \<Rightarrow> (Ok (), sh1, s2))
      | (Err e, s1) \<Rightarrow> (Err e, sh, s1)
      | (Panic, s1) \<Rightarrow> (Panic, sh, s1))"

text \<open>An acknowledgement: the run is read and its time set, and it is saved by another goroutine.\<close>

definition ack_read :: "int \<Rightarrow> shovey \<Rightarrow> string \<Rightarrow> server \<Rightarrow> shovey_run option" where
  "ack_read now sh a s =
     (if a = [] then None else (case GetRun sh a s of Ok sr \<Rightarrow> Some (sr\<lparr>sr_AckTime := now\<rparr>) | _ \<Rightarrow> None))"

subsection \<open>Updates by the nodes\<close>

definition intify :: "gval \<Rightarrow> int option" where
  "intify v = (case v of GNum t \<Rightarrow> (case ParseInt10 t of (j, None) \<Rightarrow> Some j | _ \<Rightarrow> None) | _ \<Rightarrow> None)"

definition run_update :: "int \<Rightarrow> gobj \<Rightarrow> shovey_run \<Rightarrow> shovey_run" where
  "run_update now srData sr =
     (let sr1 = (case gget srData ''status'' of
                   GStr st \<Rightarrow>
                     (if st \<in> {''invalid'', ''succeeded'', ''failed'', ''nacked''} then sr\<lparr>sr_EndTime := now, sr_Status := st\<rparr>
                      else sr\<lparr>sr_Status := st\<rparr>)
                 | _ \<Rightarrow> sr);
          sr2 = (case gget srData ''error'' of GStr e \<Rightarrow> sr1\<lparr>sr_Error := e\<rparr> | _ \<Rightarrow> sr1)
      in case intify (gget srData ''exit_status'') of Some x \<Rightarrow> sr2\<lparr>sr_ExitStatus := word_of_int x\<rparr> | None \<Rightarrow> sr2)"

definition run_UpdateFromJSON :: "int \<Rightarrow> gobj \<Rightarrow> shovey_run \<Rightarrow> server \<Rightarrow> server" where
  "run_UpdateFromJSON now srData sr s =
     (let sr1 = run_update now srData sr; s1 = run_save sr1 s
      in s1\<lparr>srv_notified := srv_notified s1 @ [sr_ShoveyUUID sr1]\<rparr>)"

definition stream_key :: "shovey_run \<Rightarrow> string \<Rightarrow> int \<Rightarrow> string" where
  "stream_key sr outputType seq = sr_ShoveyUUID sr @ ''_'' @ sr_NodeName sr @ ''_'' @ outputType @ ''_'' @ string_of_int seq"

definition AddStreamOutput :: "int \<Rightarrow> string \<Rightarrow> string \<Rightarrow> int \<Rightarrow> bool \<Rightarrow> shovey_run \<Rightarrow> server \<Rightarrow> unit outcome \<times> server" where
  "AddStreamOutput now output outputType seq isLast sr s =
     (if srv_Get ''shovey_run_stream'' s (stream_key sr outputType seq) \<noteq> None then
        (ErrorS (''sequence '' @ string_of_int seq @ '' for '' @ sr_ShoveyUUID sr @ '' - '' @ sr_NodeName sr @ '' already exists'')
           StatusConflict, s)
      else
        (Ok (), srv_Set ''shovey_run_stream'' (stream_key sr outputType seq)
           (VShoveyStream \<lparr>ss_ShoveyUUID = sr_ShoveyUUID sr, ss_NodeName = sr_NodeName sr, ss_Seq = seq, ss_OutputType = outputType,
              ss_Output = output, ss_IsLast = isLast, ss_CreatedAt = now\<rparr>) s))"

text \<open>The loop of \<open>GetStreamOutput\<close> runs until a number is missing.\<close>

partial_function (option) stream_loop :: "shovey_run \<Rightarrow> string \<Rightarrow> server \<Rightarrow> int \<Rightarrow> shovey_stream list outcome option" where
  "stream_loop sr outputType s i =
     (case srv_Get ''shovey_run_stream'' s (stream_key sr outputType i) of
        None \<Rightarrow> Some (Ok [])
      | Some (VShoveyStream st) \<Rightarrow>
          Option.bind (stream_loop sr outputType s (int64_inc i)) (\<lambda>r. Some (outcome_bind r (\<lambda>sts. Ok (st # sts))))
      | Some _ \<Rightarrow> Some Panic)"

definition GetStreamOutput :: "string \<Rightarrow> int \<Rightarrow> shovey_run \<Rightarrow> server \<Rightarrow> shovey_stream list outcome option" where
  "GetStreamOutput outputType seq sr s = stream_loop sr outputType s seq"

definition by_seq :: "shovey_stream \<Rightarrow> shovey_stream \<Rightarrow> bool" where
  "by_seq a b \<longleftrightarrow> ss_Seq a < ss_Seq b"

definition CombineStreamOutput :: "string \<Rightarrow> int \<Rightarrow> shovey_run \<Rightarrow> server \<Rightarrow> string outcome option" where
  "CombineStreamOutput outputType seq sr s =
     map_option (\<lambda>r. outcome_bind r (\<lambda>sts. Ok (concat (map ss_Output (sort_by by_seq sts))))) (GetStreamOutput outputType seq sr s)"

subsection \<open>JSON\<close>

definition json_time :: "world \<Rightarrow> int \<Rightarrow> gval" where
  "json_time wd t = GStr (w_format wd ''2006-01-02T15:04:05.999999999Z07:00'' t)"

definition nodes_by_status :: "shovey_run list \<Rightarrow> (string \<times> string list) list" where
  "nodes_by_status srs =
     fold (\<lambda>sr m. aput (sr_Status sr) ((case map_of m (sr_Status sr) of None \<Rightarrow> [] | Some l \<Rightarrow> l) @ [sr_NodeName sr]) m) srs []"

definition shovey_ToJSON :: "world \<Rightarrow> shovey \<Rightarrow> server \<Rightarrow> gobj outcome" where
  "shovey_ToJSON wd sh s =
     outcome_bind (GetNodeRuns sh s) (\<lambda>srs.
       Ok [(''id'', GStr (sh_RunID sh)), (''command'', GStr (sh_Command sh)), (''run_timeout'', GNum (string_of_int (sh_Timeout sh))),
           (''status'', GStr (sh_Status sh)), (''created_at'', json_time wd (sh_CreatedAt sh)),
           (''updated_at'', json_time wd (sh_UpdatedAt sh)), (''nodes'', GStrsMap (nodes_by_status srs))])"

definition run_ToJSON :: "world \<Rightarrow> shovey_run \<Rightarrow> server \<Rightarrow> gobj outcome option" where
  "run_ToJSON wd sr s =
     Option.bind (CombineStreamOutput ''stdout'' 0 sr s) (\<lambda>out.
     Option.bind (CombineStreamOutput ''stderr'' 0 sr s) (\<lambda>err.
       Some (outcome_bind out (\<lambda>o1. outcome_bind err (\<lambda>e1.
         Ok [(''run_id'', GStr (sr_ShoveyUUID sr)), (''node_name'', GStr (sr_NodeName sr)), (''status'', GStr (sr_Status sr)),
             (''ack_time'', json_time wd (sr_AckTime sr)), (''end_time'', json_time wd (sr_EndTime sr)),
             (''error'', GStr (sr_Error sr)), (''exit_status'', GNum (string_of_int (uint (sr_ExitStatus sr)))),
             (''output'', GStr o1), (''stderr'', GStr e1)])))))"

subsection \<open>Import and export\<close>

definition assert_string :: "gval \<Rightarrow> string outcome" where
  "assert_string v = (case v of GStr t \<Rightarrow> Ok t | _ \<Rightarrow> Panic)"

fun assert_strings :: "gval list \<Rightarrow> string list outcome" where
  "assert_strings [] = Ok []"
| "assert_strings (v # vs) = outcome_bind (assert_string v) (\<lambda>t. outcome_bind (assert_strings vs) (\<lambda>ts. Ok (t # ts)))"

definition assert_array :: "gval \<Rightarrow> gval list outcome" where
  "assert_array v = (case v of GArr l \<Rightarrow> Ok l | _ \<Rightarrow> Panic)"

definition int_or_zero :: "gval \<Rightarrow> int" where
  "int_or_zero v = (case intify v of Some j \<Rightarrow> j | None \<Rightarrow> 0)"

text \<open>A time that cannot be parsed is no error of \<open>ImportShovey\<close>: it returns without storing.\<close>

definition ImportShovey :: "world \<Rightarrow> gobj \<Rightarrow> server \<Rightarrow> server outcome" where
  "ImportShovey wd m s =
     outcome_bind (assert_string (gget m ''id'')) (\<lambda>runID.
     outcome_bind (outcome_bind (assert_array (gget m ''nodes'')) assert_strings) (\<lambda>nodeNames.
     outcome_bind (assert_string (gget m ''command'')) (\<lambda>command.
     outcome_bind (assert_string (gget m ''created_at'')) (\<lambda>ca.
     case w_ParseTime wd rfc3339 ca of
       Ok createdAt \<Rightarrow>
         outcome_bind (assert_string (gget m ''updated_at'')) (\<lambda>ua.
         case w_ParseTime wd rfc3339 ua of
           Ok updatedAt \<Rightarrow>
             outcome_bind (assert_string (gget m ''status'')) (\<lambda>st.
             outcome_bind (assert_string (gget m ''quorum'')) (\<lambda>quorum.
               Ok (srv_Set ''shovey'' runID (VShovey \<lparr>sh_RunID = runID, sh_NodeNames = nodeNames, sh_Command = command,
                 sh_CreatedAt = createdAt, sh_UpdatedAt = updatedAt, sh_Status = st, sh_Timeout = int_or_zero (gget m ''timeout''),
                 sh_Quorum = quorum\<rparr>) s)))
         | _ \<Rightarrow> Ok s)
     | _ \<Rightarrow> Ok s))))"

definition opt_time :: "world \<Rightarrow> gval \<Rightarrow> int outcome" where
  "opt_time wd v = (case v of GStr t \<Rightarrow> w_ParseTime wd rfc3339 t | _ \<Rightarrow> Ok zero_time)"

definition ImportShoveyRun :: "world \<Rightarrow> gobj \<Rightarrow> server \<Rightarrow> server outcome" where
  "ImportShoveyRun wd m s =
     outcome_bind (assert_string (gget m ''run_id'')) (\<lambda>uuid.
     outcome_bind (assert_string (gget m ''node_name'')) (\<lambda>nodeName.
     outcome_bind (assert_string (gget m ''status'')) (\<lambda>st.
     outcome_bind (opt_time wd (gget m ''ack_time'')) (\<lambda>ackTime.
     outcome_bind (opt_time wd (gget m ''end_time'')) (\<lambda>endTime.
     outcome_bind (assert_string (gget m ''error'')) (\<lambda>errMsg.
       Ok (run_save \<lparr>sr_ShoveyUUID = uuid, sr_NodeName = nodeName, sr_Status = st, sr_AckTime = ackTime, sr_EndTime = endTime,
         sr_Error = errMsg, sr_ExitStatus = word_of_int (int_or_zero (gget m ''exit_status''))\<rparr> s)))))))"

definition ImportShoveyRunStream :: "world \<Rightarrow> gobj \<Rightarrow> server \<Rightarrow> server outcome" where
  "ImportShoveyRunStream wd m s =
     outcome_bind (assert_string (gget m ''ShoveyUUID'')) (\<lambda>uuid.
     outcome_bind (assert_string (gget m ''NodeName'')) (\<lambda>nodeName.
     outcome_bind (assert_string (gget m ''OutputType'')) (\<lambda>outputType.
     outcome_bind (assert_string (gget m ''Output'')) (\<lambda>output.
     outcome_bind (case gget m ''IsLast'' of GBool b \<Rightarrow> Ok b | _ \<Rightarrow> Panic) (\<lambda>isLast.
     outcome_bind (assert_string (gget m ''CreatedAt'')) (\<lambda>ca.
     outcome_bind (w_ParseTime wd rfc3339 ca) (\<lambda>createdAt.
     let seq = int_or_zero (gget m ''Seq'')
     in Ok (srv_Set ''shovey_run_stream'' (uuid @ ''_'' @ nodeName @ ''_'' @ outputType @ ''_'' @ string_of_int seq)
          (VShoveyStream \<lparr>ss_ShoveyUUID = uuid, ss_NodeName = nodeName, ss_Seq = seq, ss_OutputType = outputType, ss_Output = output,
             ss_IsLast = isLast, ss_CreatedAt = createdAt\<rparr>) s))))))))"

fun streams_of :: "(shovey_run \<times> string) list \<Rightarrow> server \<Rightarrow> shovey_stream list outcome option" where
  "streams_of [] s = Some (Ok [])"
| "streams_of ((sr, t) # rest) s =
     Option.bind (GetStreamOutput t 0 sr s) (\<lambda>r. Option.bind (streams_of rest s) (\<lambda>r2.
       Some (outcome_bind r (\<lambda>a. outcome_bind r2 (\<lambda>b. Ok (a @ b))))))"

definition AllShoveyRunStreams :: "server \<Rightarrow> shovey_stream list outcome option" where
  "AllShoveyRunStreams s =
     (case AllShoveyRuns s of
        Ok srs \<Rightarrow> streams_of (concat (map (\<lambda>sr. [(sr, ''stdout''), (sr, ''stderr'')]) srs)) s
      | Err e \<Rightarrow> Some (Err e)
      | Panic \<Rightarrow> Some Panic)"

end
