(* ===== verification/ShoveyHandlers.thy ===== *)
theory ShoveyHandlers
  imports Shovey
begin

text \<open>
  \<^verbatim>\<open>shovey.go\<close>: the handler of jobs and of their output.
\<close>

text \<open>A step that may never return.\<close>

definition attempt_or_hang ::
  "'a outcome option \<Rightarrow> server \<Rightarrow> (gerror \<Rightarrow> reply \<times> server) \<Rightarrow> ('a \<Rightarrow> reply \<times> server) \<Rightarrow> reply \<times> server" where
  "attempt_or_hang res s failed continue = (case res of None \<Rightarrow> (Hang, s) | Some r \<Rightarrow> attempt r s failed continue)"

abbreviation report_gerror :: "server \<Rightarrow> gerror \<Rightarrow> reply \<times> server" where
  "report_gerror s e \<equiv> reply_error (msg e) (status e) new_response s"

definition job_get :: "world \<Rightarrow> string list \<Rightarrow> server \<Rightarrow> reply \<times> server" where
  "job_get wd pathArray s =
     (if length pathArray = 4 then
        attempt (shovey_Get (pathArray ! 2) s) s (report_gerror s) (\<lambda>shove.
        attempt (GetRun shove (pathArray ! 3) s) s (report_gerror s) (\<lambda>sj.
        attempt_or_hang (run_ToJSON wd sj s) s (report_gerror s) (\<lambda>j. reply_json (GMap j) new_response s)))
      else if length pathArray = 3 then
        attempt (shovey_Get (pathArray ! 2) s) s (report_gerror s) (\<lambda>shove.
        attempt (shovey_ToJSON wd shove s) s (report_gerror s) (\<lambda>j. reply_json (GMap j) new_response s))
      else reply_json (GStrs (AllShoveyIDs s)) new_response s)"

definition job_timeout :: "gval \<Rightarrow> int" where
  "job_timeout v = (case v of GNum t \<Rightarrow> fst (ParseInt10 t) | _ \<Rightarrow> 300)"

definition job_start :: "world \<Rightarrow> shoveylib \<Rightarrow> gobj \<Rightarrow> string list \<Rightarrow> server \<Rightarrow> reply \<times> server" where
  "job_start wd sy shvData nodeNames s =
     attempt (assert_string (gget shvData ''command'')) s (report_gerror s) (\<lambda>command.
       case shovey_New wd command (job_timeout (gget shvData ''run_timeout''))
              (case gget shvData ''quorum'' of GStr q \<Rightarrow> q | _ \<Rightarrow> ''100%'') nodeNames s of
         (r, s1) \<Rightarrow>
           attempt r s1 (report_gerror s1) (\<lambda>sh.
             case Start wd sy sh s1 of
               (r2, sh2, s2) \<Rightarrow>
                 attempt r2 s2 (report_gerror s2) (\<lambda>_.
                   reply_json (GMap [(''id'', GStr (sh_RunID sh2)),
                                      (''uri'', GStr (CustomURL wd (''/shovey/jobs/'' @ sh_RunID sh2)))]) new_response s2)))"

definition job_post :: "world \<Rightarrow> shoveylib \<Rightarrow> request \<Rightarrow> string list \<Rightarrow> server \<Rightarrow> reply \<times> server" where
  "job_post wd sy r pathArray s =
     (if length pathArray \<noteq> 2 then reply_error ''Bad request'' StatusBadRequest new_response s
      else
        attempt (parseObjJSON r) s (\<lambda>e. reply_error (msg e) StatusBadRequest new_response s) (\<lambda>body.
          case gget (reads body) ''nodes'' of
            GArr shvNodes \<Rightarrow>
              (if shvNodes = [] then reply_error ''no nodes provided'' StatusBadRequest new_response s
               else attempt (assert_strings shvNodes) s (report_gerror s) (\<lambda>nodeNames. job_start wd sy (reads body) nodeNames s))
          | _ \<Rightarrow> reply_error ''node list not an array'' StatusBadRequest new_response s))"

text \<open>If cancelling single runs fails, the error that is reported is another one, a nil pointer.\<close>

definition job_cancel :: "world \<Rightarrow> shoveylib \<Rightarrow> gobj \<Rightarrow> server \<Rightarrow> reply \<times> server" where
  "job_cancel wd sy cancelData s =
     (case gget cancelData ''run_id'' of
        GStr runID \<Rightarrow>
          attempt (case gget cancelData ''nodes'' of GArr nn \<Rightarrow> assert_strings nn | _ \<Rightarrow> Ok []) s (report_gerror s) (\<lambda>nodeNames.
          attempt (shovey_Get runID s) s (report_gerror s) (\<lambda>shove.
            let (r, sh1, s1) = (if nodeNames \<noteq> [] then CancelRuns wd sy nodeNames shove s else Cancel wd sy shove s)
            in attempt r s1 (if nodeNames \<noteq> [] then (\<lambda>_. (Crash, s1)) else report_gerror s1) (\<lambda>_.
               attempt (shovey_ToJSON wd sh1 s1) s1 (report_gerror s1) (\<lambda>j. reply_json (GMap j) new_response s1))))
      | _ \<Rightarrow> reply_error ''No shovey run ID provided, or provided id was invalid'' StatusBadRequest new_response s)"

definition job_put :: "world \<Rightarrow> shoveylib \<Rightarrow> request \<Rightarrow> string list \<Rightarrow> server \<Rightarrow> reply \<times> server" where
  "job_put wd sy r pathArray s =
     (if length pathArray = 3 then
        (if pathArray ! 2 \<noteq> ''cancel'' then reply_error ''Bad request'' StatusBadRequest new_response s
         else attempt (parseObjJSON r) s (\<lambda>e. reply_error (msg e) StatusBadRequest new_response s) (\<lambda>body. job_cancel wd sy (reads body) s))
      else if length pathArray = 4 then
        attempt (parseObjJSON r) s (\<lambda>e. reply_error (msg e) StatusBadRequest new_response s) (\<lambda>body.
        attempt (shovey_Get (pathArray ! 2) s) s (report_gerror s) (\<lambda>shove.
        attempt (GetRun shove (pathArray ! 3) s) s (report_gerror s) (\<lambda>sj.
          reply_json (GMap [(''id'', GStr (sh_RunID shove)), (''node'', GStr (pathArray ! 3)), (''response'', GStr ''ok'')]) new_response
            (run_UpdateFromJSON (w_now wd) (reads body) sj s))))
      else reply_error ''Bad request'' StatusBadRequest new_response s)"

definition jobs_handler :: "world \<Rightarrow> shoveylib \<Rightarrow> request \<Rightarrow> string list \<Rightarrow> server \<Rightarrow> reply \<times> server" where
  "jobs_handler wd sy r pathArray s =
     (case r_Method r of
        MethodHead \<Rightarrow>
          attempt (path_elem pathArray 2) s (report_gerror s) (\<lambda>i. (headChecking (shovey_DoesExist i s) nilPermCheck new_response, s))
      | MethodGet \<Rightarrow> job_get wd pathArray s
      | MethodPost \<Rightarrow> job_post wd sy r pathArray s
      | MethodPut \<Rightarrow> job_put wd sy r pathArray s
      | _ \<Rightarrow> reply_error ''Unrecognized method'' StatusMethodNotAllowed new_response s)"

definition form_sequence :: "request \<Rightarrow> int outcome" where
  "form_sequence r =
     (case map_of (r_Form r) ''sequence'' of
        None \<Rightarrow> Ok 0
      | Some [] \<Rightarrow> Panic
      | Some (v # _) \<Rightarrow>
          (case Atoi v of
             (i, None) \<Rightarrow> Ok i
           | (_, Some e) \<Rightarrow> Errorf (''strconv.Atoi: parsing '' @ [CHR 0x22] @ v @ [CHR 0x22] @ '': '' @ num_error_text e)))"

definition form_output_type :: "request \<Rightarrow> string outcome" where
  "form_output_type r =
     (case map_of (r_Form r) ''output_type'' of
        None \<Rightarrow> Ok ''stdout''
      | Some [] \<Rightarrow> Panic
      | Some (t # _) \<Rightarrow>
          (if t \<notin> {''stdout'', ''stderr'', ''both''} then Errorf (''output type must be 'stdout', 'stderr', or '' @ sq ''both'') else Ok t))"

definition stream_response :: "string \<Rightarrow> shovey_run \<Rightarrow> shovey_stream list \<Rightarrow> string \<Rightarrow> gobj" where
  "stream_response outType sj stream output =
     [(''run_id'', GStr (sr_ShoveyUUID sj)), (''node_name'', GStr (sr_NodeName sj)), (''output_type'', GStr outType),
      (''is_last'', GBool (stream \<noteq> [] \<and> ss_IsLast (last stream)))] @
     (if stream \<noteq> [] then [(''last_seq'', GNum (string_of_int (ss_Seq (last stream))))] else []) @
     [(''output'', GStr output)]"

definition stream_get :: "request \<Rightarrow> string list \<Rightarrow> server \<Rightarrow> reply \<times> server" where
  "stream_get r pathArray s =
     attempt (form_sequence r) s (\<lambda>e. reply_error (msg e) StatusBadRequest new_response s) (\<lambda>seq.
     attempt (form_output_type r) s (\<lambda>e. reply_error (msg e) StatusBadRequest new_response s) (\<lambda>outType.
     attempt (shovey_Get (pathArray ! 2) s) s (report_gerror s) (\<lambda>shove.
     attempt (GetRun shove (pathArray ! 3) s) s (report_gerror s) (\<lambda>sj.
     attempt_or_hang (GetStreamOutput outType seq sj s) s (report_gerror s) (\<lambda>stream.
     attempt_or_hang (CombineStreamOutput outType seq sj s) s (report_gerror s) (\<lambda>output.
       reply_json (GMap (stream_response outType sj stream output)) new_response s))))))"

definition stream_fields :: "gobj \<Rightarrow> (string \<times> string \<times> bool \<times> int) outcome" where
  "stream_fields d =
     outcome_bind (case gget d ''output'' of GStr t \<Rightarrow> Ok t | _ \<Rightarrow> Errorf ''invalid output'') (\<lambda>output.
     outcome_bind (case gget d ''output_type'' of GStr t \<Rightarrow> Ok t | _ \<Rightarrow> Errorf ''invalid output type'') (\<lambda>outputType.
     outcome_bind (case gget d ''is_last'' of GBool b \<Rightarrow> Ok b | _ \<Rightarrow> Errorf ''invalid is_last'') (\<lambda>isLast.
     outcome_bind (case gget d ''seq'' of GNum t \<Rightarrow> Ok (fst (ParseInt10 t)) | _ \<Rightarrow> Errorf ''invalid seq'') (\<lambda>seq.
       Ok (output, outputType, isLast, seq)))))"

definition stream_put :: "world \<Rightarrow> request \<Rightarrow> string list \<Rightarrow> server \<Rightarrow> reply \<times> server" where
  "stream_put wd r pathArray s =
     attempt (parseObjJSON r) s (\<lambda>e. reply_error (msg e) StatusBadRequest new_response s) (\<lambda>body.
     attempt (shovey_Get (pathArray ! 2) s) s (report_gerror s) (\<lambda>shove.
     attempt (GetRun shove (pathArray ! 3) s) s (report_gerror s) (\<lambda>sj.
     attempt (stream_fields (reads body)) s (report_gerror s) (\<lambda>(output, outputType, isLast, seq).
       case AddStreamOutput (w_now wd) output outputType seq isLast sj s of
         (res, s1) \<Rightarrow> attempt res s1 (report_gerror s1) (\<lambda>_. reply_json (GMap [(''response'', GStr ''ok'')]) new_response s1)))))"

definition stream_handler :: "world \<Rightarrow> request \<Rightarrow> string list \<Rightarrow> server \<Rightarrow> reply \<times> server" where
  "stream_handler wd r pathArray s =
     (if length pathArray \<noteq> 4 then reply_error ''Bad request'' StatusBadRequest new_response s
      else
        (case r_Method r of
           MethodHead \<Rightarrow> (Reply (headDefaultResponse new_response), s)
         | MethodGet \<Rightarrow> stream_get r pathArray s
         | MethodPut \<Rightarrow> stream_put wd r pathArray s
         | _ \<Rightarrow> reply_error ''Unrecognized method'' StatusMethodNotAllowed new_response s))"

definition shoveyHandler :: "conf \<Rightarrow> world \<Rightarrow> shoveylib \<Rightarrow> request \<Rightarrow> server \<Rightarrow> reply \<times> server" where
  "shoveyHandler cfg wd sy r s =
     with_opUser r s (\<lambda>opUser.
       if \<not> IsAdmin cfg opUser \<and> r_Method r \<noteq> MethodPut then
         reply_error ''you cannot perform this action'' StatusForbidden new_response s
       else if \<not> UseShovey cfg then reply_error ''shovey is not enabled'' StatusPreconditionFailed new_response s
       else
         (let pathArray = splitPath (r_Path r); n = length pathArray
          in if n < 2 \<or> 4 < n \<or> pathArray ! 1 = [] then reply_error ''Bad request'' StatusBadRequest new_response s
             else if pathArray ! 1 = ''jobs'' then jobs_handler wd sy r pathArray s
             else if pathArray ! 1 = ''stream'' then stream_handler wd r pathArray s
             else reply_error ''Unrecognized operation'' StatusBadRequest new_response s))"

end
