(* ===== verification/Server.thy ===== *)
theory Server
  imports Authentication ActorHandlers DataHandlers CookbookHandlers SearchHandlers ShoveyHandlers
begin

text \<open>
  \<^verbatim>\<open>goiardi.go\<close>: what happens to a request before a handler sees it (\<open>ServeHTTP\<close>), the routing of
  \<open>http.DefaultServeMux\<close>, \<open>listHandler\<close> of \<^verbatim>\<open>lists.go\<close>, and \<open>createDefaultActors\<close>.

  A \<open>service\<close> holds the configuration and what the server calls outside of its own code;
  \<open>sv_pprof\<close> is the answer of the profiler of the Go library.
\<close>

subsection \<open>Paths\<close>

definition cleanPath :: "string \<Rightarrow> string" where
  "cleanPath p =
     (if p = [] then ''/''
      else
        (let p1 = (if hd p \<noteq> CHR ''/'' then CHR ''/'' # p else p); np = path_Clean p1
         in if last p1 = CHR ''/'' \<and> np \<noteq> ''/'' then np @ ''/'' else np))"

definition has_prefix :: "string \<Rightarrow> string \<Rightarrow> bool" where
  "has_prefix p q \<longleftrightarrow> take (length q) p = q"

subsection \<open>Routing\<close>

datatype route =
  RAuthenticateUser | RList | RClient | RCookbook | RData | REnvironment | RNode | RPrincipal | RRole
  | RSandbox | RSearch | RReindex | RUser | RFileStore | REventList | REvent | RReport | RUniverse
  | RShovey | RStatus | RPprof | RRoot

definition patterns :: "(string \<times> route) list" where
  "patterns =
     [(''/authenticate_user'', RAuthenticateUser), (''/clients'', RList), (''/clients/'', RClient),
      (''/cookbooks'', RCookbook), (''/cookbooks/'', RCookbook), (''/data'', RData), (''/data/'', RData),
      (''/environments'', REnvironment), (''/environments/'', REnvironment), (''/nodes'', RList),
      (''/nodes/'', RNode), (''/principals/'', RPrincipal), (''/roles'', RList), (''/roles/'', RRole),
      (''/sandboxes'', RSandbox), (''/sandboxes/'', RSandbox), (''/search'', RSearch),
      (''/search/'', RSearch), (''/search/reindex'', RReindex), (''/users'', RList), (''/users/'', RUser),
      (''/file_store/'', RFileStore), (''/events'', REventList), (''/events/'', REvent),
      (''/reports/'', RReport), (''/universe'', RUniverse), (''/shovey/'', RShovey), (''/status/'', RStatus),
      (''/'', RRoot), (''/debug/pprof/'', RPprof), (''/debug/pprof/cmdline'', RPprof),
      (''/debug/pprof/profile'', RPprof), (''/debug/pprof/symbol'', RPprof), (''/debug/pprof/trace'', RPprof)]"

text \<open>An exact pattern, else the longest pattern that ends in a slash and starts the path.\<close>

definition subtree_match :: "string \<Rightarrow> string \<times> route \<Rightarrow> bool" where
  "subtree_match path = (\<lambda>(pat, _). last pat = CHR ''/'' \<and> has_prefix path pat)"

fun longest_pattern :: "(string \<times> route) list \<Rightarrow> (string \<times> route) option" where
  "longest_pattern [] = None"
| "longest_pattern (p # ps) =
     (case longest_pattern ps of
        None \<Rightarrow> Some p
      | Some q \<Rightarrow> if length (fst q) < length (fst p) then Some p else Some q)"

definition mux_match :: "string \<Rightarrow> route option" where
  "mux_match path =
     (case map_of patterns path of
        Some rt \<Rightarrow> Some rt
      | None \<Rightarrow> map_option snd (longest_pattern (filter (subtree_match path) patterns)))"

text \<open>A path without a pattern is redirected if a slash at its end gives one.\<close>

definition mux_redirect :: "string \<Rightarrow> bool" where
  "mux_redirect path \<longleftrightarrow>
     map_of patterns path = None \<and> path \<noteq> [] \<and> last path \<noteq> CHR ''/'' \<and> map_of patterns (path @ ''/'') \<noteq> None"

subsection \<open>lists.go: listHandler\<close>

definition listHandler :: "conf \<Rightarrow> world \<Rightarrow> crypto \<Rightarrow> request \<Rightarrow> server \<Rightarrow> reply \<times> server" where
  "listHandler cfg wd cr r s =
     (let op = hd (splitPath (r_Path r))
      in if r_Method r = MethodHead then
           (if op \<in> {''nodes'', ''clients'', ''users'', ''roles''} then (Reply (headDefaultResponse new_response), s)
            else (Reply (headResponse StatusInternalServerError new_response), s))
         else if op = ''nodes'' then nodeHandling cfg wd r s
         else if op = ''clients'' then clientHandling cfg wd cr r s
         else if op = ''users'' then userHandling cfg wd cr r s
         else if op = ''roles'' then roleHandling cfg wd r s
         else reply_json (GStrMap [(''huh'', ''not valid'')]) new_response s)"

subsection \<open>The environment of the server\<close>

record netlib =
  nl_SplitHostPort :: "string \<Rightarrow> string option"
  nl_ParseIP :: "string \<Rightarrow> string"
  nl_IsLoopback :: "string \<Rightarrow> bool"
  nl_Equal :: "string \<Rightarrow> string \<Rightarrow> bool"

record 'c service =
  sv_conf :: conf
  sv_world :: world
  sv_crypto :: crypto
  sv_auth :: authlib
  sv_versions :: "'c verlib"
  sv_net :: netlib
  sv_search :: searchlib
  sv_shovey :: shoveylib
  sv_pprof :: "request \<Rightarrow> response"

definition dispatch :: "'c service \<Rightarrow> route \<Rightarrow> request \<Rightarrow> server \<Rightarrow> reply \<times> server" where
  "dispatch sv rt r s =
     (let cfg = sv_conf sv; wd = sv_world sv; cr = sv_crypto sv
      in case rt of
           RAuthenticateUser \<Rightarrow> authenticateUserHandler cfg cr r s
         | RList \<Rightarrow> listHandler cfg wd cr r s
         | RClient \<Rightarrow> clientHandler cfg wd cr r s
         | RCookbook \<Rightarrow> cookbookHandler cfg wd r s
         | RData \<Rightarrow> dataHandler cfg wd r s
         | REnvironment \<Rightarrow> environmentHandler cfg (sv_versions sv) wd r s
         | RNode \<Rightarrow> nodeHandler cfg wd r s
         | RPrincipal \<Rightarrow> principalHandler cfg r s
         | RRole \<Rightarrow> roleHandler cfg wd r s
         | RSandbox \<Rightarrow> sandboxHandler cfg wd r s
         | RUser \<Rightarrow> userHandler cfg wd cr r s
         | RFileStore \<Rightarrow> fileStoreHandler wd r s
         | REventList \<Rightarrow> eventListHandler cfg wd r s
         | REvent \<Rightarrow> eventHandler cfg wd r s
         | RUniverse \<Rightarrow> universeHandler wd r s
         | RStatus \<Rightarrow> statusHandler cfg wd r s
         | RPprof \<Rightarrow> (Reply (sv_pprof sv r), s)
         | RRoot \<Rightarrow> (Reply new_response, s)
         | RSearch \<Rightarrow> searchHandler cfg wd (sv_search sv) r s
         | RReindex \<Rightarrow> reindexHandler cfg r s
         | RReport \<Rightarrow> reportHandler cfg wd r s
         | RShovey \<Rightarrow> shoveyHandler cfg wd (sv_shovey sv) r s)"

definition mux_ServeHTTP :: "'c service \<Rightarrow> request \<Rightarrow> server \<Rightarrow> reply \<times> server" where
  "mux_ServeHTTP sv r s =
     (if mux_redirect (r_Path r) then (Reply (WriteHeader 301 new_response), s)
      else
        (case mux_match (r_Path r) of
           None \<Rightarrow> (Reply (http_Error ''404 page not found'' StatusNotFound new_response), s)
         | Some rt \<Rightarrow> dispatch sv rt r s))"

subsection \<open>ServeHTTP\<close>

text \<open>What follows the last \<open>, \<close> of the header \<open>X-Forwarded-For\<close>.\<close>

fun last_forwarded :: "string \<Rightarrow> string \<Rightarrow> string" where
  "last_forwarded acc [] = acc"
| "last_forwarded acc [c] = acc @ [c]"
| "last_forwarded acc (c # d # cs) =
     (if c = CHR '','' \<and> d = CHR '' '' then last_forwarded [] cs else last_forwarded (acc @ [c]) (d # cs))"

definition PprofWhitelisted :: "conf \<Rightarrow> netlib \<Rightarrow> string \<Rightarrow> bool" where
  "PprofWhitelisted cfg nl remoteIP = list_ex (nl_Equal nl remoteIP) (PprofWhitelist cfg)"

definition debug_blocked :: "conf \<Rightarrow> netlib \<Rightarrow> request \<Rightarrow> bool" where
  "debug_blocked cfg nl r =
     (case nl_SplitHostPort nl (r_RemoteAddr r) of
        None \<Rightarrow> True
      | Some remoteIP \<Rightarrow>
          (let rIP = nl_ParseIP nl remoteIP; xFIP = nl_ParseIP nl (last_forwarded [] (header_Get r ''X-Forwarded-For''))
           in \<not> nl_IsLoopback nl rIP \<and> \<not> nl_IsLoopback nl xFIP \<and>
              \<not> PprofWhitelisted cfg nl rIP \<and> \<not> PprofWhitelisted cfg nl xFIP))"

definition StatusRequestEntityTooLarge :: int where "StatusRequestEntityTooLarge = 413"

definition auth_exempt :: "request \<Rightarrow> bool" where
  "auth_exempt r \<longleftrightarrow>
     has_prefix (r_Path r) ''/file_store'' \<or> has_prefix (r_Path r) ''/debug'' \<or>
     has_prefix (r_Path r) ''/principals'' \<and> r_Method r = MethodGet"

definition noOpUserReqs :: "string list" where
  "noOpUserReqs = [''/authenticate_user'', ''/file_store'', ''/universe'', ''/principals'', ''/debug'']"

text \<open>The end of \<open>ServeHTTP\<close>: unpack the body, find the actor, and go to the handler.\<close>

definition serve_authenticated :: "'c service \<Rightarrow> request \<Rightarrow> server \<Rightarrow> reply \<times> server" where
  "serve_authenticated sv r s =
     (case (if header_Get r ''Content-Encoding'' = ''gzip'' then r_GzipError r else None) of
        Some err \<Rightarrow> reply_error (msg err) StatusBadRequest new_response s
      | None \<Rightarrow>
          (if list_ex (has_prefix (r_Path r)) noOpUserReqs then mux_ServeHTTP sv (r\<lparr>r_OpUser := None\<rparr>) s
           else attempt (GetReqUser (sv_conf sv) (header_Get r ''X-Ops-Userid'') s) s
                  (\<lambda>oerr. reply_error (msg oerr) (status oerr) new_response s)
                  (\<lambda>opUser. mux_ServeHTTP sv (r\<lparr>r_OpUser := Some opUser\<rparr>) s)))"

text \<open>The name under which a request has to be signed: the web interface signs for everybody.\<close>

definition signer :: "request \<Rightarrow> string" where
  "signer r =
     (if header_Get r ''X-Ops-Request-Source'' = ''web'' then ''chef-webui'' else header_Get r ''X-Ops-Userid'')"

definition serve_clean :: "'c service \<Rightarrow> request \<Rightarrow> server \<Rightarrow> reply \<times> server" where
  "serve_clean sv r s =
     (let cfg = sv_conf sv
      in if \<not> has_prefix (r_Path r) ''/file_store'' \<and> JSONReqMaxSize cfg < r_ContentLength r then
           (Reply (http_Error ''Content-length too long!'' StatusRequestEntityTooLarge new_response), s)
         else if ObjMaxSize cfg < r_ContentLength r then
           (Reply (http_Error ''Content-length waaaaaay too long!'' StatusRequestEntityTooLarge new_response), s)
         else if header_Get r ''X-Ops-Request-Source'' = ''web'' \<and>
                 (DisableWebUI cfg \<or> (case GetReqUser cfg (header_Get r ''X-Ops-Userid'') s of Err _ \<Rightarrow> True | _ \<Rightarrow> False))
         then reply_error ''invalid action'' StatusUnauthorized new_response s
         else if UseAuth cfg \<and> \<not> auth_exempt r then
           attempt (CheckHeader cfg (sv_auth sv) (w_now (sv_world sv)) (signer r) r s) s
             (\<lambda>herr. reply_error (msg herr) (status herr) new_response s)
             (\<lambda>_. serve_authenticated sv r s)
         else serve_authenticated sv r s)"

definition clean_request :: "request \<Rightarrow> request" where
  "clean_request r = (if r_Method r = MethodOther ''CONNECT'' then r else r\<lparr>r_Path := cleanPath (r_Path r)\<rparr>)"

definition ServeHTTP :: "'c service \<Rightarrow> request \<Rightarrow> server \<Rightarrow> reply \<times> server" where
  "ServeHTTP sv r s =
     (if has_prefix (r_Path r) ''/debug'' \<and> debug_blocked (sv_conf sv) (sv_net sv) r then
        (Reply (http_Error ''Forbidden!'' StatusForbidden new_response), s)
      else serve_clean sv (clean_request r) s)"


subsection \<open>createDefaultActors\<close>

text \<open>The clients and the user that a new server starts with. \<open>create\<close> is the result of creating
  the file that takes the private key of an actor; an error of any step ends the process, which
  is \<open>Err\<close> here. The result of saving a client is not looked at.\<close>

definition default_client ::
  "conf \<Rightarrow> crypto \<Rightarrow> (string \<Rightarrow> gerror option) \<Rightarrow> string \<Rightarrow> (client \<Rightarrow> client) \<Rightarrow> server \<Rightarrow> server outcome" where
  "default_client cfg cr create name rights s =
     (case client_Get name s of
        Ok _ \<Rightarrow> Ok s
      | Panic \<Rightarrow> Panic
      | Err _ \<Rightarrow>
          outcome_bind (client_New name s) (\<lambda>c.
            (case client_GenerateKeys cr (rights c) of
               (Ok pem, c1) \<Rightarrow>
                 (case (if UseAuth cfg then create (cl_Name c1) else None) of
                    Some ferr \<Rightarrow> Err ferr
                  | None \<Rightarrow> Ok (snd (client_Save c1 s)))
             | (Err e, _) \<Rightarrow> Err e
             | (Panic, _) \<Rightarrow> Panic)))"

definition default_admin :: "conf \<Rightarrow> crypto \<Rightarrow> (string \<Rightarrow> gerror option) \<Rightarrow> server \<Rightarrow> server outcome" where
  "default_admin cfg cr create s =
     (case user_Get ''admin'' s of
        Ok _ \<Rightarrow> Ok s
      | Panic \<Rightarrow> Panic
      | Err _ \<Rightarrow>
          outcome_bind (user_New cr ''admin'' s) (\<lambda>u.
            (case user_GenerateKeys cr (u\<lparr>us_Admin := True\<rparr>) of
               (Ok pem, u1) \<Rightarrow>
                 (case (if UseAuth cfg then create (us_Name u1) else None) of
                    Some ferr \<Rightarrow> Err ferr
                  | None \<Rightarrow>
                      (case user_Save u1 s of (Ok _, s1) \<Rightarrow> Ok s1 | (Err e, _) \<Rightarrow> Err e | (Panic, _) \<Rightarrow> Panic))
             | (Err e, _) \<Rightarrow> Err e
             | (Panic, _) \<Rightarrow> Panic)))"

definition createDefaultActors :: "conf \<Rightarrow> crypto \<Rightarrow> (string \<Rightarrow> gerror option) \<Rightarrow> server \<Rightarrow> server outcome" where
  "createDefaultActors cfg cr create s =
     outcome_bind (default_client cfg cr create ''chef-webui'' (\<lambda>c. c\<lparr>cl_Admin := True\<rparr>) s) (\<lambda>s1.
     outcome_bind (default_client cfg cr create ''chef-validator'' (\<lambda>c. c\<lparr>cl_Validator := True\<rparr>) s1) (\<lambda>s2.
     outcome_bind (default_admin cfg cr create s2) (\<lambda>s3. Ok (MakeDefaultEnvironment s3))))"

end
