(* ===== verification/Jobs.thy ===== *)
theory Jobs
  imports ShoveyHandlers
begin

text \<open>
  What jobs do: starting a job, collecting the output of its runs, the quorum, and what goes wrong
  when an acknowledgement is late.
\<close>

lemma shovey_tables:
  "CHR '':'' \<notin> set ''shovey''" "CHR '':'' \<notin> set ''shovey_run''" "CHR '':'' \<notin> set ''shovey_run_stream''"
  by simp_all

lemma GetRun_run_save:
  "GetRun sh n (run_save sr s) = (if sr_ShoveyUUID sr @ sr_NodeName sr = sh_RunID sh @ n then Ok sr else GetRun sh n s)"
  by (simp add: GetRun_def run_save_def ds_Get_Set)

subsection \<open>Output\<close>

definition sent :: "int \<Rightarrow> string \<Rightarrow> shovey_run \<Rightarrow> string list \<Rightarrow> nat \<Rightarrow> shovey_stream" where
  "sent now t sr chunks i = \<lparr>ss_ShoveyUUID = sr_ShoveyUUID sr, ss_NodeName = sr_NodeName sr, ss_Seq = int i, ss_OutputType = t,
     ss_Output = chunks ! i, ss_IsLast = (Suc i = length chunks), ss_CreatedAt = now\<rparr>"

text \<open>The chunks of an output arrive in some order.\<close>

definition send :: "int \<Rightarrow> string \<Rightarrow> shovey_run \<Rightarrow> string list \<Rightarrow> nat list \<Rightarrow> server \<Rightarrow> server" where
  "send now t sr chunks order s =
     fold (\<lambda>i s. snd (AddStreamOutput now (chunks ! i) t (int i) (Suc i = length chunks) sr s)) order s"

definition stream_at :: "shovey_run \<Rightarrow> string \<Rightarrow> server \<Rightarrow> int \<Rightarrow> dsval option" where
  "stream_at sr t s i = srv_Get ''shovey_run_stream'' s (stream_key sr t i)"

lemma string_of_int_inj: "string_of_int i = string_of_int j \<longleftrightarrow> i = j"
proof -
  have no: "string_of_nat n \<noteq> CHR ''-'' # t" for n t
    using string_of_nat_digits [of n] by (auto simp: is_digit_def)
  show ?thesis
    using no [of "nat i"] no [of "nat j"] no [of "nat i", symmetric] no [of "nat j", symmetric]
    by (auto simp: string_of_int_def dest!: string_of_nat_inj split: if_splits)
qed

lemma stream_key_inj [simp]: "stream_key sr t i = stream_key sr t j \<longleftrightarrow> i = j"
  by (auto simp: stream_key_def string_of_int_inj)

lemma stream_at_Add:
  assumes "stream_at sr t s (int i) = None"
  shows "AddStreamOutput now (chunks ! i) t (int i) (Suc i = length chunks) sr s =
      (Ok (), snd (AddStreamOutput now (chunks ! i) t (int i) (Suc i = length chunks) sr s))"
    "stream_at sr t (snd (AddStreamOutput now (chunks ! i) t (int i) (Suc i = length chunks) sr s)) =
      (stream_at sr t s)(int i \<mapsto> VShoveyStream (sent now t sr chunks i))"
  using assms by (auto simp: AddStreamOutput_def ds_Get_Set fun_eq_iff sent_def stream_at_def)

lemma stream_at_send:
  assumes "distinct order" "\<And>i. i \<in> set order \<Longrightarrow> stream_at sr t s (int i) = None"
  shows "stream_at sr t (send now t sr chunks order s) =
    (\<lambda>j. if 0 \<le> j \<and> nat j \<in> set order then Some (VShoveyStream (sent now t sr chunks (nat j))) else stream_at sr t s j)"
  using assms
proof (induction order arbitrary: s)
  case (Cons i order)
  let ?s1 = "snd (AddStreamOutput now (chunks ! i) t (int i) (Suc i = length chunks) sr s)"
  note at = stream_at_Add(2) [OF Cons.prems(2) [of i], of now chunks]
  have "stream_at sr t ?s1 (int j) = None" if "j \<in> set order" for j
    using Cons.prems that by (auto simp: at)
  from Cons.IH [OF _ this] Cons.prems(1) at show ?case
    by (auto simp: send_def fun_eq_iff)
qed (simp add: send_def)

lemma stream_loop_reads:
  assumes "k \<le> n" "int n < 2 ^ 63" "\<And>i. k \<le> i \<Longrightarrow> i < n \<Longrightarrow> stream_at sr t s (int i) = Some (VShoveyStream (f i))"
    "stream_at sr t s (int n) = None"
  shows "stream_loop sr t s (int k) = Some (Ok (map f [k..<n]))"
  using assms(1,3)
proof (induction rule: inc_induct)
  case base
  show ?case using assms(4) by (subst stream_loop.simps) (simp add: stream_at_def)
next
  case (step k)
  have "int64_inc (int k) = int (Suc k)" using step.hyps assms(2) by (simp add: int64_inc_def)
  then show ?case using step by (subst stream_loop.simps) (simp add: upt_rec [of k] stream_at_def)
qed

lemma insort_by_first: "list_all (\<lambda>y. \<not> lt y x) ys \<Longrightarrow> insort_by lt x ys = x # ys"
  by (cases ys) auto

lemma sort_by_seq: "sort_by by_seq (map (sent now t sr chunks) [k..<n]) = map (sent now t sr chunks) [k..<n]"
proof (induction "n - k" arbitrary: k)
  case (Suc d)
  then have k: "k < n" and IH: "sort_by by_seq (map (sent now t sr chunks) [Suc k..<n]) = map (sent now t sr chunks) [Suc k..<n]" by auto
  have "list_all (\<lambda>y. \<not> by_seq y (sent now t sr chunks k)) (map (sent now t sr chunks) [Suc k..<n])"
    by (auto simp: list_all_iff by_seq_def sent_def)
  then show ?case using IH by (simp add: upt_rec [of k] k sort_by_def insort_by_first)
qed (simp add: sort_by_def)

text \<open>\<^bold>\<open>C19\<close>. However the chunks of an output arrive, each once: all are accepted, and reading the output
  from a number on gives the chunks from there on, put together in their order.\<close>

theorem output_put_together:
  assumes "distinct order" "set order = {..<length chunks}" "int (length chunks) < 2 ^ 63"
    "\<And>i. srv_Get ''shovey_run_stream'' s (stream_key sr t i) = None" "k \<le> length chunks"
  shows "CombineStreamOutput t (int k) sr (send now t sr chunks order s) = Some (Ok (concat (drop k chunks))) \<and>
    (order = is @ i # js \<longrightarrow>
       fst (AddStreamOutput now (chunks ! i) t (int i) (Suc i = length chunks) sr (send now t sr chunks is s)) = Ok ())"
proof
  let ?s = "send now t sr chunks order s" and ?n = "length chunks"
  have at: "stream_at sr t ?s = (\<lambda>j. if 0 \<le> j \<and> nat j < ?n then Some (VShoveyStream (sent now t sr chunks (nat j))) else None)"
    using stream_at_send [OF assms(1), of sr t s now chunks] assms(2,4) by (auto simp: fun_eq_iff stream_at_def [of sr t s])
  have "stream_loop sr t ?s (int k) = Some (Ok (map (sent now t sr chunks) [k..<?n]))"
    by (rule stream_loop_reads [OF assms(5,3)]) (simp_all add: at)
  moreover have "map ss_Output (map (sent now t sr chunks) [k..<?n]) = drop k chunks"
    by (rule nth_equalityI) (simp_all add: sent_def)
  ultimately show "CombineStreamOutput t (int k) sr ?s = Some (Ok (concat (drop k chunks)))"
    by (simp add: CombineStreamOutput_def GetStreamOutput_def sort_by_seq del: map_map)
  show "order = is @ i # js \<longrightarrow>
      fst (AddStreamOutput now (chunks ! i) t (int i) (Suc i = length chunks) sr (send now t sr chunks is s)) = Ok ()"
  proof
    assume o: "order = is @ i # js"
    then have "stream_at sr t (send now t sr chunks is s) (int i) = None"
      using stream_at_send [of "is" sr t s now chunks] assms(1,4) by (simp add: stream_at_def [of sr t s])
    from stream_at_Add(1) [OF this] show "fst (AddStreamOutput now (chunks ! i) t (int i) (Suc i = length chunks) sr (send now t sr chunks is s)) = Ok ()"
      by (metis fst_conv)
  qed
qed

definition example_run_of :: shovey_run where
  "example_run_of = \<lparr>sr_ShoveyUUID = ''u'', sr_NodeName = ''web'', sr_Status = ''running'', sr_AckTime = 0, sr_EndTime = 0, sr_Error = [],
     sr_ExitStatus = 0\<rparr>"

theorem output_put_together_witness:
  "CombineStreamOutput ''stdout'' 0 example_run_of
     (send 0 ''stdout'' example_run_of [''a'', ''b'', ''c''] [2, 0, 1] new_server) = Some (Ok ''abc'')"
proof -
  have "distinct [2 :: nat, 0, 1]" "set [2 :: nat, 0, 1] = {..<length [''a'', ''b'', ''c'']}" by auto
  from output_put_together [OF this, of new_server example_run_of "''stdout''" 0 0]
  show ?thesis by (simp add: new_server_def ds_Get_def initDataStore_def)
qed

subsection \<open>Starting a job\<close>

lemma GetRun_fold:
  "GetRun sh n (fold (\<lambda>m. run_save (new_run sh m st t)) ms s) = (if n \<in> set ms then Ok (new_run sh n st t) else GetRun sh n s)"
  by (induction ms arbitrary: s) (auto simp: GetRun_run_save new_run_def)

lemma GetRun_create_runs:
  assumes "n \<in> set (sh_NodeNames sh)"
  shows "GetRun sh n (create_runs now sh up s) =
    Ok (if n \<in> set up then new_run sh n ''created'' zero_time else new_run sh n ''down'' now)"
  using assms by (simp add: create_runs_def GetRun_fold)

lemma shovey_save_simps [simp]:
  "fst (shovey_save now sh s) = sh\<lparr>sh_UpdatedAt := now\<rparr>"
  "GetRun sh' n (snd (shovey_save now sh s)) = GetRun sh' n s"
  "shovey_Get i (snd (shovey_save now sh s)) = (if i = sh_RunID sh then Ok (sh\<lparr>sh_UpdatedAt := now\<rparr>) else shovey_Get i s)"
  by (simp_all add: shovey_save_def Let_def GetRun_def shovey_Get_def ds_Get_Set)

lemma startJobs_started:
  assumes "startJobs wd sy sh s = (Ok None, s1)"
  shows "\<exists>qnum up s0. getQuorum sy (sh_Quorum sh) (length (sh_NodeNames sh)) = Ok (Inr qnum) \<and>
    GetNodesByStatus (sh_NodeNames sh) ''up'' s = (Ok up, s0) \<and> qnum \<le> int (length up) \<and>
    s1 = create_runs (w_now wd) sh (map nd_Name up) s0"
  using assms unfolding startJobs_def
  by (auto simp: Let_def not_less split: outcome.splits sum.splits prod.splits if_splits)

lemma getQuorum_status: "getQuorum sy q n = Ok (Inl qe) \<Longrightarrow> qe_status qe \<in> {''job_failed'', ''quorum_failed''}"
  by (auto simp: getQuorum_def newQuerror_def split: if_splits option.splits outcome.splits)

lemma startJobs_failed: "startJobs wd sy sh s = (Ok (Some qe), s1) \<Longrightarrow> qe_status qe \<in> {''job_failed'', ''quorum_failed''}"
  unfolding startJobs_def using getQuorum_status
  by (auto simp: Let_def newQuerror_def split: outcome.splits sum.splits prod.splits if_splits)

lemma startJobs_error: "startJobs wd sy sh s = (Err e, s1) \<Longrightarrow> \<not> is_ok (getQuorum sy (sh_Quorum sh) (length (sh_NodeNames sh)))"
  unfolding startJobs_def by (auto simp: Let_def split: outcome.splits sum.splits prod.splits if_splits)

text \<open>\<^bold>\<open>C18\<close>. A job that is started has its quorum of nodes that are up; it is stored as running, with a
  run for each of its nodes, new on those that are up and down on the others. If it is not
  started, it is stored as failed.\<close>

theorem job_started:
  assumes "Start wd sy sh s = (r, sh1, s1)"
  shows "(r = Ok () \<longrightarrow>
     (\<exists>qnum up. getQuorum sy (sh_Quorum sh) (length (sh_NodeNames sh)) = Ok (Inr qnum) \<and>
        fst (GetNodesByStatus (sh_NodeNames sh) ''up'' s) = Ok up \<and> qnum \<le> int (length up) \<and>
        shovey_Get (sh_RunID sh) s1 = Ok (sh\<lparr>sh_Status := ''running'', sh_UpdatedAt := w_now wd\<rparr>) \<and>
        (\<forall>n. n \<in> set (sh_NodeNames sh) \<longrightarrow>
           GetRun sh n s1 = Ok (if n \<in> nd_Name ` set up then new_run sh n ''created'' zero_time
                                else new_run sh n ''down'' (w_now wd))))) \<and>
    (\<forall>e. r = Err e \<and> is_ok (getQuorum sy (sh_Quorum sh) (length (sh_NodeNames sh))) \<longrightarrow>
       (\<exists>st. st \<in> {''job_failed'', ''quorum_failed''} \<and>
          shovey_Get (sh_RunID sh) s1 = Ok (sh\<lparr>sh_Status := st, sh_UpdatedAt := w_now wd\<rparr>)))"
proof -
  obtain j s0 where j: "startJobs wd sy sh s = (j, s0)" by (cases "startJobs wd sy sh s")
  consider (run) "j = Ok None" | (failed) qe where "j = Ok (Some qe)" | (err) e where "j = Err e" | (panic) "j = Panic"
    by (cases j; cases "case j of Ok x \<Rightarrow> x | _ \<Rightarrow> None") auto
  then show ?thesis
  proof cases
    case run
    then have "r = Ok ()" "s1 = snd (shovey_save (w_now wd) (sh\<lparr>sh_Status := ''running''\<rparr>) s0)"
      using assms j by (auto simp: Start_def split: prod.splits)
    then show ?thesis using startJobs_started [of wd sy sh s s0] j run by (auto simp: GetRun_create_runs)
  next
    case failed
    then have "r = Errorf (qe_msg qe)" "s1 = snd (shovey_save (w_now wd) (sh\<lparr>sh_Status := qe_status qe\<rparr>) s0)"
      using assms j by (auto simp: Start_def split: prod.splits)
    then show ?thesis using startJobs_failed [of wd sy sh s qe s0] j failed by auto
  next
    case err
    then show ?thesis using startJobs_error [of wd sy sh s e s0] assms j by (auto simp: Start_def)
  next
    case panic
    then show ?thesis using assms j by (auto simp: Start_def)
  qed
qed


definition example_shoveylib :: shoveylib where
  "example_shoveylib = \<lparr>sy_ParseFloat = (\<lambda>t. if t = ''1'' then Ok (FNum 1) else if t = ''7'' then Ok (FNum 7) else Errorf ''invalid syntax''),
     sy_format_f = (\<lambda>_. ''0''), sy_SignTextBlock = (\<lambda>t. Ok t), sy_Query = (\<lambda>_ _. Ok ())\<rparr>"

definition example_job :: shovey where
  "example_job = \<lparr>sh_RunID = ''u'', sh_NodeNames = [''web'', ''db''], sh_Command = ''uptime'', sh_CreatedAt = 0, sh_UpdatedAt = 0,
     sh_Status = ''submitted'', sh_Timeout = 300, sh_Quorum = ''1''\<rparr>"

lemma example_up: "fst (GetNodesByStatus [''web'', ''db''] ''up'' example_node_server) = Ok [example_node]"
  by code_simp

theorem job_started_witness:
  "\<exists>sh1 s1. Start example_world example_shoveylib example_job example_node_server = (Ok (), sh1, s1) \<and>
     GetRun example_job ''web'' s1 = Ok (new_run example_job ''web'' ''created'' zero_time) \<and>
     GetRun example_job ''db'' s1 = Ok (new_run example_job ''db'' ''down'' (w_now example_world))"
proof -
  obtain r sh1 s1 where st: "Start example_world example_shoveylib example_job example_node_server = (r, sh1, s1)"
    by (metis prod.collapse)
  have "r = Ok ()" using st example_up
    by (cases "GetNodesByStatus [''web'', ''db''] ''up'' example_node_server") (simp add: Start_def startJobs_def example_job_def getQuorum_def example_shoveylib_def percent_part_def
        signed_query_def signRequest_def Let_def rat_truncate_def)
  with job_started [OF st] st example_up show ?thesis by (auto simp: example_job_def example_node_def)
qed

subsection \<open>A late acknowledgement\<close>

lemma checkCompleted_waits:
  assumes "GetNodeRuns sh s = Ok srs" "sr \<in> set srs" "\<not> run_finished sr" "sr_Status sr \<noteq> ''cancelled''"
    "length srs \<le> length (sh_NodeNames sh)"
  shows "checkCompleted now sh s = Ok (sh, s)"
proof -
  have "length (filter (\<lambda>sr. run_finished sr \<or> sr_Status sr = ''cancelled'') srs) < length srs"
    using assms(2-4) by (intro length_filter_less) auto
  with assms(1,5) show ?thesis by (simp add: checkCompleted_def)
qed

lemma node_runs_member:
  "node_runs sh ns s = Ok srs \<Longrightarrow> length srs \<le> length ns \<and> (\<forall>n sr. n \<in> set ns \<longrightarrow> GetRun sh n s = Ok sr \<longrightarrow> sr \<in> set srs)"
  by (induction ns arbitrary: srs) (auto simp: outcome_bind_Ok_iff split: outcome.splits if_splits intro: le_SucI)

lemma checkCompleted_unfinished:
  assumes "n \<in> set (sh_NodeNames sh)" "GetRun sh n s = Ok sr" "\<not> run_finished sr" "sr_Status sr \<noteq> ''cancelled''"
    "checkCompleted now sh s \<noteq> Panic"
  shows "checkCompleted now sh s = Ok (sh, s)"
proof (cases "GetNodeRuns sh s")
  case (Ok srs)
  then have "length srs \<le> length (sh_NodeNames sh)" "sr \<in> set srs"
    using node_runs_member [of sh "sh_NodeNames sh" s srs] assms(1,2) by (auto simp: GetNodeRuns_def)
  with checkCompleted_waits [OF Ok] assms(3,4) show ?thesis by blast
qed (use assms(5) in \<open>simp_all add: checkCompleted_def\<close>)

text \<open>\<^bold>\<open>C38\<close>. The acknowledgement of a node is read and saved in two steps. If the node reports
  in between, whatever it reports is stored and then overwritten by the run as it was
  before: the status, the error, the end time and the exit status of the report are lost,
  and the run is left as it was, with the acknowledgement time. If the run had not finished before, a check
  of the job after the overwriting does not complete it, whatever the other nodes did. (A
  check that runs between the two writes can complete the job; the report is lost all the
  same.)\<close>

theorem late_ack_loses_result:
  assumes "GetRun sh n s = Ok sr" "sr_ShoveyUUID sr = sh_RunID sh" "sr_NodeName sr = n" "n \<noteq> []"
    "s1 = run_UpdateFromJSON t data sr s"
  shows "\<exists>sr1. ack_read now sh n s = Some sr1 \<and> GetRun sh n s1 = Ok (run_update t data sr) \<and>
    (\<forall>st. gget data ''status'' = GStr st \<longrightarrow> sr_Status (run_update t data sr) = st) \<and>
    GetRun sh n (run_save sr1 s1) = Ok (sr\<lparr>sr_AckTime := now\<rparr>) \<and>
    (\<forall>m. m \<noteq> n \<longrightarrow> GetRun sh m (run_save sr1 s1) = GetRun sh m s) \<and>
    (n \<in> set (sh_NodeNames sh) \<and> \<not> run_finished sr \<and> sr_Status sr \<noteq> ''cancelled'' \<and>
       checkCompleted t' sh (run_save sr1 s1) \<noteq> Panic \<longrightarrow>
     checkCompleted t' sh (run_save sr1 s1) = Ok (sh, run_save sr1 s1))"
proof -
  let ?sr1 = "sr\<lparr>sr_AckTime := now\<rparr>" and ?sr2 = "run_update t data sr"
  have keys: "sr_ShoveyUUID ?sr2 = sr_ShoveyUUID sr" "sr_NodeName ?sr2 = sr_NodeName sr"
    by (simp_all add: run_update_def Let_def split: gval.split option.split)
  have 1: "ack_read now sh n s = Some ?sr1" using assms(1,4) by (simp add: ack_read_def)
  have notified: "GetRun sh m (s\<lparr>srv_notified := l\<rparr>) = GetRun sh m s" for m l s by (simp add: GetRun_def)
  have 2: "GetRun sh n s1 = Ok ?sr2"
    using assms(2,3) by (simp add: assms(5) run_UpdateFromJSON_def Let_def notified GetRun_run_save keys)
  have 3: "sr_Status ?sr2 = st" if "gget data ''status'' = GStr st" for st
    using that by (simp add: run_update_def Let_def split: gval.split option.split)
  have 4: "GetRun sh n (run_save ?sr1 s1) = Ok ?sr1" using assms(2,3) by (simp add: GetRun_run_save)
  have 5: "GetRun sh m (run_save ?sr1 s1) = GetRun sh m s" if "m \<noteq> n" for m
    using assms(2,3) that by (simp add: assms(5) GetRun_run_save run_UpdateFromJSON_def Let_def notified keys)
  have 6: "checkCompleted t' sh (run_save ?sr1 s1) = Ok (sh, run_save ?sr1 s1)"
    if "n \<in> set (sh_NodeNames sh)" "\<not> run_finished sr" "sr_Status sr \<noteq> ''cancelled''" "checkCompleted t' sh (run_save ?sr1 s1) \<noteq> Panic"
    using checkCompleted_unfinished [OF that(1) 4 _ _ that(4)] that(2,3) by (simp add: run_finished_def)
  show ?thesis using 1 2 3 4 5 6 by (intro exI [of _ ?sr1]) blast
qed

theorem late_ack_loses_result_witness:
  "\<exists>sr1. ack_read 5 example_job ''web'' (run_save example_run_of new_server) = Some sr1 \<and>
     GetRun example_job ''web''
       (run_save sr1 (run_UpdateFromJSON 7 [(''status'', GStr ''succeeded'')] example_run_of (run_save example_run_of new_server))) =
       Ok (example_run_of\<lparr>sr_AckTime := 5\<rparr>)"
proof -
  have "GetRun example_job ''web'' (run_save example_run_of new_server) = Ok example_run_of"
    by (simp add: GetRun_run_save example_run_of_def example_job_def)
  from late_ack_loses_result [OF this _ _ _ refl, of 5 7 "[(''status'', GStr ''succeeded'')]"] show ?thesis
    by (simp add: example_run_of_def example_job_def) blast
qed

subsection \<open>The quorum\<close>

lemma rounding_factor:
  fixes e a x :: rat
  assumes "\<bar>a - x\<bar> \<le> x * e"
  shows "x * (1 - e) \<le> a" "a \<le> x * (1 + e)"
  using assms by (simp_all add: algebra_simps abs_le_iff)

lemma rounding_half:
  fixes a x :: rat
  assumes "\<bar>a - x\<bar> \<le> x * (1 / 2 ^ 53)" "0 < x"
  shows "x / 2 \<le> a" "a \<le> 2 * x"
  using rounding_factor [OF assms(1)] assms(2) by simp_all

lemma round_chain:
  fixes e a b c x n :: rat
  assumes e: "0 \<le> e" "e \<le> 1 / 100" and "0 < x" "0 < n"
    "\<bar>a - x\<bar> \<le> x * e" "\<bar>b - a / 100\<bar> \<le> a / 100 * e" "\<bar>c - b * n\<bar> \<le> b * n * e"
  shows "\<bar>c - x / 100 * n\<bar> \<le> x / 100 * n * (4 * e)"
proof -
  note a = rounding_factor [OF assms(5)] and b = rounding_factor [OF assms(6)] and c = rounding_factor [OF assms(7)]
  have e2: "0 \<le> e * e" "e * e \<le> 1 / 100" using e mult_mono [of e "1 / 100" e 1] by simp_all
  have ee: "e * e \<le> e * (1 / 100)" "e * (e * e) \<le> e * (1 / 100)" "0 \<le> e * e" "0 \<le> e * (e * e)"
    using mult_left_mono [OF e(2,1)] mult_left_mono [OF e2(2) e(1)] mult_nonneg_nonneg [OF e(1) e2(1)] e2 by (simp_all only:)
  have "x / 100 * n * ((1 - e) * (1 - e) * (1 - e)) \<le> c"
  proof -
    have "x * (1 - e) / 100 * (1 - e) \<le> b" using a(1) b(1) e by (intro order.trans [OF mult_right_mono b(1)]) simp_all
    then have "x * (1 - e) / 100 * (1 - e) * n * (1 - e) \<le> b * n * (1 - e)" using e assms(4) by (intro mult_right_mono) simp_all
    with c(1) have "x * (1 - e) / 100 * (1 - e) * n * (1 - e) \<le> c" by (rule order.trans [rotated])
    then show ?thesis by (simp add: ac_simps)
  qed
  moreover have "c \<le> x / 100 * n * ((1 + e) * (1 + e) * (1 + e))"
  proof -
    have "b \<le> x * (1 + e) / 100 * (1 + e)" using a(2) b(2) e by (intro order.trans [OF b(2) mult_right_mono]) simp_all
    then have "b * n * (1 + e) \<le> x * (1 + e) / 100 * (1 + e) * n * (1 + e)" using e assms(4) by (intro mult_right_mono) simp_all
    with c(2) have "c \<le> x * (1 + e) / 100 * (1 + e) * n * (1 + e)" by (rule order.trans)
    then show ?thesis by (simp add: ac_simps)
  qed
  moreover have "1 - 4 * e \<le> (1 - e) * (1 - e) * (1 - e)" "(1 + e) * (1 + e) * (1 + e) \<le> 1 + 4 * e"
    using ee e(1) by (simp_all only: algebra_simps)
  then have "x / 100 * n * (1 - 4 * e) \<le> x / 100 * n * ((1 - e) * (1 - e) * (1 - e))"
    "x / 100 * n * ((1 + e) * (1 + e) * (1 + e)) \<le> x / 100 * n * (1 + 4 * e)"
    using assms(3,4) by (auto intro!: mult_left_mono)
  ultimately have "x / 100 * n * (1 - 4 * e) \<le> c" "c \<le> x / 100 * n * (1 + 4 * e)" by (metis order.trans)+
  then show ?thesis by (simp only: right_diff_distrib distrib_left mult_1_right abs_le_iff) linarith
qed

lemma f_int_of_int: "\<bar>k\<bar> < 2 ^ 63 \<Longrightarrow> f_int (FNum (of_int k)) = k"
  by (simp add: rat_truncate_def Let_def abs_less_iff)

lemma ceiling_thousandth:
  fixes c :: rat
  assumes "\<bar>c - of_nat m / 1000\<bar> < 1 / 2000"
  shows "\<lceil>of_nat m / 1000 :: rat\<rceil> \<le> \<lceil>c\<rceil>" "\<lceil>c\<rceil> \<le> \<lceil>of_nat m / 1000 :: rat\<rceil> + 1"
    "\<not> 1000 dvd m \<Longrightarrow> \<lceil>c\<rceil> = \<lceil>of_nat m / 1000 :: rat\<rceil>"
proof -
  define q r where "q = int (m div 1000)" and "r = int (m mod 1000)"
  have m: "(of_nat m / 1000 :: rat) = of_int q + of_int r / 1000" and r: "0 \<le> r" "r \<le> 999"
  proof -
    have "(of_nat m :: rat) = of_nat (1000 * (m div 1000)) + of_nat (m mod 1000)"
      by (simp only: of_nat_add [symmetric] mult_div_mod_eq)
    also have "\<dots> = 1000 * of_int q + of_int r" by (simp add: q_def r_def del: of_nat_mod of_nat_div zmod_int zdiv_int)
    finally show "(of_nat m / 1000 :: rat) = of_int q + of_int r / 1000" by simp
    have "m mod 1000 < 1000" by simp
    then show "0 \<le> r" "r \<le> 999" unfolding r_def by linarith+
  qed
  have rr: "(of_int r :: rat) \<le> 999" using r(2) by (metis of_int_le_numeral_iff)
  have lo: "of_int q + of_int r / 1000 - 1 / 2000 < c" and hi: "c < of_int q + of_int r / 1000 + 1 / 2000" using assms unfolding m by linarith+
  have ceil: "\<lceil>of_nat m / 1000 :: rat\<rceil> = (if r = 0 then q else q + 1)"
    unfolding m using r(1) rr by (auto intro!: ceiling_unique simp: less_divide_eq)
  have r0: "r \<noteq> 0 \<Longrightarrow> 1 \<le> (of_int r :: rat)" using r(1) by simp
  show 1: "\<lceil>c\<rceil> = \<lceil>of_nat m / 1000 :: rat\<rceil>" if "\<not> 1000 dvd m"
  proof -
    have "r \<noteq> 0" using that by (auto simp: r_def dvd_eq_mod_eq_0)
    with r0 lo hi rr have "of_int (q + 1) - 1 < c" "c \<le> of_int (q + 1)" by linarith+
    then show ?thesis using \<open>r \<noteq> 0\<close> by (simp add: ceil ceiling_unique)
  qed
  have "r = 0 \<Longrightarrow> of_int q - 1 < c \<and> c \<le> of_int (q + 1)" using lo hi by simp
  then have "r = 0 \<Longrightarrow> q \<le> \<lceil>c\<rceil> \<and> \<lceil>c\<rceil> \<le> q + 1" by (simp add: ceiling_le_iff le_ceiling_iff)
  moreover have "r \<noteq> 0 \<Longrightarrow> \<not> 1000 dvd m" by (auto simp: r_def dvd_eq_mod_eq_0)
  ultimately show "\<lceil>of_nat m / 1000 :: rat\<rceil> \<le> \<lceil>c\<rceil>" "\<lceil>c\<rceil> \<le> \<lceil>of_nat m / 1000 :: rat\<rceil> + 1" using 1 ceil by (cases "r = 0"; simp)+
qed

text \<open>Numbers of the size that occur here are rounded with the error of \<open>round64_error\<close>.\<close>

lemma round64_moderate:
  assumes "1 / 2 ^ 20 \<le> x" "x \<le> 2 ^ 60"
  shows "\<exists>y. round64 x = FNum y \<and> \<bar>y - x\<bar> \<le> x * (1 / 2 ^ 53)"
proof -
  have "(2 :: rat) powi (- 1000) \<le> 2 powi (- 20)" by (rule power_int_increasing) simp_all
  also have "\<dots> = 1 / 2 ^ 20" by (simp add: power_int_def field_simps)
  finally have "2 powi (- 1000) \<le> x" using assms(1) by linarith
  moreover have "(2 :: rat) ^ 60 \<le> 2 ^ 1000" by (rule power_increasing) simp_all
  ultimately show ?thesis using round64_error [of x] assms(2) by fastforce
qed

lemma quorum_error:
  assumes "0 < t" "0 < n" "t * n < 2 ^ 50"
  shows "\<exists>c. f_mul (f_div (round64 (of_nat t / 10)) (FNum 100)) (FNum (of_nat n)) = FNum c \<and>
    \<bar>c - of_nat (t * n) / 1000\<bar> < 1 / 2000"
proof -
  let ?e = "1 / 2 ^ 53 :: rat" and ?n = "of_nat n :: rat" and ?x = "of_nat t / 10 :: rat"
  have "t * 1 \<le> t * n" "1 * n \<le> t * n" using assms(1,2) by (simp_all add: Suc_leI)
  then have small: "t < 2 ^ 50" "n < 2 ^ 50" using assms(3) by linarith+
  have T: "1 \<le> (of_nat t :: rat)" "(of_nat t :: rat) < 2 ^ 50" "1 \<le> ?n" "?n < 2 ^ 50"
    using assms(1,2) small of_nat_mono [of 1 t, where 'a = rat] of_nat_mono [of 1 n, where 'a = rat] by simp_all
  have tn: "(of_nat t :: rat) * ?n < 2 ^ 50"
    using assms(3) by (metis of_nat_less_iff of_nat_mult of_nat_numeral of_nat_power)
  have x: "1 / 10 \<le> ?x" "?x \<le> 2 ^ 50" using T by simp_all
  obtain a where a: "round64 ?x = FNum a" "\<bar>a - ?x\<bar> \<le> ?x * ?e" using round64_moderate [of ?x] x by auto
  have ax: "?x / 2 \<le> a" "a \<le> 2 * ?x" using rounding_half [OF a(2)] x by simp_all
  obtain b where b: "round64 (a / 100) = FNum b" "\<bar>b - a / 100\<bar> \<le> a / 100 * ?e"
    using round64_moderate [of "a / 100"] ax x by auto
  have bx: "a / 200 \<le> b" "b \<le> a / 50" using rounding_half [OF b(2)] ax x by simp_all
  have bt: "1 / 4000 \<le> b" "b \<le> of_nat t / 200" using bx ax x by simp_all
  have "1 / 4000 * 1 \<le> b * ?n" "b * ?n \<le> (of_nat t / 200) * ?n" using bt T by (intro mult_mono; simp)+
  then obtain c where c: "round64 (b * ?n) = FNum c" "\<bar>c - b * ?n\<bar> \<le> b * ?n * ?e"
    using round64_moderate [of "b * ?n"] tn by auto
  have "\<bar>c - ?x / 100 * ?n\<bar> \<le> ?x / 100 * ?n * (4 * ?e)"
    by (rule round_chain [OF _ _ _ _ a(2) b(2) c(2)]) (use x T in simp_all)
  also have "\<dots> < 1 / 2000" using tn by (simp add: mult.commute)
  finally have "\<bar>c - of_nat (t * n) / 1000\<bar> < 1 / 2000" by (simp add: mult.commute)
  with a b c show ?thesis by simp
qed

text \<open>\<^bold>\<open>C31\<close>. The quorum of a percentage, given in tenths of a percent: where the exact number of nodes is
  not an integer it is rounded up; where it is an integer, the result is that number or, through
  the rounding of floating-point numbers, one more.\<close>

theorem percent_quorum:
  assumes "percent_part quorum = Some z" "sy_ParseFloat sy z = Ok (round64 (of_nat t / 10))" "0 < n" "t * n < 2 ^ 50"
  shows "\<exists>k. getQuorum sy quorum n = Ok (Inr k) \<and>
    \<lceil>of_nat (t * n) / 1000 :: rat\<rceil> \<le> k \<and> k \<le> \<lceil>of_nat (t * n) / 1000 :: rat\<rceil> + 1 \<and>
    (\<not> 1000 dvd t * n \<longrightarrow> k = \<lceil>of_nat (t * n) / 1000 :: rat\<rceil>)"
proof (cases "t = 0")
  case True
  then have "getQuorum sy quorum n = Ok (Inr 0)" using assms by (simp add: getQuorum_def round64_def rat_truncate_def)
  with True show ?thesis by simp
next
  case False
  obtain c where c: "f_mul (f_div (round64 (of_nat t / 10)) (FNum 100)) (FNum (of_nat n)) = FNum c"
    "\<bar>c - of_nat (t * n) / 1000\<bar> < 1 / 2000"
    using quorum_error [of t n] False assms(3,4) by auto
  have "(of_nat (t * n) :: rat) < of_nat (2 ^ 50)" using assms(4) by (simp only: of_nat_less_iff)
  moreover have "0 \<le> (of_nat (t * n) :: rat)" by simp
  ultimately have "- 1 < c" "c \<le> of_int (2 ^ 50)" using c(2) unfolding abs_less_iff by (simp_all del: of_nat_mult)
  then have "- 1 < \<lceil>c\<rceil>" and "\<lceil>c\<rceil> \<le> 2 ^ 50" by (simp_all only: less_ceiling_iff ceiling_le_iff of_int_minus of_int_1)
  then have "\<bar>\<lceil>c\<rceil>\<bar> < 2 ^ 63" by (simp del: ceiling_le_numeral)
  then have "f_int (FNum (of_int \<lceil>c\<rceil>)) = \<lceil>c\<rceil>" by (rule f_int_of_int)
  then have "getQuorum sy quorum n = Ok (Inr \<lceil>c\<rceil>)" using assms c(1) by (simp add: getQuorum_def)
  with ceiling_thousandth [OF c(2)] show ?thesis by blast
qed

lemma example_quorum: "getQuorum example_shoveylib ''7%'' 100 = Ok (Inr 8)"
proof -
  have z: "percent_part ''7%'' = Some ''7''" by code_simp
  have floors: "\<lfloor>126100789566373888 / 25 :: rat\<rfloor> = 5044031582654955" "\<lfloor>31525197391593475 / 4 :: rat\<rfloor> = 7881299347898368"
    by (rule floor_unique; simp)+
  have ceil: "\<lceil>7881299347898369 / 1125899906842624 :: rat\<rceil> = 8" by (rule ceiling_unique) simp_all
  have "round64 (7 / 100) = FNum (5044031582654956 / 2 ^ 56)"
    using round64_with_exponent [of "- 4" "7 / 100"] by (simp add: power_int_minus round_even_def Let_def floors)
  moreover have "round64 (5044031582654956 / 2 ^ 56 * 100) = FNum (7881299347898369 / 2 ^ 50)"
    using round64_with_exponent [of 2 "5044031582654956 / 2 ^ 56 * 100"] by (simp add: power_int_minus round_even_def Let_def floors)
  ultimately show ?thesis by (simp add: getQuorum_def z example_shoveylib_def rat_truncate_def ceil)
qed

theorem percent_quorum_witness:
  "getQuorum example_shoveylib ''7%'' 100 = Ok (Inr 8) \<and> \<lceil>of_nat (70 * 100) / 1000 :: rat\<rceil> = 7 \<and>
   (\<exists>k. getQuorum example_shoveylib ''7%'' 100 = Ok (Inr k) \<and> k \<le> \<lceil>of_nat (70 * 100) / 1000 :: rat\<rceil> + 1)"
proof -
  have "percent_part ''7%'' = Some ''7''" "sy_ParseFloat example_shoveylib ''7'' = Ok (round64 (of_nat 70 / 10))"
    by code_simp+
  from percent_quorum [OF this, of 100] example_quorum show ?thesis by auto
qed

end
