(* ===== verification/Access.thy ===== *)
theory Access
  imports Server Jobs
begin

text \<open>
  What the steps before the handlers guarantee: the normal form of the path that is checked,
  routed and signed, and which requests can change the server at all.
\<close>

subsection \<open>Clean paths\<close>

definition plain_elem :: "string \<Rightarrow> bool" where
  "plain_elem e \<longleftrightarrow> e \<noteq> [] \<and> e \<noteq> ''.'' \<and> e \<noteq> ''..'' \<and> CHR ''/'' \<notin> set e"

lemma clean_elem_plain: "plain_elem e \<Longrightarrow> clean_elem True es e = es @ [e]"
  by (simp add: clean_elem_def plain_elem_def)

lemma foldl_clean_plain: "list_all plain_elem es \<Longrightarrow> foldl (clean_elem True) ds es = ds @ es"
  by (induction es arbitrary: ds) (simp_all add: clean_elem_plain)

lemma clean_elem_keeps:
  "list_all plain_elem ds \<Longrightarrow> CHR ''/'' \<notin> set e \<Longrightarrow> list_all plain_elem (clean_elem True ds e)"
  by (auto simp: clean_elem_def plain_elem_def list_all_iff dest: in_set_butlastD)

lemma foldl_clean_keeps:
  "list_all plain_elem ds \<Longrightarrow> \<forall>e\<in>set es. CHR ''/'' \<notin> set e \<Longrightarrow> list_all plain_elem (foldl (clean_elem True) ds es)"
  by (induction es arbitrary: ds) (simp_all add: clean_elem_keeps)

definition clean_elems :: "string \<Rightarrow> string list" where
  "clean_elems p = foldl (clean_elem True) [] (split_on (CHR ''/'') p)"

lemma clean_elems_plain: "list_all plain_elem (clean_elems p)"
  unfolding clean_elems_def by (rule foldl_clean_keeps) (auto dest: split_on_no_sep)

lemma path_Clean_rooted: "hd p = CHR ''/'' \<Longrightarrow> p \<noteq> [] \<Longrightarrow> path_Clean p = CHR ''/'' # join_with ''/'' (clean_elems p)"
  by (simp add: path_Clean_def clean_elems_def Let_def)

text \<open>A clean path is a list of plain elements, with or without a slash at its end.\<close>

definition is_clean :: "string \<Rightarrow> string list \<Rightarrow> bool" where
  "is_clean p es \<longleftrightarrow> list_all plain_elem es \<and>
     (p = CHR ''/'' # join_with ''/'' es \<or> es \<noteq> [] \<and> p = CHR ''/'' # join_with ''/'' es @ ''/'')"

lemma join_Nil_iff: "list_all plain_elem es \<Longrightarrow> join_with ''/'' es = [] \<longleftrightarrow> es = []"
  by (induction "''/''" es rule: join_with.induct) (auto simp: plain_elem_def)

lemma last_join: "list_all plain_elem es \<Longrightarrow> es \<noteq> [] \<Longrightarrow> last (join_with ''/'' es) \<noteq> CHR ''/''"
  by (induction "''/''" es rule: join_with.induct)
    (auto simp: plain_elem_def join_Nil_iff dest: last_in_set)

lemma cleanPath_is_clean: "\<exists>es. is_clean (cleanPath p) es"
proof (cases "p = []")
  case True
  then show ?thesis by (auto simp: cleanPath_def is_clean_def intro: exI [of _ "[]"])
next
  case False
  define p1 where "p1 = (if hd p \<noteq> CHR ''/'' then CHR ''/'' # p else p)"
  with False have "hd p1 = CHR ''/''" "p1 \<noteq> []" by auto
  then have np: "path_Clean p1 = CHR ''/'' # join_with ''/'' (clean_elems p1)" by (rule path_Clean_rooted)
  have "cleanPath p = (if last p1 = CHR ''/'' \<and> path_Clean p1 \<noteq> ''/'' then path_Clean p1 @ ''/'' else path_Clean p1)"
    using False by (simp add: cleanPath_def p1_def Let_def)
  then show ?thesis
    using clean_elems_plain [of p1] by (auto simp: np is_clean_def join_Nil_iff intro!: exI [of _ "clean_elems p1"])
qed

lemma split_clean:
  assumes "is_clean p es"
  shows "split_on (CHR ''/'') p = [] # (if es = [] then [[]] else es @ (if last p = CHR ''/'' then [[]] else []))"
proof (cases "es = []")
  case False
  have sl: "\<forall>e\<in>set es. CHR ''/'' \<notin> set e" using assms by (auto simp: is_clean_def plain_elem_def list_all_iff)
  have j: "join_with ''/'' (es @ [[]]) = join_with ''/'' es @ ''/''"
    using False by (induction "''/''" es rule: join_with.induct) auto
  have "split_on (CHR ''/'') (join_with ''/'' es) = es" using sl False by (intro split_join) auto
  moreover have "split_on (CHR ''/'') (join_with ''/'' es @ ''/'') = es @ [[]]"
    unfolding j [symmetric] using sl by (intro split_join) auto
  moreover have "last (join_with ''/'' es) \<noteq> CHR ''/''" "join_with ''/'' es \<noteq> []"
    using assms False by (auto simp: is_clean_def last_join join_Nil_iff)
  ultimately show ?thesis using assms False by (auto simp: is_clean_def)
qed (use assms in \<open>auto simp: is_clean_def\<close>)

lemma cleanPath_clean: "is_clean p es \<Longrightarrow> cleanPath p = p"
proof -
  assume c: "is_clean p es"
  then have p: "p \<noteq> []" "hd p = CHR ''/''" by (auto simp: is_clean_def)
  have "clean_elems p = es"
    using c unfolding clean_elems_def split_clean [OF c]
    by (auto simp: is_clean_def foldl_clean_plain clean_elem_def [of _ _ "[]"])
  then have "path_Clean p = CHR ''/'' # join_with ''/'' es" using path_Clean_rooted [OF p(2,1)] by simp
  then show ?thesis using c p last_join [of es]
    by (auto simp: cleanPath_def is_clean_def join_Nil_iff Let_def)
qed

text \<open>The path on which authentication and routing decide is in normal form: it starts
  with a slash, cleaning it again changes nothing, so it is never redirected again, no element
  is \<open>.\<close> or \<open>..\<close>, and only the last element can be empty.\<close>

theorem clean_path_normal:
  "hd (cleanPath p) = CHR ''/'' \<and> cleanPath (cleanPath p) = cleanPath p \<and>
   list_all (\<lambda>e. e \<noteq> ''.'' \<and> e \<noteq> ''..'') (splitPath (cleanPath p)) \<and>
   list_all (\<lambda>e. e \<noteq> []) (butlast (splitPath (cleanPath p)))"
proof -
  obtain es where c: "is_clean (cleanPath p) es" using cleanPath_is_clean by blast
  then have hd: "hd (cleanPath p) = CHR ''/''" and ne: "cleanPath p \<noteq> []" by (auto simp: is_clean_def)
  have "split_on (CHR ''/'') (cleanPath p) = [] # splitPath (cleanPath p)"
    using hd ne by (cases "cleanPath p") (auto simp: splitPath_def)
  then have sp: "splitPath (cleanPath p) = (if es = [] then [[]] else es @ (if last (cleanPath p) = CHR ''/'' then [[]] else []))"
    using split_clean [OF c] by simp
  have pl: "\<forall>e\<in>set es. plain_elem e" using c by (simp add: is_clean_def list_all_iff)
  have "list_all (\<lambda>e. e \<noteq> ''.'' \<and> e \<noteq> ''..'') (splitPath (cleanPath p))"
    using pl by (auto simp: sp list_all_iff plain_elem_def)
  moreover have "list_all (\<lambda>e. e \<noteq> []) (butlast (splitPath (cleanPath p)))"
    using pl by (auto simp: sp list_all_iff plain_elem_def butlast_append dest: in_set_butlastD)
  ultimately show ?thesis using hd cleanPath_clean [OF c] by simp
qed

subsection \<open>Routing\<close>

lemma has_prefix_append: "has_prefix p q \<longleftrightarrow> (\<exists>t. p = q @ t)"
  unfolding has_prefix_def by (metis append_eq_conv_conj append_take_drop_id)

lemma prefixes_comparable: "has_prefix p a \<Longrightarrow> has_prefix p b \<Longrightarrow> has_prefix a b \<or> has_prefix b a"
  by (auto simp: has_prefix_append append_eq_append_conv2)

lemma longest_pattern_in: "longest_pattern ps = Some p \<Longrightarrow> p \<in> set ps"
  by (induction ps) (auto split: option.splits if_splits)

lemma mux_match_pattern:
  assumes "mux_match p = Some rt"
  shows "\<exists>pat. (pat, rt) \<in> set patterns \<and> has_prefix p pat"
proof (cases "map_of patterns p")
  case None
  with assms obtain pat where "longest_pattern (filter (subtree_match p) patterns) = Some (pat, rt)"
    by (auto simp: mux_match_def)
  from longest_pattern_in [OF this] show ?thesis by (auto simp: subtree_match_def)
next
  case (Some rt')
  with assms have "(p, rt) \<in> set patterns" by (auto simp: mux_match_def dest: map_of_SomeD)
  moreover have "has_prefix p p" by (simp add: has_prefix_def)
  ultimately show ?thesis by blast
qed

definition reachable_routes :: "string \<Rightarrow> route list" where
  "reachable_routes q = map snd (filter (\<lambda>(pat, _). has_prefix pat q \<or> has_prefix q pat) patterns)"

lemma mux_match_reachable:
  assumes "mux_match p = Some rt" "has_prefix p q"
  shows "rt \<in> set (reachable_routes q)"
proof -
  obtain pat where "(pat, rt) \<in> set patterns" "has_prefix p pat" using mux_match_pattern [OF assms(1)] by blast
  with prefixes_comparable [OF this(2) assms(2)] show ?thesis by (force simp: reachable_routes_def)
qed

lemma exempt_routes:
  "reachable_routes ''/file_store'' = [RFileStore, RRoot]"
  "reachable_routes ''/principals'' = [RPrincipal, RRoot]"
  "set (reachable_routes ''/debug'') = {RPprof, RRoot}"
  by code_simp+

lemma file_store_prefix:
  assumes "mux_match p = Some RFileStore"
  shows "p = ''/file_store/'' @ drop 12 p"
proof -
  obtain pat where "(pat, RFileStore) \<in> set patterns" "has_prefix p pat" using mux_match_pattern [OF assms] by blast
  then have "has_prefix p ''/file_store/''" by (auto simp: patterns_def)
  then show ?thesis by (auto simp: has_prefix_append)
qed

subsection \<open>Requests that change the server\<close>

lemma fileStore_change:
  assumes "snd (fileStoreHandler wd r s) \<noteq> s"
  shows "\<exists>f. snd (fileStoreHandler wd r s) = file_Save f s \<and> fs_Chksum f = drop 12 (r_Path r) \<and>
    w_md5 wd (fs_Data f) = fs_Chksum f \<and> \<not> is_ok (file_Get (fs_Chksum f) s)"
proof (cases "file_Get (drop 12 (r_Path r)) s")
  case (Err e)
  with assms obtain f where f: "file_New (w_md5 wd) (drop 12 (r_Path r)) (r_Body r) (r_ContentLength r) s = Ok f"
    and s: "snd (fileStoreHandler wd r s) = file_Save f s"
    by (cases "file_New (w_md5 wd) (drop 12 (r_Path r)) (r_Body r) (r_ContentLength r) s"; cases "r_Method r")
      (auto simp: fileStoreHandler_def reply_json_def reply_error_def Let_def)
  from f Err have "fs_Chksum f = drop 12 (r_Path r)" "w_md5 wd (fs_Data f) = drop 12 (r_Path r)"
    by (auto simp: file_New_def Let_def split: if_splits)
  with s Err show ?thesis by auto
qed (use assms in \<open>auto simp: fileStoreHandler_def reply_error_def Let_def split: http_method.splits\<close>)

lemma exempt_dispatch:
  assumes "auth_exempt r" "mux_match (r_Path r) = Some rt"
  shows "rt = RFileStore \<or> snd (dispatch sv rt r s) = s"
proof -
  from assms(1) consider "has_prefix (r_Path r) ''/file_store''" | "has_prefix (r_Path r) ''/debug''"
    | "has_prefix (r_Path r) ''/principals''" "r_Method r = MethodGet"
    by (auto simp: auth_exempt_def)
  then show ?thesis
  proof cases
    case 1
    from mux_match_reachable [OF assms(2) 1] show ?thesis by (auto simp: exempt_routes dispatch_def)
  next
    case 2
    from mux_match_reachable [OF assms(2) 2] show ?thesis by (auto simp: exempt_routes dispatch_def)
  next
    case 3
    from mux_match_reachable [OF assms(2) 3(1)] have "rt = RPrincipal \<or> rt = RRoot" by (simp add: exempt_routes)
    then show ?thesis using 3(2)
      by (auto simp: dispatch_def principalHandler_def reply_json_def reply_error_def Let_def attempt_def split: outcome.split)
  qed
qed

lemma exempt_mux:
  assumes "auth_exempt r" "snd (mux_ServeHTTP sv r s) \<noteq> s"
  shows "r_Path r = ''/file_store/'' @ drop 12 (r_Path r) \<and>
    snd (mux_ServeHTTP sv r s) = snd (fileStoreHandler (sv_world sv) r s)"
proof -
  from assms(2) obtain rt where rt: "mux_match (r_Path r) = Some rt"
    and d: "snd (mux_ServeHTTP sv r s) = snd (dispatch sv rt r s)"
    by (auto simp: mux_ServeHTTP_def split: if_splits option.splits)
  with exempt_dispatch [OF assms(1) rt, of sv s] assms(2) have "rt = RFileStore" by auto
  with rt d show ?thesis using file_store_prefix by (simp add: dispatch_def)
qed

lemma exempt_opUser [simp]: "auth_exempt (r\<lparr>r_OpUser := a\<rparr>) = auth_exempt r"
  by (simp add: auth_exempt_def)

lemma fileStore_opUser [simp]: "fileStoreHandler wd (r\<lparr>r_OpUser := a\<rparr>) s = fileStoreHandler wd r s"
  by (simp add: fileStoreHandler_def Let_def split: outcome.split http_method.split)

lemma exempt_authenticated:
  assumes "auth_exempt r" "snd (serve_authenticated sv r s) \<noteq> s"
  shows "r_Path r = ''/file_store/'' @ drop 12 (r_Path r) \<and>
    snd (serve_authenticated sv r s) = snd (fileStoreHandler (sv_world sv) r s)"
proof -
  from assms(2) obtain a where a: "snd (serve_authenticated sv r s) = snd (mux_ServeHTTP sv (r\<lparr>r_OpUser := a\<rparr>) s)"
    by (auto simp: serve_authenticated_def reply_error_def attempt_def split: if_splits option.splits outcome.splits)
  with assms exempt_mux [of "r\<lparr>r_OpUser := a\<rparr>" sv s] show ?thesis by simp
qed

lemma serve_clean_cases:
  obtains (unchanged) "snd (serve_clean sv r s) = s"
  | (signed) "CheckHeader (sv_conf sv) (sv_auth sv) (w_now (sv_world sv)) (signer r) r s = Ok ()"
      "serve_clean sv r s = serve_authenticated sv r s"
  | (exempt) "auth_exempt r" "serve_clean sv r s = serve_authenticated sv r s"
  | (no_auth) "\<not> UseAuth (sv_conf sv)" "serve_clean sv r s = serve_authenticated sv r s"
  by (cases "CheckHeader (sv_conf sv) (sv_auth sv) (w_now (sv_world sv)) (signer r) r s")
    (fastforce simp: serve_clean_def Let_def reply_error_def split: if_splits)+

text \<open>\<^bold>\<open>C1\<close>. With authentication on, a request that changes the server in any way carries a valid
  signature of the actor it names, or of the web interface, over its method, path, body, time
  and user; or it uploads a new file under the checksum of its content, which is all that a
  request without a signature can do.\<close>

theorem only_signed_requests_change:
  assumes "UseAuth (sv_conf sv)" "ServeHTTP sv r s = (rep, s')" "s' \<noteq> s"
  shows "CheckHeader (sv_conf sv) (sv_auth sv) (w_now (sv_world sv)) (signer (clean_request r)) (clean_request r) s = Ok () \<or>
    (\<exists>f. s' = file_Save f s \<and> r_Path (clean_request r) = ''/file_store/'' @ fs_Chksum f \<and>
         w_md5 (sv_world sv) (fs_Data f) = fs_Chksum f \<and> \<not> is_ok (file_Get (fs_Chksum f) s))"
proof -
  let ?r = "clean_request r"
  from assms(2,3) have s': "s' = snd (serve_clean sv ?r s)" by (auto simp: ServeHTTP_def split: if_splits)
  show ?thesis
  proof (cases rule: serve_clean_cases [of sv ?r s])
    case exempt
    from exempt assms(3) s' have "s' = snd (fileStoreHandler (sv_world sv) ?r s)"
      and p: "r_Path ?r = ''/file_store/'' @ drop 12 (r_Path ?r)"
      using exempt_authenticated [of ?r sv s] by auto
    with fileStore_change [of "sv_world sv" ?r s] assms(3) show ?thesis by fastforce
  qed (use assms s' in auto)
qed

definition example_service :: "unit service" where
  "example_service =
     \<lparr>sv_conf = example_conf, sv_world = example_world,
      sv_crypto = \<lparr>cr_ValidatePublicKey = (\<lambda>_. None), cr_GenerateRSAKeys = Ok (''priv'', ''pub''),
        cr_GenerateSalt = Ok ''salt'', cr_HashPasswd = (\<lambda>p salt. Ok (p @ salt))\<rparr>,
      sv_auth = example_authlib,
      sv_versions = \<lparr>vl_NewConstraint = (\<lambda>_. []), vl_Check = (\<lambda>_ _. True), vl_String = (\<lambda>_. [])\<rparr>,
      sv_net = \<lparr>nl_SplitHostPort = Some, nl_ParseIP = (\<lambda>a. a), nl_IsLoopback = (\<lambda>a. a = ''127.0.0.1''),
        nl_Equal = (=)\<rparr>,
      sv_search = example_searchlib, sv_shovey = example_shoveylib, sv_pprof = (\<lambda>_. new_response)\<rparr>"

definition example_upload :: request where
  "example_upload = (example_request MethodPut ''//file_store//0'' [])\<lparr>r_Body := ''x'', r_ContentLength := 1\<rparr>"

lemma example_paths:
  "cleanPath ''//file_store//0'' = ''/file_store/0''" "mux_match ''/file_store/0'' = Some RFileStore"
  "\<not> mux_redirect ''/file_store/0''" "list_ex (has_prefix ''/file_store/0'') noOpUserReqs"
  by code_simp+

lemma upload_changes:
  "snd (ServeHTTP example_service example_upload new_server) = file_Save \<lparr>fs_Chksum = ''0'', fs_Data = ''x''\<rparr> new_server"
  by (simp add: ServeHTTP_def example_upload_def example_request_def has_prefix_def clean_request_def example_paths
      serve_clean_def Let_def example_service_def example_conf_def header_Get_def header_values_def auth_exempt_def
      serve_authenticated_def mux_ServeHTTP_def dispatch_def fileStoreHandler_def file_Get_def
      new_server_def ds_Get_def initDataStore_def file_New_def example_world_def reply_json_def)

theorem only_signed_requests_change_witness:
  "\<exists>f. snd (ServeHTTP example_service example_upload new_server) = file_Save f new_server \<and>
     file_Save f new_server \<noteq> new_server \<and> w_md5 example_world (fs_Data f) = fs_Chksum f"
proof -
  let ?s' = "snd (ServeHTTP example_service example_upload new_server)"
  obtain rep where e: "ServeHTTP example_service example_upload new_server = (rep, ?s')" by (metis prod.collapse)
  have "srv_Get ''filestore'' ?s' ''0'' \<noteq> None" "srv_Get ''filestore'' new_server ''0'' = None"
    unfolding upload_changes
    by (simp_all add: file_Save_def new_server_def ds_Get_def initDataStore_def ds_Get_Set)
  then have ne: "?s' \<noteq> new_server" by auto
  have "GetReqUser example_conf u new_server \<noteq> Ok a" for u a
    by (simp add: GetReqUser_def Let_def client_Get_def user_Get_def new_server_def ds_Get_def initDataStore_def)
  then have "CheckHeader example_conf al t u r new_server \<noteq> Ok ()" for al t u r
    by (auto simp: CheckHeader_def split: outcome.split)
  with only_signed_requests_change [OF _ e ne] ne show ?thesis
    by (fastforce simp: example_service_def example_conf_def)
qed

end
