(* ===== verification/Maintenance.thy ===== *)
theory Maintenance
  imports Reports Sandbox
begin

text \<open>
  What a running server does on its own (\<^verbatim>\<open>goiardi.go\<close>): the tickers that purge the event log,
  reports, sandboxes and node statuses, the monitor that marks nodes as down that have not been
  seen for a while, and the events that nodes send through serf. A function is one round of a
  ticker; \<open>Panic\<close> ends the process.
\<close>

subsection \<open>Tickers\<close>

definition int64_sub :: "int \<Rightarrow> int \<Rightarrow> int" where
  "int64_sub a b = (a - b + 2 ^ 63) mod 2 ^ 64 - 2 ^ 63"

definition setLogEventPurgeTicker :: "conf \<Rightarrow> int \<Rightarrow> server \<Rightarrow> server outcome" where
  "setLogEventPurgeTicker cfg now s =
     (if LogEventKeep cfg \<noteq> 0 then
        (case GetLogInfos now [] [0, 1] s of
           Ok (le # _) \<Rightarrow> Ok (snd (PurgeLogInfos (int64_sub (li_ID le) (LogEventKeep cfg)) s))
         | Panic \<Rightarrow> Panic
         | _ \<Rightarrow> Ok s)
      else Ok s)"

text \<open>The result of a round is only logged.\<close>

definition logged :: "'a outcome \<times> server \<Rightarrow> server outcome" where
  "logged r = (case fst r of Panic \<Rightarrow> Panic | _ \<Rightarrow> Ok (snd r))"

definition startReportPurge :: "conf \<Rightarrow> int \<Rightarrow> server \<Rightarrow> server outcome" where
  "startReportPurge cfg now s = logged (DeleteByAge now (PurgeReportsDur cfg) s)"

definition startSandboxPurge :: "conf \<Rightarrow> int \<Rightarrow> server \<Rightarrow> server outcome" where
  "startSandboxPurge cfg now s = logged (sandbox_Purge now (PurgeSandboxesDur cfg) s)"

definition startNodeStatusPurge :: "conf \<Rightarrow> (string \<Rightarrow> int) \<Rightarrow> server \<Rightarrow> server outcome" where
  "startNodeStatusPurge cfg now s =
     (if \<not> UseSerf cfg \<or> PurgeNodeStatusDur cfg = 0 then Ok s
      else logged (DeleteNodeStatusesByAge now (PurgeNodeStatusDur cfg) s))"

definition mark_down :: "int \<Rightarrow> node \<Rightarrow> server \<Rightarrow> server" where
  "mark_down now n s = snd (snd (node_UpdateStatus now ''down'' n s))"

definition startNodeMonitor :: "conf \<Rightarrow> int \<Rightarrow> server \<Rightarrow> server outcome" where
  "startNodeMonitor cfg now s =
     (if \<not> UseSerf cfg then Ok s
      else
        (case UnseenNodes now s of
           (Panic, _) \<Rightarrow> Panic
         | (Err _, s1) \<Rightarrow> Ok s1
         | (Ok unseen, s1) \<Rightarrow> Ok (fold (mark_down now) unseen s1)))"

subsection \<open>Events of nodes\<close>

text \<open>An event of serf: its name and its payload, of which only that of \<open>node_status\<close> is looked at.
  A payload that does not decode is an error. The answer to the node does not change the server.\<close>

record serf_event =
  se_Name :: string
  se_Payload :: "(string \<times> string) list outcome"

definition payload_get :: "(string \<times> string) list \<Rightarrow> string \<Rightarrow> string" where
  "payload_get p k = (case map_of p k of Some v \<Rightarrow> v | None \<Rightarrow> [])"

definition runEventMonitor :: "int \<Rightarrow> serf_event \<Rightarrow> server \<Rightarrow> server outcome" where
  "runEventMonitor now e s =
     (if se_Name e = ''node_status'' then
        (case se_Payload e of
           Panic \<Rightarrow> Panic
         | Err _ \<Rightarrow> Ok s
         | Ok p \<Rightarrow>
             (case node_Get (payload_get p ''node'') s of
                Panic \<Rightarrow> Panic
              | Err _ \<Rightarrow> Ok s
              | Ok n \<Rightarrow> Ok (snd (snd (node_UpdateStatus now (payload_get p ''status'') n s)))))
      else Ok s)"

subsection \<open>The event log is bounded\<close>

lemma int64_sub_small: "- (2 ^ 63) \<le> a - b \<Longrightarrow> a - b < 2 ^ 63 \<Longrightarrow> int64_sub a b = a - b"
  unfolding int64_sub_def by (subst mod_pos_pos_trivial) auto

lemma purged_list:
  assumes "log_ok s"
  shows "GetLogInfoList (srv_ds (snd (PurgeLogInfos i s))) = filter (\<lambda>(k, v). i < k) (GetLogInfoList (srv_ds s))"
proof -
  let ?arr = "GetLogInfoList (srv_ds s)"
  have "map (\<lambda>(k, v). (k, gob_codec v)) (filter (\<lambda>(k, v). i < k) ?arr) = filter (\<lambda>(k, v). i < k) ?arr"
    using assms unfolding log_ok_def by (intro map_idI) auto
  then show ?thesis
    by (simp add: PurgeLogInfos_def PurgeLogInfoBefore_def Let_def GetLogInfoList_def setLogInfoMap_def getLogInfoMap_def ns_or_new_def)
qed

lemma event_at_purged: "log_ok s \<Longrightarrow> event_at (snd (PurgeLogInfos i s)) j = (if i < j then event_at s j else None)"
  by (simp add: event_at_def purged_list map_of_filter_key)

lemma query_events_length:
  assumes "log_ok s"
  shows "length (query_events sp from until s) \<le> length (GetLogInfoList (srv_ds s))"
proof -
  have "length (query_events sp from until s) \<le> length (event_ids s)"
    unfolding query_events_def by (simp add: List.map_filter_def)
  also have "\<dots> = length (GetLogInfoList (srv_ds s))" by (simp flip: event_ids_eq [OF assms])
  finally show ?thesis .
qed

text \<open>What is left lies between two numbers.\<close>

lemma purged_length:
  assumes "log_ok s" "\<forall>k\<in>fst ` set (GetLogInfoList (srv_ds s)). k \<le> m"
  shows "length (GetLogInfoList (srv_ds (snd (PurgeLogInfos i s)))) \<le> nat (m - i)"
proof -
  let ?new = "filter (\<lambda>(k, v). i < k) (GetLogInfoList (srv_ds s))"
  have "distinct (map fst ?new)" using assms(1) by (simp add: log_ok_def distinct_map_filter)
  then have "length ?new = card (fst ` set ?new)" by (metis distinct_card length_map list.set_map)
  also have "\<dots> \<le> card {i<..m}" using assms(2) by (intro card_mono) auto
  finally show ?thesis by (simp add: purged_list [OF assms(1)])
qed

text \<open>\<^bold>\<open>C17\<close>. The purge of the event log, when the latest event is that with the greatest number: of the
  events it leaves those with the last \<open>LogEventKeep\<close> numbers, unchanged, and so at most that
  many of them.\<close>

theorem event_log_bounded:
  assumes "log_ok s" "0 < LogEventKeep cfg" "event_at s i = Some le" "0 < li_Time le" "li_Time le < now"
    "\<forall>j. event_at s j \<noteq> None \<longrightarrow> j \<le> i" "- (2 ^ 62) \<le> i" "i < 2 ^ 62" "LogEventKeep cfg < 2 ^ 62"
  shows "\<exists>s'. setLogEventPurgeTicker cfg now s = Ok s' \<and>
    event_at s' = (\<lambda>j. if i - LogEventKeep cfg < j then event_at s j else None) \<and>
    length (GetLogInfoList (srv_ds s')) \<le> nat (LogEventKeep cfg)"
proof -
  let ?q = "query_events [] 0 now s" and ?k = "i - LogEventKeep cfg"
  have listed: "event_at s j \<noteq> None \<longleftrightarrow> j \<in> fst ` set (GetLogInfoList (srv_ds s))" for j
  proof
    show "j \<in> fst ` set (GetLogInfoList (srv_ds s))" if "event_at s j \<noteq> None"
      using that by (auto simp: event_at_def map_of_SomeD split: option.splits dest!: map_of_SomeD) force
    show "event_at s j \<noteq> None" if "j \<in> fst ` set (GetLogInfoList (srv_ds s))"
      using event_at_listed [OF assms(1), of j] that by (auto simp: event_at_def event_ids_def)
  qed
  have "event_matches [] 0 now le" using assms(4,5) by (simp add: event_matches_def checkTimeRange_def param_def type_param_def)
  moreover have "i \<in> set (event_ids s)" using assms(3) listed [of i] by (simp add: event_ids_def)
  ultimately have "le\<lparr>li_ID := i\<rparr> \<in> set ?q"
    using assms(3) unfolding query_events_def mem_map_filter by (intro bexI [of _ i]) simp_all
  moreover have "li_ID x \<le> i" if "x \<in> set ?q" for x
    using that assms(6) by (auto simp: query_events_def mem_map_filter split: option.splits if_splits)
  ultimately obtain x q where q: "?q = x # q" "li_ID x = i"
    using query_events_sorted [of "[]" 0 now s] by (cases ?q) (auto simp: order_antisym)
  have "GetLogInfos now [] [0, 1] s = log_page [0, 1] (length (GetLogInfoList (srv_ds s))) ?q"
    by (simp add: GetLogInfos_def time_param_def matching_events_Ok [OF assms(1)])
  also have "\<dots> = Ok [x]"
  proof -
    have "GetLogInfoList (srv_ds s) \<noteq> []" using listed [of i] assms(3) by auto
    then show ?thesis using q query_events_length [OF assms(1), of "[]" 0 now] by (subst log_page_Ok) (auto simp: Let_def)
  qed
  finally have "GetLogInfos now [] [0, 1] s = Ok [x]" .
  moreover have "int64_sub i (LogEventKeep cfg) = ?k" using assms(2,7,8,9) by (intro int64_sub_small) simp_all
  ultimately have "setLogEventPurgeTicker cfg now s = Ok (snd (PurgeLogInfos ?k s))"
    using assms(2) q(2) by (simp add: setLogEventPurgeTicker_def)
  moreover have "length (GetLogInfoList (srv_ds (snd (PurgeLogInfos ?k s)))) \<le> nat (LogEventKeep cfg)"
    using purged_length [OF assms(1), of i ?k] assms(6) listed by auto
  ultimately show ?thesis using event_at_purged [OF assms(1), of ?k] by (auto simp: fun_eq_iff)
qed

definition example_keep :: conf where
  "example_keep = example_conf\<lparr>LogEventKeep := 1\<rparr>"

theorem event_log_bounded_witness:
  "\<exists>s'. setLogEventPurgeTicker example_keep 10000000000 example_log = Ok s' \<and>
     event_at s' 1 = None \<and> event_at s' 2 \<noteq> None \<and> length (GetLogInfoList (srv_ds s')) \<le> 1"
proof -
  have at: "event_at example_log 2 = Some (example_event ''modify'' 0)" "\<forall>j. event_at example_log j \<noteq> None \<longrightarrow> j \<le> 2"
    by (auto simp: event_at_def example_log_list)
  from event_log_bounded [OF example_log_ok _ at(1) _ _ at(2), of example_keep 10000000000] at(1)
  show ?thesis by (auto simp: example_keep_def example_event_def new_event_def example_world_def)
qed

end
