(* ===== verification/Frame.thy ===== *)
theory Frame
  imports Access Maintenance
begin

text \<open>
  What the handlers that are not about clients and users leave alone. The locale
  \<open>object_frame\<close> states what a property of the server needs so that these handlers cannot
  touch it: it survives storing objects of other types in their tables and deleting them, and it does not depend on
  the index, the node statuses and the event log. Its lemmas go through all operations and
  handlers once; each interpretation of the locale then holds for all of them.
\<close>

text \<open>Rebuilding the index leaves the store alone.\<close>

lemma reindex_databags_ds: "reindex_databags dbs s = Ok (obs, s') \<Longrightarrow> srv_ds s' = srv_ds s"
  by (induction dbs arbitrary: s obs s') (fastforce simp: outcome_bind_Ok_iff split: outcome.splits)+

lemma reindexAll_ds: "reindexAll s = Ok s' \<Longrightarrow> srv_ds s' = srv_ds s"
  by (auto simp: reindexAll_def Let_def outcome_bind_Ok_iff ReIndex_def ClearIndex_def dest!: reindex_databags_ds)

text \<open>The table in which the values of a type are stored; statuses and events have a store of their
  own.\<close>

fun stored_as :: "string \<Rightarrow> dsval \<Rightarrow> bool" where
  "stored_as t (VClient _) = (t = ''client'')"
| "stored_as t (VUser _) = (t = ''user'')"
| "stored_as t (VNode _) = (t = ''node'')"
| "stored_as t (VRole _) = (t = ''role'')"
| "stored_as t (VEnv _) = (t = ''env'')"
| "stored_as t (VDataBag _) = (t = ''data_bag'')"
| "stored_as t (VCookbook _) = (t = ''cookbook'')"
| "stored_as t (VFile _) = (t = ''filestore'')"
| "stored_as t (VSandbox _) = (t = ''sandbox'')"
| "stored_as t (VReport _) = (t = ''report'')"
| "stored_as t (VShovey _) = (t = ''shovey'')"
| "stored_as t (VShoveyRun _) = (t = ''shovey_run'')"
| "stored_as t (VShoveyStream _) = (t = ''shovey_run_stream'')"
| "stored_as t (VNodeStatus _) = False"
| "stored_as t (VLogInfo _) = False"

locale object_frame =
  fixes I :: "server \<Rightarrow> bool"
  assumes store: "stored_as t v \<Longrightarrow> CHR '':'' \<notin> set t \<Longrightarrow> t \<noteq> ''client'' \<Longrightarrow> t \<noteq> ''user'' \<Longrightarrow> I s \<Longrightarrow> I (srv_Set t k v s)"
    and remove: "CHR '':'' \<notin> set t \<Longrightarrow> t \<noteq> ''client'' \<Longrightarrow> t \<noteq> ''user'' \<Longrightarrow> I s \<Longrightarrow> I (srv_Delete t k s)"
    and depends: "I s \<Longrightarrow> dsc (srv_ds s') = dsc (srv_ds s) \<Longrightarrow> objList (srv_ds s') = objList (srv_ds s) \<Longrightarrow> I s'"
begin

lemma keep_srv:
  "I s \<Longrightarrow> I (srv_Index obj s)" "I s \<Longrightarrow> I (srv_Unindex c d s)" "I s \<Longrightarrow> I (s\<lparr>srv_ix := ix\<rparr>)"
  by (auto simp: srv_Index_def srv_Unindex_def elim: depends)

lemma keep_attempt:
  "I s0 \<Longrightarrow> (\<And>x. I (snd (k x))) \<Longrightarrow> (\<And>e. I (snd (f e))) \<Longrightarrow> I (snd (attempt res s0 f k))"
  by (cases res) auto

lemma keep_with_opUser: "I s \<Longrightarrow> (\<And>a. I (snd (k a))) \<Longrightarrow> I (snd (with_opUser r s k))"
  unfolding with_opUser_def by (rule keep_attempt) (simp_all add: reply_error_def)

lemma keep_replies:
  "I s \<Longrightarrow> I (snd (reply_error m st w s))" "I s \<Longrightarrow> I (snd (reply_json v w s))"
  "I s \<Longrightarrow> I (snd (not_allowed_this w s))" "I s \<Longrightarrow> I (snd (not_allowed_take w s))"
  "I s \<Longrightarrow> I (snd (cannot_find n s))" "I s \<Longrightarrow> I (snd (cannot_get n e s))"
  by (simp_all add: reply_error_def reply_json_def not_allowed_this_def not_allowed_take_def cannot_find_def cannot_get_def)

lemma keep_logs:
  "I s \<Longrightarrow> I (LogEvent cfg wd a obj act s)" "I s \<Longrightarrow> I (loginfo_Delete le s)" "I s \<Longrightarrow> I (snd (PurgeLogInfos i s))"
  by (auto simp: LogEvent_def loginfo_Delete_def PurgeLogInfos_def SetLogInfo_def DeleteLogInfo_def PurgeLogInfoBefore_def
      setLogInfoMap_def Let_def split: prod.split elim!: depends)

lemma keep_ds: "I s \<Longrightarrow> dsc ds = dsc (srv_ds s) \<Longrightarrow> objList ds = objList (srv_ds s) \<Longrightarrow> I (s\<lparr>srv_ds := ds\<rparr>)"
  by (auto elim: depends)

lemma keep_node:
  "I s \<Longrightarrow> I (node_Save n s)"
  "I s \<Longrightarrow> I (node_deleteStatuses n s)"
  "I s \<Longrightarrow> I (snd (LatestStatus n s))"
  by (auto simp: node_Save_def node_deleteStatuses_def DeleteNodeStatus_def deleteStatuses_def LatestStatus_def
      LatestNodeStatus_def Let_def intro!: keep_srv store keep_ds split: option.split prod.split list.split)

lemma keep_node2:
  "I s \<Longrightarrow> I (node_Delete cfg n s)"
  "I s \<Longrightarrow> I (snd (snd (node_UpdateStatus now st n s)))"
  by (auto simp: node_Delete_def Let_def node_UpdateStatus_def SetNodeStatus_def intro!: keep_srv keep_node remove keep_ds)

lemma keep_objects:
  "I s \<Longrightarrow> I (role_Save r s)" "I s \<Longrightarrow> I (role_Delete r s)"
  "I s \<Longrightarrow> I (snd (env_Save e s))" "I s \<Longrightarrow> I (snd (env_Delete e s))" "I s \<Longrightarrow> I (MakeDefaultEnvironment s)"
  "I s \<Longrightarrow> I (databag_Save db s)" "I s \<Longrightarrow> I (sandbox_Save sb s)" "I s \<Longrightarrow> I (file_Save f s)" "I s \<Longrightarrow> I (file_Delete f s)"
  "I s \<Longrightarrow> I (cookbook_Save c s)" "I s \<Longrightarrow> I (cookbook_Delete c s)" "I s \<Longrightarrow> I (snd (databag_New name s))"
  by (auto simp: role_Save_def role_Delete_def env_Save_def env_Delete_def MakeDefaultEnvironment_def databag_Save_def
      sandbox_Save_def file_Save_def file_Delete_def cookbook_Save_def cookbook_Delete_def databag_New_def
      intro!: keep_srv store remove split: outcome.split)

lemma keep_items:
  "I s \<Longrightarrow> I (snd (snd (NewDBItem raw db s)))" "I s \<Longrightarrow> I (snd (snd (UpdateDBItem i raw db s)))"
  "I s \<Longrightarrow> I (snd (DeleteDBItem i db s))"
  by (auto simp: NewDBItem_def UpdateDBItem_def DeleteDBItem_def Let_def intro!: keep_srv keep_objects
      split: gval.split outcome.split)

lemma keep_databag_Delete: "I s \<Longrightarrow> I (databag_Delete db s)"
proof -
  assume s: "I s"
  have "I (snd (fold (\<lambda>dbiName (d, s'). DeleteDBItem dbiName d s') ns (d, s)))" if "I s" for ns d s
    using that by (induction ns arbitrary: d s) (simp_all add: DeleteDBItem_def Let_def keep_srv keep_objects)
  from this [OF s] show ?thesis
    by (auto simp: databag_Delete_def Let_def intro!: keep_srv remove)
qed

lemma keep_DeleteHashes: "I s \<Longrightarrow> I (snd (DeleteHashes fs s))"
  by (induction fs s rule: DeleteHashes.induct) (auto intro: keep_objects split: outcome.split)

lemma keep_deleteHashes: "I s \<Longrightarrow> I (snd (deleteHashes c fs s))"
  by (auto simp: deleteHashes_def intro: keep_DeleteHashes split: outcome.split)

lemma keep_versions:
  "I s \<Longrightarrow> I (snd (snd (DeleteVersion v c s)))"
  "I s \<Longrightarrow> I (snd (snd (UpdateVersion url fv d force cbv s)))"
  using keep_deleteHashes
  by (auto simp: DeleteVersion_def UpdateVersion_def Let_def split: outcome.split prod.split option.split
      intro!: keep_objects) (metis keep_objects(10) snd_conv)+

lemma keep_NewVersion: "I s \<Longrightarrow> I (snd (snd (NewVersion url fv v d c s)))"
  using keep_versions(2) [of s url fv d False]
  by (auto simp: NewVersion_def Let_def split: outcome.split prod.split intro!: keep_objects) (metis snd_conv)+

lemmas keep_ops = keep_logs keep_node keep_node2 keep_objects keep_items keep_databag_Delete keep_versions keep_NewVersion
lemmas keeps = keep_attempt keep_with_opUser keep_replies keep_ops

text \<open>The handlers.\<close>

lemma keep_nodes:
  assumes "I s"
  shows "I (snd (nodeHandler cfg wd r s))" "I (snd (nodeHandling cfg wd r s))"
  using assms
  by (auto simp: nodeHandler_def nodeHandling_def node_read_or_delete_def node_put_def node_post_def Let_def split_beta
      intro!: keeps split: http_method.split outcome.split)

lemma keep_roles:
  assumes "I s"
  shows "I (snd (roleHandler cfg wd r s))" "I (snd (roleHandling cfg wd r s))"
  using assms
  by (auto simp: roleHandler_def roleHandling_def role_read_or_delete_def role_put_def role_post_def role_environments_def
      Let_def split_beta intro!: keeps split: http_method.split outcome.split gval.split)

lemma keep_databags:
  assumes "I s"
  shows "I (snd (databags_handler cfg wd r a s))" "I (snd (databag_handler cfg wd r a db s))"
    "I (snd (item_put cfg wd r a db i s))" "I (snd (data_head cfg a pa n s))"
  using assms
  by (auto simp: databags_handler_def databag_post_def databag_handler_def item_put_def data_head_def Let_def split_beta
      intro!: keeps split: http_method.split outcome.split gval.split)

lemma keep_data:
  assumes "I s"
  shows "I (snd (dataHandler cfg wd r s))"
  using assms
  by (auto simp: dataHandler_def item_handler_def Let_def intro!: keeps keep_databags split: http_method.split)

lemma keep_sandboxes:
  assumes "I s"
  shows "I (snd (sandboxHandler cfg wd r s))" "I (snd (fileStoreHandler wd r s))"
  using assms
  by (auto simp: sandboxHandler_def sandbox_post_def sandbox_put_def fileStoreHandler_def Let_def
      intro!: keeps split: http_method.split gval.split outcome.split)

lemma keep_event_list: "I s \<Longrightarrow> I (snd (eventListHandler cfg wd r s))"
  by (auto simp: eventListHandler_def event_list_get_def Let_def split_beta
      intro!: keeps split: http_method.split simp del: form_params.simps)

lemma keep_event: "I s \<Longrightarrow> I (snd (eventHandler cfg wd r s))"
  by (auto simp: eventHandler_def Let_def split_beta intro!: keeps split: http_method.split option.split)

lemmas keep_events = keep_event_list keep_event

lemma keep_all_statuses: "I s \<Longrightarrow> I (snd (all_statuses wd ns s))"
  by (induction ns arbitrary: s) (auto simp: split_beta Let_def intro!: keep_node split: outcome.split)

lemma keep_status: "I s \<Longrightarrow> I (snd (statusHandler cfg wd r s))"
  by (auto simp: statusHandler_def status_all_def status_node_def Let_def split_beta
      intro!: keeps keep_all_statuses split: http_method.split)

lemma keep_env_put: "I s \<Longrightarrow> I (snd (env_put_data cfg wd a n e d s))"
  by (auto simp: env_put_data_def env_put_save_def Let_def split_beta intro!: keeps split: outcome.split)

lemma keep_env: "I s \<Longrightarrow> I (snd (env_handler cfg wd r a n s))" "I s \<Longrightarrow> I (snd (envs_handler cfg wd r a s))"
  by (auto simp: env_handler_def env_delete_def env_put_def envs_handler_def env_post_def Let_def split_beta
      intro!: keeps keep_env_put split: http_method.split option.split gval.split outcome.split)

lemma keep_env_op: "I s \<Longrightarrow> I (snd (env_op cfg vl wd r a n op nr s))" "I s \<Longrightarrow> I (snd (env_object cfg wd r a n op on nr s))"
  by (auto simp: env_op_def env_cookbook_versions_def env_object_def Let_def
      intro!: keeps split: option.split gval.split sum.split)

lemma keep_environments: "I s \<Longrightarrow> I (snd (environmentHandler cfg vl wd r s))"
  by (auto simp: environmentHandler_def Let_def intro!: keeps keep_env keep_env_op)

lemma keep_version_put: "I s \<Longrightarrow> I (snd (version_put_stored cfg wd a n v force d cb s))"
  by (auto simp: version_put_stored_def Let_def split_beta intro!: keeps split: outcome.split)

lemma keep_version: "I s \<Longrightarrow> I (snd (version_handler cfg wd r a n v force s))"
  by (auto simp: version_handler_def version_head_def version_get_def version_delete_def version_put_def Let_def split_beta
      intro!: keeps keep_version_put split: http_method.split option.split)

lemma keep_cookbooks: "I s \<Longrightarrow> I (snd (cookbookHandler cfg wd r s))" "I s \<Longrightarrow> I (snd (universeHandler wd r s))"
  by (auto simp: cookbookHandler_def cookbook_info_def universeHandler_def Let_def
      intro!: keeps keep_version split: option.split http_method.split)

lemma keep_readers:
  "I s \<Longrightarrow> I (snd (principalHandler cfg r s))" "I s \<Longrightarrow> I (snd (authenticateUserHandler cfg cr r s))"
  by (auto simp: principalHandler_def authenticateUserHandler_def Let_def intro!: keeps split: http_method.split)

lemma keep_search: "I s \<Longrightarrow> I (snd (searchHandler cfg wd sl r s))" "I s \<Longrightarrow> I (snd (reindexHandler cfg r s))"
  by (auto simp: searchHandler_def search_index_def reindexHandler_def Let_def
      intro!: keeps split: option.split) (auto elim: depends)

lemma keep_reports: "I s \<Longrightarrow> I (snd (reportHandler cfg wd r s))"
  by (auto simp: reportHandler_def report_query_def report_get_def report_post_def report_Save_def Let_def split_beta
      intro!: keeps store split: http_method.split option.split outcome.split gval.split)

lemma keep_runs: "I s \<Longrightarrow> I (run_save sr s)" "I s \<Longrightarrow> I (snd (shovey_save now sh s))"
  by (auto simp: run_save_def shovey_save_def Let_def intro!: store)

lemma keep_fold_runs: "I s \<Longrightarrow> I (fold (\<lambda>n. run_save (f n)) ns s)"
  by (induction ns arbitrary: s) (simp_all add: keep_runs)

lemma keep_by_status: "I s \<Longrightarrow> I (snd (by_status_loop st ns s))"
  by (induction ns arbitrary: s) (auto simp: split_beta Let_def intro!: keep_node split: outcome.split)

lemma keep_start: "I s \<Longrightarrow> I (snd (snd (Start wd sy sh s)))"
proof -
  assume s: "I s"
  have "I (snd (GetNodesByStatus ns st s))" for ns st
    using s by (auto simp: GetNodesByStatus_def intro: keep_by_status split: outcome.split)
  then have "I (snd (startJobs wd sy sh s))"
    using s by (auto simp: startJobs_def create_runs_def Let_def split_beta intro!: keep_fold_runs split: outcome.split sum.split)
  then show ?thesis by (auto simp: Start_def split_beta intro: keep_runs split: outcome.split option.split)
qed

lemma keep_cancel_runs: "I s \<Longrightarrow> I (snd (cancel_runs now sh ns s))"
  by (induction ns arbitrary: s) (auto intro: keep_runs split: outcome.split)

lemma keep_completed: "I s \<Longrightarrow> checkCompleted now sh s = Ok (sh1, s1) \<Longrightarrow> I s1"
  using keep_runs(2) [of s now "sh\<lparr>sh_Status := ''complete''\<rparr>"]
  by (auto simp: checkCompleted_def Let_def split: outcome.splits if_splits)

lemma keep_cancel_job: "I s \<Longrightarrow> cancel_job now ns sh s = Ok (sh1, s1) \<Longrightarrow> I s1"
  using keep_runs(2) [of s now] keep_completed by (auto simp: cancel_job_def Let_def split: if_splits) (metis snd_conv)+

lemma keep_cancel: "I s \<Longrightarrow> I (snd (snd (CancelRuns wd sy ns sh s)))" "I s \<Longrightarrow> I (snd (snd (Cancel wd sy sh s)))"
proof -
  show *: "I (snd (snd (CancelRuns wd sy ns sh s)))" if "I s" for ns sh s
    using that keep_cancel_runs [OF that, of "w_now wd" sh ns]
    by (auto simp: CancelRuns_def Let_def split_beta elim: keep_cancel_job split: outcome.split prod.split)
  show "I (snd (snd (Cancel wd sy sh s)))" if "I s"
    using that * [of s] keep_runs by (auto simp: Cancel_def Let_def split_beta split: outcome.split)
qed

lemma keep_streams: "I s \<Longrightarrow> I (snd (AddStreamOutput now out t n l sr s))" "I s \<Longrightarrow> I (run_UpdateFromJSON now d sr s)"
  by (auto simp: AddStreamOutput_def run_UpdateFromJSON_def Let_def intro!: store)
    (auto intro: depends [OF keep_runs(1)])

lemma keep_hang:
  "I s0 \<Longrightarrow> (\<And>x. I (snd (k x))) \<Longrightarrow> (\<And>e. I (snd (f e))) \<Longrightarrow> I (snd (attempt_or_hang res s0 f k))"
  by (auto simp: attempt_or_hang_def intro!: keep_attempt split: option.split)

lemma keep_shovey_New: "I s \<Longrightarrow> I (snd (shovey_New wd c t q ns s))"
  by (auto simp: shovey_New_def Let_def split_beta intro: keep_runs)

lemma keep_jobs: "I s \<Longrightarrow> I (snd (jobs_handler wd sy r pa s))"
  by (auto simp: jobs_handler_def job_get_def job_post_def job_start_def job_put_def job_cancel_def Let_def split_beta
      intro!: keeps keep_hang keep_start keep_shovey_New keep_cancel keep_streams split: http_method.split gval.split)

lemma keep_stream_handler: "I s \<Longrightarrow> I (snd (stream_handler wd r pa s))"
  by (auto simp: stream_handler_def stream_get_def stream_put_def Let_def split_beta
      intro!: keeps keep_hang keep_streams split: http_method.split)

lemma keep_shovey: "I s \<Longrightarrow> I (snd (shoveyHandler cfg wd sy r s))"
  by (auto simp: shoveyHandler_def Let_def intro!: keeps keep_jobs keep_stream_handler)

lemmas keep_handlers = keep_nodes keep_roles keep_data keep_sandboxes keep_events keep_status keep_environments
  keep_cookbooks keep_readers keep_search keep_reports keep_shovey

text \<open>A request keeps the property if the handlers of clients and users keep it.\<close>

lemma keep_dispatch:
  assumes "I s" "I (snd (clientHandler (sv_conf sv) (sv_world sv) (sv_crypto sv) r s))"
    "I (snd (clientHandling (sv_conf sv) (sv_world sv) (sv_crypto sv) r s))"
    "I (snd (userHandler (sv_conf sv) (sv_world sv) (sv_crypto sv) r s))"
    "I (snd (userHandling (sv_conf sv) (sv_world sv) (sv_crypto sv) r s))"
  shows "I (snd (dispatch sv rt r s))"
  using assms by (cases rt) (auto simp: dispatch_def listHandler_def Let_def intro!: keeps keep_handlers)

text \<open>What runs beside the requests.\<close>

lemma keep_fold_Delete: "CHR '':'' \<notin> set t \<Longrightarrow> t \<noteq> ''client'' \<Longrightarrow> t \<noteq> ''user'' \<Longrightarrow> I s \<Longrightarrow> I (fold (\<lambda>x. srv_Delete t (f x)) xs s)"
  by (induction xs arbitrary: s) (simp_all add: remove)

lemma keep_purges:
  "I s \<Longrightarrow> I (snd (DeleteByAge now dur s))" "I s \<Longrightarrow> I (snd (sandbox_Purge now dur s))"
proof -
  have d: "report_Delete = (\<lambda>r. srv_Delete ''report'' (rp_RunID r))" by (simp add: report_Delete_def fun_eq_iff)
  show "I s \<Longrightarrow> I (snd (DeleteByAge now dur s))"
    by (auto simp: DeleteByAge_def Let_def d intro!: keep_fold_Delete split: outcome.split)
  show "I s \<Longrightarrow> I (snd (sandbox_Purge now dur s))"
    by (auto simp: sandbox_Purge_def Let_def intro!: keep_fold_Delete split: outcome.split)
qed

lemma ReplaceNodeStatuses_store:
  "dsc (snd (ReplaceNodeStatuses codec n vs ds)) = dsc ds" "objList (snd (ReplaceNodeStatuses codec n vs ds)) = objList ds"
  by (auto simp: ReplaceNodeStatuses_def deleteStatuses_def Let_def split: prod.split option.split)

lemma keep_by_age: "I s \<Longrightarrow> I (snd (by_age_loop now dur ns j s))"
proof (induction ns arbitrary: j s)
  case (Cons n ns)
  have "I (s\<lparr>srv_ds := snd (ReplaceNodeStatuses gob_codec m vs (srv_ds s))\<rparr>)" for m vs
    using Cons.prems by (rule keep_ds) (simp_all add: ReplaceNodeStatuses_store)
  then show ?case using Cons by (auto simp: Let_def split: outcome.split list.split prod.split option.split) (metis snd_conv)+
qed simp

lemma keep_unseen: "I s \<Longrightarrow> I (snd (unseen_loop t ns s))"
  by (induction ns arbitrary: s) (auto simp: split_beta Let_def intro!: keep_node split: outcome.split)

lemma keep_mark_down: "I s \<Longrightarrow> I (fold (mark_down now) ns s)"
  by (induction ns arbitrary: s) (simp_all add: mark_down_def keep_node2)

lemma keep_logged: "I (snd r) \<Longrightarrow> logged r = Ok s \<Longrightarrow> I s"
  by (auto simp: logged_def split: outcome.splits)

lemma keep_tickers:
  "I s \<Longrightarrow> setLogEventPurgeTicker cfg now s = Ok s' \<Longrightarrow> I s'"
  "I s \<Longrightarrow> startReportPurge cfg now s = Ok s' \<Longrightarrow> I s'"
  "I s \<Longrightarrow> startSandboxPurge cfg now s = Ok s' \<Longrightarrow> I s'"
  "I s \<Longrightarrow> startNodeStatusPurge cfg nows s = Ok s' \<Longrightarrow> I s'"
  "I s \<Longrightarrow> startNodeMonitor cfg now s = Ok s' \<Longrightarrow> I s'"
  "I s \<Longrightarrow> runEventMonitor now e s = Ok s' \<Longrightarrow> I s'"
proof -
  show "I s \<Longrightarrow> setLogEventPurgeTicker cfg now s = Ok s' \<Longrightarrow> I s'"
    by (auto simp: setLogEventPurgeTicker_def intro: keep_logs split: if_splits outcome.splits list.splits)
  show "I s \<Longrightarrow> startReportPurge cfg now s = Ok s' \<Longrightarrow> I s'" "I s \<Longrightarrow> startSandboxPurge cfg now s = Ok s' \<Longrightarrow> I s'"
    unfolding startReportPurge_def startSandboxPurge_def by (auto elim: keep_logged [rotated] intro: keep_purges)
  have "I s \<Longrightarrow> I (snd (DeleteNodeStatusesByAge nows dur s))" for dur
    by (auto simp: DeleteNodeStatusesByAge_def intro: keep_by_age split: outcome.split)
  then show "I s \<Longrightarrow> startNodeStatusPurge cfg nows s = Ok s' \<Longrightarrow> I s'"
    by (auto simp: startNodeStatusPurge_def elim: keep_logged [rotated] split: if_splits)
  have "I s \<Longrightarrow> I (snd (UnseenNodes now s))"
    by (auto simp: UnseenNodes_def intro: keep_unseen split: outcome.split)
  then show "I s \<Longrightarrow> startNodeMonitor cfg now s = Ok s' \<Longrightarrow> I s'"
    by (cases "UnseenNodes now s") (auto simp: startNodeMonitor_def intro: keep_mark_down split: if_splits outcome.splits)
  show "I s \<Longrightarrow> runEventMonitor now e s = Ok s' \<Longrightarrow> I s'"
    by (auto simp: runEventMonitor_def intro: keep_node2 split: if_splits outcome.splits)
qed

lemma keep_background:
  "I s \<Longrightarrow> reindexAll s = Ok s' \<Longrightarrow> I (s'\<lparr>srv_reindexes := n\<rparr>)"
  "I s \<Longrightarrow> notifyParent now uuid s = Ok s' \<Longrightarrow> I (s'\<lparr>srv_notified := us\<rparr>)"
proof -
  show "I (s'\<lparr>srv_reindexes := n\<rparr>)" if "I s" "reindexAll s = Ok s'"
    by (rule depends [OF that(1)]) (simp_all add: reindexAll_ds [OF that(2)])
  show "I (s'\<lparr>srv_notified := us\<rparr>)" if "I s" "notifyParent now uuid s = Ok s'"
  proof -
    have "I s'" using that by (auto simp: notifyParent_def outcome_bind_Ok_iff elim: keep_completed split: outcome.splits)
    then show ?thesis by (rule depends) simp_all
  qed
qed

end

end
