(* ===== verification/Confinement.thy ===== *)
theory Confinement
  imports Frame
begin

text \<open>
  What a request can do to clients and users, as two invariants of the locale of \<^verbatim>\<open>Frame.thy\<close>:
  the names of clients and users stay apart, and a request of an actor that is not an
  administrator changes no other actor and creates no administrator. At the end, the actors
  that a new server starts with.
\<close>

subsection \<open>The invariant of the actors\<close>

lemma actors_ok_frame:
  assumes "actors_ok s" "ds_ok (srv_ds s) \<Longrightarrow> ds_ok (srv_ds s')"
    "srv_Get ''client'' s' = srv_Get ''client'' s" "srv_Get ''user'' s' = srv_Get ''user'' s"
  shows "actors_ok s'"
  using assms by (simp add: actors_ok_def clients_typed_def users_typed_def)

lemma frame_store:
  assumes "CHR '':'' \<notin> set t" "t \<noteq> ''client''" "t \<noteq> ''user''"
  shows "srv_Get ''client'' (srv_Set t k v s) = srv_Get ''client'' s" "srv_Get ''user'' (srv_Set t k v s) = srv_Get ''user'' s"
    "srv_Get ''client'' (srv_Delete t k s) = srv_Get ''client'' s" "srv_Get ''user'' (srv_Delete t k s) = srv_Get ''user'' s"
    "ds_ok (srv_ds s) \<Longrightarrow> ds_ok (srv_ds (srv_Set t k v s))" "ds_ok (srv_ds s) \<Longrightarrow> ds_ok (srv_ds (srv_Delete t k s))"
  using assms by (simp_all add: ds_Get_other srv_Delete_def ds_ok_Set ds_ok_Delete)

lemma frame_depends:
  assumes "dsc (srv_ds s') = dsc (srv_ds s)" "objList (srv_ds s') = objList (srv_ds s)"
  shows "srv_Get t s' = srv_Get t s" "ds_ok (srv_ds s') = ds_ok (srv_ds s)"
  using assms by (auto simp: ds_Get_def ds_ok_def names_of_def fun_eq_iff)

interpretation actor_names: object_frame actors_ok
proof
  show "actors_ok (srv_Set t k v s)" if "CHR '':'' \<notin> set t" "t \<noteq> ''client''" "t \<noteq> ''user''" "actors_ok s" for t k v s
    by (rule actors_ok_frame [OF that(4)]) (use frame_store [OF that(1-3)] in auto)
  show "actors_ok (srv_Delete t k s)" if "CHR '':'' \<notin> set t" "t \<noteq> ''client''" "t \<noteq> ''user''" "actors_ok s" for t k s
    by (rule actors_ok_frame [OF that(4)]) (use frame_store [OF that(1-3)] in auto)
  show "actors_ok s'" if "actors_ok s" "dsc (srv_ds s') = dsc (srv_ds s)" "objList (srv_ds s') = objList (srv_ds s)" for s s'
    by (rule actors_ok_frame [OF that(1)]) (use frame_depends [OF that(2,3)] in auto)
qed

lemma ok_actor_ops:
  assumes "actors_ok s"
  shows "actors_ok (snd (client_Save c s))" "actors_ok (snd (client_Delete c s))" "actors_ok (snd (snd (client_Rename n c s)))"
    "actors_ok (snd (user_Save u s))" "actors_ok (snd (user_Delete u s))" "actors_ok (snd (snd (user_Rename n u s)))"
proof -
  show "actors_ok (snd (client_Save c s))" using client_Save_cases [of c s] assms actors_ok_ops by (metis prod.collapse)
  show "actors_ok (snd (client_Delete c s))" using client_Delete_cases [of c s] assms actors_ok_ops by (metis prod.collapse)
  show "actors_ok (snd (snd (client_Rename n c s)))"
    using client_Rename_cases [of n c s] assms actors_ok_ops by (metis prod.collapse)
  show "actors_ok (snd (user_Save u s))" using user_Save_cases [of u s] assms actors_ok_ops by (metis prod.collapse)
  show "actors_ok (snd (user_Delete u s))" using user_Delete_cases [of u s] assms actors_ok_ops by (metis prod.collapse)
  show "actors_ok (snd (snd (user_Rename n u s)))"
    using user_Rename_cases [of n u s] assms actors_ok_ops by (metis prod.collapse)
qed

lemma ok_clients:
  assumes "actors_ok s"
  shows "actors_ok (snd (clientHandler cfg wd cr r s))" "actors_ok (snd (clientHandling cfg wd cr r s))"
  using assms
  by (auto simp: clientHandler_def clientHandling_def client_delete_def client_head_def client_get_def client_put_def
      client_put_rename_def client_put_update_def client_post_def not_allowed_def Let_def split_beta
      intro!: actor_names.keeps ok_actor_ops split: http_method.split)

lemma ok_users:
  assumes "actors_ok s"
  shows "actors_ok (snd (userHandler cfg wd cr r s))" "actors_ok (snd (userHandling cfg wd cr r s))"
  using assms
  by (auto simp: userHandler_def userHandling_def user_delete_def user_head_def user_get_def user_put_def
      user_put_rename_def user_put_update_def user_post_def not_allowed_def Let_def split_beta
      intro!: actor_names.keeps ok_actor_ops split: http_method.split)


subsection \<open>The way of a request to its handler\<close>

text \<open>A request changes nothing, or it is dispatched to a handler with the actor that its header
  names, or with none.\<close>

lemma ServeHTTP_dispatch:
  obtains (unchanged) "snd (ServeHTTP sv r s) = s"
  | (dispatched) rt a where "snd (ServeHTTP sv r s) = snd (dispatch sv rt (clean_request r\<lparr>r_OpUser := a\<rparr>) s)"
      "a = None \<or> (\<exists>b. a = Some b \<and> GetReqUser (sv_conf sv) (header_Get r ''X-Ops-Userid'') s = Ok b)"
proof -
  let ?r = "clean_request r"
  have h: "header_Get ?r k = header_Get r k" for k
    by (simp add: clean_request_def header_Get_def header_values_def)
  have m: "snd (mux_ServeHTTP sv q s) = s \<or> (\<exists>rt. snd (mux_ServeHTTP sv q s) = snd (dispatch sv rt q s))" for q
    by (auto simp: mux_ServeHTTP_def split: option.split)
  have a: "snd (serve_authenticated sv ?r s) = s \<or>
      (\<exists>rt a. snd (serve_authenticated sv ?r s) = snd (dispatch sv rt (?r\<lparr>r_OpUser := a\<rparr>) s) \<and>
        (a = None \<or> (\<exists>b. a = Some b \<and> GetReqUser (sv_conf sv) (header_Get r ''X-Ops-Userid'') s = Ok b)))"
  proof -
    have "snd (serve_authenticated sv ?r s) = s \<or>
      (\<exists>a. snd (serve_authenticated sv ?r s) = snd (mux_ServeHTTP sv (?r\<lparr>r_OpUser := a\<rparr>) s) \<and>
        (a = None \<or> (\<exists>b. a = Some b \<and> GetReqUser (sv_conf sv) (header_Get r ''X-Ops-Userid'') s = Ok b)))"
      by (auto simp: serve_authenticated_def attempt_def h reply_error_def split: option.split outcome.split)
    then show ?thesis using m by metis
  qed
  have "snd (ServeHTTP sv r s) = s \<or> snd (ServeHTTP sv r s) = snd (serve_authenticated sv ?r s)"
    by (cases rule: serve_clean_cases [of sv ?r s]) (simp_all add: ServeHTTP_def)
  with a show thesis by (elim disjE exE conjE) (simp_all add: that)
qed

lemma ok_dispatch: "actors_ok s \<Longrightarrow> actors_ok (snd (dispatch sv rt r s))"
  by (rule actor_names.keep_dispatch) (auto intro: ok_clients ok_users)

lemma ok_ServeHTTP: "actors_ok s \<Longrightarrow> actors_ok (snd (ServeHTTP sv r s))"
  by (cases rule: ServeHTTP_dispatch [of sv r s]) (auto intro: ok_dispatch)

subsection \<open>What an actor without administrator rights can do to others\<close>

definition self_client :: "actor \<Rightarrow> string \<Rightarrow> bool" where
  "self_client a n \<longleftrightarrow> (case a of AClient c \<Rightarrow> cl_Name c = n | AUser _ \<Rightarrow> False)"

definition self_user :: "actor \<Rightarrow> string \<Rightarrow> bool" where
  "self_user a n \<longleftrightarrow> (case a of AClient _ \<Rightarrow> False | AUser u \<Rightarrow> us_Username u = n)"

fun client_validator :: "dsval \<Rightarrow> bool" where
  "client_validator (VClient c) = cl_Validator c"
| "client_validator _ = False"

text \<open>Two stores, as functions of the name: the records of the others are kept, and there are no
  new ones with a right.\<close>

definition keeps_others :: "(string \<Rightarrow> bool) \<Rightarrow> (string \<Rightarrow> dsval option) \<Rightarrow> (string \<Rightarrow> dsval option) \<Rightarrow> bool" where
  "keeps_others self g0 g \<longleftrightarrow> (\<forall>n v. g0 n = Some v \<longrightarrow> \<not> self n \<longrightarrow> g n = Some v)"

definition no_new :: "(dsval \<Rightarrow> bool) \<Rightarrow> (string \<Rightarrow> dsval option) \<Rightarrow> (string \<Rightarrow> dsval option) \<Rightarrow> bool" where
  "no_new right g0 g \<longleftrightarrow> (\<forall>n v. g n = Some v \<longrightarrow> right v \<longrightarrow> g0 n = Some v)"

lemma keeps_others_upd:
  "keeps_others self g0 g \<Longrightarrow> g n = None \<or> self n \<Longrightarrow> keeps_others self g0 (g(n := x))"
  unfolding keeps_others_def by (metis fun_upd_apply option.distinct(1))

lemma no_new_upd:
  "no_new right g0 g \<Longrightarrow> \<not> right v \<Longrightarrow> no_new right g0 (g(n \<mapsto> v))"
  "no_new right g0 g \<Longrightarrow> no_new right g0 (g(n := None))"
  unfolding no_new_def by (metis fun_upd_apply option.inject, metis fun_upd_apply option.distinct(1))

text \<open>From \<open>s0\<close> to \<open>s\<close> the actors other than \<open>a\<close> are kept, and \<open>s\<close> has no new administrators, nor
  new validators unless \<open>a\<close> is one.\<close>

definition confined :: "conf \<Rightarrow> actor \<Rightarrow> server \<Rightarrow> server \<Rightarrow> bool" where
  "confined cfg a s0 s \<longleftrightarrow> actors_ok s \<and>
     keeps_others (self_client a) (srv_Get ''client'' s0) (srv_Get ''client'' s) \<and>
     keeps_others (self_user a) (srv_Get ''user'' s0) (srv_Get ''user'' s) \<and>
     no_new client_admin (srv_Get ''client'' s0) (srv_Get ''client'' s) \<and>
     no_new user_admin (srv_Get ''user'' s0) (srv_Get ''user'' s) \<and>
     (IsValidator cfg a \<or> no_new client_validator (srv_Get ''client'' s0) (srv_Get ''client'' s))"

lemma confined_refl: "actors_ok s \<Longrightarrow> confined cfg a s s"
  by (simp add: confined_def keeps_others_def no_new_def)

lemma confined_frame:
  assumes "confined cfg a s0 s" "ds_ok (srv_ds s) \<Longrightarrow> ds_ok (srv_ds s')"
    "srv_Get ''client'' s' = srv_Get ''client'' s" "srv_Get ''user'' s' = srv_Get ''user'' s"
  shows "confined cfg a s0 s'"
proof -
  have "actors_ok s'" using assms by (auto simp: confined_def intro: actors_ok_frame)
  then show ?thesis using assms(1) unfolding confined_def assms(3,4) by blast
qed

interpretation confines: object_frame "confined cfg a s0" for cfg a s0
proof
  fix t k v and s :: server
  assume *: "CHR '':'' \<notin> set t" "t \<noteq> ''client''" "t \<noteq> ''user''" "confined cfg a s0 s"
  show "confined cfg a s0 (srv_Set t k v s)" by (rule confined_frame [OF *(4)]) (use frame_store [OF *(1-3)] in auto)
  show "confined cfg a s0 (srv_Delete t k s)" by (rule confined_frame [OF *(4)]) (use frame_store [OF *(1-3)] in auto)
next
  show "confined cfg a s0 s'" if "confined cfg a s0 s" "dsc (srv_ds s') = dsc (srv_ds s)" "objList (srv_ds s') = objList (srv_ds s)" for s s'
    by (rule confined_frame [OF that(1)]) (use frame_depends [OF that(2,3)] in auto)
qed


text \<open>Storing and deleting one's own record, or a new one without rights.\<close>

lemma store_maps:
  "srv_ds s' = ds_Set gob_codec ''client'' n (VClient c) (srv_ds s) \<Longrightarrow> srv_Get ''client'' s' = (srv_Get ''client'' s)(n \<mapsto> VClient c)"
  "srv_ds s' = ds_Set gob_codec ''user'' n (VUser u) (srv_ds s) \<Longrightarrow> srv_Get ''user'' s' = (srv_Get ''user'' s)(n \<mapsto> VUser u)"
  "srv_ds s' = ds_Delete ''client'' n (srv_ds s) \<Longrightarrow> srv_Get ''client'' s' = (srv_Get ''client'' s)(n := None)"
  "srv_ds s' = ds_Delete ''user'' n (srv_ds s) \<Longrightarrow> srv_Get ''user'' s' = (srv_Get ''user'' s)(n := None)"
  by (simp_all add: client_store.get_put client_store.get_del user_store.get_put user_store.get_del fun_eq_iff)

lemma confined_put_client:
  assumes "confined cfg a s0 s" "srv_Get ''client'' s (cl_Name c) = None \<or> self_client a (cl_Name c)"
    "\<not> cl_Admin c" "cl_Validator c \<longrightarrow> IsValidator cfg a" "srv_Get ''user'' s (cl_Name c) = None"
    "srv_ds s' = ds_Set gob_codec ''client'' (cl_Name c) (VClient c) (srv_ds s)"
  shows "confined cfg a s0 s'"
proof -
  have "srv_Get ''user'' s' = srv_Get ''user'' s" by (simp add: assms(6))
  moreover have "actors_ok s'" using assms by (auto simp: confined_def intro: actors_ok_set_client)
  ultimately show ?thesis
    using assms(1-4) unfolding confined_def store_maps(1) [OF assms(6)] by (auto intro!: keeps_others_upd no_new_upd)
qed

lemma confined_put_user:
  assumes "confined cfg a s0 s" "srv_Get ''user'' s (us_Username u) = None \<or> self_user a (us_Username u)"
    "\<not> us_Admin u" "srv_Get ''client'' s (us_Username u) = None"
    "srv_ds s' = ds_Set gob_codec ''user'' (us_Username u) (VUser u) (srv_ds s)"
  shows "confined cfg a s0 s'"
proof -
  have "srv_Get ''client'' s' = srv_Get ''client'' s" by (simp add: assms(5))
  moreover have "actors_ok s'" using assms by (auto simp: confined_def intro: actors_ok_set_user)
  ultimately show ?thesis
    using assms(1-3) unfolding confined_def store_maps(2) [OF assms(5)] by (auto intro!: keeps_others_upd no_new_upd)
qed

lemma confined_del_client:
  assumes "confined cfg a s0 s" "srv_Get ''client'' s n = None \<or> self_client a n"
    "srv_ds s' = ds_Delete ''client'' n (srv_ds s)"
  shows "confined cfg a s0 s'"
proof -
  have "srv_Get ''user'' s' = srv_Get ''user'' s" by (simp add: assms(3))
  moreover have "actors_ok s'" using assms by (auto simp: confined_def intro: actors_ok_del_client)
  ultimately show ?thesis
    using assms(1,2) unfolding confined_def store_maps(3) [OF assms(3)] by (auto intro!: keeps_others_upd no_new_upd)
qed

lemma confined_del_user:
  assumes "confined cfg a s0 s" "self_user a n" "srv_ds s' = ds_Delete ''user'' n (srv_ds s)"
  shows "confined cfg a s0 s'"
proof -
  have "srv_Get ''client'' s' = srv_Get ''client'' s" by (simp add: assms(3))
  moreover have "actors_ok s'" using assms by (auto simp: confined_def intro: actors_ok_del_user)
  ultimately show ?thesis
    using assms(1,2) unfolding confined_def store_maps(4) [OF assms(3)] by (auto intro!: keeps_others_upd no_new_upd)
qed

lemma confined_ops:
  assumes "confined cfg a s0 s"
  shows "srv_Get ''client'' s (cl_Name c) = None \<or> self_client a (cl_Name c) \<Longrightarrow> \<not> cl_Admin c \<Longrightarrow>
      (cl_Validator c \<longrightarrow> IsValidator cfg a) \<Longrightarrow> confined cfg a s0 (snd (client_Save c s))"
    and "self_client a (cl_Name c) \<Longrightarrow> confined cfg a s0 (snd (client_Delete c s))"
    and "srv_Get ''user'' s (us_Username u) = None \<or> self_user a (us_Username u) \<Longrightarrow> \<not> us_Admin u \<Longrightarrow>
      confined cfg a s0 (snd (user_Save u s))"
    and "self_user a (us_Username u) \<Longrightarrow> confined cfg a s0 (snd (user_Delete u s))"
proof -
  show "confined cfg a s0 (snd (client_Save c s))" if "srv_Get ''client'' s (cl_Name c) = None \<or> self_client a (cl_Name c)"
    "\<not> cl_Admin c" "cl_Validator c \<longrightarrow> IsValidator cfg a"
    using client_Save_cases [of c s "fst (client_Save c s)" "snd (client_Save c s)"] assms
      confined_put_client [OF assms that] by auto
  show "confined cfg a s0 (snd (client_Delete c s))" if "self_client a (cl_Name c)"
    using client_Delete_cases [of c s "fst (client_Delete c s)" "snd (client_Delete c s)"] assms
      confined_del_client [OF assms] that by auto
  show "confined cfg a s0 (snd (user_Save u s))" if "srv_Get ''user'' s (us_Username u) = None \<or> self_user a (us_Username u)"
    "\<not> us_Admin u"
    using user_Save_cases [of u s "fst (user_Save u s)" "snd (user_Save u s)"] assms
      confined_put_user [OF assms that] by auto
  show "confined cfg a s0 (snd (user_Delete u s))" if "self_user a (us_Username u)"
    using user_Delete_cases [of u s "fst (user_Delete u s)" "snd (user_Delete u s)"] assms
      confined_del_user [OF assms] that by auto
qed

subsection \<open>What an update can set\<close>

definition grants :: "gobj \<Rightarrow> string \<Rightarrow> bool" where
  "grants data perm \<longleftrightarrow> ghas data perm \<and> ValidateAsBool (gget data perm) = Ok True"

lemma CheckPermEdit_iff: "CheckPermEdit data perm = Ok () \<longleftrightarrow> \<not> grants data perm"
  by (simp add: CheckPermEdit_def grants_def)

lemma client_perm_edit_Ok:
  assumes "client_perm_edit cfg a d = Ok ()" "\<not> IsAdmin cfg a"
  shows "\<not> grants d ''admin''" "grants d ''validator'' \<longrightarrow> IsValidator cfg a"
  using assms by (auto simp: client_perm_edit_def Let_def CheckPermEdit_iff split: if_splits)

lemma create_perm_Ok:
  assumes "create_perm cfg a d = Ok ()" "\<not> IsAdmin cfg a"
  shows "IsValidator cfg a" "\<not> grants d ''admin''" "\<not> grants d ''validator''"
  using assms by (auto simp: create_perm_def outcome_bind_Ok_iff CheckPermEdit_iff split: if_splits)

lemma client_UpdateFromJSON_Ok:
  assumes "client_UpdateFromJSON d c s = Ok c'"
  shows "cl_Name c' = cl_Name c" "cl_Admin c' \<longrightarrow> grants d ''admin''" "cl_Validator c' \<longrightarrow> grants d ''validator''"
proof -
  obtain ab vb where c': "cl_Name c' = cl_Name c" "cl_Admin c' = ab" "cl_Validator c' = vb"
    and ab: "client_admin_field d c s = Ok ab"
    and vb: "(if ghas d ''validator'' then ValidateAsBool (gget d ''validator'') else Ok False) = Ok vb"
    using assms by (auto simp: client_UpdateFromJSON_def outcome_bind_Ok_iff split: if_splits option.splits)
  show "cl_Name c' = cl_Name c" by fact
  show "cl_Admin c' \<longrightarrow> grants d ''admin''"
    using ab by (auto simp: c' client_admin_field_def grants_def outcome_bind_Ok_iff split: if_splits outcome.splits)
  show "cl_Validator c' \<longrightarrow> grants d ''validator''" using vb by (auto simp: c' grants_def split: if_splits)
qed

lemma client_SetPublicKey_keeps:
  "cl_Name (snd (client_SetPublicKey cr k c)) = cl_Name c" "cl_Admin (snd (client_SetPublicKey cr k c)) = cl_Admin c"
  "cl_Validator (snd (client_SetPublicKey cr k c)) = cl_Validator c"
  by (auto simp: client_SetPublicKey_def split: gval.split option.split)

definition same_rights :: "client \<Rightarrow> client \<Rightarrow> bool" where
  "same_rights c c' \<longleftrightarrow> cl_Name c' = cl_Name c \<and> cl_Admin c' = cl_Admin c \<and> cl_Validator c' = cl_Validator c"

lemma client_keys_rights:
  "client_put_public_key cr d c j = Ok p \<Longrightarrow> same_rights c (fst p)"
  "client_put_private_key cr d c j = Ok p \<Longrightarrow> same_rights c (fst p)"
  "client_new_key cr d c = Ok q \<Longrightarrow> same_rights c (fst q)"
  by (auto simp: same_rights_def client_put_public_key_def client_put_private_key_def client_new_key_def
      client_GenerateKeys_def Let_def client_SetPublicKey_keeps split: if_splits gval.splits option.splits outcome.splits prod.splits)

lemma user_SetPublicKey_keeps:
  "us_Username (snd (user_SetPublicKey cr k u)) = us_Username u" "us_Admin (snd (user_SetPublicKey cr k u)) = us_Admin u"
  by (auto simp: user_SetPublicKey_def split: gval.split option.split)

lemma user_keys_rights:
  "user_put_public_key cr d u j = Ok p \<Longrightarrow> us_Username (fst p) = us_Username u \<and> us_Admin (fst p) = us_Admin u"
  "user_put_private_key cr d u j = Ok p \<Longrightarrow> us_Username (fst p) = us_Username u \<and> us_Admin (fst p) = us_Admin u"
  "user_new_key cr d u = Ok q \<Longrightarrow> us_Username (fst q) = us_Username u \<and> us_Admin (fst q) = us_Admin u"
  by (auto simp: user_put_public_key_def user_put_private_key_def user_new_key_def
      user_GenerateKeys_def Let_def user_SetPublicKey_keeps split: if_splits gval.splits option.splits outcome.splits prod.splits)

lemma user_UpdateFromJSON_keeps:
  assumes "user_UpdateFromJSON cr d u s = (res, u')"
  shows "us_Username u' = us_Username u" "us_Admin u' \<longrightarrow> us_Admin u \<or> grants d ''admin''"
proof -
  have p: "us_Username (snd (user_set_password cr d u)) = us_Username u \<and> us_Admin (snd (user_set_password cr d u)) = us_Admin u"
    by (auto simp: user_set_password_def SetPasswd_def split: outcome.split)
  have a: "us_Username (snd (user_set_admin d v s)) = us_Username v \<and>
      (us_Admin (snd (user_set_admin d v s)) \<longrightarrow> us_Admin v \<or> grants d ''admin'')" for v
    by (auto simp: user_set_admin_def grants_def split: outcome.split bool.split if_splits)
  have "us_Username u' = us_Username u \<and> (us_Admin u' \<longrightarrow> us_Admin u \<or> grants d ''admin'')"
    using assms p a [of "snd (user_set_password cr d u)"]
    by (auto simp: user_UpdateFromJSON_def split: outcome.splits if_splits option.splits prod.splits)
  then show "us_Username u' = us_Username u" "us_Admin u' \<longrightarrow> us_Admin u \<or> grants d ''admin''" by blast+
qed


subsection \<open>The handlers of clients and users\<close>

lemma LogEvent_store: "srv_Get t (LogEvent cfg wd a obj act s) = srv_Get t s"
  by (rule frame_depends)
    (simp_all add: LogEvent_def SetLogInfo_def setLogInfoMap_def Let_def split: prod.split)

lemma keep_attempt_Ok:
  "P s0 \<Longrightarrow> (\<And>x. res = Ok x \<Longrightarrow> P (snd (k x))) \<Longrightarrow> (\<And>e. P (snd (f e))) \<Longrightarrow> P (snd (attempt res s0 f k))"
  by (cases res) auto

definition free_client :: "actor \<Rightarrow> string \<Rightarrow> server \<Rightarrow> bool" where
  "free_client a n s \<longleftrightarrow> srv_Get ''client'' s n = None \<or> self_client a n"

definition free_user :: "actor \<Rightarrow> string \<Rightarrow> server \<Rightarrow> bool" where
  "free_user a n s \<longleftrightarrow> srv_Get ''user'' s n = None \<or> self_user a n"

lemma confined_client_put_update:
  assumes "confined cfg a s0 s" "\<not> grants d ''admin''" "grants d ''validator'' \<longrightarrow> IsValidator cfg a"
    "free_client a (cl_Name c) s"
  shows "confined cfg a s0 (snd (client_put_update cfg wd cr b d j c w s))"
proof -
  have "confined cfg a s0 (snd (client_Save (fst q) s))"
    if "client_UpdateFromJSON d c s = Ok c1" "client_put_public_key cr d c1 j = Ok p"
      "client_put_private_key cr d (fst p) (snd p) = Ok q" for c1 p q
    using assms client_UpdateFromJSON_Ok [OF that(1)] client_keys_rights(1) [OF that(2)] client_keys_rights(2) [OF that(3)]
    by (intro confined_ops(1)) (auto simp: same_rights_def free_client_def)
  with assms(1) show ?thesis
    unfolding client_put_update_def Let_def split_beta
    by (intro keep_attempt_Ok [where P = "confined cfg a s0"] confines.keep_replies confines.keep_logs)
qed

lemma confined_client_put_rename:
  assumes "confined cfg a s0 s" "\<not> grants d ''admin''" "grants d ''validator'' \<longrightarrow> IsValidator cfg a"
    "self_client a n" "cl_Name c = n"
  shows "confined cfg a s0 (snd (client_put_rename cfg wd cr b n d c s))"
proof -
  let ?l = "LogEvent cfg wd b (client_logobj c) ''modify'' s"
  have l: "confined cfg a s0 ?l" using assms(1) by (rule confines.keep_logs)
  have rn: "confined cfg a s0 (snd (snd (client_Rename m c ?l))) \<and>
      (fst (client_Rename m c ?l) = Ok () \<longrightarrow> free_client a (cl_Name (fst (snd (client_Rename m c ?l)))) (snd (snd (client_Rename m c ?l))))" for m
    using client_Rename_cases [of m c ?l "fst (client_Rename m c ?l)" "fst (snd (client_Rename m c ?l))" "snd (snd (client_Rename m c ?l))"]
      l assms(4,5) confined_del_client [OF l, of n]
    by (auto simp: free_client_def client_store.get_del)
  show ?thesis
    using assms rn unfolding client_put_rename_def Let_def split_beta
    by (intro keep_attempt_Ok [where P = "confined cfg a s0"])
      (auto intro!: keep_attempt_Ok [where P = "confined cfg a s0"] confined_client_put_update confines.keep_replies simp: free_client_def)
qed


lemma IsSelf_self:
  "UseAuth cfg \<Longrightarrow> IsSelf cfg a (AClient c) = self_client a (cl_Name c)"
  "UseAuth cfg \<Longrightarrow> IsSelf cfg a (AUser u) = self_user a (us_Username u)"
  by (auto simp: IsSelf_def self_client_def self_user_def split: actor.split)

lemma actor_Get_name:
  "actors_ok s \<Longrightarrow> client_Get n s = Ok c \<Longrightarrow> cl_Name c = n"
  "actors_ok s \<Longrightarrow> user_Get n s = Ok u \<Longrightarrow> us_Username u = n"
  by (auto simp: client_Get_Ok user_Get_Ok actors_ok_def clients_typed_def users_typed_def)

lemma confined_clientHandler:
  assumes "actors_ok s" "UseAuth cfg" "r_OpUser r = Some a" "\<not> IsAdmin cfg a"
  shows "confined cfg a s (snd (clientHandler cfg wd cr r s))"
proof -
  note c = confined_refl [OF assms(1), of cfg a]
  have put: "confined cfg a s (snd (client_put cfg wd cr r a n s))" for n
    unfolding client_put_def Let_def using c assms(1,2,4)
    by (intro keep_attempt_Ok [where P = "confined cfg a s"])
      (auto intro!: keep_attempt_Ok [where P = "confined cfg a s"] confines.keep_replies confined_client_put_rename
        dest: client_perm_edit_Ok actor_Get_name simp: not_allowed_def IsSelf_self)
  have del: "confined cfg a s (snd (client_delete cfg wd a n s))" for n
    unfolding client_delete_def Let_def split_beta using c assms(2,4)
    by (auto intro!: confines.keeps confined_ops simp: IsSelf_self)
  show ?thesis using c put del assms(3)
    by (auto simp: clientHandler_def with_opUser_def CtxReqUser_def client_head_def client_get_def not_allowed_def
        intro!: confines.keeps split: http_method.split)
qed

lemma client_NewFromJSON_Ok:
  assumes "client_NewFromJSON d s = Ok c"
  shows "srv_Get ''client'' s (cl_Name c) = None" "cl_Admin c \<longrightarrow> grants d ''admin''" "cl_Validator c \<longrightarrow> grants d ''validator''"
proof -
  obtain n c0 where "client_New n s = Ok c0" and u: "client_UpdateFromJSON d c0 s = Ok c"
    using assms by (auto simp: client_NewFromJSON_def outcome_bind_Ok_iff)
  then have "srv_Get ''client'' s n = None" "cl_Name c0 = n"
    by (auto simp: client_New_def outcome_bind_Ok_iff split: if_splits)
  with client_UpdateFromJSON_Ok [OF u] show "srv_Get ''client'' s (cl_Name c) = None"
    "cl_Admin c \<longrightarrow> grants d ''admin''" "cl_Validator c \<longrightarrow> grants d ''validator''" by simp_all
qed

lemma confined_clientHandling:
  assumes "actors_ok s" "r_OpUser r = Some a" "\<not> IsAdmin cfg a"
  shows "confined cfg a s (snd (clientHandling cfg wd cr r s))"
proof -
  note c = confined_refl [OF assms(1), of cfg a]
  have sv: "confined cfg a s (snd (client_Save (fst q) s))"
    if "create_perm cfg a d = Ok ()" "client_NewFromJSON d s = Ok c0" "client_new_key cr d c0 = Ok q" for d c0 q
    using c create_perm_Ok [OF that(1) assms(3)] client_NewFromJSON_Ok [OF that(2)] client_keys_rights(3) [OF that(3)]
    by (intro confined_ops(1)) (auto simp: same_rights_def)
  have "confined cfg a s (snd (client_post cfg wd cr r a s))"
    unfolding client_post_def Let_def split_beta using c
    by (intro keep_attempt_Ok [where P = "confined cfg a s"])
      (auto intro!: confines.keeps dest: sv simp: outcome_bind_Ok_iff)
  then show ?thesis using c assms(2)
    by (auto simp: clientHandling_def with_opUser_def CtxReqUser_def intro!: confines.keeps split: http_method.split)
qed

lemma confined_user_put_update:
  assumes "confined cfg a s0 s" "\<not> grants d ''admin''" "\<not> us_Admin u" "free_user a (us_Username u) s"
  shows "confined cfg a s0 (snd (user_put_update cfg wd cr b d j u w s))"
proof -
  have "confined cfg a s0 (snd (user_Save (fst q) s))"
    if "user_put_public_key cr d (snd (user_UpdateFromJSON cr d u s)) j = Ok p"
      "user_put_private_key cr d (fst p) (snd p) = Ok q" for p q
    using assms user_UpdateFromJSON_keeps [of cr d u s "fst (user_UpdateFromJSON cr d u s)" "snd (user_UpdateFromJSON cr d u s)"]
      user_keys_rights(1) [OF that(1)] user_keys_rights(2) [OF that(2)]
    by (intro confined_ops(3)) (auto simp: free_user_def)
  with assms(1) show ?thesis
    unfolding user_put_update_def Let_def split_beta
    by (intro keep_attempt_Ok [where P = "confined cfg a s0"] confines.keep_replies confines.keep_logs)
qed

lemma confined_user_put_rename:
  assumes "confined cfg a s0 s" "\<not> grants d ''admin''" "self_user a n" "us_Username u = n" "\<not> us_Admin u"
    "srv_Get ''client'' s n = None"
  shows "confined cfg a s0 (snd (user_put_rename cfg wd cr b n d u s))"
proof -
  have rn: "confined cfg a s0 (snd (snd (user_Rename m u s))) \<and> \<not> us_Admin (fst (snd (user_Rename m u s))) \<and>
      (fst (user_Rename m u s) = Ok () \<longrightarrow> free_user a (us_Username (fst (snd (user_Rename m u s)))) (snd (snd (user_Rename m u s))))" for m
    using user_Rename_cases [of m u s "fst (user_Rename m u s)" "fst (snd (user_Rename m u s))" "snd (snd (user_Rename m u s))"]
      assms confined_del_client [OF assms(1), of n]
    by (auto simp: free_user_def)
  show ?thesis
    using assms rn unfolding user_put_rename_def Let_def split_beta
    by (intro keep_attempt_Ok [where P = "confined cfg a s0"])
      (auto intro!: keep_attempt_Ok [where P = "confined cfg a s0"] confined_user_put_update confines.keep_replies simp: free_user_def)
qed


lemma stored_self:
  assumes "actors_ok s" "GetReqUser cfg m s = Ok a" "UseAuth cfg" "\<not> IsAdmin cfg a" "user_Get n s = Ok u" "self_user a (us_Username u)"
  shows "\<not> us_Admin u" "us_Username u = n" "srv_Get ''client'' s n = None"
proof -
  obtain v where v: "a = AUser v" "us_Username v = us_Username u" using assms(6) by (auto simp: self_user_def split: actor.splits)
  then have "user_Get m s = Ok v" using assms(2,3) by (auto simp: GetReqUser_def Let_def split: outcome.splits)
  with v assms(1,5) have "v = u" by (metis actor_Get_name(2) outcome.inject(1))
  then show "\<not> us_Admin u" using v assms(3,4) by (simp add: IsAdmin_def user_IsAdmin_def)
  show "us_Username u = n" using assms(1,5) by (rule actor_Get_name(2))
  show "srv_Get ''client'' s n = None" using assms(1,5) by (auto simp: user_Get_Ok actors_ok_def dest: spec [of _ n])
qed

lemma confined_userHandler:
  assumes "actors_ok s" "UseAuth cfg" "r_OpUser r = Some a" "\<not> IsAdmin cfg a" "GetReqUser cfg m s = Ok a"
  shows "confined cfg a s (snd (userHandler cfg wd cr r s))"
proof -
  note c = confined_refl [OF assms(1), of cfg a]
  have put: "confined cfg a s (snd (user_put cfg wd cr r a n s))" for n
    unfolding user_put_def Let_def using c assms(1,2,4) stored_self [OF assms(1,5,2,4)]
    by (intro keep_attempt_Ok [where P = "confined cfg a s"])
      (auto intro!: keep_attempt_Ok [where P = "confined cfg a s"] confines.keep_replies confined_user_put_rename
        simp: not_allowed_def IsSelf_self CheckPermEdit_iff)
  have del: "confined cfg a s (snd (user_delete cfg wd a n s))" for n
    unfolding user_delete_def Let_def split_beta using c assms(2,4)
    by (auto intro!: confines.keeps confined_ops simp: IsSelf_self)
  show ?thesis using c put del assms(3)
    by (auto simp: userHandler_def with_opUser_def CtxReqUser_def user_head_def user_get_def not_allowed_def
        intro!: confines.keeps split: http_method.split)
qed

lemma user_NewFromJSON_Ok:
  assumes "user_NewFromJSON cr d s = Ok u"
  shows "srv_Get ''user'' s (us_Username u) = None" "us_Admin u \<longrightarrow> grants d ''admin''"
proof -
  obtain n u0 res where "user_New cr n s = Ok u0" and u: "user_UpdateFromJSON cr d u0 s = (res, u)"
    using assms by (auto simp: user_NewFromJSON_def outcome_bind_Ok_iff split: if_splits prod.splits outcome.splits)
  then have "srv_Get ''user'' s n = None" "us_Username u0 = n" "\<not> us_Admin u0"
    by (auto simp: user_New_def outcome_bind_Ok_iff split: if_splits outcome.splits)
  with user_UpdateFromJSON_keeps [OF u] show "srv_Get ''user'' s (us_Username u) = None"
    "us_Admin u \<longrightarrow> grants d ''admin''" by simp_all
qed

lemma confined_userHandling:
  assumes "actors_ok s" "r_OpUser r = Some a" "\<not> IsAdmin cfg a"
  shows "confined cfg a s (snd (userHandling cfg wd cr r s))"
proof -
  note c = confined_refl [OF assms(1), of cfg a]
  have sv: "confined cfg a s (snd (user_Save (fst q) s))"
    if "create_perm cfg a d = Ok ()" "user_NewFromJSON cr d s = Ok u0" "user_new_key cr d u0 = Ok q" for d u0 q
    using c create_perm_Ok [OF that(1) assms(3)] user_NewFromJSON_Ok [OF that(2)] user_keys_rights(3) [OF that(3)]
    by (intro confined_ops(3)) auto
  have "confined cfg a s (snd (user_post cfg wd cr r a s))"
    unfolding user_post_def Let_def split_beta using c
    by (intro keep_attempt_Ok [where P = "confined cfg a s"])
      (auto intro!: confines.keeps dest: sv simp: outcome_bind_Ok_iff)
  then show ?thesis using c assms(2)
    by (auto simp: userHandling_def with_opUser_def CtxReqUser_def intro!: confines.keeps split: http_method.split)
qed

lemma anonymous_actors:
  assumes "r_OpUser r = None"
  shows "snd (clientHandler cfg wd cr r s) = s" "snd (clientHandling cfg wd cr r s) = s"
    "snd (userHandler cfg wd cr r s) = s" "snd (userHandling cfg wd cr r s) = s"
  using assms by (simp_all add: clientHandler_def clientHandling_def userHandler_def userHandling_def with_opUser_def
      CtxReqUser_def reply_error_def attempt_def split: outcome.split)

lemma confined_ServeHTTP:
  assumes "actors_ok s" "UseAuth (sv_conf sv)" "\<not> IsAdmin (sv_conf sv) a"
    "GetReqUser (sv_conf sv) (header_Get r ''X-Ops-Userid'') s = Ok a"
  shows "confined (sv_conf sv) a s (snd (ServeHTTP sv r s))"
proof (cases rule: ServeHTTP_dispatch [of sv r s])
  case (dispatched rt b)
  let ?r = "clean_request r\<lparr>r_OpUser := b\<rparr>"
  note c = confined_refl [OF assms(1), of "sv_conf sv" a]
  have "r_OpUser ?r = None \<or> r_OpUser ?r = Some a" using dispatched(2) assms(4) by auto
  then have "confined (sv_conf sv) a s (snd (dispatch sv rt ?r s))"
  proof
    assume n: "r_OpUser ?r = None"
    show ?thesis by (rule confines.keep_dispatch) (simp_all add: c anonymous_actors [OF n])
  next
    assume n: "r_OpUser ?r = Some a"
    show ?thesis
      by (rule confines.keep_dispatch)
        (intro c confined_clientHandler [OF assms(1,2) n assms(3)] confined_clientHandling [OF assms(1) n assms(3)]
          confined_userHandler [OF assms(1,2) n assms(3,4)] confined_userHandling [OF assms(1) n assms(3)])+
  qed
  with dispatched(1) show ?thesis by simp
qed (simp add: confined_refl [OF assms(1)])


subsection \<open>The start of the server\<close>

lemma default_client_cases:
  assumes "default_client cfg cr create n rights s = Ok s'" "actors_ok s" "ValidateName n" "srv_Get ''user'' s n = None"
    "\<And>c. cl_Name (rights c) = cl_Name c"
  shows "actors_ok s' \<and> srv_Get ''user'' s' = srv_Get ''user'' s \<and>
    (srv_Get ''client'' s n \<noteq> None \<and> s' = s \<or>
     srv_Get ''client'' s n = None \<and> (\<exists>c k. srv_Get ''client'' s' = (srv_Get ''client'' s)(n \<mapsto> VClient ((rights c)\<lparr>cl_pubKey := k\<rparr>)) \<and>
       \<not> cl_Admin c \<and> \<not> cl_Validator c))"
proof (cases "client_Get n s")
  case (Ok c)
  then have "s' = s" using assms(1) by (simp add: default_client_def)
  then show ?thesis using Ok assms(2) by (auto simp: client_Get_Ok)
next
  case (Err e)
  then have g: "srv_Get ''client'' s n = None" by (auto simp: client_Get_def split: option.splits dsval.splits)
  obtain c where c0: "client_New n s = Ok c" using assms(1) Err by (auto simp: default_client_def outcome_bind_Ok_iff)
  obtain res c1 where r: "client_GenerateKeys cr (rights c) = (res, c1)" by fastforce
  with assms(1) Err c0 obtain pem where "res = Ok pem" "s' = snd (client_Save c1 s)"
    by (cases res) (auto simp: default_client_def split: option.splits if_splits)
  with c0 r have c: "client_New n s = Ok c" "client_GenerateKeys cr (rights c) = (Ok pem, c1)" "s' = snd (client_Save c1 s)"
    by simp_all
  have n: "cl_Name c = n" "\<not> cl_Admin c" "\<not> cl_Validator c" using c(1) g assms(3) by (auto simp: client_New_def validateClientName_def)
  obtain k where k: "c1 = (rights c)\<lparr>cl_pubKey := k\<rparr>"
  proof -
    have "c1 = rights c \<or> (\<exists>k. c1 = (rights c)\<lparr>cl_pubKey := k\<rparr>)"
      using c(2) by (auto simp: client_GenerateKeys_def client_SetPublicKey_def split: outcome.splits option.splits prod.splits)
    moreover have "rights c = (rights c)\<lparr>cl_pubKey := cl_pubKey (rights c)\<rparr>" by simp
    ultimately show thesis using that by metis
  qed
  have "cl_Name c1 = n" using k n assms(5) by simp
  then have s': "srv_ds s' = ds_Set gob_codec ''client'' n (VClient c1) (srv_ds s)"
    using client_Save_cases [of c1 s "fst (client_Save c1 s)" s'] c(3) assms(4) by auto
  then have "actors_ok s'" using actors_ok_set_client [OF assms(2), of s' c1] assms(4) \<open>cl_Name c1 = n\<close> by auto
  moreover have "srv_Get ''user'' s' = srv_Get ''user'' s" by (simp add: s')
  ultimately show ?thesis using g n k store_maps(1) [OF s'] by auto
next
  case Panic
  then show ?thesis using assms by (simp add: default_client_def)
qed


lemma default_admin_new:
  assumes "default_admin cfg cr create s = Ok s'" "actors_ok s" "srv_Get ''user'' s ''admin'' = None" "srv_Get ''client'' s ''admin'' = None"
  shows "actors_ok s' \<and> srv_Get ''client'' s' = srv_Get ''client'' s \<and> (\<exists>u. user_Get ''admin'' s' = Ok u \<and> us_Admin u)"
proof -
  have e: "user_Get ''admin'' s = Errorf (''User admin not found'')" using assms(3) by (simp add: user_Get_def)
  then obtain u where u: "user_New cr ''admin'' s = Ok u" using assms(1) by (auto simp: default_admin_def outcome_bind_Ok_iff)
  obtain res u1 where r: "user_GenerateKeys cr (u\<lparr>us_Admin := True\<rparr>) = (res, u1)" by fastforce
  obtain res' s1 where sv: "user_Save u1 s = (res', s1)" by fastforce
  from assms(1) e u r sv have "is_ok res" "res' = Ok ()" "s1 = s'"
    by (cases res; cases res'; auto simp: default_admin_def split: option.splits if_splits)+
  have "us_Username u = ''admin''" using u by (auto simp: user_New_def outcome_bind_Ok_iff split: if_splits outcome.splits)
  then have n: "us_Username u1 = ''admin''" "us_Admin u1"
    using r user_SetPublicKey_keeps [of cr _ "u\<lparr>us_Admin := True\<rparr>"]
    by (auto simp: user_GenerateKeys_def split: outcome.splits prod.splits)
  then have s': "srv_ds s' = ds_Set gob_codec ''user'' ''admin'' (VUser u1) (srv_ds s)"
    using user_Save_cases [OF sv] \<open>res' = Ok ()\<close> \<open>s1 = s'\<close> by simp
  then have ok: "actors_ok s'" using actors_ok_set_user [OF assms(2), of s' u1] n assms(4) by simp
  have "srv_Get ''user'' s' ''admin'' = Some (VUser u1)" by (simp add: store_maps(2) [OF s'])
  then have "user_Get ''admin'' s' = Ok u1" using ok by (simp add: user_Get_Ok)
  moreover have "srv_Get ''client'' s' = srv_Get ''client'' s" by (simp add: s')
  ultimately show ?thesis using ok n by blast
qed

lemma new_server_empty [simp]: "srv_Get t new_server = Map.empty"
  by (simp add: new_server_def initDataStore_def ds_Get_def fun_eq_iff)

lemma default_names: "ValidateName ''chef-webui''" "ValidateName ''chef-validator''" by code_simp+

lemma MakeDefaultEnvironment_store:
  "srv_Get ''client'' (MakeDefaultEnvironment s) = srv_Get ''client'' s" "srv_Get ''user'' (MakeDefaultEnvironment s) = srv_Get ''user'' s"
  "srv_Get ''env'' (MakeDefaultEnvironment s) ''_default'' \<noteq> None"
  by (auto simp: MakeDefaultEnvironment_def frame_store ds_Get_Set defaultEnvironment_def ds_Get_other)

lemma started:
  assumes "createDefaultActors cfg cr create new_server = Ok s"
  shows "actors_ok s" "\<exists>c. client_Get ''chef-webui'' s = Ok c \<and> cl_Admin c \<and> \<not> cl_Validator c"
    "\<exists>c. client_Get ''chef-validator'' s = Ok c \<and> cl_Validator c \<and> \<not> cl_Admin c"
    "\<exists>u. user_Get ''admin'' s = Ok u \<and> us_Admin u" "srv_Get ''env'' s ''_default'' \<noteq> None"
proof -
  obtain s1 s2 s3 where
    s1: "default_client cfg cr create ''chef-webui'' (\<lambda>c. c\<lparr>cl_Admin := True\<rparr>) new_server = Ok s1" and
    s2: "default_client cfg cr create ''chef-validator'' (\<lambda>c. c\<lparr>cl_Validator := True\<rparr>) s1 = Ok s2" and
    s3: "default_admin cfg cr create s2 = Ok s3" and s: "s = MakeDefaultEnvironment s3"
    using assms by (auto simp: createDefaultActors_def outcome_bind_Ok_iff)
  from default_client_cases [OF s1 actors_ok_new] default_names obtain c1 where
    1: "actors_ok s1" "srv_Get ''user'' s1 = Map.empty" "srv_Get ''client'' s1 = [''chef-webui'' \<mapsto> VClient c1]"
    "cl_Admin c1" "\<not> cl_Validator c1" by auto
  from default_client_cases [OF s2 1(1)] default_names 1 obtain c2 where
    2: "actors_ok s2" "srv_Get ''user'' s2 = Map.empty"
    "srv_Get ''client'' s2 = [''chef-webui'' \<mapsto> VClient c1, ''chef-validator'' \<mapsto> VClient c2]" "\<not> cl_Admin c2" "cl_Validator c2"
    by auto
  have 3: "actors_ok s3" "srv_Get ''client'' s3 = srv_Get ''client'' s2" "\<exists>u. user_Get ''admin'' s3 = Ok u \<and> us_Admin u"
    using default_admin_new [OF s3 2(1)] 2 by auto
  show ok: "actors_ok s" unfolding s by (rule actor_names.keep_objects) (rule 3(1))
  have c: "srv_Get ''client'' s = [''chef-webui'' \<mapsto> VClient c1, ''chef-validator'' \<mapsto> VClient c2]"
    by (simp add: s MakeDefaultEnvironment_store 3 2)
  with 1 2 show "\<exists>c. client_Get ''chef-webui'' s = Ok c \<and> cl_Admin c \<and> \<not> cl_Validator c"
    "\<exists>c. client_Get ''chef-validator'' s = Ok c \<and> cl_Validator c \<and> \<not> cl_Admin c"
    by (simp_all add: client_Get_Ok [OF ok])
  show "\<exists>u. user_Get ''admin'' s = Ok u \<and> us_Admin u"
    using 3 by (simp add: s user_Get_def MakeDefaultEnvironment_store)
  show "srv_Get ''env'' s ''_default'' \<noteq> None" unfolding s by (rule MakeDefaultEnvironment_store(3))
qed

lemma default_client_is_ok:
  assumes "actors_ok s" "ValidateName n" "is_ok (cr_GenerateRSAKeys cr)" "\<forall>n. create n = None"
  shows "is_ok (default_client cfg cr create n rights s)"
proof (cases "srv_Get ''client'' s n")
  case None
  with assms(2) obtain c where "client_New n s = Ok c" by (simp add: client_New_def validateClientName_def)
  moreover obtain pem c1 where "client_GenerateKeys cr (rights c) = (Ok pem, c1)"
    using assms(3) by (auto simp: client_GenerateKeys_def is_ok_iff split: prod.splits)
  moreover have "\<exists>e. client_Get n s = Err e" using None by (simp add: client_Get_def)
  ultimately show ?thesis using assms(4) by (auto simp: default_client_def is_ok_iff)
next
  case (Some v)
  moreover from this obtain c where "v = VClient c" using assms(1) unfolding actors_ok_def clients_typed_def by blast
  ultimately have "client_Get n s = Ok c" by (simp add: client_Get_def)
  then show ?thesis by (simp add: default_client_def)
qed

lemma default_admin_is_ok:
  assumes "srv_Get ''user'' s ''admin'' = None" "srv_Get ''client'' s ''admin'' = None" "is_ok (cr_GenerateRSAKeys cr)"
    "is_ok (cr_GenerateSalt cr)" "\<forall>n. create n = None"
  shows "is_ok (default_admin cfg cr create s)"
proof -
  have "ValidateUserName ''admin''" by code_simp
  with assms(1,4) obtain u where u: "user_New cr ''admin'' s = Ok u" "us_Username u = ''admin''"
    by (auto simp: user_New_def validateUserName_def is_ok_iff)
  obtain pem u1 where k: "user_GenerateKeys cr (u\<lparr>us_Admin := True\<rparr>) = (Ok pem, u1)" "us_Username u1 = ''admin''"
    using assms(3) u(2) user_SetPublicKey_keeps [of cr _ "u\<lparr>us_Admin := True\<rparr>"]
    by (auto simp: user_GenerateKeys_def is_ok_iff split: prod.splits)
  have "fst (user_Save u1 s) = Ok ()" using assms(2) k(2) by (simp add: user_Save_def chkInMemClient_def)
  moreover have "\<exists>e. user_Get ''admin'' s = Err e" using assms(1) by (simp add: user_Get_def)
  ultimately show ?thesis using u k assms(5)
    by (cases "user_Save u1 s") (auto simp: default_admin_def is_ok_iff)
qed

lemma start_is_ok:
  assumes k: "is_ok (cr_GenerateRSAKeys cr)" "is_ok (cr_GenerateSalt cr)" "\<forall>n. create n = None"
  shows "is_ok (createDefaultActors cfg cr create new_server)"
proof -
  note dc = default_client_is_ok [OF _ _ k(1,3)]
  obtain s1 where s1: "default_client cfg cr create ''chef-webui'' (\<lambda>c. c\<lparr>cl_Admin := True\<rparr>) new_server = Ok s1"
    using dc [OF actors_ok_new default_names(1)] unfolding is_ok_iff by blast
  from default_client_cases [OF s1 actors_ok_new] default_names obtain c1 where
    1: "actors_ok s1" "srv_Get ''user'' s1 = Map.empty" "srv_Get ''client'' s1 = [''chef-webui'' \<mapsto> VClient c1]" by auto
  obtain s2 where s2: "default_client cfg cr create ''chef-validator'' (\<lambda>c. c\<lparr>cl_Validator := True\<rparr>) s1 = Ok s2"
    using dc [OF 1(1) default_names(2)] unfolding is_ok_iff by blast
  have "srv_Get ''user'' s2 ''admin'' = None" "srv_Get ''client'' s2 ''admin'' = None"
    using default_client_cases [OF s2 1(1)] default_names 1 by auto
  then obtain s3 where "default_admin cfg cr create s2 = Ok s3"
    using default_admin_is_ok [OF _ _ k] unfolding is_ok_iff by blast
  with s1 s2 show ?thesis by (simp add: createDefaultActors_def)
qed

text \<open>\<^bold>\<open>C30\<close>. A new server that starts has an administrator client for the web interface, a
  validator client that is not an administrator, an administrator user and the default
  environment, and starting it again changes nothing. It starts if keys and a salt can be
  generated and the files for the private keys created.\<close>

theorem default_actors:
  "(createDefaultActors cfg cr create new_server = Ok s \<longrightarrow>
     (\<exists>c. client_Get ''chef-webui'' s = Ok c \<and> cl_Admin c \<and> \<not> cl_Validator c) \<and>
     (\<exists>c. client_Get ''chef-validator'' s = Ok c \<and> cl_Validator c \<and> \<not> cl_Admin c) \<and>
     (\<exists>u. user_Get ''admin'' s = Ok u \<and> us_Admin u) \<and> env_DoesExist ''_default'' s \<and>
     createDefaultActors cfg cr create s = Ok s) \<and>
   (is_ok (cr_GenerateRSAKeys cr) \<and> is_ok (cr_GenerateSalt cr) \<and> (\<forall>n. create n = None) \<longrightarrow>
     is_ok (createDefaultActors cfg cr create new_server))"
proof (intro conjI impI)
  assume *: "createDefaultActors cfg cr create new_server = Ok s"
  note st = started [OF *]
  from st(2,3) show "\<exists>c. client_Get ''chef-webui'' s = Ok c \<and> cl_Admin c \<and> \<not> cl_Validator c"
    "\<exists>c. client_Get ''chef-validator'' s = Ok c \<and> cl_Validator c \<and> \<not> cl_Admin c" by blast+
  from st(4) show "\<exists>u. user_Get ''admin'' s = Ok u \<and> us_Admin u" by blast
  from st(5) show "env_DoesExist ''_default'' s" by (simp add: env_DoesExist_def)
  from st(2-5) show "createDefaultActors cfg cr create s = Ok s"
    by (auto simp: createDefaultActors_def default_client_def default_admin_def MakeDefaultEnvironment_def)
next
  assume "is_ok (cr_GenerateRSAKeys cr) \<and> is_ok (cr_GenerateSalt cr) \<and> (\<forall>n. create n = None)"
  then show "is_ok (createDefaultActors cfg cr create new_server)" using start_is_ok by blast
qed

definition example_crypto :: crypto where
  "example_crypto = \<lparr>cr_ValidatePublicKey = (\<lambda>_. None), cr_GenerateRSAKeys = Ok (''priv'', ''pub''),
     cr_GenerateSalt = Ok ''salt'', cr_HashPasswd = (\<lambda>p salt. Ok (p @ salt))\<rparr>"

theorem default_actors_witness:
  "\<exists>s. createDefaultActors example_conf example_crypto (\<lambda>_. None) new_server = Ok s \<and>
     createDefaultActors example_conf example_crypto (\<lambda>_. None) s = Ok s"
proof -
  have "is_ok (createDefaultActors example_conf example_crypto (\<lambda>_. None) new_server)"
    using default_actors [of example_conf example_crypto "\<lambda>_. None"] by (simp add: example_crypto_def)
  then obtain s where "createDefaultActors example_conf example_crypto (\<lambda>_. None) new_server = Ok s"
    unfolding is_ok_iff by blast
  with default_actors [of example_conf example_crypto "\<lambda>_. None" s] show ?thesis by blast
qed

end
