(* ===== verification/Running.thy ===== *)
theory Running
  imports Confinement
begin

text \<open>
  A running server: the step relation of requests, tickers and goroutines from the start of the
  server on, and what holds in every state it reaches. The names of clients and users stay
  apart, every table holds values of its own type, and actors without administrator rights stay
  confined.
\<close>

subsection \<open>Sequences of requests\<close>

text \<open>What happens to a running server: a request, or one of the steps that run beside the
  requests: the goroutines for the index, for rebuilding it and for completing jobs, and the
  rounds of the tickers and monitors.\<close>

inductive served :: "'c service \<Rightarrow> server \<Rightarrow> server \<Rightarrow> bool" for sv :: "'c service" where
  request: "ServeHTTP sv r s = (rep, s') \<Longrightarrow> served sv s s'"
| indexed: "n < length (idx_jobs (srv_ix s)) \<Longrightarrow> run_job (sv_conf sv) n (srv_ix s) = Ok ix \<Longrightarrow> served sv s (s\<lparr>srv_ix := ix\<rparr>)"
| reindexed: "srv_reindexes s = Suc n \<Longrightarrow> reindexAll s = Ok s' \<Longrightarrow> served sv s (s'\<lparr>srv_reindexes := n\<rparr>)"
| notified: "srv_notified s = us @ u # us' \<Longrightarrow> notifyParent now u s = Ok s' \<Longrightarrow> served sv s (s'\<lparr>srv_notified := us @ us'\<rparr>)"
| log_purged: "setLogEventPurgeTicker (sv_conf sv) now s = Ok s' \<Longrightarrow> served sv s s'"
| reports_purged: "startReportPurge (sv_conf sv) now s = Ok s' \<Longrightarrow> served sv s s'"
| sandboxes_purged: "startSandboxPurge (sv_conf sv) now s = Ok s' \<Longrightarrow> served sv s s'"
| statuses_purged: "startNodeStatusPurge (sv_conf sv) nows s = Ok s' \<Longrightarrow> served sv s s'"
| monitored: "startNodeMonitor (sv_conf sv) now s = Ok s' \<Longrightarrow> served sv s s'"
| status_event: "runEventMonitor now e s = Ok s' \<Longrightarrow> served sv s s'"

inductive_cases servedE: "served sv s s'"

lemma ok_step: "served sv s s' \<Longrightarrow> actors_ok s \<Longrightarrow> actors_ok s'"
  by (elim servedE) (metis ok_ServeHTTP snd_conv, auto intro: actor_names.keep_srv actor_names.keep_background actor_names.keep_tickers)

lemma ok_served: "(served sv)\<^sup>*\<^sup>* s s' \<Longrightarrow> actors_ok s \<Longrightarrow> actors_ok s'"
  by (induction rule: rtranclp_induct) (auto intro: ok_step)

lemma ok_running: "createDefaultActors cfg cr create new_server = Ok s0 \<Longrightarrow> (served sv)\<^sup>*\<^sup>* s0 s \<Longrightarrow> actors_ok s"
  by (rule ok_served [OF _ started(1)])

text \<open>\<^bold>\<open>C3\<close>. In every state that a started server reaches, whatever the requests and however the steps that
  run beside them are interleaved with them: no name is that of a client and of a user, every
  client and user is stored under its own name as a value of its own type, and looking up the
  actor of a request never panics.\<close>

theorem requests_keep_actor_names:
  assumes "createDefaultActors cfg cr create new_server = Ok s0" "(served sv)\<^sup>*\<^sup>* s0 s"
  shows "\<not> (client_DoesExist n s \<and> user_DoesExist n s) \<and>
    (client_Get n s = Ok c \<longrightarrow> cl_Name c = n) \<and> (user_Get n s = Ok u \<longrightarrow> us_Username u = n) \<and>
    client_Get n s \<noteq> Panic \<and> user_Get n s \<noteq> Panic \<and> GetReqUser (sv_conf sv) n s \<noteq> Panic"
proof -
  note ok = ok_running [OF assms]
  have c: "client_Get n s \<noteq> Panic" for n
    using ok by (fastforce simp: client_Get_def actors_ok_def clients_typed_def split: option.splits)
  have u: "user_Get n s \<noteq> Panic" for n
    using ok by (fastforce simp: user_Get_def actors_ok_def users_typed_def split: option.splits)
  have "GetReqUser (sv_conf sv) n s \<noteq> Panic"
    using c u by (auto simp: GetReqUser_def Let_def split: outcome.split)
  moreover have "\<not> (client_DoesExist n s \<and> user_DoesExist n s)"
    using ok by (auto simp: actors_ok_def client_DoesExist_def user_DoesExist_def)
  ultimately show ?thesis using c u actor_Get_name [OF ok] by blast
qed

lemma example_started: "\<exists>s0. createDefaultActors example_conf example_crypto (\<lambda>_. None) new_server = Ok s0"
proof -
  have k: "is_ok (cr_GenerateRSAKeys example_crypto)" "is_ok (cr_GenerateSalt example_crypto)" by (simp_all add: example_crypto_def)
  show ?thesis using start_is_ok [OF k, of "\<lambda>_. None" example_conf] by (simp add: is_ok_iff)
qed

theorem requests_keep_actor_names_witness:
  "\<exists>s0. createDefaultActors example_conf example_crypto (\<lambda>_. None) new_server = Ok s0 \<and>
     (let s = snd (ServeHTTP example_service example_upload s0)
      in \<not> (client_DoesExist ''admin'' s \<and> user_DoesExist ''admin'' s))"
proof -
  obtain s0 where s0: "createDefaultActors example_conf example_crypto (\<lambda>_. None) new_server = Ok s0" using example_started by blast
  have "(served example_service)\<^sup>*\<^sup>* s0 (snd (ServeHTTP example_service example_upload s0))"
    by (rule r_into_rtranclp) (metis served.request prod.collapse)
  from requests_keep_actor_names [OF s0 this] s0 show ?thesis unfolding Let_def by blast
qed

subsection \<open>The types of stored values\<close>

definition well_typed :: "server \<Rightarrow> bool" where
  "well_typed s \<longleftrightarrow> (\<forall>t k v. CHR '':'' \<notin> set t \<longrightarrow> srv_Get t s k = Some v \<longrightarrow> stored_as t v)"

lemma stored_as_codec [simp]: "stored_as t (gob_codec v) = stored_as t v"
  by (cases v) simp_all

lemma well_typed_set: "stored_as t v \<Longrightarrow> CHR '':'' \<notin> set t \<Longrightarrow> well_typed s \<Longrightarrow> well_typed (srv_Set t k v s)"
  by (auto simp: well_typed_def ds_Get_Set split: if_splits)

lemma well_typed_del: "CHR '':'' \<notin> set t \<Longrightarrow> well_typed s \<Longrightarrow> well_typed (srv_Delete t k s)"
  by (auto simp: well_typed_def srv_Delete_def ds_Get_Delete split: if_splits)

interpretation typing: object_frame well_typed
proof
  show "well_typed s'" if "well_typed s" "dsc (srv_ds s') = dsc (srv_ds s)" "objList (srv_ds s') = objList (srv_ds s)" for s s'
    using that frame_depends [OF that(2,3)] by (simp add: well_typed_def)
qed (simp_all add: well_typed_set well_typed_del)

lemma typed_actor_ops:
  assumes "well_typed s"
  shows "well_typed (snd (client_Save c s))" "well_typed (snd (client_Delete c s))" "well_typed (snd (snd (client_Rename n c s)))"
    "well_typed (snd (user_Save u s))" "well_typed (snd (user_Delete u s))" "well_typed (snd (snd (user_Rename n u s)))"
  using assms
  by (auto simp: client_Save_def client_Delete_def client_Rename_def user_Save_def user_Delete_def user_Rename_def Let_def split_beta
      intro!: well_typed_set well_typed_del typing.keep_srv split: outcome.split bool.split)

lemma typed_clients:
  assumes "well_typed s"
  shows "well_typed (snd (clientHandler cfg wd cr r s))" "well_typed (snd (clientHandling cfg wd cr r s))"
  using assms
  by (auto simp: clientHandler_def clientHandling_def client_delete_def client_head_def client_get_def client_put_def
      client_put_rename_def client_put_update_def client_post_def not_allowed_def Let_def split_beta
      intro!: typing.keeps typed_actor_ops split: http_method.split)

lemma typed_users:
  assumes "well_typed s"
  shows "well_typed (snd (userHandler cfg wd cr r s))" "well_typed (snd (userHandling cfg wd cr r s))"
  using assms
  by (auto simp: userHandler_def userHandling_def user_delete_def user_head_def user_get_def user_put_def
      user_put_rename_def user_put_update_def user_post_def not_allowed_def Let_def split_beta
      intro!: typing.keeps typed_actor_ops split: http_method.split)

lemma typed_ServeHTTP: "well_typed s \<Longrightarrow> well_typed (snd (ServeHTTP sv r s))"
proof (cases rule: ServeHTTP_dispatch [of sv r s])
  case (dispatched rt a)
  assume "well_typed s"
  then have "well_typed (snd (dispatch sv rt (clean_request r\<lparr>r_OpUser := a\<rparr>) s))"
    by (intro typing.keep_dispatch) (auto intro: typed_clients typed_users)
  with dispatched(1) show ?thesis by simp
qed simp

lemma typed_step: "served sv s s' \<Longrightarrow> well_typed s \<Longrightarrow> well_typed s'"
  by (elim servedE) (metis typed_ServeHTTP snd_conv, auto intro: typing.keep_srv typing.keep_background typing.keep_tickers)

lemma typed_start:
  assumes "createDefaultActors cfg cr create new_server = Ok s"
  shows "well_typed s"
proof -
  have client: "well_typed s'" if "default_client cfg cr create n rights s = Ok s'" "well_typed s" for n rights s s'
  proof (cases "client_Get n s")
    case (Err e)
    with that(1) obtain c where c: "client_New n s = Ok c" by (auto simp: default_client_def outcome_bind_Ok_iff)
    then show ?thesis using that Err typed_actor_ops(1) [OF that(2)]
      by (cases "client_GenerateKeys cr (rights c)"; cases "fst (client_GenerateKeys cr (rights c))")
        (auto simp: default_client_def split: option.splits)
  qed (use that in \<open>auto simp: default_client_def\<close>)
  have admin: "well_typed s'" if "default_admin cfg cr create s = Ok s'" "well_typed s" for s s'
  proof (cases "user_Get ''admin'' s")
    case (Err e)
    with that(1) obtain u where u: "user_New cr ''admin'' s = Ok u" by (auto simp: default_admin_def outcome_bind_Ok_iff)
    obtain k u1 where k: "user_GenerateKeys cr (u\<lparr>us_Admin := True\<rparr>) = (k, u1)" by (metis prod.collapse)
    from that(1) Err u k typed_actor_ops(4) [OF that(2), of u1] show ?thesis
      by (cases k; cases "user_Save u1 s"; cases "fst (user_Save u1 s)") (auto simp: default_admin_def split: option.splits)
  qed (use that in \<open>auto simp: default_admin_def\<close>)
  have "well_typed new_server" by (simp add: well_typed_def)
  then show ?thesis using assms client admin typing.keep_objects(5) by (auto simp: createDefaultActors_def outcome_bind_Ok_iff)
qed

lemma typed_running:
  assumes "createDefaultActors cfg cr create new_server = Ok s0" "(served sv)\<^sup>*\<^sup>* s0 s"
  shows "well_typed s"
  using assms(2) typed_start [OF assms(1)] by (induction rule: rtranclp_induct) (auto intro: typed_step)

lemma stored_as_tables:
  "stored_as ''client'' v \<longleftrightarrow> (\<exists>x. v = VClient x)"
  "stored_as ''user'' v \<longleftrightarrow> (\<exists>x. v = VUser x)"
  "stored_as ''node'' v \<longleftrightarrow> (\<exists>x. v = VNode x)"
  "stored_as ''role'' v \<longleftrightarrow> (\<exists>x. v = VRole x)"
  "stored_as ''env'' v \<longleftrightarrow> (\<exists>x. v = VEnv x)"
  "stored_as ''data_bag'' v \<longleftrightarrow> (\<exists>x. v = VDataBag x)"
  "stored_as ''cookbook'' v \<longleftrightarrow> (\<exists>x. v = VCookbook x)"
  "stored_as ''sandbox'' v \<longleftrightarrow> (\<exists>x. v = VSandbox x)"
  "stored_as ''filestore'' v \<longleftrightarrow> (\<exists>x. v = VFile x)"
  "stored_as ''report'' v \<longleftrightarrow> (\<exists>x. v = VReport x)"
  "stored_as ''shovey'' v \<longleftrightarrow> (\<exists>x. v = VShovey x)"
  "stored_as ''shovey_run'' v \<longleftrightarrow> (\<exists>x. v = VShoveyRun x)"
  by (cases v; simp)+

text \<open>\<^bold>\<open>C4\<close>. In every such state the tables of the store hold only values of their own types, so that no
  lookup of an actor, a file or another object below fails its type assertion.\<close>

theorem lookups_never_panic:
  assumes "createDefaultActors cfg cr create new_server = Ok s0" "(served sv)\<^sup>*\<^sup>* s0 s"
  shows "client_Get n s \<noteq> Panic \<and> user_Get n s \<noteq> Panic \<and> node_Get n s \<noteq> Panic \<and> role_Get n s \<noteq> Panic \<and>
    env_Get n s \<noteq> Panic \<and> databag_Get n s \<noteq> Panic \<and> cookbook_Get n s \<noteq> Panic \<and> sandbox_Get n s \<noteq> Panic \<and>
    file_Get n s \<noteq> Panic \<and> report_Get n s \<noteq> Panic \<and> shovey_Get n s \<noteq> Panic \<and> GetRun sh n s \<noteq> Panic"
proof -
  have v: "stored_as t v" if "srv_Get t s k = Some v" "CHR '':'' \<notin> set t" for t k v
    using typed_running [OF assms] that unfolding well_typed_def by blast
  show ?thesis
  proof (intro conjI)
    show "client_Get n s \<noteq> Panic" using v [of "''client''" n] by (auto simp: client_Get_def stored_as_tables split: option.split)
    show "user_Get n s \<noteq> Panic" using v [of "''user''" n] by (auto simp: user_Get_def stored_as_tables split: option.split)
    show "node_Get n s \<noteq> Panic" using v [of "''node''" n] by (auto simp: node_Get_def stored_as_tables split: option.split)
    show "role_Get n s \<noteq> Panic" using v [of "''role''" n] by (auto simp: role_Get_def stored_as_tables split: option.split)
    show "env_Get n s \<noteq> Panic" using v [of "''env''" n] by (auto simp: env_Get_def stored_as_tables split: option.split)
    show "databag_Get n s \<noteq> Panic" using v [of "''data_bag''" n] by (auto simp: databag_Get_def stored_as_tables split: option.split)
    show "cookbook_Get n s \<noteq> Panic" using v [of "''cookbook''" n] by (auto simp: cookbook_Get_def stored_as_tables split: option.split)
    show "sandbox_Get n s \<noteq> Panic" using v [of "''sandbox''" n] by (auto simp: sandbox_Get_def stored_as_tables split: option.split)
    show "file_Get n s \<noteq> Panic" using v [of "''filestore''" n] by (auto simp: file_Get_def stored_as_tables split: option.split)
    show "report_Get n s \<noteq> Panic" using v [of "''report''" n] by (auto simp: report_Get_def stored_as_tables split: option.split)
    show "shovey_Get n s \<noteq> Panic" using v [of "''shovey''" n] by (auto simp: shovey_Get_def stored_as_tables split: option.split)
    show "GetRun sh n s \<noteq> Panic" using v [of "''shovey_run''" "sh_RunID sh @ n"] by (auto simp: GetRun_def stored_as_tables split: option.split)
  qed
qed

theorem lookups_never_panic_witness:
  "\<exists>s0. createDefaultActors example_conf example_crypto (\<lambda>_. None) new_server = Ok s0 \<and>
     node_Get ''web'' (snd (ServeHTTP example_service example_upload s0)) \<noteq> Panic"
proof -
  obtain s0 where s0: "createDefaultActors example_conf example_crypto (\<lambda>_. None) new_server = Ok s0" using example_started by blast
  have "(served example_service)\<^sup>*\<^sup>* s0 (snd (ServeHTTP example_service example_upload s0))"
    by (rule r_into_rtranclp) (metis served.request prod.collapse)
  from lookups_never_panic [OF s0 this] s0 show ?thesis by blast
qed

text \<open>\<^bold>\<open>C2\<close>. In every such state, a request of an actor that is not an administrator changes and deletes no
  client and no user but the actor itself, makes no new administrator, neither of a client nor
  of a user, and no new validator unless the actor is one.\<close>

theorem non_admin_confined:
  assumes "createDefaultActors cfg cr create new_server = Ok s0" "(served sv)\<^sup>*\<^sup>* s0 s"
    "UseAuth (sv_conf sv)" "GetReqUser (sv_conf sv) (header_Get r ''X-Ops-Userid'') s = Ok a" "\<not> IsAdmin (sv_conf sv) a"
    "ServeHTTP sv r s = (rep, s')"
  shows "(client_Get n s = Ok c \<and> \<not> IsSelf (sv_conf sv) a (AClient c) \<longrightarrow> client_Get n s' = Ok c) \<and>
    (user_Get n s = Ok u \<and> \<not> IsSelf (sv_conf sv) a (AUser u) \<longrightarrow> user_Get n s' = Ok u) \<and>
    (client_Get n s' = Ok c \<and> cl_Admin c \<longrightarrow> client_Get n s = Ok c) \<and>
    (user_Get n s' = Ok u \<and> us_Admin u \<longrightarrow> user_Get n s = Ok u) \<and>
    (client_Get n s' = Ok c \<and> cl_Validator c \<and> \<not> IsValidator (sv_conf sv) a \<longrightarrow> client_Get n s = Ok c)"
proof -
  note ok = ok_running [OF assms(1,2)]
  have conf: "confined (sv_conf sv) a s s'" using confined_ServeHTTP [OF ok assms(3,5,4)] assms(6) by simp
  then have ok': "actors_ok s'" by (simp add: confined_def)
  note self = IsSelf_self [OF assms(3)] and name = actor_Get_name [OF ok] and get = client_Get_Ok [OF ok] user_Get_Ok [OF ok]
    client_Get_Ok [OF ok'] user_Get_Ok [OF ok']
  show ?thesis
    using conf name unfolding confined_def keeps_others_def no_new_def self get
    by (metis client_admin.simps(1) client_validator.simps(1) user_admin.simps(1))
qed

definition example_delete :: request where
  "example_delete = (example_request MethodDelete ''/clients/chef-webui'' [])\<lparr>r_Header := [(''X-Ops-Userid'', [''chef-validator''])]\<rparr>"

theorem non_admin_confined_witness:
  "\<exists>s0 c. createDefaultActors example_conf example_crypto (\<lambda>_. None) new_server = Ok s0 \<and>
     client_Get ''chef-webui'' s0 = Ok c \<and>
     client_Get ''chef-webui'' (snd (ServeHTTP example_service example_delete s0)) = Ok c"
proof -
  obtain s0 where s0: "createDefaultActors example_conf example_crypto (\<lambda>_. None) new_server = Ok s0" using example_started by blast
  obtain rep s' where s': "ServeHTTP example_service example_delete s0 = (rep, s')" by (metis prod.collapse)
  obtain c v where c: "client_Get ''chef-webui'' s0 = Ok c" and v: "client_Get ''chef-validator'' s0 = Ok v" "\<not> cl_Admin v"
    using started(2,3) [OF s0] by blast
  have "cl_Name c = ''chef-webui''" "cl_Name v = ''chef-validator''" using actor_Get_name(1) [OF started(1) [OF s0]] c v(1) by blast+
  then have "\<not> IsSelf example_conf (AClient v) (AClient c)" by (simp add: IsSelf_def example_conf_def)
  moreover have "GetReqUser example_conf (header_Get example_delete ''X-Ops-Userid'') s0 = Ok (AClient v)"
    using v(1) by (simp add: GetReqUser_def Let_def example_conf_def example_delete_def example_request_def header_Get_def header_values_def)
  moreover have "\<not> IsAdmin example_conf (AClient v)" "UseAuth example_conf" using v(2) by (simp_all add: IsAdmin_def client_IsAdmin_def example_conf_def)
  moreover have "sv_conf example_service = example_conf" by (simp add: example_service_def)
  ultimately have "client_Get ''chef-webui'' s' = Ok c"
    using non_admin_confined [OF s0, of example_service s0 example_delete "AClient v" rep s' "''chef-webui''" c] s' c by simp
  with s0 s' c show ?thesis by simp
qed

end
