(* ===== verification/Resolution.thy ===== *)
theory Resolution
  imports Depends
begin

text \<open>
  When the resolution of dependencies returns. Its recursion follows the dependencies of
  the chosen versions and, on a cycle, stops when it meets a dependency that is known already
  with a constraint that is recorded already. It returns if every constraint that occurs is
  recorded under its own text; a constraint that \<open>go-version\<close> does not parse is never
  recorded, and then a cycle is followed for ever.
\<close>

subsection \<open>What occurs\<close>

text \<open>\<open>parses vl c\<close>: after \<open>appendConstraint\<close> the constraint \<open>c\<close> is present.\<close>

definition parses :: "'c verlib \<Rightarrow> string \<Rightarrow> bool" where
  "parses vl c = constraintPresent vl (vl_NewConstraint vl c) c"

text \<open>The dependencies of a version: a map of strings.\<close>

definition version_deps_ok :: "'c verlib \<Rightarrow> string \<Rightarrow> cookbook_version \<Rightarrow> bool" where
  "version_deps_ok vl name v \<longleftrightarrow>
     cv_CookbookName v = name \<and>
     (\<exists>dl. dep_list v = Ok dl \<and> (\<forall>(r, c2) \<in> set dl. \<exists>c. c2 = GStr c \<and> parses vl c))"

definition cookbook_deps_ok :: "'c verlib \<Rightarrow> string \<Rightarrow> cookbook \<Rightarrow> bool" where
  "cookbook_deps_ok vl name cb \<longleftrightarrow>
     sortedVersions cb \<noteq> [] \<and> (\<forall>v \<in> set (sortedVersions cb). version_deps_ok vl name v) \<and>
     (\<forall>v. cb_latest cb = Some v \<longrightarrow> v \<in> set (sortedVersions cb))"

definition server_deps_ok :: "'c verlib \<Rightarrow> server \<Rightarrow> bool" where
  "server_deps_ok vl s \<longleftrightarrow>
     ds_ok (srv_ds s) \<and>
     (\<forall>name v. srv_Get ''cookbook'' s name = Some v \<longrightarrow> (\<exists>cb. v = VCookbook cb \<and> cookbook_deps_ok vl name cb))"

definition dep_pairs :: "cookbook_version \<Rightarrow> (string \<times> string) set" where
  "dep_pairs v = {(r, c). \<exists>dl. dep_list v = Ok dl \<and> (r, GStr c) \<in> set dl}"

definition stored_pairs :: "server \<Rightarrow> (string \<times> string) set" where
  "stored_pairs s =
     {p. \<exists>name cb v. srv_Get ''cookbook'' s name = Some (VCookbook cb) \<and> v \<in> set (sortedVersions cb) \<and> p \<in> dep_pairs v}"

lemma finite_dep_pairs: "finite (dep_pairs v)"
proof (cases "dep_list v")
  case (Ok dl)
  have "dep_pairs v \<subseteq> (\<lambda>(r, g). (r, case g of GStr c \<Rightarrow> c | _ \<Rightarrow> [])) ` set dl"
    using Ok by (force simp: dep_pairs_def)
  then show ?thesis by (rule finite_subset) simp
qed (simp_all add: dep_pairs_def)

lemma finite_stored_pairs:
  assumes "ds_ok (srv_ds s)"
  shows "finite (stored_pairs s)"
proof -
  have "stored_pairs s \<subseteq> (\<Union>name \<in> set (srv_GetList ''cookbook'' s).
      \<Union>v \<in> set (case srv_Get ''cookbook'' s name of Some (VCookbook cb) \<Rightarrow> sortedVersions cb | _ \<Rightarrow> []). dep_pairs v)"
    using cookbook_store.in_names_iff [OF assms] by (auto simp: stored_pairs_def) (metis option.distinct(1))
  then show ?thesis by (rule finite_subset) (intro finite_UN_I finite_set finite_dep_pairs)
qed

lemma cookbook_Get_ok:
  assumes "server_deps_ok vl s"
  shows "cookbook_Get r s = Ok None \<or> (\<exists>cb. cookbook_Get r s = Ok (Some cb) \<and> cookbook_deps_ok vl r cb \<and>
      srv_Get ''cookbook'' s r = Some (VCookbook cb))"
proof (cases "srv_Get ''cookbook'' s r")
  case (Some v)
  then obtain cb where "v = VCookbook cb" "cookbook_deps_ok vl r cb" using assms by (auto simp: server_deps_ok_def)
  with Some show ?thesis by (simp add: cookbook_Get_def)
qed (simp add: cookbook_Get_def)

lemma multi_loop_in: "multi_loop check cs cvs = Some v \<Longrightarrow> v \<in> set cvs"
  by (induction cvs) (auto split: if_splits)

lemma multi_loop_first: "multi_loop check (k # ks) cvs = multi_loop check [k] cvs"
  by (induction cvs) simp_all

lemma sortedVersions_latest [simp]: "sortedVersions (cb\<lparr>cb_latest := l\<rparr>) = sortedVersions cb"
  by (simp add: sortedVersions_def)

text \<open>Choosing a version never fails, keeps the stored versions, and does not depend on the
  constraints after the first.\<close>

lemma latestMulti_ok:
  assumes "cookbook_deps_ok vl r cb"
  shows "\<exists>res cb'. latestMultiConstraint check (nil_constraints cs) cb = (Ok res, cb') \<and> cookbook_deps_ok vl r cb' \<and>
    sortedVersions cb' = sortedVersions cb \<and> (\<forall>v. res = Some v \<longrightarrow> v \<in> set (sortedVersions cb)) \<and>
    (cs \<noteq> [] \<longrightarrow> res = multi_loop check cs (sortedVersions cb))"
proof (cases cs)
  case Nil
  have "\<exists>l cb'. LatestVersion cb = (Ok l, cb') \<and> cookbook_deps_ok vl r cb' \<and> sortedVersions cb' = sortedVersions cb \<and>
      l \<in> set (sortedVersions cb)"
    using assms
    by (cases "cb_latest cb"; cases "sortedVersions cb") (auto simp: LatestVersion_def cookbook_deps_ok_def)
  then show ?thesis using Nil by (auto simp: latestMultiConstraint_def nil_constraints_def)
next
  case (Cons k ks)
  then show ?thesis
    using assms by (auto simp: latestMultiConstraint_def nil_constraints_def dest: multi_loop_in)
qed

subsection \<open>Observations of the graph\<close>

definition cons_of :: "'c depgraph \<Rightarrow> string \<Rightarrow> 'c list" where
  "cons_of g r = (case map_of (dg_nodes g) r of None \<Rightarrow> [] | Some n \<Rightarrow> nn_constraint n)"

definition has_edge :: "'c depgraph \<Rightarrow> string \<Rightarrow> string \<Rightarrow> bool" where
  "has_edge g n r = (case map_of (dg_nodes g) n of None \<Rightarrow> False | Some m \<Rightarrow> checkDependency m r)"

lemma nodes_simps [simp]:
  "map_of (dg_nodes (set_noun r n g)) = (map_of (dg_nodes g))(r \<mapsto> n)"
  "dg_shelf (set_noun r n g) = dg_shelf g"
  "map_of (dg_shelf (set_shelf r cb g)) = (map_of (dg_shelf g))(r \<mapsto> cb)"
  "dg_nodes (set_shelf r cb g) = dg_nodes g"
  by (simp_all add: set_noun_def set_shelf_def)

lemma cons_of_simps [simp]:
  "cons_of (set_noun r n g) r' = (if r' = r then nn_constraint n else cons_of g r')"
  "cons_of (set_shelf r cb g) = cons_of g"
  by (simp_all add: cons_of_def fun_eq_iff)

lemma has_edge_simps [simp]:
  "has_edge (set_noun r n g) a b = (if a = r then checkDependency n b else has_edge g a b)"
  "has_edge (set_shelf r cb g) = has_edge g"
  by (simp_all add: has_edge_def fun_eq_iff)

lemma checkDependency_iff: "checkDependency n r \<longleftrightarrow> r \<in> fst ` set (nn_deps n)"
  by (auto simp: checkDependency_def list_ex_iff)

lemma present_append: "constraintPresent vl cs c \<Longrightarrow> constraintPresent vl (cs @ ds) c"
  by (simp add: constraintPresent_def)

lemma append_present [simp]: "parses vl c \<Longrightarrow> constraintPresent vl (appendConstraint vl cs c) c"
  by (auto simp: appendConstraint_def parses_def constraintPresent_def)

lemma append_keeps: "constraintPresent vl cs c' \<Longrightarrow> constraintPresent vl (appendConstraint vl cs c) c'"
  by (auto simp: appendConstraint_def present_append)

lemma append_ne: "parses vl c \<Longrightarrow> appendConstraint vl cs c \<noteq> []"
  using append_present [of vl c cs] by (auto simp: constraintPresent_def)

lemma append_first: "cs \<noteq> [] \<Longrightarrow> multi_loop check (appendConstraint vl cs c) cvs = multi_loop check cs cvs"
  by (cases cs) (auto simp: appendConstraint_def multi_loop_first [of check _ "_ @ _"] multi_loop_first [of check _ "_ # _"]
      intro: multi_loop_first [symmetric] trans)

subsection \<open>The invariant and the measure\<close>

definition graph_ok :: "'c verlib \<Rightarrow> server \<Rightarrow> 'c depgraph \<Rightarrow> bool" where
  "graph_ok vl s g \<longleftrightarrow>
     (\<forall>r cb. map_of (dg_shelf g) r = Some cb \<longrightarrow>
        cookbook_deps_ok vl r cb \<and>
        (\<exists>cb0. srv_Get ''cookbook'' s r = Some (VCookbook cb0) \<and> sortedVersions cb = sortedVersions cb0)) \<and>
     (\<forall>r n. map_of (dg_nodes g) r = Some n \<longrightarrow> nn_version n \<noteq> [] \<longrightarrow> map_of (dg_shelf g) r \<noteq> None) \<and>
     (\<forall>r n. map_of (dg_nodes g) r = Some n \<longrightarrow> \<not> nn_noVersion n \<longrightarrow> nn_version n \<noteq> [] \<longrightarrow> nn_constraint n \<noteq> [] \<longrightarrow>
        (\<exists>cb v. map_of (dg_shelf g) r = Some cb \<and>
           multi_loop (vl_Check vl) (nn_constraint n) (sortedVersions cb) = Some v \<and> nn_version n = cv_Version v))"

definition unconstrained :: "string set \<Rightarrow> 'c depgraph \<Rightarrow> string set" where
  "unconstrained U g = {r \<in> U. cons_of g r = []}"

definition unshelved :: "string set \<Rightarrow> 'c depgraph \<Rightarrow> string set" where
  "unshelved U g = {r \<in> U. map_of (dg_shelf g) r = None}"

definition unrecorded :: "'c verlib \<Rightarrow> (string \<times> string) set \<Rightarrow> 'c depgraph \<Rightarrow> (string \<times> string) set" where
  "unrecorded vl P g = {(r, c) \<in> P. \<not> constraintPresent vl (cons_of g r) c}"

definition unconnected :: "string set \<Rightarrow> 'c depgraph \<Rightarrow> (string \<times> string) set" where
  "unconnected U g = {(n, r) \<in> U \<times> U. \<not> has_edge g n r}"

definition work_left :: "'c verlib \<Rightarrow> string set \<Rightarrow> (string \<times> string) set \<Rightarrow> 'c depgraph \<Rightarrow> nat" where
  "work_left vl U P g = card (unshelved U g) + card (unrecorded vl P g) + card (unconnected U g)"

text \<open>\<open>closer\<close> compares two graphs: \<open>g'\<close> has fewer nouns without a constraint, or as many and
  less work left; \<open>no_farther\<close> allows equality.\<close>

definition closer :: "'c verlib \<Rightarrow> string set \<Rightarrow> (string \<times> string) set \<Rightarrow> 'c depgraph \<Rightarrow> 'c depgraph \<Rightarrow> bool" where
  "closer vl U P g' g \<longleftrightarrow>
     card (unconstrained U g') < card (unconstrained U g) \<or>
     card (unconstrained U g') = card (unconstrained U g) \<and> work_left vl U P g' < work_left vl U P g"

definition no_farther :: "'c verlib \<Rightarrow> string set \<Rightarrow> (string \<times> string) set \<Rightarrow> 'c depgraph \<Rightarrow> 'c depgraph \<Rightarrow> bool" where
  "no_farther vl U P g' g \<longleftrightarrow>
     card (unconstrained U g') < card (unconstrained U g) \<or>
     card (unconstrained U g') = card (unconstrained U g) \<and> work_left vl U P g' \<le> work_left vl U P g"

lemma closer_no_farther: "closer vl U P g' g \<Longrightarrow> no_farther vl U P g' g"
  by (auto simp: closer_def no_farther_def)

lemma no_farther_trans: "no_farther vl U P g2 g1 \<Longrightarrow> no_farther vl U P g1 g \<Longrightarrow> no_farther vl U P g2 g"
  by (auto simp: no_farther_def)

lemma closer_trans: "no_farther vl U P g2 g1 \<Longrightarrow> closer vl U P g1 g \<Longrightarrow> closer vl U P g2 g"
  by (auto simp: no_farther_def closer_def)

text \<open>What a step may do to the graph: shelve, record, connect, and never the opposite.\<close>

definition grows :: "'c verlib \<Rightarrow> 'c depgraph \<Rightarrow> 'c depgraph \<Rightarrow> bool" where
  "grows vl g g' \<longleftrightarrow>
     (\<forall>r. cons_of g' r = [] \<longrightarrow> cons_of g r = []) \<and>
     (\<forall>r. map_of (dg_shelf g') r = None \<longrightarrow> map_of (dg_shelf g) r = None) \<and>
     (\<forall>r c. constraintPresent vl (cons_of g r) c \<longrightarrow> constraintPresent vl (cons_of g' r) c) \<and>
     (\<forall>n r. has_edge g n r \<longrightarrow> has_edge g' n r)"

lemma grows_subsets:
  assumes "grows vl g g'"
  shows "unconstrained U g' \<subseteq> unconstrained U g" "unshelved U g' \<subseteq> unshelved U g"
    "unrecorded vl P g' \<subseteq> unrecorded vl P g" "unconnected U g' \<subseteq> unconnected U g"
  using assms by (auto simp: grows_def unconstrained_def unshelved_def unrecorded_def unconnected_def)

lemma finite_left:
  assumes "finite U" "finite P"
  shows "finite (unconstrained U g)" "finite (unshelved U g)" "finite (unrecorded vl P g)" "finite (unconnected U g)"
proof -
  show "finite (unrecorded vl P g)" by (rule finite_subset [OF _ assms(2)]) (auto simp: unrecorded_def)
  show "finite (unconnected U g)"
    by (rule finite_subset [OF _ finite_cartesian_product [OF assms(1) assms(1)]]) (auto simp: unconnected_def)
qed (use assms(1) in \<open>simp_all add: unconstrained_def unshelved_def\<close>)

lemma grows_no_farther:
  assumes "grows vl g g'" "finite U" "finite P"
  shows "no_farther vl U P g' g"
proof -
  note le = card_mono [OF finite_left(1) [OF assms(2,3)] grows_subsets(1) [OF assms(1)]]
    card_mono [OF finite_left(2) [OF assms(2,3)] grows_subsets(2) [OF assms(1)]]
    card_mono [OF finite_left(3) [OF assms(2,3)] grows_subsets(3) [OF assms(1)]]
    card_mono [OF finite_left(4) [OF assms(2,3)] grows_subsets(4) [OF assms(1)]]
  have "work_left vl U P g' \<le> work_left vl U P g"
    unfolding work_left_def using le(2-4) by (intro add_mono)
  then show ?thesis using le(1) by (auto simp: no_farther_def)
qed

lemma grows_closer:
  assumes "grows vl g g'" "finite U" "finite P"
    "r \<in> U \<and> map_of (dg_shelf g) r = None \<and> map_of (dg_shelf g') r \<noteq> None \<or>
     (r, c) \<in> P \<and> \<not> constraintPresent vl (cons_of g r) c \<and> constraintPresent vl (cons_of g' r) c \<or>
     n \<in> U \<and> r \<in> U \<and> \<not> has_edge g n r \<and> has_edge g' n r"
  shows "closer vl U P g' g"
proof -
  note fin = finite_left [OF assms(2,3)]
  note sub = grows_subsets [OF assms(1)]
  note le = card_mono [OF fin(1) sub(1)] card_mono [OF fin(2) sub(2)] card_mono [OF fin(3) sub(3)] card_mono [OF fin(4) sub(4)]
  have "unshelved U g' \<subset> unshelved U g \<or> unrecorded vl P g' \<subset> unrecorded vl P g \<or> unconnected U g' \<subset> unconnected U g"
    using assms(4)
  proof (elim disjE conjE)
    assume "r \<in> U" "map_of (dg_shelf g) r = None" "map_of (dg_shelf g') r \<noteq> None"
    then have "r \<in> unshelved U g" "r \<notin> unshelved U g'" by (auto simp: unshelved_def)
    with sub(2) show ?thesis by blast
  next
    assume "(r, c) \<in> P" "\<not> constraintPresent vl (cons_of g r) c" "constraintPresent vl (cons_of g' r) c"
    then have "(r, c) \<in> unrecorded vl P g" "(r, c) \<notin> unrecorded vl P g'" by (auto simp: unrecorded_def)
    with sub(3) show ?thesis by blast
  next
    assume "n \<in> U" "r \<in> U" "\<not> has_edge g n r" "has_edge g' n r"
    then have "(n, r) \<in> unconnected U g" "(n, r) \<notin> unconnected U g'" by (auto simp: unconnected_def)
    with sub(4) show ?thesis by blast
  qed
  then have "card (unshelved U g') < card (unshelved U g) \<or> card (unrecorded vl P g') < card (unrecorded vl P g) \<or>
      card (unconnected U g') < card (unconnected U g)"
    using psubset_card_mono [OF fin(2) [of g], of "unshelved U g'"] psubset_card_mono [OF fin(3) [of vl g], of "unrecorded vl P g'"]
      psubset_card_mono [OF fin(4) [of g], of "unconnected U g'"] by argo
  then have "work_left vl U P g' < work_left vl U P g" unfolding work_left_def using le(2-4) by linarith
  then show ?thesis using le(1) by (auto simp: closer_def)
qed

subsection \<open>One iteration\<close>

text \<open>The universe: \<open>P\<close> holds all dependencies of stored versions, \<open>U\<close> their names.\<close>

definition universe :: "server \<Rightarrow> string set \<Rightarrow> (string \<times> string) set \<Rightarrow> bool" where
  "universe s U P \<longleftrightarrow> finite U \<and> finite P \<and> stored_pairs s \<subseteq> P \<and> fst ` P \<subseteq> U"

definition dep_list_ok :: "'c verlib \<Rightarrow> (string \<times> string) set \<Rightarrow> gobj \<Rightarrow> bool" where
  "dep_list_ok vl P dl \<longleftrightarrow> (\<forall>(r, c2) \<in> set dl. \<exists>c. c2 = GStr c \<and> parses vl c \<and> (r, c) \<in> P)"

lemma stored_dep_list:
  assumes "server_deps_ok vl s" "universe s U P" "srv_Get ''cookbook'' s r = Some (VCookbook cb)"
    "v \<in> set (sortedVersions cb)"
  shows "cv_CookbookName v = r \<and> (\<exists>dl. dep_list v = Ok dl \<and> dep_list_ok vl P dl)"
proof -
  have "version_deps_ok vl r v" using assms(1,3,4) by (auto simp: server_deps_ok_def cookbook_deps_ok_def)
  then obtain dl where dl: "cv_CookbookName v = r" "dep_list v = Ok dl" "\<forall>(r, c2) \<in> set dl. \<exists>c. c2 = GStr c \<and> parses vl c"
    by (auto simp: version_deps_ok_def)
  have "(r', c) \<in> P" if "(r', GStr c) \<in> set dl" for r' c
    using that assms dl(2) unfolding universe_def stored_pairs_def dep_pairs_def by blast
  with dl show ?thesis by (fastforce simp: dep_list_ok_def)
qed

lemma universe_stored: "universe s U P \<Longrightarrow> (r, c) \<in> P \<Longrightarrow> r \<in> U"
  by (force simp: universe_def)

text \<open>The state of the graph after the dependency on \<open>r\<close> has been entered.\<close>

lemma resolve_dep_ok:
  assumes cb: "cookbook_deps_ok vl r depCb" "srv_Get ''cookbook'' s r = Some (VCookbook cb0)"
      "sortedVersions depCb = sortedVersions cb0" "\<And>cb. map_of (dg_shelf g) r = Some cb \<Longrightarrow> cb = depCb"
    and g: "graph_ok vl s g" "map_of (dg_nodes g) r = Some rn" "\<not> nn_noVersion rn"
    and c: "parses vl c" "r \<in> U" "(r, c) \<in> P" "finite U" "finite P"
  shows "\<exists>g' res. resolve_dep vl r c depCb rn g = Ok (g', res) \<and> graph_ok vl s g' \<and> no_farther vl U P g' g \<and>
    (map_of (dg_shelf g) r = None \<or> \<not> constraintPresent vl (nn_constraint rn) c \<longrightarrow> closer vl U P g' g) \<and>
    (grows vl g g' \<or> card (unconstrained U g') < card (unconstrained U g)) \<and>
    dom (map_of (dg_nodes g')) = dom (map_of (dg_nodes g)) \<and> (\<forall>v. res = Some v \<longrightarrow> v \<in> set (sortedVersions cb0))"
proof -
  let ?cs = "appendConstraint vl (nn_constraint rn) c"
  let ?rn1 = "rn\<lparr>nn_constraint := ?cs\<rparr>"
  have cs: "?cs \<noteq> []" using c(1) by (rule append_ne)
  obtain res cb' where lm: "latestMultiConstraint (vl_Check vl) (nil_constraints ?cs) depCb = (Ok res, cb')"
    "cookbook_deps_ok vl r cb'" "sortedVersions cb' = sortedVersions depCb"
    "\<forall>v. res = Some v \<longrightarrow> v \<in> set (sortedVersions depCb)" "res = multi_loop (vl_Check vl) ?cs (sortedVersions depCb)"
    using latestMulti_ok [OF cb(1), of "vl_Check vl" ?cs] cs by blast
  define reset where "reset = (\<exists>v. res = Some v \<and> nn_version rn \<noteq> [] \<and> nn_version rn \<noteq> cv_Version v)"
  define n' where "n' = (case res of None \<Rightarrow> ?rn1\<lparr>nn_noVersion := True\<rparr>
      | Some v \<Rightarrow> (if reset then ?rn1\<lparr>nn_deps := []\<rparr> else ?rn1)\<lparr>nn_version := cv_Version v\<rparr>)"
  let ?g' = "set_noun r n' (set_shelf r cb' g)"
  have eq: "resolve_dep vl r c depCb rn g = Ok (?g', res)"
    by (auto simp: resolve_dep_def lm(1) n'_def reset_def Let_def split: option.split)
  have n': "nn_constraint n' = ?cs" "\<not> reset \<Longrightarrow> nn_deps n' = nn_deps rn"
    by (auto simp: n'_def split: option.split)
  have ok: "graph_ok vl s ?g'"
    using g(1) cb(2,3) lm(2-5) cs by (auto simp: graph_ok_def n'_def split: option.splits if_splits)
  have no_reset: "\<not> reset" if ne: "nn_constraint rn \<noteq> []"
  proof
    assume reset
    then obtain v where v: "res = Some v" "nn_version rn \<noteq> []" "nn_version rn \<noteq> cv_Version v" by (auto simp: reset_def)
    obtain cb v' where "map_of (dg_shelf g) r = Some cb" "multi_loop (vl_Check vl) (nn_constraint rn) (sortedVersions cb) = Some v'"
      "nn_version rn = cv_Version v'"
      using g ne v(2) unfolding graph_ok_def by blast
    moreover from this(1) have "cb = depCb" by (rule cb(4))
    ultimately show False using v lm(5) append_first [OF ne] by simp
  qed
  have con: "cons_of g r = nn_constraint rn" using g(2) by (simp add: cons_of_def)
  have edge: "has_edge g r = checkDependency rn" using g(2) by (simp add: has_edge_def fun_eq_iff)
  have gr: "grows vl g ?g'" if "\<not> reset"
    using n' that cs con edge append_keeps [of vl "nn_constraint rn" _ c]
    by (auto simp: grows_def checkDependency_def)
  have dec: "card (unconstrained U ?g') < card (unconstrained U g)" if "nn_constraint rn = []"
  proof (rule psubset_card_mono)
    show "finite (unconstrained U g)" using c(4) by (simp add: unconstrained_def)
    show "unconstrained U ?g' \<subset> unconstrained U g"
      using that con c(2) cs n'(1) by (auto simp: unconstrained_def)
  qed
  have "closer vl U P ?g' g" if "map_of (dg_shelf g) r = None \<or> \<not> constraintPresent vl (nn_constraint rn) c"
  proof (cases "nn_constraint rn = []")
    case True
    with dec show ?thesis by (simp add: closer_def)
  next
    case False
    have "map_of (dg_shelf g) r = None \<or> \<not> constraintPresent vl (cons_of g r) c" using that con by simp
    then show ?thesis
      using grows_closer [OF gr [OF no_reset [OF False]] c(4,5), of r c] c(1-3) n'(1) by auto
  qed
  moreover have "no_farther vl U P ?g' g"
    using dec grows_no_farther [OF gr [OF no_reset] c(4,5)] by (cases "nn_constraint rn = []") (auto simp: no_farther_def)
  moreover have "grows vl g ?g' \<or> card (unconstrained U ?g') < card (unconstrained U g)"
    using dec gr no_reset by blast
  moreover have "dom (map_of (dg_nodes ?g')) = dom (map_of (dg_nodes g))" using g(2) by auto
  ultimately show ?thesis using eq ok lm(4) unfolding cb(3) by (intro exI [of _ ?g'] exI [of _ res] conjI impI) assumption+
qed

text \<open>The graph with the dependency of \<open>name\<close> on \<open>r\<close> entered.\<close>

definition enter_dep :: "'c verlib \<Rightarrow> string \<Rightarrow> string \<Rightarrow> string \<Rightarrow> 'c depgraph \<Rightarrow> 'c depgraph" where
  "enter_dep vl name r c g =
     (let g1 = (if map_of (dg_nodes g) r = None then set_noun r new_noun g else g)
      in case map_of (dg_nodes g1) name of
           None \<Rightarrow> g1
         | Some src \<Rightarrow> set_noun name (src\<lparr>nn_deps := aput r (vl_NewConstraint vl c) (nn_deps src)\<rparr>) g1)"

lemma enter_dep_ok:
  assumes "graph_ok vl s g" "map_of (dg_nodes g) name \<noteq> None"
    "\<And>n. map_of (dg_nodes g) r = Some n \<Longrightarrow> \<not> nn_noVersion n \<and> \<not> nn_notFound n"
  shows "graph_ok vl s (enter_dep vl name r c g)" "grows vl g (enter_dep vl name r c g)"
    "has_edge (enter_dep vl name r c g) name r" "dg_shelf (enter_dep vl name r c g) = dg_shelf g"
    "dom (map_of (dg_nodes (enter_dep vl name r c g))) = insert r (dom (map_of (dg_nodes g)))"
    "\<exists>rn. map_of (dg_nodes (enter_dep vl name r c g)) r = Some rn \<and> \<not> nn_noVersion rn \<and> \<not> nn_notFound rn \<and>
       nn_constraint rn = cons_of g r"
proof -
  obtain src where src: "map_of (dg_nodes g) name = Some src" using assms(2) by blast
  let ?e = "enter_dep vl name r c g"
  have e: "?e = set_noun name (src\<lparr>nn_deps := aput r (vl_NewConstraint vl c) (nn_deps src)\<rparr>)
      (if map_of (dg_nodes g) r = None then set_noun r new_noun g else g)"
    using src by (auto simp: enter_dep_def Let_def)
  have nn: "nn_constraint new_noun = []" "nn_version new_noun = []" "nn_deps new_noun = []" "\<not> nn_noVersion new_noun"
    "\<not> nn_notFound new_noun" by (simp_all add: new_noun_def)
  show "graph_ok vl s ?e" using assms(1) src nn unfolding e graph_ok_def by auto
  show "grows vl g ?e"
    using src nn unfolding e grows_def
    by (auto simp: cons_of_def has_edge_def checkDependency_iff keys_aput constraintPresent_def)
  show "has_edge ?e name r" unfolding e by (simp add: checkDependency_iff keys_aput)
  show "dg_shelf ?e = dg_shelf g" unfolding e by simp
  show "dom (map_of (dg_nodes ?e)) = insert r (dom (map_of (dg_nodes g)))" using src unfolding e by auto
  show "\<exists>rn. map_of (dg_nodes ?e) r = Some rn \<and> \<not> nn_noVersion rn \<and> \<not> nn_notFound rn \<and> nn_constraint rn = cons_of g r"
    using src nn assms(3) unfolding e by (cases "map_of (dg_nodes g) r") (auto simp: cons_of_def)
qed

text \<open>One iteration succeeds; when it asks for another version to be visited, the graph is closer
  to completion than before.\<close>

lemma visit_dep_ok:
  assumes srv: "server_deps_ok vl s" "universe s U P"
    and g: "graph_ok vl s g" "map_of (dg_nodes g) name \<noteq> None" "name \<in> U"
    and c: "parses vl c" "(r, c) \<in> P"
  shows "\<exists>g' res. visit_dep vl s name r (GStr c) g = Ok (g', res) \<and> graph_ok vl s g' \<and> no_farther vl U P g' g \<and>
    dom (map_of (dg_nodes g)) \<subseteq> dom (map_of (dg_nodes g')) \<and>
    (\<forall>v. res = Some v \<longrightarrow> closer vl U P g' g \<and> r \<in> U \<and> map_of (dg_nodes g') r \<noteq> None \<and> cv_CookbookName v = r \<and>
       (\<exists>dl. dep_list v = Ok dl \<and> dep_list_ok vl P dl))"
proof (cases "case map_of (dg_nodes g) r of None \<Rightarrow> False | Some n \<Rightarrow> nn_noVersion n \<or> nn_notFound n")
  case True
  then show ?thesis using g(1) by (auto simp: visit_dep_def no_farther_def)
next
  case False
  have fin: "finite U" "finite P" and rU: "r \<in> U" using srv(2) c(2) by (force simp: universe_def)+
  let ?e = "enter_dep vl name r c g"
  note en = enter_dep_ok [of vl s g name r c, OF g(1,2)]
  have en': "\<And>n. map_of (dg_nodes g) r = Some n \<Longrightarrow> \<not> nn_noVersion n \<and> \<not> nn_notFound n" using False by auto
  note en = en [OF en']
  obtain rn where rn: "map_of (dg_nodes ?e) r = Some rn" "\<not> nn_noVersion rn" "\<not> nn_notFound rn" "nn_constraint rn = cons_of g r"
    using en(6) by blast
  define g1 where "g1 = (if map_of (dg_nodes g) r = None then set_noun r new_noun g else g)"
  obtain src where src: "map_of (dg_nodes g1) name = Some src"
    using g(2) unfolding g1_def by (cases "map_of (dg_nodes g) r = None"; cases "name = r") auto
  have dt: "checkDependency src r = has_edge g name r"
    using src g(2) unfolding g1_def by (auto simp: has_edge_def new_noun_def checkDependency_def split: if_splits)
  have e: "?e = set_noun name (src\<lparr>nn_deps := aput r (vl_NewConstraint vl c) (nn_deps src)\<rparr>) g1"
    using src unfolding enter_dep_def Let_def g1_def [symmetric] by simp
  have vd: "visit_dep vl s name r (GStr c) g =
      (case map_of (dg_shelf ?e) r of
         Some depCb \<Rightarrow> if has_edge g name r \<and> constraintPresent vl (nn_constraint rn) c then Ok (?e, None)
                       else resolve_dep vl r c depCb rn ?e
       | None \<Rightarrow> outcome_bind (cookbook_Get r s) (\<lambda>found. case found of
             None \<Rightarrow> Ok (set_noun r (rn\<lparr>nn_notFound := True, nn_constraint := appendConstraint vl (nn_constraint rn) c\<rparr>) ?e, None)
           | Some depCb \<Rightarrow> resolve_dep vl r c depCb rn ?e))"
    using False
    unfolding visit_dep_def Let_def g1_def [symmetric] gval.case src option.case dt [symmetric] e rn(1) [unfolded e]
    by (simp del: nodes_simps)
  have nf: "no_farther vl U P ?e g" using en(2) fin by (rule grows_no_farther)
  have go: ?thesis
    if d: "cookbook_deps_ok vl r depCb" "srv_Get ''cookbook'' s r = Some (VCookbook cb0)" "sortedVersions depCb = sortedVersions cb0"
      "\<And>cb. map_of (dg_shelf ?e) r = Some cb \<Longrightarrow> cb = depCb"
      "visit_dep vl s name r (GStr c) g = resolve_dep vl r c depCb rn ?e"
      "map_of (dg_shelf ?e) r = None \<or> \<not> (has_edge g name r \<and> constraintPresent vl (nn_constraint rn) c)"
    for depCb cb0
  proof -
    obtain g' res where g': "resolve_dep vl r c depCb rn ?e = Ok (g', res)" "graph_ok vl s g'" "no_farther vl U P g' ?e"
      "map_of (dg_shelf ?e) r = None \<or> \<not> constraintPresent vl (nn_constraint rn) c \<longrightarrow> closer vl U P g' ?e"
      "dom (map_of (dg_nodes g')) = dom (map_of (dg_nodes ?e))" "\<forall>v. res = Some v \<longrightarrow> v \<in> set (sortedVersions cb0)"
      using resolve_dep_ok [OF d(1-4) en(1) rn(1,2) c(1) rU c(2) fin] by blast
    have "closer vl U P g' g"
    proof (cases "has_edge g name r")
      case True
      with d(6) g'(4) have "closer vl U P g' ?e" by blast
      with nf show ?thesis by (auto simp: closer_def no_farther_def)
    next
      case False
      with en(3) g(3) rU have "name \<in> U \<and> r \<in> U \<and> \<not> has_edge g name r \<and> has_edge ?e name r" by blast
      then have "closer vl U P ?e g" using grows_closer [OF en(2) fin, of r c name] by blast
      with g'(3) show ?thesis by (rule closer_trans)
    qed
    moreover have "map_of (dg_nodes g') r \<noteq> None" using g'(5) rn(1) by (metis domI domIff)
    moreover have "dom (map_of (dg_nodes g)) \<subseteq> dom (map_of (dg_nodes g'))" using g'(5) en(5) by blast
    moreover have "\<forall>v. res = Some v \<longrightarrow> cv_CookbookName v = r \<and> (\<exists>dl. dep_list v = Ok dl \<and> dep_list_ok vl P dl)"
      using stored_dep_list [OF srv d(2)] g'(6) by blast
    ultimately show ?thesis
      using d(5) g'(1,2) no_farther_trans [OF g'(3) nf] rU by (intro exI [of _ g'] exI [of _ res]) simp
  qed
  show ?thesis
  proof (cases "map_of (dg_shelf ?e) r")
    case (Some depCb)
    show ?thesis
    proof (cases "has_edge g name r \<and> constraintPresent vl (nn_constraint rn) c")
      case True
      then show ?thesis using vd Some en(1,5) nf by (intro exI [of _ ?e] exI [of _ None]) auto
    next
      case False
      obtain cb0 where "cookbook_deps_ok vl r depCb" "srv_Get ''cookbook'' s r = Some (VCookbook cb0)"
        "sortedVersions depCb = sortedVersions cb0"
        using en(1) Some unfolding graph_ok_def by blast
      then show ?thesis by (rule go) (use vd Some False in auto)
    qed
  next
    case None
    show ?thesis
    proof (cases "cookbook_Get r s = Ok None")
      case True
      let ?n = "rn\<lparr>nn_notFound := True, nn_constraint := appendConstraint vl (nn_constraint rn) c\<rparr>"
      have "nn_version rn = []" using en(1) rn(1) None unfolding graph_ok_def by blast
      then have "graph_ok vl s (set_noun r ?n ?e)" using en(1) unfolding graph_ok_def by auto
      moreover have "grows vl ?e (set_noun r ?n ?e)"
        using rn(1) append_keeps [of vl "nn_constraint rn" _ c] append_ne [OF c(1)]
        by (auto simp: grows_def cons_of_def has_edge_def checkDependency_def)
      ultimately show ?thesis
        using vd None True en(5) no_farther_trans [OF grows_no_farther [OF _ fin] nf]
        by (intro exI [of _ "set_noun r ?n ?e"] exI [of _ None]) auto
    next
      case False
      then obtain cb where cb: "cookbook_Get r s = Ok (Some cb)" "cookbook_deps_ok vl r cb"
        "srv_Get ''cookbook'' s r = Some (VCookbook cb)"
        using cookbook_Get_ok [OF srv(1), of r] by blast
      show ?thesis by (rule go [OF cb(2,3) refl]) (use vd None cb(1) in simp_all)
    qed
  qed
qed

subsection \<open>Resolution returns\<close>

lemma getDependencies_ok:
  assumes "server_deps_ok vl s" "universe s U P"
  shows "graph_ok vl s g \<Longrightarrow> map_of (dg_nodes g) name \<noteq> None \<Longrightarrow> name \<in> U \<Longrightarrow> dep_list_ok vl P dl \<Longrightarrow>
    \<exists>g'. getDependencies vl s name dl g = Some (Ok g') \<and> graph_ok vl s g' \<and> no_farther vl U P g' g \<and>
      dom (map_of (dg_nodes g)) \<subseteq> dom (map_of (dg_nodes g'))"
proof (induction "(g, dl)" arbitrary: g dl name
    rule: wf_induct_rule [OF wf_measures [of "[\<lambda>(g, dl). card (unconstrained U g), \<lambda>(g, dl). work_left vl U P g, \<lambda>(g, dl). length dl]"]])
  case less: (1 g dl name)
  show ?case
  proof (cases dl)
    case Nil
    then show ?thesis using less.prems by (simp add: getDependencies.simps no_farther_def)
  next
    case (Cons d rest)
    obtain r c where d: "d = (r, GStr c)" "parses vl c" "(r, c) \<in> P"
      using less.prems(4) Cons by (cases d) (auto simp: dep_list_ok_def)
    have rest: "dep_list_ok vl P rest" using less.prems(4) Cons by (simp add: dep_list_ok_def)
    obtain g1 res where g1: "visit_dep vl s name r (GStr c) g = Ok (g1, res)" "graph_ok vl s g1" "no_farther vl U P g1 g"
      "dom (map_of (dg_nodes g)) \<subseteq> dom (map_of (dg_nodes g1))"
      "\<forall>v. res = Some v \<longrightarrow> closer vl U P g1 g \<and> r \<in> U \<and> map_of (dg_nodes g1) r \<noteq> None \<and> cv_CookbookName v = r \<and>
         (\<exists>dl. dep_list v = Ok dl \<and> dep_list_ok vl P dl)"
      using visit_dep_ok [OF assms less.prems(1-3) d(2,3)] by blast
    have n1: "map_of (dg_nodes g1) name \<noteq> None" using g1(4) less.prems(2) by blast
    show ?thesis
    proof (cases res)
      case None
      have "((g1, rest), (g, dl)) \<in> measures [\<lambda>(g, dl). card (unconstrained U g), \<lambda>(g, dl). work_left vl U P g, \<lambda>(g, dl). length dl]"
        using g1(3) Cons by (auto simp: no_farther_def)
      from less.hyps [OF this g1(2) n1 less.prems(3) rest] obtain g' where
        "getDependencies vl s name rest g1 = Some (Ok g')" "graph_ok vl s g'" "no_farther vl U P g' g1"
        "dom (map_of (dg_nodes g1)) \<subseteq> dom (map_of (dg_nodes g'))" by blast
      then show ?thesis
        using g1(1,4) Cons d(1) None no_farther_trans [OF _ g1(3)] by (subst getDependencies.simps) auto
    next
      case (Some v)
      then obtain dl' where v: "closer vl U P g1 g" "r \<in> U" "map_of (dg_nodes g1) r \<noteq> None" "cv_CookbookName v = r"
        "dep_list v = Ok dl'" "dep_list_ok vl P dl'"
        using g1(5) by blast
      have "((g1, dl'), (g, dl)) \<in> measures [\<lambda>(g, dl). card (unconstrained U g), \<lambda>(g, dl). work_left vl U P g, \<lambda>(g, dl). length dl]"
        using v(1) by (auto simp: closer_def)
      from less.hyps [OF this g1(2) v(3,2,6)] obtain g2 where
        g2: "getDependencies vl s r dl' g1 = Some (Ok g2)" "graph_ok vl s g2" "no_farther vl U P g2 g1"
        "dom (map_of (dg_nodes g1)) \<subseteq> dom (map_of (dg_nodes g2))" by blast
      have c2: "closer vl U P g2 g" using g2(3) v(1) by (rule closer_trans)
      have "((g2, rest), (g, dl)) \<in> measures [\<lambda>(g, dl). card (unconstrained U g), \<lambda>(g, dl). work_left vl U P g, \<lambda>(g, dl). length dl]"
        using c2 by (auto simp: closer_def)
      moreover have "map_of (dg_nodes g2) name \<noteq> None" using g2(4) n1 by blast
      ultimately obtain g' where
        g': "getDependencies vl s name rest g2 = Some (Ok g')" "graph_ok vl s g'" "no_farther vl U P g' g2"
        "dom (map_of (dg_nodes g2)) \<subseteq> dom (map_of (dg_nodes g'))"
        using less.hyps [OF _ g2(2) _ less.prems(3) rest] by blast
      have "getDependencies vl s name dl g = Some (Ok g')"
        using g1(1) Cons d(1) Some v(4,5) g2(1) g'(1) by (subst getDependencies.simps) simp
      moreover have "no_farther vl U P g' g" using no_farther_trans [OF g'(3) closer_no_farther [OF c2]] .
      moreover have "dom (map_of (dg_nodes g)) \<subseteq> dom (map_of (dg_nodes g'))" using g1(4) g2(4) g'(4) by blast
      ultimately show ?thesis using g'(2) by blast
    qed
  qed
qed

lemma resolve_run_list_ok:
  assumes "server_deps_ok vl s" "universe s U P"
  shows "graph_ok vl s g \<Longrightarrow> set ks \<subseteq> dom (map_of (dg_nodes g)) \<Longrightarrow> set ks \<subseteq> U \<Longrightarrow>
    \<exists>g'. resolve_run_list vl s ks g = Some (Ok g') \<and> graph_ok vl s g'"
proof (induction ks arbitrary: g)
  case (Cons k ks)
  then obtain n where n: "map_of (dg_nodes g) k = Some n" by auto
  have ksU: "set ks \<subseteq> U" using Cons.prems(3) by simp
  have sub: "set ks \<subseteq> dom (map_of (dg_nodes (set_noun k m g')))" if "dg_nodes g' = dg_nodes g" for m g'
    using Cons.prems(2) that by auto
  show ?case
  proof (cases "map_of (dg_shelf g) k \<noteq> None \<or> nn_notFound n")
    case True
    then show ?thesis using Cons n by auto
  next
    case False
    then have nv: "nn_version n = []" using Cons.prems(1) n unfolding graph_ok_def by blast
    show ?thesis
    proof (cases "cookbook_Get k s = Ok None")
      case True
      have "graph_ok vl s (set_noun k (n\<lparr>nn_notFound := True\<rparr>) g)"
        using Cons.prems(1) nv unfolding graph_ok_def by auto
      from Cons.IH [OF this sub ksU] show ?thesis using n False True by simp
    next
      case f: False
      obtain cb where cb: "cookbook_Get k s = Ok (Some cb)" "cookbook_deps_ok vl k cb" "srv_Get ''cookbook'' s k = Some (VCookbook cb)"
        using cookbook_Get_ok [OF assms(1), of k] f by blast
      obtain res cb' where lm: "latestMultiConstraint (vl_Check vl) (nil_constraints (nn_constraint n)) cb = (Ok res, cb')"
        "cookbook_deps_ok vl k cb'" "sortedVersions cb' = sortedVersions cb" "\<forall>v. res = Some v \<longrightarrow> v \<in> set (sortedVersions cb)"
        "nn_constraint n \<noteq> [] \<longrightarrow> res = multi_loop (vl_Check vl) (nn_constraint n) (sortedVersions cb)"
        using latestMulti_ok [OF cb(2), of "vl_Check vl" "nn_constraint n"] by blast
      show ?thesis
      proof (cases res)
        case None
        let ?g = "set_noun k (n\<lparr>nn_noVersion := True\<rparr>) (set_shelf k cb' g)"
        have "graph_ok vl s ?g" using Cons.prems(1) nv lm(2,3) cb(3) unfolding graph_ok_def by auto
        from Cons.IH [OF this sub ksU] show ?thesis using n False cb(1) lm(1) None by simp
      next
        case (Some v)
        let ?g = "set_noun k (n\<lparr>nn_version := cv_Version v\<rparr>) (set_shelf k cb' g)"
        have ml: "nn_constraint n \<noteq> [] \<longrightarrow> multi_loop (vl_Check vl) (nn_constraint n) (sortedVersions cb) = Some v"
          using lm(5) Some by auto
        have ok: "graph_ok vl s ?g" using Cons.prems(1) lm(2,3) cb(3) ml unfolding graph_ok_def by auto
        obtain dl where dl: "cv_CookbookName v = k" "dep_list v = Ok dl" "dep_list_ok vl P dl"
          using stored_dep_list [OF assms cb(3)] lm(4) Some by blast
        have "map_of (dg_nodes ?g) k \<noteq> None" "k \<in> U" using Cons.prems(3) by simp_all
        then obtain g' where g': "getDependencies vl s k dl ?g = Some (Ok g')" "graph_ok vl s g'"
          "dom (map_of (dg_nodes ?g)) \<subseteq> dom (map_of (dg_nodes g'))"
          using getDependencies_ok [OF assms ok _ _ dl(3)] by blast
        have "set ks \<subseteq> dom (map_of (dg_nodes g'))" by (rule subset_trans [OF sub g'(3)]) simp
        then obtain g2 where "resolve_run_list vl s ks g' = Some (Ok g2)" "graph_ok vl s g2"
          using Cons.IH [OF g'(2)] Cons.prems(3) by auto
        then show ?thesis using n False cb(1) lm(1) Some dl(1,2) g'(1) by auto
      qed
    qed
  qed
qed simp

lemma map_of_fold_aput:
  "map_of (fold (\<lambda>x m. aput (f x) (h x) m) xs m) k \<noteq> None \<longleftrightarrow> k \<in> f ` set xs \<or> map_of m k \<noteq> None"
  by (induction xs arbitrary: m) auto

lemma dom_env_nodes: "dom (map_of (env_nodes vl env nodes)) = dom (map_of nodes)"
  unfolding env_nodes_def by (induction env arbitrary: nodes) (auto split: option.splits if_splits)

lemma fold_versions_nil:
  assumes "\<And>x. nn_version (h x) = []"
  shows "\<forall>k n. map_of m k = Some n \<longrightarrow> nn_version n = [] \<Longrightarrow>
    \<forall>k n. map_of (fold (\<lambda>x m. aput (f x) (h x) m) xs m) k = Some n \<longrightarrow> nn_version n = []"
proof (induction xs arbitrary: m)
  case (Cons x xs)
  show ?case unfolding fold_Cons o_apply by (rule Cons.IH) (use Cons.prems assms in auto)
qed simp

lemma run_list_graph_ok:
  "graph_ok vl s (run_list_graph vl runList env)"
  "set (map run_list_name runList) \<subseteq> dom (map_of (dg_nodes (run_list_graph vl runList env)))"
proof -
  have "\<forall>k n. map_of (run_list_nodes vl runList) k = Some n \<longrightarrow> nn_version n = []"
    unfolding run_list_nodes_def by (rule fold_versions_nil) (simp_all add: new_noun_def)
  then have "nn_version n = []" if "map_of (env_nodes vl env (run_list_nodes vl runList)) k = Some n" for k n
    using that unfolding env_nodes_def
    by (induction env arbitrary: n rule: rev_induct) (force split: option.splits if_splits)+
  then show "graph_ok vl s (run_list_graph vl runList env)" by (auto simp: graph_ok_def run_list_graph_def)
  show "set (map run_list_name runList) \<subseteq> dom (map_of (dg_nodes (run_list_graph vl runList env)))"
    using map_of_fold_aput [of run_list_name "\<lambda>cbV. new_noun\<lparr>nn_constraint := run_list_constraint vl cbV\<rparr>" runList "[]"]
    by (auto simp: run_list_graph_def dom_env_nodes run_list_nodes_def)
qed

text \<open>\<^bold>\<open>C22\<close>. The resolution of any run list in any environment returns, whatever cycles the
  dependencies have, if the stored cookbooks have versions with string constraints as
  dependencies and each of these constraints is recorded under its own text.\<close>

theorem resolution_terminates:
  assumes "server_deps_ok vl s"
  shows "\<exists>res. DependsCookbooks vl baseURL runList envConstraints s = Some res"
proof -
  let ?P = "stored_pairs s" and ?U = "fst ` stored_pairs s \<union> set (map run_list_name runList)"
  have fin: "finite ?P" using assms by (intro finite_stored_pairs) (simp add: server_deps_ok_def)
  then have "universe s ?U ?P" by (auto simp: universe_def)
  from resolve_run_list_ok [OF assms this run_list_graph_ok] obtain g where
    "resolve_run_list vl s (map run_list_name runList) (run_list_graph vl runList envConstraints) = Some (Ok g)"
    by auto
  then show ?thesis by (simp add: DependsCookbooks_def Let_def)
qed

subsection \<open>A cycle that never ends\<close>

text \<open>The states of the graph in which the recursion comes back to where it was.\<close>

definition looping :: "string \<Rightarrow> cookbook_version \<Rightarrow> cookbook_version list \<Rightarrow> 'c depgraph \<Rightarrow> bool" where
  "looping a v vs g \<longleftrightarrow>
     (\<exists>n cb. map_of (dg_nodes g) a = Some n \<and> \<not> nn_noVersion n \<and> \<not> nn_notFound n \<and> nn_constraint n = [] \<and>
        map_of (dg_shelf g) a = Some cb \<and> sortedVersions cb = v # vs \<and> (cb_latest cb = None \<or> cb_latest cb = Some v))"

lemma looping_visit:
  assumes "looping a v vs g" "vl_NewConstraint vl c = []"
  shows "\<exists>g'. visit_dep vl s a a (GStr c) g = Ok (g', Some v) \<and> looping a v vs g'"
proof -
  obtain n cb where n: "map_of (dg_nodes g) a = Some n" "\<not> nn_noVersion n" "\<not> nn_notFound n" "nn_constraint n = []"
    "map_of (dg_shelf g) a = Some cb" "sortedVersions cb = v # vs" "cb_latest cb = None \<or> cb_latest cb = Some v"
    using assms(1) by (auto simp: looping_def)
  have "LatestVersion cb = (Ok v, cb\<lparr>cb_latest := Some v\<rparr>)"
    using n(6,7) by (cases "cb_latest cb") (auto simp: LatestVersion_def)
  then show ?thesis
    using n assms(2)
    by (auto simp: visit_dep_def Let_def resolve_dep_def appendConstraint_def constraintPresent_def nil_constraints_def
        latestMultiConstraint_def looping_def)
qed

lemma looping_never_returns:
  assumes v: "cv_CookbookName v = a" "dep_list v = Ok [(a, GStr c)]"
  shows "getDependencies vl s name dl g = Some y \<Longrightarrow> vl_NewConstraint vl c = [] \<Longrightarrow> name = a \<Longrightarrow>
    dl = [(a, GStr c)] \<Longrightarrow> \<not> looping a v vs g"
proof (induction rule: getDependencies.raw_induct [rotated, consumes 1, case_names step])
  case (step f vl s name dl g y)
  show ?case
  proof
    assume "looping a v vs g"
    then obtain g' where g': "visit_dep vl s a a (GStr c) g = Ok (g', Some v)" "looping a v vs g'"
      using looping_visit step.prems(1) by blast
    obtain z where "f vl s a [(a, GStr c)] g' = Some z"
      using step.hyps step.prems(2,3) g'(1) v by (auto simp: bind_eq_Some_conv)
    from step.IH [OF this step.prems(1) refl refl] g'(2) show False by blast
  qed
qed

lemma run_list_nodes_free:
  assumes "a \<in> run_list_name ` set xs" "\<And>x. x \<in> set xs \<Longrightarrow> run_list_name x = a \<Longrightarrow> run_list_constraint vl x = []"
  shows "map_of (run_list_nodes vl xs) a = Some new_noun"
proof -
  have "map_of (fold (\<lambda>x m. aput (run_list_name x) (new_noun\<lparr>nn_constraint := run_list_constraint vl x\<rparr>) m) xs m) a =
      (if a \<in> run_list_name ` set xs then Some new_noun else map_of m a)" for m
    using assms(2) by (induction xs arbitrary: m) (auto simp: new_noun_def)
  then show ?thesis using assms(1) by (simp add: run_list_nodes_def)
qed

lemma env_nodes_other: "a \<notin> fst ` set env \<Longrightarrow> map_of (env_nodes vl env nodes) a = map_of nodes a"
  unfolding env_nodes_def by (induction env arbitrary: nodes) (auto split: option.splits)

lemma double_equals_valid:
  assumes "x < 2 ^ 63" "y < 2 ^ 63" "z < 2 ^ 63"
  shows "is_ok (ValidateAsConstraint (GStr (''== '' @ print_version x y z)))"
proof -
  have "CHR 0x0A \<notin> set (print_version x y z)"
  proof
    assume "CHR 0x0A \<in> set (print_version x y z)"
    then have "CHR 0x0A \<in> set (string_of_nat x) \<or> CHR 0x0A \<in> set (string_of_nat y) \<or> CHR 0x0A \<in> set (string_of_nat z)"
      by (auto simp: print_version_def)
    then show False using string_of_nat_digits by (fastforce simp: is_digit_def)
  qed
  then have "takeWhile (\<lambda>c. c \<noteq> CHR 0x0A) (print_version x y z) = print_version x y z"
    unfolding takeWhile_eq_all_conv by blast
  then have "constraint_version (''== '' @ print_version x y z) = Some (print_version x y z)"
    by (simp add: constraint_version_def is_op_char_def)
  then show ?thesis using ValidateAsVersion_print [OF assms] by (simp del: ValidateAsVersion.simps)
qed

text \<open>\<^bold>\<open>C40\<close>. Let the latest version of a stored cookbook depend on the cookbook itself alone, with
  a constraint that \<open>go-version\<close> does not parse. If a run list starts with this cookbook,
  without a version, and the environment does not constrain it, the resolution never
  returns, whatever else the run list has. Validation lets such constraints through: every
  constraint with the operator \<open>==\<close> is valid, while \<open>go-version\<close> knows no such operator.\<close>

theorem unparsed_cycle_never_returns:
  assumes "vl_NewConstraint vl c = []" "srv_Get ''cookbook'' s a = Some (VCookbook cb)"
    "sortedVersions cb = v # vs" "cb_latest cb = None" "cv_CookbookName v = a" "dep_list v = Ok [(a, GStr c)]"
    "run_list_name item = a" "\<And>x. x \<in> set (item # runList) \<Longrightarrow> run_list_name x = a \<Longrightarrow> run_list_constraint vl x = []"
    "a \<notin> fst ` set envConstraints"
  shows "(\<forall>x y z. x < 2 ^ 63 \<longrightarrow> y < 2 ^ 63 \<longrightarrow> z < 2 ^ 63 \<longrightarrow>
      is_ok (ValidateAsConstraint (GStr (''== '' @ print_version x y z)))) \<and>
    DependsCookbooks vl baseURL (item # runList) envConstraints s = None"
proof -
  define g where "g = run_list_graph vl (item # runList) envConstraints"
  have n: "map_of (dg_nodes g) a = Some new_noun" "dg_shelf g = []"
    using run_list_nodes_free [of a "item # runList" vl] assms(7-9)
    by (auto simp: g_def run_list_graph_def env_nodes_other)
  let ?g = "set_noun a (new_noun\<lparr>nn_version := cv_Version v\<rparr>) (set_shelf a (cb\<lparr>cb_latest := Some v\<rparr>) g)"
  have "looping a v vs ?g" using assms(3) by (simp add: looping_def new_noun_def sortedVersions_def)
  then have none: "getDependencies vl s a [(a, GStr c)] ?g = None"
    using looping_never_returns [OF assms(5,6) _ assms(1) refl refl] by (cases "getDependencies vl s a [(a, GStr c)] ?g") blast+
  have "resolve_run_list vl s (a # map run_list_name runList) g = None"
    using assms(2-6) none n
    by (simp add: cookbook_Get_def latestMultiConstraint_def nil_constraints_def LatestVersion_def new_noun_def)
  then have "DependsCookbooks vl baseURL (item # runList) envConstraints s = None"
    using assms(7) by (simp add: DependsCookbooks_def Let_def g_def)
  with double_equals_valid show ?thesis by blast
qed

subsection \<open>Examples\<close>

definition dep_version :: "string \<Rightarrow> gobj \<Rightarrow> cookbook_version" where
  "dep_version name deps =
     (example_version ''1.0.0'' ''h'')\<lparr>cv_CookbookName := name, cv_Metadata := [(''dependencies'', GMap deps)]\<rparr>"

definition dep_cookbook :: "string \<Rightarrow> gobj \<Rightarrow> cookbook" where
  "dep_cookbook name deps =
     \<lparr>cb_Name = name, cb_Versions = [(''1.0.0'', dep_version name deps)], cb_latest = None, cb_numVersions = None\<rparr>"

text \<open>A cookbook that depends on the other, which depends on the first.\<close>

definition cyclic_shop :: server where
  "cyclic_shop =
     cookbook_Save (dep_cookbook ''app'' [(''lib'', GStr ''>= 1.0.0'')])
       (cookbook_Save (dep_cookbook ''lib'' [(''app'', GStr ''>= 1.0.0'')]) new_server)"

definition looping_shop :: server where
  "looping_shop = cookbook_Save (dep_cookbook ''app'' [(''app'', GStr ''== 1.0.0'')]) new_server"

definition example_verlib :: "string verlib" where
  "example_verlib =
     \<lparr>vl_NewConstraint = (\<lambda>c. if take 2 c = ''=='' then [] else [c]), vl_Check = (\<lambda>_ _. True), vl_String = (\<lambda>c. c)\<rparr>"

lemma dep_cookbook_simps [simp]:
  "cb_Name (dep_cookbook name deps) = name" "cb_latest (dep_cookbook name deps) = None"
  "gob_cookbook (dep_cookbook name deps) = dep_cookbook name deps"
  "sortedVersions (dep_cookbook name deps) = [dep_version name deps]"
  "cv_CookbookName (dep_version name deps) = name" "dep_list (dep_version name deps) = Ok deps"
  by (simp_all add: dep_cookbook_def gob_cookbook_def sortedVersions_def sort_by_def dep_version_def dep_list_def gget_def)

lemma shop_get:
  "srv_Get ''cookbook'' cyclic_shop =
     [''lib'' \<mapsto> VCookbook (dep_cookbook ''lib'' [(''app'', GStr ''>= 1.0.0'')]),
      ''app'' \<mapsto> VCookbook (dep_cookbook ''app'' [(''lib'', GStr ''>= 1.0.0'')])]"
  "srv_Get ''cookbook'' looping_shop = [''app'' \<mapsto> VCookbook (dep_cookbook ''app'' [(''app'', GStr ''== 1.0.0'')])]"
  "ds_ok (srv_ds cyclic_shop)"
proof -
  have n: "ds_Get t (srv_ds new_server) = Map.empty" for t
    by (simp add: new_server_def initDataStore_def ds_Get_def fun_eq_iff)
  show "srv_Get ''cookbook'' cyclic_shop =
     [''lib'' \<mapsto> VCookbook (dep_cookbook ''lib'' [(''app'', GStr ''>= 1.0.0'')]),
      ''app'' \<mapsto> VCookbook (dep_cookbook ''app'' [(''lib'', GStr ''>= 1.0.0'')])]"
    by (simp add: cyclic_shop_def cookbook_Save_def cookbook_store.get_put n)
  show "srv_Get ''cookbook'' looping_shop = [''app'' \<mapsto> VCookbook (dep_cookbook ''app'' [(''app'', GStr ''== 1.0.0'')])]"
    by (simp add: looping_shop_def cookbook_Save_def cookbook_store.get_put n)
  show "ds_ok (srv_ds cyclic_shop)"
    by (simp add: cyclic_shop_def cookbook_Save_def cookbook_store.ok_put new_server_def)
qed

lemma cyclic_shop_ok: "server_deps_ok example_verlib cyclic_shop"
  using shop_get(3)
  by (auto simp: server_deps_ok_def shop_get cookbook_deps_ok_def version_deps_ok_def parses_def constraintPresent_def
      example_verlib_def split: if_splits)

theorem resolution_terminates_witness:
  "server_deps_ok example_verlib cyclic_shop \<and>
   (\<exists>res. DependsCookbooks example_verlib ''http://chef'' [''app''] [] cyclic_shop = Some res)"
  using cyclic_shop_ok resolution_terminates [OF cyclic_shop_ok, of "''http://chef''" "[''app'']" "[]"] by simp

theorem unparsed_cycle_never_returns_witness:
  "DependsCookbooks example_verlib ''http://chef'' [''app'', ''lib@1.0.0''] [] looping_shop = None"
proof -
  have nm: "run_list_name ''app'' = ''app''" "run_list_name ''lib@1.0.0'' = ''lib''" by code_simp+
  have free: "run_list_constraint example_verlib x = []" if "x \<in> set [''app'', ''lib@1.0.0'']" "run_list_name x = ''app''" for x
  proof -
    have "x = ''app''" using that nm by auto
    moreover have "run_list_constraint example_verlib ''app'' = []" by code_simp
    ultimately show ?thesis by (simp only:)
  qed
  have con: "vl_NewConstraint example_verlib ''== 1.0.0'' = []" by (simp add: example_verlib_def)
  have cb: "srv_Get ''cookbook'' looping_shop ''app'' = Some (VCookbook (dep_cookbook ''app'' [(''app'', GStr ''== 1.0.0'')]))"
    by (simp add: shop_get)
  have env: "''app'' \<notin> fst ` set []" by simp
  show ?thesis
    by (rule unparsed_cycle_never_returns [OF con cb dep_cookbook_simps(4) dep_cookbook_simps(2) dep_cookbook_simps(5)
          dep_cookbook_simps(6) nm(1) free env, THEN conjunct2])
qed

end
