(* ===== verification/Export.thy ===== *)
theory Export
  imports Shovey Sandbox ActorHandlers
begin

text \<open>
  \<^verbatim>\<open>export.go\<close>: the tables of an export. An export is given as
  what the decoder of \<open>importAll\<close> makes of the written file: the values of
  \<open>encoding/json\<close> for the structs, with the names of their tags, decoded with \<open>UseNumber\<close>.
  An error of \<open>exportAll\<close> or \<open>importAll\<close> ends the process, and with it the store in memory, so that no
  state goes with it. The functions run before the server takes requests.
\<close>

subsection \<open>JSON of stored values\<close>

text \<open>Bytes that are not UTF-8 are replaced.\<close>

definition json_string :: "string \<Rightarrow> string" where
  "json_string t = concat (runes t)"

abbreviation jstr :: "string \<Rightarrow> gval" where
  "jstr t \<equiv> GStr (json_string t)"

abbreviation jint :: "int \<Rightarrow> gval" where
  "jint i \<equiv> GNum (string_of_int i)"

fun json_value :: "gval \<Rightarrow> gval" where
  "json_value (GStr t) = jstr t"
| "json_value (GArr vs) = GArr (map json_value vs)"
| "json_value (GStrs ts) = GArr (map jstr ts)"
| "json_value (GMap m) = GMap (map (\<lambda>p. (json_string (fst p), json_value (snd p))) m)"
| "json_value (GStrMap m) = GMap (map (\<lambda>p. (json_string (fst p), jstr (snd p))) m)"
| "json_value (GStrsMap m) = GMap (map (\<lambda>p. (json_string (fst p), GArr (map jstr (snd p)))) m)"
| "json_value v = v"

definition json_obj :: "gobj \<Rightarrow> gval" where
  "json_obj m = json_value (GMap m)"

text \<open>\<open>base64.StdEncoding\<close>, which is also how a byte slice is encoded.\<close>

definition base64_alphabet :: string where
  "base64_alphabet = ''ABCDEFGHIJKLMNOPQRSTUVWXYZabcdefghijklmnopqrstuvwxyz0123456789+/''"

definition b64_char :: "nat \<Rightarrow> char" where
  "b64_char i = base64_alphabet ! i"

fun base64_encode :: "string \<Rightarrow> string" where
  "base64_encode [] = []"
| "base64_encode [a] =
     (let n = of_char a * 16 in [b64_char (n div 64), b64_char (n mod 64), CHR ''='', CHR ''=''])"
| "base64_encode [a, b] =
     (let n = (of_char a * 256 + of_char b) * 4
      in [b64_char (n div 4096), b64_char (n div 64 mod 64), b64_char (n mod 64), CHR ''=''])"
| "base64_encode (a # b # c # t) =
     (let n = (of_char a * 256 + of_char b) * 256 + of_char c
      in [b64_char (n div 262144), b64_char (n div 4096 mod 64), b64_char (n div 64 mod 64), b64_char (n mod 64)] @
         base64_encode t)"

fun index_of :: "char \<Rightarrow> string \<Rightarrow> nat option" where
  "index_of c [] = None"
| "index_of c (d # t) = (if c = d then Some 0 else map_option Suc (index_of c t))"

definition b64_val :: "char \<Rightarrow> nat option" where
  "b64_val c = index_of c base64_alphabet"

text \<open>The text without line ends, in groups of four.\<close>

fun base64_groups :: "string \<Rightarrow> string option" where
  "base64_groups [] = Some []"
| "base64_groups (p # q # r # t # rest) =
     (case (b64_val p, b64_val q) of
        (Some i, Some j) \<Rightarrow>
          (if r = CHR ''='' \<and> t = CHR ''='' \<and> rest = [] then Some [char_of ((i * 64 + j) div 16)]
           else
             (case b64_val r of
                None \<Rightarrow> None
              | Some k \<Rightarrow>
                  (if t = CHR ''='' \<and> rest = [] then
                     (let n = (i * 64 + j) * 64 + k in Some [char_of (n div 1024), char_of (n div 4 mod 256)])
                   else
                     (case (b64_val t, base64_groups rest) of
                        (Some l, Some u) \<Rightarrow>
                          (let n = ((i * 64 + j) * 64 + k) * 64 + l
                           in Some (char_of (n div 65536) # char_of (n div 256 mod 256) # char_of (n mod 256) # u))
                      | _ \<Rightarrow> None))))
      | _ \<Rightarrow> None)"
| "base64_groups _ = None"

definition base64_decode :: "string \<Rightarrow> string outcome" where
  "base64_decode t =
     (case base64_groups (filter (\<lambda>c. c \<noteq> CHR 0x0A \<and> c \<noteq> CHR 0x0D) t) of
        Some u \<Rightarrow> Ok u
      | None \<Rightarrow> Errorf ''illegal base64 data'')"

subsection \<open>JSON of the objects\<close>

definition client_json :: "client \<Rightarrow> gobj" where
  "client_json c =
     [(''name'', jstr (cl_Name c)), (''node_name'', jstr (cl_NodeName c)), (''json_class'', jstr (cl_JSONClass c)),
      (''chef_type'', jstr (cl_ChefType c)), (''validator'', GBool (cl_Validator c)), (''orgname'', jstr (cl_Orgname c)),
      (''public_key'', jstr (cl_pubKey c)), (''admin'', GBool (cl_Admin c)), (''certificate'', jstr (cl_Certificate c))]"

definition user_json :: "user \<Rightarrow> gobj" where
  "user_json u =
     [(''username'', jstr (us_Username u)), (''name'', jstr (us_Name u)), (''email'', jstr (us_Email u)),
      (''admin'', GBool (us_Admin u)), (''public_key'', jstr (us_pubKey u)), (''password'', jstr (us_passwd u)),
      (''salt'', GStr (base64_encode (us_salt u)))]"

definition file_json :: "filestore \<Rightarrow> gobj" where
  "file_json f = [(''Chksum'', jstr (fs_Chksum f)), (''Data'', GStr (base64_encode (fs_Data f)))]"

definition json_objs :: "gobj list \<Rightarrow> gval" where
  "json_objs ms = GArr (map json_obj ms)"

definition version_export :: "cookbook_version \<Rightarrow> gobj" where
  "version_export v =
     [(''cookbook_name'', jstr (cv_CookbookName v)), (''name'', jstr (cv_Name v)), (''version'', jstr (cv_Version v)),
      (''chef_type'', jstr (cv_ChefType v)), (''json_class'', jstr (cv_JSONClass v)), (''definitions'', json_objs (cv_Definitions v)),
      (''libraries'', json_objs (cv_Libraries v)), (''attributes'', json_objs (cv_Attributes v)), (''recipes'', json_objs (cv_Recipes v)),
      (''providers'', json_objs (cv_Providers v)), (''resources'', json_objs (cv_Resources v)), (''templates'', json_objs (cv_Templates v)),
      (''root_files'', json_objs (cv_RootFiles v)), (''files'', json_objs (cv_Files v)), (''frozen?'', GBool (cv_IsFrozen v)),
      (''metadata'', json_obj (cv_Metadata v))]"

definition cookbook_json :: "cookbook \<Rightarrow> gobj" where
  "cookbook_json c =
     [(''Name'', jstr (cb_Name c)),
      (''Versions'', GMap (map (\<lambda>p. (json_string (fst p), GMap (version_export (snd p)))) (cb_Versions c)))]"

definition item_export :: "databag_item \<Rightarrow> gobj" where
  "item_export i =
     [(''name'', jstr (di_Name i)), (''chef_type'', jstr (di_ChefType i)), (''json_class'', jstr (di_JSONClass i)),
      (''data_bag'', jstr (di_DataBagName i)), (''raw_data'', json_obj (di_RawData i))]"

definition databag_json :: "databag \<Rightarrow> gobj" where
  "databag_json d =
     [(''Name'', jstr (db_Name d)),
      (''DataBagItems'', GMap (map (\<lambda>p. (json_string (fst p), GMap (item_export (snd p)))) (db_DataBagItems d)))]"

definition env_json_value :: "chef_environment \<Rightarrow> gobj" where
  "env_json_value e =
     [(''name'', jstr (en_Name e)), (''chef_type'', jstr (en_ChefType e)), (''json_class'', jstr (en_JSONClass e)),
      (''description'', jstr (en_Description e)), (''default_attributes'', json_obj (en_Default e)),
      (''override_attributes'', json_obj (en_Override e)), (''cookbook_versions'', json_value (GStrMap (en_CookbookVersions e)))]"

definition node_json :: "node \<Rightarrow> gobj" where
  "node_json n =
     [(''name'', jstr (nd_Name n)), (''chef_environment'', jstr (nd_ChefEnvironment n)), (''run_list'', json_value (GStrs (nd_RunList n))),
      (''json_class'', jstr (nd_JSONClass n)), (''chef_type'', jstr (nd_ChefType n)), (''automatic'', json_obj (nd_Automatic n)),
      (''normal'', json_obj (nd_Normal n)), (''default'', json_obj (nd_Default n)), (''override'', json_obj (nd_Override n))]"

definition node_status_json :: "world \<Rightarrow> node_status \<Rightarrow> gobj" where
  "node_status_json wd ns =
     [(''Node'', GMap (node_json (ns_Node ns))), (''Status'', jstr (ns_Status ns)), (''UpdatedAt'', json_time wd (ns_UpdatedAt ns))]"

definition role_json :: "role \<Rightarrow> gobj" where
  "role_json r =
     [(''name'', jstr (ro_Name r)), (''chef_type'', jstr (ro_ChefType r)), (''json_class'', jstr (ro_JSONClass r)),
      (''run_list'', json_value (GStrs (ro_RunList r))), (''env_run_lists'', json_value (GStrsMap (ro_EnvRunLists r))),
      (''description'', jstr (ro_Description r)), (''default_attributes'', json_obj (ro_Default r)),
      (''override_attributes'', json_obj (ro_Override r))]"

definition sandbox_json :: "world \<Rightarrow> sandbox \<Rightarrow> gobj" where
  "sandbox_json wd sb =
     [(''ID'', jstr (sb_ID sb)), (''CreationTime'', json_time wd (sb_CreationTime sb)), (''Completed'', GBool (sb_Completed sb)),
      (''Checksums'', json_value (GStrs (sb_Checksums sb)))]"

definition loginfo_json :: "world \<Rightarrow> loginfo \<Rightarrow> gobj" where
  "loginfo_json wd le =
     [(''actor_info'', jstr (li_ActorInfo le)), (''actor_type'', jstr (li_ActorType le)), (''time'', json_time wd (li_Time le)),
      (''action'', jstr (li_Action le)), (''object_type'', jstr (li_ObjectType le)), (''object_name'', jstr (li_ObjectName le)),
      (''extended_info'', jstr (li_ExtendedInfo le)), (''id'', jint (li_ID le))]"

definition report_json :: "world \<Rightarrow> report \<Rightarrow> gobj" where
  "report_json wd r =
     [(''run_id'', jstr (rp_RunID r)), (''start_time'', json_time wd (rp_StartTime r)), (''end_time'', json_time wd (rp_EndTime r)),
      (''total_res_count'', jint (rp_TotalResCount r)), (''status'', jstr (rp_Status r)), (''run_list'', jstr (rp_RunList r)),
      (''resources'', (case rp_Resources r of None \<Rightarrow> GArr [] | Some l \<Rightarrow> json_value (GArr l))),
      (''data'', (case rp_Data r of None \<Rightarrow> GNil | Some m \<Rightarrow> json_obj m)), (''node_name'', jstr (rp_NodeName r))]"

definition shovey_json :: "world \<Rightarrow> shovey \<Rightarrow> gobj" where
  "shovey_json wd sh =
     [(''id'', jstr (sh_RunID sh)), (''nodes'', json_value (GStrs (sh_NodeNames sh))), (''command'', jstr (sh_Command sh)),
      (''created_at'', json_time wd (sh_CreatedAt sh)), (''updated_at'', json_time wd (sh_UpdatedAt sh)),
      (''status'', jstr (sh_Status sh)), (''timeout'', jint (sh_Timeout sh)), (''quorum'', jstr (sh_Quorum sh))]"

definition shovey_run_json :: "world \<Rightarrow> shovey_run \<Rightarrow> gobj" where
  "shovey_run_json wd sr =
     [(''run_id'', jstr (sr_ShoveyUUID sr)), (''node_name'', jstr (sr_NodeName sr)), (''status'', jstr (sr_Status sr)),
      (''ack_time'', json_time wd (sr_AckTime sr)), (''end_time'', json_time wd (sr_EndTime sr)), (''error'', jstr (sr_Error sr)),
      (''exit_status'', jint (uint (sr_ExitStatus sr)))]"

definition shovey_stream_json :: "world \<Rightarrow> shovey_stream \<Rightarrow> gobj" where
  "shovey_stream_json wd ss =
     [(''ShoveyUUID'', jstr (ss_ShoveyUUID ss)), (''NodeName'', jstr (ss_NodeName ss)), (''Seq'', jint (ss_Seq ss)),
      (''OutputType'', jstr (ss_OutputType ss)), (''Output'', jstr (ss_Output ss)), (''IsLast'', GBool (ss_IsLast ss)),
      (''CreatedAt'', json_time wd (ss_CreatedAt ss))]"

subsection \<open>Export\<close>

record export_data =
  MajorVersion :: int
  MinorVersion :: int
  CreatedTime :: int
  ed_Data :: "(string \<times> gval list) list"

definition ExportMajorVersion :: int where "ExportMajorVersion = 1"
definition ExportMinorVersion :: int where "ExportMinorVersion = 1"

text \<open>\<open>exportTransformSlice\<close>.\<close>

definition exportTransformSlice :: "('a \<Rightarrow> gobj) \<Rightarrow> 'a list outcome \<Rightarrow> gval list outcome" where
  "exportTransformSlice f r = outcome_bind r (\<lambda>l. Ok (map (GMap \<circ> f) l))"

definition AllLogInfos :: "int \<Rightarrow> server \<Rightarrow> loginfo list outcome" where
  "AllLogInfos now s = (case GetLogInfos now [] [] s of Ok l \<Rightarrow> Ok l | Err _ \<Rightarrow> Ok [] | Panic \<Rightarrow> Panic)"

fun statuses_of_nodes :: "node list \<Rightarrow> server \<Rightarrow> node_status list outcome" where
  "statuses_of_nodes [] s = Ok []"
| "statuses_of_nodes (n # ns) s =
     outcome_bind (AllStatuses n s) (\<lambda>l. outcome_bind (statuses_of_nodes ns s) (\<lambda>l2. Ok (l @ l2)))"

definition AllNodeStatuses_export :: "server \<Rightarrow> node_status list outcome" where
  "AllNodeStatuses_export s = outcome_bind (AllNodes s) (\<lambda>ns. statuses_of_nodes ns s)"

text \<open>The tables of an export, in order; \<open>None\<close> if an output of a job has no end.\<close>

definition export_tables :: "world \<Rightarrow> server \<Rightarrow> shovey_stream list outcome \<Rightarrow> (string \<times> gval list outcome) list" where
  "export_tables wd s streams =
     [(''client'', exportTransformSlice client_json (AllClients s)),
      (''cookbook'', exportTransformSlice cookbook_json (AllCookbooks s)),
      (''databag'', exportTransformSlice databag_json (AllDataBags s)),
      (''environment'', exportTransformSlice env_json_value (AllEnvironments s)),
      (''filestore'', exportTransformSlice file_json (AllFilestores s)),
      (''loginfo'', exportTransformSlice (loginfo_json wd) (AllLogInfos (w_now wd) s)),
      (''node'', exportTransformSlice node_json (AllNodes s)),
      (''node_status'', exportTransformSlice (node_status_json wd) (AllNodeStatuses_export s)),
      (''report'', exportTransformSlice (report_json wd) (AllReports s)),
      (''role'', exportTransformSlice role_json (AllRoles s)),
      (''sandbox'', exportTransformSlice (sandbox_json wd) (AllSandboxes s)),
      (''shovey'', exportTransformSlice (shovey_json wd) (AllShoveys s)),
      (''shovey_run'', exportTransformSlice (shovey_run_json wd) (AllShoveyRuns s)),
      (''shovey_run_stream'', exportTransformSlice (shovey_stream_json wd) streams),
      (''user'', exportTransformSlice user_json (AllUsers s))]"

fun collect_tables :: "(string \<times> gval list outcome) list \<Rightarrow> (string \<times> gval list) list outcome" where
  "collect_tables [] = Ok []"
| "collect_tables ((t, r) # rest) = outcome_bind r (\<lambda>l. outcome_bind (collect_tables rest) (\<lambda>m. Ok ((t, l) # m)))"

definition exportAll :: "world \<Rightarrow> server \<Rightarrow> export_data outcome option" where
  "exportAll wd s =
     (case AllShoveyRunStreams s of
        None \<Rightarrow> None
      | Some streams \<Rightarrow>
          Some (outcome_bind (collect_tables (export_tables wd s streams)) (\<lambda>tables.
            Ok \<lparr>MajorVersion = ExportMajorVersion, MinorVersion = ExportMinorVersion, CreatedTime = w_now wd, ed_Data = tables\<rparr>)))"

end
