(* ===== verification/Import.thy ===== *)
theory Import
  imports Export
begin

text \<open>
  \<^verbatim>\<open>import.go\<close>: reading an export back, and what comes back of it. A loop over the objects of a
  table goes on after each object, or stops the whole import without an error where the code
  returns \<open>nil\<close>; this is the first component of its result.
\<close>

subsection \<open>Single objects\<close>

definition as_map :: "gval \<Rightarrow> gobj outcome" where
  "as_map v = (case v of GMap m \<Rightarrow> Ok m | _ \<Rightarrow> Panic)"

definition str_or_empty :: "gval \<Rightarrow> string" where
  "str_or_empty v = (case v of GStr t \<Rightarrow> t | _ \<Rightarrow> [])"

definition saved :: "unit outcome \<times> server \<Rightarrow> (bool \<times> server) outcome" where
  "saved r = outcome_bind (fst r) (\<lambda>_. Ok (True, snd r))"

definition import_client :: "crypto \<Rightarrow> gobj \<Rightarrow> server \<Rightarrow> (bool \<times> server) outcome" where
  "import_client cr m s =
     outcome_bind (client_NewFromJSON m s) (\<lambda>c.
       let (r, c1) = client_SetPublicKey cr (gget m ''public_key'') c
       in outcome_bind r (\<lambda>_. saved (client_Save c1 s)))"

definition import_user :: "crypto \<Rightarrow> gobj \<Rightarrow> server \<Rightarrow> (bool \<times> server) outcome" where
  "import_user cr m s =
     (let pwhash = str_or_empty (gget m ''password''); m1 = aput ''password'' (GStr []) m
      in outcome_bind (user_NewFromJSON cr m1 s) (\<lambda>u.
           let (r, u1) = user_SetPublicKey cr (gget m1 ''public_key'') (SetPasswdHash pwhash u)
           in outcome_bind r (\<lambda>_. saved (user_Save u1 s))))"

definition import_file :: "world \<Rightarrow> gobj \<Rightarrow> server \<Rightarrow> (bool \<times> server) outcome" where
  "import_file wd m s =
     outcome_bind (outcome_bind (assert_string (gget m ''Data'')) base64_decode) (\<lambda>fileData.
     outcome_bind (assert_string (gget m ''Chksum'')) (\<lambda>chksum.
     outcome_bind (file_New (w_md5 wd) chksum fileData (int (length fileData)) s) (\<lambda>f. Ok (True, file_Save f s))))"

fun import_versions :: "world \<Rightarrow> gobj \<Rightarrow> cookbook \<Rightarrow> server \<Rightarrow> (bool \<times> server) outcome" where
  "import_versions wd [] cb s = Ok (True, s)"
| "import_versions wd ((ver, v) # vs) cb s =
     outcome_bind (outcome_bind (as_map v) checkAttrs) (\<lambda>cbvData.
       case NewVersion (w_baseURL wd) (w_fmt_v wd) ver cbvData cb s of
         (r, cb1, s1) \<Rightarrow> outcome_bind r (\<lambda>_. import_versions wd vs cb1 s1))"

definition import_cookbook :: "world \<Rightarrow> gobj \<Rightarrow> server \<Rightarrow> (bool \<times> server) outcome" where
  "import_cookbook wd m s =
     outcome_bind (outcome_bind (assert_string (gget m ''Name'')) (\<lambda>n. cookbook_New n s)) (\<lambda>cb.
     outcome_bind (as_map (gget m ''Versions'')) (\<lambda>vs. import_versions wd vs cb (cookbook_Save cb s)))"

fun import_items :: "gobj \<Rightarrow> databag \<Rightarrow> server \<Rightarrow> (databag \<times> server) outcome" where
  "import_items [] db s = Ok (db, s)"
| "import_items ((_, v) # vs) db s =
     outcome_bind (outcome_bind (as_map v) (\<lambda>m. as_map (gget m ''raw_data''))) (\<lambda>raw.
       case NewDBItem raw db s of (r, db1, s1) \<Rightarrow> outcome_bind r (\<lambda>_. import_items vs db1 s1))"

definition import_databag :: "gobj \<Rightarrow> server \<Rightarrow> (bool \<times> server) outcome" where
  "import_databag m s =
     outcome_bind (assert_string (gget m ''Name'')) (\<lambda>n.
       case databag_New n s of
         (r, s1) \<Rightarrow>
           outcome_bind r (\<lambda>db.
           outcome_bind (as_map (gget m ''DataBagItems'')) (\<lambda>items.
           outcome_bind (import_items items db (databag_Save db s1)) (\<lambda>(db1, s2). Ok (True, databag_Save db1 s2)))))"

text \<open>An object whose attributes are refused stops the import.\<close>

definition checked :: "gobj \<Rightarrow> server \<Rightarrow> (gobj \<Rightarrow> (bool \<times> server) outcome) \<Rightarrow> (bool \<times> server) outcome" where
  "checked m s k = (case checkAttrs m of Ok d \<Rightarrow> k d | Err _ \<Rightarrow> Ok (False, s) | Panic \<Rightarrow> Panic)"

definition import_environment :: "gobj \<Rightarrow> server \<Rightarrow> (bool \<times> server) outcome" where
  "import_environment m s =
     checked m s (\<lambda>envData.
       outcome_bind (assert_string (gget envData ''name'')) (\<lambda>n.
         if n \<noteq> ''_default'' then outcome_bind (env_NewFromJSON envData s) (\<lambda>e. saved (env_Save e s)) else Ok (True, s)))"

definition import_node :: "gobj \<Rightarrow> server \<Rightarrow> (bool \<times> server) outcome" where
  "import_node m s = checked m s (\<lambda>nodeData. outcome_bind (node_NewFromJSON nodeData s) (\<lambda>n. Ok (True, node_Save n s)))"

definition import_role :: "gobj \<Rightarrow> server \<Rightarrow> (bool \<times> server) outcome" where
  "import_role m s = checked m s (\<lambda>roleData. outcome_bind (role_NewFromJSON roleData s) (\<lambda>r. Ok (True, role_Save r s)))"

definition import_sandbox :: "world \<Rightarrow> gobj \<Rightarrow> server \<Rightarrow> (bool \<times> server) outcome" where
  "import_sandbox wd m s =
     outcome_bind (w_ParseTime wd rfc3339 (str_or_empty (gget m ''CreationTime''))) (\<lambda>sbTime.
     outcome_bind (case gget m ''Checksums'' of GArr sbck \<Rightarrow> assert_strings sbck | _ \<Rightarrow> Ok []) (\<lambda>sbChecksums.
       Ok (True, sandbox_Save \<lparr>sb_ID = str_or_empty (gget m ''Id''), sb_CreationTime = sbTime,
         sb_Completed = (case gget m ''Completed'' of GBool b \<Rightarrow> b | _ \<Rightarrow> False), sb_Checksums = sbChecksums\<rparr> s)))"

text \<open>\<open>v.(float64)\<close>: the decoder of \<open>importAll\<close> makes no such values.\<close>

definition assert_float64 :: "gval \<Rightarrow> int outcome" where
  "assert_float64 v = Panic"

text \<open>\<open>loginfo.Import\<close>; nothing after the assertion on the number of the event is reached.\<close>

definition loginfo_Import :: "gobj \<Rightarrow> server \<Rightarrow> (bool \<times> server) outcome" where
  "loginfo_Import m s =
     outcome_bind (assert_string (gget m ''action'')) (\<lambda>_.
     outcome_bind (assert_string (gget m ''actor_type'')) (\<lambda>_.
     outcome_bind (assert_string (gget m ''actor_info'')) (\<lambda>_.
     outcome_bind (assert_string (gget m ''object_type'')) (\<lambda>_.
     outcome_bind (assert_string (gget m ''object_name'')) (\<lambda>_.
     outcome_bind (assert_string (gget m ''extended_info'')) (\<lambda>_.
     outcome_bind (assert_float64 (gget m ''id'')) (\<lambda>_. Ok (True, s))))))))"

definition report_retime :: "world \<Rightarrow> string \<Rightarrow> gobj \<Rightarrow> gobj outcome" where
  "report_retime wd k m =
     (case gget m k of
        GStr st \<Rightarrow> outcome_bind (w_ParseTime wd rfc3339 st) (\<lambda>t. Ok (aput k (GStr (w_format wd ReportTimeFormat t)) m))
      | _ \<Rightarrow> Ok m)"

definition import_report :: "world \<Rightarrow> gobj \<Rightarrow> server \<Rightarrow> (bool \<times> server) outcome" where
  "import_report wd v s =
     outcome_bind
       (if ghas v ''node_name'' then assert_string (gget v ''node_name'')
        else if ghas v ''nodeName'' then assert_string (gget v ''nodeName'') else Ok []) (\<lambda>nodeName.
     outcome_bind (report_retime wd ''start_time'' (aput ''action'' (GStr ''start'') v)) (\<lambda>v1.
     outcome_bind (report_retime wd ''end_time'' v1) (\<lambda>v2.
     outcome_bind (report_NewFromJSON wd nodeName v2 s) (\<lambda>r.
     outcome_bind (report_UpdateFromJSON wd (aput ''action'' (GStr ''end'') v2) r) (\<lambda>r2.
       Ok (True, report_Save r2 (report_Save r s)))))))"

definition ImportStatus :: "world \<Rightarrow> gobj \<Rightarrow> server \<Rightarrow> (bool \<times> server) outcome" where
  "ImportStatus wd m s =
     outcome_bind (as_map (gget m ''Node'')) (\<lambda>n.
     outcome_bind (assert_string (gget m ''Status'')) (\<lambda>st.
     outcome_bind (outcome_bind (assert_string (gget m ''UpdatedAt'')) (w_ParseTime wd rfc3339)) (\<lambda>updatedAt.
     outcome_bind (assert_string (gget n ''name'')) (\<lambda>name.
       case node_Get name s of
         Panic \<Rightarrow> Panic
       | Err _ \<Rightarrow> Ok (True, s)
       | Ok nodeP \<Rightarrow>
           (let s1 = node_Save nodeP s
            in Ok (True, s1\<lparr>srv_ds := SetNodeStatus gob_codec (nd_Name nodeP)
                 (VNodeStatus \<lparr>ns_Node = nodeP, ns_Status = st, ns_UpdatedAt = updatedAt\<rparr>) None (srv_ds s1)\<rparr>))))))"

definition goes_on :: "server outcome \<Rightarrow> (bool \<times> server) outcome" where
  "goes_on r = outcome_bind r (\<lambda>s. Ok (True, s))"

subsection \<open>All objects\<close>

fun import_loop :: "(gobj \<Rightarrow> server \<Rightarrow> (bool \<times> server) outcome) \<Rightarrow> gval list \<Rightarrow> server \<Rightarrow> (bool \<times> server) outcome" where
  "import_loop f [] s = Ok (True, s)"
| "import_loop f (v # vs) s =
     outcome_bind (outcome_bind (as_map v) (\<lambda>m. f m s)) (\<lambda>(on, s1). if on then import_loop f vs s1 else Ok (False, s1))"

type_synonym table_import = "string \<times> (gobj \<Rightarrow> server \<Rightarrow> (bool \<times> server) outcome)"

fun import_tables :: "table_import list \<Rightarrow> (string \<times> gval list) list \<Rightarrow> server \<Rightarrow> (bool \<times> server) outcome" where
  "import_tables [] d s = Ok (True, s)"
| "import_tables ((t, f) # ts) d s =
     outcome_bind (import_loop f (case map_of d t of None \<Rightarrow> [] | Some l \<Rightarrow> l) s)
       (\<lambda>(on, s1). if on then import_tables ts d s1 else Ok (False, s1))"

definition tables_1_0 :: "crypto \<Rightarrow> world \<Rightarrow> table_import list" where
  "tables_1_0 cr wd =
     [(''client'', import_client cr), (''user'', import_user cr), (''filestore'', import_file wd),
      (''cookbook'', import_cookbook wd), (''data_bag'', import_databag), (''environment'', import_environment),
      (''node'', import_node), (''role'', import_role), (''sandbox'', import_sandbox wd), (''loginfo'', loginfo_Import),
      (''report'', import_report wd)]"

definition tables_1_1 :: "world \<Rightarrow> table_import list" where
  "tables_1_1 wd =
     [(''node_status'', ImportStatus wd), (''shovey'', \<lambda>m s. goes_on (ImportShovey wd m s)),
      (''shovey_run'', \<lambda>m s. goes_on (ImportShoveyRun wd m s)),
      (''shovey_run_stream'', \<lambda>m s. goes_on (ImportShoveyRunStream wd m s))]"

definition importAll :: "crypto \<Rightarrow> world \<Rightarrow> export_data \<Rightarrow> server \<Rightarrow> server outcome" where
  "importAll cr wd ed s =
     (if MajorVersion ed = 1 \<and> (MinorVersion ed = 0 \<or> MinorVersion ed = 1) then
        outcome_bind (import_tables (tables_1_0 cr wd @ (if MinorVersion ed = 1 then tables_1_1 wd else [])) (ed_Data ed) s)
          (\<lambda>(_, s1). Ok s1)
      else
        Errorf (''goiardi export data version '' @ string_of_int (MajorVersion ed) @ ''.'' @ string_of_int (MinorVersion ed) @
          '' is not supported by this version of goiardi''))"

end
