(* ===== verification/Migration.thy ===== *)
theory Migration
  imports Import
begin

text \<open>
  What comes back when an export is read into a new server. The locale \<open>table_transfer\<close> says
  what the import of a single object has to do so that a whole table comes back; it is interpreted
  for clients, users and uploaded files. The locale \<open>untouched_view\<close> carries a part of the store
  through the import of the tables that follow; it is interpreted for the actors and the data bags. The last part is
  about the tables that do not come back.
\<close>

subsection \<open>Base64\<close>














subsection \<open>Whole tables\<close>



subsection \<open>Clients\<close>








subsection \<open>Users\<close>









subsection \<open>Uploaded files\<close>



subsection \<open>The objects of a table\<close>






subsection \<open>Export and import\<close>


lemma exported_tables:
  assumes "exportAll wd s = Some (Ok ed)"
  shows "\<exists>streams. collect_tables (export_tables wd s streams) = Ok (ed_Data ed)" "MajorVersion ed = 1" "MinorVersion ed = 1"
  using assms by (auto simp: exportAll_def outcome_bind_Ok_iff ExportMajorVersion_def ExportMinorVersion_def split: option.splits)



lemma new_server_Get: "srv_Get t new_server = (\<lambda>_. None)"
  by (simp add: new_server_def initDataStore_def ds_Get_def fun_eq_iff)








subsection \<open>What the other tables leave alone\<close>

lemma bind_OkE: "outcome_bind r k = Ok y \<Longrightarrow> (\<And>x. r = Ok x \<Longrightarrow> k x = Ok y \<Longrightarrow> P) \<Longrightarrow> P"
  by (auto simp: outcome_bind_Ok_iff)

text \<open>An import of one object that leaves a view of the server alone.\<close>

definition leaves :: "(server \<Rightarrow> 'v) \<Rightarrow> (gobj \<Rightarrow> server \<Rightarrow> (bool \<times> server) outcome) \<Rightarrow> bool" where
  "leaves view f \<longleftrightarrow> (\<forall>m s b s'. f m s = Ok (b, s') \<longrightarrow> view s' = view s)"

lemma leaves_I: "(\<And>m s b s'. f m s = Ok (b, s') \<Longrightarrow> view s' = view s) \<Longrightarrow> leaves view f"
  by (auto simp: leaves_def)

text \<open>The tables that the imports write, apart from the actors, the files and the data bags.\<close>

definition object_tables :: "string list" where
  "object_tables = [''cookbook'', ''env'', ''node'', ''role'', ''sandbox'', ''report'', ''shovey'', ''shovey_run'', ''shovey_run_stream'']"

text \<open>The interface: a view of the server that does not depend on these tables, on the index and on the
  statuses, nor on a file that is deleted.\<close>

locale untouched_view =
  fixes view :: "server \<Rightarrow> 'v"
  assumes set_other: "t \<in> set object_tables \<Longrightarrow> view (srv_Set t k v s) = view s"
    and delete_file: "view (srv_Delete ''filestore'' k s) = view s"
    and index: "view (srv_Index obj s) = view s"
    and status: "view (s\<lparr>srv_ds := SetNodeStatus gob_codec n v i (srv_ds s)\<rparr>) = view s"
begin

lemma set_tables [simp]:
  "view (srv_Set ''cookbook'' k v s) = view s" "view (srv_Set ''env'' k v s) = view s" "view (srv_Set ''node'' k v s) = view s"
  "view (srv_Set ''role'' k v s) = view s" "view (srv_Set ''sandbox'' k v s) = view s" "view (srv_Set ''report'' k v s) = view s"
  "view (srv_Set ''shovey'' k v s) = view s" "view (srv_Set ''shovey_run'' k v s) = view s"
  "view (srv_Set ''shovey_run_stream'' k v s) = view s"
  by (simp_all add: set_other object_tables_def)

declare delete_file [simp] index [simp] status [simp]

lemma DeleteHashes_keeps: "view (snd (DeleteHashes fs s)) = view s"
  by (induction fs s rule: DeleteHashes.induct) (auto simp: file_Delete_def split: outcome.split)

lemma NewVersion_keeps: "view (snd (snd (NewVersion url fv v d c s))) = view s"
proof -
  have d: "view (snd (deleteHashes cb fs s)) = view s" for cb fs s
    by (auto simp: deleteHashes_def DeleteHashes_keeps split: outcome.split)
  have u: "view (snd (snd (UpdateVersion url fv d False cbv s))) = view s" for cbv s
    using d by (auto simp: UpdateVersion_def Let_def cookbook_Save_def split: outcome.split prod.split option.split) (metis snd_conv)+
  show ?thesis
    using u by (auto simp: NewVersion_def Let_def cookbook_Save_def split: outcome.split prod.split) (metis snd_conv)+
qed

lemma leaves_cookbook: "leaves view (import_cookbook wd)"
proof -
  have v: "import_versions wd vs cb s = Ok (b, s') \<Longrightarrow> view s' = view s" for vs cb s b s'
  proof (induction vs arbitrary: cb s)
    case (Cons p vs)
    obtain ver x where p: "p = (ver, x)" by fastforce
    from Cons.prems obtain d where "(case NewVersion (w_baseURL wd) (w_fmt_v wd) ver d cb s of
        (r, cb1, s1) \<Rightarrow> outcome_bind r (\<lambda>_. import_versions wd vs cb1 s1)) = Ok (b, s')"
      unfolding p by (auto elim!: bind_OkE)
    then obtain r cb1 s1 where n: "NewVersion (w_baseURL wd) (w_fmt_v wd) ver d cb s = (r, cb1, s1)"
      "import_versions wd vs cb1 s1 = Ok (b, s')" by (auto elim!: bind_OkE split: prod.splits)
    then show ?case using Cons.IH [OF n(2)] NewVersion_keeps [of "w_baseURL wd" "w_fmt_v wd" ver d cb s] by simp
  qed simp
  show ?thesis by (auto intro!: leaves_I simp: import_cookbook_def outcome_bind_Ok_iff cookbook_Save_def dest!: v)
qed

lemma saves_keep: "view (snd (env_Save e s)) = view s" "view (node_Save n s) = view s"
  by (auto simp: env_Save_def node_Save_def split: outcome.split)

lemma leaves_objects: "leaves view import_environment" "leaves view import_node" "leaves view import_role" "leaves view (import_sandbox wd)"
  by (auto intro!: leaves_I simp: import_environment_def import_node_def import_role_def import_sandbox_def checked_def saved_def
      saves_keep role_Save_def sandbox_Save_def elim!: bind_OkE split: outcome.splits if_splits)

lemma leaves_report: "leaves view (import_report wd)"
  by (auto intro!: leaves_I simp: import_report_def outcome_bind_Ok_iff report_Save_def)

lemma leaves_loginfo: "leaves view loginfo_Import"
  by (auto intro!: leaves_I simp: loginfo_Import_def assert_float64_def outcome_bind_Ok_iff)

lemma leaves_status: "leaves view (ImportStatus wd)"
  by (auto intro!: leaves_I simp: ImportStatus_def Let_def saves_keep elim!: bind_OkE split: outcome.splits)

lemma leaves_jobs: "leaves view (\<lambda>m s. goes_on (ImportShovey wd m s))" "leaves view (\<lambda>m s. goes_on (ImportShoveyRun wd m s))"
  "leaves view (\<lambda>m s. goes_on (ImportShoveyRunStream wd m s))"
  by (auto intro!: leaves_I simp: goes_on_def ImportShovey_def ImportShoveyRun_def ImportShoveyRunStream_def run_save_def Let_def
      elim!: bind_OkE split: outcome.splits)

lemmas leaves_other = leaves_cookbook leaves_objects leaves_loginfo leaves_report leaves_status leaves_jobs

end

lemma import_loop_leaves:
  "leaves view f \<Longrightarrow> import_loop f vs s = Ok (b, s') \<Longrightarrow> view s' = view s"
  by (induction vs arbitrary: s) (auto elim!: bind_OkE split: if_splits simp: leaves_def)

lemma import_tables_leaves:
  "(\<forall>(t, f)\<in>set ts. map_of d t = None \<or> leaves view f) \<Longrightarrow> import_tables ts d s = Ok (b, s') \<Longrightarrow> view s' = view s"
proof (induction ts arbitrary: s)
  case (Cons p ts)
  obtain t f where p: "p = (t, f)" by fastforce
  from Cons.prems(2) obtain on s1 where s1: "import_loop f (case map_of d t of None \<Rightarrow> [] | Some l \<Rightarrow> l) s = Ok (on, s1)"
    "(if on then import_tables ts d s1 else Ok (False, s1)) = Ok (b, s')" unfolding p by (auto elim!: bind_OkE)
  have "view s1 = view s" using s1(1) Cons.prems(1) import_loop_leaves [of view f _ s on s1] p by auto
  then show ?case using s1(2) Cons.prems(1) Cons.IH [of s1] by (auto split: if_splits)
qed simp



lemma exported_names: "collect_tables ts = Ok m \<Longrightarrow> map fst m = map fst ts"
  by (induction ts arbitrary: m rule: collect_tables.induct) (auto elim!: bind_OkE)

lemma no_data_bag_table:
  assumes "exportAll wd s = Some (Ok ed)"
  shows "map_of (ed_Data ed) ''data_bag'' = None"
proof -
  from exported_tables(1) [OF assms] obtain streams where c: "collect_tables (export_tables wd s streams) = Ok (ed_Data ed)" by blast
  have "map fst (ed_Data ed) = map fst (export_tables wd s streams)" by (rule exported_names [OF c])
  then have "''data_bag'' \<notin> fst ` set (ed_Data ed)" by (simp flip: set_map add: export_tables_def)
  then show ?thesis by (simp add: map_of_eq_None_iff)
qed



subsection \<open>Actors and files come back\<close>








definition other_crypto :: crypto where
  "other_crypto = \<lparr>cr_ValidatePublicKey = (\<lambda>_. None), cr_GenerateRSAKeys = Ok (''priv'', ''pub''),
     cr_GenerateSalt = Ok ''fresh'', cr_HashPasswd = (\<lambda>p salt. Ok (p @ salt))\<rparr>"



subsection \<open>What does not come back\<close>

definition bags_and_events :: "server \<Rightarrow> (string \<Rightarrow> dsval option) \<times> (int \<times> dsval) list" where
  "bags_and_events s = (srv_Get ''data_bag'' s, GetLogInfoList (srv_ds s))"

lemma loginfos_ops: "loginfos (ds_Set codec t k v ds) = loginfos ds" "loginfos (ds_Delete t k ds) = loginfos ds"
  by (simp_all add: ds_Set_def ds_Delete_def addToList_def removeFromList_def Let_def split: option.split)

lemma bags_and_events_srv [simp]:
  "CHR '':'' \<notin> set t \<Longrightarrow> t \<noteq> ''data_bag'' \<Longrightarrow> bags_and_events (srv_Set t k v s) = bags_and_events s"
  "CHR '':'' \<notin> set t \<Longrightarrow> t \<noteq> ''data_bag'' \<Longrightarrow> bags_and_events (srv_Delete t k s) = bags_and_events s"
  "bags_and_events (srv_Index obj s) = bags_and_events s"
  by (simp_all add: bags_and_events_def ds_Get_Set ds_Get_Delete GetLogInfoList_def getLogInfoMap_def loginfos_ops)

lemma status_keeps: "bags_and_events (s\<lparr>srv_ds := SetNodeStatus codec n v i (srv_ds s)\<rparr>) = bags_and_events s"
  by (simp add: bags_and_events_def SetNodeStatus_def GetLogInfoList_def getLogInfoMap_def ds_Get_def Let_def fun_eq_iff)

interpretation bags_kept: untouched_view bags_and_events
  by unfold_locales (auto simp: object_tables_def status_keeps)

lemma leaves_actors: "leaves bags_and_events (import_client cr)" "leaves bags_and_events (import_user cr)" "leaves bags_and_events (import_file wd)"
  by (auto intro!: leaves_I simp: import_client_def import_user_def import_file_def Let_def saved_def file_Save_def
      client_Save_def user_Save_def elim!: bind_OkE split: prod.splits outcome.splits)

text \<open>
  \<^bold>\<open>C35\<close> Data bags and events do not come back. An export holds the data bags as \<open>databag\<close> and the import looks for
  \<open>data_bag\<close>; the import of an event asserts that its number is a \<open>float64\<close>, which the decoder never
  makes. So an import of an export that ends without an error leaves the data bags and the event log as they were.
\<close>

theorem import_without_bags_and_events:
  assumes "exportAll wd s = Some (Ok ed)" "importAll cr wd' ed s0 = Ok s'"
  shows "srv_Get ''data_bag'' s' = srv_Get ''data_bag'' s0 \<and> GetLogInfoList (srv_ds s') = GetLogInfoList (srv_ds s0)"
proof -
  have "\<forall>(t, f)\<in>set (tables_1_0 cr wd' @ (if MinorVersion ed = 1 then tables_1_1 wd' else [])).
      map_of (ed_Data ed) t = None \<or> leaves bags_and_events f"
    using no_data_bag_table [OF assms(1)] leaves_actors bags_kept.leaves_other by (auto simp: tables_1_0_def tables_1_1_def)
  from import_tables_leaves [OF this] assms(2) have "bags_and_events s' = bags_and_events s0"
    by (auto simp: importAll_def elim!: bind_OkE split: if_splits)
  then show ?thesis by (simp add: bags_and_events_def)
qed

definition bag_server :: server where
  "bag_server = databag_Save \<lparr>db_Name = ''b'', db_DataBagItems = []\<rparr> new_server"

theorem import_without_bags_and_events_witness:
  "\<exists>ed s'. srv_Get ''data_bag'' bag_server ''b'' \<noteq> None \<and> exportAll example_world bag_server = Some (Ok ed) \<and>
     importAll other_crypto example_world ed new_server = Ok s' \<and> srv_Get ''data_bag'' s' ''b'' = None"
proof -
  have "map_option (\<lambda>r. is_ok (outcome_bind r (\<lambda>ed. importAll other_crypto example_world ed new_server)))
      (exportAll example_world bag_server) = Some True" by code_simp
  then obtain ed s' where i: "exportAll example_world bag_server = Some (Ok ed)" "importAll other_crypto example_world ed new_server = Ok s'"
    by (auto simp: is_ok_iff elim!: bind_OkE)
  have "srv_Get ''data_bag'' bag_server ''b'' \<noteq> None" by (simp add: bag_server_def databag_Save_def ds_Get_Set)
  then show ?thesis using i import_without_bags_and_events [OF i] by (auto simp: new_server_Get)
qed

end
