(* ===== verification/Config.thy ===== *)
theory Config
  imports Server
begin

text \<open>
  \<^verbatim>\<open>config/config.go\<close>: how the options of the command line and the configuration file become the
  configuration of the server. The structs \<open>Conf\<close> and \<open>Options\<close> share most of their fields; these are grouped into
  four records here. The parser of the flags, the TOML decoder, the files and the network
  address parser are parameters: the options are given as parsed, the rest is the record \<open>sysenv\<close>. \<open>os.Exit\<close> is
  \<open>Inl\<close> with the code. \<open>ParseConfigOptions\<close> starts from the configuration that is there, since it is called
  again when the server is told to reload.
\<close>

subsection \<open>Options and configuration\<close>

record mysql_db =
  my_Username :: string
  my_Password :: string
  my_Protocol :: string
  my_Address :: string
  my_Port :: string
  my_Dbname :: string
  my_ExtraParams :: "(string \<times> string) list"

record postgresql_db =
  pg_Username :: string
  pg_Password :: string
  pg_Host :: string
  pg_Port :: string
  pg_Dbname :: string
  pg_SSLMode :: string

record net_options =
  n_Ipaddress :: string
  n_Hostname :: string
  n_Port :: int
  n_ProxyHostname :: string
  n_ProxyPort :: int
  n_ConfRoot :: string
  n_UseSSL :: bool
  n_SSLCert :: string
  n_SSLKey :: string
  n_HTTPSUrls :: bool

record store_options =
  s_IndexFile :: string
  s_DataStoreFile :: string
  s_FreezeInterval :: int
  s_UseMySQL :: bool
  s_MySQL :: mysql_db
  s_UsePostgreSQL :: bool
  s_PostgreSQL :: postgresql_db
  s_PgSearch :: bool
  s_LocalFstoreDir :: string
  s_UseUnsafeMemStore :: bool
  s_DbPoolSize :: int
  s_MaxConn :: int
  s_UseS3Upload :: bool
  s_AWSRegion :: string
  s_S3Bucket :: string
  s_AWSDisableSSL :: bool
  s_S3Endpoint :: string
  s_S3FilePeriod :: int

record log_options =
  l_LogFile :: string
  l_SysLog :: bool
  l_LogLevel :: string
  l_LogEvents :: bool
  l_LogEventKeep :: int
  l_SkipLogExtended :: bool
  l_UseStatsd :: bool
  l_StatsdAddr :: string
  l_StatsdType :: string
  l_StatsdInstance :: string
  l_SearchQueryDebug :: bool

record api_options =
  a_UseAuth :: bool
  a_TimeSlew :: string
  a_DisableWebUI :: bool
  a_ObjMaxSize :: int
  a_JSONReqMaxSize :: int
  a_UseSerf :: bool
  a_SerfEventAnnounce :: bool
  a_SerfAddr :: string
  a_UseShovey :: bool
  a_SignPrivKey :: string
  a_DotSearch :: bool
  a_ConvertSearch :: bool
  a_UseExtSecrets :: bool
  a_VaultAddr :: string
  a_VaultShoveyKey :: string
  a_IndexValTrim :: int
  a_PprofWhitelist :: "string list"
  a_PurgeReportsAfter :: string
  a_PurgeNodeStatusAfter :: string
  a_PurgeSandboxesAfter :: string

text \<open>The number of times \<open>--verbose\<close> is given is the length of the slice \<open>Verbose\<close>.\<close>

record options =
  o_Version :: bool
  o_PrintManPage :: bool
  o_Verbose :: nat
  o_ConfFile :: string
  o_Export :: string
  o_Import :: string
  o_Bootstrap :: bool
  o_net :: net_options
  o_store :: store_options
  o_log :: log_options
  o_api :: api_options

text \<open>\<open>k_pprofWhitelist\<close> is the global variable of that name; an address that is not one is \<open>nil\<close>, the
  empty list of bytes.\<close>

record config =
  k_ConfFile :: string
  k_FreezeData :: bool
  k_DebugLevel :: int
  k_DoExport :: bool
  k_DoImport :: bool
  k_DoBootstrap :: bool
  k_ImpExFile :: string
  k_TimeSlewDur :: int
  k_EnvVars :: "string list"
  k_PurgeNodeStatusDur :: int
  k_PurgeReportsDur :: int
  k_PurgeSandboxesDur :: int
  k_pprofWhitelist :: "string list"
  k_net :: net_options
  k_store :: store_options
  k_log :: log_options
  k_api :: api_options

definition initConfig :: config where
  "initConfig =
     \<lparr>k_ConfFile = [], k_FreezeData = False, k_DebugLevel = 0, k_DoExport = False, k_DoImport = False, k_DoBootstrap = False,
      k_ImpExFile = [], k_TimeSlewDur = 0, k_EnvVars = [], k_PurgeNodeStatusDur = 0, k_PurgeReportsDur = 0, k_PurgeSandboxesDur = 0,
      k_pprofWhitelist = [],
      k_net = \<lparr>n_Ipaddress = [], n_Hostname = [], n_Port = 0, n_ProxyHostname = [], n_ProxyPort = 0, n_ConfRoot = [],
        n_UseSSL = False, n_SSLCert = [], n_SSLKey = [], n_HTTPSUrls = False\<rparr>,
      k_store = \<lparr>s_IndexFile = [], s_DataStoreFile = [], s_FreezeInterval = 0, s_UseMySQL = False,
        s_MySQL = \<lparr>my_Username = [], my_Password = [], my_Protocol = [], my_Address = [], my_Port = [], my_Dbname = [], my_ExtraParams = []\<rparr>,
        s_UsePostgreSQL = False,
        s_PostgreSQL = \<lparr>pg_Username = [], pg_Password = [], pg_Host = [], pg_Port = [], pg_Dbname = [], pg_SSLMode = []\<rparr>,
        s_PgSearch = False, s_LocalFstoreDir = [], s_UseUnsafeMemStore = False, s_DbPoolSize = 0, s_MaxConn = 0, s_UseS3Upload = False,
        s_AWSRegion = [], s_S3Bucket = [], s_AWSDisableSSL = False, s_S3Endpoint = [], s_S3FilePeriod = 0\<rparr>,
      k_log = \<lparr>l_LogFile = [], l_SysLog = False, l_LogLevel = [], l_LogEvents = False, l_LogEventKeep = 0, l_SkipLogExtended = False,
        l_UseStatsd = False, l_StatsdAddr = [], l_StatsdType = [], l_StatsdInstance = [], l_SearchQueryDebug = False\<rparr>,
      k_api = \<lparr>a_UseAuth = False, a_TimeSlew = [], a_DisableWebUI = False, a_ObjMaxSize = 0, a_JSONReqMaxSize = 0, a_UseSerf = False,
        a_SerfEventAnnounce = False, a_SerfAddr = [], a_UseShovey = False, a_SignPrivKey = [], a_DotSearch = False,
        a_ConvertSearch = False, a_UseExtSecrets = False, a_VaultAddr = [], a_VaultShoveyKey = [], a_IndexValTrim = 0,
        a_PprofWhitelist = [], a_PurgeReportsAfter = [], a_PurgeNodeStatusAfter = [], a_PurgeSandboxesAfter = []\<rparr>\<rparr>"

text \<open>
  \<open>se_DecodeFile\<close> decodes a file into the configuration given; \<open>se_OpenLog\<close>, \<open>se_setLogger\<close>, \<open>se_IsDir\<close>, \<open>se_LoadKey\<close> and
  \<open>se_Setenv\<close> say whether opening the log file, setting up the logger, finding the directory, reading
  the private key and setting a variable succeed.
\<close>

record sysenv =
  se_DecodeFile :: "string \<Rightarrow> config \<Rightarrow> config option"
  se_Hostname :: "string option"
  se_OpenLog :: "string \<Rightarrow> bool"
  se_setLogger :: "bool \<Rightarrow> bool"
  se_IsDir :: "string \<Rightarrow> bool"
  se_ParseIP :: "string \<Rightarrow> string option"
  se_ParseDuration :: "string \<Rightarrow> int option"
  se_LoadKey :: "string \<Rightarrow> bool"
  se_Setenv :: "string \<Rightarrow> string \<Rightarrow> bool"

subsection \<open>Helpers\<close>

definition and_then :: "int + 'a \<Rightarrow> ('a \<Rightarrow> int + 'b) \<Rightarrow> int + 'b" where
  "and_then r k = (case r of Inl e \<Rightarrow> Inl e | Inr x \<Rightarrow> k x)"

lemma and_then_Inr [simp]: "and_then (Inr x) k = k x" "and_then (Inl e) k = Inl e"
  by (simp_all add: and_then_def)

lemma and_then_Inr_iff: "and_then r k = Inr y \<longleftrightarrow> (\<exists>x. r = Inr x \<and> k x = Inr y)"
  by (cases r) auto

text \<open>\<open>if opts.X != "" { Config.X = opts.X }\<close> and the same for numbers and flags.\<close>

definition or_str :: "string \<Rightarrow> string \<Rightarrow> string" where
  "or_str x y = (if x \<noteq> [] then x else y)"

definition or_int :: "int \<Rightarrow> int \<Rightarrow> int" where
  "or_int x y = (if x \<noteq> 0 then x else y)"

definition or_bool :: "bool \<Rightarrow> bool \<Rightarrow> bool" where
  "or_bool x y = (if x then x else y)"

definition path_Join :: "string \<Rightarrow> string \<Rightarrow> string" where
  "path_Join a b = (if a = [] then if b = [] then [] else path_Clean b else if b = [] then path_Clean a else path_Clean (a @ ''/'' @ b))"

definition path_IsAbs :: "string \<Rightarrow> bool" where
  "path_IsAbs p \<longleftrightarrow> p \<noteq> [] \<and> hd p = CHR ''/''"

definition path_Dir :: "string \<Rightarrow> string" where
  "path_Dir p = path_Clean (rev (dropWhile (\<lambda>c. c \<noteq> CHR ''/'') (rev p)))"

definition at_root :: "string \<Rightarrow> string \<Rightarrow> string" where
  "at_root confRoot p = (if path_IsAbs p then p else path_Join confRoot p)"

subsection \<open>ParseConfigOptions\<close>

text \<open>The function is cut into its parts, in the order of the code. Messages are left out.\<close>

definition parse_file :: "sysenv \<Rightarrow> options \<Rightarrow> config \<Rightarrow> int + config" where
  "parse_file se opts k =
     (if o_PrintManPage opts \<or> o_Version opts then Inl 0
      else if o_ConfFile opts \<noteq> [] then
        (case se_DecodeFile se (o_ConfFile opts) k of
           None \<Rightarrow> Inl 1
         | Some k1 \<Rightarrow> Inr (k1\<lparr>k_ConfFile := o_ConfFile opts, k_FreezeData := False\<rparr>))
      else Inr k)"

definition parse_impex :: "options \<Rightarrow> config \<Rightarrow> int + config" where
  "parse_impex opts k0 =
     (let k = k0\<lparr>k_DoBootstrap := o_Bootstrap opts\<rparr>
      in if o_Export opts \<noteq> [] \<and> o_Import opts \<noteq> [] then Inl 1
         else if o_Export opts \<noteq> [] then Inr (k\<lparr>k_DoExport := True, k_ImpExFile := o_Export opts\<rparr>)
         else if o_Import opts \<noteq> [] then Inr (k\<lparr>k_DoImport := True, k_ImpExFile := o_Import opts\<rparr>)
         else Inr k)"

definition parse_hostname :: "sysenv \<Rightarrow> options \<Rightarrow> net_options \<Rightarrow> net_options" where
  "parse_hostname se opts n =
     (let h = (if n_Hostname (o_net opts) \<noteq> [] then n_Hostname (o_net opts)
               else if n_Hostname n = [] then (case se_Hostname se of Some x \<Rightarrow> x | None \<Rightarrow> ''localhost'')
               else n_Hostname n);
          p = or_str (n_ProxyHostname (o_net opts)) (n_ProxyHostname n)
      in n\<lparr>n_Hostname := h, n_ProxyHostname := (if p = [] then h else p)\<rparr>)"

definition merge_mysql :: "mysql_db \<Rightarrow> mysql_db \<Rightarrow> mysql_db" where
  "merge_mysql m c =
     \<lparr>my_Username = or_str (my_Username m) (my_Username c), my_Password = or_str (my_Password m) (my_Password c),
      my_Protocol = or_str (my_Protocol m) (my_Protocol c), my_Address = or_str (my_Address m) (my_Address c),
      my_Port = or_str (my_Port m) (my_Port c), my_Dbname = or_str (my_Dbname m) (my_Dbname c),
      my_ExtraParams = fold (\<lambda>(k, v). aput k v) (my_ExtraParams m) (my_ExtraParams c)\<rparr>"

definition merge_postgresql :: "postgresql_db \<Rightarrow> postgresql_db \<Rightarrow> postgresql_db" where
  "merge_postgresql p c =
     \<lparr>pg_Username = or_str (pg_Username p) (pg_Username c), pg_Password = or_str (pg_Password p) (pg_Password c),
      pg_Host = or_str (pg_Host p) (pg_Host c), pg_Port = or_str (pg_Port p) (pg_Port c),
      pg_Dbname = or_str (pg_Dbname p) (pg_Dbname c), pg_SSLMode = or_str (pg_SSLMode p) (pg_SSLMode c)\<rparr>"

text \<open>Data file, index file and the databases.\<close>

definition merge_databases :: "store_options \<Rightarrow> store_options \<Rightarrow> store_options" where
  "merge_databases os c =
     c\<lparr>s_DataStoreFile := or_str (s_DataStoreFile os) (s_DataStoreFile c), s_IndexFile := or_str (s_IndexFile os) (s_IndexFile c),
       s_UseMySQL := or_bool (s_UseMySQL os) (s_UseMySQL c),
       s_MySQL := (if s_UseMySQL os then merge_mysql (s_MySQL os) (s_MySQL c) else s_MySQL c),
       s_UsePostgreSQL := or_bool (s_UsePostgreSQL os) (s_UsePostgreSQL c),
       s_PostgreSQL := (if s_UsePostgreSQL os then merge_postgresql (s_PostgreSQL os) (s_PostgreSQL c) else s_PostgreSQL c)\<rparr>"

definition in_db :: "store_options \<Rightarrow> bool" where
  "in_db c \<longleftrightarrow> s_UseMySQL c \<or> s_UsePostgreSQL c"

definition parse_stores :: "options \<Rightarrow> config \<Rightarrow> int + config" where
  "parse_stores opts k =
     (let os = o_store opts; c = merge_databases os (k_store k)
      in if s_UseMySQL c \<and> s_UsePostgreSQL c then Inl 1
         else if s_PgSearch os \<and> \<not> s_UsePostgreSQL c then Inl 1
         else
           (let c1 = c\<lparr>s_PgSearch := or_bool (s_PgSearch os) (s_PgSearch c)\<rparr>
            in if \<not> ((s_DataStoreFile c1 = [] \<and> s_IndexFile c1 = []) \<or>
                       ((s_DataStoreFile c1 \<noteq> [] \<or> in_db c1) \<and> s_IndexFile c1 \<noteq> [])) then Inl 1
               else if in_db c1 \<and> s_IndexFile c1 = [] \<and> \<not> s_PgSearch c1 then Inl 1
               else Inr (k\<lparr>k_store := c1,
                 k_FreezeData := (if s_IndexFile c1 \<noteq> [] \<and> (s_DataStoreFile c1 \<noteq> [] \<or> in_db c1) then True else k_FreezeData k)\<rparr>)))"

definition LogLevelNames :: "(string \<times> int) list" where
  "LogLevelNames = [(''debug'', 5), (''info'', 4), (''warning'', 3), (''error'', 2), (''critical'', 1), (''fatal'', 0)]"

text \<open>\<open>logger.LevelFatal\<close>; the level of the logger counts from debug up.\<close>

definition LevelFatal :: int where "LevelFatal = 5"

definition debug_level :: "nat \<Rightarrow> string \<Rightarrow> int \<Rightarrow> int" where
  "debug_level verbose logLevel d0 =
     (let d1 = (if verbose \<noteq> 0 then int verbose else d0);
          d2 = (if logLevel \<noteq> [] then
                  (case map_of LogLevelNames (map to_lower_ascii logLevel) of
                     Some lev \<Rightarrow> if d1 = 0 then lev else d1
                   | None \<Rightarrow> d1)
                else d1);
          d3 = (if d2 > 5 then 5 else d2)
      in LevelFatal - d3)"

definition parse_log :: "sysenv \<Rightarrow> options \<Rightarrow> config \<Rightarrow> int + config" where
  "parse_log se opts k =
     (let ol = o_log opts;
          c = (k_log k)\<lparr>l_LogFile := or_str (l_LogFile ol) (l_LogFile (k_log k)), l_SysLog := or_bool (l_SysLog ol) (l_SysLog (k_log k)),
                l_LogLevel := or_str (l_LogLevel ol) (l_LogLevel (k_log k))\<rparr>
      in if l_LogFile c \<noteq> [] \<and> \<not> se_OpenLog se (l_LogFile c) then Inl 1
         else if \<not> se_setLogger se (l_SysLog c) then Inl 1
         else Inr (k\<lparr>k_log := c, k_DebugLevel := debug_level (o_Verbose opts) (l_LogLevel c) (k_DebugLevel k)\<rparr>))"

definition parse_s3 :: "store_options \<Rightarrow> store_options \<Rightarrow> int + store_options" where
  "parse_s3 os c =
     (if \<not> or_bool (s_UseS3Upload os) (s_UseS3Upload c) then Inr c
      else if \<not> s_UseMySQL c \<and> \<not> s_UsePostgreSQL c then Inl 1
      else Inr (c\<lparr>s_UseS3Upload := True, s_AWSRegion := or_str (s_AWSRegion os) (s_AWSRegion c),
        s_S3Bucket := or_str (s_S3Bucket os) (s_S3Bucket c), s_AWSDisableSSL := or_bool (s_AWSDisableSSL os) (s_AWSDisableSSL c),
        s_S3Endpoint := or_str (s_S3Endpoint os) (s_S3Endpoint c),
        s_S3FilePeriod := or_int (or_int (s_S3FilePeriod os) (s_S3FilePeriod c)) 15\<rparr>))"

definition default_ports :: "store_options \<Rightarrow> store_options" where
  "default_ports c =
     c\<lparr>s_MySQL := (if s_UseMySQL c then (s_MySQL c)\<lparr>my_Port := or_str (my_Port (s_MySQL c)) ''3306''\<rparr> else s_MySQL c),
       s_PostgreSQL := (if s_UsePostgreSQL c then (s_PostgreSQL c)\<lparr>pg_Port := or_str (pg_Port (s_PostgreSQL c)) ''5432''\<rparr>
                        else s_PostgreSQL c)\<rparr>"

definition parse_filestore :: "sysenv \<Rightarrow> options \<Rightarrow> config \<Rightarrow> int + config" where
  "parse_filestore se opts k =
     (let os = o_store opts; c0 = default_ports (k_store k)
      in and_then (parse_s3 os (c0\<lparr>s_LocalFstoreDir := or_str (s_LocalFstoreDir os) (s_LocalFstoreDir c0)\<rparr>)) (\<lambda>c.
           if s_LocalFstoreDir c = [] \<and> in_db c \<and> \<not> s_UseS3Upload c then Inl 1
           else if s_LocalFstoreDir c \<noteq> [] \<and> \<not> se_IsDir se (s_LocalFstoreDir c) then Inl 1
           else Inr (k\<lparr>k_store := c\<lparr>s_FreezeInterval := or_int (or_int (s_FreezeInterval os) (s_FreezeInterval c)) 10\<rparr>\<rparr>)))"

definition conf_root :: "options \<Rightarrow> config \<Rightarrow> string" where
  "conf_root opts k =
     (let r = or_str (n_ConfRoot (o_net opts)) (n_ConfRoot (k_net k))
      in if r = [] then if k_ConfFile k \<noteq> [] then path_Dir (k_ConfFile k) else ''.'' else r)"

text \<open>Port 80 switches SSL off and port 443 on; the files of the certificate and the key are
  relative to the root of the configuration.\<close>

definition parse_ssl :: "net_options \<Rightarrow> int + net_options" where
  "parse_ssl n =
     (let ssl = (if n_Port n = 80 then False else if n_Port n = 443 then True else n_UseSSL n); n1 = n\<lparr>n_UseSSL := ssl\<rparr>
      in if \<not> ssl then Inr n1
         else if n_SSLCert n = [] \<or> n_SSLKey n = [] then Inl 1
         else Inr (n1\<lparr>n_SSLCert := at_root (n_ConfRoot n) (n_SSLCert n), n_SSLKey := at_root (n_ConfRoot n) (n_SSLKey n)\<rparr>))"

definition merge_net :: "net_options \<Rightarrow> net_options \<Rightarrow> net_options" where
  "merge_net os n =
     (let port = or_int (or_int (n_Port os) (n_Port n)) 4545
      in n\<lparr>n_Port := port, n_ProxyPort := or_int (or_int (n_ProxyPort os) (n_ProxyPort n)) port,
           n_UseSSL := or_bool (n_UseSSL os) (n_UseSSL n), n_SSLCert := or_str (n_SSLCert os) (n_SSLCert n),
           n_SSLKey := or_str (n_SSLKey os) (n_SSLKey n), n_HTTPSUrls := or_bool (n_HTTPSUrls os) (n_HTTPSUrls n)\<rparr>)"

definition parse_net :: "sysenv \<Rightarrow> options \<Rightarrow> config \<Rightarrow> int + config" where
  "parse_net se opts k =
     (let n = (k_net k)\<lparr>n_ConfRoot := conf_root opts k, n_Ipaddress := or_str (n_Ipaddress (o_net opts)) (n_Ipaddress (k_net k))\<rparr>;
          a = (k_api k)\<lparr>a_UseExtSecrets := or_bool (a_UseExtSecrets (o_api opts)) (a_UseExtSecrets (k_api k)),
                a_VaultAddr := or_str (a_VaultAddr (o_api opts)) (a_VaultAddr (k_api k))\<rparr>
      in if n_Ipaddress n \<noteq> [] \<and> se_ParseIP se (n_Ipaddress n) = None then Inl 1
         else and_then (parse_ssl (merge_net (o_net opts) n)) (\<lambda>n1. Inr (k\<lparr>k_net := n1, k_api := a\<rparr>)))"

definition minutes :: "int \<Rightarrow> int" where "minutes m = m * 60 * 10 ^ 9"

text \<open>The default time slew is 15 minutes.\<close>

definition parse_slew :: "sysenv \<Rightarrow> options \<Rightarrow> config \<Rightarrow> int + config" where
  "parse_slew se opts k =
     (let t = or_str (a_TimeSlew (o_api opts)) (a_TimeSlew (k_api k)); k1 = k\<lparr>k_api := (k_api k)\<lparr>a_TimeSlew := t\<rparr>\<rparr>
      in if t \<noteq> [] then (case se_ParseDuration se t of None \<Rightarrow> Inl 1 | Some d \<Rightarrow> Inr (k1\<lparr>k_TimeSlewDur := d\<rparr>))
         else Inr (k1\<lparr>k_TimeSlewDur := minutes 15\<rparr>))"

definition merge_events :: "log_options \<Rightarrow> log_options \<Rightarrow> log_options" where
  "merge_events os l =
     l\<lparr>l_LogEvents := or_bool (l_LogEvents os) (l_LogEvents l), l_LogEventKeep := or_int (l_LogEventKeep os) (l_LogEventKeep l),
       l_SkipLogExtended := or_bool (l_SkipLogExtended os) (l_SkipLogExtended l)\<rparr>"

definition merge_api :: "api_options \<Rightarrow> api_options \<Rightarrow> api_options" where
  "merge_api os a =
     a\<lparr>a_UseAuth := or_bool (a_UseAuth os) (a_UseAuth a), a_DisableWebUI := or_bool (a_DisableWebUI os) (a_DisableWebUI a),
       a_ObjMaxSize := or_int (or_int (a_ObjMaxSize os) (a_ObjMaxSize a)) 10485760,
       a_JSONReqMaxSize := or_int (or_int (a_JSONReqMaxSize os) (a_JSONReqMaxSize a)) 1000000\<rparr>"

definition parse_limits :: "options \<Rightarrow> config \<Rightarrow> config" where
  "parse_limits opts k =
     k\<lparr>k_api := merge_api (o_api opts) (k_api k), k_log := merge_events (o_log opts) (k_log k),
       k_store := (k_store k)\<lparr>s_UseUnsafeMemStore := or_bool (s_UseUnsafeMemStore (o_store opts)) (s_UseUnsafeMemStore (k_store k)),
         s_DbPoolSize := or_int (s_DbPoolSize (o_store opts)) (s_DbPoolSize (k_store k)),
         s_MaxConn := or_int (s_MaxConn (o_store opts)) (s_MaxConn (k_store k))\<rparr>\<rparr>"

definition parse_serf :: "options \<Rightarrow> config \<Rightarrow> int + config" where
  "parse_serf opts k =
     (let os = o_api opts; serf = or_bool (a_UseSerf os) (a_UseSerf (k_api k));
          a = (k_api k)\<lparr>a_UseSerf := serf,
                a_SerfAddr := (if serf then or_str (or_str (a_SerfAddr os) (a_SerfAddr (k_api k))) ''127.0.0.1:7373'' else a_SerfAddr (k_api k)),
                a_SerfEventAnnounce := or_bool (a_SerfEventAnnounce os) (a_SerfEventAnnounce (k_api k))\<rparr>
      in if a_SerfEventAnnounce a \<and> \<not> serf then Inl 1
         else if a_UseShovey os \<and> \<not> serf then Inl 1
         else Inr (k\<lparr>k_api := a\<lparr>a_UseShovey := or_bool (a_UseShovey os) (a_UseShovey a)\<rparr>\<rparr>))"

definition parse_keys :: "sysenv \<Rightarrow> options \<Rightarrow> config \<Rightarrow> int + config" where
  "parse_keys se opts k =
     (let a = (k_api k)\<lparr>a_SignPrivKey := or_str (a_SignPrivKey (o_api opts)) (a_SignPrivKey (k_api k)),
                a_VaultShoveyKey := or_str (a_VaultShoveyKey (o_api opts)) (a_VaultShoveyKey (k_api k))\<rparr>
      in if \<not> a_UseShovey a then Inr (k\<lparr>k_api := a\<rparr>)
         else if a_UseExtSecrets a then
           Inr (k\<lparr>k_api := a\<lparr>a_VaultShoveyKey := or_str (a_VaultShoveyKey a) ''keys/shovey/signing''\<rparr>\<rparr>)
         else
           (let confRoot = n_ConfRoot (k_net k);
                key = (if a_SignPrivKey a = [] then path_Join confRoot ''shovey-sign_rsa'' else at_root confRoot (a_SignPrivKey a))
            in if se_LoadKey se key then Inr (k\<lparr>k_api := a\<lparr>a_SignPrivKey := key\<rparr>\<rparr>) else Inl 1))"

definition parse_search :: "options \<Rightarrow> config \<Rightarrow> config" where
  "parse_search opts k =
     (let dot = (if a_DotSearch (o_api opts) then True else if s_PgSearch (k_store k) then True else a_DotSearch (k_api k))
      in k\<lparr>k_api := (k_api k)\<lparr>a_DotSearch := dot,
           a_ConvertSearch := (if dot then or_bool (a_ConvertSearch (o_api opts)) (a_ConvertSearch (k_api k)) else a_ConvertSearch (k_api k)),
           a_IndexValTrim := or_int (a_IndexValTrim (o_api opts)) (a_IndexValTrim (k_api k))\<rparr>\<rparr>)"

definition parse_statsd :: "options \<Rightarrow> config \<Rightarrow> config" where
  "parse_statsd opts k =
     (let ol = o_log opts; l = k_log k
      in k\<lparr>k_log := l\<lparr>l_UseStatsd := or_bool (l_UseStatsd ol) (l_UseStatsd l),
           l_StatsdAddr := or_str (or_str (l_StatsdAddr ol) (l_StatsdAddr l)) ''localhost:8125'',
           l_StatsdType := or_str (or_str (l_StatsdType ol) (l_StatsdType l)) ''standard'',
           l_StatsdInstance := or_str (or_str (l_StatsdInstance ol) (l_StatsdInstance l))
             (map (\<lambda>c. if c = CHR ''.'' then CHR ''_'' else c) (n_Hostname (k_net k)))\<rparr>\<rparr>)"

text \<open>An invalid address is reported and stays in the list as \<open>nil\<close>.\<close>

definition parse_whitelist :: "sysenv \<Rightarrow> options \<Rightarrow> config \<Rightarrow> config" where
  "parse_whitelist se opts k =
     (let ws = (if a_PprofWhitelist (o_api opts) \<noteq> [] then a_PprofWhitelist (o_api opts) else a_PprofWhitelist (k_api k))
      in k\<lparr>k_api := (k_api k)\<lparr>a_PprofWhitelist := ws\<rparr>,
           k_pprofWhitelist := map (\<lambda>w. case se_ParseIP se w of Some ip \<Rightarrow> ip | None \<Rightarrow> []) ws\<rparr>)"

definition env_setting :: "sysenv \<Rightarrow> string \<Rightarrow> bool" where
  "env_setting se v \<longleftrightarrow> CHR ''='' \<in> set v \<and> se_Setenv se (takeWhile (\<lambda>c. c \<noteq> CHR ''='') v) (tl (dropWhile (\<lambda>c. c \<noteq> CHR ''='') v))"

definition parse_env :: "sysenv \<Rightarrow> options \<Rightarrow> config \<Rightarrow> int + config" where
  "parse_env se opts k =
     (if list_all (env_setting se) (k_EnvVars k) then
        Inr (k\<lparr>k_log := (k_log k)\<lparr>l_SearchQueryDebug := or_bool (l_SearchQueryDebug (o_log opts)) (l_SearchQueryDebug (k_log k))\<rparr>\<rparr>)
      else Inl 1)"

definition opt_duration :: "sysenv \<Rightarrow> string \<Rightarrow> int \<Rightarrow> int + int" where
  "opt_duration se t d0 = (if t \<noteq> [] then (case se_ParseDuration se t of None \<Rightarrow> Inl 1 | Some d \<Rightarrow> Inr d) else Inr d0)"

definition parse_purges :: "sysenv \<Rightarrow> options \<Rightarrow> config \<Rightarrow> int + config" where
  "parse_purges se opts k =
     (let os = o_api opts; c = k_api k;
          a = c\<lparr>a_PurgeNodeStatusAfter := or_str (a_PurgeNodeStatusAfter os) (a_PurgeNodeStatusAfter c),
                a_PurgeReportsAfter := or_str (a_PurgeReportsAfter os) (a_PurgeReportsAfter c),
                a_PurgeSandboxesAfter := or_str (a_PurgeSandboxesAfter os) (a_PurgeSandboxesAfter c)\<rparr>
      in and_then (opt_duration se (a_PurgeNodeStatusAfter a) (k_PurgeNodeStatusDur k)) (\<lambda>d1.
         and_then (opt_duration se (a_PurgeReportsAfter a) (k_PurgeReportsDur k)) (\<lambda>d2.
         and_then (opt_duration se (a_PurgeSandboxesAfter a) (minutes (60 * 24 * 7))) (\<lambda>d3.
           Inr (k\<lparr>k_api := a, k_PurgeNodeStatusDur := d1, k_PurgeReportsDur := d2, k_PurgeSandboxesDur := d3\<rparr>)))))"

definition ParseConfigOptions :: "sysenv \<Rightarrow> options \<Rightarrow> config \<Rightarrow> int + config" where
  "ParseConfigOptions se opts k0 =
     and_then (parse_file se opts k0) (\<lambda>k1.
     and_then (parse_impex opts k1) (\<lambda>k2.
     and_then (parse_stores opts (k2\<lparr>k_net := parse_hostname se opts (k_net k2)\<rparr>)) (\<lambda>k3.
     and_then (parse_log se opts k3) (\<lambda>k4.
     and_then (parse_filestore se opts k4) (\<lambda>k5.
     and_then (parse_net se opts k5) (\<lambda>k6.
     and_then (parse_slew se opts k6) (\<lambda>k7.
     and_then (parse_serf opts (parse_limits opts k7)) (\<lambda>k8.
     and_then (parse_keys se opts k8) (\<lambda>k9.
     and_then (parse_env se opts (parse_whitelist se opts (parse_statsd opts (parse_search opts k9)))) (\<lambda>k10.
       parse_purges se opts k10))))))))))"

subsection \<open>What the server reads\<close>

definition JoinHostPort :: "string \<Rightarrow> int \<Rightarrow> string" where
  "JoinHostPort host port =
     (if CHR '':'' \<in> set host then ''['' @ host @ '']:'' @ string_of_int port else host @ '':'' @ string_of_int port)"

definition ListenAddr :: "config \<Rightarrow> string" where
  "ListenAddr k = JoinHostPort (n_Ipaddress (k_net k)) (n_Port (k_net k))"

definition ServerHostname :: "config \<Rightarrow> string" where
  "ServerHostname k =
     (let n = k_net k
      in if \<not> (n_ProxyPort n = 80 \<or> n_ProxyPort n = 443) then JoinHostPort (n_ProxyHostname n) (n_ProxyPort n) else n_ProxyHostname n)"

definition ServerBaseURL :: "config \<Rightarrow> string" where
  "ServerBaseURL k = (if n_UseSSL (k_net k) \<or> n_HTTPSUrls (k_net k) then ''https'' else ''http'') @ ''://'' @ ServerHostname k"

definition UsingDB :: "config \<Rightarrow> bool" where
  "UsingDB k \<longleftrightarrow> s_UseMySQL (k_store k) \<or> s_UsePostgreSQL (k_store k)"

definition UsingExternalSecrets :: "config \<Rightarrow> bool" where
  "UsingExternalSecrets k \<longleftrightarrow> a_UseExtSecrets (k_api k)"

text \<open>The fields that the handlers read.\<close>

definition handler_conf :: "config \<Rightarrow> conf" where
  "handler_conf k =
     \<lparr>UseAuth = a_UseAuth (k_api k), DotSearch = a_DotSearch (k_api k), UsePostgreSQL = s_UsePostgreSQL (k_store k),
      UseSerf = a_UseSerf (k_api k), LogEvents = l_LogEvents (k_log k), SkipLogExtended = l_SkipLogExtended (k_log k),
      IndexValTrim = a_IndexValTrim (k_api k), DisableWebUI = a_DisableWebUI (k_api k), JSONReqMaxSize = a_JSONReqMaxSize (k_api k),
      ObjMaxSize = a_ObjMaxSize (k_api k), TimeSlewDur = k_TimeSlewDur k, PprofWhitelist = k_pprofWhitelist k,
      UseShovey = a_UseShovey (k_api k), ConvertSearch = a_ConvertSearch (k_api k), LogEventKeep = l_LogEventKeep (k_log k),
      PurgeReportsDur = k_PurgeReportsDur k, PurgeSandboxesDur = k_PurgeSandboxesDur k, PurgeNodeStatusDur = k_PurgeNodeStatusDur k\<rparr>"

subsection \<open>The parts of the function\<close>

abbreviation api_view :: "api_options \<Rightarrow> bool \<times> int \<times> int \<times> bool \<times> bool \<times> bool \<times> bool" where
  "api_view a \<equiv> (a_UseAuth a, a_ObjMaxSize a, a_JSONReqMaxSize a, a_DisableWebUI a, a_DotSearch a, a_UseSerf a, a_SerfEventAnnounce a)"

lemma parse_impex_Inr:
  "parse_impex opts k = Inr k' \<Longrightarrow> k_net k' = k_net k \<and> k_api k' = k_api k \<and> k_log k' = k_log k \<and> k_store k' = k_store k \<and>
     k_DebugLevel k' = k_DebugLevel k"
  by (auto simp: parse_impex_def Let_def split: if_splits)

lemma parse_stores_Inr:
  "parse_stores opts k = Inr k' \<Longrightarrow> k_net k' = k_net k \<and> k_api k' = k_api k \<and> k_log k' = k_log k \<and> k_DebugLevel k' = k_DebugLevel k \<and>
     \<not> (s_UseMySQL (k_store k') \<and> s_UsePostgreSQL (k_store k')) \<and>
     (in_db (k_store k') \<longrightarrow> s_IndexFile (k_store k') \<noteq> [] \<or> s_PgSearch (k_store k')) \<and>
     (s_DataStoreFile (k_store k') \<noteq> [] \<longrightarrow> s_IndexFile (k_store k') \<noteq> []) \<and>
     (s_IndexFile (k_store k') \<noteq> [] \<longrightarrow> s_DataStoreFile (k_store k') \<noteq> [] \<or> in_db (k_store k')) \<and>
     (s_PgSearch (o_store opts) \<longrightarrow> s_UsePostgreSQL (k_store k') \<and> s_PgSearch (k_store k'))"
  by (auto simp: or_bool_def parse_stores_def in_db_def Let_def split: if_splits)

lemma parse_log_Inr:
  "parse_log se opts k = Inr k' \<Longrightarrow> k_net k' = k_net k \<and> k_api k' = k_api k \<and> k_store k' = k_store k \<and>
     l_LogEvents (k_log k') = l_LogEvents (k_log k) \<and> l_LogEventKeep (k_log k') = l_LogEventKeep (k_log k) \<and>
     l_LogLevel (k_log k') = or_str (l_LogLevel (o_log opts)) (l_LogLevel (k_log k)) \<and>
     k_DebugLevel k' = debug_level (o_Verbose opts) (l_LogLevel (k_log k')) (k_DebugLevel k)"
  by (auto simp: parse_log_def Let_def split: if_splits)

abbreviation db_view :: "store_options \<Rightarrow> bool \<times> bool \<times> string \<times> string \<times> bool" where
  "db_view c \<equiv> (s_UseMySQL c, s_UsePostgreSQL c, s_IndexFile c, s_DataStoreFile c, s_PgSearch c)"

lemma parse_s3_Inr:
  assumes "parse_s3 os c = Inr c'"
  shows "db_view c' = db_view c" "s_LocalFstoreDir c' = s_LocalFstoreDir c" "s_UseS3Upload c' \<Longrightarrow> in_db c'"
  using assms by (auto simp: parse_s3_def in_db_def or_bool_def split: if_splits)

lemma parse_filestore_Inr:
  assumes "parse_filestore se opts k = Inr k'"
  shows "k_net k' = k_net k \<and> k_api k' = k_api k \<and> k_log k' = k_log k \<and> k_DebugLevel k' = k_DebugLevel k \<and>
     db_view (k_store k') = db_view (k_store k) \<and> (in_db (k_store k') \<longrightarrow> s_LocalFstoreDir (k_store k') \<noteq> [] \<or> s_UseS3Upload (k_store k')) \<and>
     (s_UseS3Upload (k_store k') \<longrightarrow> in_db (k_store k'))"
proof -
  let ?c0 = "default_ports (k_store k)"
  obtain c where c: "parse_s3 (o_store opts) (?c0\<lparr>s_LocalFstoreDir := or_str (s_LocalFstoreDir (o_store opts)) (s_LocalFstoreDir ?c0)\<rparr>) = Inr c"
    "\<not> (s_LocalFstoreDir c = [] \<and> in_db c \<and> \<not> s_UseS3Upload c)"
    "k' = k\<lparr>k_store := c\<lparr>s_FreezeInterval := or_int (or_int (s_FreezeInterval (o_store opts)) (s_FreezeInterval c)) 10\<rparr>\<rparr>"
    using assms unfolding parse_filestore_def Let_def and_then_Inr_iff by (auto split: if_splits)
  have "db_view ?c0 = db_view (k_store k)" by (simp add: default_ports_def)
  then show ?thesis using parse_s3_Inr [OF c(1)] c(2,3) by (auto simp: in_db_def)
qed

lemma path_Join_nonempty: "p \<noteq> [] \<Longrightarrow> path_Join r p \<noteq> []"
  by (auto simp: path_Join_def path_Clean_def Let_def)

lemma parse_ssl_Inr:
  assumes "parse_ssl n = Inr n'"
  shows "n_Port n' = n_Port n" "n_UseSSL n' \<longleftrightarrow> n_Port n = 443 \<or> n_Port n \<noteq> 80 \<and> n_UseSSL n"
    "n_UseSSL n' \<Longrightarrow> n_SSLCert n' \<noteq> [] \<and> n_SSLKey n' \<noteq> []"
  using assms by (auto simp: parse_ssl_def at_root_def path_Join_nonempty Let_def split: if_splits)

lemma parse_net_Inr:
  assumes "parse_net se opts k = Inr k'"
  shows "k_log k' = k_log k \<and> k_store k' = k_store k \<and> k_DebugLevel k' = k_DebugLevel k \<and> api_view (k_api k') = api_view (k_api k) \<and>
     a_TimeSlew (k_api k') = a_TimeSlew (k_api k) \<and>
     n_Port (k_net k') = or_int (or_int (n_Port (o_net opts)) (n_Port (k_net k))) 4545 \<and>
     (n_UseSSL (k_net k') \<longleftrightarrow> n_Port (k_net k') = 443 \<or> n_Port (k_net k') \<noteq> 80 \<and> (n_UseSSL (o_net opts) \<or> n_UseSSL (k_net k))) \<and>
     (n_UseSSL (k_net k') \<longrightarrow> n_SSLCert (k_net k') \<noteq> [] \<and> n_SSLKey (k_net k') \<noteq> [])"
proof -
  let ?n = "merge_net (o_net opts)
    ((k_net k)\<lparr>n_ConfRoot := conf_root opts k, n_Ipaddress := or_str (n_Ipaddress (o_net opts)) (n_Ipaddress (k_net k))\<rparr>)"
  obtain n1 a where n1: "parse_ssl ?n = Inr n1" "k' = k\<lparr>k_net := n1, k_api := a\<rparr>" "api_view a = api_view (k_api k)" "a_TimeSlew a = a_TimeSlew (k_api k)"
    using assms by (auto simp: parse_net_def Let_def and_then_Inr_iff split: if_splits)
  have "n_Port ?n = or_int (or_int (n_Port (o_net opts)) (n_Port (k_net k))) 4545" "n_UseSSL ?n \<longleftrightarrow> n_UseSSL (o_net opts) \<or> n_UseSSL (k_net k)"
    by (simp_all add: merge_net_def Let_def or_bool_def)
  then show ?thesis using parse_ssl_Inr [OF n1(1)] n1(2-4) by simp
qed

lemma parse_slew_Inr:
  "parse_slew se opts k = Inr k' \<Longrightarrow> k_net k' = k_net k \<and> k_log k' = k_log k \<and> k_store k' = k_store k \<and> k_DebugLevel k' = k_DebugLevel k \<and>
     api_view (k_api k') = api_view (k_api k) \<and>
     (let t = or_str (a_TimeSlew (o_api opts)) (a_TimeSlew (k_api k))
      in if t = [] then k_TimeSlewDur k' = minutes 15 else se_ParseDuration se t = Some (k_TimeSlewDur k'))"
  by (auto simp: parse_slew_def Let_def split: if_splits option.splits)

lemma parse_serf_Inr:
  "parse_serf opts k = Inr k' \<Longrightarrow> k_net k' = k_net k \<and> k_log k' = k_log k \<and> k_store k' = k_store k \<and> k_DebugLevel k' = k_DebugLevel k \<and>
     k_TimeSlewDur k' = k_TimeSlewDur k \<and> a_UseAuth (k_api k') = a_UseAuth (k_api k) \<and> a_ObjMaxSize (k_api k') = a_ObjMaxSize (k_api k) \<and>
     a_JSONReqMaxSize (k_api k') = a_JSONReqMaxSize (k_api k) \<and> a_DisableWebUI (k_api k') = a_DisableWebUI (k_api k) \<and>
     a_DotSearch (k_api k') = a_DotSearch (k_api k) \<and>
     (a_SerfEventAnnounce (k_api k') \<longrightarrow> a_UseSerf (k_api k')) \<and> (a_UseShovey (o_api opts) \<longrightarrow> a_UseSerf (k_api k'))"
  by (auto simp: parse_serf_def Let_def split: if_splits)

lemma parse_keys_Inr:
  "parse_keys se opts k = Inr k' \<Longrightarrow> k_net k' = k_net k \<and> k_log k' = k_log k \<and> k_store k' = k_store k \<and> k_DebugLevel k' = k_DebugLevel k \<and>
     k_TimeSlewDur k' = k_TimeSlewDur k \<and> api_view (k_api k') = api_view (k_api k)"
  by (auto simp: parse_keys_def Let_def split: if_splits)

lemma parse_env_Inr:
  "parse_env se opts k = Inr k' \<Longrightarrow> k_net k' = k_net k \<and> k_api k' = k_api k \<and> k_store k' = k_store k \<and> k_DebugLevel k' = k_DebugLevel k \<and>
     k_TimeSlewDur k' = k_TimeSlewDur k \<and> k_pprofWhitelist k' = k_pprofWhitelist k \<and>
     l_LogLevel (k_log k') = l_LogLevel (k_log k)"
  by (auto simp: parse_env_def split: if_splits)

lemma parse_purges_Inr:
  "parse_purges se opts k = Inr k' \<Longrightarrow> k_net k' = k_net k \<and> k_log k' = k_log k \<and> k_store k' = k_store k \<and> k_DebugLevel k' = k_DebugLevel k \<and>
     k_TimeSlewDur k' = k_TimeSlewDur k \<and> k_pprofWhitelist k' = k_pprofWhitelist k \<and>
     api_view (k_api k') = api_view (k_api k)"
  by (auto simp: parse_purges_def and_then_Inr_iff Let_def)

lemma parsed:
  assumes "ParseConfigOptions se opts k0 = Inr k"
  obtains k1 k2 k3 k4 k5 k6 k7 k8 k9 k10 where "parse_file se opts k0 = Inr k1" "parse_impex opts k1 = Inr k2"
    "parse_stores opts (k2\<lparr>k_net := parse_hostname se opts (k_net k2)\<rparr>) = Inr k3" "parse_log se opts k3 = Inr k4"
    "parse_filestore se opts k4 = Inr k5" "parse_net se opts k5 = Inr k6" "parse_slew se opts k6 = Inr k7"
    "parse_serf opts (parse_limits opts k7) = Inr k8" "parse_keys se opts k8 = Inr k9"
    "parse_env se opts (parse_whitelist se opts (parse_statsd opts (parse_search opts k9))) = Inr k10" "parse_purges se opts k10 = Inr k"
  using assms unfolding ParseConfigOptions_def and_then_Inr_iff by blast

lemma limits_view:
  "k_net (parse_limits opts k) = k_net k" "k_DebugLevel (parse_limits opts k) = k_DebugLevel k"
  "k_TimeSlewDur (parse_limits opts k) = k_TimeSlewDur k" "l_LogLevel (k_log (parse_limits opts k)) = l_LogLevel (k_log k)"
  "db_view (k_store (parse_limits opts k)) = db_view (k_store k)"
  "s_LocalFstoreDir (k_store (parse_limits opts k)) = s_LocalFstoreDir (k_store k)"
  "s_UseS3Upload (k_store (parse_limits opts k)) = s_UseS3Upload (k_store k)"
  "api_view (k_api (parse_limits opts k)) = (a_UseAuth (o_api opts) \<or> a_UseAuth (k_api k),
     or_int (or_int (a_ObjMaxSize (o_api opts)) (a_ObjMaxSize (k_api k))) 10485760,
     or_int (or_int (a_JSONReqMaxSize (o_api opts)) (a_JSONReqMaxSize (k_api k))) 1000000,
     a_DisableWebUI (o_api opts) \<or> a_DisableWebUI (k_api k), a_DotSearch (k_api k), a_UseSerf (k_api k), a_SerfEventAnnounce (k_api k))"
  by (simp_all add: parse_limits_def merge_api_def merge_events_def or_bool_def)

lemma tail_view:
  fixes k :: config and se :: sysenv and opts :: options
  defines "k' \<equiv> parse_whitelist se opts (parse_statsd opts (parse_search opts k))"
  shows "k_net k' = k_net k" "k_store k' = k_store k" "k_DebugLevel k' = k_DebugLevel k" "k_TimeSlewDur k' = k_TimeSlewDur k"
    "l_LogLevel (k_log k') = l_LogLevel (k_log k)"
    "a_UseAuth (k_api k') = a_UseAuth (k_api k)" "a_ObjMaxSize (k_api k') = a_ObjMaxSize (k_api k)"
    "a_JSONReqMaxSize (k_api k') = a_JSONReqMaxSize (k_api k)" "a_DisableWebUI (k_api k') = a_DisableWebUI (k_api k)"
    "a_UseSerf (k_api k') = a_UseSerf (k_api k)" "a_SerfEventAnnounce (k_api k') = a_SerfEventAnnounce (k_api k)"
    "s_PgSearch (k_store k) \<Longrightarrow> a_DotSearch (k_api k')"
    "a_PprofWhitelist (o_api opts) \<noteq> [] \<Longrightarrow>
       k_pprofWhitelist k' = map (\<lambda>w. case se_ParseIP se w of Some ip \<Rightarrow> ip | None \<Rightarrow> []) (a_PprofWhitelist (o_api opts))"
  unfolding k'_def by (simp_all add: parse_search_def parse_statsd_def parse_whitelist_def Let_def)

text \<open>The configuration that comes out, in terms of the options and of what \<open>f\<close>, the file, gives.\<close>

lemma parsed_config:
  assumes "ParseConfigOptions se opts k0 = Inr k"
  obtains f where "parse_file se opts k0 = Inr f"
    "api_view (k_api k) = (a_UseAuth (o_api opts) \<or> a_UseAuth (k_api f),
       or_int (or_int (a_ObjMaxSize (o_api opts)) (a_ObjMaxSize (k_api f))) 10485760,
       or_int (or_int (a_JSONReqMaxSize (o_api opts)) (a_JSONReqMaxSize (k_api f))) 1000000,
       a_DisableWebUI (o_api opts) \<or> a_DisableWebUI (k_api f), a_DotSearch (k_api k), a_UseSerf (k_api k), a_SerfEventAnnounce (k_api k))"
    "n_Port (k_net k) = or_int (or_int (n_Port (o_net opts)) (n_Port (k_net f))) 4545"
    "let t = or_str (a_TimeSlew (o_api opts)) (a_TimeSlew (k_api f))
     in if t = [] then k_TimeSlewDur k = minutes 15 else se_ParseDuration se t = Some (k_TimeSlewDur k)"
    "l_LogLevel (k_log k) = or_str (l_LogLevel (o_log opts)) (l_LogLevel (k_log f))"
    "k_DebugLevel k = debug_level (o_Verbose opts) (l_LogLevel (k_log k)) (k_DebugLevel f)"
    "\<not> (s_UseMySQL (k_store k) \<and> s_UsePostgreSQL (k_store k))"
    "in_db (k_store k) \<Longrightarrow> s_IndexFile (k_store k) \<noteq> [] \<or> s_PgSearch (k_store k)"
    "s_DataStoreFile (k_store k) \<noteq> [] \<Longrightarrow> s_IndexFile (k_store k) \<noteq> []"
    "s_IndexFile (k_store k) \<noteq> [] \<Longrightarrow> s_DataStoreFile (k_store k) \<noteq> [] \<or> in_db (k_store k)"
    "s_PgSearch (o_store opts) \<Longrightarrow> s_UsePostgreSQL (k_store k)"
    "in_db (k_store k) \<Longrightarrow> s_LocalFstoreDir (k_store k) \<noteq> [] \<or> s_UseS3Upload (k_store k)"
    "s_UseS3Upload (k_store k) \<Longrightarrow> in_db (k_store k)"
    "n_UseSSL (k_net k) \<Longrightarrow> n_SSLCert (k_net k) \<noteq> [] \<and> n_SSLKey (k_net k) \<noteq> []"
    "n_Port (k_net k) = 443 \<Longrightarrow> n_UseSSL (k_net k)" "n_Port (k_net k) = 80 \<Longrightarrow> \<not> n_UseSSL (k_net k)"
    "a_SerfEventAnnounce (k_api k) \<Longrightarrow> a_UseSerf (k_api k)" "a_UseShovey (o_api opts) \<Longrightarrow> a_UseSerf (k_api k)"
    "s_PgSearch (k_store k) \<Longrightarrow> a_DotSearch (k_api k)"
    "a_PprofWhitelist (o_api opts) \<noteq> [] \<Longrightarrow>
       k_pprofWhitelist k = map (\<lambda>w. case se_ParseIP se w of Some ip \<Rightarrow> ip | None \<Rightarrow> []) (a_PprofWhitelist (o_api opts))"
proof (rule parsed [OF assms(1)])
  fix k1 k2 k3 k4 k5 k6 k7 k8 k9 k10
  assume s: "parse_file se opts k0 = Inr k1" "parse_impex opts k1 = Inr k2"
    "parse_stores opts (k2\<lparr>k_net := parse_hostname se opts (k_net k2)\<rparr>) = Inr k3" "parse_log se opts k3 = Inr k4"
    "parse_filestore se opts k4 = Inr k5" "parse_net se opts k5 = Inr k6" "parse_slew se opts k6 = Inr k7"
    "parse_serf opts (parse_limits opts k7) = Inr k8" "parse_keys se opts k8 = Inr k9"
    "parse_env se opts (parse_whitelist se opts (parse_statsd opts (parse_search opts k9))) = Inr k10" "parse_purges se opts k10 = Inr k"
  have h: "n_Port (parse_hostname se opts n) = n_Port n" for n by (simp add: parse_hostname_def Let_def)
  note p = parse_impex_Inr [OF s(2)] parse_stores_Inr [OF s(3)] parse_log_Inr [OF s(4)] parse_filestore_Inr [OF s(5)]
    parse_net_Inr [OF s(6)] parse_slew_Inr [OF s(7)] parse_serf_Inr [OF s(8)] parse_keys_Inr [OF s(9)] parse_env_Inr [OF s(10)]
    parse_purges_Inr [OF s(11)]
  have st: "db_view (k_store k) = db_view (k_store k5)" "s_LocalFstoreDir (k_store k) = s_LocalFstoreDir (k_store k5)"
    "s_UseS3Upload (k_store k) = s_UseS3Upload (k_store k5)" "db_view (k_store k5) = db_view (k_store k3)"
    using p by (simp_all add: limits_view [unfolded prod.inject] tail_view)
  then have db: "in_db (k_store k) = in_db (k_store k5)" "in_db (k_store k) = in_db (k_store k3)" by (simp_all add: in_db_def)
  show thesis
  proof (rule that [OF s(1)])
    show "in_db (k_store k) \<Longrightarrow> s_IndexFile (k_store k) \<noteq> [] \<or> s_PgSearch (k_store k)" using p(2) st(1,4) db(2) by simp
    show "s_DataStoreFile (k_store k) \<noteq> [] \<Longrightarrow> s_IndexFile (k_store k) \<noteq> []" using p(2) st(1,4) by simp
    show "s_IndexFile (k_store k) \<noteq> [] \<Longrightarrow> s_DataStoreFile (k_store k) \<noteq> [] \<or> in_db (k_store k)" using p(2) st(1,4) db(2) by simp
    show "s_PgSearch (o_store opts) \<Longrightarrow> s_UsePostgreSQL (k_store k)" using p(2) st(1,4) by simp
    show "in_db (k_store k) \<Longrightarrow> s_LocalFstoreDir (k_store k) \<noteq> [] \<or> s_UseS3Upload (k_store k)" using p(4) st(2,3) db(1) by simp
    show "s_UseS3Upload (k_store k) \<Longrightarrow> in_db (k_store k)" using p(4) st(3) db(1) by simp
  qed (use p h in \<open>simp_all add: limits_view [unfolded prod.inject] tail_view Let_def\<close>)
qed

text \<open>
  \<^bold>\<open>C33\<close> What the handlers read is the option of the command line if it is given, else the value of the
  configuration file, else the default; a flag is on if it is set in either place.
\<close>

theorem config_merged:
  assumes "ParseConfigOptions se opts k0 = Inr k" "parse_file se opts k0 = Inr f"
  shows "(UseAuth (handler_conf k) \<longleftrightarrow> a_UseAuth (o_api opts) \<or> a_UseAuth (k_api f)) \<and>
    (DisableWebUI (handler_conf k) \<longleftrightarrow> a_DisableWebUI (o_api opts) \<or> a_DisableWebUI (k_api f)) \<and>
    ObjMaxSize (handler_conf k) = or_int (or_int (a_ObjMaxSize (o_api opts)) (a_ObjMaxSize (k_api f))) 10485760 \<and>
    JSONReqMaxSize (handler_conf k) = or_int (or_int (a_JSONReqMaxSize (o_api opts)) (a_JSONReqMaxSize (k_api f))) 1000000 \<and>
    n_Port (k_net k) = or_int (or_int (n_Port (o_net opts)) (n_Port (k_net f))) 4545 \<and>
    (let t = or_str (a_TimeSlew (o_api opts)) (a_TimeSlew (k_api f))
     in if t = [] then TimeSlewDur (handler_conf k) = minutes 15 else se_ParseDuration se t = Some (TimeSlewDur (handler_conf k)))"
  by (rule parsed_config [OF assms(1)]) (use assms(2) in \<open>simp add: handler_conf_def Let_def\<close>)

definition no_options :: options where
  "no_options = \<lparr>o_Version = False, o_PrintManPage = False, o_Verbose = 0, o_ConfFile = [], o_Export = [], o_Import = [], o_Bootstrap = False,
     o_net = k_net initConfig, o_store = k_store initConfig, o_log = k_log initConfig, o_api = k_api initConfig\<rparr>"

definition plain_sysenv :: sysenv where
  "plain_sysenv = \<lparr>se_DecodeFile = (\<lambda>_ k. Some k), se_Hostname = Some ''chef'', se_OpenLog = (\<lambda>_. True), se_setLogger = (\<lambda>_. True),
     se_IsDir = (\<lambda>_. True), se_ParseIP = (\<lambda>a. if a = ''10.0.0.1'' then Some (map char_of [10, 0, 0, 1 :: nat]) else None),
     se_ParseDuration = (\<lambda>_. None), se_LoadKey = (\<lambda>_. True), se_Setenv = (\<lambda>_ _. True)\<rparr>"

theorem config_merged_witness:
  "\<exists>k. ParseConfigOptions plain_sysenv (no_options\<lparr>o_api := (o_api no_options)\<lparr>a_UseAuth := True\<rparr>\<rparr>) initConfig = Inr k \<and>
     UseAuth (handler_conf k) \<and> ObjMaxSize (handler_conf k) = 10485760 \<and> n_Port (k_net k) = 4545 \<and> TimeSlewDur (handler_conf k) = minutes 15"
proof -
  let ?o = "no_options\<lparr>o_api := (o_api no_options)\<lparr>a_UseAuth := True\<rparr>\<rparr>"
  have "case_sum (\<lambda>_. False) (\<lambda>_. True) (ParseConfigOptions plain_sysenv ?o initConfig)" by code_simp
  then obtain k where k: "ParseConfigOptions plain_sysenv ?o initConfig = Inr k" by (auto split: sum.splits)
  have "parse_file plain_sysenv ?o initConfig = Inr initConfig" by (simp add: parse_file_def no_options_def)
  from config_merged [OF k this] k show ?thesis
    by (auto simp: no_options_def initConfig_def or_int_def or_str_def)
qed

text \<open>
  \<^bold>\<open>C32\<close> A configuration that is accepted is consistent: one database at most; a data file only with an index file, and an
  index file only with a data file or a database; with a database there is an index
  file or the search of the database, and a place for uploaded files; S3 only with a database; SSL only with a
  certificate and a key, always on port 443 and never on port 80; events are announced over serf only; the search of the
  database uses dots. Two settings are checked when they come from the command line: jobs need serf, and the
  search of the database needs PostgreSQL.
\<close>

theorem config_consistent:
  assumes "ParseConfigOptions se opts k0 = Inr k"
  shows "\<not> (s_UseMySQL (k_store k) \<and> s_UsePostgreSQL (k_store k)) \<and>
    (s_DataStoreFile (k_store k) \<noteq> [] \<longrightarrow> s_IndexFile (k_store k) \<noteq> []) \<and>
    (s_IndexFile (k_store k) \<noteq> [] \<longrightarrow> s_DataStoreFile (k_store k) \<noteq> [] \<or> UsingDB k) \<and>
    (UsingDB k \<longrightarrow> (s_IndexFile (k_store k) \<noteq> [] \<or> s_PgSearch (k_store k)) \<and> (s_LocalFstoreDir (k_store k) \<noteq> [] \<or> s_UseS3Upload (k_store k))) \<and>
    (s_UseS3Upload (k_store k) \<longrightarrow> UsingDB k) \<and>
    (n_UseSSL (k_net k) \<longrightarrow> n_SSLCert (k_net k) \<noteq> [] \<and> n_SSLKey (k_net k) \<noteq> []) \<and>
    (n_Port (k_net k) = 443 \<longrightarrow> n_UseSSL (k_net k)) \<and> (n_Port (k_net k) = 80 \<longrightarrow> \<not> n_UseSSL (k_net k)) \<and>
    (a_SerfEventAnnounce (k_api k) \<or> a_UseShovey (o_api opts) \<longrightarrow> UseSerf (handler_conf k)) \<and>
    (s_PgSearch (o_store opts) \<longrightarrow> s_UsePostgreSQL (k_store k)) \<and>
    (s_PgSearch (k_store k) \<longrightarrow> DotSearch (handler_conf k)) \<and>
    n_Port (k_net k) \<noteq> 0 \<and> 0 \<noteq> ObjMaxSize (handler_conf k) \<and> 0 \<noteq> JSONReqMaxSize (handler_conf k)"
  by (rule parsed_config [OF assms]) (auto simp: handler_conf_def UsingDB_def in_db_def or_int_def split: if_splits)

theorem config_consistent_witness:
  "\<exists>k. ParseConfigOptions plain_sysenv (no_options\<lparr>o_net := (o_net no_options)\<lparr>n_Port := 443, n_SSLCert := ''c'', n_SSLKey := ''/k''\<rparr>\<rparr>) initConfig = Inr k \<and>
     n_Port (k_net k) = 443 \<and> n_UseSSL (k_net k)"
proof -
  let ?o = "no_options\<lparr>o_net := (o_net no_options)\<lparr>n_Port := 443, n_SSLCert := ''c'', n_SSLKey := ''/k''\<rparr>\<rparr>"
  have "case_sum (\<lambda>_. False) (\<lambda>k. n_Port (k_net k) = 443) (ParseConfigOptions plain_sysenv ?o initConfig)" by code_simp
  then obtain k where k: "ParseConfigOptions plain_sysenv ?o initConfig = Inr k" "n_Port (k_net k) = 443" by (auto split: sum.splits)
  from config_consistent [OF k(1)] k show ?thesis by blast
qed

text \<open>
  \<^bold>\<open>C36\<close> Reloading the configuration turns the log level around: \<open>ParseConfigOptions\<close> stores the level of the logger, which counts
  the other way, in the field from which it is computed. A server started without a configuration file and without a level
  logs nothing but fatal errors, after a reload everything, and after another one nothing again.
\<close>

theorem reload_flips_logging:
  assumes "ParseConfigOptions se opts k0 = Inr k1" "ParseConfigOptions se opts k1 = Inr k2"
    "o_ConfFile opts = []" "o_Verbose opts = 0" "l_LogLevel (o_log opts) = []" "l_LogLevel (k_log k0) = []"
    "0 \<le> k_DebugLevel k0" "k_DebugLevel k0 \<le> LevelFatal"
  shows "k_DebugLevel k1 = LevelFatal - k_DebugLevel k0 \<and> k_DebugLevel k2 = k_DebugLevel k0"
proof -
  have lvl: "l_LogLevel (k_log k') = l_LogLevel (k_log k) \<and> k_DebugLevel k' = debug_level 0 (l_LogLevel (k_log k)) (k_DebugLevel k)"
    if "ParseConfigOptions se opts k = Inr k'" for k k'
  proof (rule parsed_config [OF that])
    fix f
    assume f: "parse_file se opts k = Inr f" and l: "l_LogLevel (k_log k') = or_str (l_LogLevel (o_log opts)) (l_LogLevel (k_log f))"
      and d: "k_DebugLevel k' = debug_level (o_Verbose opts) (l_LogLevel (k_log k')) (k_DebugLevel f)"
    from f assms(3) have "f = k" by (auto simp: parse_file_def split: if_splits)
    then show ?thesis using l d assms(4,5) by (simp add: or_str_def)
  qed
  have "debug_level 0 [] d = LevelFatal - d" if "d \<le> LevelFatal" for d
    using that by (simp add: debug_level_def LevelFatal_def)
  then show ?thesis using lvl [OF assms(1)] lvl [OF assms(2)] assms(6-8) by simp
qed

theorem reload_flips_logging_witness:
  "\<exists>k1 k2. ParseConfigOptions plain_sysenv no_options initConfig = Inr k1 \<and> ParseConfigOptions plain_sysenv no_options k1 = Inr k2 \<and>
     k_DebugLevel k1 = 5 \<and> k_DebugLevel k2 = 0"
proof -
  have "case_sum (\<lambda>_. False) (\<lambda>_. True) (and_then (ParseConfigOptions plain_sysenv no_options initConfig) (ParseConfigOptions plain_sysenv no_options))"
    by code_simp
  then obtain k1 k2 where k: "ParseConfigOptions plain_sysenv no_options initConfig = Inr k1" "ParseConfigOptions plain_sysenv no_options k1 = Inr k2"
    by (auto simp: and_then_def split: sum.splits)
  from reload_flips_logging [OF k] k show ?thesis by (auto simp: no_options_def initConfig_def LevelFatal_def)
qed

text \<open>
  \<^bold>\<open>C34\<close> An invalid address in the whitelist of \<open>/debug/pprof\<close> given on the command line opens it to everybody. It is reported with the word aborting but
  stays in the list as \<open>nil\<close>; a request without the header \<open>X-Forwarded-For\<close> is looked up with the address \<open>nil\<close>, too. The
  hypotheses on \<open>nl\<close> are that \<open>net.ParseIP\<close> of the empty text is \<open>nil\<close> and that \<open>nil\<close> equals itself.
\<close>

theorem invalid_whitelist_opens_debug:
  assumes "ParseConfigOptions se opts k0 = Inr k" "w \<in> set (a_PprofWhitelist (o_api opts))" "se_ParseIP se w = None"
    "nl_ParseIP nl [] = []" "nl_Equal nl [] []" "nl_SplitHostPort nl (r_RemoteAddr r) = Some h" "header_Get r ''X-Forwarded-For'' = []"
  shows "\<not> debug_blocked (handler_conf k) nl r"
proof -
  have ne: "a_PprofWhitelist (o_api opts) \<noteq> []" using assms(2) by auto
  have "k_pprofWhitelist k = map (\<lambda>w. case se_ParseIP se w of Some ip \<Rightarrow> ip | None \<Rightarrow> []) (a_PprofWhitelist (o_api opts))"
    by (rule parsed_config [OF assms(1)]) (use ne in simp)
  then have "[] \<in> set (PprofWhitelist (handler_conf k))" using assms(2,3) by (force simp: handler_conf_def)
  then have "PprofWhitelisted (handler_conf k) nl []" using assms(5) by (auto simp: PprofWhitelisted_def list_ex_iff)
  then show ?thesis using assms(4,6,7) by (simp add: debug_blocked_def Let_def)
qed

definition plain_netlib :: netlib where
  "plain_netlib = \<lparr>nl_SplitHostPort = (\<lambda>a. Some (takeWhile (\<lambda>c. c \<noteq> CHR '':'') a)), nl_ParseIP = (\<lambda>_. []), nl_IsLoopback = (\<lambda>_. False),
     nl_Equal = (\<lambda>a b. a = b)\<rparr>"

theorem invalid_whitelist_opens_debug_witness:
  "\<exists>k. ParseConfigOptions plain_sysenv (no_options\<lparr>o_api := (o_api no_options)\<lparr>a_PprofWhitelist := [''localhost'']\<rparr>\<rparr>) initConfig = Inr k \<and>
     \<not> debug_blocked (handler_conf k) plain_netlib ((example_request MethodGet ''/debug/pprof'' [])\<lparr>r_RemoteAddr := ''1.2.3.4:5''\<rparr>)"
proof -
  let ?o = "no_options\<lparr>o_api := (o_api no_options)\<lparr>a_PprofWhitelist := [''localhost'']\<rparr>\<rparr>"
  have "case_sum (\<lambda>_. False) (\<lambda>_. True) (ParseConfigOptions plain_sysenv ?o initConfig)" by code_simp
  then obtain k where k: "ParseConfigOptions plain_sysenv ?o initConfig = Inr k" by (auto split: sum.splits)
  have "se_ParseIP plain_sysenv ''localhost'' = None" by (simp add: plain_sysenv_def)
  from invalid_whitelist_opens_debug [OF k _ this, of plain_netlib] k show ?thesis
    by (auto simp: plain_netlib_def header_Get_def header_values_def example_request_def)
qed

end
