(* ===== verification/Spec2Isabelle.thy ===== *)
theory Spec2Isabelle
  imports Running Resolution Migration Config
begin

text \<open>
  A verification development for goiardi, a Chef server written in Go, with its in-memory store.

  \<^bold>\<open>The program.\<close> Clients and users (actors) send signed HTTP requests about objects: nodes, roles,
  environments, data bags, cookbooks, sandboxes and uploaded files, run reports and jobs. A request
  goes through the gateway (\<^verbatim>\<open>goiardi.go\<close>: size limits, the check of the signature, finding the actor,
  routing), then a handler checks the rights of the actor and the body, calls the package of
  the object, writes the event log and answers with JSON. Every package keeps its objects in one
  shared data store and hands them to the search index, which is updated by goroutines. Next to the
  requests the server runs tickers that purge old data, and the output of jobs arrives from nodes.

  \<^bold>\<open>How it is modelled.\<close> A struct is a record, a dynamically typed value an element of the datatype
  \<open>gval\<close>, a result with an error an \<open>outcome\<close>: \<open>Ok\<close>, \<open>Err\<close> with message and status, or \<open>Panic\<close>. The
  whole state is the record \<open>server\<close> (data store, index, pending index jobs, locks); an
  operation takes it and returns it changed; a handler returns a reply and the server. All
  definitions compute, so that examples are evaluated by the simplifier. Integers are
  unbounded where Go's cannot overflow in practice and are wrapped (\<open>int64_add\<close>, \<open>int64_sub\<close>, words) where
  the code can be made to overflow; \<open>float64\<close> is modelled exactly by rationals and rounding.

  \<^bold>\<open>The theories.\<close>
  \<^item> \<^verbatim>\<open>Prelude\<close>, \<^verbatim>\<open>GoLib\<close>, \<^verbatim>\<open>Values\<close>, \<^verbatim>\<open>Float64\<close>: outcomes and the collection \<open>outcome_simps\<close>, Go's \<open>strconv\<close>, \<open>sort\<close>,
    strings and UTF-8, JSON values, floating-point numbers.
  \<^item> \<^verbatim>\<open>Validations\<close> (\<^verbatim>\<open>util/validations.go\<close>), \<^verbatim>\<open>Versioning\<close> (\<^verbatim>\<open>cookbook/versioning.go\<close>): what is accepted, the
    normal form of run lists, the order of versions, the meaning of constraints.
  \<^item> \<^verbatim>\<open>DataStore\<close> (\<^verbatim>\<open>datastore/datastore.go\<close>): the cache with its lists of names, node statuses and
    events. The locale \<open>object_store\<close> is the contract of one table: \<open>Get\<close> after \<open>Set\<close> and \<open>Delete\<close>, and the
    list of names. It is interpreted for every table; \<open>datastore_refines_map\<close> states it for all at once.
  \<^item> \<^verbatim>\<open>Flatten\<close> (\<^verbatim>\<open>util/util.go\<close>, \<^verbatim>\<open>util/strings.go\<close>), \<^verbatim>\<open>Trie\<close> (the vendored \<^verbatim>\<open>gtrie\<close>), \<^verbatim>\<open>Index\<close> (\<^verbatim>\<open>indexer/file_index.go\<close>,
    \<^verbatim>\<open>indexer/indexer.go\<close>): documents of the index, their tries, collections and searches. The builder of a trie works on a heap of
    nodes (\<open>automaton\<close>) with the registry of shared nodes; \<open>compressTrie\<close> gives the tree that its encoding stands for. The goroutines of
    \<open>IndexObj\<close> are pending jobs that run in any order.
  \<^item> \<^verbatim>\<open>Objects\<close>, \<^verbatim>\<open>Requests\<close>: the records of all objects, the server, what \<open>gob\<close> keeps of a value, decoded
    bodies (\<^verbatim>\<open>common.go\<close>). The locale \<open>typed_store\<close> extends \<open>object_store\<close> by the types of the values.
  \<^item> \<^verbatim>\<open>Actors\<close> (\<^verbatim>\<open>client\<close>, \<^verbatim>\<open>user\<close>, \<^verbatim>\<open>actor\<close>), \<^verbatim>\<open>FileStore\<close>, \<^verbatim>\<open>Sandbox\<close>, \<^verbatim>\<open>Nodes\<close>, \<^verbatim>\<open>Roles\<close>, \<^verbatim>\<open>Environments\<close>, \<^verbatim>\<open>DataBags\<close>,
    \<^verbatim>\<open>Cookbook\<close>, \<^verbatim>\<open>LogInfo\<close>, \<^verbatim>\<open>Reports\<close>, \<^verbatim>\<open>Shovey\<close>: the packages of these names, each with an invariant and what
    its operations do to the store. The locale \<open>admin_registry\<close> is about the last administrator.
  \<^item> \<^verbatim>\<open>Depends\<close>, \<^verbatim>\<open>Resolution\<close> (\<open>DependsCookbooks\<close> of \<^verbatim>\<open>cookbook/cookbook.go\<close>, \<^verbatim>\<open>cookbook/deperr.go\<close>, \<^verbatim>\<open>depgraph\<close>, \<^verbatim>\<open>digraph\<close>): the
    resolution of a run list, and when it returns.
  \<^item> \<^verbatim>\<open>QueryGrammar\<close>, \<^verbatim>\<open>QueryTermination\<close> (\<^verbatim>\<open>search/search-parse.peg.go\<close>), \<^verbatim>\<open>Query\<close>, \<^verbatim>\<open>QueryMeaning\<close> (\<^verbatim>\<open>search/parse.go\<close>,
    \<^verbatim>\<open>search/search.go\<close>): recognizing a query, the chain it gives and what it finds.
  \<^item> \<^verbatim>\<open>Http\<close>, \<^verbatim>\<open>Authentication\<close>, \<^verbatim>\<open>ActorHandlers\<close>, \<^verbatim>\<open>ObjectHandlers\<close>, \<^verbatim>\<open>DataHandlers\<close>, \<^verbatim>\<open>CookbookHandlers\<close>, \<^verbatim>\<open>SearchHandlers\<close>,
    \<^verbatim>\<open>ShoveyHandlers\<close>, \<^verbatim>\<open>Server\<close>: the handlers of the files of the main package and the gateway.
  \<^item> \<^verbatim>\<open>Jobs\<close>, \<^verbatim>\<open>Maintenance\<close>: jobs from start to output, and one round of each ticker of \<^verbatim>\<open>goiardi.go\<close>.
  \<^item> \<^verbatim>\<open>Access\<close>, \<^verbatim>\<open>Frame\<close>, \<^verbatim>\<open>Confinement\<close>, \<^verbatim>\<open>Running\<close>: the whole server. The locale \<open>object_frame\<close> carries a property
    of the store through all operations and handlers that are not about actors; it is interpreted for
    the names of actors, the rights of an actor and the types of the tables. The inductive relation
    \<open>served\<close> has a step for a request, for an index goroutine and for each ticker.
  \<^item> \<^verbatim>\<open>Config\<close> (\<^verbatim>\<open>config/config.go\<close>): how the command line and the configuration file become the configuration.
  \<^item> \<^verbatim>\<open>Export\<close>, \<^verbatim>\<open>Import\<close>, \<^verbatim>\<open>Migration\<close> (\<^verbatim>\<open>export.go\<close>, \<^verbatim>\<open>import.go\<close>): moving the data to another server, with the locale
    \<open>table_transfer\<close> for a table that comes back and \<open>untouched_view\<close> for what the import of later tables leaves alone.

  \<^bold>\<open>What is shown.\<close> Of the whole server: with authentication on, only signed requests change anything
  but uploading files (\<open>only_signed_requests_change\<close>); in every state that requests, goroutines and tickers
  reach, no name is that of a client and of a user, every table holds its own type and no
  lookup panics, and an actor that is no administrator leaves the other actors alone and gains
  no right. Of the components: the store refines maps; the trie of pairwise different lines accepts exactly these lines; once
  its goroutines have run the index holds exactly the stored nodes (\<open>index_follows_nodes\<close>); searches find what is stored and pages are windows; versions are totally ordered
  and constraints have their documented meaning; the greatest allowed version is chosen; deleting a version deletes
  exactly the files nobody uses; the last administrator stays; nodes and uploads are read back; purges remove
  exactly what is old; the output of a job is put together from chunks in any order; resolution and
  recognition of queries end under stated conditions. Where the code does not do what it means to, that is
  a theorem too: an update that drops the last administrator, a constraint and a query that never
  end, a late acknowledgement that undoes a result, an import that loses data bags and events, a reload that turns the log
  level around, an invalid address that opens the debug pages. A line that
  occurs twice in a document makes the trie accept a line too many, and longer lines after it can make the
  automaton cyclic, so that encoding it never ends (\<open>duplicate_makes_cycle\<close>, \<open>duplicate_lines_stop_server\<close>).

  \<^bold>\<open>Loops and fuel.\<close> Structural loops are recursive functions. \<open>replaceOrRegister\<close> has the number of nodes as fuel, which is
  enough for every list of words (\<open>replaceOrRegister_fuel\<close>), and the encoding of an automaton the number of nodes as depth: a
  recursion that is deeper never ends (\<open>unfold_enough\<close>). The recognizer of queries has a bound on the depth of
  calls; \<open>query_parse_terminates\<close> gives a depth that is enough for queries in ASCII, and queries outside it
  are proved to have none. The resolution of dependencies and reading the output of a job are partial
  functions in \<open>option\<close>, \<open>None\<close> for not returning; \<open>resolution_terminates\<close> and \<open>output_put_together\<close> show that they return.

  \<^bold>\<open>Parameters.\<close> Code outside the repository is an argument: \<open>crypto\<close> (keys, salts, password hashes), \<open>authlib\<close>
  (digests and signatures), \<open>world\<close> (the clock, MD5, \<open>fmt\<close>, time formats, random identifiers), \<open>regexp_engine\<close>,
  \<open>verlib\<close> (\<^verbatim>\<open>go-version\<close>), \<open>searchlib\<close>, \<open>shoveylib\<close> (serf), \<open>netlib\<close> (addresses), \<open>sysenv\<close>
  (files and the TOML decoder). The handlers take the record \<open>conf\<close>, which \<open>handler_conf\<close> makes of a parsed configuration.

  \<^bold>\<open>Not modelled.\<close> The SQL storage and the search in PostgreSQL (\<^verbatim>\<open>*/sql_funcs.go\<close>, \<^verbatim>\<open>*/mysql_funcs.go\<close>,
  \<^verbatim>\<open>*/postgres_funcs.go\<close>, \<^verbatim>\<open>search/postgres_search.go\<close>, \<^verbatim>\<open>indexer/postgres_indexer.go\<close>), whose meaning is that of the
  database; S3, Vault and serf (\<^verbatim>\<open>util/s3.go\<close>, \<^verbatim>\<open>secret\<close>, \<^verbatim>\<open>serfin\<close>), which call other servers; signals and the rest of
  \<open>main\<close>; saving the store and the index to disk;
  \<^verbatim>\<open>chefcrypto\<close>; the parts of \<^verbatim>\<open>digraph\<close> and \<^verbatim>\<open>depgraph\<close> that the server does not call; metrics and log output.
  Requests are handled one after the other, except where a theorem is about the interleaving of two
  (goroutines of the index, acknowledgements of jobs).
\<close>

end
